(* ===== verification/CPrelude.thy ===== *)
theory CPrelude
  imports Main "HOL-Library.Word" "HOL-Library.Monad_Syntax"
begin

unbundle bit_operations_syntax

text \<open>
  The prelude of the development: C integers as words, buffers as lists of bytes with
  checked little-endian loads and stores, the return codes of \<^verbatim>\<open>enum return_code\<close>
  (\<^verbatim>\<open>src/lib/nvm_types.h\<close>), and the generic lemmas the components share.

  A function of type \<open>'a option\<close> in this development returns \<open>None\<close> where the C
  function has no defined result: it reads or writes outside an object, dereferences a null
  pointer, shifts by too much, or never returns. Error returns of the code are ordinary
  values (negative \<open>int\<close> codes).
\<close>

section \<open>Integers and buffers\<close>

type_synonym u8 = "8 word"
type_synonym u16 = "16 word"
type_synonym u32 = "32 word"
type_synonym u64 = "64 word"
type_synonym bytes = "u8 list"

named_theorems io_simps \<open>loads, stores and their sizes\<close>

abbreviation (input) COMMON_ERR_INVALIDPARAMETER :: int where "COMMON_ERR_INVALIDPARAMETER \<equiv> - 39"

text \<open>\<^verbatim>\<open>BYTES_PER_GB\<close> is a 64-bit unsigned value, \<open>1024 * (1 << 20)\<close>.\<close>

definition BYTES_PER_GB :: u64 where
  "BYTES_PER_GB = 1073741824"

text \<open>\<^verbatim>\<open>MAX_UINT64_GB\<close> is \<open>(2^64 - 2) >> 30\<close>.\<close>

definition MAX_UINT64_GB :: u64 where
  "MAX_UINT64_GB = drop_bit 30 (0xFFFFFFFFFFFFFFFF - 1)"

text \<open>\<^verbatim>\<open>cmp_bytes\<close> of \<^verbatim>\<open>common_types.h\<close>; a null pointer is \<open>None\<close>.\<close>

fun cmp_bytes :: "bytes option \<Rightarrow> bytes option \<Rightarrow> nat \<Rightarrow> int option" where
  "cmp_bytes None _ _ = Some (-1)"
| "cmp_bytes (Some _) None _ = Some (-1)"
| "cmp_bytes (Some _) (Some _) 0 = Some 1"
| "cmp_bytes (Some (a # as)) (Some (b # bs)) (Suc n) =
     (if a \<noteq> b then Some 0 else cmp_bytes (Some as) (Some bs) n)"
| "cmp_bytes (Some _) (Some _) (Suc _) = None"

lemma cmp_bytes_eq:
  "n \<le> length as \<Longrightarrow> n \<le> length bs \<Longrightarrow>
   cmp_bytes (Some as) (Some bs) n = Some (if take n as = take n bs then 1 else 0)"
  by (induction "Some as" "Some bs" n arbitrary: as bs rule: cmp_bytes.induct) auto

subsection \<open>Little-endian values\<close>

fun le_nat :: "bytes \<Rightarrow> nat" where
  "le_nat [] = 0"
| "le_nat (b # bs) = unat b + 256 * le_nat bs"

fun nat_le :: "nat \<Rightarrow> nat \<Rightarrow> bytes" where
  "nat_le 0 v = []"
| "nat_le (Suc n) v = of_nat (v mod 256) # nat_le n (v div 256)"

lemma length_nat_le [simp, io_simps]: "length (nat_le n v) = n"
  by (induction n arbitrary: v) auto

lemma le_nat_nat_le: "le_nat (nat_le n v) = v mod 256 ^ n"
proof (induction n arbitrary: v)
  case 0
  then show ?case by simp
next
  case (Suc n)
  have "unat (of_nat (v mod 256) :: u8) = v mod 256"
    by (simp add: unat_of_nat)
  then show ?case
    by (simp add: Suc mod_mult2_eq)
qed

lemma le_nat_bound: "le_nat bs < 256 ^ length bs"
proof (induction bs)
  case Nil
  then show ?case by simp
next
  case (Cons b bs)
  have "unat b < 256" using unsigned_less [of b] by simp
  with Cons show ?case by simp
qed

definition load :: "nat \<Rightarrow> bytes \<Rightarrow> nat \<Rightarrow> nat option" where
  "load n buf off =
     (if off + n \<le> length buf then Some (le_nat (take n (drop off buf))) else None)"

definition store :: "bytes \<Rightarrow> nat \<Rightarrow> bytes \<Rightarrow> bytes option" where
  "store buf off bs =
     (if off + length bs \<le> length buf
      then Some (take off buf @ bs @ drop (off + length bs) buf) else None)"

definition rd8 :: "bytes \<Rightarrow> nat \<Rightarrow> u8 option" where
  "rd8 buf off = map_option of_nat (load 1 buf off)"

definition rd16 :: "bytes \<Rightarrow> nat \<Rightarrow> u16 option" where
  "rd16 buf off = map_option of_nat (load 2 buf off)"

definition rd32 :: "bytes \<Rightarrow> nat \<Rightarrow> u32 option" where
  "rd32 buf off = map_option of_nat (load 4 buf off)"

definition rd64 :: "bytes \<Rightarrow> nat \<Rightarrow> u64 option" where
  "rd64 buf off = map_option of_nat (load 8 buf off)"

definition rd_bytes :: "bytes \<Rightarrow> nat \<Rightarrow> nat \<Rightarrow> bytes option" where
  "rd_bytes buf off n =
     (if off + n \<le> length buf then Some (take n (drop off buf)) else None)"

definition le16 :: "u16 \<Rightarrow> bytes" where
  "le16 w = nat_le 2 (unat w)"

definition le32 :: "u32 \<Rightarrow> bytes" where
  "le32 w = nat_le 4 (unat w)"

definition le64 :: "u64 \<Rightarrow> bytes" where
  "le64 w = nat_le 8 (unat w)"

lemma length_le [simp, io_simps]:
  "length (le16 a) = 2" "length (le32 b) = 4" "length (le64 c) = 8"
  by (simp_all add: le16_def le32_def le64_def)

lemma load_append:
  "off = length xs \<Longrightarrow> length bs = n \<Longrightarrow> load n (xs @ bs @ ys) off = Some (le_nat bs)"
  by (simp add: load_def)

lemma rd8_append: "off = length xs \<Longrightarrow> rd8 (xs @ b # ys) off = Some b"
  by (simp add: rd8_def load_def)

lemma rd16_append: "off = length xs \<Longrightarrow> rd16 (xs @ le16 w @ ys) off = Some w"
proof -
  assume "off = length xs"
  moreover have "unat w < 256 ^ 2" using unsigned_less [of w] by simp
  ultimately show ?thesis
    by (simp add: rd16_def load_append le16_def le_nat_nat_le)
qed

lemma rd32_append: "off = length xs \<Longrightarrow> rd32 (xs @ le32 w @ ys) off = Some w"
proof -
  assume "off = length xs"
  moreover have "unat w < 256 ^ 4" using unsigned_less [of w] by simp
  ultimately show ?thesis
    by (simp add: rd32_def load_append le32_def le_nat_nat_le)
qed

lemma rd64_append: "off = length xs \<Longrightarrow> rd64 (xs @ le64 w @ ys) off = Some w"
proof -
  assume "off = length xs"
  moreover have "unat w < 256 ^ 8" using unsigned_less [of w] by simp
  ultimately show ?thesis
    by (simp add: rd64_def load_append le64_def le_nat_nat_le)
qed

lemma rd_Some_iff:
  "(\<exists>v. rd8 buf off = Some v) \<longleftrightarrow> off + 1 \<le> length buf"
  "(\<exists>v. rd16 buf off = Some v) \<longleftrightarrow> off + 2 \<le> length buf"
  "(\<exists>v. rd32 buf off = Some v) \<longleftrightarrow> off + 4 \<le> length buf"
  "(\<exists>v. rd64 buf off = Some v) \<longleftrightarrow> off + 8 \<le> length buf"
  by (auto simp: rd8_def rd16_def rd32_def rd64_def load_def)

lemma length_store: "store buf off bs = Some buf' \<Longrightarrow> length buf' = length buf"
  by (auto simp: store_def split: if_splits)

section \<open>Searching an array\<close>

text \<open>
  The loop \<^verbatim>\<open>for (i = 0; i < n; i++) if (P(xs[i])) { ...; break; }\<close>. The result is
  \<open>None\<close> when the loop reads past the array, \<open>Some None\<close> when nothing matches and
  \<open>Some (Some i)\<close> for the first match.
\<close>

fun search :: "('a \<Rightarrow> bool) \<Rightarrow> 'a list \<Rightarrow> nat \<Rightarrow> nat \<Rightarrow> nat option option" where
  "search P xs 0 i = Some None"
| "search P [] (Suc n) i = None"
| "search P (x # xs) (Suc n) i = (if P x then Some (Some i) else search P xs n (Suc i))"

lemma search_defined: "n \<le> length xs \<Longrightarrow> search P xs n i \<noteq> None"
  by (induction P xs n i rule: search.induct) auto

lemma search_ex: "\<exists>r. search P xs (length xs) i = Some r"
  using search_defined [of "length xs" xs P i] by auto

lemma search_Some_None:
  "search P xs (length xs) i = Some None \<longleftrightarrow> (\<forall>x \<in> set xs. \<not> P x)"
  by (induction xs arbitrary: i) auto

lemma search_Some_Some_aux:
  "search P xs (length xs) i = Some (Some k) \<Longrightarrow>
   i \<le> k \<and> k - i < length xs \<and> P (xs ! (k - i)) \<and> (\<forall>j < k - i. \<not> P (xs ! j))"
proof (induction xs arbitrary: i)
  case Nil
  then show ?case by simp
next
  case (Cons x xs)
  show ?case
  proof (cases "P x")
    case True
    with Cons.prems show ?thesis by simp
  next
    case False
    with Cons.prems have "search P xs (length xs) (Suc i) = Some (Some k)" by simp
    from Cons.IH [OF this]
    have IH: "Suc i \<le> k" "k - Suc i < length xs" "P (xs ! (k - Suc i))"
      "\<forall>j < k - Suc i. \<not> P (xs ! j)" by auto
    then obtain m where m: "k - i = Suc m" "m = k - Suc i"
      by (metis Suc_diff_Suc Suc_le_eq)
    have "\<not> P ((x # xs) ! j)" if "j < k - i" for j
      using that IH(4) m False by (cases j) auto
    with IH m show ?thesis by auto
  qed
qed

lemma search_Some_Some:
  "search P xs (length xs) 0 = Some (Some k) \<Longrightarrow>
   k < length xs \<and> P (xs ! k) \<and> (\<forall>j < k. \<not> P (xs ! j))"
  using search_Some_Some_aux [of P xs 0 k] by simp

lemma search_first:
  assumes "k < length xs" "P (xs ! k)" "\<And>j. j < k \<Longrightarrow> \<not> P (xs ! j)"
  shows "search P xs (length xs) 0 = Some (Some k)"
proof -
  obtain r where r: "search P xs (length xs) 0 = Some r"
    using search_defined [of "length xs" xs P 0] by auto
  with assms(1,2) have "r \<noteq> None"
    by (metis nth_mem search_Some_None)
  then obtain k' where k': "r = Some k'" by auto
  from search_Some_Some [OF r [unfolded k']] assms have "k' = k"
    by (metis nat_neq_iff)
  with r k' show ?thesis by simp
qed

lemma search_cong:
  "length xs = length ys \<Longrightarrow> (\<And>j. j < length xs \<Longrightarrow> P (xs ! j) = Q (ys ! j)) \<Longrightarrow>
   search P xs n i = search Q ys n i"
proof (induction xs ys arbitrary: n i rule: list_induct2)
  case Nil
  then show ?case by (cases n) auto
next
  case (Cons x xs y ys)
  have "P x = Q y" using Cons.prems [of 0] by simp
  moreover have "search P xs m (Suc i) = search Q ys m (Suc i)" for m
    using Cons.prems [of "Suc _"] by (intro Cons.IH) auto
  ultimately show ?case by (cases n) auto
qed

section \<open>Return codes\<close>

abbreviation (input) NVM_SUCCESS :: int where "NVM_SUCCESS \<equiv> 0"
abbreviation (input) NVM_ERR_UNKNOWN :: int where "NVM_ERR_UNKNOWN \<equiv> - 1"
abbreviation (input) NVM_ERR_NOMEMORY :: int where "NVM_ERR_NOMEMORY \<equiv> - 2"
abbreviation (input) NVM_ERR_NOTSUPPORTED :: int where "NVM_ERR_NOTSUPPORTED \<equiv> - 3"
abbreviation (input) NVM_ERR_INVALIDPARAMETER :: int where "NVM_ERR_INVALIDPARAMETER \<equiv> - 4"
abbreviation (input) NVM_ERR_NOTMANAGEABLE :: int where "NVM_ERR_NOTMANAGEABLE \<equiv> - 5"
abbreviation (input) NVM_ERR_INVALIDPERMISSIONS :: int where "NVM_ERR_INVALIDPERMISSIONS \<equiv> - 6"
abbreviation (input) NVM_ERR_DEVICEERROR :: int where "NVM_ERR_DEVICEERROR \<equiv> - 9"
abbreviation (input) NVM_ERR_DEVICEBUSY :: int where "NVM_ERR_DEVICEBUSY \<equiv> - 10"
abbreviation (input) NVM_ERR_BADPASSPHRASE :: int where "NVM_ERR_BADPASSPHRASE \<equiv> - 11"
abbreviation (input) NVM_ERR_INVALIDPASSPHRASE :: int where "NVM_ERR_INVALIDPASSPHRASE \<equiv> - 12"
abbreviation (input) NVM_ERR_SECURITYFROZEN :: int where "NVM_ERR_SECURITYFROZEN \<equiv> - 13"
abbreviation (input) NVM_ERR_LIMITPASSPHRASE :: int where "NVM_ERR_LIMITPASSPHRASE \<equiv> - 14"
abbreviation (input) NVM_ERR_SECURITYDISABLED :: int where "NVM_ERR_SECURITYDISABLED \<equiv> - 15"
abbreviation (input) NVM_ERR_BADDEVICE :: int where "NVM_ERR_BADDEVICE \<equiv> - 16"
abbreviation (input) NVM_ERR_ARRAYTOOSMALL :: int where "NVM_ERR_ARRAYTOOSMALL \<equiv> - 17"
abbreviation (input) NVM_ERR_BADPOOL :: int where "NVM_ERR_BADPOOL \<equiv> - 21"
abbreviation (input) NVM_ERR_BADNAMESPACE :: int where "NVM_ERR_BADNAMESPACE \<equiv> - 22"
abbreviation (input) NVM_ERR_BADBLOCKSIZE :: int where "NVM_ERR_BADBLOCKSIZE \<equiv> - 23"
abbreviation (input) NVM_ERR_BADSIZE :: int where "NVM_ERR_BADSIZE \<equiv> - 24"
abbreviation (input) NVM_ERR_BADSECURITYSTATE :: int where "NVM_ERR_BADSECURITYSTATE \<equiv> - 30"
abbreviation (input) NVM_ERR_NAMESPACESEXIST :: int where "NVM_ERR_NAMESPACESEXIST \<equiv> - 32"
abbreviation (input) NVM_ERR_NOTFOUND :: int where "NVM_ERR_NOTFOUND \<equiv> - 33"
abbreviation (input) NVM_ERR_BADDEVICECONFIG :: int where "NVM_ERR_BADDEVICECONFIG \<equiv> - 34"
abbreviation (input) NVM_ERR_BADALIGNMENT :: int where "NVM_ERR_BADALIGNMENT \<equiv> - 36"
abbreviation (input) NVM_ERR_BADNAMESPACETYPE :: int where "NVM_ERR_BADNAMESPACETYPE \<equiv> - 39"
abbreviation (input) NVM_ERR_BADNAMESPACEENABLESTATE :: int where
  "NVM_ERR_BADNAMESPACEENABLESTATE \<equiv> - 40"
abbreviation (input) NVM_ERR_BADSECURITYGOAL :: int where "NVM_ERR_BADSECURITYGOAL \<equiv> - 41"
abbreviation (input) NVM_ERR_TOOMANYNAMESPACES :: int where "NVM_ERR_TOOMANYNAMESPACES \<equiv> - 43"
abbreviation (input) NVM_ERR_CONFIGNOTSUPPORTED :: int where "NVM_ERR_CONFIGNOTSUPPORTED \<equiv> - 44"
abbreviation (input) NVM_ERR_BADNAMESPACESETTING :: int where "NVM_ERR_BADNAMESPACESETTING \<equiv> - 46"

end
