(* ===== verification/NvmTypes.thy ===== *)
theory NvmTypes
  imports CPrelude
begin

text \<open>
  The data types of the library's public interface (\<^verbatim>\<open>src/lib/nvm_management.h\<close> and
  \<^verbatim>\<open>src/lib/nvm_types.h\<close>) that the modelled components pass around. A C struct is a
  record with the struct's fields in the struct's order; a field whose name another struct
  also uses carries a short prefix. A C enum that is only compared is a datatype. A fixed
  char or byte array is a list, a \<^verbatim>\<open>NVM_BOOL\<close> that the code stores as a raw byte is a
  \<^verbatim>\<open>u8\<close>, one that is only tested is a \<^verbatim>\<open>bool\<close>.
\<close>

type_synonym guid = bytes
type_synonym handle = u32

section \<open>Devices\<close>

datatype manageability_state =
  MANAGEMENT_UNKNOWN | MANAGEMENT_VALIDCONFIG | MANAGEMENT_INVALIDCONFIG

datatype lock_state =
    LOCK_STATE_UNKNOWN | LOCK_STATE_DISABLED | LOCK_STATE_UNLOCKED | LOCK_STATE_LOCKED
  | LOCK_STATE_FROZEN | LOCK_STATE_PASSPHRASE_LIMIT | LOCK_STATE_NOT_SUPPORTED

datatype memory_type = MEMORY_TYPE_UNKNOWN | MEMORY_TYPE_DDR4 | MEMORY_TYPE_NVMDIMM

record device_security_capabilities =
  passphrase_capable :: bool
  unlock_device_capable :: bool
  erase_overwrite_capable :: bool
  erase_crypto_capable :: bool

record device_capabilities =
  die_sparing_capable :: bool
  memory_mode_capable :: bool
  storage_mode_capable :: bool
  app_direct_mode_capable :: bool

record device_discovery =
  dev_guid :: guid
  manageability :: manageability_state
  device_handle :: handle
  physical_id :: u16
  vendor_id :: u16
  device_id :: u16
  revision_id :: u16
  channel_pos :: u16
  channel_id :: u16
  memory_controller_id :: u16
  dev_socket_id :: u16
  node_controller_id :: u16
  memory_type :: memory_type
  manufacturer :: bytes
  serial_number :: bytes
  model_number :: bytes
  fw_revision :: bytes
  fw_api_version :: bytes
  dev_capacity :: u64
  interface_format_code :: u16
  dev_security_capabilities :: device_security_capabilities
  dev_lock_state :: lock_state
  dev_capabilities :: device_capabilities
  dimm_sku :: u32

section \<open>Interleave formats\<close>

datatype interleave_size =
    INTERLEAVE_SIZE_64B | INTERLEAVE_SIZE_128B | INTERLEAVE_SIZE_256B
  | INTERLEAVE_SIZE_4KB | INTERLEAVE_SIZE_1GB

datatype interleave_ways =
    INTERLEAVE_WAYS_0 | INTERLEAVE_WAYS_1 | INTERLEAVE_WAYS_2 | INTERLEAVE_WAYS_3
  | INTERLEAVE_WAYS_4 | INTERLEAVE_WAYS_6 | INTERLEAVE_WAYS_8 | INTERLEAVE_WAYS_12
  | INTERLEAVE_WAYS_16 | INTERLEAVE_WAYS_24

fun ways_value :: "interleave_ways \<Rightarrow> nat" where
  "ways_value INTERLEAVE_WAYS_0 = 0"
| "ways_value INTERLEAVE_WAYS_1 = 1"
| "ways_value INTERLEAVE_WAYS_2 = 2"
| "ways_value INTERLEAVE_WAYS_3 = 3"
| "ways_value INTERLEAVE_WAYS_4 = 4"
| "ways_value INTERLEAVE_WAYS_6 = 6"
| "ways_value INTERLEAVE_WAYS_8 = 8"
| "ways_value INTERLEAVE_WAYS_12 = 12"
| "ways_value INTERLEAVE_WAYS_16 = 16"
| "ways_value INTERLEAVE_WAYS_24 = 24"

record interleave_format =
  recommended :: u8
  channel :: interleave_size
  imc :: interleave_size
  ways :: interleave_ways

section \<open>Capabilities\<close>

datatype volatile_mode =
  VOLATILE_MODE_1LM | VOLATILE_MODE_MEMORY | VOLATILE_MODE_AUTO | VOLATILE_MODE_UNKNOWN

datatype app_direct_mode =
  APP_DIRECT_MODE_DISABLED | APP_DIRECT_MODE_ENABLED | APP_DIRECT_MODE_UNKNOWN

record memory_capabilities =
  mc_supported :: bool
  interleave_alignment_size :: u16
  interleave_formats_count :: u16
  interleave_formats :: "interleave_format list"

record platform_capabilities =
  bios_config_support :: bool
  bios_runtime_support :: bool
  memory_mirror_supported :: bool
  storage_mode_supported :: bool
  memory_spare_supported :: bool
  memory_migration_supported :: bool
  one_lm_mode :: memory_capabilities
  pc_memory_mode :: memory_capabilities
  pc_app_direct_mode :: memory_capabilities
  current_volatile_mode :: volatile_mode
  current_app_direct_mode :: app_direct_mode

record nvm_features =
  get_platform_capabilities :: bool
  get_devices_feature :: bool
  get_device_smbios :: bool
  get_device_health :: bool
  get_device_settings :: bool
  modify_device_settings :: bool
  get_device_security :: bool
  modify_device_security :: bool
  get_device_performance :: bool
  get_device_firmware :: bool
  update_device_firmware :: bool
  get_sensors :: bool
  modify_sensors :: bool
  get_device_capacity :: bool
  modify_device_capacity :: bool
  get_pools_feature :: bool
  get_namespaces :: bool
  get_namespace_details :: bool
  create_namespace :: bool
  rename_namespace :: bool
  grow_namespace :: bool
  shrink_namespace :: bool
  enable_namespace :: bool
  disable_namespace :: bool
  delete_namespace :: bool
  get_address_scrub_data :: bool
  start_address_scrub :: bool
  quick_diagnostic :: bool
  platform_config_diagnostic :: bool
  pm_metadata_diagnostic :: bool
  security_diagnostic :: bool
  fw_consistency_diagnostic :: bool
  memory_mode :: bool
  app_direct_mode :: bool
  storage_mode :: bool

record sw_capabilities =
  block_size_count :: u32
  block_sizes :: "u32 list"
  min_namespace_size :: u64

record dimm_sku_capabilities =
  mixed_sku :: bool
  memory_sku :: bool
  app_direct_sku :: bool
  storage_sku :: bool

record nvm_capabilities =
  nvm_features :: nvm_features
  sw_capabilities :: sw_capabilities
  platform_capabilities :: platform_capabilities
  sku_capabilities :: dimm_sku_capabilities

section \<open>Pools, goals and namespaces\<close>

datatype encryption_status = NVM_ENCRYPTION_OFF | NVM_ENCRYPTION_ON

datatype interleave_set_health =
    INTERLEAVE_HEALTH_UNKNOWN | INTERLEAVE_HEALTH_NORMAL
  | INTERLEAVE_HEALTH_DEGRADED | INTERLEAVE_HEALTH_FAILED

datatype pool_type =
  POOL_TYPE_UNKNOWN | POOL_TYPE_PERSISTENT | POOL_TYPE_VOLATILE | POOL_TYPE_PERSISTENT_MIRROR

datatype pool_health =
    POOL_HEALTH_UNKNOWN | POOL_HEALTH_NORMAL | POOL_HEALTH_WARNING
  | POOL_HEALTH_DEGRADED | POOL_HEALTH_FAILED

text \<open>The arrays of an interleave set and of a pool carry as many entries as their count
  field says; the fixed array size is a bound on that count.\<close>

abbreviation (input) NVM_MAX_DEVICES_PER_POOL :: nat where "NVM_MAX_DEVICES_PER_POOL \<equiv> 128"

record interleave_set =
  set_index :: u32
  driver_id :: u32
  is_size :: u64
  available_size :: u64
  is_settings :: interleave_format
  is_socket_id :: u8
  is_dimms :: "guid list"
  is_mirrored :: u8
  is_health :: interleave_set_health
  is_encryption :: encryption_status
  is_erase_capable :: bool

record pool =
  pool_guid :: guid
  pl_type :: pool_type
  pl_capacity :: u64
  free_capacity :: u64
  pl_socket_id :: "16 word"
  raw_capacities :: "u64 list"
  memory_capacities :: "u64 list"
  storage_capacities :: "u64 list"
  pl_dimms :: "guid list"
  ilsets :: "interleave_set list"
  pl_health :: pool_health
  encryption_enabled :: bool
  encryption_capable :: bool
  pl_erase_capable :: bool

record app_direct_attributes =
  interleave :: interleave_format
  mirrored :: u8
  dimms :: "guid list"

datatype config_goal_status =
    CONFIG_GOAL_STATUS_UNKNOWN | CONFIG_GOAL_STATUS_NEW | CONFIG_GOAL_STATUS_SUCCESS
  | CONFIG_GOAL_STATUS_ERR_BADREQUEST | CONFIG_GOAL_STATUS_ERR_INSUFFICIENTRESOURCES
  | CONFIG_GOAL_STATUS_ERR_FW | CONFIG_GOAL_STATUS_ERR_UNKNOWN

record config_goal =
  memory_size :: u64
  app_direct_count :: u16
  app_direct_1_size :: u64
  app_direct_1_set_id :: u16
  app_direct_1_settings :: app_direct_attributes
  app_direct_2_size :: u64
  app_direct_2_set_id :: u16
  app_direct_2_settings :: app_direct_attributes
  goal_status :: config_goal_status

datatype namespace_type = NAMESPACE_TYPE_UNKNOWN | NAMESPACE_TYPE_STORAGE | NAMESPACE_TYPE_APP_DIRECT

datatype namespace_health =
    NAMESPACE_HEALTH_UNKNOWN | NAMESPACE_HEALTH_NORMAL | NAMESPACE_HEALTH_NONCRITICAL
  | NAMESPACE_HEALTH_CRITICAL | NAMESPACE_HEALTH_BROKENMIRROR

datatype namespace_enable_state =
    NAMESPACE_ENABLE_STATE_UNKNOWN | NAMESPACE_ENABLE_STATE_ENABLED
  | NAMESPACE_ENABLE_STATE_DISABLED

record namespace_discovery =
  namespace_guid :: guid
  nsd_friendly_name :: string

record namespace_security_features =
  nsf_encryption :: encryption_status
  nsf_erase_capable :: bool

datatype creation_id = Device_guid guid | Interleave_setid u32

record namespace_details =
  nd_discovery :: namespace_discovery
  nd_pool_guid :: guid
  nd_block_size :: u32
  nd_block_count :: u64
  nd_type :: namespace_type
  nd_health :: namespace_health
  nd_enabled :: namespace_enable_state
  nd_btt :: bool
  nd_security_features :: namespace_security_features
  nd_interleave_format :: interleave_format
  nd_mirrored :: u8
  nd_creation_id :: creation_id

record namespace_create_settings =
  ncs_friendly_name :: string
  ncs_block_size :: u16
  ncs_block_count :: u64
  ncs_type :: namespace_type
  ncs_enabled :: namespace_enable_state
  ncs_btt :: bool
  ncs_security_features :: namespace_security_features

end
