(* ===== verification/Guid.thy ===== *)
theory Guid
  imports NvmTypes
begin

text \<open>
  GUIDs (\<^verbatim>\<open>src/common/guid/guid.c\<close>): comparison, the canonical text form and its
  inverse, and the RFC 4122 name-based GUID made from a SHA-1 digest. The random generator
  and SHA-1 itself are OpenSSL and libc; the digest is a parameter.
\<close>

abbreviation (input) GUID_LEN :: nat where "GUID_LEN \<equiv> 16"

section \<open>Comparison\<close>

definition guid_cmp :: "guid option \<Rightarrow> guid option \<Rightarrow> int option" where
  "guid_cmp g h = cmp_bytes g h GUID_LEN"

text \<open>The C truth value of \<^verbatim>\<open>guid_cmp(g, h)\<close> for two non-null GUID arrays.\<close>

definition guid_match :: "guid \<Rightarrow> guid \<Rightarrow> bool" where
  "guid_match g h = (case guid_cmp (Some g) (Some h) of Some r \<Rightarrow> r \<noteq> 0 | None \<Rightarrow> False)"

lemma guid_match_iff [simp]:
  "length g = GUID_LEN \<Longrightarrow> length h = GUID_LEN \<Longrightarrow> guid_match g h \<longleftrightarrow> g = h"
  by (simp add: guid_match_def guid_cmp_def cmp_bytes_eq)

lemma guid_cmp_null: "guid_cmp None h = Some (- 1)"
  by (simp add: guid_cmp_def)

section \<open>Text form\<close>

definition hex_digit :: "nat \<Rightarrow> char" where
  "hex_digit n = ''0123456789abcdef'' ! n"

text \<open>\<^verbatim>\<open>snprintf("%02x")\<close>; the code writes ''00'' itself for the value 0.\<close>

definition int_to_hex_str :: "u8 \<Rightarrow> string" where
  "int_to_hex_str v =
     (if v = 0 then ''00'' else [hex_digit (unat v div 16), hex_digit (unat v mod 16)])"

definition guid_to_str :: "guid option \<Rightarrow> string" where
  "guid_to_str guid =
     (case guid of
        None \<Rightarrow> ''''
      | Some g \<Rightarrow>
          int_to_hex_str (g ! 0) @ int_to_hex_str (g ! 1) @
          int_to_hex_str (g ! 2) @ int_to_hex_str (g ! 3) @ ''-'' @
          int_to_hex_str (g ! 4) @ int_to_hex_str (g ! 5) @ ''-'' @
          int_to_hex_str (g ! 6) @ int_to_hex_str (g ! 7) @ ''-'' @
          int_to_hex_str (g ! 8) @ int_to_hex_str (g ! 9) @ ''-'' @
          int_to_hex_str (g ! 10) @ int_to_hex_str (g ! 11) @
          int_to_hex_str (g ! 12) @ int_to_hex_str (g ! 13) @
          int_to_hex_str (g ! 14) @ int_to_hex_str (g ! 15))"

text \<open>\<^verbatim>\<open>hextable\<close>: \<open>- 1\<close> for every character that is not a hexadecimal digit.\<close>

definition hextable :: "char \<Rightarrow> int" where
  "hextable c =
     (let n = of_char c :: nat in
      if 48 \<le> n \<and> n \<le> 57 then int n - 48
      else if 65 \<le> n \<and> n \<le> 70 then int n - 55
      else if 97 \<le> n \<and> n \<le> 102 then int n - 87
      else - 1)"

fun hexdec :: "u32 \<Rightarrow> string \<Rightarrow> u32" where
  "hexdec result [] = result"
| "hexdec result (c # cs) =
     (if c = CHR 0x00 then result
      else hexdec (push_bit 4 result OR word_of_int (hextable c)) cs)"

definition hexstr_to_int :: "string \<Rightarrow> nat \<Rightarrow> u32" where
  "hexstr_to_int s i = hexdec 0 [s ! i, s ! Suc i]"

text \<open>Each octet is read at a fixed position of the 37-character buffer.\<close>

definition str_to_guid :: "string option \<Rightarrow> guid" where
  "str_to_guid str =
     (case str of
        None \<Rightarrow> replicate GUID_LEN 0
      | Some s \<Rightarrow>
          map (\<lambda>i. ucast (hexstr_to_int s i))
            [0, 2, 4, 6, 9, 11, 14, 16, 19, 21, 24, 26, 28, 30, 32, 34])"

declare hexdec.simps [simp del]

lemma int_to_hex_str_eq:
  "int_to_hex_str v = [hex_digit (unat v div 16), hex_digit (unat v mod 16)]"
  by (simp add: int_to_hex_str_def hex_digit_def)

lemma length_guid_to_str: "length (guid_to_str (Some g)) = 36"
  by (simp add: guid_to_str_def int_to_hex_str_eq)

lemma hexdec_digits:
  "\<forall>h \<in> set [0..<16]. \<forall>l \<in> set [0..<16].
     hexdec 0 [hex_digit h, hex_digit l] = of_nat (16 * h + l)"
  by code_simp

lemma hexdec_hex_str:
  "(ucast (hexdec 0 [hex_digit (unat v div 16), hex_digit (unat v mod 16)]) :: u8) = v"
proof -
  have "unat v < 256" using unsigned_less [of v] by simp
  moreover from this have "hexdec 0 [hex_digit (unat v div 16), hex_digit (unat v mod 16)]
      = of_nat (16 * (unat v div 16) + unat v mod 16)"
    by (intro bspec [OF bspec [OF hexdec_digits]]) auto
  ultimately show ?thesis
    by (simp add: word_unat_eq_iff unsigned_ucast_eq unsigned_of_nat take_bit_nat_eq_self)
qed

text \<open>A GUID survives printing and reading back, whatever follows the text in the buffer.\<close>

theorem str_to_guid_guid_to_str:
  assumes "length g = GUID_LEN"
  shows "str_to_guid (Some (guid_to_str (Some g) @ pad)) = g"
proof -
  have "str_to_guid (Some (guid_to_str (Some g) @ pad)) =
      [g ! 0, g ! 1, g ! 2, g ! 3, g ! 4, g ! 5, g ! 6, g ! 7,
       g ! 8, g ! 9, g ! 10, g ! 11, g ! 12, g ! 13, g ! 14, g ! 15]"
    by (simp add: str_to_guid_def guid_to_str_def int_to_hex_str_eq hexstr_to_int_def
        hexdec_hex_str)
  also have "\<dots> = map (\<lambda>i. g ! i) [0..<16]" by (simp add: upt_rec numeral_eq_Suc)
  finally show ?thesis using assms map_nth [of g] by simp
qed

theorem str_to_guid_guid_to_str_witness:
  "str_to_guid (Some (guid_to_str (Some (replicate 16 0xA7)) @ ''x'')) = replicate 16 0xA7"
  using str_to_guid_guid_to_str [of "replicate 16 0xA7" "''x''"] by simp

section \<open>Name-based GUIDs\<close>

text \<open>\<open>sha1\<close> is the digest function (\<^verbatim>\<open>SHA1\<close> of OpenSSL, \<open>None\<close> on failure). The
  result pairs the return value with the GUID, \<open>None\<close> when it is not written.\<close>

definition guid_hash :: "(bytes \<Rightarrow> bytes option) \<Rightarrow> bytes \<Rightarrow> int \<times> guid option" where
  "guid_hash sha1 source =
     (case sha1 source of
        None \<Rightarrow> (0, None)
      | Some h \<Rightarrow>
          (1, Some (take 4 h @ [h ! 4, h ! 5] @
                    [h ! 6, (h ! 7 AND 0x0F) XOR 0x50] @
                    [(h ! 8 AND 0x3F) XOR 0x80, h ! 9] @
                    take 6 (drop 10 h))))"

text \<open>A GUID computed from a name is sixteen bytes long and carries the version (5, name-based
  with SHA-1) and variant bits of RFC 4122, at the places where the code puts them.\<close>

theorem guid_hash_version:
  assumes "sha1 src = Some h" "length h = 20"
  shows "\<exists>g. guid_hash sha1 src = (1, Some g) \<and> length g = GUID_LEN \<and>
           drop_bit 4 (g ! 7) = 5 \<and> drop_bit 6 (g ! 8) = 2"
proof -
  have nib: "drop_bit 4 ((x AND 0x0F) XOR 0x50) = 5" for x :: u8
    by (simp add: drop_bit_xor drop_bit_and)
  have var: "drop_bit 6 ((x AND 0x3F) XOR 0x80) = 2" for x :: u8
    by (simp add: drop_bit_xor drop_bit_and)
  have t: "length (take 4 h) = 4" using assms by simp
  show ?thesis using assms nib var t
    by (simp add: guid_hash_def nth_append)
qed

theorem guid_hash_version_witness:
  "\<exists>g. guid_hash (\<lambda>_. Some (replicate 20 0xFF)) [1, 2] = (1, Some g) \<and> drop_bit 4 (g ! 7) = 5"
  using guid_hash_version [of "\<lambda>_. Some (replicate 20 0xFF)" "[1, 2]" "replicate 20 0xFF"] by auto

end
