(* ===== verification/NvmContext.thy ===== *)
theory NvmContext
  imports Guid
begin

text \<open>
  The process-wide context (\<^verbatim>\<open>src/lib/nvm_context.c\<close>): a lazily filled cache of the
  capabilities, the devices with their details and platform configuration data, the pools and
  the namespaces, guarded by one mutex. A null pointer is \<open>None\<close>; a count of \<open>- 1\<close> means
  "not read yet". \<^verbatim>\<open>struct device_details\<close> is only copied here and is a type
  parameter. The mutex and the allocator belong to the operating system: whether a lock or
  unlock call succeeds, and whether the k-th \<^verbatim>\<open>calloc\<close> of the call does, comes from an
  \<open>os_env\<close>.
\<close>

section \<open>State\<close>

record 'det nvm_device_context =
  dc_guid :: guid
  p_device_discovery :: "device_discovery option"
  p_device_details :: "'det option"
  pcd_size :: u64
  p_pcd :: "bytes option"

record nvm_namespace_context =
  nc_guid :: guid
  p_namespace_discovery :: "namespace_discovery option"
  p_namespace_details :: "namespace_details option"

record 'det nvm_context =
  p_capabilities :: "nvm_capabilities option"
  device_count :: int
  p_devices :: "'det nvm_device_context list option"
  pool_count :: int
  p_pools :: "pool list option"
  namespace_count :: int
  p_namespaces :: "nvm_namespace_context list option"

record 'det ctx_state =
  p_context :: "'det nvm_context option"
  lock_held :: bool

record os_env =
  lock_ok :: bool
  unlock_ok :: bool
  calloc_ok :: "nat \<Rightarrow> bool"

definition os_fine :: os_env where
  "os_fine = \<lparr>lock_ok = True, unlock_ok = True, calloc_ok = (\<lambda>_. True)\<rparr>"

text \<open>The bracket that every function of the file is written in: take the lock, run the body,
  release the lock. Both failures turn the return code into \<open>NVM_ERR_UNKNOWN\<close>. The output
  \<open>out0\<close> is what the caller's buffer shows when the body does not run.\<close>

definition with_lock ::
  "os_env \<Rightarrow> 'o \<Rightarrow> ('det nvm_context option \<Rightarrow> ('det nvm_context option \<times> int \<times> 'o) option) \<Rightarrow>
   'det ctx_state \<Rightarrow> ('det ctx_state \<times> int \<times> 'o) option" where
  "with_lock os out0 body s =
     (if \<not> lock_ok os then Some (s, NVM_ERR_UNKNOWN, out0)
      else do {
        (c, rc, out) \<leftarrow> body (p_context s);
        if unlock_ok os then Some (\<lparr>p_context = c, lock_held = False\<rparr>, rc, out)
        else Some (\<lparr>p_context = c, lock_held = True\<rparr>, NVM_ERR_UNKNOWN, out)
      })"

section \<open>Freeing\<close>

text \<open>\<^verbatim>\<open>free_device_list\<close>, \<^verbatim>\<open>free_pool_list\<close> and
  \<^verbatim>\<open>free_namespace_list\<close> act only on a list with a positive count. Freeing the inner
  objects is not visible once the list itself is gone. \<^verbatim>\<open>nvm_free_context\<close> leaves a
  null context pointer whatever it frees.\<close>

definition free_device_list :: "'det nvm_context \<Rightarrow> 'det nvm_context" where
  "free_device_list c =
     (if device_count c > 0 \<and> p_devices c \<noteq> None
      then c\<lparr>p_devices := None, device_count := - 1\<rparr> else c)"

definition free_pool_list :: "'det nvm_context \<Rightarrow> 'det nvm_context" where
  "free_pool_list c =
     (if pool_count c > 0 \<and> p_pools c \<noteq> None
      then c\<lparr>p_pools := None, pool_count := - 1\<rparr> else c)"

definition free_namespace_list :: "'det nvm_context \<Rightarrow> 'det nvm_context" where
  "free_namespace_list c =
     (if namespace_count c > 0 \<and> p_namespaces c \<noteq> None
      then c\<lparr>p_namespaces := None, namespace_count := - 1\<rparr> else c)"

definition nvm_free_context :: "os_env \<Rightarrow> 'det ctx_state \<Rightarrow> ('det ctx_state \<times> int \<times> unit) option" where
  "nvm_free_context os = with_lock os () (\<lambda>c. Some (None, NVM_SUCCESS, ()))"

definition fresh_context :: "'det nvm_context" where
  "fresh_context =
     \<lparr>p_capabilities = None, device_count = - 1, p_devices = None,
      pool_count = - 1, p_pools = None, namespace_count = - 1, p_namespaces = None\<rparr>"

text \<open>The free and the creation take the lock separately.\<close>

definition nvm_create_context ::
  "os_env \<Rightarrow> os_env \<Rightarrow> 'det ctx_state \<Rightarrow> ('det ctx_state \<times> int \<times> unit) option" where
  "nvm_create_context os os' s = do {
     (s1, rc, _) \<leftarrow> nvm_free_context os s;
     if rc = NVM_SUCCESS then
       with_lock os' () (\<lambda>c.
         if calloc_ok os' 0 then Some (Some fresh_context, NVM_SUCCESS, ())
         else Some (None, NVM_ERR_NOMEMORY, ())) s1
     else Some (s1, rc, ())
   }"

section \<open>Capabilities\<close>

definition get_nvm_context_capabilities ::
  "os_env \<Rightarrow> 'det ctx_state \<Rightarrow> ('det ctx_state \<times> int \<times> nvm_capabilities option) option" where
  "get_nvm_context_capabilities os = with_lock os None (\<lambda>c.
     case c of
       None \<Rightarrow> Some (c, NVM_ERR_UNKNOWN, None)
     | Some x \<Rightarrow>
         (case p_capabilities x of
            None \<Rightarrow> Some (c, NVM_ERR_UNKNOWN, None)
          | Some caps \<Rightarrow> Some (c, NVM_SUCCESS, Some caps)))"

definition set_nvm_context_capabilities ::
  "os_env \<Rightarrow> nvm_capabilities \<Rightarrow> 'det ctx_state \<Rightarrow> ('det ctx_state \<times> int \<times> unit) option" where
  "set_nvm_context_capabilities os caps = with_lock os () (\<lambda>c.
     case c of
       None \<Rightarrow> Some (c, NVM_ERR_UNKNOWN, ())
     | Some x \<Rightarrow>
         if calloc_ok os 0
         then Some (Some (x\<lparr>p_capabilities := Some caps\<rparr>), NVM_SUCCESS, ())
         else Some (Some (x\<lparr>p_capabilities := None\<rparr>), NVM_ERR_UNKNOWN, ()))"

section \<open>Devices\<close>

definition get_nvm_context_device_count ::
  "os_env \<Rightarrow> 'det ctx_state \<Rightarrow> ('det ctx_state \<times> int \<times> unit) option" where
  "get_nvm_context_device_count os = with_lock os () (\<lambda>c.
     case c of
       None \<Rightarrow> Some (c, NVM_ERR_UNKNOWN, ())
     | Some x \<Rightarrow>
         Some (c, if device_count x \<ge> 0 then device_count x else NVM_ERR_UNKNOWN, ()))"

text \<open>The copy loop: the entries copied, and whether it ran to its end (it stops at an entry
  without discovery data). Reading past the array has no result.\<close>

fun copy_discovery :: "'det nvm_device_context list \<Rightarrow> nat \<Rightarrow> (device_discovery list \<times> bool) option"
where
  "copy_discovery ds 0 = Some ([], True)"
| "copy_discovery [] (Suc n) = None"
| "copy_discovery (d # ds) (Suc n) =
     (case p_device_discovery d of
        None \<Rightarrow> Some ([], False)
      | Some x \<Rightarrow> do { (xs, ok) \<leftarrow> copy_discovery ds n; Some (x # xs, ok) })"

text \<open>A negative \<open>dev_count\<close> makes the \<^verbatim>\<open>memset\<close> size wrap: no defined result.\<close>

definition get_nvm_context_devices ::
  "os_env \<Rightarrow> int \<Rightarrow> 'det ctx_state \<Rightarrow> ('det ctx_state \<times> int \<times> device_discovery list) option"
where
  "get_nvm_context_devices os dev_count = with_lock os [] (\<lambda>c.
     case c of
       None \<Rightarrow> Some (c, NVM_ERR_UNKNOWN, [])
     | Some x \<Rightarrow>
         (case p_devices x of
            None \<Rightarrow> Some (c, NVM_ERR_UNKNOWN, [])
          | Some ds \<Rightarrow>
              if \<not> device_count x > 0 then Some (c, NVM_ERR_UNKNOWN, [])
              else if dev_count < 0 then None
              else
                let copy_count = (if dev_count > device_count x then device_count x else dev_count);
                    rc = (if dev_count < device_count x then NVM_ERR_ARRAYTOOSMALL else copy_count)
                in do {
                  (xs, ok) \<leftarrow> copy_discovery ds (nat copy_count);
                  if ok then Some (c, rc, xs)
                  else Some (Some (free_device_list x), NVM_ERR_UNKNOWN, xs)
                }))"

definition zeroed_device :: "'det nvm_device_context" where
  "zeroed_device =
     \<lparr>dc_guid = replicate GUID_LEN 0, p_device_discovery = None, p_device_details = None,
      pcd_size = 0, p_pcd = None\<rparr>"

definition device_entry :: "device_discovery \<Rightarrow> 'det nvm_device_context" where
  "device_entry d =
     \<lparr>dc_guid = dev_guid d, p_device_discovery = Some d, p_device_details = None,
      pcd_size = - 1, p_pcd = None\<rparr>"

text \<open>The fill loop of \<^verbatim>\<open>set_nvm_context_devices\<close>: allocation \<open>k\<close> serves the next entry;
  a failed allocation leaves this entry without data and the rest as \<^verbatim>\<open>calloc\<close> made
  them.\<close>

fun fill_devices ::
  "(nat \<Rightarrow> bool) \<Rightarrow> nat \<Rightarrow> device_discovery list \<Rightarrow> 'det nvm_device_context list \<times> int" where
  "fill_devices ok k [] = ([], NVM_SUCCESS)"
| "fill_devices ok k (d # ds) =
     (if ok k then
        (let (cs, rc) = fill_devices ok (Suc k) ds in (device_entry d # cs, rc))
      else (zeroed_device\<lparr>pcd_size := - 1\<rparr> # replicate (length ds) zeroed_device, NVM_ERR_NOMEMORY))"

definition set_nvm_context_devices ::
  "os_env \<Rightarrow> device_discovery list \<Rightarrow> 'det ctx_state \<Rightarrow> ('det ctx_state \<times> int \<times> unit) option"
where
  "set_nvm_context_devices os devs = with_lock os () (\<lambda>c.
     case c of
       None \<Rightarrow> Some (c, NVM_ERR_UNKNOWN, ())
     | Some x \<Rightarrow>
         let x1 = free_device_list x in
         if \<not> calloc_ok os 0 then Some (Some (x1\<lparr>p_devices := None\<rparr>), NVM_ERR_NOMEMORY, ())
         else
           let (cs, rc) = fill_devices (calloc_ok os) 1 devs in
           Some (Some (x1\<lparr>p_devices := Some cs, device_count := int (length devs)\<rparr>), rc, ()))"

definition invalidate_devices ::
  "os_env \<Rightarrow> 'det ctx_state \<Rightarrow> ('det ctx_state \<times> int \<times> unit) option" where
  "invalidate_devices os = with_lock os () (\<lambda>c.
     Some (map_option free_device_list c, NVM_SUCCESS, ()))"

text \<open>The lookup that the per-device functions share: the guard on the list and the search for
  the first entry with the GUID.\<close>

definition find_device :: "guid \<Rightarrow> 'det nvm_context \<Rightarrow> (nat \<times> 'det nvm_device_context) option option"
where
  "find_device g x =
     (case p_devices x of
        None \<Rightarrow> Some None
      | Some ds \<Rightarrow>
          if \<not> device_count x > 0 then Some None
          else do {
            r \<leftarrow> search (\<lambda>d. guid_match g (dc_guid d)) ds (nat (device_count x)) 0;
            Some (map_option (\<lambda>i. (i, ds ! i)) r)
          })"

definition put_device :: "nat \<Rightarrow> 'det nvm_device_context \<Rightarrow> 'det nvm_context \<Rightarrow> 'det nvm_context" where
  "put_device i d x = x\<lparr>p_devices := map_option (\<lambda>ds. ds[i := d]) (p_devices x)\<rparr>"

definition on_device ::
  "guid \<Rightarrow> 'o \<Rightarrow> ('det nvm_device_context \<Rightarrow> 'det nvm_device_context \<times> int \<times> 'o) \<Rightarrow>
   'det nvm_context option \<Rightarrow> ('det nvm_context option \<times> int \<times> 'o) option" where
  "on_device g out0 f c =
     (case c of
        None \<Rightarrow> Some (c, NVM_ERR_UNKNOWN, out0)
      | Some x \<Rightarrow> do {
          r \<leftarrow> find_device g x;
          case r of
            None \<Rightarrow> Some (c, NVM_ERR_UNKNOWN, out0)
          | Some (i, d) \<Rightarrow> (let (d', rc, out) = f d in Some (Some (put_device i d' x), rc, out))
        })"

definition invalidate_device_pcd ::
  "os_env \<Rightarrow> guid \<Rightarrow> 'det ctx_state \<Rightarrow> ('det ctx_state \<times> int \<times> unit) option" where
  "invalidate_device_pcd os g = with_lock os () (on_device g () (\<lambda>d.
     (case p_pcd d of
        None \<Rightarrow> (d, NVM_SUCCESS, ())
      | Some _ \<Rightarrow> (d\<lparr>p_pcd := None, pcd_size := - 1\<rparr>, NVM_SUCCESS, ()))))"

definition get_nvm_context_device_details ::
  "os_env \<Rightarrow> guid \<Rightarrow> 'det ctx_state \<Rightarrow> ('det ctx_state \<times> int \<times> 'det option) option" where
  "get_nvm_context_device_details os g = with_lock os None (on_device g None (\<lambda>d.
     (case p_device_details d of
        None \<Rightarrow> (d, NVM_ERR_UNKNOWN, None)
      | Some det \<Rightarrow> (d, NVM_SUCCESS, Some det))))"

definition set_nvm_context_device_details ::
  "os_env \<Rightarrow> guid \<Rightarrow> 'det \<Rightarrow> 'det ctx_state \<Rightarrow> ('det ctx_state \<times> int \<times> unit) option" where
  "set_nvm_context_device_details os g det = with_lock os () (on_device g () (\<lambda>d.
     (if calloc_ok os 0 then (d\<lparr>p_device_details := Some det\<rparr>, NVM_SUCCESS, ())
      else (d\<lparr>p_device_details := None\<rparr>, NVM_ERR_NOMEMORY, ()))))"

text \<open>\<open>pcd_size\<close> is unsigned, so the reset value \<open>- 1\<close> is a positive size and only the null
  pointer keeps a missing PCD from being read. The output is the copied buffer and its
  size.\<close>

definition get_nvm_context_device_pcd ::
  "os_env \<Rightarrow> guid \<Rightarrow> 'det ctx_state \<Rightarrow> ('det ctx_state \<times> int \<times> (bytes \<times> u64) option) option" where
  "get_nvm_context_device_pcd os g = with_lock os None (on_device g None (\<lambda>d.
     (case p_pcd d of
        None \<Rightarrow> (d, NVM_ERR_UNKNOWN, None)
      | Some pcd \<Rightarrow>
          if \<not> pcd_size d > 0 then (d, NVM_ERR_UNKNOWN, None)
          else if \<not> calloc_ok os 0 then (d, NVM_ERR_NOMEMORY, None)
          else (d, NVM_SUCCESS, Some (pcd, pcd_size d)))))"

text \<open>The caller passes the buffer and its size; a size that is not the buffer's length makes the
  copy run past it.\<close>

definition set_nvm_context_device_pcd ::
  "os_env \<Rightarrow> guid \<Rightarrow> bytes \<Rightarrow> 'det ctx_state \<Rightarrow> ('det ctx_state \<times> int \<times> unit) option" where
  "set_nvm_context_device_pcd os g pcd = with_lock os () (on_device g () (\<lambda>d.
     (let d1 = (if pcd_size d > 0 \<and> p_pcd d \<noteq> None then d\<lparr>p_pcd := None, pcd_size := - 1\<rparr> else d) in
      if calloc_ok os 0
      then (d1\<lparr>p_pcd := Some pcd, pcd_size := of_nat (length pcd)\<rparr>, NVM_SUCCESS, ())
      else (d1\<lparr>p_pcd := None\<rparr>, NVM_ERR_NOMEMORY, ()))))"

section \<open>Pools\<close>

definition invalidate_pools ::
  "os_env \<Rightarrow> 'det ctx_state \<Rightarrow> ('det ctx_state \<times> int \<times> unit) option" where
  "invalidate_pools os = with_lock os () (\<lambda>c. Some (map_option free_pool_list c, NVM_SUCCESS, ()))"

definition get_nvm_context_pool_count ::
  "os_env \<Rightarrow> 'det ctx_state \<Rightarrow> ('det ctx_state \<times> int \<times> unit) option" where
  "get_nvm_context_pool_count os = with_lock os () (\<lambda>c.
     case c of
       None \<Rightarrow> Some (c, NVM_ERR_UNKNOWN, ())
     | Some x \<Rightarrow> Some (c, if pool_count x \<ge> 0 then pool_count x else NVM_ERR_UNKNOWN, ()))"

text \<open>A \<^verbatim>\<open>memmove\<close> of the first \<open>n\<close> entries.\<close>

definition copy_first :: "'a list \<Rightarrow> int \<Rightarrow> 'a list option" where
  "copy_first xs n = (if 0 \<le> n \<and> nat n \<le> length xs then Some (take (nat n) xs) else None)"

definition get_nvm_context_pools ::
  "os_env \<Rightarrow> int \<Rightarrow> 'det ctx_state \<Rightarrow> ('det ctx_state \<times> int \<times> pool list) option" where
  "get_nvm_context_pools os count = with_lock os [] (\<lambda>c.
     case c of
       None \<Rightarrow> Some (c, NVM_ERR_UNKNOWN, [])
     | Some x \<Rightarrow>
         (case p_pools x of
            None \<Rightarrow> Some (c, NVM_ERR_UNKNOWN, [])
          | Some ps \<Rightarrow>
              if \<not> pool_count x > 0 then Some (c, NVM_ERR_UNKNOWN, [])
              else
                let copy_count = (if count > pool_count x then pool_count x else count);
                    rc = (if count < pool_count x then NVM_ERR_ARRAYTOOSMALL else copy_count)
                in do { xs \<leftarrow> copy_first ps copy_count; Some (c, rc, xs) }))"

definition set_nvm_context_pools ::
  "os_env \<Rightarrow> pool list \<Rightarrow> 'det ctx_state \<Rightarrow> ('det ctx_state \<times> int \<times> unit) option" where
  "set_nvm_context_pools os ps = with_lock os () (\<lambda>c.
     case c of
       None \<Rightarrow> Some (c, NVM_ERR_UNKNOWN, ())
     | Some x \<Rightarrow>
         let x1 = free_pool_list x in
         if \<not> calloc_ok os 0 then Some (Some (x1\<lparr>p_pools := None\<rparr>), NVM_ERR_NOMEMORY, ())
         else Some (Some (x1\<lparr>p_pools := Some ps, pool_count := int (length ps)\<rparr>), NVM_SUCCESS, ()))"

definition get_nvm_context_pool ::
  "os_env \<Rightarrow> guid \<Rightarrow> 'det ctx_state \<Rightarrow> ('det ctx_state \<times> int \<times> pool option) option" where
  "get_nvm_context_pool os g = with_lock os None (\<lambda>c.
     case c of
       None \<Rightarrow> Some (c, NVM_ERR_UNKNOWN, None)
     | Some x \<Rightarrow>
         (case p_pools x of
            None \<Rightarrow> Some (c, NVM_ERR_UNKNOWN, None)
          | Some ps \<Rightarrow>
              if \<not> pool_count x > 0 then Some (c, NVM_ERR_UNKNOWN, None)
              else do {
                r \<leftarrow> search (\<lambda>p. guid_match g (pool_guid p)) ps (nat (pool_count x)) 0;
                case r of
                  None \<Rightarrow> Some (c, NVM_ERR_UNKNOWN, None)
                | Some i \<Rightarrow> Some (c, NVM_SUCCESS, Some (ps ! i))
              }))"

section \<open>Namespaces\<close>

definition invalidate_namespaces ::
  "os_env \<Rightarrow> 'det ctx_state \<Rightarrow> ('det ctx_state \<times> int \<times> unit) option" where
  "invalidate_namespaces os = with_lock os () (\<lambda>c.
     Some (map_option free_namespace_list c, NVM_SUCCESS, ()))"

definition get_nvm_context_namespace_count ::
  "os_env \<Rightarrow> 'det ctx_state \<Rightarrow> ('det ctx_state \<times> int \<times> unit) option" where
  "get_nvm_context_namespace_count os = with_lock os () (\<lambda>c.
     case c of
       None \<Rightarrow> Some (c, NVM_ERR_UNKNOWN, ())
     | Some x \<Rightarrow>
         Some (c, if namespace_count x \<ge> 0 then namespace_count x else NVM_ERR_UNKNOWN, ()))"

text \<open>This copy loop dereferences every entry's discovery pointer without a test, and its bound
  is the caller's count, not the smaller of the two counts.\<close>

fun copy_ns_discovery :: "nvm_namespace_context list \<Rightarrow> nat \<Rightarrow> namespace_discovery list option" where
  "copy_ns_discovery ns 0 = Some []"
| "copy_ns_discovery [] (Suc n) = None"
| "copy_ns_discovery (x # ns) (Suc n) =
     (case p_namespace_discovery x of
        None \<Rightarrow> None
      | Some d \<Rightarrow> map_option ((#) d) (copy_ns_discovery ns n))"

definition get_nvm_context_namespaces ::
  "os_env \<Rightarrow> int \<Rightarrow> 'det ctx_state \<Rightarrow> ('det ctx_state \<times> int \<times> namespace_discovery list) option"
where
  "get_nvm_context_namespaces os count = with_lock os [] (\<lambda>c.
     case c of
       None \<Rightarrow> Some (c, NVM_ERR_UNKNOWN, [])
     | Some x \<Rightarrow>
         (case p_namespaces x of
            None \<Rightarrow> Some (c, NVM_ERR_UNKNOWN, [])
          | Some ns \<Rightarrow>
              if \<not> namespace_count x > 0 then Some (c, NVM_ERR_UNKNOWN, [])
              else if count < 0 then None
              else
                let copy_count = (if count > namespace_count x then namespace_count x else count);
                    rc = (if count < namespace_count x then NVM_ERR_ARRAYTOOSMALL else copy_count)
                in do { xs \<leftarrow> copy_ns_discovery ns (nat count); Some (c, rc, xs) }))"

definition zeroed_namespace :: nvm_namespace_context where
  "zeroed_namespace =
     \<lparr>nc_guid = replicate GUID_LEN 0, p_namespace_discovery = None, p_namespace_details = None\<rparr>"

definition namespace_entry :: "namespace_discovery \<Rightarrow> nvm_namespace_context" where
  "namespace_entry d =
     \<lparr>nc_guid = namespace_guid d, p_namespace_discovery = Some d, p_namespace_details = None\<rparr>"

fun fill_namespaces ::
  "(nat \<Rightarrow> bool) \<Rightarrow> nat \<Rightarrow> namespace_discovery list \<Rightarrow> nvm_namespace_context list \<times> int" where
  "fill_namespaces ok k [] = ([], NVM_SUCCESS)"
| "fill_namespaces ok k (d # ds) =
     (if ok k then
        (let (cs, rc) = fill_namespaces ok (Suc k) ds in (namespace_entry d # cs, rc))
      else (replicate (Suc (length ds)) zeroed_namespace, NVM_ERR_NOMEMORY))"

definition set_nvm_context_namespaces ::
  "os_env \<Rightarrow> namespace_discovery list \<Rightarrow> 'det ctx_state \<Rightarrow> ('det ctx_state \<times> int \<times> unit) option"
where
  "set_nvm_context_namespaces os nss = with_lock os () (\<lambda>c.
     case c of
       None \<Rightarrow> Some (c, NVM_ERR_UNKNOWN, ())
     | Some x \<Rightarrow>
         let x1 = free_namespace_list x in
         if \<not> calloc_ok os 0 then Some (Some (x1\<lparr>p_namespaces := None\<rparr>), NVM_ERR_NOMEMORY, ())
         else
           let (cs, rc) = fill_namespaces (calloc_ok os) 1 nss in
           Some (Some (x1\<lparr>p_namespaces := Some cs, namespace_count := int (length nss)\<rparr>), rc, ()))"

definition find_namespace :: "guid \<Rightarrow> 'det nvm_context \<Rightarrow> (nat \<times> nvm_namespace_context) option option"
where
  "find_namespace g x =
     (case p_namespaces x of
        None \<Rightarrow> Some None
      | Some ns \<Rightarrow>
          if \<not> namespace_count x > 0 then Some None
          else do {
            r \<leftarrow> search (\<lambda>n. guid_match g (nc_guid n)) ns (nat (namespace_count x)) 0;
            Some (map_option (\<lambda>i. (i, ns ! i)) r)
          })"

definition put_namespace :: "nat \<Rightarrow> nvm_namespace_context \<Rightarrow> 'det nvm_context \<Rightarrow> 'det nvm_context" where
  "put_namespace i n x = x\<lparr>p_namespaces := map_option (\<lambda>ns. ns[i := n]) (p_namespaces x)\<rparr>"

definition get_nvm_context_namespace_details ::
  "os_env \<Rightarrow> guid \<Rightarrow> 'det ctx_state \<Rightarrow> ('det ctx_state \<times> int \<times> namespace_details option) option"
where
  "get_nvm_context_namespace_details os g = with_lock os None (\<lambda>c.
     case c of
       None \<Rightarrow> Some (c, NVM_ERR_UNKNOWN, None)
     | Some x \<Rightarrow> do {
         r \<leftarrow> find_namespace g x;
         case r of
           None \<Rightarrow> Some (c, NVM_ERR_UNKNOWN, None)
         | Some (i, n) \<Rightarrow>
             (case p_namespace_details n of
                None \<Rightarrow> Some (c, NVM_ERR_UNKNOWN, None)
              | Some det \<Rightarrow> Some (c, NVM_SUCCESS, Some det))
       })"

definition set_nvm_context_namespace_details ::
  "os_env \<Rightarrow> guid \<Rightarrow> namespace_details \<Rightarrow> 'det ctx_state \<Rightarrow> ('det ctx_state \<times> int \<times> unit) option"
where
  "set_nvm_context_namespace_details os g det = with_lock os () (\<lambda>c.
     case c of
       None \<Rightarrow> Some (c, NVM_ERR_UNKNOWN, ())
     | Some x \<Rightarrow> do {
         r \<leftarrow> find_namespace g x;
         case r of
           None \<Rightarrow> Some (c, NVM_ERR_UNKNOWN, ())
         | Some (i, n) \<Rightarrow>
             if calloc_ok os 0
             then Some (Some (put_namespace i (n\<lparr>p_namespace_details := Some det\<rparr>) x), NVM_SUCCESS, ())
             else Some (Some (put_namespace i (n\<lparr>p_namespace_details := None\<rparr>) x), NVM_ERR_NOMEMORY, ())
       })"

section \<open>The invariant\<close>

text \<open>
  A list and its count agree, keys are GUID arrays, and a cached PCD has the size recorded
  with it. An absent list has count \<open>- 1\<close>, or \<open>0\<close> when an empty list was replaced
  unsuccessfully.
\<close>

definition wf_device :: "'det nvm_device_context \<Rightarrow> bool" where
  "wf_device d \<longleftrightarrow>
     length (dc_guid d) = GUID_LEN \<and>
     (\<forall>b. p_pcd d = Some b \<longrightarrow> pcd_size d = of_nat (length b))"

definition wf_list :: "('a \<Rightarrow> bool) \<Rightarrow> 'a list option \<Rightarrow> int \<Rightarrow> bool" where
  "wf_list ok xs n \<longleftrightarrow>
     (case xs of None \<Rightarrow> n = - 1 \<or> n = 0 | Some ys \<Rightarrow> n = int (length ys) \<and> list_all ok ys)"

definition wf_ctx :: "'det nvm_context option \<Rightarrow> bool" where
  "wf_ctx c \<longleftrightarrow>
     (case c of None \<Rightarrow> True
      | Some x \<Rightarrow>
          wf_list wf_device (p_devices x) (device_count x) \<and>
          wf_list (\<lambda>p. length (pool_guid p) = GUID_LEN) (p_pools x) (pool_count x) \<and>
          wf_list (\<lambda>n. length (nc_guid n) = GUID_LEN) (p_namespaces x) (namespace_count x))"

named_theorems ctx_ops \<open>definitions of the context operations\<close>

declare
  get_nvm_context_capabilities_def [ctx_ops] set_nvm_context_capabilities_def [ctx_ops]
  get_nvm_context_device_count_def [ctx_ops] get_nvm_context_devices_def [ctx_ops]
  set_nvm_context_devices_def [ctx_ops] invalidate_devices_def [ctx_ops]
  invalidate_device_pcd_def [ctx_ops] get_nvm_context_device_details_def [ctx_ops]
  set_nvm_context_device_details_def [ctx_ops] get_nvm_context_device_pcd_def [ctx_ops]
  set_nvm_context_device_pcd_def [ctx_ops] invalidate_pools_def [ctx_ops]
  get_nvm_context_pool_count_def [ctx_ops] get_nvm_context_pools_def [ctx_ops]
  set_nvm_context_pools_def [ctx_ops] get_nvm_context_pool_def [ctx_ops]
  invalidate_namespaces_def [ctx_ops] get_nvm_context_namespace_count_def [ctx_ops]
  get_nvm_context_namespaces_def [ctx_ops] set_nvm_context_namespaces_def [ctx_ops]
  get_nvm_context_namespace_details_def [ctx_ops] set_nvm_context_namespace_details_def [ctx_ops]
  nvm_free_context_def [ctx_ops] nvm_create_context_def [ctx_ops]

lemma wf_ctx_None [simp]: "wf_ctx None"
  by (simp add: wf_ctx_def)

lemma wf_fresh [simp]: "wf_ctx (Some fresh_context)"
  by (simp add: wf_ctx_def wf_list_def fresh_context_def)

lemma with_lock_cases:
  assumes "with_lock os out0 body s = Some (s', rc, out)"
  obtains (no_lock) "s' = s" "rc = NVM_ERR_UNKNOWN" "out = out0" "\<not> lock_ok os"
  | (run) rc0 where "lock_ok os" "body (p_context s) = Some (p_context s', rc0, out)"
      "rc = (if unlock_ok os then rc0 else NVM_ERR_UNKNOWN)" "lock_held s' = (\<not> unlock_ok os)"
  using assms by (auto simp: with_lock_def bind_eq_Some_conv split: if_splits)

lemma with_lock_wf:
  assumes "with_lock os out0 body s = Some (s', rc, out)" and "wf_ctx (p_context s)"
    and "\<And>c' rc out. body (p_context s) = Some (c', rc, out) \<Longrightarrow> wf_ctx c'"
  shows "wf_ctx (p_context s')"
  using assms by (elim with_lock_cases) auto

lemma with_lock_fine:
  "with_lock os_fine out0 body s =
     map_option (\<lambda>(c, rc, out). (\<lparr>p_context = c, lock_held = False\<rparr>, rc, out)) (body (p_context s))"
  by (simp add: with_lock_def os_fine_def split: prod.splits Option.bind_splits)

lemma wf_free [simp]:
  "wf_ctx (Some x) \<Longrightarrow> wf_ctx (Some (free_device_list x))"
  "wf_ctx (Some x) \<Longrightarrow> wf_ctx (Some (free_pool_list x))"
  "wf_ctx (Some x) \<Longrightarrow> wf_ctx (Some (free_namespace_list x))"
  by (auto simp: wf_ctx_def wf_list_def free_device_list_def free_pool_list_def
      free_namespace_list_def split: option.splits)

lemma length_fill_devices: "length (fst (fill_devices ok k ds)) = length ds"
  by (induction ok k ds rule: fill_devices.induct) (auto simp: Let_def split: prod.splits)

lemma wf_fill_devices:
  "list_all (\<lambda>d. length (dev_guid d) = GUID_LEN) ds \<Longrightarrow>
   list_all wf_device (fst (fill_devices ok k ds))"
  by (induction ok k ds rule: fill_devices.induct)
    (auto simp: Let_def wf_device_def device_entry_def zeroed_device_def list_all_iff
      split: prod.splits)

lemma fill_devices_ok: "(\<And>k. ok k) \<Longrightarrow> fill_devices ok k ds = (map device_entry ds, NVM_SUCCESS)"
  by (induction ds arbitrary: k) auto

lemma length_fill_namespaces: "length (fst (fill_namespaces ok k ds)) = length ds"
  by (induction ok k ds rule: fill_namespaces.induct) (auto simp: Let_def split: prod.splits)

lemma wf_fill_namespaces:
  "list_all (\<lambda>d. length (namespace_guid d) = GUID_LEN) ds \<Longrightarrow>
   list_all (\<lambda>n. length (nc_guid n) = GUID_LEN) (fst (fill_namespaces ok k ds))"
  by (induction ok k ds rule: fill_namespaces.induct)
    (auto simp: Let_def namespace_entry_def zeroed_namespace_def list_all_iff split: prod.splits)

lemma fill_namespaces_ok:
  "(\<And>k. ok k) \<Longrightarrow> fill_namespaces ok k ds = (map namespace_entry ds, NVM_SUCCESS)"
  by (induction ds arbitrary: k) auto

lemma wf_set_devices:
  "wf_ctx (Some x) \<Longrightarrow> list_all wf_device cs \<Longrightarrow>
   wf_ctx (Some (free_device_list x\<lparr>p_devices := Some cs, device_count := int (length cs)\<rparr>))"
  by (auto simp: wf_ctx_def wf_list_def free_device_list_def split: option.splits)

lemma wf_drop_devices:
  "wf_ctx (Some x) \<Longrightarrow> wf_ctx (Some (free_device_list x\<lparr>p_devices := None\<rparr>))"
  by (auto simp: wf_ctx_def wf_list_def free_device_list_def split: option.splits)

lemma wf_set_pools:
  "wf_ctx (Some x) \<Longrightarrow> list_all (\<lambda>p. length (pool_guid p) = GUID_LEN) ps \<Longrightarrow>
   wf_ctx (Some (free_pool_list x\<lparr>p_pools := Some ps, pool_count := int (length ps)\<rparr>))"
  by (auto simp: wf_ctx_def wf_list_def free_pool_list_def split: option.splits)

lemma wf_drop_pools:
  "wf_ctx (Some x) \<Longrightarrow> wf_ctx (Some (free_pool_list x\<lparr>p_pools := None\<rparr>))"
  by (auto simp: wf_ctx_def wf_list_def free_pool_list_def split: option.splits)

lemma wf_set_namespaces:
  "wf_ctx (Some x) \<Longrightarrow> list_all (\<lambda>n. length (nc_guid n) = GUID_LEN) ns \<Longrightarrow>
   wf_ctx (Some (free_namespace_list x\<lparr>p_namespaces := Some ns, namespace_count := int (length ns)\<rparr>))"
  by (auto simp: wf_ctx_def wf_list_def free_namespace_list_def split: option.splits)

lemma wf_drop_namespaces:
  "wf_ctx (Some x) \<Longrightarrow> wf_ctx (Some (free_namespace_list x\<lparr>p_namespaces := None\<rparr>))"
  by (auto simp: wf_ctx_def wf_list_def free_namespace_list_def split: option.splits)

lemma find_device_Some:
  assumes "wf_ctx (Some x)" "find_device g x = Some (Some (i, d))"
  obtains ds where "p_devices x = Some ds" "device_count x = int (length ds)" "0 < length ds"
    "i < length ds" "d = ds ! i" "guid_match g (dc_guid d)"
    "\<And>j. j < i \<Longrightarrow> \<not> guid_match g (dc_guid (ds ! j))" "wf_device d"
proof -
  from assms obtain ds where ds: "p_devices x = Some ds" "device_count x = int (length ds)"
    "list_all wf_device ds" "0 < length ds"
    by (auto simp: find_device_def wf_ctx_def wf_list_def bind_eq_Some_conv
        split: option.splits if_splits)
  with assms(2) have "search (\<lambda>d. guid_match g (dc_guid d)) ds (length ds) 0 = Some (Some i)"
    and d: "d = ds ! i"
    by (auto simp: find_device_def bind_eq_Some_conv split: if_splits)
  from search_Some_Some [OF this(1)] ds d show thesis
    by (intro that) (auto simp: list_all_length)
qed

lemma find_device_defined:
  assumes "wf_ctx (Some x)"
  shows "\<exists>r. find_device g x = Some r"
proof (cases "p_devices x")
  case None
  then show ?thesis by (simp add: find_device_def)
next
  case (Some ds)
  with assms have "device_count x = int (length ds)" by (simp add: wf_ctx_def wf_list_def)
  moreover obtain r where "search (\<lambda>d. guid_match g (dc_guid d)) ds (length ds) 0 = Some r"
    using search_ex by blast
  ultimately show ?thesis using Some by (simp add: find_device_def)
qed

lemma wf_put_device:
  assumes "wf_ctx (Some x)" "wf_device d"
  shows "wf_ctx (Some (put_device i d x))"
  using assms
  by (auto simp: wf_ctx_def wf_list_def put_device_def list_all_iff
      dest: set_update_subset_insert [THEN subsetD] split: option.splits)

lemma on_device_wf:
  assumes "on_device g out0 f c = Some (c', rc, out)" "wf_ctx c"
    and f: "\<And>d d' rc out. f d = (d', rc, out) \<Longrightarrow> wf_device d \<Longrightarrow> wf_device d'"
  shows "wf_ctx c'"
proof (cases c)
  case None
  with assms(1,2) show ?thesis by (simp add: on_device_def)
next
  case (Some x)
  with assms(2) obtain r where r: "find_device g x = Some r"
    using find_device_defined by blast
  show ?thesis
  proof (cases r)
    case None
    with Some r assms(1,2) show ?thesis by (simp add: on_device_def)
  next
    case (Some e)
    then obtain i d where e: "r = Some (i, d)" by (cases e) auto
    with r \<open>c = Some x\<close> assms(2) have "wf_device d" by (auto elim: find_device_Some)
    moreover obtain d' rc0 out1 where "f d = (d', rc0, out1)" by (cases "f d") auto
    ultimately have "wf_device d'" by (blast dest: f)
    with r e \<open>c = Some x\<close> \<open>f d = _\<close> assms(1,2) show ?thesis
      by (auto simp: on_device_def intro: wf_put_device)
  qed
qed

subsection \<open>The context as a state machine\<close>

text \<open>One rule per function of the file, with any outcome of the lock and allocator calls and
  any well-typed arguments: a GUID is an array of 16 octets.\<close>

abbreviation (input) guid_ok :: "guid \<Rightarrow> bool" where "guid_ok g \<equiv> length g = GUID_LEN"

inductive ctx_step :: "'det ctx_state \<Rightarrow> 'det ctx_state \<Rightarrow> bool" where
  create: "nvm_create_context os os' s = Some (s', rc, u) \<Longrightarrow> ctx_step s s'"
| free: "nvm_free_context os s = Some (s', rc, u) \<Longrightarrow> ctx_step s s'"
| get_caps: "get_nvm_context_capabilities os s = Some (s', rc, out1) \<Longrightarrow> ctx_step s s'"
| set_caps: "set_nvm_context_capabilities os caps s = Some (s', rc, u) \<Longrightarrow> ctx_step s s'"
| device_count: "get_nvm_context_device_count os s = Some (s', rc, u) \<Longrightarrow> ctx_step s s'"
| get_devices: "get_nvm_context_devices os n s = Some (s', rc, out2) \<Longrightarrow> ctx_step s s'"
| set_devices: "set_nvm_context_devices os ds s = Some (s', rc, u) \<Longrightarrow>
    list_all (\<lambda>d. guid_ok (dev_guid d)) ds \<Longrightarrow> ctx_step s s'"
| inv_devices: "invalidate_devices os s = Some (s', rc, u) \<Longrightarrow> ctx_step s s'"
| inv_pcd: "invalidate_device_pcd os g s = Some (s', rc, u) \<Longrightarrow> ctx_step s s'"
| get_details: "get_nvm_context_device_details os g s = Some (s', rc, out3) \<Longrightarrow> ctx_step s s'"
| set_details: "set_nvm_context_device_details os g det s = Some (s', rc, u) \<Longrightarrow> ctx_step s s'"
| get_pcd: "get_nvm_context_device_pcd os g s = Some (s', rc, out4) \<Longrightarrow> ctx_step s s'"
| set_pcd: "set_nvm_context_device_pcd os g pcd s = Some (s', rc, u) \<Longrightarrow> ctx_step s s'"
| inv_pools: "invalidate_pools os s = Some (s', rc, u) \<Longrightarrow> ctx_step s s'"
| pool_count: "get_nvm_context_pool_count os s = Some (s', rc, u) \<Longrightarrow> ctx_step s s'"
| get_pools: "get_nvm_context_pools os n s = Some (s', rc, out5) \<Longrightarrow> ctx_step s s'"
| set_pools: "set_nvm_context_pools os ps s = Some (s', rc, u) \<Longrightarrow>
    list_all (\<lambda>p. guid_ok (pool_guid p)) ps \<Longrightarrow> ctx_step s s'"
| get_pool: "get_nvm_context_pool os g s = Some (s', rc, out6) \<Longrightarrow> ctx_step s s'"
| inv_namespaces: "invalidate_namespaces os s = Some (s', rc, u) \<Longrightarrow> ctx_step s s'"
| namespace_count: "get_nvm_context_namespace_count os s = Some (s', rc, u) \<Longrightarrow> ctx_step s s'"
| get_namespaces: "get_nvm_context_namespaces os n s = Some (s', rc, out7) \<Longrightarrow> ctx_step s s'"
| set_namespaces: "set_nvm_context_namespaces os ns s = Some (s', rc, u) \<Longrightarrow>
    list_all (\<lambda>d. guid_ok (namespace_guid d)) ns \<Longrightarrow> ctx_step s s'"
| get_ns_details: "get_nvm_context_namespace_details os g s = Some (s', rc, out8) \<Longrightarrow> ctx_step s s'"
| set_ns_details: "set_nvm_context_namespace_details os g nd s = Some (s', rc, u) \<Longrightarrow> ctx_step s s'"

inductive ctx_reachable :: "'det ctx_state \<Rightarrow> bool" where
  start: "ctx_reachable \<lparr>p_context = None, lock_held = False\<rparr>"
| step: "ctx_reachable s \<Longrightarrow> ctx_step s s' \<Longrightarrow> ctx_reachable s'"

lemma wf_body_id:
  assumes "wf_ctx c" "\<And>x. c = Some x \<Longrightarrow> wf_ctx (Some (h x))"
  shows "wf_ctx (map_option h c)"
  using assms by (cases c) auto

lemma wf_namespace_details_update:
  assumes "wf_ctx (Some x)" "find_namespace g x = Some (Some (i, n))" "nc_guid n' = nc_guid n"
  shows "wf_ctx (Some (put_namespace i n' x))"
proof -
  from assms(1,2) obtain ns where ns: "p_namespaces x = Some ns" "namespace_count x = int (length ns)"
    "list_all (\<lambda>n. guid_ok (nc_guid n)) ns"
    and r: "search (\<lambda>n. guid_match g (nc_guid n)) ns (length ns) 0 = Some (Some i)" "n = ns ! i"
    by (auto simp: find_namespace_def wf_ctx_def wf_list_def bind_eq_Some_conv
        split: option.splits if_splits)
  have "i < length ns" using search_Some_Some [OF r(1)] by simp
  then have "guid_ok (nc_guid n')" using ns(3) assms(3) r(2) by (simp add: list_all_length)
  with ns assms(1) show ?thesis
    by (auto simp: put_namespace_def wf_ctx_def wf_list_def list_all_iff
        dest: set_update_subset_insert [THEN subsetD])
qed

lemma wf_caps [simp]: "wf_ctx (Some (x\<lparr>p_capabilities := cs\<rparr>)) = wf_ctx (Some x)"
  by (simp add: wf_ctx_def)

lemma free_wf: "nvm_free_context os s = Some (s', rc, u) \<Longrightarrow> wf_ctx (p_context s) \<Longrightarrow> wf_ctx (p_context s')"
  unfolding nvm_free_context_def by (erule with_lock_wf) auto

lemma create_wf:
  "nvm_create_context os os' s = Some (s', rc, u) \<Longrightarrow> wf_ctx (p_context s) \<Longrightarrow> wf_ctx (p_context s')"
  unfolding nvm_create_context_def
  by (auto simp: bind_eq_Some_conv split: if_splits intro: free_wf elim!: with_lock_wf)

lemma set_devices_wf:
  fixes s s' :: "'det ctx_state"
  assumes "set_nvm_context_devices os ds s = Some (s', rc, u)" "wf_ctx (p_context s)"
    "list_all (\<lambda>d. guid_ok (dev_guid d)) ds"
  shows "wf_ctx (p_context s')"
  using assms(1) [unfolded set_nvm_context_devices_def] assms(2)
proof (rule with_lock_wf)
  fix c' rc out
  obtain cs :: "'det nvm_device_context list" and r where fd: "fill_devices (calloc_ok os) 1 ds = (cs, r)" by fastforce
  have "length cs = length ds" "list_all wf_device cs"
    using length_fill_devices [of "calloc_ok os" 1 ds] fd
      wf_fill_devices [OF assms(3), of "calloc_ok os" 1] by (metis fst_conv)+
  moreover assume "(case p_context s of None \<Rightarrow> Some (p_context s, NVM_ERR_UNKNOWN, ())
    | Some x \<Rightarrow> let x1 = free_device_list x
        in if \<not> calloc_ok os 0 then Some (Some (x1\<lparr>p_devices := None\<rparr>), NVM_ERR_NOMEMORY, ())
           else let (cs, rc) = fill_devices (calloc_ok os) 1 ds
                in Some (Some (x1\<lparr>p_devices := Some cs, device_count := int (length ds)\<rparr>), rc, ())) =
    Some (c', rc, out)"
  ultimately show "wf_ctx c'"
    using fd assms(2) wf_set_devices [of _ cs] wf_drop_devices
    by (cases "p_context s") (auto simp: Let_def split: if_splits)
qed

lemma set_namespaces_wf:
  assumes "set_nvm_context_namespaces os ns s = Some (s', rc, u)" "wf_ctx (p_context s)"
    "list_all (\<lambda>d. guid_ok (namespace_guid d)) ns"
  shows "wf_ctx (p_context s')"
  using assms(1) [unfolded set_nvm_context_namespaces_def] assms(2)
proof (rule with_lock_wf)
  fix c' rc out
  obtain cs r where fd: "fill_namespaces (calloc_ok os) 1 ns = (cs, r)" by fastforce
  have "length cs = length ns" "list_all (\<lambda>n. guid_ok (nc_guid n)) cs"
    using length_fill_namespaces [of "calloc_ok os" 1 ns] fd
      wf_fill_namespaces [OF assms(3), of "calloc_ok os" 1] by (metis fst_conv)+
  moreover assume "(case p_context s of None \<Rightarrow> Some (p_context s, NVM_ERR_UNKNOWN, ())
    | Some x \<Rightarrow> let x1 = free_namespace_list x
        in if \<not> calloc_ok os 0 then Some (Some (x1\<lparr>p_namespaces := None\<rparr>), NVM_ERR_NOMEMORY, ())
           else let (cs, rc) = fill_namespaces (calloc_ok os) 1 ns
                in Some (Some (x1\<lparr>p_namespaces := Some cs, namespace_count := int (length ns)\<rparr>), rc, ())) =
    Some (c', rc, out)"
  ultimately show "wf_ctx c'"
    using fd assms(2) wf_set_namespaces [of _ cs] wf_drop_namespaces
    by (cases "p_context s") (auto simp: Let_def split: if_splits)
qed

lemma set_pools_wf:
  assumes "set_nvm_context_pools os ps s = Some (s', rc, u)" "wf_ctx (p_context s)"
    "list_all (\<lambda>p. guid_ok (pool_guid p)) ps"
  shows "wf_ctx (p_context s')"
  using assms(1) [unfolded set_nvm_context_pools_def] assms(2)
  by (rule with_lock_wf)
    (use assms(2,3) wf_set_pools [of _ ps] wf_drop_pools in
      \<open>auto simp: Let_def split: option.splits if_splits\<close>)

lemma per_device_wf:
  assumes "with_lock os out0 (on_device g out0 f) s = Some (s', rc, out)" "wf_ctx (p_context s)"
    and "\<And>d d' rc out. f d = (d', rc, out) \<Longrightarrow> wf_device d \<Longrightarrow> wf_device d'"
  shows "wf_ctx (p_context s')"
  using assms(1,2)
proof (rule with_lock_wf)
  fix c' rc out
  assume "on_device g out0 f (p_context s) = Some (c', rc, out)"
  then show "wf_ctx c'" using assms(2,3) by (rule on_device_wf)
qed

lemma set_ns_details_wf:
  assumes "set_nvm_context_namespace_details os g nd s = Some (s', rc, u)" "wf_ctx (p_context s)"
  shows "wf_ctx (p_context s')"
  using assms(1) [unfolded set_nvm_context_namespace_details_def] assms(2)
proof (rule with_lock_wf)
  fix c' rc out
  assume b: "(case p_context s of None \<Rightarrow> Some (p_context s, NVM_ERR_UNKNOWN, ())
     | Some x \<Rightarrow> find_namespace g x \<bind> (\<lambda>r. case r of
           None \<Rightarrow> Some (p_context s, NVM_ERR_UNKNOWN, ())
         | Some (i, n) \<Rightarrow>
             if calloc_ok os 0
             then Some (Some (put_namespace i (n\<lparr>p_namespace_details := Some nd\<rparr>) x), NVM_SUCCESS, ())
             else Some (Some (put_namespace i (n\<lparr>p_namespace_details := None\<rparr>) x), NVM_ERR_NOMEMORY, ()))) =
    Some (c', rc, out)"
  show "wf_ctx c'"
  proof (cases "p_context s")
    case None
    with b show ?thesis by simp
  next
    case (Some x)
    with b obtain r where r: "find_namespace g x = Some r" by (auto simp: bind_eq_Some_conv)
    show ?thesis
    proof (cases r)
      case None
      with b r Some assms(2) show ?thesis by simp
    next
      case (Some e)
      with b r \<open>p_context s = Some x\<close> assms(2) show ?thesis
        by (cases e) (auto split: if_splits intro: wf_namespace_details_update)
    qed
  qed
qed

lemma ctx_step_wf:
  assumes "ctx_step s s'" "wf_ctx (p_context s)"
  shows "wf_ctx (p_context s')"
  using assms
proof (induction rule: ctx_step.induct)
  case (create os os' s s' rc u) then show ?case by (blast intro: create_wf)
next
  case (free os s s' rc u) then show ?case by (blast intro: free_wf)
next
  case (set_devices os ds s s' rc u) then show ?case by (blast intro: set_devices_wf)
next
  case (set_pools os ps s s' rc u) then show ?case by (blast intro: set_pools_wf)
next
  case (set_namespaces os ns s s' rc u) then show ?case by (blast intro: set_namespaces_wf)
next
  case (get_devices os n s s' rc out2)
  from get_devices(1) [unfolded get_nvm_context_devices_def] get_devices(2) show ?case
    by (rule with_lock_wf)
      (use get_devices(2) in
        \<open>auto simp: Let_def bind_eq_Some_conv split: option.splits if_splits\<close>)
next
  case (inv_pcd os g s s' rc u)
  from inv_pcd(1) [unfolded invalidate_device_pcd_def] inv_pcd(2) show ?case
    by (rule per_device_wf) (auto simp: wf_device_def split: option.splits)
next
  case (get_details os g s s' rc out3)
  from get_details(1) [unfolded get_nvm_context_device_details_def] get_details(2) show ?case
    by (rule per_device_wf) (auto split: option.splits)
next
  case (set_details os g det s s' rc u)
  from set_details(1) [unfolded set_nvm_context_device_details_def] set_details(2) show ?case
    by (rule per_device_wf) (auto simp: wf_device_def split: if_splits)
next
  case (get_pcd os g s s' rc out4)
  from get_pcd(1) [unfolded get_nvm_context_device_pcd_def] get_pcd(2) show ?case
    by (rule per_device_wf) (auto split: option.splits if_splits)
next
  case (set_pcd os g pcd s s' rc u)
  from set_pcd(1) [unfolded set_nvm_context_device_pcd_def] set_pcd(2) show ?case
    by (rule per_device_wf) (auto simp: wf_device_def Let_def split: if_splits)
next
  case (set_ns_details os g nd s s' rc u)
  then show ?case by (blast intro: set_ns_details_wf)
qed (unfold ctx_ops, (erule with_lock_wf, assumption,
      (auto simp: Let_def bind_eq_Some_conv split: option.splits if_splits
        intro!: wf_body_id)[1])+)

lemma ctx_reachable_wf: "ctx_reachable s \<Longrightarrow> wf_ctx (p_context s)"
proof (induction rule: ctx_reachable.induct)
  case start
  show ?case by simp
next
  case (step s s')
  then show ?case by (blast intro: ctx_step_wf)
qed

section \<open>A keyed cache\<close>

text \<open>What a client of the per-key part of the context relies on: storing under a present key
  makes that value the answer for the key, leaves the other keys alone, and changes nothing for
  an absent key. Keys and stored values are restricted to
  well-formed ones.\<close>

locale keyed_cache =
  fixes key :: "'k \<Rightarrow> bool"
    and val :: "'v \<Rightarrow> bool"
    and inv :: "'s \<Rightarrow> bool"
    and present :: "'k \<Rightarrow> 's \<Rightarrow> bool"
    and lookup :: "'k \<Rightarrow> 's \<Rightarrow> 'v option"
    and update :: "'k \<Rightarrow> 'v \<Rightarrow> 's \<Rightarrow> 's"
  assumes inv_update: "inv s \<Longrightarrow> key k \<Longrightarrow> inv (update k v s)"
    and present_update: "inv s \<Longrightarrow> key k \<Longrightarrow> key j \<Longrightarrow> present j (update k v s) = present j s"
    and lookup_update_same:
      "inv s \<Longrightarrow> key k \<Longrightarrow> val v \<Longrightarrow> present k s \<Longrightarrow> lookup k (update k v s) = Some v"
    and lookup_update_other:
      "inv s \<Longrightarrow> key k \<Longrightarrow> key j \<Longrightarrow> j \<noteq> k \<Longrightarrow> lookup j (update k v s) = lookup j s"
    and lookup_absent: "inv s \<Longrightarrow> key k \<Longrightarrow> \<not> present k s \<Longrightarrow> lookup k s = None"
begin

definition update_all :: "('k \<times> 'v) list \<Rightarrow> 's \<Rightarrow> 's" where
  "update_all kvs s = fold (\<lambda>(k, v). update k v) kvs s"

lemma update_all_inv: "inv s \<Longrightarrow> list_all (\<lambda>kv. key (fst kv)) kvs \<Longrightarrow> inv (update_all kvs s)"
  by (induction kvs arbitrary: s) (auto simp: update_all_def inv_update)

lemma update_all_present:
  "inv s \<Longrightarrow> list_all (\<lambda>kv. key (fst kv)) kvs \<Longrightarrow> key j \<Longrightarrow>
   present j (update_all kvs s) = present j s"
  by (induction kvs arbitrary: s) (auto simp: update_all_def inv_update present_update)

text \<open>After any sequence of stores the last store to a present key wins.\<close>

lemma lookup_update_all:
  assumes "inv s" "list_all (\<lambda>kv. key (fst kv)) kvs" "list_all (\<lambda>kv. val (snd kv)) kvs"
    "key j" "present j s"
  shows "lookup j (update_all kvs s) =
    (case map_of (rev kvs) j of Some v \<Rightarrow> Some v | None \<Rightarrow> lookup j s)"
  using assms
proof (induction kvs arbitrary: s)
  case Nil
  then show ?case by (simp add: update_all_def)
next
  case (Cons kv kvs)
  obtain k v where kv: "kv = (k, v)" by (cases kv)
  have "lookup j (update_all (kv # kvs) s) = lookup j (update_all kvs (update k v s))"
    by (simp add: update_all_def kv)
  also have "\<dots> = (case map_of (rev kvs) j of Some v \<Rightarrow> Some v | None \<Rightarrow> lookup j (update k v s))"
    using Cons.prems kv by (intro Cons.IH) (auto simp: inv_update present_update)
  finally show ?case
    using Cons.prems kv
    by (auto simp: map_add_def lookup_update_same lookup_update_other split: option.splits)
qed

lemma lookup_update_all_absent:
  assumes "inv s" "list_all (\<lambda>kv. key (fst kv)) kvs" "key j" "\<not> present j s"
  shows "lookup j (update_all kvs s) = None"
  using assms update_all_inv update_all_present lookup_absent by blast

end

subsection \<open>The context as a keyed cache\<close>

definition device_present :: "guid \<Rightarrow> 'det ctx_state \<Rightarrow> bool" where
  "device_present g s = (\<exists>x e. p_context s = Some x \<and> find_device g x = Some (Some e))"

definition read_details :: "guid \<Rightarrow> 'det ctx_state \<Rightarrow> 'det option" where
  "read_details g s =
     (case get_nvm_context_device_details os_fine g s of Some (_, _, out) \<Rightarrow> out | None \<Rightarrow> None)"

definition write_details :: "guid \<Rightarrow> 'det \<Rightarrow> 'det ctx_state \<Rightarrow> 'det ctx_state" where
  "write_details g v s =
     (case set_nvm_context_device_details os_fine g v s of Some (s', _, _) \<Rightarrow> s' | None \<Rightarrow> s)"

definition read_pcd :: "guid \<Rightarrow> 'det ctx_state \<Rightarrow> bytes option" where
  "read_pcd g s =
     (case get_nvm_context_device_pcd os_fine g s of Some (_, _, out) \<Rightarrow> map_option fst out | None \<Rightarrow> None)"

definition write_pcd :: "guid \<Rightarrow> bytes \<Rightarrow> 'det ctx_state \<Rightarrow> 'det ctx_state" where
  "write_pcd g v s =
     (case set_nvm_context_device_pcd os_fine g v s of Some (s', _, _) \<Rightarrow> s' | None \<Rightarrow> s)"

lemma find_device_put_same:
  assumes "wf_ctx (Some x)" "find_device g x = Some (Some (i, d))" "dc_guid d' = dc_guid d"
  shows "find_device g (put_device i d' x) = Some (Some (i, d'))"
proof -
  from assms(1,2) obtain ds where ds: "p_devices x = Some ds" "device_count x = int (length ds)"
    "0 < length ds" "i < length ds" "d = ds ! i" "guid_match g (dc_guid d)"
    "\<And>j. j < i \<Longrightarrow> \<not> guid_match g (dc_guid (ds ! j))"
    by (elim find_device_Some) auto
  have "search (\<lambda>d. guid_match g (dc_guid d)) (ds[i := d']) (length (ds[i := d'])) 0 = Some (Some i)"
    using ds assms(3) by (intro search_first) auto
  with ds show ?thesis by (simp add: find_device_def put_device_def)
qed

lemma find_device_put_other:
  assumes "wf_ctx (Some x)" "find_device g x = Some (Some (i, d))" "dc_guid d' = dc_guid d"
    and "guid_ok g" "guid_ok h" "h \<noteq> g"
  shows "find_device h (put_device i d' x) = find_device h x"
proof -
  from assms(1,2) obtain ds where ds: "p_devices x = Some ds" "device_count x = int (length ds)"
    "0 < length ds" "i < length ds" "d = ds ! i" "guid_match g (dc_guid d)" "wf_device d"
    by (elim find_device_Some) auto
  have d_guid: "dc_guid d = g" using ds assms(4) by (simp add: wf_device_def)
  have same: "search (\<lambda>d. guid_match h (dc_guid d)) (ds[i := d']) (length ds) 0 =
    search (\<lambda>d. guid_match h (dc_guid d)) ds (length ds) 0"
    using assms(3) ds(4,5) by (intro search_cong) (auto simp: nth_list_update)
  have "k \<noteq> i" if "search (\<lambda>d. guid_match h (dc_guid d)) ds (length ds) 0 = Some (Some k)" for k
    using search_Some_Some [OF that] ds d_guid assms(4-6) by auto
  moreover obtain r where "search (\<lambda>d. guid_match h (dc_guid d)) ds (length ds) 0 = Some r"
    using search_ex by blast
  ultimately show ?thesis
    using ds same by (cases r) (simp_all add: find_device_def put_device_def)
qed

definition device_at :: "guid \<Rightarrow> 'det ctx_state \<Rightarrow> (nat \<times> 'det nvm_device_context) option" where
  "device_at g s =
     (case p_context s of None \<Rightarrow> None
      | Some x \<Rightarrow> (case find_device g x of Some r \<Rightarrow> r | None \<Rightarrow> None))"

lemma device_present_iff: "device_present g s \<longleftrightarrow> (\<exists>e. device_at g s = Some e)"
  by (auto simp: device_present_def device_at_def split: option.splits)

definition map_device :: "guid \<Rightarrow> ('det nvm_device_context \<Rightarrow> 'det nvm_device_context) \<Rightarrow>
    'det ctx_state \<Rightarrow> 'det nvm_context option" where
  "map_device g h s =
     (case device_at g s of None \<Rightarrow> p_context s
      | Some (i, d) \<Rightarrow> map_option (put_device i (h d)) (p_context s))"

lemma run_on_device:
  assumes "wf_ctx (p_context s)"
  shows "with_lock os_fine out0 (on_device g out0 f) s =
    (case device_at g s of
       None \<Rightarrow> Some (\<lparr>p_context = p_context s, lock_held = False\<rparr>, NVM_ERR_UNKNOWN, out0)
     | Some (i, d) \<Rightarrow>
         (case f d of (d', rc, out) \<Rightarrow>
            Some (\<lparr>p_context = map_device g (\<lambda>_. d') s, lock_held = False\<rparr>, rc, out)))"
proof (cases "p_context s")
  case None
  then show ?thesis by (simp add: with_lock_fine on_device_def device_at_def)
next
  case (Some x)
  with assms obtain r where r: "find_device g x = Some r"
    using find_device_defined by (metis (no_types))
  show ?thesis
  proof (cases r)
    case None
    with Some r show ?thesis by (simp add: with_lock_fine on_device_def device_at_def)
  next
    case (Some e)
    with r \<open>p_context s = Some x\<close> show ?thesis
      by (cases e; cases "f (snd e)")
        (simp add: with_lock_fine on_device_def device_at_def map_device_def)
  qed
qed

text \<open>A field of the per-device entry, read and written through the lookup, is a keyed cache.\<close>

lemma device_field_cache:
  fixes rd :: "guid \<Rightarrow> 'det ctx_state \<Rightarrow> 'v option"
  assumes rd: "\<And>g s. wf_ctx (p_context s) \<Longrightarrow>
      rd g s = (case device_at g s of None \<Rightarrow> None | Some (i, d) \<Rightarrow> sel d)"
    and wr: "\<And>g v s. wf_ctx (p_context s) \<Longrightarrow> p_context (wr g v s) = map_device g (upd v) s"
    and sel: "\<And>v d. val v \<Longrightarrow> sel (upd v d) = Some v"
    and same: "\<And>v d. dc_guid (upd v d) = dc_guid d" "\<And>v d. wf_device d \<Longrightarrow> wf_device (upd v d)"
  shows "keyed_cache guid_ok val (\<lambda>s. wf_ctx (p_context s)) device_present rd wr"
proof
  fix s :: "'det ctx_state" and k j :: guid and v :: 'v
  assume inv: "wf_ctx (p_context s)" and k: "guid_ok k"
  have at: "\<exists>x. p_context s = Some x \<and> find_device k x = Some (Some (i, d)) \<and>
      p_context (wr k v s) = Some (put_device i (upd v d) x)" if "device_at k s = Some (i, d)" for i d
    using that wr [OF inv, of k v]
    by (auto simp: device_at_def map_device_def split: option.splits)
  have gone: "p_context (wr k v s) = p_context s" if "device_at k s = None"
    using that wr [OF inv, of k v] by (simp add: map_device_def)
  show inv': "wf_ctx (p_context (wr k v s))"
  proof (cases "device_at k s")
    case None
    with gone inv show ?thesis by simp
  next
    case (Some e)
    obtain i d where e: "device_at k s = Some (i, d)" using Some by (cases e) auto
    from at [OF this] inv show ?thesis
      by (auto elim!: find_device_Some intro!: wf_put_device same(2))
  qed
  have at_same: "device_at k (wr k v s) = Some (i, upd v d)" if "device_at k s = Some (i, d)" for i d
    using at [OF that] inv by (auto simp: device_at_def find_device_put_same same(1))
  have at_other: "device_at j (wr k v s) = device_at j s" if "guid_ok j" "j \<noteq> k"
  proof (cases "device_at k s")
    case None
    with gone show ?thesis by (simp add: device_at_def)
  next
    case (Some e)
    obtain i d where e: "device_at k s = Some (i, d)" using Some by (cases e) auto
    from at [OF this] inv k that show ?thesis
      by (auto simp: device_at_def find_device_put_other [where g = k] same(1))
  qed
  have at_none: "device_at k (wr k v s) = None" if "device_at k s = None"
    using gone [OF that] that by (simp add: device_at_def)
  show "guid_ok j \<Longrightarrow> device_present j (wr k v s) = device_present j s"
    using at_same at_other at_none
    by (cases "j = k"; cases "device_at k s") (auto simp: device_present_iff)
  show "val v \<Longrightarrow> device_present k s \<Longrightarrow> rd k (wr k v s) = Some v"
    using at_same by (auto simp: device_present_iff rd [OF inv'] sel)
  show "guid_ok j \<Longrightarrow> j \<noteq> k \<Longrightarrow> rd j (wr k v s) = rd j s"
    by (simp add: rd [OF inv'] rd [OF inv] at_other)
  show "\<not> device_present k s \<Longrightarrow> rd k s = None"
    by (cases "device_at k s") (auto simp: rd [OF inv] device_present_iff)
qed

lemma map_device_const:
  "device_at g s = Some (i, d) \<Longrightarrow> map_device g (\<lambda>_. h d) s = map_device g h s"
  by (simp add: map_device_def)

lemma read_details_eq:
  "wf_ctx (p_context s) \<Longrightarrow>
   read_details g s = (case device_at g s of None \<Rightarrow> None | Some (i, d) \<Rightarrow> p_device_details d)"
  by (simp add: read_details_def get_nvm_context_device_details_def run_on_device
      split: option.splits prod.splits)

lemma write_details_eq:
  "wf_ctx (p_context s) \<Longrightarrow>
   p_context (write_details g v s) = map_device g (\<lambda>d. d\<lparr>p_device_details := Some v\<rparr>) s"
  by (simp add: write_details_def set_nvm_context_device_details_def run_on_device os_fine_def [symmetric])
    (simp add: os_fine_def map_device_def split: option.splits prod.splits)

lemma read_pcd_eq:
  "wf_ctx (p_context s) \<Longrightarrow>
   read_pcd g s =
     (case device_at g s of None \<Rightarrow> None | Some (i, d) \<Rightarrow> if pcd_size d > 0 then p_pcd d else None)"
  by (simp add: read_pcd_def get_nvm_context_device_pcd_def run_on_device)
    (simp add: os_fine_def split: option.splits prod.splits)

lemma write_pcd_eq:
  "wf_ctx (p_context s) \<Longrightarrow>
   p_context (write_pcd g v s) =
     map_device g (\<lambda>d. d\<lparr>p_pcd := Some v, pcd_size := of_nat (length v)\<rparr>) s"
  by (simp add: write_pcd_def set_nvm_context_device_pcd_def run_on_device)
    (auto simp: os_fine_def map_device_def Let_def split: option.splits prod.splits if_splits)

interpretation details_cache: keyed_cache guid_ok "\<lambda>_. True" "\<lambda>s. wf_ctx (p_context s)"
  device_present read_details write_details
  by (rule device_field_cache [OF read_details_eq write_details_eq]) (auto simp: wf_device_def)

text \<open>A PCD buffer is one with a size that is neither zero nor too large for \<open>pcd_size\<close>.\<close>

definition pcd_ok :: "bytes \<Rightarrow> bool" where
  "pcd_ok b \<longleftrightarrow> 0 < (of_nat (length b) :: u64)"

interpretation pcd_cache: keyed_cache guid_ok pcd_ok "\<lambda>s. wf_ctx (p_context s)"
  device_present read_pcd write_pcd
  by (rule device_field_cache [OF read_pcd_eq write_pcd_eq]) (auto simp: wf_device_def pcd_ok_def)

section \<open>Properties\<close>

lemma copy_discovery_defined: "n \<le> length ds \<Longrightarrow> \<exists>r. copy_discovery ds n = Some r"
  by (induction ds n rule: copy_discovery.induct) (auto split: option.splits)

lemma copy_discovery_entries:
  "n \<le> length ds \<Longrightarrow> copy_discovery (map device_entry ds) n = Some (take n ds, True)"
  by (induction n arbitrary: ds) (auto simp: device_entry_def neq_Nil_conv Suc_le_length_iff)

lemma copy_ns_discovery_entries:
  "copy_ns_discovery (map namespace_entry ds) n = (if n \<le> length ds then Some (take n ds) else None)"
proof (induction n arbitrary: ds)
  case 0
  then show ?case by simp
next
  case (Suc n)
  then show ?case by (cases ds) (auto simp: namespace_entry_def)
qed

lemma with_lock_defined:
  "(\<exists>r. body (p_context s) = Some r) \<Longrightarrow> \<exists>r. with_lock os out0 body s = Some r"
  by (auto simp: with_lock_def)

lemma get_devices_defined:
  assumes "wf_ctx (p_context s)" "0 \<le> n"
  shows "\<exists>r. get_nvm_context_devices os n s = Some r"
  unfolding get_nvm_context_devices_def
proof (rule with_lock_defined, cases "p_context s")
  case (Some x)
  show "\<exists>r. (case p_context s of None \<Rightarrow> Some (p_context s, NVM_ERR_UNKNOWN, [])
     | Some x \<Rightarrow> (case p_devices x of None \<Rightarrow> Some (p_context s, NVM_ERR_UNKNOWN, [])
       | Some ds \<Rightarrow>
           if \<not> device_count x > 0 then Some (p_context s, NVM_ERR_UNKNOWN, [])
           else if n < 0 then None
           else
             let copy_count = (if n > device_count x then device_count x else n);
                 rc = (if n < device_count x then NVM_ERR_ARRAYTOOSMALL else copy_count)
             in do {
               (xs, ok) \<leftarrow> copy_discovery ds (nat copy_count);
               if ok then Some (p_context s, rc, xs)
               else Some (Some (free_device_list x), NVM_ERR_UNKNOWN, xs)
             })) = Some r"
  proof (cases "p_devices x")
    case None
    with Some show ?thesis by simp
  next
    case (Some ds)
    with assms \<open>p_context s = Some x\<close> have c: "device_count x = int (length ds)"
      by (simp add: wf_ctx_def wf_list_def)
    let ?n = "if n > device_count x then device_count x else n"
    obtain xs ok where "copy_discovery ds (nat ?n) = Some (xs, ok)"
      using copy_discovery_defined [of "nat ?n" ds] c assms(2) by fastforce
    with Some \<open>p_context s = Some x\<close> assms(2) show ?thesis by (simp add: Let_def)
  qed
qed simp

lemma get_pools_defined:
  assumes "wf_ctx (p_context s)" "0 \<le> n"
  shows "\<exists>r. get_nvm_context_pools os n s = Some r"
  unfolding get_nvm_context_pools_def
  by (rule with_lock_defined)
    (use assms in \<open>auto simp: wf_ctx_def wf_list_def copy_first_def Let_def split: option.splits\<close>)

lemma get_pool_defined:
  assumes "wf_ctx (p_context s)"
  shows "\<exists>r. get_nvm_context_pool os g s = Some r"
  unfolding get_nvm_context_pool_def
proof (rule with_lock_defined, cases "p_context s")
  case (Some x)
  show "\<exists>r. (case p_context s of None \<Rightarrow> Some (p_context s, NVM_ERR_UNKNOWN, None)
     | Some x \<Rightarrow> (case p_pools x of None \<Rightarrow> Some (p_context s, NVM_ERR_UNKNOWN, None)
       | Some ps \<Rightarrow>
           if \<not> pool_count x > 0 then Some (p_context s, NVM_ERR_UNKNOWN, None)
           else do {
             r \<leftarrow> search (\<lambda>p. guid_match g (pool_guid p)) ps (nat (pool_count x)) 0;
             case r of
               None \<Rightarrow> Some (p_context s, NVM_ERR_UNKNOWN, None)
             | Some i \<Rightarrow> Some (p_context s, NVM_SUCCESS, Some (ps ! i))
           })) = Some r"
  proof (cases "p_pools x")
    case None
    with Some show ?thesis by simp
  next
    case (Some ps)
    with assms \<open>p_context s = Some x\<close> have c: "pool_count x = int (length ps)"
      by (simp add: wf_ctx_def wf_list_def)
    obtain r where "search (\<lambda>p. guid_match g (pool_guid p)) ps (length ps) 0 = Some r"
      using search_ex by blast
    with Some c \<open>p_context s = Some x\<close> show ?thesis by (cases r) simp_all
  qed
qed simp

lemma on_device_defined:
  assumes "wf_ctx (p_context s)"
  shows "\<exists>r. with_lock os out0 (on_device g out0 f) s = Some r"
proof (rule with_lock_defined, cases "p_context s")
  case (Some x)
  with assms obtain r where "find_device g x = Some r"
    using find_device_defined by (metis (no_types))
  with Some show "\<exists>r. on_device g out0 f (p_context s) = Some r"
    by (cases r) (auto simp: on_device_def split: prod.splits)
qed (simp add: on_device_def)

lemma get_details_defined:
  "wf_ctx (p_context s) \<Longrightarrow> \<exists>r. get_nvm_context_device_details os g s = Some r"
  unfolding get_nvm_context_device_details_def by (rule on_device_defined)

lemma get_pcd_defined:
  "wf_ctx (p_context s) \<Longrightarrow> \<exists>r. get_nvm_context_device_pcd os g s = Some r"
  unfolding get_nvm_context_device_pcd_def by (rule on_device_defined)

text \<open>C3. In every context state that any sequence of calls can reach, whatever the locks and
  allocations do, lists and counts agree, and the readers of devices, pools, details and PCD
  read only inside the cached objects.\<close>

theorem context_readers_stay_in_bounds:
  assumes "ctx_reachable s" and "0 \<le> n"
  shows "wf_ctx (p_context s) \<and>
    get_nvm_context_devices os n s \<noteq> None \<and> get_nvm_context_pools os n s \<noteq> None \<and>
    get_nvm_context_pool os g s \<noteq> None \<and> get_nvm_context_device_details os g s \<noteq> None \<and>
    get_nvm_context_device_pcd os g s \<noteq> None"
proof -
  have wf: "wf_ctx (p_context s)" using assms(1) by (rule ctx_reachable_wf)
  then show ?thesis
    using assms(2) get_devices_defined [of s n os] get_pools_defined [of s n os]
      get_pool_defined [of s os g] get_details_defined [of s os g] get_pcd_defined [of s os g]
    by (metis option.distinct(1))
qed

definition sample_device :: "u8 \<Rightarrow> device_discovery" where
  "sample_device k =
     \<lparr>dev_guid = replicate GUID_LEN k, manageability = MANAGEMENT_VALIDCONFIG,
      device_handle = ucast k, physical_id = 0, vendor_id = 0x8086, device_id = 0, revision_id = 0,
      channel_pos = 0, channel_id = 0, memory_controller_id = 0, dev_socket_id = 0,
      node_controller_id = 0, memory_type = MEMORY_TYPE_NVMDIMM, manufacturer = [0x89, 0x80],
      serial_number = [k, 0, 0, 1], model_number = replicate 20 65, fw_revision = [],
      fw_api_version = [], dev_capacity = 137438953472, interface_format_code = 769,
      dev_security_capabilities =
        \<lparr>passphrase_capable = True, unlock_device_capable = True,
         erase_overwrite_capable = False, erase_crypto_capable = True\<rparr>,
      dev_lock_state = LOCK_STATE_DISABLED,
      dev_capabilities =
        \<lparr>die_sparing_capable = True, memory_mode_capable = True, storage_mode_capable = True,
         app_direct_mode_capable = True\<rparr>,
      dimm_sku = 0\<rparr>"

definition empty_state :: "nat ctx_state" where
  "empty_state = \<lparr>p_context = None, lock_held = False\<rparr>"

definition created_state :: "nat ctx_state" where
  "created_state = \<lparr>p_context = Some fresh_context, lock_held = False\<rparr>"

lemma created_reachable: "ctx_reachable created_state"
proof (rule ctx_reachable.step)
  show "ctx_reachable empty_state"
    unfolding empty_state_def by (rule ctx_reachable.start)
  have "nvm_create_context os_fine os_fine empty_state = Some (created_state, NVM_SUCCESS, ())"
    by (simp add: nvm_create_context_def nvm_free_context_def with_lock_fine empty_state_def
        created_state_def) (simp add: os_fine_def)
  then show "ctx_step empty_state created_state" by (rule ctx_step.create)
qed

definition two_devices_state :: "nat ctx_state" where
  "two_devices_state =
     created_state\<lparr>p_context := Some (fresh_context\<lparr>
       p_devices := Some [device_entry (sample_device 1), device_entry (sample_device 2)],
       device_count := 2\<rparr>)\<rparr>"

lemma two_devices_reachable: "ctx_reachable two_devices_state"
proof (rule ctx_reachable.step [OF created_reachable])
  have "set_nvm_context_devices os_fine [sample_device 1, sample_device 2] created_state =
      Some (two_devices_state, NVM_SUCCESS, ())"
    by (simp add: set_nvm_context_devices_def with_lock_fine created_state_def two_devices_state_def
        free_device_list_def fresh_context_def Let_def)
      (simp add: os_fine_def)
  then show "ctx_step created_state two_devices_state"
    by (rule ctx_step.set_devices) (simp add: sample_device_def)
qed

theorem context_readers_stay_in_bounds_witness:
  "get_nvm_context_devices os_fine 5 two_devices_state \<noteq> None"
  using context_readers_stay_in_bounds [OF two_devices_reachable, of 5 os_fine "[]"] by simp

text \<open>C13. A device list put into the cache is the list read back: all of it when the caller's
  array is large enough (the return code is the number of devices), and its first \<open>n\<close>
  entries with \<^verbatim>\<open>NVM_ERR_ARRAYTOOSMALL\<close> when it is not.\<close>

theorem set_get_devices:
  assumes "p_context s = Some x" and "devs \<noteq> []" and "0 \<le> n"
  shows "\<exists>s'. set_nvm_context_devices os_fine devs s = Some (s', NVM_SUCCESS, ()) \<and>
    get_nvm_context_devices os_fine n s' =
      Some (s', if n < int (length devs) then NVM_ERR_ARRAYTOOSMALL else int (length devs),
            take (nat n) devs)"
proof -
  let ?x = "free_device_list x\<lparr>p_devices := Some (map device_entry devs),
    device_count := int (length devs)\<rparr>"
  have "set_nvm_context_devices os_fine devs s =
      Some (\<lparr>p_context = Some ?x, lock_held = False\<rparr>, NVM_SUCCESS, ())"
    using assms(1)
    by (simp add: set_nvm_context_devices_def with_lock_fine Let_def fill_devices_ok os_fine_def
        with_lock_def)
  moreover have "get_nvm_context_devices os_fine n \<lparr>p_context = Some ?x, lock_held = False\<rparr> =
      Some (\<lparr>p_context = Some ?x, lock_held = False\<rparr>,
        if n < int (length devs) then NVM_ERR_ARRAYTOOSMALL else int (length devs),
        take (nat n) devs)"
    using assms(2,3)
    by (simp add: get_nvm_context_devices_def with_lock_fine Let_def copy_discovery_entries)
  ultimately show ?thesis by blast
qed

theorem set_get_devices_witness:
  "\<exists>s'. set_nvm_context_devices os_fine [sample_device 1, sample_device 2] created_state =
      Some (s', NVM_SUCCESS, ()) \<and>
    get_nvm_context_devices os_fine 1 s' = Some (s', NVM_ERR_ARRAYTOOSMALL, [sample_device 1])"
  using set_get_devices [of created_state fresh_context "[sample_device 1, sample_device 2]" 1]
  by (simp add: created_state_def)

text \<open>Invalidation forgets a cached device list, so the next count is "unknown" and the
  hardware is read again, except when the cached list is empty: an empty list survives
  \<^verbatim>\<open>invalidate_devices\<close>, and the count stays 0.\<close>

theorem invalidate_devices_keeps_empty_list:
  assumes "p_context s = Some x" and "set_nvm_context_devices os_fine devs s = Some (s1, rc1, u1)"
    and "invalidate_devices os_fine s1 = Some (s2, rc2, u2)"
  shows "get_nvm_context_device_count os_fine s2 =
    Some (s2, if devs = [] then 0 else NVM_ERR_UNKNOWN, ())"
proof -
  have "s1 = \<lparr>p_context = Some (free_device_list x\<lparr>p_devices := Some (map device_entry devs),
      device_count := int (length devs)\<rparr>), lock_held = False\<rparr>"
    using assms(1,2)
    by (simp add: set_nvm_context_devices_def with_lock_fine Let_def fill_devices_ok os_fine_def
        with_lock_def)
  with assms(3) show ?thesis
    by (auto simp: invalidate_devices_def get_nvm_context_device_count_def with_lock_fine
        free_device_list_def)
qed

theorem invalidate_devices_keeps_empty_list_witness:
  "\<exists>s1 s2. set_nvm_context_devices os_fine [] created_state = Some (s1, NVM_SUCCESS, ()) \<and>
     invalidate_devices os_fine s1 = Some (s2, NVM_SUCCESS, ()) \<and>
     get_nvm_context_device_count os_fine s2 = Some (s2, 0, ())"
proof -
  obtain s1 where 1: "set_nvm_context_devices os_fine [] created_state = Some (s1, NVM_SUCCESS, ())"
    by (simp add: set_nvm_context_devices_def with_lock_def os_fine_def created_state_def Let_def)
  obtain s2 where 2: "invalidate_devices os_fine s1 = Some (s2, NVM_SUCCESS, ())"
    by (simp add: invalidate_devices_def with_lock_def os_fine_def)
  have "p_context created_state = Some fresh_context" by (simp add: created_state_def)
  from invalidate_devices_keeps_empty_list [OF this 1 2] 1 2 show ?thesis by auto
qed

text \<open>\<^verbatim>\<open>get_nvm_context_namespaces\<close> copies as many entries as the caller asks for,
  not as many as there are: a caller with a larger array than the cached list makes it read past
  the list (and dereference what it finds there), while every count up to the list's length is
  answered from the list.\<close>

theorem get_namespaces_overruns:
  assumes "p_context s = Some x" and "nss \<noteq> []" and "0 \<le> n"
    and "set_nvm_context_namespaces os_fine nss s = Some (s', rc, u)"
  shows "get_nvm_context_namespaces os_fine n s' =
    (if n > int (length nss) then None
     else Some (s', if n < int (length nss) then NVM_ERR_ARRAYTOOSMALL else n, take (nat n) nss))"
proof -
  have "s' = \<lparr>p_context = Some (free_namespace_list x\<lparr>p_namespaces := Some (map namespace_entry nss),
      namespace_count := int (length nss)\<rparr>), lock_held = False\<rparr>"
    using assms(1,4)
    by (simp add: set_nvm_context_namespaces_def with_lock_fine Let_def fill_namespaces_ok
        os_fine_def with_lock_def)
  with assms(2,3) show ?thesis
    by (auto simp: get_nvm_context_namespaces_def with_lock_fine Let_def copy_ns_discovery_entries)
qed

theorem get_namespaces_overruns_witness:
  "\<exists>s'. set_nvm_context_namespaces os_fine
       [\<lparr>namespace_guid = replicate GUID_LEN 3, nsd_friendly_name = ''ns''\<rparr>] created_state =
       Some (s', NVM_SUCCESS, ()) \<and>
     get_nvm_context_namespaces os_fine 2 s' = None"
proof -
  let ?n = "\<lparr>namespace_guid = replicate GUID_LEN 3, nsd_friendly_name = ''ns''\<rparr>"
  obtain s' where s': "set_nvm_context_namespaces os_fine [?n] created_state = Some (s', NVM_SUCCESS, ())"
    by (simp add: set_nvm_context_namespaces_def with_lock_def os_fine_def created_state_def Let_def)
  have "p_context created_state = Some fresh_context" by (simp add: created_state_def)
  from get_namespaces_overruns [OF this _ _ s', of 2] s' show ?thesis by auto
qed

text \<open>C40. After any sequence of stores of device details the cache answers, for a device that is
  in the list, with the details stored last for that device, or with what it held before when
  none of the stores was for it.\<close>

theorem details_last_write_wins:
  assumes "wf_ctx (p_context s)" and "list_all (\<lambda>kv. guid_ok (fst kv)) kvs"
    and "guid_ok g" and "device_present g s"
  shows "read_details g (fold (\<lambda>(k, v). write_details k v) kvs s) =
    (case map_of (rev kvs) g of Some v \<Rightarrow> Some v | None \<Rightarrow> read_details g s)"
  using details_cache.lookup_update_all [OF assms(1,2) _ assms(3,4)]
  by (simp add: details_cache.update_all_def list_all_iff)

theorem details_last_write_wins_witness:
  "read_details (replicate GUID_LEN 1)
     (fold (\<lambda>(k, v). write_details k v)
       [(replicate GUID_LEN 1, 7), (replicate GUID_LEN 2, 8), (replicate GUID_LEN 1, 9)]
       two_devices_state) = Some 9"
proof -
  have "wf_ctx (p_context two_devices_state)" by (rule ctx_reachable_wf [OF two_devices_reachable])
  moreover have "device_present (replicate GUID_LEN 1) two_devices_state"
    by (simp add: device_present_def find_device_def two_devices_state_def created_state_def
        device_entry_def sample_device_def numeral_2_eq_2)
  ultimately show ?thesis
    by (subst details_last_write_wins) (auto simp: sample_device_def)
qed

end
