(* ===== verification/Buffers.thy ===== *)
theory Buffers
  imports CPrelude
begin

text \<open>
  Generic facts about reads and writes of byte buffers: every read is a function of the bytes
  it covers, a longer buffer reads the same, a write is read back and leaves the bytes beside
  it alone. The collection \<open>rd_append\<close> holds the facts that lift a read of a table to the
  buffer that contains the table.
\<close>

named_theorems rd_append \<open>reads of an extended buffer\<close>

lemma load_rd_bytes: "load n buf off = map_option le_nat (rd_bytes buf off n)"
  by (simp add: load_def rd_bytes_def)

lemma rd_as_bytes:
  "rd8 buf off = map_option (\<lambda>bs. of_nat (le_nat bs)) (rd_bytes buf off 1)"
  "rd16 buf off = map_option (\<lambda>bs. of_nat (le_nat bs)) (rd_bytes buf off 2)"
  "rd32 buf off = map_option (\<lambda>bs. of_nat (le_nat bs)) (rd_bytes buf off 4)"
  "rd64 buf off = map_option (\<lambda>bs. of_nat (le_nat bs)) (rd_bytes buf off 8)"
  by (simp_all add: rd8_def rd16_def rd32_def rd64_def load_rd_bytes option.map_comp o_def)

lemma rd_bytes_append [rd_append]:
  "rd_bytes buf off n = Some bs \<Longrightarrow> rd_bytes (buf @ r) off n = Some bs"
  by (auto simp: rd_bytes_def split: if_splits)

lemma rd8_append_ext [rd_append]: "rd8 buf off = Some v \<Longrightarrow> rd8 (buf @ r) off = Some v"
  by (auto simp: rd_as_bytes rd_append)

lemma rd16_append_ext [rd_append]: "rd16 buf off = Some v \<Longrightarrow> rd16 (buf @ r) off = Some v"
  by (auto simp: rd_as_bytes rd_append)

lemma rd32_append_ext [rd_append]: "rd32 buf off = Some v \<Longrightarrow> rd32 (buf @ r) off = Some v"
  by (auto simp: rd_as_bytes rd_append)

lemma rd64_append_ext [rd_append]: "rd64 buf off = Some v \<Longrightarrow> rd64 (buf @ r) off = Some v"
  by (auto simp: rd_as_bytes rd_append)

lemma rd_bytes_drop: "0 < n \<Longrightarrow> rd_bytes (drop k buf) off n = rd_bytes buf (k + off) n"
  by (auto simp: rd_bytes_def add.commute)

lemma rd_drop:
  "rd8 (drop k buf) off = rd8 buf (k + off)" "rd16 (drop k buf) off = rd16 buf (k + off)"
  "rd32 (drop k buf) off = rd32 buf (k + off)" "rd64 (drop k buf) off = rd64 buf (k + off)"
  by (simp_all add: rd_as_bytes rd_bytes_drop)

lemma rd_bytes_prefix: "off = length xs \<Longrightarrow> n = length bs \<Longrightarrow> rd_bytes (xs @ bs @ ys) off n = Some bs"
  by (simp add: rd_bytes_def)

lemma rd_bytes_skip: "length xs \<le> off \<Longrightarrow> rd_bytes (xs @ ys) off n = rd_bytes ys (off - length xs) n"
  by (auto simp: rd_bytes_def)

named_theorems rd_walk \<open>reads of a buffer given as a sequence of fields\<close>

lemma rd_bytes_at [rd_walk]:
  "length xs \<le> off \<Longrightarrow> rd_bytes (xs @ ys) off n = rd_bytes ys (off - length xs) n"
  "n = length xs \<Longrightarrow> rd_bytes (xs @ ys) 0 n = Some xs"
  "n = length xs \<Longrightarrow> rd_bytes xs 0 n = Some xs"
  "0 < off \<Longrightarrow> rd_bytes (b # ys) off n = rd_bytes ys (off - 1) n"
  "rd_bytes (b # ys) 0 (Suc 0) = Some [b]"
  by (auto simp: rd_bytes_def drop_Cons')

lemma le_nat_back:
  "of_nat (le_nat (le16 a)) = a" "of_nat (le_nat (le32 b)) = b" "of_nat (le_nat (le64 c)) = c"
proof -
  have "unat a < 65536" using unsigned_less [of a] by simp
  moreover have "unat b < 4294967296" using unsigned_less [of b] by simp
  moreover have "unat c < 18446744073709551616" using unsigned_less [of c] by simp
  ultimately show "of_nat (le_nat (le16 a)) = a" "of_nat (le_nat (le32 b)) = b"
    "of_nat (le_nat (le64 c)) = c"
    by (simp_all add: le16_def le32_def le64_def le_nat_nat_le)
qed

lemma store_Some: "off + length bs \<le> length buf \<Longrightarrow> \<exists>buf'. store buf off bs = Some buf'"
  by (simp add: store_def)

lemma store_at: "n = length bs \<Longrightarrow> n = length xs \<Longrightarrow> off = length pre \<Longrightarrow>
  store (pre @ xs @ post) off bs = Some (pre @ bs @ post)"
  by (simp add: store_def)

lemma rd_bytes_store_same:
  "store buf off bs = Some buf' \<Longrightarrow> n = length bs \<Longrightarrow> rd_bytes buf' off n = Some bs"
  by (auto simp: store_def rd_bytes_def split: if_splits)

lemma rd_bytes_store_other:
  "store buf off bs = Some buf' \<Longrightarrow> o' + n \<le> off \<or> off + length bs \<le> o' \<Longrightarrow>
   rd_bytes buf' o' n = rd_bytes buf o' n"
proof -
  assume st: "store buf off bs = Some buf'" and dis: "o' + n \<le> off \<or> off + length bs \<le> o'"
  then have le: "off + length bs \<le> length buf"
    and buf': "buf' = take off buf @ bs @ drop (off + length bs) buf"
    by (auto simp: store_def split: if_splits)
  have nth: "buf' ! i = buf ! i" if "i < off \<or> off + length bs \<le> i" "i < length buf" for i
    using that le by (auto simp: buf' nth_append)
  have len: "length buf' = length buf" using le by (simp add: buf')
  have "take n (drop o' buf') = take n (drop o' buf)" if "o' + n \<le> length buf"
    by (rule nth_equalityI) (use that dis nth len in auto)
  with len show ?thesis by (simp add: rd_bytes_def)
qed

lemma store_byte:
  "off < length buf \<Longrightarrow> store buf off [v] = Some (buf[off := v])"
  by (simp add: store_def upd_conv_take_nth_drop)

end
