(* ===== verification/Adapter.thy ===== *)
theory Adapter
  imports NvmContext Buffers
begin

text \<open>
  The world the API functions run in. The operating system's driver interface
  (\<^verbatim>\<open>src/lib/device_adapter.h\<close>) is a parameter: a record of its functions over an
  abstract hardware state. The library's own state is the context cache of \<open>NvmContext\<close>. Two
  more fields record the firmware commands sent and the management events stored, for properties
  that speak of them; no definition reads them.

  An API function takes and returns the world; its result is \<open>None\<close> where the C function has
  no defined result.
\<close>

section \<open>The driver interface\<close>

record driver_feature_flags =
  dff_get_platform_capabilities :: bool
  dff_get_topology :: bool
  dff_get_interleave :: bool
  dff_get_dimm_detail :: bool
  dff_get_namespaces :: bool
  dff_get_namespace_detail :: bool
  dff_get_address_scrub_data :: bool
  dff_create_namespace :: bool
  dff_rename_namespace :: bool
  dff_grow_namespace :: bool
  dff_shrink_namespace :: bool
  dff_delete_namespace :: bool
  dff_enable_namespace :: bool
  dff_disable_namespace :: bool
  dff_run_diagnostic :: bool
  dff_passthrough :: bool
  dff_app_direct_mode :: bool
  dff_storage_mode :: bool

text \<open>The block size array has 16 entries; entries past the list read as the zeros the callers put
  there.\<close>

record nvm_driver_capabilities =
  drv_block_sizes :: "u32 list"
  drv_num_block_sizes :: u32
  drv_min_namespace_size :: u64
  drv_features :: driver_feature_flags

record nvm_topology =
  topo_device_handle :: u32
  topo_id :: u16
  topo_vendor_id :: u16
  topo_device_id :: u16
  topo_revision_id :: u16

text \<open>The firmware command: the two output sizes say how large the caller's buffers are.\<close>

record fw_cmd =
  cmd_device_handle :: u32
  cmd_opcode :: u8
  cmd_sub_opcode :: u8
  cmd_input_payload :: bytes
  cmd_large_input_payload :: bytes
  cmd_output_payload_size :: nat
  cmd_large_output_payload_size :: nat

text \<open>Interleave sets, storage capacities and namespaces as the driver describes them. A handle or an
  interleave set's driver id identifies where a namespace is created.\<close>

record nvm_interleave_set =
  nis_size :: u64
  nis_available_size :: u64
  nis_socket_id :: u8
  nis_settings :: interleave_format
  nis_dimms :: "u32 list"
  nis_set_index :: u32
  nis_driver_id :: u32
  nis_mirrored :: u8

record nvm_storage_capacities =
  sc_device_handle :: u32
  sc_total_storage_capacity :: u64
  sc_free_storage_capacity :: u64
  sc_storage_only_capacity :: u64

record nvm_namespace_details =
  nnd_discovery :: namespace_discovery
  nnd_block_size :: u32
  nnd_block_count :: u64
  nnd_type :: namespace_type
  nnd_health :: namespace_health
  nnd_enabled :: namespace_enable_state
  nnd_btt :: bool
  nnd_creation_id :: u32

record nvm_namespace_create_settings =
  nnc_friendly_name :: string
  nnc_block_size :: u16
  nnc_block_count :: u64
  nnc_type :: namespace_type
  nnc_enabled :: namespace_enable_state
  nnc_btt :: bool
  nnc_creation_id :: u32

text \<open>The namespace part of the driver. A query for a list is given the size of the caller's array
  and returns the code and the entries it filled in; a query does not change the hardware.
  \<open>ad_host_name\<close> is the name of the host.\<close>

record 'hw ns_driver =
  ad_interleave_set_count :: "'hw \<Rightarrow> int"
  ad_interleave_sets :: "'hw \<Rightarrow> u32 \<Rightarrow> int \<times> nvm_interleave_set list"
  ad_storage_capacities :: "'hw \<Rightarrow> u32 \<Rightarrow> int \<times> nvm_storage_capacities list"
  ad_namespace_count :: "'hw \<Rightarrow> int"
  ad_namespaces :: "'hw \<Rightarrow> u32 \<Rightarrow> int \<times> namespace_discovery list"
  ad_namespace_details :: "'hw \<Rightarrow> guid \<Rightarrow> int \<times> nvm_namespace_details"
  ad_create_namespace :: "guid \<Rightarrow> nvm_namespace_create_settings \<Rightarrow> 'hw \<Rightarrow> int \<times> guid \<times> 'hw"
  ad_delete_namespace :: "guid \<Rightarrow> 'hw \<Rightarrow> int \<times> 'hw"
  ad_modify_namespace_name :: "guid \<Rightarrow> string \<Rightarrow> 'hw \<Rightarrow> int \<times> 'hw"
  ad_modify_namespace_block_count :: "guid \<Rightarrow> u64 \<Rightarrow> 'hw \<Rightarrow> int \<times> 'hw"
  ad_modify_namespace_enabled :: "guid \<Rightarrow> namespace_enable_state \<Rightarrow> 'hw \<Rightarrow> int \<times> 'hw"
  ad_host_name :: "'hw \<Rightarrow> int \<times> string"

text \<open>\<open>passthrough\<close> returns the code, the small and the large output payload and the new hardware
  state. \<open>config_value\<close> is the configuration database, \<open>sha1\<close> the digest of OpenSSL,
  \<open>vendor_driver_revision\<close> maps the caller's version buffer to what it holds
  afterwards.\<close>

record 'hw adapter =
  ad_os :: os_env
  permitted :: bool
  driver_capabilities :: "'hw \<Rightarrow> int \<times> nvm_driver_capabilities"
  topology_count :: "'hw \<Rightarrow> int"
  topology :: "'hw \<Rightarrow> u8 \<Rightarrow> int \<times> nvm_topology list"
  passthrough :: "fw_cmd \<Rightarrow> 'hw \<Rightarrow> int \<times> bytes \<times> bytes \<times> 'hw"
  platform_table :: "'hw \<Rightarrow> bytes \<Rightarrow> int \<times> bytes"
  vendor_driver_revision :: "'hw \<Rightarrow> bytes \<Rightarrow> int \<times> bytes"
  config_value :: "string \<Rightarrow> int option"
  sha1 :: "bytes \<Rightarrow> bytes option"
  ns_driver :: "'hw ns_driver"

text \<open>The events the modelled operations store in the database: the management events and the one
  a configuration goal raises.\<close>

datatype event_code =
    EVENT_CODE_MGMT_CONFIG_GOAL_CREATED | EVENT_CODE_MGMT_CONFIG_GOAL_DELETED
  | EVENT_CODE_MGMT_NAMESPACE_CREATED | EVENT_CODE_MGMT_NAMESPACE_DELETED
  | EVENT_CODE_MGMT_NAMESPACE_MODIFIED | EVENT_CODE_MGMT_SENSOR_SETTINGS_CHANGE
  | EVENT_CODE_MGMT_FIRMWARE_UPDATE | EVENT_CODE_MGMT_SECURITY_PASSWORD_SET
  | EVENT_CODE_MGMT_SECURITY_PASSWORD_REMOVED | EVENT_CODE_MGMT_SECURITY_UNLOCK
  | EVENT_CODE_MGMT_SANITIZE_FREEZE_LOCK | EVENT_CODE_MGMT_SANITIZE_ANTIFREEZE_LOCK
  | EVENT_CODE_MGMT_SOFTWARE_INSTALL | EVENT_CODE_MGMT_SOFTWARE_UNINSTALL
  | EVENT_CODE_MGMT_DRIVER_INSTALL | EVENT_CODE_MGMT_DRIVER_UNINSTALL
  | EVENT_CODE_MGMT_PERMIT_APPLIED | EVENT_CODE_MGMT_SANITIZE_OVERWRITE
  | EVENT_CODE_MGMT_SANITIZE_CRYPTOSCRAMBLE | EVENT_CODE_MGMT_SECURITY_SECURE_ERASE
  | EVENT_CODE_MGMT_UNKNOWN
  | EVENT_CODE_CONFIG_GOAL_SKU_VIOLATION

record mgmt_event =
  ev_code :: event_code
  ev_guid :: guid
  ev_args :: "string list"

record ('hw, 'det) world =
  w_ctx :: "'det ctx_state"
  w_hw :: 'hw
  w_sent :: "fw_cmd list"
  w_events :: "mgmt_event list"

section \<open>Running the parts\<close>

definition on_ctx ::
  "('det ctx_state \<Rightarrow> ('det ctx_state \<times> int \<times> 'o) option) \<Rightarrow> ('hw, 'det) world \<Rightarrow>
   (int \<times> 'o \<times> ('hw, 'det) world) option" where
  "on_ctx f w = do { (s, rc, out) \<leftarrow> f (w_ctx w); Some (rc, out, w\<lparr>w_ctx := s\<rparr>) }"

text \<open>A payload as the caller finds it in its buffer of \<open>n\<close> zeroed bytes.\<close>

definition fit :: "nat \<Rightarrow> bytes \<Rightarrow> bytes" where
  "fit n bs = take n (bs @ replicate n 0)"

lemma length_fit [simp]: "length (fit n bs) = n"
  by (simp add: fit_def)

definition ioctl_passthrough_cmd ::
  "'hw adapter \<Rightarrow> fw_cmd \<Rightarrow> ('hw, 'det) world \<Rightarrow> int \<times> bytes \<times> bytes \<times> ('hw, 'det) world" where
  "ioctl_passthrough_cmd ad cmd w =
     (let (rc, small, large, h) = passthrough ad cmd (w_hw w) in
      (rc, fit (cmd_output_payload_size cmd) small, fit (cmd_large_output_payload_size cmd) large,
       w\<lparr>w_hw := h, w_sent := w_sent w @ [cmd]\<rparr>))"

abbreviation (input) PT_IDENTIFY_DIMM :: u8 where "PT_IDENTIFY_DIMM \<equiv> 1"
abbreviation (input) PT_GET_SEC_INFO :: u8 where "PT_GET_SEC_INFO \<equiv> 2"
abbreviation (input) PT_SET_SEC_INFO :: u8 where "PT_SET_SEC_INFO \<equiv> 3"
abbreviation (input) PT_GET_FEATURES :: u8 where "PT_GET_FEATURES \<equiv> 4"
abbreviation (input) PT_SET_FEATURES :: u8 where "PT_SET_FEATURES \<equiv> 5"
abbreviation (input) PT_GET_LOG :: u8 where "PT_GET_LOG \<equiv> 8"
abbreviation (input) PT_UPDATE_FW :: u8 where "PT_UPDATE_FW \<equiv> 9"
abbreviation (input) PT_GET_ADMIN_FEATURES :: u8 where "PT_GET_ADMIN_FEATURES \<equiv> 6"
abbreviation (input) PT_SET_ADMIN_FEATURES :: u8 where "PT_SET_ADMIN_FEATURES \<equiv> 7"

text \<open>A command without payloads.\<close>

definition fw_cmd_for :: "u32 \<Rightarrow> u8 \<Rightarrow> u8 \<Rightarrow> fw_cmd" where
  "fw_cmd_for handle opcode sub_opcode =
     \<lparr>cmd_device_handle = handle, cmd_opcode = opcode, cmd_sub_opcode = sub_opcode,
      cmd_input_payload = [], cmd_large_input_payload = [], cmd_output_payload_size = 0,
      cmd_large_output_payload_size = 0\<rparr>"

definition log_mgmt_event ::
  "event_code \<Rightarrow> guid \<Rightarrow> string list \<Rightarrow> ('hw, 'det) world \<Rightarrow> ('hw, 'det) world" where
  "log_mgmt_event code guid args w =
     w\<lparr>w_events := w_events w @ [\<lparr>ev_code = code, ev_guid = guid, ev_args = args\<rparr>]\<rparr>"

lemma log_effect [simp]:
  "w_ctx (log_mgmt_event code guid args w) = w_ctx w" "w_hw (log_mgmt_event code guid args w) = w_hw w"
  "w_sent (log_mgmt_event code guid args w) = w_sent w"
  "w_events (log_mgmt_event code guid args w) =
     w_events w @ [\<lparr>ev_code = code, ev_guid = guid, ev_args = args\<rparr>]"
  by (simp_all add: log_mgmt_event_def)

lemma ioctl_effect:
  "ioctl_passthrough_cmd ad cmd w = (rc, small, large, w') \<Longrightarrow>
   w_ctx w' = w_ctx w \<and> w_sent w' = w_sent w @ [cmd] \<and> w_events w' = w_events w \<and>
   length small = cmd_output_payload_size cmd \<and> length large = cmd_large_output_payload_size cmd"
  by (auto simp: ioctl_passthrough_cmd_def Let_def split: prod.splits)

lemma on_ctx_effect:
  "on_ctx f w = Some (rc, out, w') \<Longrightarrow>
   w_hw w' = w_hw w \<and> w_sent w' = w_sent w \<and> w_events w' = w_events w \<and> f (w_ctx w) = Some (w_ctx w', rc, out)"
  by (auto simp: on_ctx_def bind_eq_Some_conv split: prod.splits)

end
