(* ===== verification/Utility.thy ===== *)
theory Utility
  imports NvmTypes
begin

text \<open>
  The helpers of \<^verbatim>\<open>src/lib/utility.h\<close>: the BIOS encoding of interleave formats and
  its inverse, greatest common divisor and lowest common multiple, rounding, the real block size
  of a namespace, and capacity arithmetic.
\<close>

section \<open>Interleave formats\<close>

fun interleave_way_to_enum :: "u32 \<Rightarrow> interleave_ways" where
  "interleave_way_to_enum way =
     (if way = 1 then INTERLEAVE_WAYS_1
      else if way = 2 then INTERLEAVE_WAYS_2
      else if way = 4 then INTERLEAVE_WAYS_3
      else if way = 8 then INTERLEAVE_WAYS_4
      else if way = 16 then INTERLEAVE_WAYS_6
      else if way = 32 then INTERLEAVE_WAYS_8
      else if way = 64 then INTERLEAVE_WAYS_12
      else if way = 128 then INTERLEAVE_WAYS_16
      else if way = 256 then INTERLEAVE_WAYS_24
      else INTERLEAVE_WAYS_0)"

fun ways_bitmap :: "interleave_ways \<Rightarrow> u32" where
  "ways_bitmap INTERLEAVE_WAYS_0 = 0"
| "ways_bitmap INTERLEAVE_WAYS_1 = 1"
| "ways_bitmap INTERLEAVE_WAYS_2 = 2"
| "ways_bitmap INTERLEAVE_WAYS_3 = 4"
| "ways_bitmap INTERLEAVE_WAYS_4 = 8"
| "ways_bitmap INTERLEAVE_WAYS_6 = 16"
| "ways_bitmap INTERLEAVE_WAYS_8 = 32"
| "ways_bitmap INTERLEAVE_WAYS_12 = 64"
| "ways_bitmap INTERLEAVE_WAYS_16 = 128"
| "ways_bitmap INTERLEAVE_WAYS_24 = 256"

fun size_bitmap :: "interleave_size \<Rightarrow> u32" where
  "size_bitmap INTERLEAVE_SIZE_64B = 1"
| "size_bitmap INTERLEAVE_SIZE_128B = 2"
| "size_bitmap INTERLEAVE_SIZE_256B = 4"
| "size_bitmap INTERLEAVE_SIZE_4KB = 64"
| "size_bitmap INTERLEAVE_SIZE_1GB = 128"

text \<open>The \<^verbatim>\<open>switch\<close> has no default: an unknown bit pattern leaves the field as it was.\<close>

fun size_of_bitmap :: "u32 \<Rightarrow> interleave_size \<Rightarrow> interleave_size" where
  "size_of_bitmap b old =
     (if b = 1 then INTERLEAVE_SIZE_64B
      else if b = 2 then INTERLEAVE_SIZE_128B
      else if b = 4 then INTERLEAVE_SIZE_256B
      else if b = 64 then INTERLEAVE_SIZE_4KB
      else if b = 128 then INTERLEAVE_SIZE_1GB
      else old)"

definition interleave_format_to_struct :: "u32 \<Rightarrow> interleave_format \<Rightarrow> interleave_format" where
  "interleave_format_to_struct fmt old =
     \<lparr>recommended = ucast (drop_bit 31 fmt AND 1),
      channel = size_of_bitmap (fmt AND 0xff) (channel old),
      imc = size_of_bitmap (drop_bit 8 fmt AND 0xff) (imc old),
      ways = interleave_way_to_enum (drop_bit 16 fmt AND 0x1ff)\<rparr>"

definition interleave_struct_to_format :: "interleave_format \<Rightarrow> u32" where
  "interleave_struct_to_format f =
     push_bit 16 (ways_bitmap (ways f) AND 0x1ff) OR
     (if recommended f \<noteq> 0 then push_bit 31 1 else 0) OR
     (size_bitmap (channel f) AND 0xff) OR
     push_bit 8 (size_bitmap (imc f) AND 0xff)"

text \<open>Interleave formats survive the round trip through the BIOS encoding, the
  \<open>recommended\<close> flag as a truth value, whatever the structure they are decoded into held.\<close>

theorem interleave_format_roundtrip:
  "interleave_format_to_struct (interleave_struct_to_format f) old =
     f\<lparr>recommended := (if recommended f \<noteq> 0 then 1 else 0)\<rparr>"
  by (cases f; cases "ways f"; cases "channel f"; cases "imc f")
    (auto simp: interleave_format_to_struct_def interleave_struct_to_format_def)

section \<open>Common divisors and multiples\<close>

lemma unat_mod_less: "b \<noteq> 0 \<Longrightarrow> unat (a mod b) < unat (b :: u32)"
  by (simp add: unat_mod_distrib unat_gt_0)

function get_greatest_common_divisor :: "u32 \<Rightarrow> u32 \<Rightarrow> u32" where
  "get_greatest_common_divisor block_size page_size =
     (if block_size = 0 then page_size
      else
        let page_size = page_size mod block_size in
        if page_size = 0 then block_size
        else get_greatest_common_divisor (block_size mod page_size) page_size)"
  by pat_completeness auto
termination
proof (relation "measure (\<lambda>(b, p). unat b)")
  fix b p q :: u32
  assume "b \<noteq> 0" "q = p mod b" "q \<noteq> 0"
  then have "unat (b mod q) < unat q" "unat q < unat b"
    by (auto simp: unat_mod_less)
  then show "((b mod q, q), b, p) \<in> measure (\<lambda>(b, p). unat b)" by simp
qed simp

declare get_greatest_common_divisor.simps [simp del]

lemma unat_gcd: "unat (get_greatest_common_divisor b p) = gcd (unat b) (unat p)"
proof (induction b p rule: get_greatest_common_divisor.induct)
  case (1 b p)
  show ?case
  proof (cases "b = 0")
    case True
    then show ?thesis by (simp add: get_greatest_common_divisor.simps [of 0])
  next
    case b: False
    show ?thesis
    proof (cases "p mod b = 0")
      case True
      then have "unat p mod unat b = 0" by (metis unat_mod_distrib unsigned_0)
      then have "gcd (unat b) (unat p) = unat b" by (simp add: gcd_proj1_iff mod_0_imp_dvd)
      with b True show ?thesis by (simp add: get_greatest_common_divisor.simps [of b])
    next
      case False
      with b have "unat (get_greatest_common_divisor b p) =
          gcd (unat (b mod (p mod b))) (unat (p mod b))"
        by (subst get_greatest_common_divisor.simps) (simp add: Let_def 1)
      also have "\<dots> = gcd (unat b) (unat p)"
        by (metis gcd.commute gcd_red_nat unat_mod_distrib)
      finally show ?thesis .
    qed
  qed
qed

text \<open>A zero divisor (both arguments zero) traps.\<close>

definition get_lowest_common_multiple :: "u32 \<Rightarrow> u32 \<Rightarrow> u32 option" where
  "get_lowest_common_multiple block_size page_size_alignment =
     (let g = get_greatest_common_divisor block_size page_size_alignment in
      if g = 0 then None else Some (block_size div g * page_size_alignment))"

text \<open>\<^verbatim>\<open>get_lowest_common_multiple\<close> is the least common multiple when that fits 32 bits;
  the recursion it rests on terminates on every input.\<close>

theorem lcm_value:
  assumes "lcm (unat b) (unat p) < 2 ^ 32" "b \<noteq> 0 \<or> p \<noteq> 0"
  shows "\<exists>m. get_lowest_common_multiple b p = Some m \<and> unat m = lcm (unat b) (unat p)"
proof -
  let ?g = "get_greatest_common_divisor b p"
  have g: "unat ?g = gcd (unat b) (unat p)" by (rule unat_gcd)
  with assms(2) have "unat ?g \<noteq> 0" by (auto simp: unat_eq_zero)
  then have nz: "?g \<noteq> 0" by auto
  have "unat b div unat ?g * unat p = lcm (unat b) (unat p)"
    by (simp add: g lcm_nat_def dvd_div_mult)
  moreover have "unat (b div ?g * p) = (unat b div unat ?g * unat p) mod 2 ^ 32"
    by (simp add: unat_word_ariths(2) unat_div_distrib)
  ultimately have "unat (b div ?g * p) = lcm (unat b) (unat p)" using assms(1) by simp
  with nz show ?thesis by (simp add: get_lowest_common_multiple_def Let_def)
qed

theorem lcm_value_witness:
  "\<exists>m. get_lowest_common_multiple 4224 4096 = Some m \<and> unat m = lcm 4224 4096"
proof -
  have "lcm (4224 :: nat) 4096 = 135168" by (simp add: lcm_nat_def gcd_non_0_nat)
  then show ?thesis using lcm_value [of 4224 4096] by simp
qed

section \<open>Rounding and block sizes\<close>

definition round_up :: "u64 \<Rightarrow> u64 \<Rightarrow> u64" where
  "round_up n m = (if n mod m \<noteq> 0 then n + (m - n mod m) else n)"

definition round_down :: "u64 \<Rightarrow> u64 \<Rightarrow> u64" where
  "round_down n m = (if n mod m \<noteq> 0 then n - n mod m else n)"

abbreviation (input) CACHE_LINE_SIZE :: u64 where "CACHE_LINE_SIZE \<equiv> 64"

definition get_real_block_size :: "u32 \<Rightarrow> u32" where
  "get_real_block_size b = (if b \<noteq> 1 then ucast (round_up (ucast b) CACHE_LINE_SIZE) else 1)"

text \<open>The 16-bit parameter is reassigned, so the real block size is truncated to 16 bits. The
  product of a promoted 16-bit value and a 64-bit count is 64 bits wide.\<close>

definition adjust_namespace_size :: "u16 \<Rightarrow> u64 \<Rightarrow> u64" where
  "adjust_namespace_size block_size block_count =
     (let bs = ucast (get_real_block_size (ucast block_size)) :: u16 in ucast bs * block_count)"

definition calculateBlockCount :: "u64 \<Rightarrow> u16 \<Rightarrow> u64 option" where
  "calculateBlockCount namespace_size block_size =
     (let bs = ucast (get_real_block_size (ucast block_size)) :: u16 in
      if bs = 0 then None else Some (namespace_size div ucast bs))"

lemma unat_minus: "b \<le> a \<Longrightarrow> unat (a - b) = unat a - unat (b :: 'a::len word)"
  by (simp add: unat_sub_if' word_le_nat_alt)

lemma mod_le_self: "n mod m \<le> (n :: 'a::len word)"
  by (simp add: word_le_nat_alt unat_mod_distrib)

lemma unat_round_down: "unat (round_down n m) = unat n - unat n mod unat m"
proof (cases "n mod m = 0")
  case True
  then have "unat n mod unat m = 0" by (metis unat_mod_distrib unsigned_0)
  with True show ?thesis by (simp add: round_down_def)
next
  case False
  then show ?thesis
    by (simp only: round_down_def unat_minus [OF mod_le_self] unat_mod_distrib if_True not_False_eq_True)
qed

lemma round_down_dvd: "unat m dvd unat (round_down n m) \<and> round_down n m \<le> n"
  by (simp add: unat_round_down word_le_nat_alt minus_mod_eq_mult_div)

lemma unat_round_up:
  assumes "m \<noteq> 0" "unat n + unat m < 2 ^ 64"
  shows "unat (round_up n m) =
    (if unat n mod unat m = 0 then unat n else unat n + (unat m - unat n mod unat m))"
proof -
  have "n mod m \<le> m"
    using assms(1) by (simp add: word_le_nat_alt unat_mod_distrib less_imp_le unat_gt_0)
  then have d: "unat (m - n mod m) = unat m - unat n mod unat m"
    by (simp add: unat_minus unat_mod_distrib)
  have z: "n mod m = 0 \<longleftrightarrow> unat n mod unat m = 0"
    by (metis unat_eq_zero unat_mod_distrib)
  have "unat (n + (m - n mod m)) = unat n + (unat m - unat n mod unat m)"
    using assms(2) d by (subst unat_add_lem [THEN iffD1]) auto
  with z show ?thesis by (auto simp: round_up_def)
qed

lemma round_up_dvd:
  assumes "m \<noteq> 0" "unat n + unat m < 2 ^ 64"
  shows "unat m dvd unat (round_up n m) \<and> unat n \<le> unat (round_up n m) \<and>
    unat (round_up n m) < unat n + unat m"
proof -
  have m: "0 < unat m" using assms(1) by (simp add: unat_gt_0)
  have "unat n div unat m * unat m + unat n mod unat m = unat n" by simp
  moreover have l: "unat n mod unat m < unat m" using m by simp
  ultimately have "unat n + (unat m - unat n mod unat m) = (unat n div unat m + 1) * unat m"
    unfolding add_mult_distrib by linarith
  then have "unat m dvd unat n + (unat m - unat n mod unat m)" by simp
  with m l show ?thesis by (auto simp: unat_round_up [OF assms] mod_0_imp_dvd)
qed

lemma unat_ucast_up:
  fixes x :: u16 and y :: u32
  shows "unat (ucast x :: u32) = unat x" and "unat (ucast x :: u64) = unat x"
    and "unat (ucast y :: u64) = unat y"
  by (transfer, simp add: take_bit_take_bit)+

lemma unat_ucast_down:
  fixes x :: u64
  assumes "unat x < 2 ^ 16"
  shows "unat (ucast (ucast x :: u32) :: u16) = unat x"
proof -
  have "unat (ucast (ucast x :: u32) :: u16) = take_bit 16 (unat x)"
    by transfer (simp add: take_bit_take_bit take_bit_nat_eq nat_take_bit_eq)
  then show ?thesis using assms by (simp add: take_bit_nat_eq_self)
qed

lemma real_block_size:
  assumes "0 < bs" "bs \<le> (65472 :: u16)"
  shows "\<exists>k. unat (ucast (get_real_block_size (ucast bs)) :: u16) = k \<and> 0 < k \<and> k \<le> unat bs + 63"
proof (cases "bs = 1")
  case True
  then show ?thesis by (simp add: get_real_block_size_def)
next
  case False
  have b: "0 < unat bs" "unat bs \<le> 65472"
    using assms by (simp_all add: word_less_nat_alt word_le_nat_alt)
  have u: "unat (ucast (ucast bs :: u32) :: u64) = unat bs"
    by (simp add: unat_ucast_up)
  have r: "64 dvd unat (round_up (ucast (ucast bs :: u32)) CACHE_LINE_SIZE)"
      "unat bs \<le> unat (round_up (ucast (ucast bs :: u32)) CACHE_LINE_SIZE)"
      "unat (round_up (ucast (ucast bs :: u32)) CACHE_LINE_SIZE) < unat bs + 64"
    using round_up_dvd [of CACHE_LINE_SIZE "ucast (ucast bs :: u32)"] u b by simp_all
  then have "unat (round_up (ucast (ucast bs :: u32)) CACHE_LINE_SIZE) < 2 ^ 16"
  proof -
    obtain q where q: "unat (round_up (ucast (ucast bs :: u32)) CACHE_LINE_SIZE) = 64 * q"
      using r(1) by (auto elim: dvdE)
    with r(3) b(2) have "64 * q < 65536" by linarith
    then show ?thesis using q by simp
  qed
  moreover have "(ucast bs :: u32) \<noteq> 1"
  proof
    assume "(ucast bs :: u32) = 1"
    then have "unat bs = 1" using unat_ucast_up(1) [of bs] by simp
    with False show False by (metis unsigned_1 word_unat_eq_iff)
  qed
  ultimately have "get_real_block_size (ucast bs) = ucast (round_up (ucast (ucast bs :: u32)) CACHE_LINE_SIZE)"
    and "unat (ucast (ucast (round_up (ucast (ucast bs :: u32)) CACHE_LINE_SIZE) :: u32) :: u16) =
      unat (round_up (ucast (ucast bs :: u32)) CACHE_LINE_SIZE)"
    by (simp_all only: get_real_block_size_def unat_ucast_down if_True not_False_eq_True)
  with r b show ?thesis by simp
qed

text \<open>The number of blocks of a namespace is recovered from its size: for a block size up to
  65472 whose product with the count fits 64 bits,
  \<^verbatim>\<open>calculateBlockCount\<close> inverts \<^verbatim>\<open>adjust_namespace_size\<close>.\<close>

theorem block_count_round_trip:
  assumes "0 < bs" "bs \<le> 65472" and "(unat bs + 63) * unat n < 2 ^ 64"
  shows "calculateBlockCount (adjust_namespace_size bs n) bs = Some n"
proof -
  let ?r = "ucast (get_real_block_size (ucast bs)) :: u16"
  obtain k where k: "unat ?r = k" "0 < k" "k \<le> unat bs + 63"
    using real_block_size [OF assms(1,2)] by blast
  have u: "unat (ucast ?r :: u64) = k" unfolding unat_ucast_up by (rule k(1))
  have "k * unat n \<le> (unat bs + 63) * unat n" using k(3) by (rule mult_le_mono1)
  then have m: "k * unat n < 2 ^ 64" using assms(3) by (rule le_less_trans)
  have "unat (ucast ?r * n) = k * unat n"
    using m u by (simp add: unat_word_ariths(2))
  then have "unat (ucast ?r * n div ucast ?r) = unat n"
    using u k(2) by (simp add: unat_div_distrib)
  then have "ucast ?r * n div ucast ?r = n" by (simp only: word_unat_eq_iff)
  moreover have "?r \<noteq> 0" using k by auto
  ultimately show ?thesis
    by (simp add: calculateBlockCount_def adjust_namespace_size_def Let_def)
qed

theorem block_count_round_trip_witness:
  "calculateBlockCount (adjust_namespace_size 4160 1000000) 4160 = Some 1000000"
  using block_count_round_trip [of 4160 1000000] by simp

section \<open>Capacities\<close>

text \<open>\<^verbatim>\<open>USABLE_CAPACITY_BYTES\<close>: the capacity without the part that is no whole GiB.\<close>

definition usable_capacity_bytes :: "u64 \<Rightarrow> u64" where
  "usable_capacity_bytes cap = cap - cap mod BYTES_PER_GB"

lemma unat_usable: "unat (usable_capacity_bytes cap) = (unat cap div 2 ^ 30) * 2 ^ 30"
proof -
  have b: "unat BYTES_PER_GB = 2 ^ 30" by (simp add: BYTES_PER_GB_def)
  have "unat (usable_capacity_bytes cap) = unat cap - unat cap mod 2 ^ 30"
    by (simp only: usable_capacity_bytes_def unat_minus [OF mod_le_self] unat_mod_distrib b)
  then show ?thesis by (simp add: minus_mod_eq_div_mult)
qed

end
