(* ===== verification/SStr.thy ===== *)
theory SStr
  imports Buffers
begin

text \<open>
  The bounded string functions of \<^verbatim>\<open>src/common/string/s_str.c\<close>. A char array is the list of
  its bytes, a pointer into it the suffix that starts there, a null pointer \<open>None\<close>. A size
  argument is separate from the array, as in C: a call whose size is larger than the array and
  that does run past its end has no result. Sizes are below \<open>2^31\<close> in every caller, so the
  casts to \<^verbatim>\<open>int\<close> in the code are exact.
\<close>

section \<open>Characters and C strings\<close>

definition isdigit :: "u8 \<Rightarrow> bool" where
  "isdigit c \<longleftrightarrow> 48 \<le> c \<and> c \<le> 57"

definition isspace :: "u8 \<Rightarrow> bool" where
  "isspace c \<longleftrightarrow> c = 32 \<or> 9 \<le> c \<and> c \<le> 13"

definition todigit :: "u8 \<Rightarrow> nat" where
  "todigit c = unat c - 48"

text \<open>The string a buffer holds: its bytes up to the first null.\<close>

definition cstr :: "bytes \<Rightarrow> bytes" where
  "cstr buf = takeWhile (\<lambda>c. c \<noteq> 0) buf"

lemma cstr_append_null [simp]: "0 \<notin> set xs \<Longrightarrow> cstr (xs @ 0 # ys) = xs"
proof -
  assume "0 \<notin> set xs"
  then have "\<forall>x \<in> set xs. x \<noteq> 0" by metis
  then show ?thesis by (simp add: cstr_def takeWhile_tail)
qed

lemma cstr_no_null [simp]: "0 \<notin> set (cstr buf)"
  by (auto simp: cstr_def dest: set_takeWhileD)

section \<open>Copying\<close>

fun s_strnlen_loop :: "bytes \<Rightarrow> nat \<Rightarrow> nat option" where
  "s_strnlen_loop s 0 = Some 0"
| "s_strnlen_loop [] (Suc n) = None"
| "s_strnlen_loop (c # s) (Suc n) = (if c \<noteq> 0 then map_option Suc (s_strnlen_loop s n) else Some 0)"

definition s_strnlen :: "bytes option \<Rightarrow> nat \<Rightarrow> nat option" where
  "s_strnlen str max_len = (case str of None \<Rightarrow> Some 0 | Some s \<Rightarrow> s_strnlen_loop s max_len)"

text \<open>The loop all the copy functions share: at most \<open>n\<close> characters, stopping at the source's
  null. The null itself is not part of the result; every function stores one afterwards.\<close>

fun copy_until :: "nat \<Rightarrow> bytes \<Rightarrow> bytes option" where
  "copy_until 0 s = Some []"
| "copy_until (Suc n) [] = None"
| "copy_until (Suc n) (c # s) = (if c = 0 then Some [] else map_option ((#) c) (copy_until n s))"

definition s_strncpy :: "bytes option \<Rightarrow> nat \<Rightarrow> bytes option \<Rightarrow> nat \<Rightarrow> bytes option option" where
  "s_strncpy dst dst_size src src_size =
     (case (dst, src) of
        (Some d, Some s) \<Rightarrow>
          if dst_size \<noteq> 0 then do {
            c \<leftarrow> copy_until (if src_size < dst_size - 1 then src_size else dst_size - 1) s;
            d' \<leftarrow> store d 0 (c @ [0]);
            Some (Some d')
          } else Some dst
      | _ \<Rightarrow> Some dst)"

definition s_strcpy :: "bytes option \<Rightarrow> bytes option \<Rightarrow> nat \<Rightarrow> bytes option option" where
  "s_strcpy dst src dst_size =
     (case (dst, src) of
        (Some d, Some s) \<Rightarrow>
          if dst_size \<noteq> 0 then do {
            c \<leftarrow> copy_until (dst_size - 1) s;
            d' \<leftarrow> store d 0 (c @ [0]);
            Some (Some d')
          } else Some dst
      | _ \<Rightarrow> Some dst)"

definition s_strcat :: "bytes option \<Rightarrow> nat \<Rightarrow> bytes option \<Rightarrow> bytes option option" where
  "s_strcat dst dst_size src =
     (case (dst, src) of
        (Some d, Some s) \<Rightarrow>
          if dst_size \<noteq> 0 then do {
            dst_i \<leftarrow> s_strnlen dst dst_size;
            let free_dst_chars = (int dst_size - 1) - int dst_i;
            if free_dst_chars > 0 then do {
              c \<leftarrow> copy_until (nat free_dst_chars) s;
              d' \<leftarrow> store d dst_i (c @ [0]);
              Some (Some d')
            } else Some dst
          } else Some dst
      | _ \<Rightarrow> Some dst)"

definition s_strncat :: "bytes option \<Rightarrow> nat \<Rightarrow> bytes option \<Rightarrow> nat \<Rightarrow> bytes option option" where
  "s_strncat dst dst_size src src_size =
     (case (dst, src) of
        (Some d, Some s) \<Rightarrow>
          if dst_size \<noteq> 0 \<and> src_size \<noteq> 0 then do {
            dst_i \<leftarrow> s_strnlen dst dst_size;
            let free_dst_chars = (int dst_size - 1) - int dst_i;
            if free_dst_chars > 0 then do {
              let chars_to_copy = (if int src_size < free_dst_chars then int src_size else free_dst_chars);
              c \<leftarrow> copy_until (nat chars_to_copy) s;
              d' \<leftarrow> store d dst_i (c @ [0]);
              Some (Some d')
            } else Some dst
          } else Some dst
      | _ \<Rightarrow> Some dst)"

definition s_strncpy_unterm :: "bytes option \<Rightarrow> nat \<Rightarrow> bytes option \<Rightarrow> nat \<Rightarrow> bytes option option" where
  "s_strncpy_unterm dst dst_size src src_size =
     (case (dst, src) of
        (Some d, Some s) \<Rightarrow> do {
          c \<leftarrow> copy_until (if dst_size < src_size then dst_size else src_size) s;
          d' \<leftarrow> store d 0 c;
          Some (Some d')
        }
      | _ \<Rightarrow> Some dst)"

lemma s_strnlen_loop_cstr:
  "length (cstr s) < length s \<or> n \<le> length s \<Longrightarrow> s_strnlen_loop s n = Some (min n (length (cstr s)))"
  by (induction s n rule: s_strnlen_loop.induct) (auto simp: cstr_def)

lemma copy_until_cstr:
  "length (cstr s) < length s \<or> n \<le> length s \<Longrightarrow> copy_until n s = Some (take n (cstr s))"
  by (induction n s rule: copy_until.induct) (auto simp: cstr_def)

section \<open>Comparing and searching\<close>

text \<open>The comparison does not stop at a null, so both arrays must reach the size or a difference
  first. The result is 0 for equal, and one more than the index of the difference otherwise.\<close>

fun cmp_loop :: "(u8 \<Rightarrow> u8) \<Rightarrow> bytes \<Rightarrow> bytes \<Rightarrow> nat \<Rightarrow> nat option" where
  "cmp_loop f a b 0 = Some 0"
| "cmp_loop f (x # a) (y # b) (Suc n) =
     (if f x = f y then map_option Suc (cmp_loop f a b n) else Some 0)"
| "cmp_loop f _ _ (Suc n) = None"

definition toupper :: "u8 \<Rightarrow> u8" where
  "toupper c = (if 97 \<le> c \<and> c \<le> 122 then c - 32 else c)"

definition strncmp_with :: "(u8 \<Rightarrow> u8) \<Rightarrow> bytes option \<Rightarrow> bytes option \<Rightarrow> nat \<Rightarrow> int option" where
  "strncmp_with f str1 str2 sz =
     (case (str1, str2) of
        (Some a, Some b) \<Rightarrow>
          if sz \<noteq> 0 then do {
            idx \<leftarrow> cmp_loop f a b sz;
            Some (if idx = sz then 0 else int idx + 1)
          } else Some (- 1)
      | _ \<Rightarrow> Some (- 1))"

definition s_strncmp :: "bytes option \<Rightarrow> bytes option \<Rightarrow> nat \<Rightarrow> int option" where
  "s_strncmp = strncmp_with id"

definition s_strncmpi :: "bytes option \<Rightarrow> bytes option \<Rightarrow> nat \<Rightarrow> int option" where
  "s_strncmpi = strncmp_with toupper"

fun strrchr_loop :: "bytes \<Rightarrow> u8 \<Rightarrow> nat \<Rightarrow> nat \<Rightarrow> nat option \<Rightarrow> nat option option" where
  "strrchr_loop s ch 0 i last_char = Some last_char"
| "strrchr_loop [] ch (Suc n) i last_char = None"
| "strrchr_loop (c # s) ch (Suc n) i last_char =
     (if c = 0 then Some last_char
      else strrchr_loop s ch n (Suc i) (if c = ch then Some i else last_char))"

text \<open>The result is the offset of the last occurrence.\<close>

definition s_strrchr :: "bytes option \<Rightarrow> u8 \<Rightarrow> int \<Rightarrow> nat option option" where
  "s_strrchr str ch max_len =
     (case str of None \<Rightarrow> Some None | Some s \<Rightarrow> strrchr_loop s ch (nat max_len) 0 None)"

section \<open>Trimming\<close>

fun count_spaces :: "bytes \<Rightarrow> nat \<Rightarrow> nat option" where
  "count_spaces s 0 = Some 0"
| "count_spaces [] (Suc n) = None"
| "count_spaces (c # s) (Suc n) =
     (if c \<noteq> 0 \<and> isspace c then map_option Suc (count_spaces s n) else Some 0)"

definition s_strtrim_left :: "bytes option \<Rightarrow> nat \<Rightarrow> bytes option option" where
  "s_strtrim_left str len =
     (case str of
        None \<Rightarrow> Some None
      | Some s \<Rightarrow>
          if len = 0 then Some str
          else do {
            k \<leftarrow> count_spaces s len;
            body \<leftarrow> copy_until (len - k) (drop k s);
            s1 \<leftarrow> store s 0 body;
            s2 \<leftarrow> store s1
              (if k + length body = len \<and> length body \<noteq> 0 then length body - 1 else length body) [0];
            Some (Some s2)
          })"

text \<open>\<^verbatim>\<open>memchr\<close> for the null within \<open>len\<close> bytes.\<close>

definition s_strtrim_right :: "bytes option \<Rightarrow> nat \<Rightarrow> bytes option option" where
  "s_strtrim_right str len =
     (case str of
        None \<Rightarrow> Some None
      | Some s \<Rightarrow>
          if len = 0 then Some str
          else do {
            n \<leftarrow> s_strnlen_loop s len;
            let ptr = (if n = len then len - 1 else n);
            s1 \<leftarrow> store s ptr [0];
            s2 \<leftarrow> store s1 (length (dropWhile isspace (rev (take ptr s1)))) [0];
            Some (Some s2)
          })"

definition s_strtrim :: "bytes option \<Rightarrow> nat \<Rightarrow> bytes option option" where
  "s_strtrim str len =
     (case str of
        None \<Rightarrow> Some None
      | Some _ \<Rightarrow>
          if len = 0 then Some str
          else do { s1 \<leftarrow> s_strtrim_left str len; s_strtrim_right s1 len })"

section \<open>Numbers\<close>

fun skip_nondigits :: "bytes \<Rightarrow> nat \<Rightarrow> nat option" where
  "skip_nondigits s 0 = Some 0"
| "skip_nondigits [] (Suc n) = None"
| "skip_nondigits (c # s) (Suc n) =
     (if \<not> isdigit c \<and> c \<noteq> 0 then map_option Suc (skip_nondigits s n) else Some 0)"

text \<open>The digit loop of the three parsers that compute in a wider type: it stops in front of the
  digit that would leave the result type's range.\<close>

fun take_digits :: "bytes \<Rightarrow> nat \<Rightarrow> 'a::len word \<Rightarrow> (nat \<times> 'a word) option" where
  "take_digits s 0 acc = Some (0, acc)"
| "take_digits [] (Suc n) acc = None"
| "take_digits (c # s) (Suc n) acc =
     (if isdigit c then
        let tmp_result = unat acc * 10 + todigit c in
        if tmp_result \<le> 2 ^ LENGTH('a) - 1
        then map_option (\<lambda>(k, r). (Suc k, r)) (take_digits s n (of_nat tmp_result))
        else Some (0, acc)
      else Some (0, acc))"

text \<open>The result: the characters consumed, where the end pointer points (null when the whole
  buffer was consumed) and the number. A null string or an empty one leaves both outputs
  alone.\<close>

definition strto ::
  "(bytes \<Rightarrow> nat \<Rightarrow> 'a::len word \<Rightarrow> (nat \<times> 'a word) option) \<Rightarrow>
   bytes option \<Rightarrow> nat \<Rightarrow> bytes option \<Rightarrow> 'a word \<Rightarrow> (nat \<times> bytes option \<times> 'a word) option" where
  "strto digits str str_len p_end p_result =
     (case str of
        None \<Rightarrow> Some (0, p_end, p_result)
      | Some s \<Rightarrow>
          if str_len = 0 then Some (0, p_end, p_result)
          else do {
            i \<leftarrow> skip_nondigits s str_len;
            (k, r) \<leftarrow> digits (drop i s) (str_len - i) 0;
            Some (i + k, if i + k < str_len then Some (drop (i + k) s) else None, r)
          })"

definition s_digitstrtouc ::
  "bytes option \<Rightarrow> nat \<Rightarrow> bytes option \<Rightarrow> u8 \<Rightarrow> (nat \<times> bytes option \<times> u8) option" where
  "s_digitstrtouc = strto take_digits"

definition s_strtous ::
  "bytes option \<Rightarrow> nat \<Rightarrow> bytes option \<Rightarrow> u16 \<Rightarrow> (nat \<times> bytes option \<times> u16) option" where
  "s_strtous = strto take_digits"

definition s_strtoui ::
  "bytes option \<Rightarrow> nat \<Rightarrow> bytes option \<Rightarrow> u32 \<Rightarrow> (nat \<times> bytes option \<times> u32) option" where
  "s_strtoui = strto take_digits"

text \<open>The 64-bit parser has no wider type; its guard against overflow compares the wrapped
  product with the factor.\<close>

fun take_digits_ull :: "bytes \<Rightarrow> nat \<Rightarrow> u64 \<Rightarrow> (nat \<times> u64) option" where
  "take_digits_ull s 0 acc = Some (0, acc)"
| "take_digits_ull [] (Suc n) acc = None"
| "take_digits_ull (c # s) (Suc n) acc =
     (if isdigit c then
        if acc * 10 \<ge> acc then
          let tmp_result = acc * 10 in
          if tmp_result + of_nat (todigit c) \<ge> tmp_result
          then map_option (\<lambda>(k, r). (Suc k, r)) (take_digits_ull s n (tmp_result + of_nat (todigit c)))
          else Some (0, acc)
        else Some (0, acc)
      else Some (0, acc))"

definition s_strtoull ::
  "bytes option \<Rightarrow> nat \<Rightarrow> bytes option \<Rightarrow> u64 \<Rightarrow> (nat \<times> bytes option \<times> u64) option" where
  "s_strtoull = strto take_digits_ull"

lemma loops_numeral:
  "take_digits (c # s) (numeral k) (acc :: 'a::len word) =
     (if isdigit c then
        let tmp_result = unat acc * 10 + todigit c in
        if tmp_result \<le> 2 ^ LENGTH('a) - 1
        then map_option (\<lambda>(k, r). (Suc k, r)) (take_digits s (pred_numeral k) (of_nat tmp_result))
        else Some (0, acc)
      else Some (0, acc))"
  "take_digits_ull (c # s) (numeral k) acc' =
     (if isdigit c then
        if acc' * 10 \<ge> acc' then
          let tmp_result = acc' * 10 in
          if tmp_result + of_nat (todigit c) \<ge> tmp_result
          then map_option (\<lambda>(k, r). (Suc k, r))
                 (take_digits_ull s (pred_numeral k) (tmp_result + of_nat (todigit c)))
          else Some (0, acc')
        else Some (0, acc')
      else Some (0, acc'))"
  "skip_nondigits (c # s) (numeral k) =
     (if \<not> isdigit c \<and> c \<noteq> 0 then map_option Suc (skip_nondigits s (pred_numeral k)) else Some 0)"
  by (simp_all add: numeral_eq_Suc)

section \<open>What the copies and comparisons do\<close>

text \<open>A bounded read of an array that is large enough, or null-terminated.\<close>

definition readable :: "bytes \<Rightarrow> nat \<Rightarrow> bool" where
  "readable s n \<longleftrightarrow> length (cstr s) < length s \<or> n \<le> length s"

lemma store_cstr:
  assumes "off \<le> length (cstr d)" "0 \<notin> set c" "store d off (c @ [0]) = Some d'"
  shows "cstr d' = take off (cstr d) @ c \<and> length d' = length d"
proof -
  have "take (length (cstr d)) d = cstr d"
    unfolding cstr_def by (rule takeWhile_eq_take [symmetric])
  then have "take off d = take off (cstr d)"
    using assms(1) by (metis min.absorb1 take_take)
  with assms(3) have "d' = (take off (cstr d) @ c) @ 0 # drop (off + length (c @ [0])) d"
    by (auto simp: store_def split: if_splits)
  moreover have "0 \<notin> set (take off (cstr d) @ c)"
    using assms(2) by (auto dest: in_set_takeD)
  ultimately have "cstr d' = take off (cstr d) @ c" by (metis cstr_append_null)
  with length_store [OF assms(3)] show ?thesis by simp
qed

lemma strcpy_gen:
  assumes "readable s n" "n < length d"
  shows "\<exists>d'. (do { c \<leftarrow> copy_until n s; d' \<leftarrow> store d 0 (c @ [0]); Some (Some d') }) = Some (Some d') \<and>
    cstr d' = take n (cstr s) \<and> length d' = length d"
proof -
  from assms(1) have c: "copy_until n s = Some (take n (cstr s))"
    by (simp add: copy_until_cstr readable_def)
  have "0 + length (take n (cstr s) @ [0]) \<le> length d" using assms(2) by simp
  from store_Some [OF this] obtain d' where d': "store d 0 (take n (cstr s) @ [0]) = Some d'" ..
  have "0 \<notin> set (take n (cstr s))" by (auto dest: in_set_takeD)
  from store_cstr [OF _ this d'] c d' show ?thesis by auto
qed

lemma s_strcpy_ok:
  assumes "0 < dst_size" "dst_size \<le> length d" "readable s (dst_size - 1)"
  shows "\<exists>d'. s_strcpy (Some d) (Some s) dst_size = Some (Some d') \<and>
    cstr d' = take (dst_size - 1) (cstr s) \<and> length d' = length d"
  using strcpy_gen [of s "dst_size - 1" d] assms by (auto simp: s_strcpy_def)

lemma s_strncpy_ok:
  assumes "0 < dst_size" "dst_size \<le> length d" "readable s (min src_size (dst_size - 1))"
  shows "\<exists>d'. s_strncpy (Some d) dst_size (Some s) src_size = Some (Some d') \<and>
    cstr d' = take (min src_size (dst_size - 1)) (cstr s) \<and> length d' = length d"
proof -
  have "(if src_size < dst_size - 1 then src_size else dst_size - 1) = min src_size (dst_size - 1)"
    by (simp add: min_def)
  moreover have "min src_size (dst_size - 1) < length d" using assms by linarith
  ultimately show ?thesis using strcpy_gen [OF assms(3), of d] assms(1)
    unfolding s_strncpy_def by simp
qed

text \<open>Copying is safe and complete: when the destination has the stated size and the source
  is null-terminated or long enough, \<^verbatim>\<open>s_strcpy\<close> and \<^verbatim>\<open>s_strncpy\<close> stay
  inside both arrays, leave a terminated string, and that string is the source's, cut at one
  less than the destination's size (and at the source's stated size).\<close>

theorem bounded_copy:
  assumes "0 < dst_size" "dst_size \<le> length d"
  shows "(readable s (dst_size - 1) \<longrightarrow>
      (\<exists>d'. s_strcpy (Some d) (Some s) dst_size = Some (Some d') \<and>
         cstr d' = take (dst_size - 1) (cstr s) \<and> length d' = length d)) \<and>
    (readable s (min src_size (dst_size - 1)) \<longrightarrow>
      (\<exists>d'. s_strncpy (Some d) dst_size (Some s) src_size = Some (Some d') \<and>
         cstr d' = take (min src_size (dst_size - 1)) (cstr s) \<and> length d' = length d))"
  using s_strcpy_ok [OF assms] s_strncpy_ok [OF assms] by blast

theorem bounded_copy_witness:
  "\<exists>d'. s_strcpy (Some [9, 9, 9, 9]) (Some [65, 66, 67, 68, 69, 0]) 4 = Some (Some d') \<and>
     cstr d' = [65, 66, 67]"
  using bounded_copy [of 4 "[9, 9, 9, 9]" "[65, 66, 67, 68, 69, 0]" 0]
  by (auto simp: readable_def cstr_def)

lemma strcat_gen:
  assumes "length (cstr d) < sz" "sz \<le> length d" "readable s n" "n \<le> sz - 1 - length (cstr d)"
  shows "\<exists>d'. (do { c \<leftarrow> copy_until n s; d' \<leftarrow> store d (length (cstr d)) (c @ [0]); Some (Some d') })
      = Some (Some d') \<and> cstr d' = cstr d @ take n (cstr s) \<and> length d' = length d"
proof -
  from assms(3) have c: "copy_until n s = Some (take n (cstr s))"
    by (simp add: copy_until_cstr readable_def)
  have "length (cstr d) + length (take n (cstr s) @ [0]) \<le> length d" using assms by simp
  from store_Some [OF this] obtain d' where
    d': "store d (length (cstr d)) (take n (cstr s) @ [0]) = Some d'" ..
  have "0 \<notin> set (take n (cstr s))" by (auto dest: in_set_takeD)
  from store_cstr [OF _ this d'] c d' show ?thesis by auto
qed

text \<open>Appending is safe and complete: when the destination is terminated within its stated
  size, \<^verbatim>\<open>s_strcat\<close> stays inside both arrays and the destination then holds its own
  string followed by the source's, cut at one less than the stated size.\<close>

theorem bounded_concat:
  assumes "length (cstr d) < dst_size" "dst_size \<le> length d" "readable s (dst_size - 1 - length (cstr d))"
  shows "\<exists>d'. s_strcat (Some d) dst_size (Some s) = Some (Some d') \<and>
    cstr d' = take (dst_size - 1) (cstr d @ cstr s) \<and> length d' = length d"
proof -
  have len: "s_strnlen (Some d) dst_size = Some (length (cstr d))"
    using assms(1,2) s_strnlen_loop_cstr [of d dst_size] by (simp add: s_strnlen_def)
  show ?thesis
  proof (cases "length (cstr d) = dst_size - 1")
    case True
    with len assms(1) show ?thesis by (simp add: s_strcat_def)
  next
    case False
    let ?n = "dst_size - 1 - length (cstr d)"
    have n: "nat (int dst_size - 1 - int (length (cstr d))) = ?n" by linarith
    from False assms(1) have pos: "int dst_size - 1 - int (length (cstr d)) > 0" by linarith
    from strcat_gen [OF assms(1,2,3)] obtain d' where d':
      "(do { c \<leftarrow> copy_until ?n s; d' \<leftarrow> store d (length (cstr d)) (c @ [0]); Some (Some d') })
        = Some (Some d')" "cstr d' = cstr d @ take ?n (cstr s)" "length d' = length d"
      by blast
    with len assms(1) n pos show ?thesis by (simp add: s_strcat_def Let_def)
  qed
qed

theorem bounded_concat_witness:
  "\<exists>d'. s_strcat (Some [65, 0, 9, 9]) 4 (Some [66, 67, 68, 0]) = Some (Some d') \<and>
     cstr d' = [65, 66, 67]"
  using bounded_concat [of "[65, 0, 9, 9]" 4 "[66, 67, 68, 0]"]
  by (auto simp: readable_def cstr_def)

section \<open>What the parsers return\<close>

text \<open>The decimal digits of a number, most significant first.\<close>

fun decimal :: "nat \<Rightarrow> bytes" where
  "decimal n = (if n < 10 then [of_nat (48 + n)] else decimal (n div 10) @ [of_nat (48 + n mod 10)])"

declare decimal.simps [simp del]

definition digits_value :: "bytes \<Rightarrow> nat \<Rightarrow> nat" where
  "digits_value ds acc = foldl (\<lambda>a c. a * 10 + todigit c) acc ds"

lemma isdigit_of_nat: "d < 10 \<Longrightarrow> isdigit (of_nat (48 + d)) \<and> todigit (of_nat (48 + d)) = d"
proof -
  assume "d < 10"
  moreover have "unat (of_nat (48 + d) :: u8) = 48 + d"
    using \<open>d < 10\<close> by (simp add: unat_of_nat del: of_nat_add)
  ultimately show ?thesis by (simp add: isdigit_def todigit_def word_le_nat_alt del: of_nat_add)
qed

lemma decimal_digits: "list_all isdigit (decimal n) \<and> digits_value (decimal n) 0 = n \<and> decimal n \<noteq> []"
proof (induction n rule: decimal.induct)
  case (1 n)
  show ?case
  proof (cases "n < 10")
    case True
    then show ?thesis
      using isdigit_of_nat [of n] by (simp add: decimal.simps [of n] digits_value_def del: of_nat_add)
  next
    case False
    with 1 isdigit_of_nat [of "n mod 10"] show ?thesis
      by (simp add: decimal.simps [of n] digits_value_def del: of_nat_add)
  qed
qed

lemma digits_value_mono: "acc \<le> digits_value ds acc"
proof (induction ds arbitrary: acc)
  case Nil
  then show ?case by (simp add: digits_value_def)
next
  case (Cons c ds)
  from Cons [of "acc * 10 + todigit c"] show ?case by (simp add: digits_value_def)
qed

text \<open>What ends a number: the end of the text or a character that is no digit.\<close>

definition number_ends :: "bytes \<Rightarrow> bool" where
  "number_ends r \<longleftrightarrow> (case r of [] \<Rightarrow> True | c # _ \<Rightarrow> \<not> isdigit c)"

lemma take_digits_all:
  fixes acc :: "'a::len word"
  assumes "list_all isdigit ds" "number_ends r" "digits_value ds (unat acc) < 2 ^ LENGTH('a)"
  shows "take_digits (ds @ r) (length ds + length r) acc =
    Some (length ds, of_nat (digits_value ds (unat acc)))"
  using assms
proof (induction ds arbitrary: acc)
  case Nil
  then show ?case by (cases r) (auto simp: number_ends_def digits_value_def)
next
  case (Cons c ds)
  let ?t = "unat acc * 10 + todigit c"
  have v: "digits_value (c # ds) (unat acc) = digits_value ds ?t" by (simp add: digits_value_def)
  with digits_value_mono [of ?t ds] Cons.prems(3) have t: "?t < 2 ^ LENGTH('a)" by simp
  then have u: "unat (of_nat ?t :: 'a word) = ?t" by (simp add: unat_of_nat del: of_nat_add of_nat_mult)
  from t have "?t \<le> 2 ^ LENGTH('a) - 1" by simp
  moreover from Cons.IH [of "of_nat ?t"] Cons.prems v u
  have "take_digits (ds @ r) (length ds + length r) (of_nat ?t :: 'a word) =
      Some (length ds, of_nat (digits_value ds ?t))" by simp
  ultimately show ?case using Cons.prems(1) v by (simp add: Let_def del: of_nat_add of_nat_mult)
qed

lemma skip_nondigits_all:
  assumes "list_all (\<lambda>c. \<not> isdigit c \<and> c \<noteq> 0) pre" "list_all isdigit ds" "ds \<noteq> []"
  shows "skip_nondigits (pre @ ds @ r) (length pre + length ds + length r) = Some (length pre)"
  using assms
proof (induction pre)
  case Nil
  then show ?case by (cases ds) auto
next
  case (Cons c pre)
  then show ?case by simp
qed

lemma strto_decimal:
  fixes res :: "'a::len word"
  assumes "list_all (\<lambda>c. \<not> isdigit c \<and> c \<noteq> 0) pre" "number_ends r" "n < 2 ^ LENGTH('a)"
  defines "text \<equiv> pre @ decimal n @ r"
  shows "strto take_digits (Some text) (length text) p_end res =
    Some (length pre + length (decimal n), if r = [] then None else Some r, of_nat n)"
proof -
  have d: "list_all isdigit (decimal n)" "digits_value (decimal n) 0 = n" "decimal n \<noteq> []"
    using decimal_digits by blast+
  from skip_nondigits_all [OF assms(1) d(1,3), of r]
  have sk: "skip_nondigits text (length text) = Some (length pre)"
    by (simp add: text_def add.assoc)
  from take_digits_all [OF d(1) assms(2), of "0 :: 'a word"] assms(3) d(2)
  have "take_digits (decimal n @ r) (length (decimal n) + length r) (0 :: 'a word) =
      Some (length (decimal n), of_nat n)" by simp
  with sk d(3) show ?thesis by (simp add: strto_def text_def)
qed

text \<open>Parsing inverts printing: in a text that is some characters which are no digits, the
  decimal digits of a number the result type can hold and then the end or another character,
  the 8, 16 and 32-bit parsers return that number, consume exactly the prefix and its digits and
  leave the end pointer at what follows (null at the end).\<close>

theorem parse_decimal:
  assumes "list_all (\<lambda>c. \<not> isdigit c \<and> c \<noteq> 0) pre" "number_ends r"
  shows "let text = pre @ decimal n @ r; used = length pre + length (decimal n);
             p_end = (if r = [] then None else Some r) in
    (n < 2 ^ 8 \<longrightarrow> s_digitstrtouc (Some text) (length text) e r8 = Some (used, p_end, of_nat n)) \<and>
    (n < 2 ^ 16 \<longrightarrow> s_strtous (Some text) (length text) e r16 = Some (used, p_end, of_nat n)) \<and>
    (n < 2 ^ 32 \<longrightarrow> s_strtoui (Some text) (length text) e r32 = Some (used, p_end, of_nat n))"
  using strto_decimal [OF assms, of n e r8] strto_decimal [OF assms, of n e r16]
    strto_decimal [OF assms, of n e r32]
  by (simp add: s_digitstrtouc_def s_strtous_def s_strtoui_def Let_def)

theorem parse_decimal_witness:
  "s_strtous (Some ([46, 32] @ decimal 1024 @ [46, 55])) 8 None 0 = Some (6, Some [46, 55], 1024)"
proof -
  have "length (decimal 1024) = 4" by (simp add: decimal.simps)
  then show ?thesis
    using parse_decimal [of "[46, 32]" "[46, 55]" 1024 None 0 0 0]
    by (simp add: isdigit_def number_ends_def Let_def)
qed

lemma take_digits_value:
  fixes acc :: "'a::len word"
  assumes "take_digits s n acc = Some (k, r)"
  shows "k \<le> n \<and> k \<le> length s \<and> list_all isdigit (take k s) \<and>
    unat r = digits_value (take k s) (unat acc) \<and>
    (k < n \<and> k < length s \<and> isdigit (s ! k) \<longrightarrow> 2 ^ LENGTH('a) \<le> unat r * 10 + todigit (s ! k))"
  using assms
proof (induction s n acc arbitrary: k r rule: take_digits.induct)
  case (1 s acc)
  then show ?case by (simp add: digits_value_def)
next
  case (2 n acc)
  then show ?case by simp
next
  case (3 c s n acc)
  let ?t = "unat acc * 10 + todigit c"
  show ?case
  proof (cases "isdigit c \<and> ?t \<le> 2 ^ LENGTH('a) - 1")
    case True
    moreover have "(0::nat) < 2 ^ LENGTH('a)" by simp
    ultimately have "?t < 2 ^ LENGTH('a)" by linarith
    then have u: "unat (of_nat ?t :: 'a word) = ?t"
      by (simp add: unat_of_nat del: of_nat_add of_nat_mult)
    from True 3(2) obtain k' where k': "take_digits s n (of_nat ?t :: 'a word) = Some (k', r)" "k = Suc k'"
      by (auto simp: Let_def simp del: of_nat_add of_nat_mult)
    from 3(1) [OF conjunct1 [OF True] refl conjunct2 [OF True] k'(1)]
    show ?thesis unfolding u k'(2) using True by (auto simp: digits_value_def)
  next
    case False
    with 3(2) have "k = 0" "r = acc" by (auto simp: Let_def split: if_splits)
    with False show ?thesis by (auto simp: digits_value_def)
  qed
qed

text \<open>The three parsers with a wider intermediate type never wrap: whatever the text, the
  number is the value of the digits consumed, and the loop stops before a digit only if that
  digit would take the value out of the result type.\<close>

theorem parse_never_wraps:
  assumes "s_strtous (Some s) len p_end res = Some (used, p_end', r)" "0 < len"
  shows "\<exists>i k. used = i + k \<and> list_all isdigit (take k (drop i s)) \<and>
    unat r = digits_value (take k (drop i s)) 0 \<and>
    (used < len \<and> used < length s \<and> isdigit (s ! used) \<longrightarrow>
       2 ^ 16 \<le> unat r * 10 + todigit (s ! used))"
proof -
  from assms obtain i k where *: "skip_nondigits s len = Some i"
    "take_digits (drop i s) (len - i) 0 = Some (k, r)" "used = i + k"
    by (auto simp: s_strtous_def strto_def bind_eq_Some_conv)
  note v = take_digits_value [OF *(2)]
  have "2 ^ 16 \<le> unat r * 10 + todigit (s ! used)"
    if "used < len" "used < length s" "isdigit (s ! used)"
  proof -
    from that *(3) have "k < len - i" "k < length (drop i s)" "drop i s ! k = s ! used" by auto
    with v that(3) show ?thesis by simp
  qed
  moreover have "unat r = digits_value (take k (drop i s)) 0" using v by simp
  ultimately show ?thesis using v *(3) by blast
qed

theorem parse_never_wraps_witness:
  "\<exists>i k. (5::nat) = i + k \<and>
    unat (6553 :: u16) = digits_value (take k (drop i [120, 54, 53, 53, 51, 54])) 0"
proof -
  have "s_strtous (Some [120, 54, 53, 53, 51, 54]) 6 None 0 = Some (5, Some [54], 6553)"
    by (simp add: s_strtous_def strto_def isdigit_def todigit_def loops_numeral)
  from parse_never_wraps [OF this] show ?thesis by auto
qed

text \<open>The 64-bit parser does wrap: its test that the product is not smaller than the factor
  misses products that wrap past it, so thirty quintillions parse as a number below twelve
  quintillions with every digit consumed.\<close>

theorem strtoull_wraps:
  "s_strtoull (Some [51, 48, 48, 48, 48, 48, 48, 48, 48, 48, 48, 48, 48, 48, 48, 48, 48, 48, 48, 48])
     20 None 0 = Some (20, None, 11553255926290448384)"
  by (simp add: s_strtoull_def strto_def isdigit_def todigit_def loops_numeral)

section \<open>What trimming does\<close>

definition strip_right :: "bytes \<Rightarrow> bytes" where
  "strip_right xs = rev (dropWhile isspace (rev xs))"

lemma strip_right_take: "take (length (dropWhile isspace (rev xs))) xs = strip_right xs"
proof -
  have "rev xs = takeWhile isspace (rev xs) @ dropWhile isspace (rev xs)" by simp
  then have "xs = rev (dropWhile isspace (rev xs)) @ rev (takeWhile isspace (rev xs))"
    by (metis rev_append rev_rev_ident)
  then show ?thesis by (metis append_eq_conv_conj length_rev strip_right_def)
qed

lemma count_spaces_cstr:
  "length (cstr s) < length s \<or> n \<le> length s \<Longrightarrow> length (cstr s) < n \<Longrightarrow>
   count_spaces s n = Some (length (takeWhile isspace (cstr s)))"
  by (induction s n rule: count_spaces.induct) (auto simp: cstr_def)

lemma cstr_split: "length (cstr s) < length s \<Longrightarrow> \<exists>r. s = cstr s @ 0 # r"
  by (induction s) (auto simp: cstr_def)

lemma trim_left_cstr:
  assumes c: "0 \<notin> set c" and len: "length c < len" "len \<le> length (c @ 0 # r)"
  shows "\<exists>s'. s_strtrim_left (Some (c @ 0 # r)) len = Some (Some s') \<and>
    length s' = length (c @ 0 # r) \<and> cstr s' = dropWhile isspace c"
proof -
  let ?s = "c @ 0 # r" and ?k = "length (takeWhile isspace c)" and ?b = "dropWhile isspace c"
  have kb: "?k + length ?b = length c"
    by (metis length_append takeWhile_dropWhile_id)
  have "drop ?k c = ?b" by (metis append_eq_conv_conj takeWhile_dropWhile_id)
  moreover have "?k \<le> length c" using kb by linarith
  ultimately have d: "drop ?k ?s = ?b @ 0 # r" by simp
  have nz: "0 \<notin> set ?b" using c by (metis set_dropWhileD)
  then have body: "copy_until (len - ?k) (drop ?k ?s) = Some ?b"
    unfolding d using copy_until_cstr [of "?b @ 0 # r" "len - ?k"] kb len by simp
  have "0 + length ?b \<le> length ?s" using kb by simp
  from store_Some [OF this] obtain s1 where s1: "store ?s 0 ?b = Some s1" ..
  from s1 have s1e: "s1 = ?b @ drop (length ?b) ?s" by (auto simp: store_def split: if_splits)
  have "length ?b + length [0] \<le> length s1" using kb length_store [OF s1] by simp
  from store_Some [OF this] obtain s2 where s2: "store s1 (length ?b) [0] = Some s2" ..
  then have "s2 = ?b @ 0 # drop (length ?b + 1) s1"
    using s1e by (auto simp: store_def split: if_splits)
  with nz have s2c: "cstr s2 = ?b" by simp
  have sp: "count_spaces ?s len = Some ?k"
    using count_spaces_cstr [of ?s len] len c by simp
  have "s_strtrim_left (Some ?s) len = Some (Some s2)"
    using sp body s1 s2 kb len(1) by (simp add: s_strtrim_left_def)
  with s2c length_store [OF s2] length_store [OF s1] show ?thesis by auto
qed

lemma trim_right_cstr:
  assumes c: "0 \<notin> set c" and len: "length c < len" "len \<le> length (c @ 0 # r)"
  shows "\<exists>s'. s_strtrim_right (Some (c @ 0 # r)) len = Some (Some s') \<and>
    length s' = length (c @ 0 # r) \<and> cstr s' = strip_right c"
proof -
  let ?s = "c @ 0 # r" and ?m = "length (dropWhile isspace (rev c))"
  have n: "s_strnlen_loop ?s len = Some (length c)"
    using s_strnlen_loop_cstr [of ?s len] len c by simp
  have s1: "store ?s (length c) [0] = Some ?s" by (simp add: store_def)
  have le: "?m \<le> length c" by (metis length_dropWhile_le length_rev)
  have "?m + length [0] \<le> length ?s" using le by simp
  from store_Some [OF this] obtain s2 where s2: "store ?s ?m [0] = Some s2" ..
  have "cstr s2 = take ?m c \<and> length s2 = length ?s"
    using store_cstr [of ?m ?s "[]" s2] le s2 c by simp
  moreover have "s_strtrim_right (Some ?s) len = Some (Some s2)"
    using n s1 s2 len by (simp add: s_strtrim_right_def)
  ultimately show ?thesis using strip_right_take [of c] by auto
qed

text \<open>Trimming a string that is terminated within the stated length removes exactly the white
  space at both ends and stays inside the array.\<close>

theorem trim_both_ends:
  assumes "length (cstr s) < len" "len \<le> length s"
  shows "\<exists>s'. s_strtrim (Some s) len = Some (Some s') \<and> length s' = length s \<and>
    cstr s' = strip_right (dropWhile isspace (cstr s))"
proof -
  have "length (cstr s) < length s" using assms by simp
  from cstr_split [OF this] obtain r where s: "s = cstr s @ 0 # r" ..
  have "len \<le> length (cstr s @ 0 # r)" using assms(2) s by metis
  from trim_left_cstr [OF cstr_no_null assms(1) this] obtain s1 where
    s1: "s_strtrim_left (Some s) len = Some (Some s1)" "length s1 = length s"
      "cstr s1 = dropWhile isspace (cstr s)" using s by metis
  have lt: "length (cstr s1) < len"
    using s1(3) assms(1) length_dropWhile_le [of isspace "cstr s"] by simp
  with assms(2) s1(2) have "length (cstr s1) < length s1" by simp
  from cstr_split [OF this] obtain r1 where r1: "s1 = cstr s1 @ 0 # r1" ..
  have "len \<le> length (cstr s1 @ 0 # r1)" using assms(2) s1(2) r1 by metis
  from trim_right_cstr [OF cstr_no_null lt this] obtain s2 where
    "s_strtrim_right (Some s1) len = Some (Some s2)" "length s2 = length s1"
      "cstr s2 = strip_right (cstr s1)" using r1 by metis
  with s1 lt show ?thesis by (auto simp: s_strtrim_def)
qed

theorem trim_both_ends_witness:
  "\<exists>s'. s_strtrim (Some [32, 9, 65, 32, 66, 10, 32, 0]) 8 = Some (Some s') \<and> cstr s' = [65, 32, 66]"
  using trim_both_ends [of "[32, 9, 65, 32, 66, 10, 32, 0]" 8]
  by (auto simp: cstr_def isspace_def strip_right_def)

end
