(* ===== verification/Revision.thy ===== *)
theory Revision
  imports SStr
begin

text \<open>
  Version strings (\<^verbatim>\<open>src/common/string/revision.c\<close>): parsing a dotted revision into its
  parts and printing the parts. The pointer checks of the code become the \<open>option\<close> of the
  buffers; the out-parameters for the parts are never null in this program.
\<close>

section \<open>Parsing\<close>

text \<open>The loop of \<^verbatim>\<open>parse_revision\<close>: the parts it found, at most \<open>n\<close>. The parts it did not
  reach keep the zero their callers put there.\<close>

fun parse_revision_loop :: "nat \<Rightarrow> bytes option \<Rightarrow> nat \<Rightarrow> u16 list option" where
  "parse_revision_loop 0 p_end left = Some []"
| "parse_revision_loop (Suc n) p_end left =
     (if left > 0 \<and> p_end \<noteq> None then do {
        s \<leftarrow> p_end;
        c \<leftarrow> rd8 s 0;
        if c \<noteq> 0 then do {
          (used, p_end', r) \<leftarrow> s_strtous (Some s) left p_end 0;
          rest \<leftarrow> parse_revision_loop n p_end' (left - used);
          Some (r # rest)
        } else Some []
      } else Some [])"

declare parse_revision_loop.simps(2) [simp del]

definition parse_revision :: "nat \<Rightarrow> bytes \<Rightarrow> nat \<Rightarrow> (u16 list \<times> bool) option" where
  "parse_revision parts_count revision revision_len = do {
     ps \<leftarrow> parse_revision_loop parts_count (Some revision) revision_len;
     Some (ps @ replicate (parts_count - length ps) 0, length ps = parts_count)
   }"

function truncate_us :: "u16 \<Rightarrow> nat \<Rightarrow> u16" where
  "truncate_us v count = (if unat v \<ge> 10 ^ count then truncate_us (v div 10) count else v)"
  by pat_completeness auto
termination
proof (relation "measure (\<lambda>(v, _). unat v)")
  fix v :: u16 and count :: nat
  assume "10 ^ count \<le> unat v"
  moreover have "(0::nat) < 10 ^ count" by simp
  ultimately have "0 < unat v" by linarith
  then show "((v div 10, count), (v, count)) \<in> measure (\<lambda>(v, _). unat v)"
    by (simp add: unat_div)
qed simp

declare truncate_us.simps [simp del]

abbreviation (input) COMMON_MAJOR_REVISION_LEN :: nat where "COMMON_MAJOR_REVISION_LEN \<equiv> 2"
abbreviation (input) COMMON_BUILD_REVISION_LEN :: nat where "COMMON_BUILD_REVISION_LEN \<equiv> 4"

record main_revision =
  rev_major :: u16
  rev_minor :: u16
  rev_hotfix :: u16
  rev_build :: u16

definition parse_main_revision :: "bytes option \<Rightarrow> nat \<Rightarrow> main_revision \<Rightarrow> (main_revision \<times> bool) option" where
  "parse_main_revision revision revision_len old =
     (case revision of
        None \<Rightarrow> Some (old, False)
      | Some s \<Rightarrow>
          if revision_len = 0 then Some (old, False)
          else do {
            (ps, success) \<leftarrow> parse_revision 4 s revision_len;
            Some (\<lparr>rev_major = truncate_us (ps ! 0) COMMON_MAJOR_REVISION_LEN,
                   rev_minor = truncate_us (ps ! 1) COMMON_MAJOR_REVISION_LEN,
                   rev_hotfix = truncate_us (ps ! 2) COMMON_MAJOR_REVISION_LEN,
                   rev_build = truncate_us (ps ! 3) COMMON_BUILD_REVISION_LEN\<rparr>, success)
          })"

definition parse_fw_revision :: "bytes option \<Rightarrow> nat \<Rightarrow> u16 \<times> u16 \<Rightarrow> ((u16 \<times> u16) \<times> bool) option" where
  "parse_fw_revision fw_revision revision_len old =
     (case fw_revision of
        None \<Rightarrow> Some (old, False)
      | Some s \<Rightarrow>
          if revision_len = 0 then Some (old, False)
          else do {
            (ps, success) \<leftarrow> parse_revision 2 s revision_len;
            Some ((ps ! 0, ps ! 1), success)
          })"

section \<open>Printing\<close>

text \<open>\<^verbatim>\<open>printf\<close>'s \<^verbatim>\<open>%0<w>hd\<close> of an unsigned short, which it reads as signed.\<close>

definition zero_pad :: "nat \<Rightarrow> bytes \<Rightarrow> bytes" where
  "zero_pad w ds = replicate (w - length ds) 48 @ ds"

definition show_hd :: "nat \<Rightarrow> u16 \<Rightarrow> bytes" where
  "show_hd w v =
     (if sint v < 0 then 45 # zero_pad (w - 1) (decimal (nat (- sint v)))
      else zero_pad w (decimal (unat v)))"

definition revision_text :: "u16 \<Rightarrow> u16 \<Rightarrow> u16 \<Rightarrow> u16 \<Rightarrow> bytes" where
  "revision_text major minor hotfix build =
     show_hd COMMON_MAJOR_REVISION_LEN major @ 46 # show_hd COMMON_MAJOR_REVISION_LEN minor @
     46 # show_hd COMMON_MAJOR_REVISION_LEN hotfix @ 46 # show_hd COMMON_BUILD_REVISION_LEN build"

definition build_revision ::
  "bytes option \<Rightarrow> nat \<Rightarrow> u16 \<Rightarrow> u16 \<Rightarrow> u16 \<Rightarrow> u16 \<Rightarrow> bytes option option" where
  "build_revision revision revision_len major minor hotfix build =
     (if revision \<noteq> None \<and> revision_len \<noteq> 0
      then s_strcpy revision (Some (revision_text major minor hotfix build @ [0])) revision_len
      else Some revision)"

definition build_fw_revision :: "bytes option \<Rightarrow> nat \<Rightarrow> u16 \<Rightarrow> u16 \<Rightarrow> bytes option option" where
  "build_fw_revision fw_revision len major minor =
     (if fw_revision \<noteq> None \<and> len \<noteq> 0
      then s_strcpy fw_revision (Some (show_hd 0 major @ 46 # show_hd 0 minor @ [0])) len
      else Some fw_revision)"

text \<open>The parts are uninitialised locals here, but a text that is not null and has a length always
  sets all of them.\<close>

definition format_revision ::
  "bytes option \<Rightarrow> nat \<Rightarrow> bytes option \<Rightarrow> nat \<Rightarrow> (bytes option \<times> bool) option" where
  "format_revision rev_in rev_len fmt_rev fmt_rev_len =
     (if rev_in \<noteq> None \<and> rev_len \<noteq> 0 \<and> fmt_rev \<noteq> None \<and> fmt_rev_len \<noteq> 0 then do {
        (r, valid) \<leftarrow> parse_main_revision rev_in rev_len
           \<lparr>rev_major = 0, rev_minor = 0, rev_hotfix = 0, rev_build = 0\<rparr>;
        out \<leftarrow> build_revision fmt_rev fmt_rev_len (rev_major r) (rev_minor r) (rev_hotfix r) (rev_build r);
        Some (out, valid)
      } else Some (fmt_rev, False))"

definition format_fw_revision ::
  "bytes option \<Rightarrow> nat \<Rightarrow> bytes option \<Rightarrow> nat \<Rightarrow> (bytes option \<times> bool) option" where
  "format_fw_revision rev_in rev_len fmt_rev fmt_rev_len =
     (if rev_in \<noteq> None \<and> rev_len \<noteq> 0 \<and> fmt_rev \<noteq> None \<and> fmt_rev_len \<noteq> 0 then do {
        ((major, minor), valid) \<leftarrow> parse_fw_revision rev_in rev_len (0, 0);
        out \<leftarrow> build_fw_revision fmt_rev fmt_rev_len major minor;
        Some (out, valid)
      } else Some (fmt_rev, False))"

text \<open>The BCD array of a firmware version, lowest byte first, stored in unsigned chars.\<close>

definition convert_fw_version_str_to_array :: "bytes option \<Rightarrow> nat \<Rightarrow> bytes option" where
  "convert_fw_version_str_to_array str len = do {
     (r, _) \<leftarrow> parse_main_revision str len
        \<lparr>rev_major = 0, rev_minor = 0, rev_hotfix = 0, rev_build = 0\<rparr>;
     let bcd = (\<lambda>n :: nat. of_nat ((n div 10) * 16 + n mod 10) :: u8);
     let b = unat (rev_build r);
     Some [of_nat (((b div 10) mod 10) * 16 + b mod 10),
           of_nat ((b div 1000) * 16 + (b div 100) mod 10),
           bcd (unat (rev_hotfix r)), bcd (unat (rev_minor r)), bcd (unat (rev_major r))]
   }"

section \<open>The round trip\<close>

lemma truncate_us_id: "unat v < 10 ^ count \<Longrightarrow> truncate_us v count = v"
  by (simp add: truncate_us.simps)

lemma decimal_length:
  "n < 10 ^ k \<Longrightarrow> 0 < k \<Longrightarrow> length (decimal n) \<le> k"
proof (induction k arbitrary: n)
  case 0
  then show ?case by simp
next
  case (Suc k)
  show ?case
  proof (cases "n < 10")
    case True
    then show ?thesis by (simp add: decimal.simps)
  next
    case False
    then have "k \<noteq> 0" using Suc.prems(1) by (cases k) auto
    moreover have "n div 10 < 10 ^ k" using Suc.prems(1) by (simp add: less_mult_imp_div_less mult.commute)
    ultimately have "length (decimal (n div 10)) \<le> k" using Suc.IH by simp
    then show ?thesis using False by (subst decimal.simps) simp
  qed
qed

text \<open>A padded field is a digit sequence with the number's value.\<close>

lemma digits_value_zeros: "digits_value (replicate k 48 @ ds) 0 = digits_value ds 0"
  by (induction k) (auto simp: digits_value_def todigit_def)

definition is_field :: "bytes \<Rightarrow> nat \<Rightarrow> u16 \<Rightarrow> bool" where
  "is_field ds w v \<longleftrightarrow> list_all isdigit ds \<and> digits_value ds 0 = unat v \<and> ds \<noteq> [] \<and>
     length ds = w \<and> 0 \<notin> set ds"

lemma show_hd_field:
  assumes "unat v < 10 ^ w" "0 < w" "unat v < 32768"
  shows "is_field (show_hd w v) w v"
proof -
  have "uint v < 32768" using assms(3) by (metis of_nat_less_iff of_nat_numeral uint_nat)
  moreover have "- (2 ^ 15) \<le> uint v" by (rule order_trans [OF _ uint_ge_0]) simp
  ultimately have "sint v = uint v"
    using signed_take_bit_int_eq_self [of 15 "uint v"] by (simp add: sint_uint)
  then have "\<not> sint v < 0" by simp
  then have s: "show_hd w v = replicate (w - length (decimal (unat v))) 48 @ decimal (unat v)"
    by (simp add: show_hd_def zero_pad_def)
  note d = decimal_digits [of "unat v"]
  have z: "isdigit 48" by (simp add: isdigit_def)
  have nz: "list_all isdigit xs \<Longrightarrow> 0 \<notin> set xs" for xs
    by (induction xs) (auto simp: isdigit_def)
  have "list_all isdigit (show_hd w v)" using d z by (auto simp: s list_all_iff)
  moreover from nz [OF this] have "0 \<notin> set (show_hd w v)" .
  moreover have "digits_value (show_hd w v) 0 = unat v" using d by (simp add: s digits_value_zeros)
  moreover have "length (show_hd w v) = w" using decimal_length [OF assms(1,2)] by (simp add: s)
  moreover have "show_hd w v \<noteq> []" using d by (simp add: s)
  ultimately show ?thesis unfolding is_field_def by blast
qed

lemma parse_part:
  assumes "list_all (\<lambda>c. \<not> isdigit c \<and> c \<noteq> 0) pre" "list_all isdigit ds" "ds \<noteq> []" "0 \<notin> set ds"
    and "number_ends r" "r \<noteq> []" "digits_value ds 0 = unat v"
  shows "parse_revision_loop (Suc n) (Some (pre @ ds @ r)) (length (pre @ ds @ r)) =
    map_option ((#) v) (parse_revision_loop n (Some r) (length r))"
proof -
  let ?s = "pre @ ds @ r"
  from skip_nondigits_all [OF assms(1-3), of r]
  have sk: "skip_nondigits ?s (length ?s) = Some (length pre)" by (simp add: add.assoc)
  have "unat v < 2 ^ LENGTH(16)" using unsigned_less [of v] by simp
  with take_digits_all [OF assms(2,5), of "0 :: u16"] assms(7)
  have td: "take_digits (ds @ r) (length ds + length r) (0 :: u16) = Some (length ds, v)" by simp
  have st: "s_strtous (Some ?s) (length ?s) e 0 = Some (length pre + length ds, Some r, v)" for e
    using sk td assms(3,6) by (simp add: s_strtous_def strto_def)
  obtain c cs where c: "?s = c # cs" "c \<noteq> 0"
    using assms(1,3,4) by (cases pre; cases ds) auto
  have "rd8 ?s 0 = Some c" unfolding c(1) using rd8_append [of 0 "[]" c cs] by simp
  moreover have "length ?s - (length pre + length ds) = length r" by simp
  ultimately show ?thesis
    using st c(2) assms(3)
    by (simp add: parse_revision_loop.simps(2) map_option_case split: option.splits)
qed

lemma number_ends_dot: "number_ends (46 # r)" "number_ends (0 # r)"
  by (simp_all add: number_ends_def isdigit_def)

lemma parse_fields:
  fixes f :: "nat \<Rightarrow> bytes" and v :: "nat \<Rightarrow> u16"
  assumes "\<And>i. i < 4 \<Longrightarrow> is_field (f i) (w i) (v i)"
  shows "parse_revision 4 (f 0 @ 46 # f 1 @ 46 # f 2 @ 46 # f 3 @ 0 # r)
      (length (f 0 @ 46 # f 1 @ 46 # f 2 @ 46 # f 3 @ 0 # r)) = Some ([v 0, v 1, v 2, v 3], True)"
proof -
  note n = number_ends_dot
  have dot: "list_all (\<lambda>c. \<not> isdigit c \<and> c \<noteq> 0) [46]" by (simp add: isdigit_def)
  have "(0::nat) < 4" "(1::nat) < 4" "(2::nat) < 4" "(3::nat) < 4" by simp_all
  note f0 = assms [OF this(1), unfolded is_field_def] and f1 = assms [OF this(2), unfolded is_field_def]
    and f2 = assms [OF this(3), unfolded is_field_def] and f3 = assms [OF this(4), unfolded is_field_def]
  have p3: "parse_revision_loop 1 (Some (46 # f 3 @ 0 # r)) (length (46 # f 3 @ 0 # r)) = Some [v 3]"
    using parse_part [OF dot, of "f 3" "0 # r" "v 3" 0] f3 n by simp
  have p2: "parse_revision_loop 2 (Some (46 # f 2 @ 46 # f 3 @ 0 # r))
      (length (46 # f 2 @ 46 # f 3 @ 0 # r)) = Some [v 2, v 3]"
    using parse_part [OF dot, of "f 2" "46 # f 3 @ 0 # r" "v 2" 1] f2 n p3
    by (simp add: numeral_2_eq_2)
  have p1: "parse_revision_loop 3 (Some (46 # f 1 @ 46 # f 2 @ 46 # f 3 @ 0 # r))
      (length (46 # f 1 @ 46 # f 2 @ 46 # f 3 @ 0 # r)) = Some [v 1, v 2, v 3]"
    using parse_part [OF dot, of "f 1" "46 # f 2 @ 46 # f 3 @ 0 # r" "v 1" 2] f1 n p2
    by (simp add: numeral_3_eq_3 numeral_2_eq_2)
  have p0: "parse_revision_loop 4 (Some (f 0 @ 46 # f 1 @ 46 # f 2 @ 46 # f 3 @ 0 # r))
      (length (f 0 @ 46 # f 1 @ 46 # f 2 @ 46 # f 3 @ 0 # r)) = Some [v 0, v 1, v 2, v 3]"
    using parse_part [of "[]" "f 0" "46 # f 1 @ 46 # f 2 @ 46 # f 3 @ 0 # r" "v 0" 3] f0 n p1
    by (simp add: numeral_3_eq_3 eval_nat_numeral)
  then show ?thesis by (simp add: parse_revision_def)
qed

section \<open>When parsing and printing are defined\<close>

lemma skip_nondigits_defined:
  "n \<le> length s \<Longrightarrow> \<exists>i. skip_nondigits s n = Some i \<and> i \<le> n"
  by (induction s n rule: skip_nondigits.induct) auto

lemma take_digits_defined:
  fixes acc :: "'a::len word"
  shows "n \<le> length s \<Longrightarrow> \<exists>k r. take_digits s n acc = Some (k, r) \<and> k \<le> n"
proof (induction s n acc rule: take_digits.induct)
  case (3 c s n acc)
  then show ?case by (fastforce simp: Let_def)
qed auto

lemma strtous_defined:
  assumes "0 < len" "len \<le> length s"
  shows "\<exists>used r. s_strtous (Some s) len p_end res =
    Some (used, if used < len then Some (drop used s) else None, r) \<and> used \<le> len"
proof -
  obtain i where i: "skip_nondigits s len = Some i" "i \<le> len"
    using skip_nondigits_defined [OF assms(2)] by blast
  have "len - i \<le> length (drop i s)" using assms(2) by simp
  from take_digits_defined [OF this, of "0 :: u16"] obtain k r where
    "take_digits (drop i s) (len - i) (0 :: u16) = Some (k, r)" "k \<le> len - i" by blast
  with i show ?thesis using assms(1) by (auto simp: s_strtous_def strto_def)
qed

lemma parse_revision_loop_defined:
  "(\<And>s. p_end = Some s \<Longrightarrow> left \<le> length s) \<Longrightarrow>
   \<exists>ps. parse_revision_loop n p_end left = Some ps \<and> length ps \<le> n"
proof (induction n arbitrary: p_end left)
  case 0
  then show ?case by simp
next
  case (Suc n)
  show ?case
  proof (cases "left > 0 \<and> p_end \<noteq> None")
    case False
    then show ?thesis by (auto simp: parse_revision_loop.simps(2))
  next
    case True
    then obtain s where s: "p_end = Some s" "0 < left" "left \<le> length s" using Suc.prems by auto
    then have "load 1 s 0 \<noteq> None" by (simp add: load_def)
    then obtain c where c: "rd8 s 0 = Some c" by (auto simp: rd8_def)
    from strtous_defined [OF s(2,3), of p_end 0] obtain used r where
      u: "s_strtous (Some s) left (Some s) 0 =
        Some (used, if used < left then Some (drop used s) else None, r)" using s(1) by blast
    have "\<exists>ps. parse_revision_loop n (if used < left then Some (drop used s) else None) (left - used)
        = Some ps \<and> length ps \<le> n"
      by (rule Suc.IH) (use s in \<open>auto split: if_splits\<close>)
    then show ?thesis using s c u by (auto simp: parse_revision_loop.simps(2))
  qed
qed

lemma parse_main_revision_defined:
  assumes "len \<le> length s"
  shows "\<exists>r. parse_main_revision (Some s) len old = Some r"
  using parse_revision_loop_defined [of "Some s" len 4] assms
  by (auto simp: parse_main_revision_def parse_revision_def)

lemma readable_terminated: "readable (t @ [0]) n"
proof -
  have "length (cstr (t @ [0])) < length (t @ [0])"
    by (induction t) (auto simp: cstr_def)
  then show ?thesis by (simp add: readable_def)
qed

lemma build_revision_defined:
  assumes "n \<le> length buf"
  shows "\<exists>buf'. build_revision (Some buf) n a b c d = Some (Some buf') \<and> length buf' = length buf"
    and "\<exists>buf'. build_fw_revision (Some buf) n a b = Some (Some buf') \<and> length buf' = length buf"
proof -
  show "\<exists>buf'. build_revision (Some buf) n a b c d = Some (Some buf') \<and> length buf' = length buf"
    using s_strcpy_ok [OF _ assms readable_terminated, of "revision_text a b c d"]
    by (cases "n = 0") (auto simp: build_revision_def)
  show "\<exists>buf'. build_fw_revision (Some buf) n a b = Some (Some buf') \<and> length buf' = length buf"
    using s_strcpy_ok [OF _ assms readable_terminated, of "show_hd 0 a @ 46 # show_hd 0 b"]
    by (cases "n = 0") (auto simp: build_fw_revision_def)
qed

text \<open>Printing a revision and parsing it again gives the same parts: for parts that fit their
  fields (two digits each, four for the build) and a buffer of at least fourteen bytes,
  \<^verbatim>\<open>build_revision\<close> writes a text from which \<^verbatim>\<open>parse_main_revision\<close> reads
  back exactly those parts and reports success.\<close>

theorem revision_round_trip:
  assumes "unat major < 100" "unat minor < 100" "unat hotfix < 100" "unat build < 10000"
    and "14 \<le> length buf"
  shows "\<exists>buf'. build_revision (Some buf) (length buf) major minor hotfix build = Some (Some buf') \<and>
    parse_main_revision (Some buf') (length buf') old =
      Some (\<lparr>rev_major = major, rev_minor = minor, rev_hotfix = hotfix, rev_build = build\<rparr>, True)"
proof -
  let ?f = "\<lambda>i :: nat. if i = 0 then show_hd 2 major else if i = 1 then show_hd 2 minor
      else if i = 2 then show_hd 2 hotfix else show_hd 4 build"
  let ?v = "\<lambda>i :: nat. if i = 0 then major else if i = 1 then minor else if i = 2 then hotfix else build"
  let ?t = "revision_text major minor hotfix build"
  have g: "is_field (show_hd 2 major) 2 major" "is_field (show_hd 2 minor) 2 minor"
    "is_field (show_hd 2 hotfix) 2 hotfix" "is_field (show_hd 4 build) 4 build"
    by (rule show_hd_field; use assms(1-4) in simp)+
  have t: "length ?t = 13" "0 \<notin> set ?t"
    using g by (simp_all add: revision_text_def is_field_def)
  then have c: "cstr (?t @ [0]) = ?t" by simp
  have rd: "readable (?t @ [0]) (length buf - 1)" unfolding readable_def c by simp
  have tk: "take (length buf - 1) ?t = ?t" using t(1) assms(5) by simp
  have pos: "0 < length buf" using assms(5) by linarith
  from s_strcpy_ok [OF pos order_refl rd] obtain buf' where
    b': "s_strcpy (Some buf) (Some (?t @ [0])) (length buf) = Some (Some buf')"
      "cstr buf' = ?t" "length buf' = length buf"
    unfolding c tk by blast
  have b: "build_revision (Some buf) (length buf) major minor hotfix build = Some (Some buf')"
    using b'(1) pos by (simp add: build_revision_def)
  have "length (cstr buf') < length buf'" using b'(2,3) t(1) assms(5) by simp
  from cstr_split [OF this] obtain r where r: "buf' = ?t @ 0 # r" unfolding b'(2) ..
  then have r': "buf' = ?f 0 @ 46 # ?f 1 @ 46 # ?f 2 @ 46 # ?f 3 @ 0 # r"
    by (simp add: revision_text_def)
  have "parse_revision 4 buf' (length buf') = Some ([?v 0, ?v 1, ?v 2, ?v 3], True)"
    unfolding r' by (rule parse_fields [where w = "\<lambda>i. if i < 3 then 2 else 4"]) (use g in auto)
  then have "parse_revision 4 buf' (length buf') = Some ([major, minor, hotfix, build], True)"
    by simp
  moreover have "length buf' \<noteq> 0" using b'(3) assms(5) by linarith
  ultimately have "parse_main_revision (Some buf') (length buf') old =
      Some (\<lparr>rev_major = major, rev_minor = minor, rev_hotfix = hotfix, rev_build = build\<rparr>, True)"
    using assms(1-4) by (simp add: parse_main_revision_def truncate_us_id)
  with b show ?thesis by blast
qed

theorem revision_round_trip_witness:
  "\<exists>buf'. build_revision (Some (replicate 25 7)) 25 1 2 3 4567 = Some (Some buf') \<and>
    parse_main_revision (Some buf') (length buf')
      \<lparr>rev_major = 0, rev_minor = 0, rev_hotfix = 0, rev_build = 0\<rparr> =
      Some (\<lparr>rev_major = 1, rev_minor = 2, rev_hotfix = 3, rev_build = 4567\<rparr>, True)"
  using revision_round_trip [of 1 2 3 4567 "replicate 25 7"] by simp

end
