(* ===== verification/Device.thy ===== *)
theory Device
  imports Adapter Utility Revision
begin

text \<open>
  Device discovery: \<^verbatim>\<open>nvm_get_device_count\<close>, \<^verbatim>\<open>nvm_get_devices\<close> and
  \<^verbatim>\<open>nvm_get_device_discovery\<close> of \<^verbatim>\<open>src/lib/device.c\<close>, the lookups and
  conversions of \<^verbatim>\<open>device_utilities.c\<close> and \<^verbatim>\<open>get_devices_is_supported\<close> of
  \<^verbatim>\<open>capabilities.c\<close>. The identify payload is packed: interface code 6, firmware
  revision 8, API version 13, capacity 32, manufacturer 36, serial number 38, model number 42,
  SKU 62. An array parameter is the list of its elements, so its length is the space the caller
  allocated.
\<close>

section \<open>Conversions\<close>

definition security_state_to_enum :: "u8 \<Rightarrow> lock_state" where
  "security_state_to_enum st =
     (if st AND 32 \<noteq> 0 then LOCK_STATE_NOT_SUPPORTED
      else if st AND 2 = 0 then LOCK_STATE_DISABLED
      else if st AND 16 \<noteq> 0 then LOCK_STATE_PASSPHRASE_LIMIT
      else if st AND 8 \<noteq> 0 then LOCK_STATE_FROZEN
      else if st AND 4 \<noteq> 0 then LOCK_STATE_LOCKED
      else LOCK_STATE_UNLOCKED)"

definition convert_sku_to_device_capabilities :: "u32 \<Rightarrow> device_capabilities" where
  "convert_sku_to_device_capabilities sku_bits =
     \<lparr>die_sparing_capable = (sku_bits AND 8 \<noteq> 0), memory_mode_capable = (sku_bits AND 1 \<noteq> 0),
      storage_mode_capable = (sku_bits AND 2 \<noteq> 0), app_direct_mode_capable = (sku_bits AND 4 \<noteq> 0)\<rparr>"

definition map_sku_security_capabilities :: "u32 \<Rightarrow> device_security_capabilities" where
  "map_sku_security_capabilities sku =
     (let enc = drop_bit 17 sku AND 1 \<noteq> 0 in
      \<lparr>passphrase_capable = enc, unlock_device_capable = enc,
       erase_overwrite_capable = (sku = 0xAAAA), erase_crypto_capable = enc\<rparr>)"

definition device_is_encryption_enabled :: "lock_state \<Rightarrow> bool" where
  "device_is_encryption_enabled st \<longleftrightarrow> st \<noteq> LOCK_STATE_DISABLED \<and> st \<noteq> LOCK_STATE_UNKNOWN"

definition device_is_erase_capable :: "device_security_capabilities \<Rightarrow> bool" where
  "device_is_erase_capable c \<longleftrightarrow> erase_overwrite_capable c \<or> erase_crypto_capable c"

definition calculate_device_guid ::
  "(bytes \<Rightarrow> bytes option) \<Rightarrow> guid \<Rightarrow> bytes \<Rightarrow> bytes \<Rightarrow> bytes \<Rightarrow> int \<times> guid" where
  "calculate_device_guid digest old mfr mn sn =
     (case guid_hash digest (mfr @ mn @ sn) of
        (r, Some g) \<Rightarrow> if r = 0 then (NVM_ERR_INVALIDPARAMETER, old) else (NVM_SUCCESS, g)
      | (_, None) \<Rightarrow> (NVM_ERR_INVALIDPARAMETER, old))"

section \<open>Manageability\<close>

abbreviation (input) NVM_VERSION_LEN :: nat where "NVM_VERSION_LEN \<equiv> 25"

definition check_driver_revision :: "'hw adapter \<Rightarrow> bytes \<Rightarrow> bool option" where
  "check_driver_revision ad driver_rev = do {
     (r, _) \<leftarrow> parse_main_revision (Some driver_rev) NVM_VERSION_LEN
        \<lparr>rev_major = 0, rev_minor = 0, rev_hotfix = 0, rev_build = 0\<rparr>;
     Some (case (config_value ad ''LNX_DRIVER_MAJOR_MIN'', config_value ad ''LNX_DRIVER_MAJOR_MAX'') of
             (Some lo, Some hi) \<Rightarrow> lo \<le> uint (rev_major r) \<and> uint (rev_major r) \<le> hi
           | _ \<Rightarrow> False)
   }"

text \<open>The major number is computed with the comparison \<^verbatim>\<open>>\<close> in place of a shift. The key of
  the minor number is the string the header defines for it.\<close>

definition check_firmware_revision :: "'hw adapter \<Rightarrow> u8 \<Rightarrow> bool" where
  "check_firmware_revision ad api_ver =
     (let major = (if api_ver > 4 then 1 else 0) :: int;
          minor = uint (api_ver AND 0xF) in
      case (config_value ad ''FW_MAJOR_MIN'', config_value ad ''FW_MAJOR_MAX'') of
        (Some supported_major_min, Some supported_minor_min) \<Rightarrow>
          major > supported_major_min \<or> major = supported_major_min \<and> minor \<ge> supported_minor_min
      | _ \<Rightarrow> False)"

definition set_device_manageability ::
  "'hw adapter \<Rightarrow> bytes \<Rightarrow> u8 \<Rightarrow> u16 \<Rightarrow> manageability_state option" where
  "set_device_manageability ad driver_revision api_ver ifc = do {
     ok \<leftarrow> check_driver_revision ad driver_revision;
     Some (if \<not> ok then MANAGEMENT_INVALIDCONFIG
           else if \<not> check_firmware_revision ad api_ver then MANAGEMENT_INVALIDCONFIG
           else if ifc \<noteq> 769 then MANAGEMENT_INVALIDCONFIG
           else MANAGEMENT_VALIDCONFIG)
   }"

section \<open>Counting devices\<close>

definition get_devices_is_supported ::
  "'hw adapter \<Rightarrow> ('hw, 'det) world \<Rightarrow> (int \<times> ('hw, 'det) world) option" where
  "get_devices_is_supported ad w = do {
     (rc, caps, w) \<leftarrow> on_ctx (get_nvm_context_capabilities (ad_os ad)) w;
     if rc = NVM_SUCCESS \<and> (case caps of None \<Rightarrow> False | Some c \<Rightarrow> get_devices_feature (nvm_features c))
     then Some (NVM_SUCCESS, w)
     else
       let (rc, caps) = driver_capabilities ad (w_hw w) in
       Some (if rc = NVM_SUCCESS \<and> dff_get_topology (drv_features caps) then NVM_SUCCESS
             else NVM_ERR_NOTSUPPORTED, w)
   }"

definition nvm_get_device_count ::
  "'hw adapter \<Rightarrow> ('hw, 'det) world \<Rightarrow> (int \<times> ('hw, 'det) world) option" where
  "nvm_get_device_count ad w =
     (if \<not> permitted ad then Some (NVM_ERR_INVALIDPERMISSIONS, w)
      else do {
        (rc, w) \<leftarrow> get_devices_is_supported ad w;
        if rc \<noteq> NVM_SUCCESS then Some (rc, w)
        else do {
          (rc, _, w) \<leftarrow> on_ctx (get_nvm_context_device_count (ad_os ad)) w;
          if rc < 0 then Some (topology_count ad (w_hw w), w) else Some (rc, w)
        }
      })"

section \<open>Reading devices\<close>

definition zero_discovery :: device_discovery where
  "zero_discovery =
     \<lparr>dev_guid = replicate GUID_LEN 0, manageability = MANAGEMENT_UNKNOWN, device_handle = 0,
      physical_id = 0, vendor_id = 0, device_id = 0, revision_id = 0, channel_pos = 0,
      channel_id = 0, memory_controller_id = 0, dev_socket_id = 0, node_controller_id = 0,
      memory_type = MEMORY_TYPE_UNKNOWN, manufacturer = replicate 2 0, serial_number = replicate 4 0,
      model_number = replicate 21 0, fw_revision = replicate NVM_VERSION_LEN 0,
      fw_api_version = replicate NVM_VERSION_LEN 0, dev_capacity = 0, interface_format_code = 0,
      dev_security_capabilities =
        \<lparr>passphrase_capable = False, unlock_device_capable = False,
         erase_overwrite_capable = False, erase_crypto_capable = False\<rparr>,
      dev_lock_state = LOCK_STATE_UNKNOWN,
      dev_capabilities =
        \<lparr>die_sparing_capable = False, memory_mode_capable = False, storage_mode_capable = False,
         app_direct_mode_capable = False\<rparr>,
      dimm_sku = 0\<rparr>"

text \<open>A byte of the BCD coded firmware revision.\<close>

definition bcd :: "u8 \<Rightarrow> u16" where
  "bcd b = ucast (drop_bit 4 b AND 0xF) * 10 + ucast (b AND 0xF)"

text \<open>\<open>put_prefix\<close> is \<^verbatim>\<open>memmove\<close> to the start of an array.\<close>

definition put_prefix :: "bytes \<Rightarrow> bytes \<Rightarrow> bytes option" where
  "put_prefix src dst = store dst 0 src"

definition handle_part :: "u32 \<Rightarrow> nat \<Rightarrow> nat \<Rightarrow> u16" where
  "handle_part h shift width = ucast (take_bit width (drop_bit shift h))"

text \<open>The discovery data from the identify payload, the topology entry and what the array entry
  held before. The lock state is filled in by the caller.\<close>

definition device_from_identify ::
  "'hw adapter \<Rightarrow> 'hw \<Rightarrow> bytes \<Rightarrow> nvm_topology \<Rightarrow> device_discovery \<Rightarrow> device_discovery option" where
  "device_from_identify ad h id_dimm topo old = do {
     mf \<leftarrow> rd_bytes id_dimm 36 2;
     sn \<leftarrow> rd_bytes id_dimm 38 4;
     mn \<leftarrow> rd_bytes id_dimm 42 20;
     sku \<leftarrow> rd32 id_dimm 62;
     ifc \<leftarrow> rd16 id_dimm 6;
     cap \<leftarrow> rd32 id_dimm 32;
     fwr0 \<leftarrow> rd8 id_dimm 8;
     fwr1 \<leftarrow> rd8 id_dimm 9;
     fwr2 \<leftarrow> rd8 id_dimm 10;
     fwr3 \<leftarrow> rd8 id_dimm 11;
     fwr4 \<leftarrow> rd8 id_dimm 12;
     api_ver \<leftarrow> rd8 id_dimm 13;
     let handle = topo_device_handle topo;
     let default_rev = fit NVM_VERSION_LEN (map of_char ''0.0.0.0'');
     let driver_rev = snd (vendor_driver_revision ad h default_rev);
     manage \<leftarrow> set_device_manageability ad driver_rev api_ver ifc;
     mf' \<leftarrow> put_prefix mf (manufacturer old);
     sn' \<leftarrow> put_prefix sn (serial_number old);
     mn' \<leftarrow> put_prefix mn (model_number old);
     rev \<leftarrow> build_revision (Some (fw_revision old)) NVM_VERSION_LEN (bcd fwr4) (bcd fwr3) (bcd fwr2)
        (ucast (drop_bit 4 fwr1 AND 0xF) * 1000 + ucast (fwr1 AND 0xF) * 100 +
         ucast (drop_bit 4 fwr0 AND 0xF) * 10 + ucast (fwr0 AND 0xF));
     api \<leftarrow> build_fw_revision (Some (fw_api_version old)) NVM_VERSION_LEN
        (ucast (drop_bit 4 api_ver AND 0xF)) (ucast (api_ver AND 0xF));
     rev \<leftarrow> rev;
     api \<leftarrow> api;
     Some (old\<lparr>
       dev_guid := snd (calculate_device_guid (sha1 ad) (dev_guid old) mf mn sn),
       device_handle := handle,
       physical_id := topo_id topo,
       vendor_id := topo_vendor_id topo,
       device_id := topo_device_id topo,
       revision_id := topo_revision_id topo,
       dev_socket_id := handle_part handle 12 4,
       memory_controller_id := handle_part handle 8 4,
       node_controller_id := handle_part handle 16 12,
       channel_id := handle_part handle 4 4,
       channel_pos := handle_part handle 0 4,
       memory_type := MEMORY_TYPE_NVMDIMM,
       manageability := manage,
       dev_security_capabilities := map_sku_security_capabilities sku,
       dev_capabilities := convert_sku_to_device_capabilities sku,
       dimm_sku := sku,
       interface_format_code := ifc,
       manufacturer := mf', serial_number := sn', model_number := mn',
       fw_revision := rev, fw_api_version := api,
       dev_capacity := 4096 * ucast cap\<rparr>)
   }"

definition fw_get_security_state ::
  "'hw adapter \<Rightarrow> u32 \<Rightarrow> ('hw, 'det) world \<Rightarrow> (int \<times> u8 \<times> ('hw, 'det) world) option" where
  "fw_get_security_state ad handle w =
     (let (rc, out, _, w) = ioctl_passthrough_cmd ad
            ((fw_cmd_for handle PT_GET_SEC_INFO 0)\<lparr>cmd_output_payload_size := 8\<rparr>) w in
      do { st \<leftarrow> rd8 out 0; Some (rc, st, w) })"

text \<open>One entry: the lock state is read from the firmware for a manageable device only, and stays
  what it was when that fails.\<close>

definition identify_one ::
  "'hw adapter \<Rightarrow> bytes \<Rightarrow> nvm_topology \<Rightarrow> device_discovery \<Rightarrow> ('hw, 'det) world \<Rightarrow>
   (device_discovery \<times> ('hw, 'det) world) option" where
  "identify_one ad id_dimm topo old w = do {
     d \<leftarrow> device_from_identify ad (w_hw w) id_dimm topo old;
     if manageability d = MANAGEMENT_VALIDCONFIG then do {
       (src, st, w) \<leftarrow> fw_get_security_state ad (topo_device_handle topo) w;
       Some (if src \<noteq> NVM_SUCCESS then d else d\<lparr>dev_lock_state := security_state_to_enum st\<rparr>, w)
     } else Some (d, w)
   }"

text \<open>The loop of \<^verbatim>\<open>nvm_get_devices\<close> over the topology, from entry \<open>i\<close> with \<open>n\<close>
  entries left. It returns the last code, the array, the number of devices read and the world.
  The size test lets \<open>i = count\<close> through, so the entry may lie behind the array; reading a
  topology entry the driver did not fill in has no result either.\<close>

fun identify_devices ::
  "'hw adapter \<Rightarrow> nvm_topology list \<Rightarrow> u8 \<Rightarrow> nat \<Rightarrow> nat \<Rightarrow> int \<Rightarrow> device_discovery list \<Rightarrow> nat \<Rightarrow>
   ('hw, 'det) world \<Rightarrow> (int \<times> device_discovery list \<times> nat \<times> ('hw, 'det) world) option" where
  "identify_devices ad dimm_list count 0 i rc devs copy_count w = Some (rc, devs, copy_count, w)"
| "identify_devices ad dimm_list count (Suc n) i rc devs copy_count w =
     (if i > unat count then Some (NVM_ERR_ARRAYTOOSMALL, devs, copy_count, w)
      else if length dimm_list \<le> i then None
      else
        let topo = dimm_list ! i;
            (rc, id_dimm, _, w) = ioctl_passthrough_cmd ad
              ((fw_cmd_for (topo_device_handle topo) PT_IDENTIFY_DIMM 0)
                 \<lparr>cmd_output_payload_size := 128\<rparr>) w in
        if rc \<noteq> NVM_SUCCESS then Some (rc, devs, copy_count, w)
        else if length devs \<le> i then None
        else do {
          (d, w) \<leftarrow> identify_one ad id_dimm topo (devs ! i) w;
          identify_devices ad dimm_list count n (Suc i) rc (devs[i := d]) (Suc copy_count) w
        })"

text \<open>Whether the context holds devices to copy, in which case the copy first clears the caller's
  array.\<close>

definition ctx_has_devices :: "os_env \<Rightarrow> 'det ctx_state \<Rightarrow> bool" where
  "ctx_has_devices os s \<longleftrightarrow>
     lock_ok os \<and> (case p_context s of None \<Rightarrow> False
                   | Some c \<Rightarrow> device_count c > 0 \<and> p_devices c \<noteq> None)"

definition after_ctx_copy ::
  "bool \<Rightarrow> nat \<Rightarrow> device_discovery list \<Rightarrow> device_discovery list \<Rightarrow> device_discovery list option" where
  "after_ctx_copy cleared count xs devs =
     (if \<not> cleared then Some devs
      else if length devs < count then None
      else Some (xs @ replicate (count - length xs) zero_discovery @ drop count devs))"

text \<open>The part of \<^verbatim>\<open>nvm_get_devices\<close> that asks the driver and refreshes the context.\<close>

definition read_devices ::
  "'hw adapter \<Rightarrow> device_discovery list \<Rightarrow> u8 \<Rightarrow> ('hw, 'det) world \<Rightarrow>
   (int \<times> device_discovery list \<times> ('hw, 'det) world) option" where
  "read_devices ad devs count w =
     (let topo_count = topology_count ad (w_hw w) in
      if topo_count \<le> 0 then Some (topo_count, devs, w)
      else
        let (rc, dimm_list) = topology ad (w_hw w) (of_int topo_count) in
        if \<not> rc > NVM_SUCCESS then Some (rc, devs, w)
        else do {
          (rc, devs, copy_count, w) \<leftarrow>
            identify_devices ad dimm_list count (nat topo_count) 0 rc devs 0 w;
          (_, _, w) \<leftarrow> on_ctx (set_nvm_context_devices (ad_os ad) (take copy_count devs)) w;
          Some (if rc = NVM_SUCCESS then int copy_count else rc, devs, w)
        })"

definition nvm_get_devices ::
  "'hw adapter \<Rightarrow> device_discovery list option \<Rightarrow> u8 \<Rightarrow> ('hw, 'det) world \<Rightarrow>
   (int \<times> device_discovery list option \<times> ('hw, 'det) world) option" where
  "nvm_get_devices ad devices count w =
     (if \<not> permitted ad then Some (NVM_ERR_INVALIDPERMISSIONS, devices, w)
      else do {
        (rc, w) \<leftarrow> get_devices_is_supported ad w;
        if rc \<noteq> NVM_SUCCESS then Some (rc, devices, w)
        else case devices of
          None \<Rightarrow> Some (NVM_ERR_INVALIDPARAMETER, devices, w)
        | Some devs \<Rightarrow> do {
            let cleared = ctx_has_devices (ad_os ad) (w_ctx w);
            (rc, xs, w) \<leftarrow> on_ctx (get_nvm_context_devices (ad_os ad) (uint count)) w;
            devs \<leftarrow> after_ctx_copy cleared (unat count) xs devs;
            if \<not> (rc < 0 \<and> rc \<noteq> NVM_ERR_ARRAYTOOSMALL) then Some (rc, Some devs, w)
            else do {
              (rc, devs, w) \<leftarrow> read_devices ad devs count w;
              Some (rc, Some devs, w)
            }
          }
      })"

section \<open>Lookups\<close>

text \<open>\<^verbatim>\<open>get_devices\<close> assigns the caller's pointer only when there are devices: \<open>None\<close>
  is the unassigned pointer, \<open>Some None\<close> a failed allocation.\<close>

definition get_devices ::
  "'hw adapter \<Rightarrow> ('hw, 'det) world \<Rightarrow> (int \<times> device_discovery list option option \<times> ('hw, 'det) world) option"
where
  "get_devices ad w = do {
     (rc, w) \<leftarrow> nvm_get_device_count ad w;
     if rc > 0 then
       if calloc_ok (ad_os ad) 0 then do {
         (rc, devs, w) \<leftarrow> nvm_get_devices ad (Some (replicate (nat rc) zero_discovery)) (of_int rc) w;
         Some (rc, Some devs, w)
       } else Some (NVM_ERR_NOMEMORY, Some None, w)
     else Some (rc, None, w)
   }"

text \<open>The search the three lookups share: the first of the \<open>dev_count\<close> entries with \<open>P\<close>.\<close>

definition lookup_in ::
  "(device_discovery \<Rightarrow> bool) \<Rightarrow> int \<Rightarrow> device_discovery list option option \<Rightarrow>
   (int \<times> device_discovery option) option" where
  "lookup_in P dev_count devs =
     (if dev_count < 0 then Some (dev_count, None)
      else if dev_count > 0 then do {
        ds \<leftarrow> devs;
        ds \<leftarrow> ds;
        r \<leftarrow> search P ds (nat dev_count) 0;
        Some (case r of None \<Rightarrow> (NVM_ERR_BADDEVICE, None) | Some i \<Rightarrow> (NVM_SUCCESS, Some (ds ! i)))
      }
      else Some (NVM_ERR_BADDEVICE, None))"

definition lookup_dev_guid ::
  "'hw adapter \<Rightarrow> guid option \<Rightarrow> ('hw, 'det) world \<Rightarrow>
   (int \<times> device_discovery option \<times> ('hw, 'det) world) option" where
  "lookup_dev_guid ad guid w =
     (case guid of
        None \<Rightarrow> Some (NVM_ERR_INVALIDPARAMETER, None, w)
      | Some g \<Rightarrow> do {
          (n, devs, w) \<leftarrow> get_devices ad w;
          (rc, d) \<leftarrow> lookup_in (\<lambda>d. guid_match g (dev_guid d)) n devs;
          Some (rc, d, w)
        })"

definition lookup_dev_handle ::
  "'hw adapter \<Rightarrow> u32 \<Rightarrow> ('hw, 'det) world \<Rightarrow>
   (int \<times> device_discovery option \<times> ('hw, 'det) world) option" where
  "lookup_dev_handle ad handle w = do {
     (n, devs, w) \<leftarrow> get_devices ad w;
     (rc, d) \<leftarrow> lookup_in (\<lambda>d. handle = device_handle d) n devs;
     Some (rc, d, w)
   }"

text \<open>This lookup frees the array in every case, also when \<^verbatim>\<open>get_devices\<close> left the pointer
  unassigned.\<close>

definition lookup_dev_manufacturer_serial_model ::
  "'hw adapter \<Rightarrow> bytes \<Rightarrow> bytes \<Rightarrow> bytes \<Rightarrow> ('hw, 'det) world \<Rightarrow>
   (int \<times> device_discovery option \<times> ('hw, 'det) world) option" where
  "lookup_dev_manufacturer_serial_model ad mf sn mn w = do {
     (n, devs, w) \<leftarrow> get_devices ad w;
     (rc, d) \<leftarrow> lookup_in (\<lambda>d.
        cmp_bytes (Some (manufacturer d)) (Some mf) 2 = Some 1 \<and>
        cmp_bytes (Some (serial_number d)) (Some sn) 4 = Some 1 \<and>
        cmp_bytes (Some (model_number d)) (Some mn) 20 = Some 1) n devs;
     if devs = None then None else Some (rc, d, w)
   }"

definition exists_and_manageable ::
  "'hw adapter \<Rightarrow> guid option \<Rightarrow> bool \<Rightarrow> ('hw, 'det) world \<Rightarrow>
   (int \<times> device_discovery option \<times> ('hw, 'det) world) option" where
  "exists_and_manageable ad guid check_manageability w = do {
     (rc, d, w) \<leftarrow> lookup_dev_guid ad guid w;
     if rc = NVM_SUCCESS then do {
       dev \<leftarrow> d;
       Some (if check_manageability \<and> manageability dev \<noteq> MANAGEMENT_VALIDCONFIG
             then NVM_ERR_NOTMANAGEABLE else NVM_SUCCESS, d, w)
     } else Some (rc, d, w)
   }"

definition nvm_get_device_discovery ::
  "'hw adapter \<Rightarrow> guid option \<Rightarrow> bool \<Rightarrow> ('hw, 'det) world \<Rightarrow>
   (int \<times> device_discovery option \<times> ('hw, 'det) world) option" where
  "nvm_get_device_discovery ad guid have_out w =
     (if \<not> permitted ad then Some (NVM_ERR_INVALIDPERMISSIONS, None, w)
      else do {
        (rc, w) \<leftarrow> get_devices_is_supported ad w;
        if rc \<noteq> NVM_SUCCESS then Some (rc, None, w)
        else if guid = None then Some (NVM_ERR_INVALIDPARAMETER, None, w)
        else if \<not> have_out then Some (NVM_ERR_INVALIDPARAMETER, None, w)
        else lookup_dev_guid ad guid w
      })"

section \<open>Reading through the cache\<close>

definition driver_ok :: "'hw adapter \<Rightarrow> bool" where
  "driver_ok ad \<longleftrightarrow>
     (\<forall>h. fst (driver_capabilities ad h) = NVM_SUCCESS \<and>
          dff_get_topology (drv_features (snd (driver_capabilities ad h)))) \<and>
     (\<forall>cmd h. fst (passthrough ad cmd h) \<le> 0) \<and>
     (\<forall>h b. length (snd (vendor_driver_revision ad h b)) = length b)"

lemma on_ctx_fine:
  "on_ctx (with_lock os_fine out0 body) w =
     map_option (\<lambda>(c, rc, out). (rc, out, w\<lparr>w_ctx := \<lparr>p_context = c, lock_held = False\<rparr>\<rparr>))
       (body (p_context (w_ctx w)))"
  by (auto simp: on_ctx_def with_lock_fine split: option.splits prod.splits Option.bind_splits)

lemma supported_fine:
  assumes "ad_os ad = os_fine" "driver_ok ad"
  shows "get_devices_is_supported ad w =
    Some (NVM_SUCCESS, w\<lparr>w_ctx := \<lparr>p_context = p_context (w_ctx w), lock_held = False\<rparr>\<rparr>)"
proof -
  from assms(2) obtain c where "driver_capabilities ad (w_hw w) = (NVM_SUCCESS, c)"
    "dff_get_topology (drv_features c)"
    unfolding driver_ok_def by (metis prod.collapse)
  with assms(1) show ?thesis
    by (auto simp: get_devices_is_supported_def get_nvm_context_capabilities_def on_ctx_fine
        split: option.splits)
qed

lemma security_state_effect:
  "fw_get_security_state ad h w = Some (rc, st, w') \<Longrightarrow> w_ctx w' = w_ctx w"
  by (auto simp: fw_get_security_state_def Let_def bind_eq_Some_conv dest!: ioctl_effect
      split: prod.splits)

lemma identify_one_effect:
  "identify_one ad id_dimm topo old w = Some (d, w') \<Longrightarrow> w_ctx w' = w_ctx w"
  by (auto simp: identify_one_def bind_eq_Some_conv dest: security_state_effect split: if_splits)

lemma identify_devices_code:
  assumes "driver_ok ad" "identify_devices ad dl count n i rc devs cc w = Some (rc', devs', cc', w')"
    "rc \<le> 0 \<or> 0 < n"
  shows "rc' \<le> 0"
  using assms
proof (induction ad dl count n i rc devs cc w arbitrary: rc' devs' cc' w'
    rule: identify_devices.induct)
  case (1 ad dl count i rc devs cc w)
  then show ?case by simp
next
  case (2 ad dl count n i rc devs cc w)
  have le: "fst (ioctl_passthrough_cmd ad cmd w) \<le> 0" for cmd
    using 2(2) by (auto simp: driver_ok_def ioctl_passthrough_cmd_def Let_def split: prod.splits)
      (metis fst_conv)
  obtain rc1 id_dimm lg w1 where io: "ioctl_passthrough_cmd ad
      ((fw_cmd_for (topo_device_handle (dl ! i)) PT_IDENTIFY_DIMM 0)\<lparr>cmd_output_payload_size := 128\<rparr>) w
      = (rc1, id_dimm, lg, w1)" by (metis prod_cases4)
  with le have le1: "rc1 \<le> 0" by (metis fst_conv)
  from 2(3) io le1 show ?case
    by (auto simp: Let_def bind_eq_Some_conv split: if_splits prod.splits dest!: 2(1) [rotated -2] intro: 2(2))
qed

lemma identify_devices_effect:
  assumes "identify_devices ad dl count n i rc devs cc w = Some (rc', devs', cc', w')"
    "cc \<le> length devs" "cc = i"
  shows "length devs' = length devs \<and> cc' \<le> length devs \<and> cc \<le> cc' \<and> w_ctx w' = w_ctx w"
  using assms
proof (induction ad dl count n i rc devs cc w arbitrary: rc' devs' cc' w'
    rule: identify_devices.induct)
  case (1 ad dl count i rc devs cc w)
  then show ?case by simp
next
  case (2 ad dl count n i rc devs cc w)
  show ?case
  proof (cases "i > unat count \<or> length dl \<le> i")
    case True
    with 2(2,3) show ?thesis by (auto split: if_splits)
  next
    case False
    obtain rc1 id_dimm lg w1 where io: "ioctl_passthrough_cmd ad
        ((fw_cmd_for (topo_device_handle (dl ! i)) PT_IDENTIFY_DIMM 0)\<lparr>cmd_output_payload_size := 128\<rparr>) w
        = (rc1, id_dimm, lg, w1)" by (metis prod_cases4)
    note w1 = ioctl_effect [OF io]
    show ?thesis
    proof (cases "rc1 = NVM_SUCCESS")
      case False
      with io 2(2-4) w1 \<open>\<not> (i > unat count \<or> length dl \<le> i)\<close> show ?thesis by auto
    next
      case True
      with io 2(2) False obtain d w2 where
        len: "i < length devs" and d: "identify_one ad id_dimm (dl ! i) (devs ! i) w1 = Some (d, w2)"
        and rec: "identify_devices ad dl count n (Suc i) rc1 (devs[i := d]) (Suc cc) w2 =
          Some (rc', devs', cc', w')"
        by (auto simp: Let_def bind_eq_Some_conv split: if_splits prod.splits)
      have "w_ctx w2 = w_ctx w1" using identify_one_effect [OF d] .
      moreover have "length devs' = length (devs[i := d]) \<and> cc' \<le> length (devs[i := d]) \<and>
          Suc cc \<le> cc' \<and> w_ctx w' = w_ctx w2"
        using False io True len d rec 2(4) by (intro 2(1)) auto
      ultimately show ?thesis using w1 by auto
    qed
  qed
qed

definition cached :: "'det nvm_context option \<Rightarrow> device_discovery list \<Rightarrow> bool" where
  "cached c ds \<longleftrightarrow>
     (\<exists>x es. c = Some x \<and> p_devices x = Some es \<and> device_count x = int (length ds) \<and> ds \<noteq> [] \<and>
        copy_discovery es (length ds) = Some (ds, True))"

lemma cached_read:
  assumes "cached (Some x) ds" "length ds \<le> n"
  shows "get_nvm_context_devices os_fine (int n) \<lparr>p_context = Some x, lock_held = False\<rparr> =
      Some (\<lparr>p_context = Some x, lock_held = False\<rparr>, int (length ds), ds)"
  using assms by (auto simp: cached_def get_nvm_context_devices_def with_lock_fine Let_def)

lemma get_devices_cached:
  assumes os: "ad_os ad = os_fine" and p: "permitted ad" and "driver_ok ad"
    and c: "cached (p_context (w_ctx w)) ds"
    and l: "length ds \<le> unat count" "length buf = unat count"
  shows "\<exists>w'. nvm_get_devices ad (Some buf) count w =
      Some (int (length ds), Some (ds @ replicate (unat count - length ds) zero_discovery), w') \<and>
    w_sent w' = w_sent w \<and> w_hw w' = w_hw w \<and> p_context (w_ctx w') = p_context (w_ctx w)"
proof -
  from c obtain x where x: "p_context (w_ctx w) = Some x" by (auto simp: cached_def)
  let ?s = "\<lparr>p_context = Some x, lock_held = False\<rparr>"
  have rd: "on_ctx (get_nvm_context_devices os_fine (uint count)) (w\<lparr>w_ctx := ?s\<rparr>) =
      Some (int (length ds), ds, w\<lparr>w_ctx := ?s\<rparr>)"
    using cached_read [of x ds "unat count"] c l by (simp add: on_ctx_def x)
  have has: "ctx_has_devices os_fine ?s" using c x by (auto simp: ctx_has_devices_def cached_def os_fine_def)
  show ?thesis
    using supported_fine [OF os \<open>driver_ok ad\<close>, of w] p l
    by (simp add: nvm_get_devices_def x os rd has after_ctx_copy_def)
qed

lemma read_devices_caches:
  assumes "ad_os ad = os_fine" "driver_ok ad" "p_context (w_ctx w) = Some x"
    "read_devices ad buf count w = Some (rc, devs, w')" "0 < rc"
  shows "length devs = length buf \<and> nat rc \<le> length buf \<and>
    cached (p_context (w_ctx w')) (take (nat rc) devs)"
proof -
  let ?n = "topology_count ad (w_hw w)"
  have n: "0 < ?n" using assms(4,5) by (auto simp: read_devices_def Let_def split: if_splits)
  obtain r dl where t: "topology ad (w_hw w) (of_int ?n) = (r, dl)" by fastforce
  from assms(4,5) obtain rc1 cc w1 rcs u where
    i: "identify_devices ad dl count (nat ?n) 0 r buf 0 w = Some (rc1, devs, cc, w1)"
    and s: "on_ctx (set_nvm_context_devices os_fine (take cc devs)) w1 = Some (rcs, u, w')"
    and rc: "rc = (if rc1 = NVM_SUCCESS then int cc else rc1)"
    using n t assms(1) by (auto simp: read_devices_def bind_eq_Some_conv split: if_splits)
  have "rc1 \<le> 0" using identify_devices_code [OF assms(2) i] n by simp
  with rc assms(5) have cc: "rc = int cc" "0 < cc" by (auto split: if_splits)
  have e: "length devs = length buf" "cc \<le> length buf" "w_ctx w1 = w_ctx w"
    using identify_devices_effect [OF i] by auto
  let ?ds = "take cc devs"
  let ?x = "free_device_list x\<lparr>p_devices := Some (map device_entry ?ds),
    device_count := int (length ?ds)\<rparr>"
  have "w_ctx w' = \<lparr>p_context = Some ?x, lock_held = False\<rparr>"
    using s e(3) assms(3)
    by (auto simp: on_ctx_def set_nvm_context_devices_def with_lock_fine Let_def fill_devices_ok
        os_fine_def with_lock_def)
  moreover have "?ds \<noteq> []" using cc e by auto
  ultimately show ?thesis
    using cc e by (auto simp: cached_def copy_discovery_entries)
qed

lemma copy_discovery_length:
  "copy_discovery es n = Some (xs, ok) \<Longrightarrow> length xs \<le> n \<and> (ok \<longrightarrow> length xs = n)"
  by (induction es n arbitrary: xs ok rule: copy_discovery.induct)
    (auto simp: bind_eq_Some_conv split: option.splits)

lemma context_copy:
  assumes "get_nvm_context_devices os_fine (uint count) \<lparr>p_context = Some x, lock_held = False\<rparr> =
      Some (s, rc, xs)"
  shows "(\<exists>y. p_context s = Some y) \<and> length xs \<le> unat count \<and>
    (0 < rc \<longrightarrow> cached (Some x) xs \<and> p_context s = Some x \<and> rc = int (length xs))"
proof (cases "\<exists>es. p_devices x = Some es \<and> 0 < device_count x")
  case True
  then obtain es where es: "p_devices x = Some es" "0 < device_count x" by blast
  let ?n = "nat (if uint count > device_count x then device_count x else uint count)"
  from assms es obtain ok where cp: "copy_discovery es ?n = Some (xs, ok)"
    by (auto simp: get_nvm_context_devices_def with_lock_fine Let_def bind_eq_Some_conv
        simp del: copy_discovery.simps split: if_splits)
  have "length xs \<le> unat count"
  proof -
    have "?n \<le> nat (uint count)" by (intro nat_mono) auto
    with copy_discovery_length [OF cp] show ?thesis unfolding nat_uint_eq by linarith
  qed
  moreover have "0 < rc \<Longrightarrow> ok \<and> \<not> uint count < device_count x \<and> rc = device_count x"
    using assms es cp by (auto simp: get_nvm_context_devices_def with_lock_fine Let_def split: if_splits)
  moreover have "unat count = 0 \<Longrightarrow> uint count = 0" by (simp add: unat_eq_zero)
  ultimately show ?thesis
    using assms es cp copy_discovery_length [OF cp]
    by (auto simp: get_nvm_context_devices_def with_lock_fine Let_def cached_def split: if_splits)
next
  case False
  with assms show ?thesis
    by (auto simp: get_nvm_context_devices_def with_lock_fine split: option.splits)
qed

lemma nvm_get_devices_bind:
  assumes "ad_os ad = os_fine" "permitted ad" "driver_ok ad" "p_context (w_ctx w) = Some x"
    "on_ctx (get_nvm_context_devices os_fine (uint count))
       (w\<lparr>w_ctx := \<lparr>p_context = Some x, lock_held = False\<rparr>\<rparr>) = Some (rc1, xs, w1)"
    "after_ctx_copy (ctx_has_devices os_fine \<lparr>p_context = Some x, lock_held = False\<rparr>)
       (unat count) xs buf = Some devs1"
  shows "nvm_get_devices ad (Some buf) count w =
    (if \<not> (rc1 < 0 \<and> rc1 \<noteq> NVM_ERR_ARRAYTOOSMALL) then Some (rc1, Some devs1, w1)
     else do { (rc, devs, w) \<leftarrow> read_devices ad devs1 count w1; Some (rc, Some devs, w) })"
  using supported_fine [OF assms(1,3), of w] assms(2,4-6)
  by (simp add: nvm_get_devices_def assms(1))

lemma after_ctx_copy_length:
  assumes "after_ctx_copy cl n xs buf = Some devs" "length buf = n" "length xs \<le> n"
  shows "length devs = n \<and> (cl \<longrightarrow> take (length xs) devs = xs)"
  using assms by (auto simp: after_ctx_copy_def split: if_splits)

lemma get_devices_caches:
  assumes os: "ad_os ad = os_fine" and p: "permitted ad" and ok: "driver_ok ad"
    and c: "p_context (w_ctx w) = Some x" and l: "length buf = unat count"
    and g: "nvm_get_devices ad (Some buf) count w = Some (rc, Some devs, w')" and pos: "0 < rc"
  shows "cached (p_context (w_ctx w')) (take (nat rc) devs) \<and> nat rc \<le> length devs"
proof -
  let ?s = "\<lparr>p_context = Some x, lock_held = False\<rparr>"
  obtain s rc1 xs where cx: "get_nvm_context_devices os_fine (uint count) ?s = Some (s, rc1, xs)"
  proof (cases "get_nvm_context_devices os_fine (uint count) ?s")
    case None
    then have False
      using g supported_fine [OF os ok, of w] p os c by (simp add: nvm_get_devices_def on_ctx_def)
    then show thesis ..
  qed (metis prod_cases3 that)
  note cp = context_copy [OF cx]
  have d: "on_ctx (get_nvm_context_devices os_fine (uint count)) (w\<lparr>w_ctx := ?s\<rparr>) =
      Some (rc1, xs, w\<lparr>w_ctx := s\<rparr>)" by (simp add: on_ctx_def cx)
  obtain devs1 where a: "after_ctx_copy (ctx_has_devices os_fine ?s) (unat count) xs buf = Some devs1"
    using l by (cases "ctx_has_devices os_fine ?s") (simp_all add: after_ctx_copy_def)
  note al = after_ctx_copy_length [OF a l]
  note res = g [unfolded nvm_get_devices_bind [OF os p ok c d a]]
  show ?thesis
  proof (cases "rc1 < 0 \<and> rc1 \<noteq> NVM_ERR_ARRAYTOOSMALL")
    case False
    with res have r: "rc1 = rc" "devs1 = devs" "w' = w\<lparr>w_ctx := s\<rparr>" by auto
    with cp pos have k: "cached (Some x) xs" "p_context s = Some x" "rc = int (length xs)" by auto
    then have "ctx_has_devices os_fine ?s"
      by (auto simp: cached_def ctx_has_devices_def os_fine_def)
    with al cp k r show ?thesis by auto
  next
    case True
    with res have rd: "read_devices ad devs1 count (w\<lparr>w_ctx := s\<rparr>) = Some (rc, devs, w')"
      by (auto simp: bind_eq_Some_conv)
    from cp obtain y where "p_context (w_ctx (w\<lparr>w_ctx := s\<rparr>)) = Some y" by auto
    from read_devices_caches [OF os ok this rd pos] show ?thesis by simp
  qed
qed

lemma search_find:
  "(case search P xs (length xs) 0 of None \<Rightarrow> False | Some None \<Rightarrow> find P xs = None
    | Some (Some i) \<Rightarrow> find P xs = Some (xs ! i))"
proof -
  obtain r where r: "search P xs (length xs) 0 = Some r" using search_ex by blast
  show ?thesis
  proof (cases r)
    case None
    with r search_Some_None [of P xs 0] show ?thesis by (simp add: find_None_iff)
  next
    case (Some i)
    with r search_Some_Some [of P xs i] show ?thesis by (auto simp: find_Some_iff)
  qed
qed

lemma lookup_in_find:
  assumes "ds \<noteq> []"
  shows "lookup_in P (int (length ds)) (Some (Some ds)) =
    Some (case find P ds of None \<Rightarrow> (NVM_ERR_BADDEVICE, None) | Some d \<Rightarrow> (NVM_SUCCESS, Some d))"
  using assms search_find [of P ds] by (auto simp: lookup_in_def split: option.splits)

lemma device_count_cached:
  assumes "ad_os ad = os_fine" "permitted ad" "driver_ok ad" "cached (p_context (w_ctx w)) ds"
  shows "nvm_get_device_count ad w =
    Some (int (length ds), w\<lparr>w_ctx := \<lparr>p_context = p_context (w_ctx w), lock_held = False\<rparr>\<rparr>)"
  using assms supported_fine [OF assms(1,3), of w]
  by (auto simp: nvm_get_device_count_def get_nvm_context_device_count_def on_ctx_fine cached_def)

lemma get_devices_from_cache:
  assumes "ad_os ad = os_fine" "permitted ad" "driver_ok ad" "cached (p_context (w_ctx w)) ds"
    "length ds < 256"
  shows "\<exists>w'. get_devices ad w = Some (int (length ds), Some (Some ds), w') \<and>
    w_sent w' = w_sent w \<and> w_hw w' = w_hw w \<and> p_context (w_ctx w') = p_context (w_ctx w)"
proof -
  let ?w = "w\<lparr>w_ctx := \<lparr>p_context = p_context (w_ctx w), lock_held = False\<rparr>\<rparr>"
  let ?n = "of_int (int (length ds)) :: u8"
  have n: "unat ?n = length ds" using assms(5) by (simp add: unat_of_nat)
  have c: "cached (p_context (w_ctx ?w)) ds" using assms(4) by simp
  have "0 < length ds" using assms(4) by (auto simp: cached_def)
  then show ?thesis
    using get_devices_cached [OF assms(1-3) c, of ?n "replicate (length ds) zero_discovery"]
      device_count_cached [OF assms(1-4)] n assms(1)
    by (auto simp: get_devices_def os_fine_def)
qed

lemma lookup_warm:
  assumes "ad_os ad = os_fine" "permitted ad" "driver_ok ad" "cached (p_context (w_ctx w)) ds"
    and "length ds < 256" and "length g = GUID_LEN" and "\<forall>d \<in> set ds. length (dev_guid d) = GUID_LEN"
  shows "\<exists>w'. lookup_dev_guid ad (Some g) w =
      Some (case find (\<lambda>d. dev_guid d = g) ds of
              None \<Rightarrow> (NVM_ERR_BADDEVICE, None, w') | Some d \<Rightarrow> (NVM_SUCCESS, Some d, w')) \<and>
    w_sent w' = w_sent w \<and> p_context (w_ctx w') = p_context (w_ctx w)"
proof -
  from get_devices_from_cache [OF assms(1-5)] obtain w' where
    w': "get_devices ad w = Some (int (length ds), Some (Some ds), w')" "w_sent w' = w_sent w"
      "p_context (w_ctx w') = p_context (w_ctx w)" by blast
  have "find (\<lambda>d. guid_match g (dev_guid d)) ds = find (\<lambda>d. dev_guid d = g) ds"
    using assms(6,7) by (intro find_cong) auto
  moreover have "ds \<noteq> []" using assms(4) by (auto simp: cached_def)
  ultimately have "lookup_in (\<lambda>d. guid_match g (dev_guid d)) (int (length ds)) (Some (Some ds)) =
    Some (case find (\<lambda>d. dev_guid d = g) ds of None \<Rightarrow> (NVM_ERR_BADDEVICE, None)
      | Some d \<Rightarrow> (NVM_SUCCESS, Some d))" by (simp add: lookup_in_find)
  with w' show ?thesis by (auto simp: lookup_dev_guid_def split: option.splits)
qed

section \<open>The identify loop\<close>

lemma identify_overrun:
  fixes w :: "('hw, 'det) world"
  assumes "\<And>cmd h. fst (passthrough ad cmd h) = NVM_SUCCESS" "length devs = unat count"
    "i \<le> unat count" "unat count < n + i" "unat count < length dl"
  shows "identify_devices ad dl count n i rc devs cc w = None"
  using assms(2-)
proof (induction n arbitrary: i rc devs cc w)
  case 0
  then show ?case by simp
next
  case (Suc n)
  obtain rc1 id_dimm lg w1 where io: "ioctl_passthrough_cmd ad
      ((fw_cmd_for (topo_device_handle (dl ! i)) PT_IDENTIFY_DIMM 0)\<lparr>cmd_output_payload_size := 128\<rparr>) w
      = (rc1, id_dimm, lg, w1)" by (metis prod_cases4)
  with assms(1) have rc1: "rc1 = NVM_SUCCESS"
    by (auto simp: ioctl_passthrough_cmd_def Let_def split: prod.splits) (metis fst_conv)
  show ?case
  proof (cases "i = unat count")
    case True
    with io rc1 Suc.prems show ?thesis by (simp add: Let_def)
  next
    case False
    have "identify_devices ad dl count n (Suc i) rc1 (devs[i := d]) (Suc cc) w2 = None"
      for d and w2 :: "('hw, 'det) world"
      using Suc.prems False by (intro Suc.IH) auto
    with io rc1 Suc.prems False show ?thesis
      by (auto simp: Let_def bind_eq_None_conv split: prod.splits)
  qed
qed

definition wf_discovery :: "device_discovery \<Rightarrow> bool" where
  "wf_discovery d \<longleftrightarrow>
     length (manufacturer d) = 2 \<and> length (serial_number d) = 4 \<and> length (model_number d) = 21 \<and>
     length (fw_revision d) = NVM_VERSION_LEN \<and> length (fw_api_version d) = NVM_VERSION_LEN"

lemma wf_zero_discovery: "wf_discovery zero_discovery"
  by (simp add: wf_discovery_def zero_discovery_def)

lemma rd_defined:
  "off + 1 \<le> length b \<Longrightarrow> \<exists>v. rd8 b off = Some v" "off + 2 \<le> length b \<Longrightarrow> \<exists>v. rd16 b off = Some v"
  "off + 4 \<le> length b \<Longrightarrow> \<exists>v. rd32 b off = Some v"
  by (simp_all add: rd8_def rd16_def rd32_def load_def)

lemma device_manageability_defined:
  assumes "driver_ok ad"
  shows "\<exists>m. set_device_manageability ad
    (snd (vendor_driver_revision ad h (fit NVM_VERSION_LEN t))) v ifc = Some m"
proof -
  have "NVM_VERSION_LEN \<le> length (snd (vendor_driver_revision ad h (fit NVM_VERSION_LEN t)))"
    using assms by (simp add: driver_ok_def)
  from parse_main_revision_defined [OF this] obtain r ok where
    "parse_main_revision (Some (snd (vendor_driver_revision ad h (fit NVM_VERSION_LEN t)))) NVM_VERSION_LEN
      \<lparr>rev_major = 0, rev_minor = 0, rev_hotfix = 0, rev_build = 0\<rparr> = Some (r, ok)" by fastforce
  then show ?thesis by (simp add: set_device_manageability_def check_driver_revision_def)
qed

lemma device_from_identify_defined:
  assumes "driver_ok ad" "length id_dimm = 128" "wf_discovery old"
  shows "\<exists>d. device_from_identify ad h id_dimm topo old = Some d \<and> wf_discovery d \<and>
    device_handle d = topo_device_handle topo"
proof -
  have b: "\<exists>v. rd_bytes id_dimm 36 2 = Some v \<and> length v = 2"
    "\<exists>v. rd_bytes id_dimm 38 4 = Some v \<and> length v = 4"
    "\<exists>v. rd_bytes id_dimm 42 20 = Some v \<and> length v = 20"
    using assms(2) by (simp_all add: rd_bytes_def)
  have r: "\<exists>v. rd32 id_dimm 62 = Some v" "\<exists>v. rd16 id_dimm 6 = Some v"
    "\<exists>v. rd32 id_dimm 32 = Some v" "\<exists>v. rd8 id_dimm 8 = Some v" "\<exists>v. rd8 id_dimm 9 = Some v"
    "\<exists>v. rd8 id_dimm 10 = Some v" "\<exists>v. rd8 id_dimm 11 = Some v" "\<exists>v. rd8 id_dimm 12 = Some v"
    "\<exists>v. rd8 id_dimm 13 = Some v"
    by (rule rd_defined; simp add: assms(2))+
  have p: "\<exists>b'. put_prefix src dst = Some b' \<and> length b' = length dst"
    if "length src \<le> length dst" for src dst
    using that by (auto simp: put_prefix_def store_def)
  have v: "NVM_VERSION_LEN \<le> length (fw_revision old)" "NVM_VERSION_LEN \<le> length (fw_api_version old)"
    using assms(3) by (simp_all add: wf_discovery_def)
  from b obtain mf sn mn where mf: "rd_bytes id_dimm 36 2 = Some mf" "length mf = 2"
    and sn: "rd_bytes id_dimm 38 4 = Some sn" "length sn = 4"
    and mn: "rd_bytes id_dimm 42 20 = Some mn" "length mn = 20" by blast
  from r obtain sku ifc cap f0 f1 f2 f3 f4 api where
    r': "rd32 id_dimm 62 = Some sku" "rd16 id_dimm 6 = Some ifc" "rd32 id_dimm 32 = Some cap"
      "rd8 id_dimm 8 = Some f0" "rd8 id_dimm 9 = Some f1" "rd8 id_dimm 10 = Some f2"
      "rd8 id_dimm 11 = Some f3" "rd8 id_dimm 12 = Some f4" "rd8 id_dimm 13 = Some api" by blast
  obtain mf' where mf': "put_prefix mf (manufacturer old) = Some mf'" "length mf' = 2"
    using p [of mf "manufacturer old"] mf assms(3) by (auto simp: wf_discovery_def)
  obtain sn' where sn': "put_prefix sn (serial_number old) = Some sn'" "length sn' = 4"
    using p [of sn "serial_number old"] sn assms(3) by (auto simp: wf_discovery_def)
  obtain mn' where mn': "put_prefix mn (model_number old) = Some mn'" "length mn' = 21"
    using p [of mn "model_number old"] mn assms(3) by (auto simp: wf_discovery_def)
  obtain m where m: "set_device_manageability ad (snd (vendor_driver_revision ad h
      (fit NVM_VERSION_LEN (map of_char ''0.0.0.0'')))) api ifc = Some m"
    using device_manageability_defined [OF assms(1)] by blast
  obtain rev where rev: "build_revision (Some (fw_revision old)) NVM_VERSION_LEN (bcd f4) (bcd f3)
      (bcd f2) (ucast (drop_bit 4 f1 AND 0xF) * 1000 + ucast (f1 AND 0xF) * 100 +
         ucast (drop_bit 4 f0 AND 0xF) * 10 + ucast (f0 AND 0xF)) = Some (Some rev)"
      "length rev = NVM_VERSION_LEN"
    using build_revision_defined(1) [OF v(1)] assms(3) unfolding wf_discovery_def by metis
  obtain fapi where fapi: "build_fw_revision (Some (fw_api_version old)) NVM_VERSION_LEN
        (ucast (drop_bit 4 api AND 0xF)) (ucast (api AND 0xF)) = Some (Some fapi)"
      "length fapi = NVM_VERSION_LEN"
    using build_revision_defined(2) [OF v(2)] assms(3) unfolding wf_discovery_def by metis
  show ?thesis
    unfolding device_from_identify_def Let_def mf sn mn r' m mf' sn' mn' rev fapi Option.bind.bind_lunit
    using mf' sn' mn' rev fapi by (simp add: wf_discovery_def)
qed

lemma identify_one_defined:
  assumes "driver_ok ad" "length id_dimm = 128" "wf_discovery old"
  shows "\<exists>d w'. identify_one ad id_dimm topo old w = Some (d, w') \<and> wf_discovery d \<and>
    device_handle d = topo_device_handle topo"
proof -
  obtain d where d: "device_from_identify ad (w_hw w) id_dimm topo old = Some d" "wf_discovery d"
    "device_handle d = topo_device_handle topo"
    using device_from_identify_defined [OF assms] by blast
  obtain rc out lg w1 where io: "ioctl_passthrough_cmd ad
      ((fw_cmd_for (topo_device_handle topo) PT_GET_SEC_INFO 0)\<lparr>cmd_output_payload_size := 8\<rparr>) w =
      (rc, out, lg, w1)" by (metis prod_cases4)
  then have "length out = 8" using ioctl_effect by fastforce
  then obtain st where "rd8 out 0 = Some st" using rd_defined(1) [of 0 out] by auto
  with io have "fw_get_security_state ad (topo_device_handle topo) w = Some (rc, st, w1)"
    by (simp add: fw_get_security_state_def)
  with d show ?thesis by (auto simp: identify_one_def wf_discovery_def)
qed

lemma identify_all:
  fixes w :: "('hw, 'det) world"
  assumes "driver_ok ad" "\<And>cmd h. fst (passthrough ad cmd h) = NVM_SUCCESS"
    "length devs = unat count" "i + n \<le> unat count" "i + n \<le> length dl" "list_all wf_discovery devs"
  shows "\<exists>devs' w'. identify_devices ad dl count n i rc devs cc w =
      Some (if n = 0 then rc else NVM_SUCCESS, devs', cc + n, w') \<and>
    length devs' = unat count \<and> list_all wf_discovery devs' \<and> take i devs' = take i devs \<and>
    map device_handle (take n (drop i devs')) = map topo_device_handle (take n (drop i dl))"
  using assms(3-)
proof (induction n arbitrary: i rc devs cc w)
  case 0
  then show ?case by simp
next
  case (Suc n)
  obtain rc1 id_dimm lg w1 where io: "ioctl_passthrough_cmd ad
      ((fw_cmd_for (topo_device_handle (dl ! i)) PT_IDENTIFY_DIMM 0)\<lparr>cmd_output_payload_size := 128\<rparr>) w
      = (rc1, id_dimm, lg, w1)" by (metis prod_cases4)
  have rc1: "rc1 = NVM_SUCCESS"
    using io assms(2) by (auto simp: ioctl_passthrough_cmd_def Let_def split: prod.splits)
      (metis fst_conv)
  have len: "length id_dimm = 128" using ioctl_effect [OF io] by simp
  have "wf_discovery (devs ! i)" using Suc.prems by (auto simp: list_all_length)
  from identify_one_defined [OF assms(1) len this, of "dl ! i" w1] obtain d w2 where
    d: "identify_one ad id_dimm (dl ! i) (devs ! i) w1 = Some (d, w2)" "wf_discovery d"
      "device_handle d = topo_device_handle (dl ! i)" by blast
  let ?ds = "devs[i := d]"
  have "list_all wf_discovery ?ds" using Suc.prems d(2) by (auto simp: list_all_length nth_list_update)
  with Suc.IH [of ?ds "Suc i" rc1 "Suc cc" w2] Suc.prems obtain devs' w' where
    r: "identify_devices ad dl count n (Suc i) rc1 ?ds (Suc cc) w2 =
        Some (if n = 0 then rc1 else NVM_SUCCESS, devs', Suc cc + n, w')"
      "length devs' = unat count" "list_all wf_discovery devs'" "take (Suc i) devs' = take (Suc i) ?ds"
      "map device_handle (take n (drop (Suc i) devs')) = map topo_device_handle (take n (drop (Suc i) dl))"
    by auto
  have i: "i < length devs'" "i < length dl" "i < length devs" using Suc.prems r(2) by auto
  have "devs' ! i = d"
    using r(4) i by (metis lessI nth_list_update_eq nth_take)
  moreover have "take i devs' = take i devs"
    using r(4) by (metis lessI less_imp_le min.absorb1 take_take take_update_cancel order_refl)
  ultimately show ?case
    using io rc1 d r i Suc.prems
    by (simp add: Let_def Cons_nth_drop_Suc [symmetric])
qed

lemma cold_read:
  assumes "ad_os ad = os_fine" "permitted ad" "driver_ok ad" "p_context (w_ctx w) = Some x"
    and "p_devices x = None" and "length buf = unat count" and "list_all wf_discovery buf"
    and "topology_count ad (w_hw w) = int n" and "0 < n" and "n \<le> unat count"
    and "topology ad (w_hw w) (of_nat n) = (rc, dl)" and "0 < rc" and "length dl = n"
    and "\<And>cmd h. fst (passthrough ad cmd h) = NVM_SUCCESS"
  shows "\<exists>devs w'. nvm_get_devices ad (Some buf) count w = Some (int n, Some devs, w') \<and>
    length devs = unat count \<and> map device_handle (take n devs) = map topo_device_handle dl"
proof -
  let ?s = "\<lparr>p_context = Some x, lock_held = False\<rparr>"
  let ?w = "w\<lparr>w_ctx := ?s\<rparr>"
  have d: "on_ctx (get_nvm_context_devices os_fine (uint count)) ?w = Some (NVM_ERR_UNKNOWN, [], ?w)"
    using assms(5) by (simp add: on_ctx_fine get_nvm_context_devices_def)
  have a: "after_ctx_copy (ctx_has_devices os_fine ?s) (unat count) [] buf = Some buf"
    using assms(5) by (simp add: after_ctx_copy_def ctx_has_devices_def)
  from identify_all [OF assms(3,14,6), of 0 n dl rc 0 ?w] assms(7,10,13) obtain devs w1 where
    i: "identify_devices ad dl count n 0 rc buf 0 ?w =
        Some (if n = 0 then rc else NVM_SUCCESS, devs, n, w1)"
      "length devs = unat count" "map device_handle (take n devs) = map topo_device_handle dl"
    by auto
  have i1: "identify_devices ad dl count n 0 rc buf 0 ?w = Some (NVM_SUCCESS, devs, n, w1)"
    using i(1) assms(9) by simp
  obtain y where "p_context (w_ctx w1) = Some y"
    using identify_devices_effect [OF i1] by simp
  then obtain w2 where "on_ctx (set_nvm_context_devices os_fine (take n devs)) w1 = Some (NVM_SUCCESS, (), w2)"
    by (auto simp: on_ctx_def set_nvm_context_devices_def with_lock_fine Let_def fill_devices_ok
        os_fine_def with_lock_def)
  then show ?thesis
    using nvm_get_devices_bind [OF assms(1-4) d a] i1 i assms(1,8,9,11,12)
    by (simp add: read_devices_def)
qed

lemma bit_handle_part:
  assumes "width \<le> 16"
  shows "bit (push_bit shift (ucast (handle_part h shift width)) :: u32) n \<longleftrightarrow>
    shift \<le> n \<and> n < shift + width \<and> bit h n"
proof (cases "n < 32 \<and> shift \<le> n")
  case True
  then have n: "shift + (n - shift) = n" "n < shift + width \<longleftrightarrow> n - shift < width" by linarith+
  have "n - shift < width \<Longrightarrow> n - shift < 16" using assms by linarith
  with True n show ?thesis
    by (simp add: handle_part_def bit_push_bit_iff bit_unsigned_iff bit_take_bit_iff bit_drop_bit_eq)
      blast
next
  case False
  then show ?thesis by (auto simp: bit_push_bit_iff dest: bit_imp_le_length)
qed

lemma handle_parts:
  "push_bit 16 (ucast (handle_part h 16 12)) OR push_bit 12 (ucast (handle_part h 12 4)) OR
   push_bit 8 (ucast (handle_part h 8 4)) OR push_bit 4 (ucast (handle_part h 4 4)) OR
   push_bit 0 (ucast (handle_part h 0 4)) = (h AND mask 28 :: u32)" (is "?a OR ?b OR ?c OR ?d OR ?e = _")
proof (rule bit_word_eqI)
  fix n assume n: "n < LENGTH(32)"
  have "bit ?a n = (16 \<le> n \<and> n < 28 \<and> bit h n)" "bit ?b n = (12 \<le> n \<and> n < 16 \<and> bit h n)"
    "bit ?c n = (8 \<le> n \<and> n < 12 \<and> bit h n)" "bit ?d n = (4 \<le> n \<and> n < 8 \<and> bit h n)"
    "bit ?e n = (0 \<le> n \<and> n < 4 \<and> bit h n)"
    using bit_handle_part [of 12 16 h n] bit_handle_part [of 4 12 h n] bit_handle_part [of 4 8 h n]
      bit_handle_part [of 4 4 h n] bit_handle_part [of 4 0 h n] by simp_all
  moreover have "bit (h AND mask 28) n = (bit h n \<and> n < 28)" using n by (simp add: bit_and_iff bit_mask_iff)
  ultimately show "bit (?a OR ?b OR ?c OR ?d OR ?e) n = bit (h AND mask 28) n"
    unfolding bit_or_iff
    by (cases "n < 4"; cases "n < 8"; cases "n < 12"; cases "n < 16"; cases "n < 28")
      (simp_all only: linorder_not_less not_le, simp_all)
qed

section \<open>A sample platform\<close>

text \<open>Two devices behind a driver that answers every command with zeros, except the interface code
  and the version of the identify payload.\<close>

definition sample_caps :: nvm_driver_capabilities where
  "sample_caps =
     \<lparr>drv_block_sizes = [], drv_num_block_sizes = 0, drv_min_namespace_size = 0,
      drv_features =
       \<lparr>dff_get_platform_capabilities = True, dff_get_topology = True, dff_get_interleave = True,
        dff_get_dimm_detail = True, dff_get_namespaces = True, dff_get_namespace_detail = True,
        dff_get_address_scrub_data = True, dff_create_namespace = True, dff_rename_namespace = True,
        dff_grow_namespace = True, dff_shrink_namespace = True, dff_delete_namespace = True,
        dff_enable_namespace = True, dff_disable_namespace = True, dff_run_diagnostic = True,
        dff_passthrough = True, dff_app_direct_mode = True, dff_storage_mode = True\<rparr>\<rparr>"

definition sample_topology :: "u32 \<Rightarrow> nvm_topology" where
  "sample_topology h =
     \<lparr>topo_device_handle = h, topo_id = ucast h, topo_vendor_id = 0x8086, topo_device_id = 0x2017,
      topo_revision_id = 0\<rparr>"

definition no_namespace :: nvm_namespace_details where
  "no_namespace =
     \<lparr>nnd_discovery = \<lparr>namespace_guid = replicate GUID_LEN 0, nsd_friendly_name = []\<rparr>,
      nnd_block_size = 0, nnd_block_count = 0, nnd_type = NAMESPACE_TYPE_UNKNOWN,
      nnd_health = NAMESPACE_HEALTH_UNKNOWN, nnd_enabled = NAMESPACE_ENABLE_STATE_UNKNOWN,
      nnd_btt = False, nnd_creation_id = 0\<rparr>"

definition empty_ns_driver :: "'hw ns_driver" where
  "empty_ns_driver =
     \<lparr>ad_interleave_set_count = (\<lambda>_. 0), ad_interleave_sets = (\<lambda>_ _. (0, [])),
      ad_storage_capacities = (\<lambda>_ _. (0, [])), ad_namespace_count = (\<lambda>_. 0),
      ad_namespaces = (\<lambda>_ _. (0, [])),
      ad_namespace_details = (\<lambda>_ _. (NVM_ERR_NOTFOUND, no_namespace)),
      ad_create_namespace = (\<lambda>g _ h. (NVM_ERR_NOTSUPPORTED, g, h)),
      ad_delete_namespace = (\<lambda>_ h. (NVM_ERR_NOTSUPPORTED, h)),
      ad_modify_namespace_name = (\<lambda>_ _ h. (NVM_ERR_NOTSUPPORTED, h)),
      ad_modify_namespace_block_count = (\<lambda>_ _ h. (NVM_ERR_NOTSUPPORTED, h)),
      ad_modify_namespace_enabled = (\<lambda>_ _ h. (NVM_ERR_NOTSUPPORTED, h)),
      ad_host_name = (\<lambda>_. (0, ''host''))\<rparr>"

text \<open>An adapter with two modules and the given firmware.\<close>

definition adapter_with :: "(fw_cmd \<Rightarrow> 'hw \<Rightarrow> int \<times> bytes \<times> bytes \<times> 'hw) \<Rightarrow> 'hw adapter" where
  "adapter_with pt =
     \<lparr>ad_os = os_fine, permitted = True, driver_capabilities = (\<lambda>_. (0, sample_caps)),
      topology_count = (\<lambda>_. 2),
      topology = (\<lambda>_ _. (2, [sample_topology 0x1001, sample_topology 0x1101])),
      passthrough = pt,
      platform_table = (\<lambda>_ _. (0, [])),
      vendor_driver_revision = (\<lambda>_ b. (0, b)),
      config_value = (\<lambda>k. if k = ''LNX_DRIVER_MAJOR_MAX'' then Some 9 else Some 0),
      sha1 = (\<lambda>_. None), ns_driver = empty_ns_driver\<rparr>"

lemma adapter_with_simps [simp]:
  "ad_os (adapter_with pt) = os_fine" "permitted (adapter_with pt)"
  "passthrough (adapter_with pt) = pt"
  by (simp_all add: adapter_with_def)

lemma adapter_with_driver_ok:
  "(\<And>cmd h. fst (pt cmd h) \<le> 0) \<Longrightarrow> driver_ok (adapter_with pt)"
  by (simp add: driver_ok_def adapter_with_def sample_caps_def)

definition sample_adapter :: "unit adapter" where
  "sample_adapter =
     adapter_with (\<lambda>cmd h. (0, [0, 0, 0, 0, 0, 0, 1, 3, 1, 0, 2, 3, 1, 0x12], [], h))"

definition sample_world :: "(unit, nat) world" where
  "sample_world = \<lparr>w_ctx = created_state, w_hw = (), w_sent = [], w_events = []\<rparr>"

lemma sample_driver_ok: "driver_ok sample_adapter"
  by (simp add: sample_adapter_def adapter_with_driver_ok)

lemma sample_sizes:
  "ad_os sample_adapter = os_fine" "permitted sample_adapter"
  "p_context (w_ctx sample_world) = Some fresh_context" "p_devices (fresh_context :: nat nvm_context) = None"
  "topology_count sample_adapter h = 2"
  "topology sample_adapter h k = (2, [sample_topology 0x1001, sample_topology 0x1101])"
  "fst (passthrough sample_adapter cmd h) = 0"
  by (simp_all add: sample_adapter_def adapter_with_def sample_world_def created_state_def fresh_context_def)

lemma sample_cold_read:
  "\<exists>devs w. nvm_get_devices sample_adapter (Some [zero_discovery, zero_discovery]) 2 sample_world =
      Some (2, Some devs, w) \<and> length devs = 2"
  using cold_read [of sample_adapter sample_world fresh_context "[zero_discovery, zero_discovery]" 2 2
      2 "[sample_topology 0x1001, sample_topology 0x1101]"]
  by (auto simp: sample_sizes sample_driver_ok wf_zero_discovery)

section \<open>Properties\<close>

text \<open>C9. With room for every device of the platform, discovery on a cold cache succeeds: when the
  driver answers every command, \<^verbatim>\<open>nvm_get_devices\<close> stays inside its buffers and
  returns the number of devices, with their handles in the order of the topology.\<close>

theorem get_devices_complete:
  assumes "ad_os ad = os_fine" "permitted ad" "driver_ok ad" "p_context (w_ctx w) = Some x"
    and "p_devices x = None" and "length buf = unat count" and "list_all wf_discovery buf"
    and "topology_count ad (w_hw w) = int n" and "0 < n" and "n \<le> unat count"
    and "topology ad (w_hw w) (of_nat n) = (rc, dl)" and "0 < rc" and "length dl = n"
    and "\<And>cmd h. fst (passthrough ad cmd h) = NVM_SUCCESS"
  shows "\<exists>devs w'. nvm_get_devices ad (Some buf) count w = Some (int n, Some devs, w') \<and>
    length devs = unat count \<and> map device_handle (take n devs) = map topo_device_handle dl"
  using assms by (rule cold_read)

theorem get_devices_complete_witness:
  "\<exists>devs w. nvm_get_devices sample_adapter (Some [zero_discovery, zero_discovery]) 2 sample_world =
      Some (2, Some devs, w) \<and> map device_handle (take 2 devs) = [0x1001, 0x1101]"
  using get_devices_complete [of sample_adapter sample_world fresh_context
      "[zero_discovery, zero_discovery]" 2 2 2 "[sample_topology 0x1001, sample_topology 0x1101]"]
  by (auto simp: sample_sizes sample_driver_ok wf_zero_discovery sample_topology_def)

text \<open>Devices are read through the cache: after a call that returned devices, the next call
  with room for them returns the same devices and code, sends no firmware command and leaves the
  hardware alone.\<close>

theorem devices_read_through:
  assumes "ad_os ad = os_fine" "permitted ad" "driver_ok ad" "p_context (w_ctx w) = Some x"
    and "length buf = unat count" and "length buf2 = unat count2"
    and "nvm_get_devices ad (Some buf) count w = Some (rc, Some devs, w1)" and "0 < rc"
    and "nat rc \<le> unat count2"
  shows "\<exists>w2. nvm_get_devices ad (Some buf2) count2 w1 =
      Some (rc, Some (take (nat rc) devs @ replicate (unat count2 - nat rc) zero_discovery), w2) \<and>
    w_sent w2 = w_sent w1 \<and> w_hw w2 = w_hw w1"
proof -
  note c = get_devices_caches [OF assms(1-5,7,8)]
  from get_devices_cached [OF assms(1-3) conjunct1 [OF c], of count2 buf2] c assms(6,8,9)
  show ?thesis by auto
qed

theorem devices_read_through_witness:
  "\<exists>devs w1 w2. nvm_get_devices sample_adapter (Some [zero_discovery, zero_discovery]) 2 sample_world =
      Some (2, Some devs, w1) \<and>
    nvm_get_devices sample_adapter (Some (replicate 3 zero_discovery)) 3 w1 =
      Some (2, Some (take 2 devs @ replicate 1 zero_discovery), w2) \<and> w_sent w2 = w_sent w1"
proof -
  from sample_cold_read obtain devs w1 where
    g: "nvm_get_devices sample_adapter (Some [zero_discovery, zero_discovery]) 2 sample_world =
      Some (2, Some devs, w1)" by blast
  from devices_read_through [OF sample_sizes(1,2) sample_driver_ok sample_sizes(3) _ _ g,
      of "replicate 3 zero_discovery" 3] g show ?thesis
    by auto
qed

text \<open>A lookup by GUID against a warm cache finds the first cached device with that GUID and
  reports \<^verbatim>\<open>NVM_ERR_BADDEVICE\<close> exactly when there is none, without a firmware command.\<close>

theorem lookup_from_cache:
  assumes "ad_os ad = os_fine" "permitted ad" "driver_ok ad" "cached (p_context (w_ctx w)) ds"
    and "length ds < 256" and "length g = GUID_LEN" and "\<forall>d \<in> set ds. length (dev_guid d) = GUID_LEN"
  shows "\<exists>w'. lookup_dev_guid ad (Some g) w =
      Some (case find (\<lambda>d. dev_guid d = g) ds of
              None \<Rightarrow> (NVM_ERR_BADDEVICE, None, w') | Some d \<Rightarrow> (NVM_SUCCESS, Some d, w')) \<and>
    w_sent w' = w_sent w"
  using lookup_warm [OF assms] by auto

theorem lookup_from_cache_witness:
  "\<exists>w'. lookup_dev_guid sample_adapter (Some (replicate GUID_LEN 2))
      (sample_world\<lparr>w_ctx := two_devices_state\<rparr>) = Some (NVM_SUCCESS, Some (sample_device 2), w')"
proof -
  let ?ds = "[sample_device 1, sample_device 2]" and ?w = "sample_world\<lparr>w_ctx := two_devices_state\<rparr>"
  have c: "cached (p_context (w_ctx ?w)) ?ds"
    using copy_discovery_entries [of 2 ?ds]
    by (simp add: cached_def two_devices_state_def created_state_def numeral_2_eq_2
        del: copy_discovery.simps)
  have "sample_device 1 \<noteq> sample_device 2" "dev_guid (sample_device 1) \<noteq> replicate GUID_LEN 2"
    by (simp_all add: sample_device_def)
  with lookup_from_cache [OF sample_sizes(1,2) sample_driver_ok c, of "replicate GUID_LEN 2"]
  show ?thesis by (auto simp: sample_device_def)
qed

text \<open>The size test of the discovery loop is off by one: on a cold cache, when the platform
  has more devices than the caller's array and every command succeeds, the call has no defined
  result, since it writes one entry behind the array before it would report
  \<^verbatim>\<open>NVM_ERR_ARRAYTOOSMALL\<close>.\<close>

theorem get_devices_overruns:
  assumes "ad_os ad = os_fine" "permitted ad" "driver_ok ad" "p_context (w_ctx w) = Some x"
    and "p_devices x = None" and "length buf = unat count"
    and "unat count < nat (topology_count ad (w_hw w))"
    and "topology ad (w_hw w) (of_int (topology_count ad (w_hw w))) = (rc, dl)" and "0 < rc"
    and "unat count < length dl" and "\<And>cmd h. fst (passthrough ad cmd h) = NVM_SUCCESS"
  shows "nvm_get_devices ad (Some buf) count w = None"
proof -
  let ?s = "\<lparr>p_context = Some x, lock_held = False\<rparr>"
  let ?w = "w\<lparr>w_ctx := ?s\<rparr>"
  have d: "on_ctx (get_nvm_context_devices os_fine (uint count)) ?w = Some (NVM_ERR_UNKNOWN, [], ?w)"
    using assms(5) by (simp add: on_ctx_fine get_nvm_context_devices_def)
  have a: "after_ctx_copy (ctx_has_devices os_fine ?s) (unat count) [] buf = Some buf"
    using assms(5) by (simp add: after_ctx_copy_def ctx_has_devices_def)
  have "identify_devices ad dl count (nat (topology_count ad (w_hw w))) 0 rc buf 0 ?w = None"
    using assms(6,7,10,11) by (intro identify_overrun) auto
  then show ?thesis
    using nvm_get_devices_bind [OF assms(1-4) d a] assms(7-9) by (auto simp: read_devices_def Let_def)
qed

theorem get_devices_overruns_witness:
  "nvm_get_devices sample_adapter (Some [zero_discovery]) 1 sample_world = None"
  using get_devices_overruns [of sample_adapter sample_world fresh_context "[zero_discovery]" 1 2
      "[sample_topology 0x1001, sample_topology 0x1101]"]
  by (simp add: sample_sizes sample_driver_ok)

text \<open>The firmware check does not see the major number of the firmware interface: it decodes
  every version above 0.4 as major 1, so two versions that differ in the major number only are
  judged alike, and with a minimum above 1 no firmware is supported.\<close>

theorem firmware_major_lost:
  assumes "4 < v" "4 < v'" "v AND 0xF = v' AND (0xF :: u8)"
  shows "check_firmware_revision ad v = check_firmware_revision ad v' \<and>
    (\<forall>m. config_value ad ''FW_MAJOR_MIN'' = Some m \<and> 1 < m \<longrightarrow> \<not> check_firmware_revision ad v)"
  using assms by (auto simp: check_firmware_revision_def Let_def split: option.splits)

theorem firmware_major_lost_witness:
  "check_firmware_revision sample_adapter 0x15 = check_firmware_revision sample_adapter 0x25"
  using firmware_major_lost [where v = 21 and v' = 37 and ad = sample_adapter] by simp

text \<open>The five fields a device reports of its handle determine the handle, up to its four
  reserved bits.\<close>

theorem handle_fields_exact:
  assumes "device_from_identify ad h id_dimm topo old = Some d"
  shows "push_bit 16 (ucast (node_controller_id d)) OR push_bit 12 (ucast (dev_socket_id d)) OR
      push_bit 8 (ucast (memory_controller_id d)) OR push_bit 4 (ucast (channel_id d)) OR
      ucast (channel_pos d) = (topo_device_handle topo AND 0x0FFFFFFF :: u32)"
proof -
  let ?h = "topo_device_handle topo"
  from assms have f: "node_controller_id d = handle_part ?h 16 12"
    "dev_socket_id d = handle_part ?h 12 4" "memory_controller_id d = handle_part ?h 8 4"
    "channel_id d = handle_part ?h 4 4" "channel_pos d = handle_part ?h 0 4"
    by (auto simp: device_from_identify_def bind_eq_Some_conv Let_def)
  have m: "(0x0FFFFFFF :: u32) = mask 28" by (simp add: mask_eq_exp_minus_1)
  show ?thesis
    using handle_parts [of ?h] unfolding f m by simp
qed

theorem handle_fields_exact_witness:
  "\<exists>d. device_from_identify sample_adapter () (replicate 128 0) (sample_topology 0x1101) zero_discovery =
      Some d \<and>
    push_bit 16 (ucast (node_controller_id d)) OR push_bit 12 (ucast (dev_socket_id d)) OR
      push_bit 8 (ucast (memory_controller_id d)) OR push_bit 4 (ucast (channel_id d)) OR
      ucast (channel_pos d) = (0x1101 :: u32)"
proof -
  obtain d where d: "device_from_identify sample_adapter () (replicate 128 0) (sample_topology 0x1101)
      zero_discovery = Some d"
    using device_from_identify_defined [OF sample_driver_ok _ wf_zero_discovery, of "replicate 128 0"]
    by fastforce
  from handle_fields_exact [OF d] d show ?thesis by (simp add: sample_topology_def)
qed

end
