(* ===== verification/Pcd.thy ===== *)
theory Pcd
  imports Utility Buffers
begin

text \<open>
  Platform configuration data (\<^verbatim>\<open>src/lib/platform_config_data.h\<close> and
  \<^verbatim>\<open>platform_config_data.c\<close>): the packed tables that the library and the BIOS
  exchange through a partition of the DIMM. A buffer is the list of its bytes; a pointer into a
  buffer is the suffix that starts there, so a load past the suffix is a load past the object.
  The structs are packed, so a field is at a fixed offset:
  \<^item> \<^verbatim>\<open>config_data_table_header\<close> (36 bytes): signature 0, length 4, revision 8, checksum 9,
    oem id 10, oem table id 16, oem revision 24, creator id 28, creator revision 32;
  \<^item> \<^verbatim>\<open>platform_config_data\<close> (60): header, current size 36 and offset 40, input size 44
    and offset 48, output size 52 and offset 56;
  \<^item> \<^verbatim>\<open>current_config_table\<close> (56): header, status 36, mapped capacities 40 and 48;
  \<^item> \<^verbatim>\<open>config_input_table\<close> and \<^verbatim>\<open>config_output_table\<close> (48): header, sequence number 36,
    in the output table the validation status at 40;
  \<^item> extension tables: type 0, length 2; a partition table (16) has status 4 and size 8; an
    interleave table (24) has index 4, DIMM count 6, memory type 7, format 8, mirror flag 12 and
    status 13, then one DIMM entry (48) after the other: manufacturer 0, serial number 2, model
    number 6, offset 32, size 40.
  The logging calls read the fields they print; the text they print is not modelled.
\<close>

section \<open>Sizes and signatures\<close>

definition DEV_PLT_CFG_PART_SIZE :: nat where
  "DEV_PLT_CFG_PART_SIZE = 131072"

abbreviation (input) HEADER_LEN :: nat where "HEADER_LEN \<equiv> 36"
abbreviation (input) PCD_LEN :: nat where "PCD_LEN \<equiv> 60"
abbreviation (input) CURRENT_LEN :: nat where "CURRENT_LEN \<equiv> 56"
abbreviation (input) INPUT_LEN :: nat where "INPUT_LEN \<equiv> 48"
abbreviation (input) OUTPUT_LEN :: nat where "OUTPUT_LEN \<equiv> 48"
abbreviation (input) PARTITION_LEN :: nat where "PARTITION_LEN \<equiv> 16"
abbreviation (input) INTERLEAVE_LEN :: nat where "INTERLEAVE_LEN \<equiv> 24"
abbreviation (input) DIMM_INFO_LEN :: nat where "DIMM_INFO_LEN \<equiv> 48"
abbreviation (input) CHECKSUM_OFFSET :: nat where "CHECKSUM_OFFSET \<equiv> 9"

abbreviation (input) PARTITION_CHANGE_TABLE :: u16 where "PARTITION_CHANGE_TABLE \<equiv> 4"
abbreviation (input) INTERLEAVE_TABLE :: u16 where "INTERLEAVE_TABLE \<equiv> 5"
abbreviation (input) INTERLEAVE_MEMORY_TYPE_MEMORY :: u8 where "INTERLEAVE_MEMORY_TYPE_MEMORY \<equiv> 1"
abbreviation (input) INTERLEAVE_MEMORY_TYPE_APP_DIRECT :: u8 where
  "INTERLEAVE_MEMORY_TYPE_APP_DIRECT \<equiv> 2"

definition ascii :: "string \<Rightarrow> bytes" where
  "ascii s = map of_char s"

definition PLATFORM_CONFIG_TABLE_SIGNATURE :: bytes where
  "PLATFORM_CONFIG_TABLE_SIGNATURE = ascii ''DMHD''"
definition CURRENT_CONFIG_TABLE_SIGNATURE :: bytes where
  "CURRENT_CONFIG_TABLE_SIGNATURE = ascii ''CCUR''"
definition CONFIG_INPUT_TABLE_SIGNATURE :: bytes where
  "CONFIG_INPUT_TABLE_SIGNATURE = ascii ''CIN_''"
definition CONFIG_OUTPUT_TABLE_SIGNATURE :: bytes where
  "CONFIG_OUTPUT_TABLE_SIGNATURE = ascii ''COUT''"

lemma length_signatures [simp]:
  "length PLATFORM_CONFIG_TABLE_SIGNATURE = 4" "length CURRENT_CONFIG_TABLE_SIGNATURE = 4"
  "length CONFIG_INPUT_TABLE_SIGNATURE = 4" "length CONFIG_OUTPUT_TABLE_SIGNATURE = 4"
  by (simp_all add: PLATFORM_CONFIG_TABLE_SIGNATURE_def CURRENT_CONFIG_TABLE_SIGNATURE_def
      CONFIG_INPUT_TABLE_SIGNATURE_def CONFIG_OUTPUT_TABLE_SIGNATURE_def ascii_def)

section \<open>Table headers\<close>

record config_data_table_header =
  h_signature :: bytes
  h_length :: u32
  h_revision :: u8
  h_checksum :: u8
  h_oem_id :: bytes
  h_oem_table_id :: bytes
  h_oem_revision :: u32
  h_creator_id :: bytes
  h_creator_revision :: u32

definition encode_header :: "config_data_table_header \<Rightarrow> bytes" where
  "encode_header h =
     h_signature h @ le32 (h_length h) @ [h_revision h, h_checksum h] @ h_oem_id h @
     h_oem_table_id h @ le32 (h_oem_revision h) @ h_creator_id h @ le32 (h_creator_revision h)"

text \<open>The header both writers of this library fill in.\<close>

definition intel_header :: "bytes \<Rightarrow> u32 \<Rightarrow> config_data_table_header" where
  "intel_header sig len =
     \<lparr>h_signature = sig, h_length = len, h_revision = 1, h_checksum = 0,
      h_oem_id = ascii ''INTEL '', h_oem_table_id = ascii ''PURLEY  '', h_oem_revision = 2,
      h_creator_id = ascii ''INTL'', h_creator_revision = 0\<rparr>"

definition table_length :: "bytes \<Rightarrow> u32 option" where
  "table_length t = rd32 t 4"

section \<open>Checksums\<close>

definition generate_checksum :: "bytes \<Rightarrow> u32 \<Rightarrow> nat \<Rightarrow> bytes option" where
  "generate_checksum buf len off =
     (if unat len \<le> length buf \<and> off < length buf then
        let checksum = sum_list (map (\<lambda>i. if i \<noteq> off then buf ! i else 0) [0..<unat len]) in
        Some (buf[off := (0xFF - checksum) + 1])
      else None)"

definition verify_checksum :: "bytes \<Rightarrow> u32 \<Rightarrow> int option" where
  "verify_checksum buf len =
     (if unat len \<le> length buf then
        let sum = sum_list (take (unat len) buf) in
        Some (if sum \<noteq> 0 then NVM_ERR_BADDEVICECONFIG else NVM_SUCCESS)
      else None)"

lemma sum_list_skip:
  "off < n \<Longrightarrow> n \<le> length (xs :: u8 list) \<Longrightarrow>
   sum_list (take n (xs[off := v])) = v + sum_list (map (\<lambda>i. if i \<noteq> off then xs ! i else 0) [0..<n])"
proof -
  assume a: "off < n" "n \<le> length xs"
  have "sum_list (take n (xs[off := v])) = (\<Sum>i = 0..<n. xs[off := v] ! i)"
    using a by (simp add: sum_list_sum_nth min_def)
  also have "\<dots> = (\<Sum>i = 0..<n. if i = off then v else xs ! i)"
    using a by (intro sum.cong) auto
  also have "\<dots> = v + (\<Sum>i \<in> {0..<n} - {off}. if i = off then v else xs ! i)"
    using a by (subst sum.remove [of _ off]) auto
  also have "(\<Sum>i \<in> {0..<n} - {off}. if i = off then v else xs ! i) =
      (\<Sum>i \<in> {0..<n} - {off}. if i \<noteq> off then xs ! i else 0)"
    by (intro sum.cong) auto
  also have "\<dots> = (\<Sum>i = 0..<n. if i \<noteq> off then xs ! i else 0)"
    using a by (subst sum.remove [of "{0..<n}" off]) auto
  finally show ?thesis by (simp add: interv_sum_list_conv_sum_set_nat)
qed

lemma verify_generated:
  assumes "generate_checksum buf len off = Some buf'" "off < unat len"
  shows "verify_checksum buf' len = Some NVM_SUCCESS \<and> length buf' = length buf"
proof -
  from assms have len: "unat len \<le> length buf"
    and buf': "buf' = buf[off := (0xFF - sum_list (map (\<lambda>i. if i \<noteq> off then buf ! i else 0) [0..<unat len])) + 1]"
    by (auto simp: generate_checksum_def Let_def split: if_splits)
  have "sum_list (take (unat len) buf') = 0"
    unfolding buf' sum_list_skip [OF assms(2) len] by simp
  with len buf' show ?thesis by (simp add: verify_checksum_def Let_def)
qed

lemma generate_checksum_other:
  "generate_checksum buf len off = Some buf' \<Longrightarrow> i \<noteq> off \<Longrightarrow> buf' ! i = buf ! i"
  by (auto simp: generate_checksum_def Let_def split: if_splits)

section \<open>Casts to the sub-tables\<close>

definition cast_table :: "nat \<Rightarrow> bytes \<Rightarrow> bytes option option" where
  "cast_table fld cfg = do {
     sz \<leftarrow> rd32 cfg fld;
     if sz > 0 then do { off \<leftarrow> rd32 cfg (fld + 4); Some (Some (drop (unat off) cfg)) }
     else Some None
   }"

definition cast_current_config :: "bytes \<Rightarrow> bytes option option" where
  "cast_current_config cfg = cast_table 36 cfg"

definition cast_config_input :: "bytes \<Rightarrow> bytes option option" where
  "cast_config_input cfg = cast_table 44 cfg"

definition cast_config_output :: "bytes \<Rightarrow> bytes option option" where
  "cast_config_output cfg = cast_table 52 cfg"

section \<open>The debug prints\<close>

definition print_config_data_table_header :: "bytes \<Rightarrow> unit option" where
  "print_config_data_table_header t = do { _ \<leftarrow> rd_bytes t 0 HEADER_LEN; Some () }"

text \<open>The loop advances by the length that the table itself states, so it does not return when
  that length is zero. An unknown type sets the offset to the largest value and so ends the
  loop.\<close>

partial_function (option) print_extension_tables :: "bytes \<Rightarrow> nat \<Rightarrow> nat \<Rightarrow> unit option" where
  "print_extension_tables t total_length offset =
     (if \<not> offset < total_length then Some ()
      else do {
        ty \<leftarrow> rd16 t offset;
        len \<leftarrow> rd16 t (offset + 2);
        if ty = PARTITION_CHANGE_TABLE then do {
          _ \<leftarrow> rd_bytes t offset PARTITION_LEN;
          print_extension_tables t total_length (offset + unat len)
        }
        else if ty = INTERLEAVE_TABLE then do {
          _ \<leftarrow> rd_bytes t offset 14;
          n \<leftarrow> rd8 t (offset + 6);
          _ \<leftarrow> (if n = 0 then Some []
               else rd_bytes t (offset + INTERLEAVE_LEN) (DIMM_INFO_LEN * unat n));
          print_extension_tables t total_length (offset + unat len)
        }
        else Some ()
      })"

definition print_pcd_output :: "bytes \<Rightarrow> unit option" where
  "print_pcd_output t = do {
     _ \<leftarrow> print_config_data_table_header t;
     _ \<leftarrow> rd_bytes t 36 5;
     len \<leftarrow> table_length t;
     if unat len > OUTPUT_LEN
     then print_extension_tables (drop OUTPUT_LEN t) (unat len - OUTPUT_LEN) 0
     else Some ()
   }"

definition print_pcd_input :: "bytes \<Rightarrow> unit option" where
  "print_pcd_input t = do {
     _ \<leftarrow> print_config_data_table_header t;
     _ \<leftarrow> rd_bytes t 36 4;
     len \<leftarrow> table_length t;
     if unat len > INPUT_LEN
     then print_extension_tables (drop INPUT_LEN t) (unat len - INPUT_LEN) 0
     else Some ()
   }"

definition print_pcd_current :: "bytes \<Rightarrow> unit option" where
  "print_pcd_current t = do {
     _ \<leftarrow> print_config_data_table_header t;
     _ \<leftarrow> rd_bytes t 36 20;
     len \<leftarrow> table_length t;
     if unat len > CURRENT_LEN
     then print_extension_tables (drop CURRENT_LEN t) (unat len - CURRENT_LEN) 0
     else Some ()
   }"

definition print_pcd_header :: "bytes \<Rightarrow> unit option" where
  "print_pcd_header cfg = do { _ \<leftarrow> rd_bytes cfg 0 PCD_LEN; Some () }"

section \<open>Validation\<close>

text \<open>\<^verbatim>\<open>strncmp\<close> with a constant signature of four characters.\<close>

definition check_signature :: "bytes \<Rightarrow> bytes \<Rightarrow> int option" where
  "check_signature sig t = do {
     s \<leftarrow> rd_bytes t 0 4;
     Some (if s \<noteq> sig then NVM_ERR_BADDEVICECONFIG else NVM_SUCCESS)
   }"

definition check_config_output :: "bytes \<Rightarrow> int option" where
  "check_config_output cfg = do {
     sz \<leftarrow> rd32 cfg 52;
     if \<not> sz > 0 then Some NVM_SUCCESS
     else if unat sz < OUTPUT_LEN then Some NVM_ERR_BADDEVICECONFIG
     else do {
       off \<leftarrow> rd32 cfg 56;
       let t = drop (unat off) cfg;
       _ \<leftarrow> print_pcd_output t;
       len \<leftarrow> table_length t;
       rc \<leftarrow> verify_checksum t len;
       if rc = NVM_SUCCESS then check_signature CONFIG_OUTPUT_TABLE_SIGNATURE t else Some rc
     }
   }"

definition check_config_input :: "bytes \<Rightarrow> int option" where
  "check_config_input cfg = do {
     sz \<leftarrow> rd32 cfg 44;
     if \<not> sz > 0 then Some NVM_SUCCESS
     else if unat sz < INPUT_LEN then Some NVM_ERR_BADDEVICECONFIG
     else do {
       off \<leftarrow> rd32 cfg 48;
       let t = drop (unat off) cfg;
       _ \<leftarrow> print_pcd_input t;
       len \<leftarrow> table_length t;
       if sz \<noteq> len then Some NVM_ERR_BADDEVICECONFIG
       else do {
         rc \<leftarrow> verify_checksum t len;
         if rc = NVM_SUCCESS then check_signature CONFIG_INPUT_TABLE_SIGNATURE t else Some rc
       }
     }
   }"

definition check_current_config :: "bytes \<Rightarrow> int option" where
  "check_current_config cfg = do {
     sz \<leftarrow> rd32 cfg 36;
     if \<not> sz > 0 then Some NVM_SUCCESS
     else if unat sz < CURRENT_LEN then Some NVM_ERR_BADDEVICECONFIG
     else do {
       off \<leftarrow> rd32 cfg 40;
       let t = drop (unat off) cfg;
       _ \<leftarrow> print_pcd_current t;
       len \<leftarrow> table_length t;
       rc \<leftarrow> verify_checksum t len;
       if rc = NVM_SUCCESS then check_signature CURRENT_CONFIG_TABLE_SIGNATURE t else Some rc
     }
   }"

text \<open>The header check recomputes the checksum in place before it verifies it, so it returns the
  changed buffer too.\<close>

definition check_platform_config_header :: "bytes \<Rightarrow> (bytes \<times> int) option" where
  "check_platform_config_header cfg = do {
     len \<leftarrow> table_length cfg;
     if unat len < PCD_LEN then Some (cfg, NVM_ERR_BADDEVICECONFIG)
     else do {
       _ \<leftarrow> print_pcd_header cfg;
       cfg' \<leftarrow> generate_checksum cfg len CHECKSUM_OFFSET;
       rc \<leftarrow> verify_checksum cfg' len;
       if rc = NVM_SUCCESS then do {
         rc \<leftarrow> check_signature PLATFORM_CONFIG_TABLE_SIGNATURE cfg';
         Some (cfg', rc)
       }
       else Some (cfg', rc)
     }
   }"

definition check_platform_config :: "bytes option \<Rightarrow> (bytes option \<times> int) option" where
  "check_platform_config p_config =
     (case p_config of
        None \<Rightarrow> Some (None, NVM_ERR_BADDEVICECONFIG)
      | Some cfg \<Rightarrow> do {
          (cfg, rc) \<leftarrow> check_platform_config_header cfg;
          if rc \<noteq> NVM_SUCCESS then Some (Some cfg, rc)
          else do {
            rc \<leftarrow> check_current_config cfg;
            if rc \<noteq> NVM_SUCCESS then Some (Some cfg, rc)
            else do {
              rc \<leftarrow> check_config_input cfg;
              if rc \<noteq> NVM_SUCCESS then Some (Some cfg, rc)
              else do { rc \<leftarrow> check_config_output cfg; Some (Some cfg, rc) }
            }
          }
        })"

section \<open>Building the data\<close>

text \<open>
  \<^verbatim>\<open>build_platform_config_data\<close> puts the header, the current configuration, the
  input and the output table one after the other into a zeroed partition image. An input pointer
  is \<open>None\<close> when null; \<open>pp_config\<close> is \<open>None\<close> when the pointer itself is null, and otherwise
  what it points at. A table that does not fit makes the copy run past the image.
\<close>

definition pcd_header :: bytes where
  "pcd_header = encode_header (intel_header PLATFORM_CONFIG_TABLE_SIGNATURE (of_nat PCD_LEN))"

definition sub_table_size :: "bytes option \<Rightarrow> u32 option" where
  "sub_table_size p = (case p of None \<Rightarrow> Some 0 | Some t \<Rightarrow> table_length t)"

definition place_table ::
  "nat \<Rightarrow> bytes option \<Rightarrow> u32 \<Rightarrow> bytes \<times> u32 \<times> int \<Rightarrow> (bytes \<times> u32 \<times> int) option" where
  "place_table fld p sz = (\<lambda>(cfg, offset, rc).
     (if sz > 0 \<and> rc = NVM_SUCCESS then do {
        cfg \<leftarrow> store cfg (fld + 4) (le32 offset);
        cfg \<leftarrow> store cfg fld (le32 sz);
        final \<leftarrow> cast_table fld cfg;
        case final of
          None \<Rightarrow> Some (cfg, offset + sz, NVM_ERR_UNKNOWN)
        | Some _ \<Rightarrow> do {
            t \<leftarrow> p;
            src \<leftarrow> rd_bytes t 0 (unat sz);
            cfg \<leftarrow> store cfg (unat offset) src;
            Some (cfg, offset + sz, NVM_SUCCESS)
          }
      }
      else Some (cfg, offset, rc)))"

definition build_platform_config_data ::
  "bool \<Rightarrow> bytes option \<Rightarrow> bytes option \<Rightarrow> bytes option \<Rightarrow> bytes option option \<Rightarrow>
   (int \<times> bytes option option) option" where
  "build_platform_config_data malloc_ok p_current p_input p_output pp_config = do {
     current_size \<leftarrow> sub_table_size p_current;
     input_size \<leftarrow> sub_table_size p_input;
     output_size \<leftarrow> sub_table_size p_output;
     if \<not> malloc_ok then Some (NVM_ERR_NOMEMORY, pp_config)
     else do {
       cfg \<leftarrow> store (replicate DEV_PLT_CFG_PART_SIZE 0) 0 pcd_header;
       st \<leftarrow> place_table 36 p_current current_size (cfg, of_nat PCD_LEN, NVM_SUCCESS);
       st \<leftarrow> place_table 44 p_input input_size st;
       (cfg, offset, rc) \<leftarrow> place_table 52 p_output output_size st;
       if rc \<noteq> NVM_SUCCESS then Some (rc, pp_config)
       else do {
         len \<leftarrow> table_length cfg;
         cfg \<leftarrow> generate_checksum cfg len CHECKSUM_OFFSET;
         if pp_config = Some None then Some (NVM_SUCCESS, Some (Some cfg))
         else Some (NVM_ERR_INVALIDPARAMETER, pp_config)
       }
     }
   }"

section \<open>Reading the tables\<close>

definition get_last_config_output_sequence_number :: "bytes \<Rightarrow> u32 option" where
  "get_last_config_output_sequence_number cfg = do {
     out \<leftarrow> cast_config_output cfg;
     case out of None \<Rightarrow> Some 0 | Some t \<Rightarrow> rd32 t 36
   }"

text \<open>The walk over the extension tables that looks for the largest interleave set index: both
  tables are walked by the same loop, up to their own length. \<open>ext\<close> is the suffix at the first
  extension table.\<close>

partial_function (option) walk_set_index ::
  "bytes \<Rightarrow> nat \<Rightarrow> u32 \<Rightarrow> u32 \<Rightarrow> (u32 \<times> int) option" where
  "walk_set_index ext limit offset idx =
     (if \<not> unat offset < limit then Some (idx, NVM_SUCCESS)
      else do {
        ty \<leftarrow> rd16 ext (unat offset);
        len \<leftarrow> rd16 ext (unat offset + 2);
        if len = 0 then Some (idx, NVM_ERR_UNKNOWN)
        else do {
          idx' \<leftarrow> (if ty = INTERLEAVE_TABLE then do {
                    i \<leftarrow> rd16 ext (unat offset + 4);
                    Some (if idx < ucast i then ucast i else idx)
                  } else Some idx);
          walk_set_index ext limit (offset + ucast len) idx'
        }
      })"

text \<open>The body of \<^verbatim>\<open>get_dimm_interleave_info_max_set_index\<close> once it has the data. A
  failed walk of the input table does not keep the current table from being looked at: its loop
  is then not entered.\<close>

definition max_set_index_in ::
  "nat \<Rightarrow> nat \<Rightarrow> bytes \<Rightarrow> u32 \<times> int \<Rightarrow> (u32 \<times> int) option" where
  "max_set_index_in fld hdr cfg = (\<lambda>(idx, rc). do {
     tbl \<leftarrow> cast_table fld cfg;
     case tbl of
       None \<Rightarrow> Some (idx, rc)
     | Some t \<Rightarrow> do {
         len \<leftarrow> table_length t;
         if unat len > hdr \<and> rc = NVM_SUCCESS
         then walk_set_index (drop hdr t) (unat len - hdr) 0 idx
         else Some (idx, rc)
       }
   })"

definition pcd_max_set_index :: "bytes \<Rightarrow> (u32 \<times> int) option" where
  "pcd_max_set_index cfg = do {
     st \<leftarrow> max_set_index_in 44 INPUT_LEN cfg (0, NVM_SUCCESS);
     max_set_index_in 36 CURRENT_LEN cfg st
   }"

datatype config_error =
    CONFIG_ERROR_NOTFOUND | CONFIG_ERROR_BADREQUEST | CONFIG_ERROR_INSUFFICIENTRESOURCES
  | CONFIG_ERROR_FW | CONFIG_ERROR_BROKENINTERLEAVE | CONFIG_ERROR_UNKNOWN

datatype config_status =
    CONFIG_STATUS_NOT_CONFIGURED | CONFIG_STATUS_VALID | CONFIG_STATUS_ERR_CORRUPT
  | CONFIG_STATUS_ERR_BROKEN_INTERLEAVE | CONFIG_STATUS_ERR_REVERTED
  | CONFIG_STATUS_ERR_NOT_SUPPORTED

text \<open>The two switches on the status of an extension table; the partition table's status is a
  32-bit value, the interleave table's a byte.\<close>

definition partition_status_error :: "u32 \<Rightarrow> config_error" where
  "partition_status_error st =
     (if st = 3 then CONFIG_ERROR_BROKENINTERLEAVE
      else if st = 4 \<or> st = 8 then CONFIG_ERROR_BADREQUEST
      else if st = 5 \<or> st = 7 then CONFIG_ERROR_INSUFFICIENTRESOURCES
      else if st = 6 then CONFIG_ERROR_FW
      else if st = 1 then CONFIG_ERROR_NOTFOUND
      else CONFIG_ERROR_UNKNOWN)"

definition interleave_status_error :: "u8 \<Rightarrow> config_error" where
  "interleave_status_error st =
     (if st = 3 then CONFIG_ERROR_BROKENINTERLEAVE
      else if st = 4 \<or> st = 9 \<or> st = 10 \<or> st = 11 then CONFIG_ERROR_BADREQUEST
      else if st = 5 \<or> st = 6 \<or> st = 7 then CONFIG_ERROR_INSUFFICIENTRESOURCES
      else if st = 2 \<or> st = 1 \<or> st = 8 then CONFIG_ERROR_NOTFOUND
      else CONFIG_ERROR_UNKNOWN)"

text \<open>The loop stops at the first status that is an error; a length of at most the header's four
  bytes is bad data, so it always advances.\<close>

function config_error_walk :: "bytes \<Rightarrow> nat \<Rightarrow> nat \<Rightarrow> config_error option" where
  "config_error_walk ext limit offset =
     (if \<not> offset < limit then Some CONFIG_ERROR_NOTFOUND
      else do {
        len \<leftarrow> rd16 ext (offset + 2);
        if unat len \<le> 4 then Some CONFIG_ERROR_BADREQUEST
        else do {
          ty \<leftarrow> rd16 ext offset;
          status \<leftarrow>
            (if ty = PARTITION_CHANGE_TABLE
             then map_option partition_status_error (rd32 ext (offset + 4))
             else if ty = INTERLEAVE_TABLE
             then map_option interleave_status_error (rd8 ext (offset + 13))
             else Some CONFIG_ERROR_NOTFOUND);
          if status = CONFIG_ERROR_NOTFOUND then config_error_walk ext limit (offset + unat len)
          else Some status
        }
      })"
  by pat_completeness auto
termination
  by (relation "measure (\<lambda>(ext, limit, offset). limit - offset)") auto

declare config_error_walk.simps [simp del]

text \<open>The table length is the header's minus 48 in 64-bit unsigned arithmetic: a stated length
  below 48 wraps around.\<close>

definition get_config_error_from_config_output :: "bytes \<Rightarrow> config_error option" where
  "get_config_error_from_config_output t = do {
     len \<leftarrow> table_length t;
     let table_len = (ucast len :: u64) - of_nat OUTPUT_LEN;
     config_error_walk (drop OUTPUT_LEN t) (unat table_len) 0
   }"

definition get_config_status_from_current_config :: "bytes \<Rightarrow> config_status option" where
  "get_config_status_from_current_config t = do {
     st \<leftarrow> rd16 t 36;
     Some (if st = 1 then CONFIG_STATUS_VALID
           else if st = 3 then CONFIG_STATUS_ERR_BROKEN_INTERLEAVE
           else if st = 5 \<or> st = 7 then CONFIG_STATUS_NOT_CONFIGURED
           else if st = 6 \<or> st = 8 \<or> st = 9 then CONFIG_STATUS_ERR_REVERTED
           else if st = 0 \<or> st = 4 \<or> st = 10 then CONFIG_STATUS_ERR_CORRUPT
           else CONFIG_STATUS_ERR_NOT_SUPPORTED)
   }"

text \<open>\<open>it\<close> is the suffix at an interleave table.\<close>

definition interleave_set_has_offset :: "bytes \<Rightarrow> u64 \<Rightarrow> bool option" where
  "interleave_set_has_offset it interleave_set_offset = do {
     len \<leftarrow> rd16 it 2;
     if INTERLEAVE_LEN + DIMM_INFO_LEN \<le> unat len then do {
       off \<leftarrow> rd64 it (INTERLEAVE_LEN + 32);
       Some (interleave_set_offset = off)
     }
     else Some False
   }"

text \<open>The walk of \<^verbatim>\<open>get_interleave_settings_from_platform_config_data\<close>: \<open>limit\<close> is the
  table's stated length and \<open>offset\<close> is below it. Bad data ends the loop with an error, an
  exhausted loop finds nothing. The sum of offset and length is taken in 32 bits.\<close>

partial_function (option) find_interleave_set ::
  "bytes \<Rightarrow> u32 \<Rightarrow> u64 \<Rightarrow> u32 \<Rightarrow> nat option option" where
  "find_interleave_set t limit iset_offset offset =
     (if \<not> offset < limit then Some None
      else do {
        len \<leftarrow> rd16 t (unat offset + 2);
        if len = 0 \<or> offset + ucast len > limit then Some None
        else do {
          ty \<leftarrow> rd16 t (unat offset);
          hit \<leftarrow> (if ty = INTERLEAVE_TABLE then do {
                   mt \<leftarrow> rd8 t (unat offset + 7);
                   if mt = INTERLEAVE_MEMORY_TYPE_APP_DIRECT
                   then interleave_set_has_offset (drop (unat offset) t) iset_offset
                   else Some False
                 } else Some False);
          if hit then Some (Some (unat offset))
          else find_interleave_set t limit iset_offset (offset + ucast len)
        }
      })"

text \<open>What the function reads once it holds the data: the set's index, mirror flag and format.
  No current table at all leaves the outputs alone and succeeds; a failed search turns bad data
  into "not found" as well.\<close>

definition interleave_settings_in ::
  "bytes \<Rightarrow> u64 \<Rightarrow> interleave_format \<Rightarrow> (int \<times> (u32 \<times> interleave_format \<times> u8) option) option" where
  "interleave_settings_in cfg iset_offset fmt0 = do {
     cur \<leftarrow> cast_current_config cfg;
     case cur of
       None \<Rightarrow> Some (NVM_SUCCESS, None)
     | Some t \<Rightarrow> do {
         limit \<leftarrow> table_length t;
         r \<leftarrow> find_interleave_set t limit iset_offset (of_nat CURRENT_LEN);
         case r of
           None \<Rightarrow> Some (NVM_ERR_NOTFOUND, None)
         | Some o' \<Rightarrow> do {
             idx \<leftarrow> rd16 t (o' + 4);
             mir \<leftarrow> rd8 t (o' + 12);
             fmt \<leftarrow> rd32 t (o' + 8);
             Some (NVM_SUCCESS, Some (ucast idx, interleave_format_to_struct fmt fmt0, mir))
           }
       }
   }"

end
