(* ===== verification/Capabilities.thy ===== *)
theory Capabilities
  imports Device Pcd
begin

text \<open>
  What the software, the BIOS and the modules support together: \<^verbatim>\<open>capabilities.c\<close> and
  \<^verbatim>\<open>check_pcat\<close> of \<^verbatim>\<open>platform_capabilities.c\<close>. The BIOS table starts with a
  fixed part of 40 bytes (length at 4) and is followed by extension tables: type at 0, length at 2;
  platform information has its four flag bytes at 4 to 7; interleave information has the mode at 4,
  the alignment at 8, the number of formats at 10 and the formats from 12. An array in a structure
  is a list of its size.
\<close>

abbreviation (input) NVM_ERR_DRIVERFAILED :: int where "NVM_ERR_DRIVERFAILED \<equiv> - 26"
abbreviation (input) NVM_ERR_BADPCAT :: int where "NVM_ERR_BADPCAT \<equiv> - 42"
abbreviation (input) PCAT_MAX_LEN :: nat where "PCAT_MAX_LEN \<equiv> 4096"
abbreviation (input) PCAT_TABLE_SIZE :: u32 where "PCAT_TABLE_SIZE \<equiv> 40"
abbreviation (input) NVM_INTERLEAVE_FORMATS :: nat where "NVM_INTERLEAVE_FORMATS \<equiv> 32"
abbreviation (input) NVM_MAX_BLOCK_SIZES :: nat where "NVM_MAX_BLOCK_SIZES \<equiv> 16"

section \<open>All capabilities off\<close>

definition no_features :: nvm_features where
  "no_features =
     \<lparr>get_platform_capabilities = False, get_devices_feature = False, get_device_smbios = False,
      get_device_health = False, get_device_settings = False, modify_device_settings = False,
      get_device_security = False, modify_device_security = False, get_device_performance = False,
      get_device_firmware = False, update_device_firmware = False, get_sensors = False,
      modify_sensors = False, get_device_capacity = False, modify_device_capacity = False,
      get_pools_feature = False, get_namespaces = False, get_namespace_details = False,
      create_namespace = False, rename_namespace = False, grow_namespace = False,
      shrink_namespace = False, enable_namespace = False, disable_namespace = False,
      delete_namespace = False, get_address_scrub_data = False, start_address_scrub = False,
      quick_diagnostic = False, platform_config_diagnostic = False, pm_metadata_diagnostic = False,
      security_diagnostic = False, fw_consistency_diagnostic = False, memory_mode = False,
      app_direct_mode = False, storage_mode = False\<rparr>"

definition zero_format :: interleave_format where
  "zero_format = \<lparr>recommended = 0, channel = INTERLEAVE_SIZE_64B, imc = INTERLEAVE_SIZE_64B,
     ways = INTERLEAVE_WAYS_0\<rparr>"

definition zero_memory_capabilities :: memory_capabilities where
  "zero_memory_capabilities =
     \<lparr>mc_supported = False, interleave_alignment_size = 0, interleave_formats_count = 0,
      interleave_formats = replicate NVM_INTERLEAVE_FORMATS zero_format\<rparr>"

definition zero_capabilities :: nvm_capabilities where
  "zero_capabilities =
     \<lparr>nvm_features = no_features,
      sw_capabilities =
        \<lparr>block_size_count = 0, block_sizes = replicate NVM_MAX_BLOCK_SIZES 0, min_namespace_size = 0\<rparr>,
      platform_capabilities =
        \<lparr>bios_config_support = False, bios_runtime_support = False, memory_mirror_supported = False,
         storage_mode_supported = False, memory_spare_supported = False,
         memory_migration_supported = False, one_lm_mode = zero_memory_capabilities,
         pc_memory_mode = zero_memory_capabilities, pc_app_direct_mode = zero_memory_capabilities,
         current_volatile_mode = VOLATILE_MODE_1LM,
         current_app_direct_mode = APP_DIRECT_MODE_DISABLED\<rparr>,
      sku_capabilities =
        \<lparr>mixed_sku = False, memory_sku = False, app_direct_sku = False, storage_sku = False\<rparr>\<rparr>"

section \<open>The driver\<close>

definition driver_features_to_nvm_features ::
  "int \<Rightarrow> driver_feature_flags \<Rightarrow> nvm_features \<Rightarrow> nvm_features" where
  "driver_features_to_nvm_features topo_count d f =
     (let f = f\<lparr>get_platform_capabilities := dff_get_platform_capabilities d,
               get_devices_feature := dff_get_topology d\<rparr>;
          f = (if dff_get_topology d \<and> topo_count > 0 then
                 f\<lparr>get_device_smbios := dff_get_dimm_detail d,
                   get_device_health := dff_passthrough d,
                   get_device_settings := dff_passthrough d,
                   modify_device_settings := dff_passthrough d,
                   get_device_security := dff_passthrough d,
                   modify_device_security := dff_passthrough d,
                   get_device_performance := dff_passthrough d,
                   get_device_firmware := dff_passthrough d,
                   update_device_firmware := dff_passthrough d,
                   get_sensors := dff_passthrough d,
                   modify_sensors := dff_passthrough d,
                   get_device_capacity := dff_passthrough d,
                   modify_device_capacity := dff_get_platform_capabilities d \<and> dff_passthrough d,
                   get_pools_feature := dff_passthrough d \<and> dff_get_interleave d,
                   get_address_scrub_data := dff_get_address_scrub_data d,
                   start_address_scrub := dff_passthrough d,
                   quick_diagnostic := dff_passthrough d,
                   security_diagnostic := dff_passthrough d,
                   platform_config_diagnostic := dff_get_platform_capabilities d,
                   fw_consistency_diagnostic := dff_passthrough d\<rparr>
               else f)
      in f\<lparr>get_namespaces := dff_get_namespaces d,
           get_namespace_details := dff_get_namespace_detail d,
           create_namespace := dff_create_namespace d,
           rename_namespace := dff_rename_namespace d,
           grow_namespace := dff_grow_namespace d,
           shrink_namespace := dff_shrink_namespace d,
           enable_namespace := dff_enable_namespace d,
           disable_namespace := dff_disable_namespace d,
           delete_namespace := dff_delete_namespace d,
           pm_metadata_diagnostic := dff_run_diagnostic d,
           app_direct_mode := dff_app_direct_mode d,
           storage_mode := dff_storage_mode d\<rparr>)"

definition apply_driver_capabilities ::
  "'hw adapter \<Rightarrow> 'hw \<Rightarrow> nvm_capabilities \<Rightarrow> int \<times> nvm_capabilities" where
  "apply_driver_capabilities ad h c =
     (let (tmp_rc, driver_caps) = driver_capabilities ad h in
      if tmp_rc \<noteq> NVM_SUCCESS then (tmp_rc, c)
      else
        let n = (if drv_num_block_sizes driver_caps > of_nat NVM_MAX_BLOCK_SIZES
                 then of_nat NVM_MAX_BLOCK_SIZES else drv_num_block_sizes driver_caps);
            sizes = take NVM_MAX_BLOCK_SIZES (drv_block_sizes driver_caps @ replicate NVM_MAX_BLOCK_SIZES 0)
        in (NVM_SUCCESS,
            c\<lparr>sw_capabilities :=
                \<lparr>block_size_count = n,
                 block_sizes = take (unat n) sizes @ drop (unat n) (block_sizes (sw_capabilities c)),
                 min_namespace_size =
                   (if drv_min_namespace_size driver_caps < BYTES_PER_GB then BYTES_PER_GB
                    else drv_min_namespace_size driver_caps)\<rparr>,
              nvm_features := driver_features_to_nvm_features (topology_count ad h)
                (drv_features driver_caps) (nvm_features c)\<rparr>))"

section \<open>The BIOS\<close>

definition platform_capabilities_to_nvm_features ::
  "platform_capabilities \<Rightarrow> nvm_features \<Rightarrow> nvm_features" where
  "platform_capabilities_to_nvm_features p f =
     f\<lparr>modify_device_capacity := modify_device_capacity f \<and> bios_config_support p,
       memory_mode := mc_supported (pc_memory_mode p),
       app_direct_mode := app_direct_mode f \<and> mc_supported (pc_app_direct_mode p),
       storage_mode := storage_mode f \<and> storage_mode_supported p\<rparr>"

definition get_current_app_direct_mode :: "u8 \<Rightarrow> app_direct_mode" where
  "get_current_app_direct_mode current_mode =
     (let m = drop_bit 2 current_mode AND 3 in
      if m = 0 then APP_DIRECT_MODE_DISABLED
      else if m = 1 then APP_DIRECT_MODE_ENABLED
      else APP_DIRECT_MODE_UNKNOWN)"

definition current_volatile_mode_of :: "u8 \<Rightarrow> volatile_mode" where
  "current_volatile_mode_of bits =
     (let m = bits AND 3 in
      if m = 0 then VOLATILE_MODE_1LM
      else if m = 1 then VOLATILE_MODE_MEMORY
      else if m = 2 then VOLATILE_MODE_AUTO
      else VOLATILE_MODE_UNKNOWN)"

definition check_pcat :: "bytes \<Rightarrow> int option" where
  "check_pcat pcat = do {
     len \<leftarrow> rd32 pcat 4;
     rc \<leftarrow> verify_checksum pcat len;
     if rc \<noteq> NVM_SUCCESS then Some NVM_ERR_BADPCAT
     else if len < PCAT_TABLE_SIZE then Some NVM_ERR_BADPCAT
     else do {
       s \<leftarrow> rd_bytes pcat 0 4;
       Some (if s \<noteq> ascii ''PCAT'' then NVM_ERR_BADPCAT else NVM_SUCCESS)
     }
   }"

definition apply_platform_info ::
  "bytes \<Rightarrow> nat \<Rightarrow> platform_capabilities \<Rightarrow> platform_capabilities option" where
  "apply_platform_info pcat off p = do {
     cfg \<leftarrow> rd8 pcat (off + 4);
     modes \<leftarrow> rd8 pcat (off + 5);
     current \<leftarrow> rd8 pcat (off + 6);
     ras \<leftarrow> rd8 pcat (off + 7);
     Some (p\<lparr>
       bios_config_support := (cfg AND 1 \<noteq> 0),
       bios_runtime_support := (drop_bit 1 cfg AND 1 \<noteq> 0),
       current_volatile_mode := current_volatile_mode_of current,
       current_app_direct_mode := get_current_app_direct_mode current,
       memory_mirror_supported := (ras AND 1 \<noteq> 0),
       memory_spare_supported := (drop_bit 1 ras AND 1 \<noteq> 0),
       memory_migration_supported := (drop_bit 2 ras AND 1 \<noteq> 0),
       one_lm_mode := (if modes AND 1 \<noteq> 0 then (one_lm_mode p)\<lparr>mc_supported := True\<rparr>
                       else one_lm_mode p),
       pc_memory_mode := (if modes AND 2 \<noteq> 0 then (pc_memory_mode p)\<lparr>mc_supported := True\<rparr>
                          else pc_memory_mode p),
       pc_app_direct_mode :=
         (if modes AND 4 \<noteq> 0 then (pc_app_direct_mode p)\<lparr>mc_supported := True\<rparr>
          else pc_app_direct_mode p),
       storage_mode_supported := (storage_mode_supported p \<or> modes AND 16 \<noteq> 0)\<rparr>)
   }"

text \<open>One format of the BIOS stands for one format per channel way: \<open>add_ways\<close> is the loop
  over the way bits, \<open>add_formats\<close> the loop over the list. Writing a 33rd format leaves the
  array.\<close>

fun add_ways :: "u32 \<Rightarrow> nat list \<Rightarrow> memory_capabilities \<Rightarrow> memory_capabilities option" where
  "add_ways fmt [] c = Some c"
| "add_ways fmt (b # bs) c =
     (let channel_ways = drop_bit 16 fmt AND 0x1ff;
          k = unat (interleave_formats_count c) in
      if drop_bit b channel_ways AND 1 \<noteq> 0 then
        if k < length (interleave_formats c) then
          add_ways fmt bs
            (c\<lparr>interleave_formats := (interleave_formats c)
                  [k := (interleave_format_to_struct fmt (interleave_formats c ! k))
                          \<lparr>ways := interleave_way_to_enum (channel_ways AND push_bit b 1)\<rparr>],
               interleave_formats_count := interleave_formats_count c + 1\<rparr>)
        else None
      else add_ways fmt bs c)"

fun add_formats :: "bytes \<Rightarrow> nat \<Rightarrow> nat \<Rightarrow> memory_capabilities \<Rightarrow> memory_capabilities option" where
  "add_formats pcat off 0 c = Some c"
| "add_formats pcat off (Suc n) c = do {
     fmt \<leftarrow> rd32 pcat off;
     c \<leftarrow> add_ways fmt [0..<9] c;
     add_formats pcat (off + 4) n c
   }"

text \<open>The structure the mode of a table selects; \<open>None\<close> for a mode the code does not know.\<close>

definition upd_mode ::
  "u8 \<Rightarrow> (memory_capabilities \<Rightarrow> memory_capabilities option) \<Rightarrow> platform_capabilities \<Rightarrow>
   platform_capabilities option option" where
  "upd_mode mode f p =
     (if mode = 0 then Some (do { c \<leftarrow> f (one_lm_mode p); Some (p\<lparr>one_lm_mode := c\<rparr>) })
      else if mode = 1 then Some (do { c \<leftarrow> f (pc_memory_mode p); Some (p\<lparr>pc_memory_mode := c\<rparr>) })
      else if mode = 3 then
        Some (do { c \<leftarrow> f (pc_app_direct_mode p); Some (p\<lparr>pc_app_direct_mode := c\<rparr>) })
      else None)"

definition apply_interleave_info ::
  "bytes \<Rightarrow> nat \<Rightarrow> platform_capabilities \<Rightarrow> platform_capabilities option option" where
  "apply_interleave_info pcat off p = do {
     mode \<leftarrow> rd8 pcat (off + 4);
     align \<leftarrow> rd16 pcat (off + 8);
     count \<leftarrow> rd16 pcat (off + 10);
     case upd_mode mode (\<lambda>c. add_formats pcat (off + 12) (unat count)
            (c\<lparr>interleave_formats_count := 0, interleave_alignment_size := align\<rparr>)) p of
       None \<Rightarrow> Some None
     | Some r \<Rightarrow> map_option Some r
   }"

text \<open>The walk over the extension tables. A table with an unknown interleave mode ends it: the
  \<^verbatim>\<open>break\<close> leaves the loop, not a switch.\<close>

partial_function (option) walk_pcat ::
  "bytes \<Rightarrow> u32 \<Rightarrow> u32 \<Rightarrow> platform_capabilities \<Rightarrow> (int \<times> platform_capabilities) option" where
  "walk_pcat pcat total_len offset p =
     (if \<not> offset < total_len then Some (NVM_SUCCESS, p)
      else do {
        ty \<leftarrow> rd16 pcat (unat offset);
        len \<leftarrow> rd16 pcat (unat offset + 2);
        if len = 0 \<or> ucast len + offset > total_len then Some (NVM_ERR_BADPCAT, p)
        else if ty = 0 then do {
          p \<leftarrow> apply_platform_info pcat (unat offset) p;
          walk_pcat pcat total_len (offset + ucast len) p
        }
        else if ty = 1 then do {
          r \<leftarrow> apply_interleave_info pcat (unat offset) p;
          case r of
            None \<Rightarrow> Some (NVM_SUCCESS, p)
          | Some p \<Rightarrow> walk_pcat pcat total_len (offset + ucast len) p
        }
        else walk_pcat pcat total_len (offset + ucast len) p
      })"

definition apply_bios_capabilities ::
  "'hw adapter \<Rightarrow> 'hw \<Rightarrow> nvm_capabilities \<Rightarrow> (int \<times> nvm_capabilities) option" where
  "apply_bios_capabilities ad h c = do {
     (rc, p) \<leftarrow>
       (if \<not> calloc_ok (ad_os ad) 0 then Some (NVM_ERR_NOMEMORY, platform_capabilities c)
        else
          let (rc, table) = platform_table ad h (replicate PCAT_MAX_LEN 0);
              pcat = fit PCAT_MAX_LEN table in
          if rc \<noteq> NVM_SUCCESS then Some (rc, platform_capabilities c)
          else do {
            rc \<leftarrow> check_pcat pcat;
            if rc \<noteq> NVM_SUCCESS then Some (rc, platform_capabilities c)
            else do {
              len \<leftarrow> rd32 pcat 4;
              walk_pcat pcat len PCAT_TABLE_SIZE (platform_capabilities c)
            }
          });
     Some (rc, c\<lparr>platform_capabilities := p,
                 nvm_features := platform_capabilities_to_nvm_features p (nvm_features c)\<rparr>)
   }"

section \<open>The modules\<close>

definition drop_namespace_features :: "nvm_features \<Rightarrow> nvm_features" where
  "drop_namespace_features f =
     f\<lparr>get_namespaces := False, get_namespace_details := False, create_namespace := False,
       rename_namespace := False, grow_namespace := False, shrink_namespace := False,
       enable_namespace := False, disable_namespace := False, delete_namespace := False\<rparr>"

definition dimm_sku_capabilities_to_nvm_features ::
  "dimm_sku_capabilities \<Rightarrow> nvm_features \<Rightarrow> nvm_features" where
  "dimm_sku_capabilities_to_nvm_features s f =
     (let f = (if mixed_sku s then
                 (drop_namespace_features f)\<lparr>modify_device_capacity := False,
                   modify_device_security := False, modify_device_settings := False,
                   get_pools_feature := False\<rparr>
               else f)
      in f\<lparr>memory_mode := memory_mode f \<and> memory_sku s,
           app_direct_mode := app_direct_mode f \<and> app_direct_sku s,
           storage_mode := storage_mode f \<and> storage_sku s\<rparr>)"

fun scan_skus ::
  "u32 option \<Rightarrow> device_discovery list \<Rightarrow> dimm_sku_capabilities \<Rightarrow> dimm_sku_capabilities" where
  "scan_skus first [] s = s"
| "scan_skus first (d # ds) s =
     (let (first, s) =
            (case first of
               None \<Rightarrow> (Some (dimm_sku d), s)
             | Some k \<Rightarrow> (first, if dimm_sku d \<noteq> k then s\<lparr>mixed_sku := True\<rparr> else s));
          s = (if manageability d = MANAGEMENT_VALIDCONFIG then
                 s\<lparr>memory_sku := memory_sku s \<or> dimm_sku d AND 1 \<noteq> 0,
                   app_direct_sku := app_direct_sku s \<or> dimm_sku d AND 4 \<noteq> 0,
                   storage_sku := storage_sku s \<or> dimm_sku d AND 2 \<noteq> 0\<rparr>
               else s)
      in scan_skus first ds s)"

definition apply_dimm_sku_capabilities ::
  "'hw adapter \<Rightarrow> nvm_capabilities \<Rightarrow> ('hw, 'det) world \<Rightarrow>
   (int \<times> nvm_capabilities \<times> ('hw, 'det) world) option" where
  "apply_dimm_sku_capabilities ad c w = do {
     (rc, w) \<leftarrow> nvm_get_device_count ad w;
     (rc, s, w) \<leftarrow>
       (if rc > 0 then do {
          (r, devs, w) \<leftarrow> nvm_get_devices ad (Some (replicate (nat rc) zero_discovery)) (of_int rc) w;
          ds \<leftarrow> devs;
          Some (if r = rc then (NVM_SUCCESS, scan_skus None ds (sku_capabilities c), w)
                else (r, sku_capabilities c, w))
        } else Some (rc, sku_capabilities c, w));
     Some (rc, c\<lparr>sku_capabilities := s,
                 nvm_features := dimm_sku_capabilities_to_nvm_features s (nvm_features c)\<rparr>, w)
   }"

section \<open>Together\<close>

definition keep_error :: "int \<Rightarrow> int \<Rightarrow> int" where
  "keep_error rc rc_new = (if rc < NVM_SUCCESS then rc else rc_new)"

text \<open>The part that runs when the context has no capabilities: the code and the capabilities.\<close>

definition read_capabilities ::
  "'hw adapter \<Rightarrow> ('hw, 'det) world \<Rightarrow> (int \<times> nvm_capabilities \<times> ('hw, 'det) world) option" where
  "read_capabilities ad w = do {
     (rc, c, w) \<leftarrow>
       (let (tmprc, c) = apply_driver_capabilities ad (w_hw w) zero_capabilities in
        if tmprc \<noteq> NVM_SUCCESS
        then Some (if tmprc \<noteq> NVM_ERR_DRIVERFAILED then tmprc else NVM_SUCCESS, c, w)
        else do {
          (rc, c) \<leftarrow> (if get_platform_capabilities (nvm_features c)
                      then apply_bios_capabilities ad (w_hw w) c else Some (NVM_SUCCESS, c));
          if get_devices_feature (nvm_features c) then do {
            (r, c, w) \<leftarrow> apply_dimm_sku_capabilities ad c w;
            Some (keep_error rc r, c, w)
          } else Some (rc, c, w)
        });
     let c = (if \<not> app_direct_mode (nvm_features c) \<and> \<not> storage_mode (nvm_features c)
              then c\<lparr>nvm_features := drop_namespace_features (nvm_features c)\<rparr> else c);
     Some (rc, c, w)
   }"

definition nvm_get_nvm_capabilities ::
  "'hw adapter \<Rightarrow> bool \<Rightarrow> ('hw, 'det) world \<Rightarrow>
   (int \<times> nvm_capabilities option \<times> ('hw, 'det) world) option" where
  "nvm_get_nvm_capabilities ad have_out w =
     (if \<not> permitted ad then Some (NVM_ERR_INVALIDPERMISSIONS, None, w)
      else if \<not> have_out then Some (NVM_ERR_INVALIDPARAMETER, None, w)
      else do {
        (rc, caps, w) \<leftarrow> on_ctx (get_nvm_context_capabilities (ad_os ad)) w;
        if rc = NVM_SUCCESS then Some (NVM_SUCCESS, caps, w)
        else do {
          (rc, c, w) \<leftarrow> read_capabilities ad w;
          if rc = NVM_SUCCESS then do {
            (_, _, w) \<leftarrow> on_ctx (set_nvm_context_capabilities (ad_os ad) c) w;
            Some (rc, Some c, w)
          } else Some (rc, Some c, w)
        }
      })"

definition is_nvm_feature_supported ::
  "'hw adapter \<Rightarrow> (nvm_features \<Rightarrow> bool) \<Rightarrow> ('hw, 'det) world \<Rightarrow> (int \<times> ('hw, 'det) world) option" where
  "is_nvm_feature_supported ad feature w = do {
     (rc, caps, w) \<leftarrow> nvm_get_nvm_capabilities ad True w;
     if rc = NVM_SUCCESS then do {
       c \<leftarrow> caps;
       Some (if \<not> feature (nvm_features c) then NVM_ERR_NOTSUPPORTED else rc, w)
     } else Some (rc, w)
   }"


section \<open>What the parts compute\<close>

text \<open>The formats one entry of the BIOS list stands for: the flag and the ways, one per way bit.\<close>

definition expand_format :: "u32 \<Rightarrow> (u8 \<times> interleave_ways) list" where
  "expand_format fmt =
     map (\<lambda>b. (ucast (drop_bit 31 fmt AND 1), interleave_way_to_enum (push_bit b 1)))
       (filter (\<lambda>b. bit fmt (16 + b)) [0..<9])"

definition formats_of :: "memory_capabilities \<Rightarrow> (u8 \<times> interleave_ways) list" where
  "formats_of c = map (\<lambda>f. (recommended f, ways f))
     (take (unat (interleave_formats_count c)) (interleave_formats c))"

definition caps_room :: "memory_capabilities \<Rightarrow> bool" where
  "caps_room c \<longleftrightarrow> length (interleave_formats c) = NVM_INTERLEAVE_FORMATS \<and>
     unat (interleave_formats_count c) \<le> NVM_INTERLEAVE_FORMATS"

declare interleave_way_to_enum.simps [simp del]

lemma length_formats_of: "caps_room c \<Longrightarrow> length (formats_of c) = unat (interleave_formats_count c)"
  by (simp add: caps_room_def formats_of_def)

lemma way_bit_test:
  assumes "b < 9"
  shows "(drop_bit b (drop_bit 16 fmt AND 0x1ff) AND 1 \<noteq> 0) \<longleftrightarrow> bit (fmt :: u32) (16 + b)"
    and "bit fmt (16 + b) \<Longrightarrow> (drop_bit 16 fmt AND 0x1ff) AND push_bit b 1 = push_bit b 1"
proof -
  have m: "(0x1ff :: u32) = mask 9" by (simp add: mask_eq_exp_minus_1)
  have odd: "(x AND 1 \<noteq> 0) = bit x 0" for x :: u32
    by (simp only: and_one_eq bit_0 even_iff_mod_2_eq_zero)
  show "(drop_bit b (drop_bit 16 fmt AND 0x1ff) AND 1 \<noteq> 0) \<longleftrightarrow> bit fmt (16 + b)"
    unfolding m odd using assms by (simp add: bit_drop_bit_eq bit_and_iff bit_mask_iff add.commute)
  show "(drop_bit 16 fmt AND 0x1ff) AND push_bit b 1 = push_bit b 1" if "bit fmt (16 + b)"
    unfolding m
    by (rule bit_word_eqI) (use that assms in \<open>auto simp: bit_and_iff bit_mask_iff bit_drop_bit_eq
        bit_exp_iff\<close>)
qed

text \<open>A loop that appends the formats \<open>ms\<close>, or fails when they do not fit.\<close>

definition appends ::
  "memory_capabilities option \<Rightarrow> memory_capabilities \<Rightarrow> (u8 \<times> interleave_ways) list \<Rightarrow> bool" where
  "appends r c ms \<longleftrightarrow>
     (if length (formats_of c) + length ms \<le> NVM_INTERLEAVE_FORMATS
      then \<exists>c'. r = Some c' \<and> caps_room c' \<and> formats_of c' = formats_of c @ ms \<and>
        mc_supported c' = mc_supported c
      else r = None)"

lemma appends_Nil: "caps_room c \<Longrightarrow> appends (Some c) c []"
  by (simp add: appends_def length_formats_of) (simp add: caps_room_def)

lemma appends_step:
  assumes "appends r c' ms" "formats_of c' = formats_of c @ ms'" "mc_supported c' = mc_supported c"
  shows "appends r c (ms' @ ms)"
  using assms by (auto simp: appends_def add.assoc split: if_splits)

definition way_formats :: "u32 \<Rightarrow> nat list \<Rightarrow> (u8 \<times> interleave_ways) list" where
  "way_formats fmt bs =
     map (\<lambda>b. (ucast (drop_bit 31 fmt AND 1), interleave_way_to_enum (push_bit b 1)))
       (filter (\<lambda>b. bit fmt (16 + b)) bs)"

lemma add_ways_expand:
  assumes "caps_room c" "\<forall>b \<in> set bs. b < 9"
  shows "appends (add_ways fmt bs c) c (way_formats fmt bs)"
  using assms
proof (induction bs arbitrary: c)
  case Nil
  then show ?case by (simp add: appends_Nil way_formats_def)
next
  case (Cons b bs)
  let ?k = "unat (interleave_formats_count c)"
  note t = way_bit_test [of b fmt]
  have b: "b < 9" using Cons.prems(2) by simp
  show ?case
  proof (cases "bit fmt (16 + b)")
    case False
    with t(1) [OF b] show ?thesis
      using Cons.IH [OF Cons.prems(1)] Cons.prems(2) by (simp add: Let_def way_formats_def)
  next
    case True
    let ?c = "c\<lparr>interleave_formats := (interleave_formats c)
        [?k := (interleave_format_to_struct fmt (interleave_formats c ! ?k))
           \<lparr>ways := interleave_way_to_enum (push_bit b 1)\<rparr>],
      interleave_formats_count := interleave_formats_count c + 1\<rparr>"
    let ?m = "(ucast (drop_bit 31 fmt AND 1) :: u8, interleave_way_to_enum (push_bit b 1))"
    have ms: "way_formats fmt (b # bs) = [?m] @ way_formats fmt bs"
      using True by (simp add: way_formats_def)
    have len: "length (interleave_formats c) = NVM_INTERLEAVE_FORMATS"
      using Cons.prems(1) by (simp add: caps_room_def)
    show ?thesis
    proof (cases "?k < NVM_INTERLEAVE_FORMATS")
      case False
      then show ?thesis using True t [OF b] ms len Cons.prems(1)
        by (simp add: Let_def length_formats_of appends_def)
    next
      case k: True
      have u: "unat (interleave_formats_count c + 1) = Suc ?k"
        using k by (simp add: unat_word_ariths(1))
      have room: "caps_room ?c" using k len u by (simp add: caps_room_def)
      have fo: "formats_of ?c = formats_of c @ [?m]"
        using k len u by (simp add: formats_of_def take_Suc_conv_app_nth interleave_format_to_struct_def)
      have step: "add_ways fmt (b # bs) c = add_ways fmt bs ?c"
        using True t [OF b] k len by (simp add: Let_def)
      have "appends (add_ways fmt bs ?c) ?c (way_formats fmt bs)"
        by (rule Cons.IH [OF room]) (use Cons.prems(2) in simp)
      from appends_step [OF this fo] show ?thesis unfolding step ms by simp
    qed
  qed
qed

lemma expand_way_formats: "expand_format fmt = way_formats fmt [0..<9]"
  by (simp only: expand_format_def way_formats_def)

lemma add_formats_expand:
  assumes "caps_room c" "\<And>i. i < length fs \<Longrightarrow> rd32 pcat (off + 4 * i) = Some (fs ! i)"
  shows "appends (add_formats pcat off (length fs) c) c (concat (map expand_format fs))"
  using assms
proof (induction fs arbitrary: off c)
  case Nil
  then show ?case by (simp add: appends_Nil)
next
  case (Cons f fs)
  have f: "rd32 pcat off = Some f" using Cons.prems(2) [of 0] by simp
  have rest: "rd32 pcat (off + 4 + 4 * i) = Some (fs ! i)" if "i < length fs" for i
    using Cons.prems(2) [of "Suc i"] that by (simp add: add.assoc)
  have w: "appends (add_ways f [0..<9] c) c (expand_format f)"
    unfolding expand_way_formats by (rule add_ways_expand [OF Cons.prems(1)]) simp
  show ?case
  proof (cases "add_ways f [0..<9] c")
    case None
    with w f show ?thesis by (auto simp: appends_def split: if_splits)
  next
    case (Some c1)
    with w have c1: "caps_room c1" "formats_of c1 = formats_of c @ expand_format f"
      "mc_supported c1 = mc_supported c" by (auto simp: appends_def split: if_splits)
    have "add_formats pcat off (length (f # fs)) c = add_formats pcat (off + 4) (length fs) c1"
      using f Some by simp
    then show ?thesis
      using appends_step [OF Cons.IH [OF c1(1) rest] c1(2,3)] by simp
  qed
qed

lemma scan_skus_spec:
  "scan_skus first ds s =
    \<lparr>mixed_sku = mixed_sku s \<or> (case first of None \<Rightarrow> \<exists>d \<in> set ds. dimm_sku d \<noteq> dimm_sku (hd ds)
        | Some k \<Rightarrow> \<exists>d \<in> set ds. dimm_sku d \<noteq> k),
     memory_sku = memory_sku s \<or>
       (\<exists>d \<in> set ds. manageability d = MANAGEMENT_VALIDCONFIG \<and> dimm_sku d AND 1 \<noteq> 0),
     app_direct_sku = app_direct_sku s \<or>
       (\<exists>d \<in> set ds. manageability d = MANAGEMENT_VALIDCONFIG \<and> dimm_sku d AND 4 \<noteq> 0),
     storage_sku = storage_sku s \<or>
       (\<exists>d \<in> set ds. manageability d = MANAGEMENT_VALIDCONFIG \<and> dimm_sku d AND 2 \<noteq> 0)\<rparr>"
proof (induction first ds s rule: scan_skus.induct)
  case (1 first s)
  then show ?case by (simp split: option.split)
next
  case (2 first d ds s)
  show ?case
    by (cases first; cases "manageability d = MANAGEMENT_VALIDCONFIG"; cases s)
      (auto simp: Let_def 2)
qed

section \<open>Where features come from\<close>

lemma bios_effect:
  "apply_bios_capabilities ad h c = Some (rc, c') \<Longrightarrow>
   nvm_features c' = platform_capabilities_to_nvm_features (platform_capabilities c') (nvm_features c) \<and>
   sku_capabilities c' = sku_capabilities c"
  by (auto simp: apply_bios_capabilities_def bind_eq_Some_conv)

lemma sku_effect:
  "apply_dimm_sku_capabilities ad c w = Some (rc, c', w') \<Longrightarrow>
   nvm_features c' = dimm_sku_capabilities_to_nvm_features (sku_capabilities c') (nvm_features c)"
  by (auto simp: apply_dimm_sku_capabilities_def bind_eq_Some_conv)

lemma driver_effect:
  "apply_driver_capabilities ad h zero_capabilities = (rc, c) \<Longrightarrow>
   nvm_features c =
     (if rc = NVM_SUCCESS
      then driver_features_to_nvm_features (topology_count ad h)
        (drv_features (snd (driver_capabilities ad h))) no_features
      else no_features) \<and>
   sku_capabilities c = sku_capabilities zero_capabilities"
  by (auto simp: apply_driver_capabilities_def zero_capabilities_def Let_def split: prod.splits if_splits)

text \<open>The features on their way from the driver to the caller.\<close>

definition final_features ::
  "bool \<Rightarrow> platform_capabilities \<Rightarrow> bool \<Rightarrow> dimm_sku_capabilities \<Rightarrow> nvm_features \<Rightarrow> nvm_features" where
  "final_features bios p devs s f =
     (let f = (if bios then platform_capabilities_to_nvm_features p f else f);
          f = (if devs then dimm_sku_capabilities_to_nvm_features s f else f)
      in if \<not> app_direct_mode f \<and> \<not> storage_mode f then drop_namespace_features f else f)"

lemma read_capabilities_features:
  assumes "read_capabilities ad w = Some (rc, c, w')"
  shows "\<exists>bios p devs f0. nvm_features c = final_features bios p devs (sku_capabilities c) f0 \<and>
    (\<not> devs \<longrightarrow> \<not> mixed_sku (sku_capabilities c)) \<and>
    (f0 = no_features \<or>
     f0 = driver_features_to_nvm_features (topology_count ad (w_hw w))
       (drv_features (snd (driver_capabilities ad (w_hw w)))) no_features)"
proof -
  obtain r0 c0 where d: "apply_driver_capabilities ad (w_hw w) zero_capabilities = (r0, c0)" by fastforce
  note de = driver_effect [OF d]
  have z: "\<not> mixed_sku (sku_capabilities c0)" using de by (simp add: zero_capabilities_def)
  show ?thesis
  proof (cases "r0 = NVM_SUCCESS")
    case False
    with assms d have "nvm_features c = final_features False p False (sku_capabilities c) (nvm_features c0)"
      and "sku_capabilities c = sku_capabilities c0" for p
      by (auto simp: read_capabilities_def Let_def final_features_def)
    with de False z show ?thesis by metis
  next
    case True
    let ?b = "get_platform_capabilities (nvm_features c0)"
    from assms d True obtain r1 c1 where
      b: "(if ?b then apply_bios_capabilities ad (w_hw w) c0 else Some (NVM_SUCCESS, c0)) = Some (r1, c1)"
      by (auto simp: read_capabilities_def Let_def bind_eq_Some_conv)
    define f1 where "f1 = (if ?b then platform_capabilities_to_nvm_features (platform_capabilities c1)
      (nvm_features c0) else nvm_features c0)"
    have b1: "nvm_features c1 = f1" "\<not> mixed_sku (sku_capabilities c1)"
      using b bios_effect [of ad "w_hw w" c0 r1 c1] z by (auto simp: f1_def split: if_splits)
    from assms d True b obtain r2 c2 w2 where
      s: "(if get_devices_feature (nvm_features c1) then do {
            (r, c, w) \<leftarrow> apply_dimm_sku_capabilities ad c1 w; Some (keep_error r1 r, c, w)
          } else Some (r1, c1, w)) = Some (r2, c2, w2)"
      and c: "c = (if \<not> app_direct_mode (nvm_features c2) \<and> \<not> storage_mode (nvm_features c2)
              then c2\<lparr>nvm_features := drop_namespace_features (nvm_features c2)\<rparr> else c2)"
      by (auto simp: read_capabilities_def Let_def bind_eq_Some_conv split: if_splits)
    let ?d = "get_devices_feature (nvm_features c1)"
    have s2: "nvm_features c2 =
        (if ?d then dimm_sku_capabilities_to_nvm_features (sku_capabilities c2) f1 else f1)"
      "\<not> ?d \<longrightarrow> \<not> mixed_sku (sku_capabilities c2)"
      using s sku_effect [of ad c1 w _ c2 w2] b1 by (auto simp: bind_eq_Some_conv split: if_splits)
    have "sku_capabilities c = sku_capabilities c2" using c by simp
    moreover have "nvm_features c = final_features ?b (platform_capabilities c1) ?d (sku_capabilities c2)
      (nvm_features c0)"
      using c s2(1) by (auto simp: final_features_def Let_def f1_def)
    ultimately show ?thesis using s2(2) de True by metis
  qed
qed

lemma on_ctx_get_caps:
  "on_ctx (get_nvm_context_capabilities os_fine) w =
     Some (case p_context (w_ctx w) of
       None \<Rightarrow> (NVM_ERR_UNKNOWN, None, w\<lparr>w_ctx := \<lparr>p_context = p_context (w_ctx w), lock_held = False\<rparr>\<rparr>)
     | Some x \<Rightarrow> (if p_capabilities x = None then NVM_ERR_UNKNOWN else NVM_SUCCESS, p_capabilities x,
         w\<lparr>w_ctx := \<lparr>p_context = p_context (w_ctx w), lock_held = False\<rparr>\<rparr>))"
  by (auto simp: get_nvm_context_capabilities_def on_ctx_fine split: option.splits)

lemma driver_features_select:
  "modify_device_security (driver_features_to_nvm_features n d no_features) =
    (dff_get_topology d \<and> n > 0 \<and> dff_passthrough d)"
  "create_namespace (driver_features_to_nvm_features n d no_features) = dff_create_namespace d"
  "app_direct_mode (driver_features_to_nvm_features n d no_features) = dff_app_direct_mode d"
  "\<not> modify_device_security no_features" "\<not> create_namespace no_features" "\<not> app_direct_mode no_features"
  by (auto simp: driver_features_to_nvm_features_def no_features_def Let_def)

lemma bios_features_select:
  "modify_device_security (platform_capabilities_to_nvm_features p f) = modify_device_security f"
  "create_namespace (platform_capabilities_to_nvm_features p f) = create_namespace f"
  "app_direct_mode (platform_capabilities_to_nvm_features p f) \<Longrightarrow> app_direct_mode f"
  by (simp_all add: platform_capabilities_to_nvm_features_def)

lemma sku_features_select:
  "modify_device_security (dimm_sku_capabilities_to_nvm_features s f) =
    (modify_device_security f \<and> \<not> mixed_sku s)"
  "create_namespace (dimm_sku_capabilities_to_nvm_features s f) = (create_namespace f \<and> \<not> mixed_sku s)"
  "app_direct_mode (dimm_sku_capabilities_to_nvm_features s f) \<Longrightarrow> app_direct_mode f"
  "modify_device_security (drop_namespace_features f) = modify_device_security f"
  "\<not> create_namespace (drop_namespace_features f)"
  "app_direct_mode (drop_namespace_features f) = app_direct_mode f"
  "storage_mode (drop_namespace_features f) = storage_mode f"
  by (auto simp: dimm_sku_capabilities_to_nvm_features_def drop_namespace_features_def Let_def
      split: if_splits)

lemma final_features_select:
  "modify_device_security (final_features b p ds s f) \<Longrightarrow>
    modify_device_security f \<and> (ds \<longrightarrow> \<not> mixed_sku s)"
  "create_namespace (final_features b p ds s f) \<Longrightarrow> create_namespace f \<and> (ds \<longrightarrow> \<not> mixed_sku s) \<and>
    (app_direct_mode (final_features b p ds s f) \<or> storage_mode (final_features b p ds s f))"
  "app_direct_mode (final_features b p ds s f) \<Longrightarrow> app_direct_mode f"
  unfolding final_features_def Let_def
  by (auto simp: bios_features_select(1,2) sku_features_select(1,2,4-) split: if_splits
      dest: bios_features_select(3) sku_features_select(3))

section \<open>Reading capabilities through the context\<close>

lemma ctx_kept_supported:
  assumes "ad_os ad = os_fine" "get_devices_is_supported ad w = Some (rc, w')"
  shows "p_context (w_ctx w') = p_context (w_ctx w)"
  using assms by (auto simp: get_devices_is_supported_def on_ctx_get_caps bind_eq_Some_conv Let_def
      split: option.splits if_splits prod.splits)

lemma calloc_fine [simp]: "calloc_ok os_fine k"
  by (simp add: os_fine_def)

lemma on_ctx_keeps:
  assumes "on_ctx (with_lock os_fine out0 body) w = Some (rc, out, w')"
    and "\<And>c' rc out. body (p_context (w_ctx w)) = Some (c', rc, out) \<Longrightarrow> P c'"
  shows "P (p_context (w_ctx w'))"
  using assms by (auto simp: on_ctx_fine)

lemma count_keeps:
  assumes "on_ctx (get_nvm_context_device_count os_fine) w = Some (rc, u, w')"
  shows "p_context (w_ctx w') = p_context (w_ctx w)"
  using assms unfolding get_nvm_context_device_count_def
  by (rule on_ctx_keeps) (auto split: option.splits)

lemma ctx_kept_count:
  assumes "ad_os ad = os_fine" "nvm_get_device_count ad w = Some (rc, w')"
  shows "p_context (w_ctx w') = p_context (w_ctx w)"
proof (cases "permitted ad")
  case False
  with assms(2) show ?thesis by (simp add: nvm_get_device_count_def)
next
  case True
  with assms(2) obtain r1 w1 where s: "get_devices_is_supported ad w = Some (r1, w1)"
    and rest: "(if r1 \<noteq> NVM_SUCCESS then Some (r1, w1)
      else do { (rc, _, w) \<leftarrow> on_ctx (get_nvm_context_device_count os_fine) w1;
        if rc < 0 then Some (topology_count ad (w_hw w), w) else Some (rc, w) }) = Some (rc, w')"
    unfolding nvm_get_device_count_def assms(1) by (auto simp: bind_eq_Some_conv)
  then have "p_context (w_ctx w') = p_context (w_ctx w1)"
    by (auto simp: bind_eq_Some_conv dest: count_keeps split: if_splits)
  with ctx_kept_supported [OF assms(1) s] show ?thesis by simp
qed

lemma set_devices_keeps:
  assumes "on_ctx (set_nvm_context_devices os_fine ds) w = Some (rc, u, w')" "p_context (w_ctx w) \<noteq> None"
  shows "p_context (w_ctx w') \<noteq> None"
  using assms(1) unfolding set_nvm_context_devices_def
  by (rule on_ctx_keeps) (use assms(2) in \<open>auto simp: Let_def split: option.splits prod.splits if_splits\<close>)

lemma get_ctx_devices_keeps:
  assumes "on_ctx (get_nvm_context_devices os_fine n) w = Some (rc, xs, w')" "p_context (w_ctx w) \<noteq> None"
  shows "p_context (w_ctx w') \<noteq> None"
  using assms(1) unfolding get_nvm_context_devices_def
  by (rule on_ctx_keeps) (use assms(2) in \<open>auto simp: Let_def bind_eq_Some_conv
      simp del: copy_discovery.simps split: option.splits prod.splits if_splits dest: sym\<close>)

lemma ctx_kept_read:
  assumes "ad_os ad = os_fine" "read_devices ad buf count w = Some (rc, devs, w')"
    "p_context (w_ctx w) \<noteq> None"
  shows "p_context (w_ctx w') \<noteq> None"
proof -
  let ?n = "topology_count ad (w_hw w)"
  obtain r dl where t: "topology ad (w_hw w) (of_int ?n) = (r, dl)" by fastforce
  show ?thesis
  proof (cases "?n \<le> 0 \<or> \<not> r > NVM_SUCCESS")
    case True
    with assms(2,3) t show ?thesis by (auto simp: read_devices_def Let_def split: if_splits)
  next
    case False
    with assms(1,2) t obtain rc1 devs1 cc w1 rcs u where
      i: "identify_devices ad dl count (nat ?n) 0 r buf 0 w = Some (rc1, devs1, cc, w1)"
      and s: "on_ctx (set_nvm_context_devices os_fine (take cc devs1)) w1 = Some (rcs, u, w')"
      by (auto simp: read_devices_def Let_def bind_eq_Some_conv)
    have "w_ctx w1 = w_ctx w" using identify_devices_effect [OF i] by simp
    with set_devices_keeps [OF s] assms(3) show ?thesis by simp
  qed
qed

lemma ctx_kept_devices:
  assumes "ad_os ad = os_fine" "nvm_get_devices ad (Some buf) count w = Some (rc, devs, w')"
    "p_context (w_ctx w) \<noteq> None"
  shows "p_context (w_ctx w') \<noteq> None"
proof (cases "permitted ad")
  case False
  with assms show ?thesis by (simp add: nvm_get_devices_def)
next
  case True
  with assms(2) obtain r1 w1 where s: "get_devices_is_supported ad w = Some (r1, w1)"
    by (auto simp: nvm_get_devices_def bind_eq_Some_conv)
  note s' = ctx_kept_supported [OF assms(1) s]
  show ?thesis
  proof (cases "r1 = NVM_SUCCESS")
    case False
    with assms(2,3) True s s' show ?thesis by (simp add: nvm_get_devices_def)
  next
    case ok: True
    from assms(1,2) True s ok obtain r2 xs w2 devs1 where
      g: "on_ctx (get_nvm_context_devices os_fine (uint count)) w1 = Some (r2, xs, w2)"
      and r: "(if \<not> (r2 < 0 \<and> r2 \<noteq> NVM_ERR_ARRAYTOOSMALL) then Some (r2, Some devs1, w2)
        else do { (rc, devs, w) \<leftarrow> read_devices ad devs1 count w2; Some (rc, Some devs, w) }) =
        Some (rc, devs, w')"
      by (auto simp: nvm_get_devices_def bind_eq_Some_conv Let_def)
    have "p_context (w_ctx w2) \<noteq> None" using get_ctx_devices_keeps [OF g] assms(3) s' by simp
    note k = this
    show ?thesis
    proof (cases "r2 < 0 \<and> r2 \<noteq> NVM_ERR_ARRAYTOOSMALL")
      case False
      with r k show ?thesis by auto
    next
      case True
      with r obtain d2 where "read_devices ad devs1 count w2 = Some (rc, d2, w')"
        by (auto simp: bind_eq_Some_conv)
      from ctx_kept_read [OF assms(1) this k] show ?thesis .
    qed
  qed
qed

lemma ctx_kept_read_capabilities:
  assumes "ad_os ad = os_fine" "read_capabilities ad w = Some (rc, c, w')" "p_context (w_ctx w) \<noteq> None"
  shows "p_context (w_ctx w') \<noteq> None"
proof -
  have sku: "p_context (w_ctx w2) \<noteq> None" if "apply_dimm_sku_capabilities ad c1 w = Some (r, c2, w2)" for c1 r c2 w2
  proof -
    from that obtain n w1 where n: "nvm_get_device_count ad w = Some (n, w1)"
      and cases: "w2 = w1 \<or> (\<exists>r1 devs. nvm_get_devices ad (Some (replicate (nat n) zero_discovery))
        (of_int n) w1 = Some (r1, devs, w2))"
      by (auto simp: apply_dimm_sku_capabilities_def bind_eq_Some_conv split: if_splits)
    have "p_context (w_ctx w1) \<noteq> None" using ctx_kept_count [OF assms(1) n] assms(3) by simp
    with cases ctx_kept_devices [OF assms(1)] show ?thesis by blast
  qed
  obtain r0 c0 where d: "apply_driver_capabilities ad (w_hw w) zero_capabilities = (r0, c0)" by fastforce
  with assms(2,3) sku show ?thesis
    by (auto simp: read_capabilities_def Let_def bind_eq_Some_conv split: if_splits)
qed

lemma capabilities_cached:
  assumes "ad_os ad = os_fine" "permitted ad" "p_context (w_ctx w) = Some x" "p_capabilities x = Some c"
  shows "nvm_get_nvm_capabilities ad True w =
    Some (NVM_SUCCESS, Some c, w\<lparr>w_ctx := \<lparr>p_context = Some x, lock_held = False\<rparr>\<rparr>)"
  using assms by (simp add: nvm_get_nvm_capabilities_def on_ctx_get_caps)

lemma capabilities_caches:
  assumes "ad_os ad = os_fine" "p_context (w_ctx w) \<noteq> None"
    "nvm_get_nvm_capabilities ad True w = Some (NVM_SUCCESS, Some c, w')"
  shows "\<exists>x. p_context (w_ctx w') = Some x \<and> p_capabilities x = Some c"
proof -
  from assms(2) obtain x where x: "p_context (w_ctx w) = Some x" by auto
  have p: "permitted ad" using assms(3) by (auto simp: nvm_get_nvm_capabilities_def split: if_splits)
  show ?thesis
  proof (cases "p_capabilities x")
    case (Some c')
    with capabilities_cached [OF assms(1) p x Some] assms(3) show ?thesis by auto
  next
    case None
    let ?w = "w\<lparr>w_ctx := \<lparr>p_context = Some x, lock_held = False\<rparr>\<rparr>"
    from assms(1,3) p x None obtain w1 r u where r: "read_capabilities ad ?w = Some (NVM_SUCCESS, c, w1)"
      and s: "on_ctx (set_nvm_context_capabilities os_fine c) w1 = Some (r, u, w')"
      by (auto simp: nvm_get_nvm_capabilities_def on_ctx_get_caps bind_eq_Some_conv split: if_splits)
    have "p_context (w_ctx w1) \<noteq> None" using ctx_kept_read_capabilities [OF assms(1) r] by simp
    with s show ?thesis
      by (auto simp: set_nvm_context_capabilities_def on_ctx_fine split: option.splits)
  qed
qed

section \<open>A platform without a bus\<close>

definition busless_adapter :: "unit adapter" where
  "busless_adapter = sample_adapter\<lparr>driver_capabilities := (\<lambda>_. (0, sample_caps\<lparr>drv_features :=
     (drv_features sample_caps)\<lparr>dff_get_topology := False,
       dff_get_platform_capabilities := False\<rparr>\<rparr>))\<rparr>"

lemma busless_simps [simp]:
  "ad_os busless_adapter = os_fine" "permitted busless_adapter"
  "p_context (w_ctx sample_world) = Some fresh_context"
  by (simp_all add: busless_adapter_def sample_adapter_def adapter_with_def sample_world_def created_state_def)

lemma busless_read:
  "\<exists>c w. nvm_get_nvm_capabilities busless_adapter True sample_world = Some (NVM_SUCCESS, Some c, w) \<and>
     create_namespace (nvm_features c)"
proof -
  have "\<exists>c. read_capabilities busless_adapter w = Some (NVM_SUCCESS, c, w) \<and>
    create_namespace (nvm_features c)" for w :: "(unit, nat) world"
    by (simp add: read_capabilities_def apply_driver_capabilities_def busless_adapter_def
        sample_caps_def driver_features_to_nvm_features_def Let_def zero_capabilities_def no_features_def)
  then obtain c where "read_capabilities busless_adapter
      (sample_world\<lparr>w_ctx := \<lparr>p_context = Some fresh_context, lock_held = False\<rparr>\<rparr>) =
      Some (NVM_SUCCESS, c, sample_world\<lparr>w_ctx := \<lparr>p_context = Some fresh_context, lock_held = False\<rparr>\<rparr>)"
    "create_namespace (nvm_features c)" by metis
  then show ?thesis
    by (auto simp: nvm_get_nvm_capabilities_def on_ctx_get_caps fresh_context_def
        set_nvm_context_capabilities_def on_ctx_fine)
qed

section \<open>Properties\<close>

text \<open>Capabilities are read once: after a successful call every further call returns the same
  capabilities from the context and sends no firmware command.\<close>

theorem capabilities_read_once:
  assumes "ad_os ad = os_fine" "p_context (w_ctx w) \<noteq> None"
    and "nvm_get_nvm_capabilities ad True w = Some (NVM_SUCCESS, Some c, w1)"
  shows "\<exists>w2. nvm_get_nvm_capabilities ad True w1 = Some (NVM_SUCCESS, Some c, w2) \<and>
    w_sent w2 = w_sent w1 \<and> w_hw w2 = w_hw w1"
proof -
  from capabilities_caches [OF assms] obtain x where
    x: "p_context (w_ctx w1) = Some x" "p_capabilities x = Some c" by blast
  have "permitted ad" using assms(3) by (auto simp: nvm_get_nvm_capabilities_def split: if_splits)
  from capabilities_cached [OF assms(1) this x] show ?thesis by simp
qed

theorem capabilities_read_once_witness:
  "\<exists>c w1 w2. nvm_get_nvm_capabilities busless_adapter True sample_world =
      Some (NVM_SUCCESS, Some c, w1) \<and>
    nvm_get_nvm_capabilities busless_adapter True w1 = Some (NVM_SUCCESS, Some c, w2) \<and>
    w_sent w2 = w_sent w1"
proof -
  from busless_read obtain c w1 where
    g: "nvm_get_nvm_capabilities busless_adapter True sample_world = Some (NVM_SUCCESS, Some c, w1)"
    by blast
  with capabilities_read_once [OF busless_simps(1) _ g] show ?thesis by auto
qed



text \<open>The formats of a BIOS interleave table are unfolded exactly: each entry of the list gives
  one format per channel way it supports, in the order of the list, each with the entry's
  \<open>recommended\<close> flag. The loop has no check of the array's size: with more than 32 formats it
  writes behind the array.\<close>

theorem interleave_formats_unfolded:
  assumes "length (interleave_formats c) = 32" "interleave_formats_count c = 0"
    and "\<And>i. i < length fs \<Longrightarrow> rd32 pcat (off + 4 * i) = Some (fs ! i)"
  shows "if length (concat (map expand_format fs)) \<le> 32
    then \<exists>c'. add_formats pcat off (length fs) c = Some c' \<and>
      map (\<lambda>f. (recommended f, ways f))
        (take (unat (interleave_formats_count c')) (interleave_formats c')) =
      concat (map expand_format fs)
    else add_formats pcat off (length fs) c = None"
proof -
  have "caps_room c" "formats_of c = []" using assms(1,2) by (simp_all add: caps_room_def formats_of_def)
  with add_formats_expand [OF _ assms(3), of c] show ?thesis
    by (auto simp: appends_def formats_of_def)
qed

theorem interleave_formats_unfolded_witness:
  "\<exists>c'. add_formats (le32 0x80030202 @ le32 0x00010404) 0 2 zero_memory_capabilities = Some c' \<and>
     map (\<lambda>f. (recommended f, ways f))
       (take (unat (interleave_formats_count c')) (interleave_formats c')) =
     [(1, INTERLEAVE_WAYS_1), (1, INTERLEAVE_WAYS_2), (0, INTERLEAVE_WAYS_1)]"
proof -
  let ?fs = "[0x80030202, 0x00010404 :: u32]" and ?t = "le32 0x80030202 @ le32 0x00010404"
  have e: "expand_format 0x80030202 = [(1, INTERLEAVE_WAYS_1), (1, INTERLEAVE_WAYS_2)]"
    "expand_format 0x00010404 = [(0, INTERLEAVE_WAYS_1)]"
    by (simp_all add: expand_format_def upt_rec interleave_way_to_enum.simps)
  have r: "rd32 ?t 0 = Some 0x80030202" "rd32 ?t 4 = Some 0x00010404"
    using rd32_append [of 0 "[]"] rd32_append [of 4 "le32 0x80030202" _ "[]"] by simp_all
  have "rd32 ?t (0 + 4 * i) = Some (?fs ! i)" if "i < length ?fs" for i
    using that r by (auto simp: less_Suc_eq)
  from interleave_formats_unfolded [OF _ _ this, of zero_memory_capabilities] show ?thesis
    by (simp add: e zero_memory_capabilities_def numeral_2_eq_2 del: add_formats.simps)
qed

text \<open>The scan over the modules computes what its flags say: the SKUs are mixed when some module
  differs from the first, and a mode is supported when some manageable module supports it.\<close>

theorem sku_scan:
  "scan_skus None ds (sku_capabilities zero_capabilities) =
    \<lparr>mixed_sku = (\<exists>d \<in> set ds. dimm_sku d \<noteq> dimm_sku (hd ds)),
     memory_sku = (\<exists>d \<in> set ds. manageability d = MANAGEMENT_VALIDCONFIG \<and> dimm_sku d AND 1 \<noteq> 0),
     app_direct_sku = (\<exists>d \<in> set ds. manageability d = MANAGEMENT_VALIDCONFIG \<and> dimm_sku d AND 4 \<noteq> 0),
     storage_sku = (\<exists>d \<in> set ds. manageability d = MANAGEMENT_VALIDCONFIG \<and> dimm_sku d AND 2 \<noteq> 0)\<rparr>"
  by (simp add: scan_skus_spec zero_capabilities_def)

end
