(* ===== verification/Lookups.thy ===== *)
theory Lookups
  imports Capabilities
begin

text \<open>
  What a lookup does to the world. Discovery, the lookups and the capability checks work on the
  context and send identify and security-state commands, nothing else. The step relation below
  says so once; each component draws from it, by rule induction, what its own commands need.
\<close>

inductive lookup_steps :: "'hw adapter \<Rightarrow> ('hw, 'det) world \<Rightarrow> ('hw, 'det) world \<Rightarrow> bool"
  for ad :: "'hw adapter" where
  lookup_none [simp, intro]: "lookup_steps ad w w"
| lookup_ctx: "lookup_steps ad w w' \<Longrightarrow> lookup_steps ad w (w'\<lparr>w_ctx := s\<rparr>)"
| lookup_cmd: "lookup_steps ad w w' \<Longrightarrow> cmd_opcode cmd = PT_IDENTIFY_DIMM \<or> cmd_opcode cmd = PT_GET_SEC_INFO \<Longrightarrow>
    ioctl_passthrough_cmd ad cmd w' = (rc, small, large, w'') \<Longrightarrow> lookup_steps ad w w''"

named_theorems steps \<open>which operations only look up\<close>

lemma lookup_steps_trans [trans]:
  assumes "lookup_steps ad w1 w2" "lookup_steps ad w2 w3"
  shows "lookup_steps ad w1 w3"
  using assms(2,1) by (induction rule: lookup_steps.induct) (auto intro: lookup_steps.intros)

lemma on_ctx_steps [steps]: "on_ctx f w = Some (rc, out, w') \<Longrightarrow> lookup_steps ad w w'"
  by (auto simp: on_ctx_def bind_eq_Some_conv intro: lookup_ctx split: prod.splits)

lemma ioctl_steps:
  "ioctl_passthrough_cmd ad cmd w = (rc, s, l, w') \<Longrightarrow>
   cmd_opcode cmd = PT_IDENTIFY_DIMM \<or> cmd_opcode cmd = PT_GET_SEC_INFO \<Longrightarrow> lookup_steps ad w w'"
  by (rule lookup_cmd [OF lookup_none])

text \<open>What every lookup step preserves, a run of them preserves.\<close>

lemma lookup_steps_preserve:
  assumes "lookup_steps ad w w'" "P w"
    and "\<And>w s. P w \<Longrightarrow> P (w\<lparr>w_ctx := s\<rparr>)"
    and "\<And>w cmd rc small large w'. P w \<Longrightarrow>
      cmd_opcode cmd = PT_IDENTIFY_DIMM \<or> cmd_opcode cmd = PT_GET_SEC_INFO \<Longrightarrow>
      ioctl_passthrough_cmd ad cmd w = (rc, small, large, w') \<Longrightarrow> P w'"
  shows "P w'"
  using assms(1,2) by (induction rule: lookup_steps.induct) (auto intro: assms(3,4))

lemma supported_steps [steps]: "get_devices_is_supported ad w = Some (rc, w') \<Longrightarrow> lookup_steps ad w w'"
  by (auto simp: get_devices_is_supported_def bind_eq_Some_conv Let_def split: if_splits prod.splits
      dest: on_ctx_steps)

lemma count_steps [steps]:
  assumes "nvm_get_device_count ad w = Some (rc, w')"
  shows "lookup_steps ad w w'"
  using assms by (auto simp: nvm_get_device_count_def bind_eq_Some_conv split: if_splits
      dest!: supported_steps on_ctx_steps intro: lookup_steps_trans)

lemma security_state_steps:
  "fw_get_security_state ad h w = Some (rc, st, w') \<Longrightarrow> lookup_steps ad w w'"
  by (auto simp: fw_get_security_state_def bind_eq_Some_conv Let_def fw_cmd_for_def split: prod.splits
      dest!: ioctl_steps)

lemma identify_one_steps: "identify_one ad b t old w = Some (d, w') \<Longrightarrow> lookup_steps ad w w'"
  by (auto simp: identify_one_def bind_eq_Some_conv split: if_splits dest: security_state_steps)

lemma identify_devices_steps:
  fixes w :: "('hw, 'det) world"
  shows "identify_devices ad dl count n i rc devs cc w = Some (rc', devs', cc', w') \<Longrightarrow> lookup_steps ad w w'"
proof (induction n arbitrary: i rc devs cc w)
  case 0
  then show ?case by simp
next
  case (Suc n)
  obtain rc1 id_dimm lg w1 where io: "ioctl_passthrough_cmd ad
      ((fw_cmd_for (topo_device_handle (dl ! i)) PT_IDENTIFY_DIMM 0)\<lparr>cmd_output_payload_size := 128\<rparr>) w
      = (rc1, id_dimm, lg, w1)" by (metis prod_cases4)
  have r: "lookup_steps ad w w1" by (rule ioctl_steps [OF io]) (simp add: fw_cmd_for_def)
  from Suc.prems io consider "w' = w" | "w' = w1" |
      d w2 where "identify_one ad id_dimm (dl ! i) (devs ! i) w1 = Some (d, w2)"
        "identify_devices ad dl count n (Suc i) rc1 (devs[i := d]) (Suc cc) w2 = Some (rc', devs', cc', w')"
    by (auto simp: Let_def bind_eq_Some_conv split: if_splits)
  then show ?case
  proof cases
    case 3
    from lookup_steps_trans [OF r lookup_steps_trans [OF identify_one_steps [OF 3(1)] Suc.IH [OF 3(2)]]]
    show ?thesis .
  qed (use r in auto)
qed

lemma read_devices_steps:
  assumes "read_devices ad devs count w = Some (rc, devs', w')"
  shows "lookup_steps ad w w'"
proof -
  obtain r dl where t: "topology ad (w_hw w) (of_int (topology_count ad (w_hw w))) = (r, dl)" by fastforce
  from assms t show ?thesis
    by (auto simp: read_devices_def Let_def bind_eq_Some_conv split: if_splits
        dest!: identify_devices_steps on_ctx_steps intro: lookup_steps_trans)
qed

lemma devices_steps [steps]:
  assumes "nvm_get_devices ad devices count w = Some (rc, devs, w')"
  shows "lookup_steps ad w w'"
  using assms
  by (auto simp: nvm_get_devices_def bind_eq_Some_conv Let_def split: if_splits option.splits
      dest!: supported_steps on_ctx_steps read_devices_steps intro: lookup_steps_trans)

lemma get_devices_steps [steps]: "get_devices ad w = Some (rc, d, w') \<Longrightarrow> lookup_steps ad w w'"
  by (auto simp: get_devices_def bind_eq_Some_conv split: if_splits
      dest!: count_steps devices_steps intro: lookup_steps_trans)

lemma lookup_steps [steps]: "lookup_dev_guid ad g w = Some (rc, d, w') \<Longrightarrow> lookup_steps ad w w'"
  by (auto simp: lookup_dev_guid_def bind_eq_Some_conv split: option.splits dest!: get_devices_steps)

lemma lookup_handle_steps [steps]: "lookup_dev_handle ad h w = Some (rc, d, w') \<Longrightarrow> lookup_steps ad w w'"
  by (auto simp: lookup_dev_handle_def bind_eq_Some_conv split: option.splits dest!: get_devices_steps)

lemma exists_steps [steps]: "exists_and_manageable ad g chk w = Some (rc, d, w') \<Longrightarrow> lookup_steps ad w w'"
  by (auto simp: exists_and_manageable_def bind_eq_Some_conv split: if_splits dest!: lookup_steps)

lemma discovery_steps [steps]: "nvm_get_device_discovery ad g out w = Some (rc, d, w') \<Longrightarrow> lookup_steps ad w w'"
  by (auto simp: nvm_get_device_discovery_def bind_eq_Some_conv split: if_splits
      dest!: supported_steps lookup_steps intro: lookup_steps_trans)

lemma sku_steps: "apply_dimm_sku_capabilities ad c w = Some (rc, c', w') \<Longrightarrow> lookup_steps ad w w'"
  by (auto simp: apply_dimm_sku_capabilities_def bind_eq_Some_conv split: if_splits
      dest!: count_steps devices_steps intro: lookup_steps_trans)

lemma read_capabilities_steps: "read_capabilities ad w = Some (rc, c, w') \<Longrightarrow> lookup_steps ad w w'"
  by (cases "apply_driver_capabilities ad (w_hw w) zero_capabilities")
    (auto simp: read_capabilities_def bind_eq_Some_conv Let_def split: if_splits dest!: sku_steps)

lemma capabilities_steps: "nvm_get_nvm_capabilities ad out w = Some (rc, c, w') \<Longrightarrow> lookup_steps ad w w'"
  by (auto simp: nvm_get_nvm_capabilities_def bind_eq_Some_conv split: if_splits
      dest!: on_ctx_steps read_capabilities_steps intro: lookup_steps_trans)

lemma feature_steps [steps]: "is_nvm_feature_supported ad f w = Some (rc, w') \<Longrightarrow> lookup_steps ad w w'"
  by (auto simp: is_nvm_feature_supported_def bind_eq_Some_conv split: if_splits dest!: capabilities_steps)

end
