(* ===== verification/PcdTables.thy ===== *)
theory PcdTables
  imports Pcd
begin

text \<open>
  The extension tables as data, with their packed layout, and what the walks of
  \<^verbatim>\<open>platform_config_data.c\<close> find in a sequence of them: the library's contract with the
  BIOS, which writes such sequences.
\<close>

section \<open>Layout\<close>

record dimm_info_extension_table =
  di_manufacturer :: bytes
  di_serial_number :: bytes
  di_model_number :: bytes
  di_offset :: u64
  di_size :: u64

record interleave_info_extension_table =
  ii_index :: u16
  ii_memory_type :: u8
  ii_interleave_format :: u32
  ii_mirror_enable :: u8
  ii_status :: u8
  ii_mem_spare :: u8
  ii_dimms :: "dimm_info_extension_table list"

datatype extension_table =
    Partition_change u32 u64
  | Interleave_info interleave_info_extension_table
  | Other_table u16 bytes

definition encode_dimm :: "dimm_info_extension_table \<Rightarrow> bytes" where
  "encode_dimm d =
     di_manufacturer d @ di_serial_number d @ di_model_number d @ replicate 6 0 @
     le64 (di_offset d) @ le64 (di_size d)"

definition wf_dimm :: "dimm_info_extension_table \<Rightarrow> bool" where
  "wf_dimm d \<longleftrightarrow>
     length (di_manufacturer d) = 2 \<and> length (di_serial_number d) = 4 \<and>
     length (di_model_number d) = 20"

definition encode_interleave :: "interleave_info_extension_table \<Rightarrow> bytes" where
  "encode_interleave i =
     le16 INTERLEAVE_TABLE @ le16 (of_nat (INTERLEAVE_LEN + DIMM_INFO_LEN * length (ii_dimms i))) @
     le16 (ii_index i) @ [of_nat (length (ii_dimms i)), ii_memory_type i] @
     le32 (ii_interleave_format i) @ [ii_mirror_enable i, ii_status i, ii_mem_spare i] @
     replicate 9 0 @ concat (map encode_dimm (ii_dimms i))"

fun encode_ext :: "extension_table \<Rightarrow> bytes" where
  "encode_ext (Partition_change st sz) =
     le16 PARTITION_CHANGE_TABLE @ le16 (of_nat PARTITION_LEN) @ le32 st @ le64 sz"
| "encode_ext (Interleave_info i) = encode_interleave i"
| "encode_ext (Other_table ty body) = le16 ty @ le16 (of_nat (4 + length body)) @ body"

definition encode_exts :: "extension_table list \<Rightarrow> bytes" where
  "encode_exts es = concat (map encode_ext es)"

fun ext_type :: "extension_table \<Rightarrow> u16" where
  "ext_type (Partition_change _ _) = PARTITION_CHANGE_TABLE"
| "ext_type (Interleave_info _) = INTERLEAVE_TABLE"
| "ext_type (Other_table ty _) = ty"

fun wf_ext :: "extension_table \<Rightarrow> bool" where
  "wf_ext (Partition_change _ _) = True"
| "wf_ext (Interleave_info i) = (length (ii_dimms i) < 256 \<and> list_all wf_dimm (ii_dimms i))"
| "wf_ext (Other_table ty body) =
     (ty \<noteq> PARTITION_CHANGE_TABLE \<and> ty \<noteq> INTERLEAVE_TABLE \<and> body \<noteq> [] \<and> length body < 65532)"

lemma length_encode_dimm: "wf_dimm d \<Longrightarrow> length (encode_dimm d) = DIMM_INFO_LEN"
  by (simp add: wf_dimm_def encode_dimm_def)

lemma length_encode_dimms:
  "list_all wf_dimm ds \<Longrightarrow> length (concat (map encode_dimm ds)) = DIMM_INFO_LEN * length ds"
  by (induction ds) (auto simp: length_encode_dimm)

lemma length_encode_interleave:
  "list_all wf_dimm (ii_dimms i) \<Longrightarrow>
   length (encode_interleave i) = INTERLEAVE_LEN + DIMM_INFO_LEN * length (ii_dimms i)"
  using length_encode_dimms [of "ii_dimms i"] by (simp add: encode_interleave_def)

lemma length_encode_ext:
  "wf_ext e \<Longrightarrow> 4 < length (encode_ext e) \<and> length (encode_ext e) < 65536"
  by (cases e) (auto simp: length_encode_interleave)

lemma encode_exts_simps [simp]:
  "encode_exts [] = []" "encode_exts (e # es) = encode_ext e @ encode_exts es"
  "encode_exts (es @ es') = encode_exts es @ encode_exts es'"
  by (simp_all add: encode_exts_def)

section \<open>Reading one table\<close>

lemma ext_header:
  assumes "wf_ext e" "off = length pre"
  shows "rd16 (pre @ encode_ext e @ post) off = Some (ext_type e)"
    and "rd16 (pre @ encode_ext e @ post) (off + 2) = Some (of_nat (length (encode_ext e)))"
proof -
  show "rd16 (pre @ encode_ext e @ post) off = Some (ext_type e)"
    using assms by (cases e) (simp_all add: rd_as_bytes rd_walk le_nat_back encode_interleave_def)
  show "rd16 (pre @ encode_ext e @ post) (off + 2) = Some (of_nat (length (encode_ext e)))"
    using assms
    by (cases e) (simp_all add: rd_as_bytes rd_walk le_nat_back encode_interleave_def
        length_encode_dimms)
qed

lemma unat_ext_length:
  "wf_ext e \<Longrightarrow> unat (of_nat (length (encode_ext e)) :: u16) = length (encode_ext e)"
  using length_encode_ext [of e] by (simp add: unat_of_nat)

lemma partition_fields:
  assumes "off = length pre"
  shows "rd32 (pre @ encode_ext (Partition_change st sz) @ post) (off + 4) = Some st"
    and "rd64 (pre @ encode_ext (Partition_change st sz) @ post) (off + 8) = Some sz"
    and "rd_bytes (pre @ encode_ext (Partition_change st sz) @ post) off PARTITION_LEN
           = Some (encode_ext (Partition_change st sz))"
  using assms by (simp_all add: rd_as_bytes rd_walk le_nat_back)
    (simp add: rd_bytes_def)

lemma interleave_fields:
  fixes pre post :: bytes
  assumes "wf_ext (Interleave_info i)" "off = length pre"
  defines "buf \<equiv> pre @ encode_ext (Interleave_info i) @ post"
  shows "rd16 buf (off + 4) = Some (ii_index i)"
    and "rd8 buf (off + 6) = Some (of_nat (length (ii_dimms i)))"
    and "rd8 buf (off + 7) = Some (ii_memory_type i)"
    and "rd32 buf (off + 8) = Some (ii_interleave_format i)"
    and "rd8 buf (off + 12) = Some (ii_mirror_enable i)"
    and "rd8 buf (off + 13) = Some (ii_status i)"
    and "rd_bytes buf (off + INTERLEAVE_LEN) (DIMM_INFO_LEN * length (ii_dimms i)) =
           Some (concat (map encode_dimm (ii_dimms i)))"
  using assms
  by (simp_all add: rd_as_bytes rd_walk le_nat_back encode_interleave_def length_encode_dimms
      del: length_concat)

section \<open>Walking a sequence\<close>

text \<open>The error a table reports, and the first one a sequence reports.\<close>

fun ext_error :: "extension_table \<Rightarrow> config_error" where
  "ext_error (Partition_change st _) = partition_status_error st"
| "ext_error (Interleave_info i) = interleave_status_error (ii_status i)"
| "ext_error (Other_table _ _) = CONFIG_ERROR_NOTFOUND"

definition first_error :: "extension_table list \<Rightarrow> config_error" where
  "first_error es =
     (case find (\<lambda>e. ext_error e \<noteq> CONFIG_ERROR_NOTFOUND) es of
        None \<Rightarrow> CONFIG_ERROR_NOTFOUND
      | Some e \<Rightarrow> ext_error e)"

lemma config_error_step:
  assumes "wf_ext e" "off = length pre" "off < limit"
  shows "config_error_walk (pre @ encode_ext e @ post) limit off =
    (if ext_error e = CONFIG_ERROR_NOTFOUND
     then config_error_walk (pre @ encode_ext e @ post) limit (off + length (encode_ext e))
     else Some (ext_error e))"
proof -
  note hd = ext_header [OF assms(1,2), where post = post] unat_ext_length [OF assms(1)]
  have len: "\<not> length (encode_ext e) \<le> 4" using length_encode_ext [OF assms(1)] by simp
  show ?thesis
  proof (cases e)
    case (Partition_change st sz)
    show ?thesis
      using hd len assms(3) partition_fields(1) [OF assms(2), where post = post]
      by (subst config_error_walk.simps) (simp add: Partition_change del: encode_ext.simps)
  next
    case (Interleave_info i)
    show ?thesis
      using hd len assms(3)
        interleave_fields(6) [OF assms(1) [unfolded Interleave_info] assms(2), where post = post]
      by (subst config_error_walk.simps) (simp add: Interleave_info del: encode_ext.simps)
  next
    case (Other_table ty body)
    show ?thesis
      using hd len assms(1,3)
      by (subst config_error_walk.simps) (simp add: Other_table del: encode_ext.simps)
  qed
qed

lemma config_error_walk_exts:
  assumes "list_all wf_ext es"
  shows "config_error_walk (pre @ encode_exts es @ post) (length pre + length (encode_exts es))
           (length pre) = Some (first_error es)"
  using assms
proof (induction es arbitrary: pre)
  case Nil
  then show ?case by (subst config_error_walk.simps) (simp add: first_error_def)
next
  case (Cons e es)
  then have e: "wf_ext e" by simp
  from length_encode_ext [OF e] have
    "length pre < length pre + length (encode_ext e @ encode_exts es)" by auto
  from config_error_step [OF e refl this, where post = "encode_exts es @ post"]
    Cons.IH [of "pre @ encode_ext e"] Cons.prems
  show ?case by (simp add: first_error_def add.assoc)
qed

lemma print_step:
  assumes "wf_ext e" "off = length pre" "off < limit"
    and "print_extension_tables (pre @ encode_ext e @ post) limit (off + length (encode_ext e)) = Some ()"
  shows "print_extension_tables (pre @ encode_ext e @ post) limit off = Some ()"
proof -
  note hd = ext_header [OF assms(1,2), where post = post] unat_ext_length [OF assms(1)]
  show ?thesis
  proof (cases e)
    case (Partition_change st sz)
    show ?thesis
      using hd assms(3,4) partition_fields(3) [OF assms(2), where post = post]
      by (subst print_extension_tables.simps) (simp add: Partition_change del: encode_ext.simps)
  next
    case (Interleave_info i)
    note w = assms(1) [unfolded Interleave_info]
    have n: "unat (of_nat (length (ii_dimms i)) :: u8) = length (ii_dimms i)"
      using w by (simp add: unat_of_nat)
    have p: "\<exists>bs. rd_bytes (pre @ encode_ext e @ post) off 14 = Some bs"
      using assms(2) w by (simp add: rd_bytes_def Interleave_info length_encode_interleave)
    show ?thesis
      using hd assms(3,4) p interleave_fields(2,7) [OF w assms(2), where post = post] n
      by (subst print_extension_tables.simps) (auto simp: Interleave_info simp del: encode_ext.simps)
  next
    case (Other_table ty body)
    show ?thesis
      using hd assms(1,3)
      by (subst print_extension_tables.simps) (simp add: Other_table del: encode_ext.simps)
  qed
qed

lemma print_exts:
  assumes "list_all wf_ext es"
  shows "print_extension_tables (pre @ encode_exts es @ post)
           (length pre + length (encode_exts es)) (length pre) = Some ()"
  using assms
proof (induction es arbitrary: pre)
  case Nil
  then show ?case by (subst print_extension_tables.simps) simp
next
  case (Cons e es)
  then have e: "wf_ext e" by simp
  from length_encode_ext [OF e] have
    lt: "length pre < length pre + length (encode_ext e @ encode_exts es)" by auto
  from print_step [OF e refl lt, where post = "encode_exts es @ post"]
    Cons.IH [of "pre @ encode_ext e"] Cons.prems
  show ?case by (simp add: add.assoc)
qed

text \<open>The largest index among the interleave tables.\<close>

fun ext_indexes :: "extension_table list \<Rightarrow> u16 list" where
  "ext_indexes [] = []"
| "ext_indexes (Interleave_info i # es) = ii_index i # ext_indexes es"
| "ext_indexes (_ # es) = ext_indexes es"

definition max_index :: "u32 \<Rightarrow> extension_table list \<Rightarrow> u32" where
  "max_index idx es = fold (\<lambda>i m. max m (ucast i)) (ext_indexes es) idx"

lemma walk_offset:
  "off + n < 2 ^ 32 \<Longrightarrow> n < 65536 \<Longrightarrow>
   (of_nat off :: u32) + ucast (of_nat n :: u16) = of_nat (off + n)"
  by (simp add: unsigned_of_nat take_bit_nat_eq_self)

lemma set_index_step:
  assumes e: "wf_ext e" and lim: "length pre + length (encode_ext e) < 2 ^ 32" "length pre < limit"
  shows "walk_set_index (pre @ encode_ext e @ post) limit (of_nat (length pre)) idx =
    walk_set_index (pre @ encode_ext e @ post) limit (of_nat (length pre + length (encode_ext e)))
      (max_index idx [e])"
proof -
  note hd = ext_header [OF e refl, where post = post and pre = pre]
  have un: "unat (of_nat (length pre) :: u32) = length pre"
    using lim by (simp add: unat_of_nat)
  have nz: "(of_nat (length (encode_ext e)) :: u16) \<noteq> 0"
    using unat_ext_length [OF e] length_encode_ext [OF e] by (metis not_less_zero unat_0)
  have off: "(of_nat (length pre) :: u32) + ucast (of_nat (length (encode_ext e)) :: u16) =
      of_nat (length pre + length (encode_ext e))"
    using lim length_encode_ext [OF e] by (intro walk_offset) auto
  have mx: "(if idx < j then j else idx) = max idx j" for j :: u32
    by (auto simp: max_def)
  show ?thesis
  proof (cases e)
    case (Partition_change st sz)
    show ?thesis
      using hd lim nz off un
      by (subst walk_set_index.simps)
        (simp add: Partition_change max_index_def del: encode_ext.simps of_nat_add)
  next
    case (Interleave_info i)
    note w = e [unfolded Interleave_info]
    show ?thesis
      using hd lim nz off un interleave_fields(1) [OF w refl, where post = post and pre = pre]
      by (subst walk_set_index.simps)
        (simp add: Interleave_info max_index_def mx del: encode_ext.simps of_nat_add)
  next
    case (Other_table ty body)
    show ?thesis
      using hd lim nz off un e
      by (subst walk_set_index.simps)
        (simp add: Other_table max_index_def del: encode_ext.simps of_nat_add)
  qed
qed

lemma max_index_Cons: "max_index idx (e # es) = max_index (max_index idx [e]) es"
  by (cases e) (auto simp: max_index_def)

lemma walk_set_index_exts:
  assumes "list_all wf_ext es" "length pre + length (encode_exts es) < 2 ^ 32"
  shows "walk_set_index (pre @ encode_exts es @ post) (length pre + length (encode_exts es))
           (of_nat (length pre)) idx = Some (max_index idx es, NVM_SUCCESS)"
  using assms
proof (induction es arbitrary: pre idx)
  case Nil
  then show ?case
    by (subst walk_set_index.simps) (simp add: max_index_def ext_indexes.simps unat_of_nat)
next
  case (Cons e es)
  then have e: "wf_ext e" by simp
  from length_encode_ext [OF e] have
    lt: "length pre < length pre + length (encode_ext e @ encode_exts es)" by auto
  have sh: "length pre + length (encode_ext e) < 2 ^ 32" using Cons.prems by simp
  from set_index_step [OF e sh lt, where post = "encode_exts es @ post" and idx = idx]
    Cons.IH [of "pre @ encode_ext e" "max_index idx [e]"] Cons.prems
  show ?case by (simp add: add.assoc max_index_Cons [of idx e es] del: of_nat_add)
qed

text \<open>An interleave set an application can look up: application direct memory with the wanted
  offset on its first DIMM.\<close>

fun ext_is_set_at :: "u64 \<Rightarrow> extension_table \<Rightarrow> bool" where
  "ext_is_set_at o' (Interleave_info i) =
     (ii_memory_type i = INTERLEAVE_MEMORY_TYPE_APP_DIRECT \<and>
      (case ii_dimms i of [] \<Rightarrow> False | d # _ \<Rightarrow> di_offset d = o'))"
| "ext_is_set_at o' _ = False"

lemma interleave_set_has_offset_enc:
  assumes "wf_ext (Interleave_info i)"
  shows "interleave_set_has_offset (encode_ext (Interleave_info i) @ post) o' =
    Some (case ii_dimms i of [] \<Rightarrow> False | d # _ \<Rightarrow> di_offset d = o')"
proof -
  have hd: "rd16 (encode_ext (Interleave_info i) @ post) 2 =
      Some (of_nat (length (encode_ext (Interleave_info i))))"
    using ext_header(2) [OF assms, where pre = "[]" and post = post]
    by (simp add: numeral_2_eq_2 del: encode_ext.simps)
  have len: "unat (of_nat (length (encode_interleave i)) :: u16) = 24 + 48 * length (ii_dimms i)"
    using unat_ext_length [OF assms] assms by (simp add: length_encode_interleave)
  show ?thesis
  proof (cases "ii_dimms i")
    case Nil
    then show ?thesis using hd len by (simp add: interleave_set_has_offset_def)
  next
    case (Cons d ds)
    then have "rd64 (encode_interleave i @ post) 56 = Some (di_offset d)"
      using assms
      by (simp add: rd_as_bytes rd_walk le_nat_back encode_interleave_def encode_dimm_def wf_dimm_def)
    then show ?thesis using hd len Cons by (auto simp: interleave_set_has_offset_def)
  qed
qed

fun set_position :: "u64 \<Rightarrow> nat \<Rightarrow> extension_table list \<Rightarrow> nat option" where
  "set_position o' n [] = None"
| "set_position o' n (e # es) =
     (if ext_is_set_at o' e then Some n else set_position o' (n + length (encode_ext e)) es)"

lemma find_set_step:
  assumes e: "wf_ext e" and lim: "length pre + length (encode_ext e) \<le> limit" "limit < 2 ^ 32"
  shows "find_interleave_set (pre @ encode_ext e @ post) (of_nat limit) o' (of_nat (length pre)) =
    (if ext_is_set_at o' e then Some (Some (length pre))
     else find_interleave_set (pre @ encode_ext e @ post) (of_nat limit) o'
       (of_nat (length pre + length (encode_ext e))))"
proof -
  note hd = ext_header [OF e refl, where post = post and pre = pre]
  have len: "length (encode_ext e) < 65536" "4 < length (encode_ext e)"
    using length_encode_ext [OF e] by auto
  have un: "unat (of_nat (length pre) :: u32) = length pre"
    using lim by (simp add: unat_of_nat)
  have lt: "(of_nat (length pre) :: u32) < of_nat limit"
    using lim len by (simp add: word_less_nat_alt unat_of_nat)
  have nz: "(of_nat (length (encode_ext e)) :: u16) \<noteq> 0"
    using unat_ext_length [OF e] len by (metis not_less_zero unat_0)
  have off: "(of_nat (length pre) :: u32) + ucast (of_nat (length (encode_ext e)) :: u16) =
      of_nat (length pre + length (encode_ext e))"
    using lim len by (intro walk_offset) auto
  have le: "\<not> (of_nat limit :: u32) < of_nat (length pre + length (encode_ext e))"
    using lim by (simp add: word_less_nat_alt unat_of_nat del: of_nat_add)
  show ?thesis
  proof (cases e)
    case (Partition_change st sz)
    show ?thesis
      using hd nz off un lt le
      by (subst find_interleave_set.simps)
        (simp add: Partition_change del: encode_ext.simps of_nat_add)
  next
    case (Interleave_info i)
    note w = e [unfolded Interleave_info]
    show ?thesis
      using hd nz off un lt le interleave_fields(3) [OF w refl, where post = post and pre = pre]
        interleave_set_has_offset_enc [OF w, of post o']
      by (subst find_interleave_set.simps)
        (simp add: Interleave_info del: encode_ext.simps of_nat_add)
  next
    case (Other_table ty body)
    show ?thesis
      using hd nz off un lt le e
      by (subst find_interleave_set.simps)
        (simp add: Other_table del: encode_ext.simps of_nat_add)
  qed
qed

lemma find_set_exts:
  assumes "list_all wf_ext es" "length pre + length (encode_exts es) < 2 ^ 32"
  shows "find_interleave_set (pre @ encode_exts es @ post)
           (of_nat (length pre + length (encode_exts es))) o' (of_nat (length pre)) =
         Some (set_position o' (length pre) es)"
  using assms
proof (induction es arbitrary: pre)
  case Nil
  then show ?case by (subst find_interleave_set.simps) simp
next
  case (Cons e es)
  then have e: "wf_ext e" by simp
  have lt: "length pre + length (encode_ext e) \<le> length pre + length (encode_exts (e # es))"
    by simp
  from find_set_step [OF e lt Cons.prems(2), where post = "encode_exts es @ post" and o' = o']
    Cons.IH [of "pre @ encode_ext e"] Cons.prems
  show ?case by (simp add: add.assoc del: of_nat_add)
qed

lemma set_position_Some:
  assumes "list_all wf_ext es" "find (ext_is_set_at o') es = Some (Interleave_info i)"
  shows "\<exists>xs ys. set_position o' n es = Some (n + length xs) \<and>
           encode_exts es = xs @ encode_ext (Interleave_info i) @ ys \<and> wf_ext (Interleave_info i)"
  using assms
proof (induction es arbitrary: n)
  case Nil
  then show ?case by simp
next
  case (Cons e es)
  show ?case
  proof (cases "ext_is_set_at o' e")
    case True
    with Cons.prems show ?thesis
      by (intro exI [of _ "[]"] exI [of _ "encode_exts es"]) auto
  next
    case False
    with Cons.prems have "find (ext_is_set_at o') es = Some (Interleave_info i)" by simp
    moreover have "list_all wf_ext es" using Cons.prems by simp
    ultimately obtain xs ys where
      *: "set_position o' (n + length (encode_ext e)) es = Some (n + length (encode_ext e) + length xs)"
        "encode_exts es = xs @ encode_ext (Interleave_info i) @ ys" "wf_ext (Interleave_info i)"
      using Cons.IH by blast
    with False show ?thesis
      by (intro exI [of _ "encode_ext e @ xs"] exI [of _ ys]) (simp add: add.assoc)
  qed
qed

lemma set_position_None:
  "find (ext_is_set_at o') es = None \<Longrightarrow> set_position o' n es = None"
  by (induction es arbitrary: n) (auto split: if_splits)

section \<open>Building valid data\<close>

definition table_ok :: "bytes \<Rightarrow> nat \<Rightarrow> bytes \<Rightarrow> bool" where
  "table_ok sig hdr t \<longleftrightarrow>
     hdr \<le> length t \<and> length t < 2 ^ 32 \<and> table_length t = Some (of_nat (length t)) \<and>
     take 4 t = sig \<and> sum_list t = 0 \<and>
     (\<exists>es. list_all wf_ext es \<and> drop hdr t = encode_exts es)"

lemma verify_prefix:
  "sum_list t = 0 \<Longrightarrow> length t < 2 ^ 32 \<Longrightarrow>
   verify_checksum (t @ r) (of_nat (length t)) = Some NVM_SUCCESS"
  by (simp add: verify_checksum_def unat_of_nat)

lemma check_signature_prefix:
  "4 \<le> length t \<Longrightarrow> take 4 t = sig \<Longrightarrow> check_signature sig (t @ r) = Some NVM_SUCCESS"
  by (simp add: check_signature_def rd_bytes_def)

lemma table_length_prefix:
  "table_length t = Some n \<Longrightarrow> table_length (t @ r) = Some n"
  by (simp add: table_length_def rd_append)

lemma print_prefix:
  assumes "table_ok sig hdr t"
  shows "print_extension_tables (drop hdr (t @ r)) (length t - hdr) 0 = Some ()"
proof -
  from assms obtain es where es: "list_all wf_ext es" "drop hdr t = encode_exts es" "hdr \<le> length t"
    by (auto simp: table_ok_def)
  then have "length t - hdr = length (encode_exts es)" by (metis length_drop)
  with print_exts [OF es(1), of "[]" r] es show ?thesis by simp
qed

lemma print_fixed:
  "o' + n \<le> hdr \<Longrightarrow> hdr \<le> length t \<Longrightarrow> \<exists>bs. rd_bytes (t @ r) o' n = Some bs"
  by (simp add: rd_bytes_def)

lemma print_current_ok:
  assumes "table_ok sig CURRENT_LEN t"
  shows "print_pcd_current (t @ r) = Some ()"
proof -
  from assms have t: "CURRENT_LEN \<le> length t" "length t < 2 ^ 32"
    "table_length t = Some (of_nat (length t))" by (auto simp: table_ok_def)
  then obtain a b where "rd_bytes (t @ r) 0 HEADER_LEN = Some a" "rd_bytes (t @ r) 36 20 = Some b"
    using print_fixed [of 0 HEADER_LEN CURRENT_LEN t r] print_fixed [of 36 20 CURRENT_LEN t r] by auto
  with t print_prefix [OF assms] show ?thesis
    by (simp add: print_pcd_current_def print_config_data_table_header_def table_length_prefix unat_of_nat)
qed

lemma print_input_ok:
  assumes "table_ok sig INPUT_LEN t"
  shows "print_pcd_input (t @ r) = Some ()"
proof -
  from assms have t: "INPUT_LEN \<le> length t" "length t < 2 ^ 32"
    "table_length t = Some (of_nat (length t))" by (auto simp: table_ok_def)
  then obtain a b where "rd_bytes (t @ r) 0 HEADER_LEN = Some a" "rd_bytes (t @ r) 36 4 = Some b"
    using print_fixed [of 0 HEADER_LEN INPUT_LEN t r] print_fixed [of 36 4 INPUT_LEN t r] by auto
  with t print_prefix [OF assms] show ?thesis
    by (simp add: print_pcd_input_def print_config_data_table_header_def table_length_prefix unat_of_nat)
qed

lemma print_output_ok:
  assumes "table_ok sig OUTPUT_LEN t"
  shows "print_pcd_output (t @ r) = Some ()"
proof -
  from assms have t: "OUTPUT_LEN \<le> length t" "length t < 2 ^ 32"
    "table_length t = Some (of_nat (length t))" by (auto simp: table_ok_def)
  then obtain a b where "rd_bytes (t @ r) 0 HEADER_LEN = Some a" "rd_bytes (t @ r) 36 5 = Some b"
    using print_fixed [of 0 HEADER_LEN OUTPUT_LEN t r] print_fixed [of 36 5 OUTPUT_LEN t r] by auto
  with t print_prefix [OF assms] show ?thesis
    by (simp add: print_pcd_output_def print_config_data_table_header_def table_length_prefix unat_of_nat)
qed

text \<open>\<open>holds cfg fld p\<close>: the data's fields at \<open>fld\<close> describe exactly the optional table
  \<open>p\<close>.\<close>

definition holds :: "bytes \<Rightarrow> nat \<Rightarrow> bytes option \<Rightarrow> bool" where
  "holds cfg fld p \<longleftrightarrow>
     (case p of
        None \<Rightarrow> rd32 cfg fld = Some 0
      | Some t \<Rightarrow> rd32 cfg fld = Some (of_nat (length t)) \<and>
          (\<exists>off r. rd32 cfg (fld + 4) = Some off \<and> drop (unat off) cfg = t @ r))"

lemma nonzero_size: "0 < n \<Longrightarrow> n < 2 ^ 32 \<Longrightarrow> (0 :: u32) < of_nat n"
  by (simp add: word_less_nat_alt unat_of_nat)

lemma check_current_ok:
  assumes "holds cfg 36 p" "\<And>t. p = Some t \<Longrightarrow> table_ok CURRENT_CONFIG_TABLE_SIGNATURE CURRENT_LEN t"
  shows "check_current_config cfg = Some NVM_SUCCESS"
proof (cases p)
  case None
  with assms(1) show ?thesis by (simp add: holds_def check_current_config_def)
next
  case (Some t)
  note ok = assms(2) [OF Some]
  with print_current_ok [OF ok] assms(1) Some show ?thesis
    by (auto simp: holds_def check_current_config_def Let_def table_ok_def table_length_prefix
        verify_prefix check_signature_prefix unat_of_nat nonzero_size)
qed

lemma check_input_ok:
  assumes "holds cfg 44 p" "\<And>t. p = Some t \<Longrightarrow> table_ok CONFIG_INPUT_TABLE_SIGNATURE INPUT_LEN t"
  shows "check_config_input cfg = Some NVM_SUCCESS"
proof (cases p)
  case None
  with assms(1) show ?thesis by (simp add: holds_def check_config_input_def)
next
  case (Some t)
  note ok = assms(2) [OF Some]
  with print_input_ok [OF ok] assms(1) Some show ?thesis
    by (auto simp: holds_def check_config_input_def Let_def table_ok_def table_length_prefix
        verify_prefix check_signature_prefix unat_of_nat nonzero_size)
qed

lemma check_output_ok:
  assumes "holds cfg 52 p" "\<And>t. p = Some t \<Longrightarrow> table_ok CONFIG_OUTPUT_TABLE_SIGNATURE OUTPUT_LEN t"
  shows "check_config_output cfg = Some NVM_SUCCESS"
proof (cases p)
  case None
  with assms(1) show ?thesis by (simp add: holds_def check_config_output_def)
next
  case (Some t)
  note ok = assms(2) [OF Some]
  with print_output_ok [OF ok] assms(1) Some show ?thesis
    by (auto simp: holds_def check_config_output_def Let_def table_ok_def table_length_prefix
        verify_prefix check_signature_prefix unat_of_nat nonzero_size)
qed

text \<open>What one placement changes: the two fields and the bytes of the table.\<close>

abbreviation (input) opt_length :: "bytes option \<Rightarrow> nat" where
  "opt_length p \<equiv> (case p of None \<Rightarrow> 0 | Some t \<Rightarrow> length t)"

definition placed :: "nat \<Rightarrow> bytes option \<Rightarrow> nat \<Rightarrow> bytes \<Rightarrow> bytes \<Rightarrow> bool" where
  "placed fld p off cfg cfg' \<longleftrightarrow>
     length cfg' = length cfg \<and>
     (case p of
        None \<Rightarrow> cfg' = cfg
      | Some t \<Rightarrow>
          rd_bytes cfg' fld 4 = Some (le32 (of_nat (length t))) \<and>
          rd_bytes cfg' (fld + 4) 4 = Some (le32 (of_nat off)) \<and>
          rd_bytes cfg' off (length t) = Some t) \<and>
     (\<forall>o' n. (o' + n \<le> fld \<or> fld + 8 \<le> o') \<and> (o' + n \<le> off \<or> off + opt_length p \<le> o') \<longrightarrow>
        rd_bytes cfg' o' n = rd_bytes cfg o' n)"

lemma place_table_ok:
  assumes fld: "fld + 8 \<le> off" and fit: "off + opt_length p \<le> length cfg"
    and small: "length cfg < 2 ^ 32"
    and tbl: "\<And>t. p = Some t \<Longrightarrow> table_length t = Some (of_nat (length t)) \<and> 0 < length t"
  shows "\<exists>cfg'. place_table fld p (of_nat (opt_length p)) (cfg, of_nat off, NVM_SUCCESS)
           = Some (cfg', of_nat (off + opt_length p), NVM_SUCCESS) \<and> placed fld p off cfg cfg'"
proof (cases p)
  case None
  then show ?thesis by (simp add: place_table_def placed_def)
next
  case (Some t)
  let ?sz = "of_nat (length t) :: u32"
  from tbl [OF Some] fit small Some have t: "0 < length t" "length t < 2 ^ 32" "off < 2 ^ 32" by auto
  have un: "unat ?sz = length t" "unat (of_nat off :: u32) = off"
    using t by (simp_all add: unat_of_nat)
  obtain c1 where c1: "store cfg (fld + 4) (le32 (of_nat off)) = Some c1"
    using store_Some [of "fld + 4" "le32 (of_nat off)" cfg] fld fit by auto
  obtain c2 where c2: "store c1 fld (le32 ?sz) = Some c2"
    using store_Some [of fld "le32 ?sz" c1] fld fit length_store [OF c1] by auto
  obtain c3 where c3: "store c2 off t = Some c3"
    using store_Some [of off t c2] fit Some length_store [OF c1] length_store [OF c2] by auto
  note same = rd_bytes_store_same and other = rd_bytes_store_other
  have "rd32 c2 fld = Some ?sz"
    using same [OF c2, of 4] by (simp add: rd_as_bytes le_nat_back)
  moreover have "rd32 c2 (fld + 4) = Some (of_nat off)"
    using other [OF c2, of "fld + 4" 4] same [OF c1, of 4] by (simp add: rd_as_bytes le_nat_back)
  ultimately have ct: "cast_table fld c2 = Some (Some (drop off c2))"
    using nonzero_size [OF t(1,2)] un by (simp add: cast_table_def)
  have "place_table fld p ?sz (cfg, of_nat off, NVM_SUCCESS) = Some (c3, of_nat (off + length t), NVM_SUCCESS)"
    using c1 c2 c3 ct nonzero_size [OF t(1,2)] un Some
    by (simp add: place_table_def rd_bytes_def)
  moreover have "rd_bytes c3 o' n = rd_bytes cfg o' n"
    if "o' + n \<le> fld \<or> fld + 8 \<le> o'" "o' + n \<le> off \<or> off + length t \<le> o'" for o' n
  proof -
    from that fld have "o' + n \<le> fld + 4 \<or> fld + 4 + length (le32 (of_nat off)) \<le> o'"
      "o' + n \<le> fld \<or> fld + length (le32 ?sz) \<le> o'" by auto
    with other [OF c1] other [OF c2] other [OF c3 that(2)] show ?thesis by metis
  qed
  then have "placed fld p off cfg c3"
    using same [OF c2, of 4] same [OF c1, of 4] same [OF c3, of "length t"]
      other [OF c2, of "fld + 4" 4] other [OF c3, of fld 4] other [OF c3, of "fld + 4" 4]
      fld Some
      length_store [OF c1] length_store [OF c2] length_store [OF c3]
    by (simp add: placed_def)
  ultimately show ?thesis using Some by auto
qed

definition build_input_ok :: "bytes option \<Rightarrow> bytes option \<Rightarrow> bytes option \<Rightarrow> bool" where
  "build_input_ok p_current p_input p_output \<longleftrightarrow>
     (\<forall>t. p_current = Some t \<longrightarrow> table_ok CURRENT_CONFIG_TABLE_SIGNATURE CURRENT_LEN t) \<and>
     (\<forall>t. p_input = Some t \<longrightarrow> table_ok CONFIG_INPUT_TABLE_SIGNATURE INPUT_LEN t) \<and>
     (\<forall>t. p_output = Some t \<longrightarrow> table_ok CONFIG_OUTPUT_TABLE_SIGNATURE OUTPUT_LEN t) \<and>
     PCD_LEN + opt_length p_current + opt_length p_input + opt_length p_output
       \<le> DEV_PLT_CFG_PART_SIZE"

lemma sub_table_size_ok:
  "(\<And>t. p = Some t \<Longrightarrow> table_ok sig hdr t) \<Longrightarrow> sub_table_size p = Some (of_nat (opt_length p))"
  by (cases p) (auto simp: sub_table_size_def table_ok_def)

lemma pcd_image:
  obtains cfg0 where "store (replicate DEV_PLT_CFG_PART_SIZE 0) 0 pcd_header = Some cfg0"
    "length cfg0 = DEV_PLT_CFG_PART_SIZE" "rd_bytes cfg0 0 36 = Some pcd_header"
    "\<And>o' n. 36 \<le> o' \<Longrightarrow> o' + n \<le> 60 \<Longrightarrow> rd_bytes cfg0 o' n = Some (replicate n 0)"
proof -
  have len: "length pcd_header = 36"
    by (simp add: pcd_header_def encode_header_def intel_header_def ascii_def)
  then obtain cfg0 where c: "store (replicate DEV_PLT_CFG_PART_SIZE 0) 0 pcd_header = Some cfg0"
    using store_Some [of 0 pcd_header "replicate DEV_PLT_CFG_PART_SIZE 0"]
    by (auto simp: DEV_PLT_CFG_PART_SIZE_def)
  have "rd_bytes cfg0 o' n = Some (replicate n 0)" if "36 \<le> o'" "o' + n \<le> 60" for o' n
  proof -
    from rd_bytes_store_other [OF c, of o' n] len that
    have "rd_bytes cfg0 o' n = rd_bytes (replicate DEV_PLT_CFG_PART_SIZE 0) o' n" by simp
    then show ?thesis using that by (simp add: rd_bytes_def DEV_PLT_CFG_PART_SIZE_def)
  qed
  with c len rd_bytes_store_same [OF c, of 36] length_store [OF c] show thesis
    by (intro that [of cfg0]) auto
qed

lemma placed_frame:
  "placed fld p off cfg cfg' \<Longrightarrow> o' + n \<le> fld \<or> fld + 8 \<le> o' \<Longrightarrow>
   o' + n \<le> off \<or> off + opt_length p \<le> o' \<Longrightarrow> rd_bytes cfg' o' n = rd_bytes cfg o' n"
  by (simp add: placed_def)

lemma placed_length: "placed fld p off cfg cfg' \<Longrightarrow> length cfg' = length cfg"
  by (simp add: placed_def)

lemma le_nat_zeros: "le_nat (replicate n 0) = 0"
  by (induction n) auto

lemma holds_SomeI:
  "p = Some t \<Longrightarrow> rd32 cfg fld = Some (of_nat (length t)) \<Longrightarrow> rd32 cfg (fld + 4) = Some (of_nat off) \<Longrightarrow>
   unat (of_nat off :: u32) = off \<Longrightarrow> drop off cfg = t @ r \<Longrightarrow> holds cfg fld p"
  by (auto simp: holds_def)

lemma placed_holds:
  assumes "placed fld p off cfg cfg'" "rd_bytes cfg fld 4 = Some (replicate 4 0)"
    "rd_bytes cfg'' fld 4 = rd_bytes cfg' fld 4" "rd_bytes cfg'' (fld + 4) 4 = rd_bytes cfg' (fld + 4) 4"
    "rd_bytes cfg'' off (opt_length p) = rd_bytes cfg' off (opt_length p)" "off < 2 ^ 32"
  shows "holds cfg'' fld p"
proof (cases p)
  case None
  with assms(1-3) show ?thesis
    by (simp add: holds_def rd_as_bytes placed_def le_nat_zeros)
next
  case (Some t)
  with assms(1,3-5) have "rd_bytes cfg'' off (length t) = Some t"
    and f: "rd_bytes cfg'' fld 4 = Some (le32 (of_nat (length t)))"
      "rd_bytes cfg'' (fld + 4) 4 = Some (le32 (of_nat off))"
    by (simp_all add: placed_def)
  then have "take (length t) (drop off cfg'') = t"
    by (simp add: rd_bytes_def split: if_splits)
  then have "drop off cfg'' = t @ drop (length t) (drop off cfg'')"
    by (metis append_take_drop_id)
  moreover have "unat (of_nat off :: u32) = off" using assms(6) by (simp add: unat_of_nat)
  ultimately show ?thesis
    using Some f by (intro holds_SomeI) (simp_all add: rd_as_bytes le_nat_back)
qed

lemma rd_bytes_update_other:
  "o' + n \<le> off \<or> off + 1 \<le> o' \<Longrightarrow> off < length buf \<Longrightarrow>
   rd_bytes (buf[off := v]) o' n = rd_bytes buf o' n"
  using rd_bytes_store_other [OF store_byte, of off buf o' n v] by simp

lemma generate_idem:
  "generate_checksum buf len off = Some buf' \<Longrightarrow> generate_checksum buf' len off = Some buf'"
proof -
  assume a: "generate_checksum buf len off = Some buf'"
  define c where "c xs = (0xFF - sum_list (map (\<lambda>i. if i \<noteq> off then xs ! i else 0) [0..<unat len])) + 1"
    for xs :: bytes
  have gen: "generate_checksum xs len off =
      (if unat len \<le> length xs \<and> off < length xs then Some (xs[off := c xs]) else None)" for xs
    by (simp add: generate_checksum_def c_def)
  have "map (\<lambda>i. if i \<noteq> off then buf' ! i else 0) [0..<unat len] =
      map (\<lambda>i. if i \<noteq> off then buf ! i else 0) [0..<unat len]"
    using generate_checksum_other [OF a] by (intro map_cong) auto
  then have "c buf' = c buf" by (simp only: c_def)
  with a show ?thesis by (auto simp: gen split: if_splits)
qed

lemma rd_bytes_header:
  assumes "rd_bytes cfg 0 36 = Some pcd_header"
  shows "rd_bytes cfg 4 4 = Some (le32 60)" "rd_bytes cfg 0 4 = Some PLATFORM_CONFIG_TABLE_SIGNATURE"
proof -
  have hd: "pcd_header = PLATFORM_CONFIG_TABLE_SIGNATURE @ le32 60 @ drop 8 pcd_header"
    by (simp add: pcd_header_def encode_header_def intel_header_def)
  have cfg: "cfg = pcd_header @ drop 36 cfg"
    using assms(1) by (auto simp: rd_bytes_def split: if_splits) (metis append_take_drop_id)
  show "rd_bytes cfg 0 4 = Some PLATFORM_CONFIG_TABLE_SIGNATURE"
    by (subst cfg, subst hd) (simp add: rd_bytes_def)
  show "rd_bytes cfg 4 4 = Some (le32 60)"
    by (subst cfg, subst hd) (simp add: rd_walk)
qed

lemma header_check_ok:
  assumes "rd_bytes cfg 0 36 = Some pcd_header" "PCD_LEN \<le> length cfg"
    "generate_checksum cfg 60 CHECKSUM_OFFSET = Some cfg'"
  shows "check_platform_config_header cfg' = Some (cfg', NVM_SUCCESS)"
    and "length cfg' = length cfg"
    and "\<And>o' n. 10 \<le> o' \<Longrightarrow> rd_bytes cfg' o' n = rd_bytes cfg o' n"
proof -
  from assms(3) obtain v where cfg': "cfg' = cfg[9 := v]" "9 < length cfg"
    by (auto simp: generate_checksum_def Let_def split: if_splits)
  show len: "length cfg' = length cfg" by (simp add: cfg')
  show "\<And>o' n. 10 \<le> o' \<Longrightarrow> rd_bytes cfg' o' n = rd_bytes cfg o' n"
    using cfg' by (simp add: rd_bytes_update_other)
  note hdr = rd_bytes_header [OF assms(1)]
  have sig: "check_signature PLATFORM_CONFIG_TABLE_SIGNATURE cfg' = Some NVM_SUCCESS"
    and tl: "table_length cfg' = Some 60"
    using cfg' hdr by (simp_all add: check_signature_def table_length_def rd_as_bytes
        rd_bytes_update_other le_nat_back)
  have "\<exists>bs. rd_bytes cfg' 0 PCD_LEN = Some bs"
    using assms(2) len by (simp add: rd_bytes_def)
  with sig tl generate_idem [OF assms(3)] verify_generated [OF generate_idem [OF assms(3)]]
  show "check_platform_config_header cfg' = Some (cfg', NVM_SUCCESS)"
    by (auto simp: check_platform_config_header_def print_pcd_header_def)
qed

text \<open>How the library itself makes such a table: header, fixed fields, extension tables and then
  the checksum.\<close>

lemma table_ok_encode:
  fixes t :: bytes and n :: nat and sig fixed :: bytes and es :: "extension_table list"
  defines "t \<equiv> encode_header (intel_header sig (of_nat n)) @ fixed @ encode_exts es"
  assumes "length sig = 4" "36 + length fixed = hdr" "list_all wf_ext es"
    and n: "n = hdr + length (encode_exts es)" "n < 2 ^ 32"
    and gen: "generate_checksum t (of_nat n) CHECKSUM_OFFSET = Some t'"
  shows "table_ok sig hdr t'"
proof -
  have h: "length (encode_header (intel_header sig (of_nat n))) = 36"
    using assms(2) by (simp add: encode_header_def intel_header_def ascii_def)
  then have len: "length t = n" using assms by (simp add: t_def)
  from gen obtain v where t': "t' = t[9 := v]" "9 < length t"
    by (auto simp: generate_checksum_def Let_def split: if_splits)
  have un: "unat (of_nat n :: u32) = n" using n(2) by (simp add: unat_of_nat)
  have sum: "sum_list t' = 0"
    using verify_generated [OF gen] un t' len
    by (auto simp: verify_checksum_def Let_def split: if_splits)
  have "rd_bytes t 4 4 = Some (le32 (of_nat n))"
    using assms(2) by (simp add: t_def encode_header_def intel_header_def rd_walk)
  then have tl: "table_length t' = Some (of_nat n)"
    using t' by (simp add: table_length_def rd_as_bytes rd_bytes_update_other le_nat_back)
  have "take 4 t' = sig"
    using t' assms(2) by (simp add: t_def encode_header_def intel_header_def)
  moreover have "drop hdr t' = encode_exts es"
    using t' assms(3) h by (simp add: t_def drop_update_cancel)
  ultimately show ?thesis
    using sum tl len t' n assms(4) by (auto simp: table_ok_def)
qed

lemma build_ok:
  assumes "build_input_ok p_current p_input p_output"
  shows "\<exists>cfg.
     build_platform_config_data True p_current p_input p_output (Some None)
       = Some (NVM_SUCCESS, Some (Some cfg)) \<and>
     length cfg = DEV_PLT_CFG_PART_SIZE \<and>
     check_platform_config_header cfg = Some (cfg, NVM_SUCCESS) \<and>
     holds cfg 36 p_current \<and> holds cfg 44 p_input \<and> holds cfg 52 p_output \<and>
     table_length cfg = Some 60"
proof -
  let ?c = "opt_length p_current" and ?i = "opt_length p_input" and ?o = "opt_length p_output"
  from assms have cur: "\<And>t. p_current = Some t \<Longrightarrow> table_ok CURRENT_CONFIG_TABLE_SIGNATURE CURRENT_LEN t"
    and inp: "\<And>t. p_input = Some t \<Longrightarrow> table_ok CONFIG_INPUT_TABLE_SIGNATURE INPUT_LEN t"
    and out: "\<And>t. p_output = Some t \<Longrightarrow> table_ok CONFIG_OUTPUT_TABLE_SIGNATURE OUTPUT_LEN t"
    and fit: "60 + ?c + ?i + ?o \<le> DEV_PLT_CFG_PART_SIZE"
    by (auto simp: build_input_ok_def)
  have ps: "DEV_PLT_CFG_PART_SIZE < 2 ^ 32" by (simp add: DEV_PLT_CFG_PART_SIZE_def)
  have tbl: "table_ok sig hdr t \<Longrightarrow> 0 < hdr \<Longrightarrow> table_length t = Some (of_nat (length t)) \<and> 0 < length t"
    for sig hdr t by (auto simp: table_ok_def)
  obtain cfg0 where cfg0: "store (replicate DEV_PLT_CFG_PART_SIZE 0) 0 pcd_header = Some cfg0"
    "length cfg0 = DEV_PLT_CFG_PART_SIZE" "rd_bytes cfg0 0 36 = Some pcd_header"
    "\<And>o' n. 36 \<le> o' \<Longrightarrow> o' + n \<le> 60 \<Longrightarrow> rd_bytes cfg0 o' n = Some (replicate n 0)"
    by (rule pcd_image) (rule that)
  obtain cfg1 where s1: "place_table 36 p_current (of_nat ?c) (cfg0, of_nat PCD_LEN, NVM_SUCCESS) =
      Some (cfg1, of_nat (60 + ?c), NVM_SUCCESS)" and p1: "placed 36 p_current 60 cfg0 cfg1"
    using place_table_ok [of 36 60 p_current cfg0] tbl [OF cur] fit ps cfg0(2) by auto
  obtain cfg2 where s2: "place_table 44 p_input (of_nat ?i) (cfg1, of_nat (60 + ?c), NVM_SUCCESS) =
      Some (cfg2, of_nat (60 + ?c + ?i), NVM_SUCCESS)" and p2: "placed 44 p_input (60 + ?c) cfg1 cfg2"
    using place_table_ok [of 44 "60 + ?c" p_input cfg1] tbl [OF inp] fit ps cfg0(2)
      placed_length [OF p1] by auto
  obtain cfg3 where s3: "place_table 52 p_output (of_nat ?o) (cfg2, of_nat (60 + ?c + ?i), NVM_SUCCESS) =
      Some (cfg3, of_nat (60 + ?c + ?i + ?o), NVM_SUCCESS)"
    and p3: "placed 52 p_output (60 + ?c + ?i) cfg2 cfg3"
    using place_table_ok [of 52 "60 + ?c + ?i" p_output cfg2] tbl [OF out] fit ps cfg0(2)
      placed_length [OF p1] placed_length [OF p2] by auto
  note f1 = placed_frame [OF p1] and f2 = placed_frame [OF p2] and f3 = placed_frame [OF p3]
  have len3: "length cfg3 = DEV_PLT_CFG_PART_SIZE"
    using cfg0(2) placed_length [OF p1] placed_length [OF p2] placed_length [OF p3] by simp
  have hdr: "rd_bytes cfg3 o' n = rd_bytes cfg0 o' n" if "o' + n \<le> 36" for o' n
    using that f1 [of o' n] f2 [of o' n] f3 [of o' n] by simp
  have "rd_bytes cfg0 4 4 = Some (le32 60)"
    by (rule rd_bytes_header [OF cfg0(3)])
  then have tl: "table_length cfg3 = Some 60"
    using hdr [of 4 4] by (simp add: table_length_def rd_as_bytes le_nat_back)
  obtain cfg where gen: "generate_checksum cfg3 60 CHECKSUM_OFFSET = Some cfg"
    using len3 fit by (auto simp: generate_checksum_def Let_def)
  have "rd_bytes cfg3 0 36 = Some pcd_header" using hdr [of 0 36] cfg0(3) by simp
  from header_check_ok [OF this _ gen] fit len3
  have hok: "check_platform_config_header cfg = Some (cfg, NVM_SUCCESS)"
    and len: "length cfg = DEV_PLT_CFG_PART_SIZE"
    and f4: "\<And>o' n. 10 \<le> o' \<Longrightarrow> rd_bytes cfg o' n = rd_bytes cfg3 o' n" by auto
  have "holds cfg 36 p_current"
    by (rule placed_holds [OF p1]) (use fit ps cfg0(4) in \<open>simp_all add: f1 f2 f3 f4\<close>)
  moreover have "holds cfg 44 p_input"
    by (rule placed_holds [OF p2]) (use fit ps cfg0(4) in \<open>simp_all add: f1 f2 f3 f4\<close>)
  moreover have "holds cfg 52 p_output"
    by (rule placed_holds [OF p3]) (use fit ps cfg0(4) in \<open>simp_all add: f1 f2 f3 f4\<close>)
  moreover have "build_platform_config_data True p_current p_input p_output (Some None)
      = Some (NVM_SUCCESS, Some (Some cfg))"
    using sub_table_size_ok [OF cur] sub_table_size_ok [OF inp] sub_table_size_ok [OF out]
      cfg0(1) s1 s2 s3 tl gen
    by (simp add: build_platform_config_data_def del: of_nat_add)
  moreover have "table_length cfg = Some 60"
    using gen tl by (auto simp: generate_checksum_def table_length_def rd_as_bytes rd_bytes_update_other Let_def
        split: if_splits)
  ultimately show ?thesis using hok len by blast
qed

lemma check_of_holds:
  assumes "build_input_ok p_current p_input p_output"
    and "check_platform_config_header cfg = Some (cfg, NVM_SUCCESS)"
    and "holds cfg 36 p_current" "holds cfg 44 p_input" "holds cfg 52 p_output"
  shows "check_platform_config (Some cfg) = Some (Some cfg, NVM_SUCCESS)"
  using check_current_ok [OF assms(3)] check_input_ok [OF assms(4)] check_output_ok [OF assms(5)]
    assms(1,2)
  by (auto simp: check_platform_config_def build_input_ok_def)

section \<open>Properties\<close>

text \<open>Small tables the witnesses use.\<close>

definition sample_input :: bytes where
  "sample_input =
     the (generate_checksum
       (encode_header (intel_header CONFIG_INPUT_TABLE_SIGNATURE (of_nat 64)) @ (le32 1 @
        replicate 8 0) @ encode_exts [Partition_change 0 0x40000000]) 64 CHECKSUM_OFFSET)"

definition sample_dimm :: dimm_info_extension_table where
  "sample_dimm = \<lparr>di_manufacturer = [1, 2], di_serial_number = [3, 4, 5, 6],
     di_model_number = replicate 20 7, di_offset = 0x1000, di_size = 0x40000000\<rparr>"

definition sample_set :: interleave_info_extension_table where
  "sample_set = \<lparr>ii_index = 9, ii_memory_type = INTERLEAVE_MEMORY_TYPE_APP_DIRECT,
     ii_interleave_format = 0x10404, ii_mirror_enable = 0, ii_status = 3, ii_mem_spare = 0,
     ii_dimms = [sample_dimm]\<rparr>"

definition sample_exts :: "extension_table list" where
  "sample_exts = [Partition_change 1 0x40000000, Interleave_info sample_set]"

lemma sample_input_ok: "table_ok CONFIG_INPUT_TABLE_SIGNATURE INPUT_LEN sample_input"
  "length sample_input = 64"
proof -
  let ?t = "encode_header (intel_header CONFIG_INPUT_TABLE_SIGNATURE (of_nat 64)) @ (le32 1 @
        replicate 8 0) @ encode_exts [Partition_change 0 0x40000000]"
  have len: "length ?t = 64" by (simp add: encode_header_def intel_header_def ascii_def)
  then obtain t where t: "generate_checksum ?t 64 CHECKSUM_OFFSET = Some t"
    by (auto simp: generate_checksum_def Let_def)
  then have s: "sample_input = t" by (simp add: sample_input_def)
  from table_ok_encode [of CONFIG_INPUT_TABLE_SIGNATURE "le32 1 @ replicate 8 0" 48
      "[Partition_change 0 0x40000000]" 64 t] t
  show "table_ok CONFIG_INPUT_TABLE_SIGNATURE INPUT_LEN sample_input" by (simp add: s)
  show "length sample_input = 64"
    using t len by (auto simp: s generate_checksum_def Let_def split: if_splits)
qed

lemma sample_build_ok: "build_input_ok None (Some sample_input) None"
  using sample_input_ok by (simp add: build_input_ok_def DEV_PLT_CFG_PART_SIZE_def)

text \<open>C11. Building and validating agree: from sub-tables that are valid on their own and fit
  into the partition, \<^verbatim>\<open>build_platform_config_data\<close> makes data that
  \<^verbatim>\<open>check_platform_config\<close> accepts without changing a byte, and in which the three
  size and offset fields lead back to exactly the sub-tables it was given.\<close>

theorem build_then_check:
  assumes "build_input_ok p_current p_input p_output"
  shows "\<exists>cfg.
     build_platform_config_data True p_current p_input p_output (Some None)
       = Some (NVM_SUCCESS, Some (Some cfg)) \<and>
     check_platform_config (Some cfg) = Some (Some cfg, NVM_SUCCESS) \<and>
     holds cfg 36 p_current \<and> holds cfg 44 p_input \<and> holds cfg 52 p_output"
proof -
  from build_ok [OF assms] obtain cfg where b:
    "build_platform_config_data True p_current p_input p_output (Some None)
       = Some (NVM_SUCCESS, Some (Some cfg))"
    "check_platform_config_header cfg = Some (cfg, NVM_SUCCESS)"
    "holds cfg 36 p_current" "holds cfg 44 p_input" "holds cfg 52 p_output" by blast
  with check_of_holds [OF assms b(2-5)] show ?thesis by blast
qed

theorem build_then_check_witness:
  "\<exists>cfg. build_platform_config_data True None (Some sample_input) None (Some None)
       = Some (NVM_SUCCESS, Some (Some cfg)) \<and>
     check_platform_config (Some cfg) = Some (Some cfg, NVM_SUCCESS) \<and>
     holds cfg 36 None \<and> holds cfg 44 (Some sample_input) \<and> holds cfg 52 None"
  by (rule build_then_check [OF sample_build_ok])


lemma sample_exts_ok: "list_all wf_ext sample_exts" "length (encode_exts sample_exts) = 88"
  by (simp_all add: sample_exts_def sample_set_def sample_dimm_def wf_dimm_def
      encode_interleave_def encode_dimm_def)

definition sample_header :: "bytes \<Rightarrow> nat \<Rightarrow> bytes" where
  "sample_header sig n = encode_header (intel_header sig (of_nat n))"

lemma sample_header_ok:
  "length sig = 4 \<Longrightarrow> length (sample_header sig n) = 36"
  "length sig = 4 \<Longrightarrow> table_length (sample_header sig n @ r) = Some (of_nat n)"
  by (simp_all add: sample_header_def encode_header_def intel_header_def ascii_def
      table_length_def rd_as_bytes rd_walk le_nat_back)


lemma max_set_index_in_exts:
  assumes "cast_table fld cfg = Some (Some (h @ encode_exts es @ r))" "length h = hdr"
    and "table_length h = Some (of_nat (hdr + length (encode_exts es)))"
    and "list_all wf_ext es" "hdr + length (encode_exts es) < 2 ^ 32"
  shows "max_set_index_in fld hdr cfg (idx, NVM_SUCCESS) = Some (max_index idx es, NVM_SUCCESS)"
proof -
  have "unat (of_nat (hdr + length (encode_exts es)) :: u32) = hdr + length (encode_exts es)"
    using assms(5) by (simp add: unat_of_nat del: of_nat_add)
  moreover have "es = [] \<or> encode_exts es \<noteq> []"
    using assms(4) length_encode_ext by (cases es) fastforce+
  ultimately show ?thesis
    using walk_set_index_exts [OF assms(4), of "[]" r idx] assms(1-3,5)
    by (auto simp: max_set_index_in_def table_length_prefix max_index_def simp del: of_nat_add)
qed

text \<open>The interleave set index that the library continues from is the largest index of any
  interleave table in the input table and in the current configuration, and the search for it
  succeeds on data whose two tables hold well-formed extension tables.\<close>

theorem max_set_index_of_tables:
  assumes "cast_config_input cfg = Some (Some (h1 @ encode_exts inp @ r1))" "length h1 = INPUT_LEN"
    and "table_length h1 = Some (of_nat (INPUT_LEN + length (encode_exts inp)))"
    and "cast_current_config cfg = Some (Some (h2 @ encode_exts cur @ r2))" "length h2 = CURRENT_LEN"
    and "table_length h2 = Some (of_nat (CURRENT_LEN + length (encode_exts cur)))"
    and "list_all wf_ext inp" "INPUT_LEN + length (encode_exts inp) < 2 ^ 32"
    and "list_all wf_ext cur" "CURRENT_LEN + length (encode_exts cur) < 2 ^ 32"
  shows "pcd_max_set_index cfg =
    Some (fold (\<lambda>i m. max m (ucast i)) (ext_indexes inp @ ext_indexes cur) 0, NVM_SUCCESS)"
proof -
  have c1: "max_set_index_in 44 INPUT_LEN cfg (idx, NVM_SUCCESS) = Some (max_index idx inp, NVM_SUCCESS)"
    for idx
    using max_set_index_in_exts [OF assms(1) [unfolded cast_config_input_def] assms(2,3,7,8)] .
  have c2: "max_set_index_in 36 CURRENT_LEN cfg (idx, NVM_SUCCESS) = Some (max_index idx cur, NVM_SUCCESS)"
    for idx
    using max_set_index_in_exts [OF assms(4) [unfolded cast_current_config_def] assms(5,6,9,10)] .
  show ?thesis by (simp add: pcd_max_set_index_def c1 c2) (simp add: max_index_def)
qed

definition no_format :: interleave_format where
  "no_format = \<lparr>recommended = 0, channel = INTERLEAVE_SIZE_64B, imc = INTERLEAVE_SIZE_64B,
     ways = INTERLEAVE_WAYS_0\<rparr>"

definition sample_cfg :: bytes where
  "sample_cfg =
     replicate 36 0 @ le32 144 @ le32 60 @ le32 136 @ le32 204 @ replicate 8 0 @
     ((sample_header CURRENT_CONFIG_TABLE_SIGNATURE 144 @ replicate 20 0) @ encode_exts sample_exts @
      ((sample_header CONFIG_INPUT_TABLE_SIGNATURE 136 @ replicate 12 0) @ encode_exts sample_exts @ []))"

lemma sample_cfg_casts:
  "cast_current_config sample_cfg = Some (Some
     ((sample_header CURRENT_CONFIG_TABLE_SIGNATURE 144 @ replicate 20 0) @ encode_exts sample_exts @
      ((sample_header CONFIG_INPUT_TABLE_SIGNATURE 136 @ replicate 12 0) @ encode_exts sample_exts @ [])))"
  "cast_config_input sample_cfg = Some (Some
     ((sample_header CONFIG_INPUT_TABLE_SIGNATURE 136 @ replicate 12 0) @ encode_exts sample_exts @ []))"
proof -
  have 1: "rd32 sample_cfg 36 = Some 144" "rd32 sample_cfg 40 = Some 60"
    "rd32 sample_cfg 44 = Some 136" "rd32 sample_cfg 48 = Some 204"
    by (simp_all add: sample_cfg_def rd_as_bytes rd_walk le_nat_back)
  have 2: "drop 60 sample_cfg = (sample_header CURRENT_CONFIG_TABLE_SIGNATURE 144 @ replicate 20 0) @
      encode_exts sample_exts @
      ((sample_header CONFIG_INPUT_TABLE_SIGNATURE 136 @ replicate 12 0) @ encode_exts sample_exts @ [])"
    by (simp add: sample_cfg_def)
  have "drop 204 sample_cfg = drop 144 (drop 60 sample_cfg)" by simp
  also have "\<dots> = (sample_header CONFIG_INPUT_TABLE_SIGNATURE 136 @ replicate 12 0) @
      encode_exts sample_exts @ []"
    unfolding 2 by (simp add: sample_header_ok sample_exts_ok)
  finally have 3: "drop 204 sample_cfg = (sample_header CONFIG_INPUT_TABLE_SIGNATURE 136 @ replicate 12 0) @
      encode_exts sample_exts @ []" .
  from 1 2 3 show
    "cast_current_config sample_cfg = Some (Some
     ((sample_header CURRENT_CONFIG_TABLE_SIGNATURE 144 @ replicate 20 0) @ encode_exts sample_exts @
      ((sample_header CONFIG_INPUT_TABLE_SIGNATURE 136 @ replicate 12 0) @ encode_exts sample_exts @ [])))"
    "cast_config_input sample_cfg = Some (Some
     ((sample_header CONFIG_INPUT_TABLE_SIGNATURE 136 @ replicate 12 0) @ encode_exts sample_exts @ []))"
    by (simp_all add: cast_current_config_def cast_config_input_def cast_table_def)
qed

theorem max_set_index_of_tables_witness:
  "pcd_max_set_index sample_cfg = Some (9, NVM_SUCCESS)"
proof -
  have "pcd_max_set_index sample_cfg = Some
      (fold (\<lambda>i m. max m (ucast i)) (ext_indexes sample_exts @ ext_indexes sample_exts) 0, NVM_SUCCESS)"
    by (rule max_set_index_of_tables [OF sample_cfg_casts(2) _ _ sample_cfg_casts(1)])
      (simp_all add: sample_header_ok sample_exts_ok)
  then show ?thesis by (simp add: sample_exts_def sample_set_def)
qed

text \<open>Looking up an interleave set by its offset in a current configuration that holds
  well-formed extension tables answers with the index, the format and the mirror flag of the
  first application direct set whose first DIMM has that offset, and with "not found" when no
  set has it.\<close>

theorem interleave_settings_of_tables:
  assumes "cast_current_config cfg = Some (Some (hdr @ encode_exts es @ rest))"
    and "length hdr = CURRENT_LEN"
    and "table_length hdr = Some (of_nat (CURRENT_LEN + length (encode_exts es)))"
    and "list_all wf_ext es" "CURRENT_LEN + length (encode_exts es) < 2 ^ 32"
  shows "interleave_settings_in cfg iset_offset fmt0 = Some
    (case find (ext_is_set_at iset_offset) es of
       Some (Interleave_info i) \<Rightarrow>
         (NVM_SUCCESS, Some (ucast (ii_index i),
            interleave_format_to_struct (ii_interleave_format i) fmt0, ii_mirror_enable i))
     | _ \<Rightarrow> (NVM_ERR_NOTFOUND, None))"
proof -
  let ?t = "hdr @ encode_exts es @ rest" and ?n = "CURRENT_LEN + length (encode_exts es)"
  have f: "find_interleave_set ?t (of_nat ?n) iset_offset (of_nat CURRENT_LEN) =
      Some (set_position iset_offset CURRENT_LEN es)"
    using find_set_exts [OF assms(4), of hdr rest iset_offset] assms(2,5) by simp
  have tl: "table_length ?t = Some (of_nat ?n)"
    using assms(3) table_length_prefix by blast
  show ?thesis
  proof (cases "find (ext_is_set_at iset_offset) es")
    case None
    with assms(1) f tl show ?thesis
      by (simp add: interleave_settings_in_def set_position_None)
  next
    case (Some e)
    then have "ext_is_set_at iset_offset e" by (simp add: find_Some_iff) blast
    then obtain i where e: "e = Interleave_info i" by (cases e) auto
    from set_position_Some [OF assms(4) Some [unfolded e]] obtain xs ys where
      p: "set_position iset_offset CURRENT_LEN es = Some (CURRENT_LEN + length xs)"
        "encode_exts es = xs @ encode_ext (Interleave_info i) @ ys" "wf_ext (Interleave_info i)"
      by blast
    from interleave_fields [OF p(3), of "CURRENT_LEN + length xs" "hdr @ xs" "ys @ rest"] assms(2)
    show ?thesis
      using assms(1) f tl Some e p(1,2)
      by (simp add: interleave_settings_in_def del: of_nat_add encode_ext.simps)
  qed
qed

theorem interleave_settings_of_tables_witness:
  "interleave_settings_in sample_cfg 0x1000 no_format =
     Some (NVM_SUCCESS,
       Some (9, interleave_format_to_struct 0x10404 no_format, 0))"
proof -
  let ?fmt0 = "no_format"
  have "interleave_settings_in sample_cfg 0x1000 ?fmt0 = Some
    (case find (ext_is_set_at 0x1000) sample_exts of
       Some (Interleave_info i) \<Rightarrow>
         (NVM_SUCCESS, Some (ucast (ii_index i),
            interleave_format_to_struct (ii_interleave_format i) ?fmt0, ii_mirror_enable i))
     | _ \<Rightarrow> (NVM_ERR_NOTFOUND, None))"
    by (rule interleave_settings_of_tables [OF sample_cfg_casts(1)])
      (simp_all add: sample_header_ok sample_exts_ok)
  then show ?thesis by (simp add: sample_exts_def sample_set_def sample_dimm_def)
qed

definition sub_table_valid :: "bytes \<Rightarrow> nat \<Rightarrow> nat \<Rightarrow> bytes \<Rightarrow> bool" where
  "sub_table_valid sig hdr fld cfg \<longleftrightarrow>
     (\<exists>sz. rd32 cfg fld = Some sz \<and>
       (0 < sz \<longrightarrow> hdr \<le> unat sz \<and>
         (\<exists>off len. rd32 cfg (fld + 4) = Some off \<and>
            table_length (drop (unat off) cfg) = Some len \<and>
            unat len \<le> length (drop (unat off) cfg) \<and>
            sum_list (take (unat len) (drop (unat off) cfg)) = 0 \<and>
            take 4 (drop (unat off) cfg) = sig)))"

lemma check_signature_success:
  "check_signature sig t = Some NVM_SUCCESS \<Longrightarrow> take 4 t = sig"
  by (auto simp: check_signature_def rd_bytes_def split: if_splits)

lemma verify_checksum_success:
  "verify_checksum t len = Some NVM_SUCCESS \<Longrightarrow> unat len \<le> length t \<and> sum_list (take (unat len) t) = 0"
  by (auto simp: verify_checksum_def Let_def split: if_splits)

lemma check_current_success:
  "check_current_config cfg = Some NVM_SUCCESS \<Longrightarrow>
   sub_table_valid CURRENT_CONFIG_TABLE_SIGNATURE CURRENT_LEN 36 cfg"
  by (auto simp: check_current_config_def sub_table_valid_def Let_def bind_eq_Some_conv
      dest!: check_signature_success verify_checksum_success split: if_splits)

lemma check_input_success:
  "check_config_input cfg = Some NVM_SUCCESS \<Longrightarrow>
   sub_table_valid CONFIG_INPUT_TABLE_SIGNATURE INPUT_LEN 44 cfg \<and>
   (\<forall>sz t. rd32 cfg 44 = Some sz \<and> cast_config_input cfg = Some (Some t) \<longrightarrow> table_length t = Some sz)"
  by (auto simp: check_config_input_def sub_table_valid_def Let_def bind_eq_Some_conv
      cast_config_input_def cast_table_def
      dest!: check_signature_success verify_checksum_success split: if_splits)

lemma check_output_success:
  "check_config_output cfg = Some NVM_SUCCESS \<Longrightarrow>
   sub_table_valid CONFIG_OUTPUT_TABLE_SIGNATURE OUTPUT_LEN 52 cfg"
  by (auto simp: check_config_output_def sub_table_valid_def Let_def bind_eq_Some_conv
      dest!: check_signature_success verify_checksum_success split: if_splits)



text \<open>The header check never finds a corrupted header: it recomputes the checksum before it
  verifies it, so data with a sufficient length and the right signature passes whatever the
  checksum byte, and every byte beside the signature and the length, holds.\<close>

theorem header_checksum_never_fails:
  assumes "table_length cfg = Some len" "PCD_LEN \<le> unat len" "unat len \<le> length cfg"
    and "take 4 cfg = PLATFORM_CONFIG_TABLE_SIGNATURE"
  shows "\<exists>cfg'. check_platform_config_header cfg = Some (cfg', NVM_SUCCESS)"
proof -
  obtain v where g: "generate_checksum cfg len CHECKSUM_OFFSET = Some (cfg[9 := v])"
    using assms by (auto simp: generate_checksum_def Let_def)
  from verify_generated [OF g] assms(2)
  have "verify_checksum (cfg[9 := v]) len = Some NVM_SUCCESS" by simp
  moreover have "check_signature PLATFORM_CONFIG_TABLE_SIGNATURE (cfg[9 := v]) = Some NVM_SUCCESS"
    using assms by (simp add: check_signature_def rd_bytes_def)
  moreover have "print_pcd_header cfg = Some ()"
    using assms by (simp add: print_pcd_header_def rd_bytes_def)
  ultimately show ?thesis
    using assms(1,2) g by (simp add: check_platform_config_header_def)
qed

theorem header_checksum_never_fails_witness:
  "\<exists>cfg'. check_platform_config_header
     (PLATFORM_CONFIG_TABLE_SIGNATURE @ le32 60 @ replicate 52 0xAB) = Some (cfg', NVM_SUCCESS)"
  by (rule header_checksum_never_fails [of _ 60])
    (simp_all add: table_length_def rd_as_bytes rd_walk le_nat_back)

lemma print_zero_length:
  assumes "print_extension_tables t limit off = Some u"
  shows "\<not> (off < limit \<and> rd16 t (off + 2) = Some 0 \<and> rd16 t off \<in> {Some 4, Some 5})"
proof (rule print_extension_tables.raw_induct [OF _ assms,
      of "\<lambda>t limit off u. \<not> (off < limit \<and> rd16 t (off + 2) = Some 0 \<and> rd16 t off \<in> {Some 4, Some 5})"])
  fix f t limit off u
  assume IH: "\<And>t limit off u. f t limit off = Some u \<Longrightarrow>
      \<not> (off < limit \<and> rd16 t (off + 2) = Some 0 \<and> rd16 t off \<in> {Some 4, Some 5})"
    and step: "(if \<not> off < limit then Some ()
      else do {
        ty \<leftarrow> rd16 t off;
        len \<leftarrow> rd16 t (off + 2);
        if ty = PARTITION_CHANGE_TABLE then do {
          _ \<leftarrow> rd_bytes t off PARTITION_LEN;
          f t limit (off + unat len)
        }
        else if ty = INTERLEAVE_TABLE then do {
          _ \<leftarrow> rd_bytes t off 14;
          n \<leftarrow> rd8 t (off + 6);
          _ \<leftarrow> (if n = 0 then Some []
               else rd_bytes t (off + INTERLEAVE_LEN) (DIMM_INFO_LEN * unat n));
          f t limit (off + unat len)
        }
        else Some ()
      }) = Some u"
  show "\<not> (off < limit \<and> rd16 t (off + 2) = Some 0 \<and> rd16 t off \<in> {Some 4, Some 5})"
  proof
    assume z: "off < limit \<and> rd16 t (off + 2) = Some 0 \<and> rd16 t off \<in> {Some 4, Some 5}"
    with step have "f t limit off = Some u"
      by (auto simp: bind_eq_Some_conv split: if_splits)
    from IH [OF this] z show False by blast
  qed
qed

text \<open>The debug print of the extension tables runs before the data is validated and never
  returns on a table that states length zero: an input table whose first extension table is a
  partition or interleave table of length zero makes \<^verbatim>\<open>check_config_input\<close> hang
  instead of reporting bad data.\<close>

theorem zero_length_table_hangs_check:
  assumes "rd32 cfg 44 = Some sz" "INPUT_LEN \<le> unat sz"
    and "cast_config_input cfg = Some (Some t)" "table_length t = Some len" "INPUT_LEN < unat len"
    and "rd16 t INPUT_LEN \<in> {Some PARTITION_CHANGE_TABLE, Some INTERLEAVE_TABLE}"
    and "rd16 t (INPUT_LEN + 2) = Some 0"
  shows "check_config_input cfg = None"
proof -
  have "print_extension_tables (drop INPUT_LEN t) (unat len - INPUT_LEN) 0 = None"
    using print_zero_length [of "drop INPUT_LEN t" "unat len - INPUT_LEN" 0] assms(5-7)
    by (cases "print_extension_tables (drop INPUT_LEN t) (unat len - INPUT_LEN) 0")
      (auto simp: rd_drop)
  then have "print_pcd_input t = None"
    using assms(4,5) by (auto simp: print_pcd_input_def bind_eq_None_conv)
  with assms(1-3) show ?thesis
    by (auto simp: check_config_input_def cast_config_input_def cast_table_def bind_eq_Some_conv
        Let_def split: if_splits)
qed

definition zero_length_cfg :: bytes where
  "zero_length_cfg = replicate 44 0 @ le32 64 @ le32 60 @ replicate 8 0 @
     sample_header CONFIG_INPUT_TABLE_SIGNATURE 64 @ replicate 12 0 @ le16 4 @ le16 0 @ replicate 12 0"

theorem zero_length_table_hangs_check_witness: "check_config_input zero_length_cfg = None"
proof -
  let ?t = "sample_header CONFIG_INPUT_TABLE_SIGNATURE 64 @ replicate 12 0 @ le16 4 @ le16 0 @ replicate 12 0"
  have 1: "rd32 zero_length_cfg 44 = Some 64" "rd32 zero_length_cfg 48 = Some 60"
    by (simp_all add: zero_length_cfg_def rd_as_bytes rd_walk le_nat_back)
  have 2: "drop 60 zero_length_cfg = ?t" by (simp add: zero_length_cfg_def)
  have "cast_config_input zero_length_cfg = Some (Some ?t)"
    using 1 2 by (simp add: cast_config_input_def cast_table_def)
  moreover have "rd16 ?t 48 = Some 4" "rd16 ?t (48 + 2) = Some 0"
    by (simp_all add: rd_as_bytes rd_walk le_nat_back sample_header_ok)
  ultimately show ?thesis
    using zero_length_table_hangs_check [OF 1(1), of ?t 64] sample_header_ok(2)
    by simp
qed

end
