(* ===== verification/PcdIo.thy ===== *)
theory PcdIo
  imports Lookups PcdTables
begin

text \<open>
  Reading and writing the platform configuration data of a device through its firmware
  (\<^verbatim>\<open>src/lib/platform_config_data.c\<close>). The build chooses between one command with a large
  payload and a sequence of commands with small payloads (\<^verbatim>\<open>__LARGE_PAYLOAD__\<close>); the choice is
  the argument \<open>large\<close>. Data read from a device is kept in the context of the device.

  The pointer the callers pass may end up dangling, so it is a value of its own: null, an
  allocated buffer, or freed.
\<close>

datatype config_ptr = Null_config | Config bytes | Freed_config

definition free_config :: "config_ptr \<Rightarrow> unit option" where
  "free_config p = (if p = Freed_config then None else Some ())"

abbreviation (input) SUBOP_PLATFORM_DATA_INFO :: u8 where "SUBOP_PLATFORM_DATA_INFO \<equiv> 1"
abbreviation (input) DEV_OS_PARTITION :: u8 where "DEV_OS_PARTITION \<equiv> 1"
abbreviation (input) DEV_PLT_CFG_OPT_LARGE_DATA :: u8 where "DEV_PLT_CFG_OPT_LARGE_DATA \<equiv> 0"
abbreviation (input) DEV_PLT_CFG_OPT_SMALL_DATA :: u8 where "DEV_PLT_CFG_OPT_SMALL_DATA \<equiv> 1"
abbreviation (input) DEV_PLT_CFG_LARGE_PAY :: u8 where "DEV_PLT_CFG_LARGE_PAY \<equiv> 0"
abbreviation (input) DEV_PLT_CFG_SMALL_PAY :: u8 where "DEV_PLT_CFG_SMALL_PAY \<equiv> 1"
abbreviation (input) DEV_SMALL_PAYLOAD_SIZE :: nat where "DEV_SMALL_PAYLOAD_SIZE \<equiv> 128"
abbreviation (input) WRITE_SIZE :: nat where "WRITE_SIZE \<equiv> 64"

section \<open>Commands\<close>

definition pcd_get_cmd :: "u32 \<Rightarrow> u8 \<Rightarrow> u32 \<Rightarrow> fw_cmd" where
  "pcd_get_cmd handle options offset =
     (fw_cmd_for handle PT_GET_ADMIN_FEATURES SUBOP_PLATFORM_DATA_INFO)
       \<lparr>cmd_input_payload := [DEV_OS_PARTITION, options] @ le32 offset @ replicate 122 0\<rparr>"

definition pcd_read_small_cmd :: "u32 \<Rightarrow> nat \<Rightarrow> fw_cmd" where
  "pcd_read_small_cmd handle offset =
     (pcd_get_cmd handle DEV_PLT_CFG_OPT_SMALL_DATA (of_nat offset))
       \<lparr>cmd_output_payload_size := DEV_SMALL_PAYLOAD_SIZE\<rparr>"

definition pcd_read_large_cmd :: "u32 \<Rightarrow> fw_cmd" where
  "pcd_read_large_cmd handle =
     (pcd_get_cmd handle DEV_PLT_CFG_OPT_LARGE_DATA 0)
       \<lparr>cmd_large_output_payload_size := DEV_PLT_CFG_PART_SIZE\<rparr>"

definition pcd_set_cmd :: "u32 \<Rightarrow> u8 \<Rightarrow> nat \<Rightarrow> bytes \<Rightarrow> bytes \<Rightarrow> fw_cmd" where
  "pcd_set_cmd handle payload_type offset data large_data =
     (fw_cmd_for handle PT_SET_ADMIN_FEATURES SUBOP_PLATFORM_DATA_INFO)
       \<lparr>cmd_input_payload := [DEV_OS_PARTITION, payload_type] @ le32 (of_nat offset) @ replicate 58 0 @ data,
        cmd_large_input_payload := large_data\<rparr>"

section \<open>Reading\<close>

text \<open>The size of the data: the header's length and the sizes of the three tables, added as 32-bit
  values.\<close>

definition pcd_size_of :: "bytes \<Rightarrow> u32 option" where
  "pcd_size_of cfg = do {
     len \<leftarrow> table_length cfg;
     ins \<leftarrow> rd32 cfg 44;
     cur \<leftarrow> rd32 cfg 36;
     out \<leftarrow> rd32 cfg 52;
     Some (len + ins + cur + out)
   }"

definition get_pcd_table_size ::
  "'hw adapter \<Rightarrow> u32 \<Rightarrow> ('hw, 'det) world \<Rightarrow> (int \<times> nat \<times> ('hw, 'det) world) option" where
  "get_pcd_table_size ad handle w =
     (let (rc, out, _, w) = ioctl_passthrough_cmd ad (pcd_read_small_cmd handle 0) w in
      if rc = NVM_SUCCESS then do { n \<leftarrow> pcd_size_of out; Some (rc, unat n, w) }
      else Some (rc, 0, w))"

function read_pcd_small ::
  "'hw adapter \<Rightarrow> u32 \<Rightarrow> nat \<Rightarrow> nat \<Rightarrow> bytes \<Rightarrow> ('hw, 'det) world \<Rightarrow> int \<times> bytes \<times> ('hw, 'det) world" where
  "read_pcd_small ad handle n offset buf w =
     (if \<not> offset < n then (NVM_SUCCESS, buf, w)
      else if offset > DEV_PLT_CFG_PART_SIZE - DEV_SMALL_PAYLOAD_SIZE then (NVM_ERR_UNKNOWN, buf, w)
      else
        let (rc, out, _, w) = ioctl_passthrough_cmd ad (pcd_read_small_cmd handle offset) w in
        if rc \<noteq> NVM_SUCCESS then (rc, buf, w)
        else
          let k = (if offset + DEV_SMALL_PAYLOAD_SIZE > n then n - offset else DEV_SMALL_PAYLOAD_SIZE)
          in read_pcd_small ad handle n (offset + DEV_SMALL_PAYLOAD_SIZE)
               (take offset buf @ take k out @ drop (offset + k) buf) w)"
  by pat_completeness auto
termination
  by (relation "measure (\<lambda>(ad, handle, n, offset, buf, w). n - offset)") auto

declare read_pcd_small.simps [simp del]

definition read_pcd_large ::
  "'hw adapter \<Rightarrow> u32 \<Rightarrow> nat \<Rightarrow> bytes \<Rightarrow> ('hw, 'det) world \<Rightarrow> int \<times> bytes \<times> ('hw, 'det) world" where
  "read_pcd_large ad handle n buf w =
     (if \<not> calloc_ok (ad_os ad) 1 then (NVM_ERR_NOMEMORY, buf, w)
      else
        let (rc, _, data, w) = ioctl_passthrough_cmd ad (pcd_read_large_cmd handle) w in
        (rc, if rc = NVM_SUCCESS then take n data else buf, w))"

definition checked_config :: "bytes \<Rightarrow> (int \<times> config_ptr) option" where
  "checked_config buf = do {
     (cfg, rc) \<leftarrow> check_platform_config (Some buf);
     c \<leftarrow> cfg;
     Some (rc, Config c)
   }"

definition get_hw_dimm_platform_config_alloc ::
  "'hw adapter \<Rightarrow> bool \<Rightarrow> u32 \<Rightarrow> config_ptr \<Rightarrow> ('hw, 'det) world \<Rightarrow>
   (int \<times> config_ptr \<times> ('hw, 'det) world) option" where
  "get_hw_dimm_platform_config_alloc ad large handle pp w = do {
     (rc, n, w) \<leftarrow> get_pcd_table_size ad handle w;
     if rc \<noteq> NVM_SUCCESS then Some (rc, pp, w)
     else if n = 0 then Some (NVM_SUCCESS, Null_config, w)
     else if n < PCD_LEN \<or> n > DEV_PLT_CFG_PART_SIZE then Some (NVM_ERR_UNKNOWN, pp, w)
     else if \<not> calloc_ok (ad_os ad) 0 then Some (NVM_ERR_NOMEMORY, Null_config, w)
     else
       let (rc, buf, w) =
         (if large then read_pcd_large ad handle n (replicate n 0) w
          else read_pcd_small ad handle n 0 (replicate n 0) w) in
       if rc \<noteq> NVM_SUCCESS then Some (rc, Freed_config, w)
       else do { (rc, p) \<leftarrow> checked_config buf; Some (rc, p, w) }
   }"

text \<open>Every caller passes a pointer to a null pointer.\<close>

definition get_dimm_platform_config ::
  "'hw adapter \<Rightarrow> bool \<Rightarrow> u32 \<Rightarrow> ('hw, 'det) world \<Rightarrow> (int \<times> config_ptr \<times> ('hw, 'det) world) option" where
  "get_dimm_platform_config ad large handle w = do {
     (rc, d, w) \<leftarrow> lookup_dev_handle ad handle w;
     (rc, pp, w) \<leftarrow>
       (if rc = NVM_SUCCESS then do {
          d \<leftarrow> d;
          (r, out, w) \<leftarrow> on_ctx (get_nvm_context_device_pcd (ad_os ad) (dev_guid d)) w;
          let pp = (case out of None \<Rightarrow> Null_config | Some (pcd, _) \<Rightarrow> Config pcd);
          if r \<noteq> NVM_SUCCESS then do {
            (rc, pp, w) \<leftarrow> get_hw_dimm_platform_config_alloc ad large handle pp w;
            case pp of
              Config c \<Rightarrow>
                if rc = NVM_SUCCESS then do {
                  (_, _, w) \<leftarrow> on_ctx (set_nvm_context_device_pcd (ad_os ad) (dev_guid d) c) w;
                  Some (rc, pp, w)
                } else Some (rc, pp, w)
            | _ \<Rightarrow> Some (rc, pp, w)
          } else Some (rc, pp, w)
        } else Some (rc, Null_config, w));
     Some (if pp = Null_config then NVM_ERR_BADDEVICECONFIG else rc, pp, w)
   }"

section \<open>Writing\<close>

text \<open>A small write copies 64 bytes from the caller's buffer, also behind the end of the data.\<close>

function write_pcd_small ::
  "'hw adapter \<Rightarrow> u32 \<Rightarrow> bytes \<Rightarrow> nat \<Rightarrow> nat \<Rightarrow> ('hw, 'det) world \<Rightarrow> (int \<times> ('hw, 'det) world) option" where
  "write_pcd_small ad handle cfg n offset w =
     (if \<not> offset < n then Some (NVM_SUCCESS, w)
      else if offset > DEV_PLT_CFG_PART_SIZE - WRITE_SIZE then Some (NVM_ERR_UNKNOWN, w)
      else case rd_bytes cfg offset WRITE_SIZE of
        None \<Rightarrow> None
      | Some data \<Rightarrow>
          let (rc, _, _, w) = ioctl_passthrough_cmd ad
                (pcd_set_cmd handle DEV_PLT_CFG_SMALL_PAY offset data []) w in
          if rc \<noteq> NVM_SUCCESS then Some (rc, w)
          else write_pcd_small ad handle cfg n (offset + WRITE_SIZE) w)"
  by pat_completeness auto
termination
  by (relation "measure (\<lambda>(ad, handle, cfg, n, offset, w). n - offset)") auto

declare write_pcd_small.simps [simp del]

definition write_pcd_large ::
  "'hw adapter \<Rightarrow> u32 \<Rightarrow> bytes \<Rightarrow> nat \<Rightarrow> ('hw, 'det) world \<Rightarrow> (int \<times> ('hw, 'det) world) option" where
  "write_pcd_large ad handle cfg n w =
     (if \<not> calloc_ok (ad_os ad) 0 then Some (NVM_ERR_NOMEMORY, w)
      else do {
        data \<leftarrow> rd_bytes cfg 0 n;
        buf \<leftarrow> store (replicate DEV_PLT_CFG_PART_SIZE 0) 0 data;
        let (rc, _, _, w) = ioctl_passthrough_cmd ad
              (pcd_set_cmd handle DEV_PLT_CFG_LARGE_PAY 0 (replicate WRITE_SIZE 0) buf) w;
        Some (rc, w)
      })"

definition set_dimm_platform_config ::
  "'hw adapter \<Rightarrow> bool \<Rightarrow> u32 \<Rightarrow> bytes \<Rightarrow> ('hw, 'det) world \<Rightarrow> (int \<times> ('hw, 'det) world) option" where
  "set_dimm_platform_config ad large handle cfg w = do {
     n \<leftarrow> pcd_size_of cfg;
     (rc, w) \<leftarrow>
       (if large then write_pcd_large ad handle cfg (unat n) w
        else write_pcd_small ad handle cfg (unat n) 0 w);
     if rc = NVM_SUCCESS then do {
       (rc, d, w) \<leftarrow> lookup_dev_handle ad handle w;
       if rc = NVM_SUCCESS then do {
         d \<leftarrow> d;
         (_, _, w) \<leftarrow> on_ctx (invalidate_device_pcd (ad_os ad) (dev_guid d)) w;
         Some (rc, w)
       } else Some (rc, w)
     } else Some (rc, w)
   }"

section \<open>What the callers read\<close>

definition get_next_config_input_sequence_number ::
  "'hw adapter \<Rightarrow> bool \<Rightarrow> device_discovery \<Rightarrow> ('hw, 'det) world \<Rightarrow>
   (int \<times> u32 option \<times> ('hw, 'det) world) option" where
  "get_next_config_input_sequence_number ad large d w = do {
     (rc, pp, w) \<leftarrow> get_dimm_platform_config ad large (device_handle d) w;
     case pp of
       Config c \<Rightarrow>
         if rc = NVM_SUCCESS then do {
           n \<leftarrow> get_last_config_output_sequence_number c;
           Some (rc, Some (n + 1), w)
         } else Some (rc, None, w)
     | _ \<Rightarrow> if rc = NVM_SUCCESS then None else Some (rc, None, w)
   }"

definition get_dimm_interleave_info_max_set_index ::
  "'hw adapter \<Rightarrow> bool \<Rightarrow> guid option \<Rightarrow> ('hw, 'det) world \<Rightarrow>
   (int \<times> u32 option \<times> ('hw, 'det) world) option" where
  "get_dimm_interleave_info_max_set_index ad large guid w =
     (if guid = None then Some (NVM_ERR_INVALIDPARAMETER, None, w)
      else do {
        (rc, d, w) \<leftarrow> exists_and_manageable ad guid True w;
        if rc \<noteq> NVM_SUCCESS then Some (rc, None, w)
        else do {
          d \<leftarrow> d;
          (rc, pp, w) \<leftarrow> get_dimm_platform_config ad large (device_handle d) w;
          (idx, rc) \<leftarrow>
            (if rc = NVM_SUCCESS then (case pp of Config c \<Rightarrow> pcd_max_set_index c | _ \<Rightarrow> None)
             else Some (0, rc));
          _ \<leftarrow> free_config pp;
          Some (rc, Some idx, w)
        }
      })"

definition get_interleave_settings_from_platform_config_data ::
  "'hw adapter \<Rightarrow> bool \<Rightarrow> u32 \<Rightarrow> u64 \<Rightarrow> interleave_format \<Rightarrow> ('hw, 'det) world \<Rightarrow>
   (int \<times> (u32 \<times> interleave_format \<times> u8) option \<times> ('hw, 'det) world) option" where
  "get_interleave_settings_from_platform_config_data ad large handle iset_offset fmt0 w = do {
     (rc, pp, w) \<leftarrow> get_dimm_platform_config ad large handle w;
     (rc, settings) \<leftarrow>
       (if rc \<noteq> NVM_SUCCESS then Some (rc, None)
        else case pp of Config c \<Rightarrow> interleave_settings_in c iset_offset fmt0 | _ \<Rightarrow> None);
     _ \<leftarrow> free_config pp;
     Some (rc, settings, w)
   }"

section \<open>A device that stores a partition\<close>

text \<open>What the code relies on: a device keeps a partition per handle, a read returns the part asked
  for and changes nothing, and a write replaces the part it names.\<close>

definition serves_partition :: "'hw adapter \<Rightarrow> ('hw \<Rightarrow> u32 \<Rightarrow> bytes) \<Rightarrow> bool" where
  "serves_partition ad part \<longleftrightarrow>
     (\<forall>h dimm. length (part h dimm) = DEV_PLT_CFG_PART_SIZE \<and>
       (\<forall>off \<le> DEV_PLT_CFG_PART_SIZE - DEV_SMALL_PAYLOAD_SIZE. \<exists>large.
          passthrough ad (pcd_read_small_cmd dimm off) h =
            (NVM_SUCCESS, take DEV_SMALL_PAYLOAD_SIZE (drop off (part h dimm)), large, h)) \<and>
       (\<exists>small. passthrough ad (pcd_read_large_cmd dimm) h = (NVM_SUCCESS, small, part h dimm, h)))"

definition keeps_partition :: "'hw adapter \<Rightarrow> ('hw \<Rightarrow> u32 \<Rightarrow> bytes) \<Rightarrow> bool" where
  "keeps_partition ad part \<longleftrightarrow> serves_partition ad part \<and>
     (\<forall>h dimm cmd. cmd_opcode cmd \<noteq> PT_SET_ADMIN_FEATURES \<longrightarrow>
        part (snd (snd (snd (passthrough ad cmd h)))) dimm = part h dimm) \<and>
     (\<forall>h dimm data. length data = DEV_PLT_CFG_PART_SIZE \<longrightarrow>
        (\<exists>small large h'. passthrough ad
            (pcd_set_cmd dimm DEV_PLT_CFG_LARGE_PAY 0 (replicate WRITE_SIZE 0) data) h =
            (NVM_SUCCESS, small, large, h') \<and> part h' dimm = data)) \<and>
     (\<forall>h dimm off data. off \<le> DEV_PLT_CFG_PART_SIZE - WRITE_SIZE \<longrightarrow> length data = WRITE_SIZE \<longrightarrow>
        (\<exists>small large h'. passthrough ad (pcd_set_cmd dimm DEV_PLT_CFG_SMALL_PAY off data []) h =
            (NVM_SUCCESS, small, large, h') \<and> store (part h dimm) off data = Some (part h' dimm)))"

text \<open>What reading a partition should give.\<close>

definition stored_pcd :: "bytes \<Rightarrow> config_ptr \<Rightarrow> (int \<times> config_ptr) option" where
  "stored_pcd part pp = do {
     n \<leftarrow> pcd_size_of part;
     if n = 0 then Some (NVM_SUCCESS, Null_config)
     else if unat n < PCD_LEN \<or> unat n > DEV_PLT_CFG_PART_SIZE then Some (NVM_ERR_UNKNOWN, pp)
     else checked_config (take (unat n) part)
   }"

lemma rd_bytes_take: "off + n \<le> k \<Longrightarrow> rd_bytes (take k buf) off n = rd_bytes buf off n"
proof -
  assume "off + n \<le> k"
  then have "n \<le> k - off" by simp
  then have "take n (drop off (take k buf)) = take n (drop off buf)"
    by (simp add: drop_take min_def)
  with \<open>off + n \<le> k\<close> show ?thesis by (auto simp: rd_bytes_def)
qed

lemma pcd_size_of_take: "PCD_LEN \<le> k \<Longrightarrow> pcd_size_of (take k buf) = pcd_size_of buf"
  by (simp add: pcd_size_of_def table_length_def rd_as_bytes rd_bytes_take)

lemma pcd_cmd_sizes [simp]:
  "cmd_output_payload_size (pcd_read_small_cmd dimm off) = DEV_SMALL_PAYLOAD_SIZE"
  "cmd_large_output_payload_size (pcd_read_large_cmd dimm) = DEV_PLT_CFG_PART_SIZE"
  by (simp_all add: pcd_read_small_cmd_def pcd_read_large_cmd_def)

text \<open>A step that leaves the device and the context alone.\<close>

definition quiet :: "('hw, 'det) world \<Rightarrow> ('hw, 'det) world \<Rightarrow> bool" where
  "quiet w w' \<longleftrightarrow> w_hw w' = w_hw w \<and> w_ctx w' = w_ctx w \<and> w_events w' = w_events w"

lemma quiet_refl [simp]: "quiet w w"
  by (simp add: quiet_def)

lemma quiet_trans [trans]: "quiet w w' \<Longrightarrow> quiet w' w'' \<Longrightarrow> quiet w w''"
  by (simp add: quiet_def)

lemma fit_exact: "length bs = n \<Longrightarrow> fit n bs = bs"
  by (simp add: fit_def)

lemma read_small_step:
  assumes "serves_partition ad part" "off + DEV_SMALL_PAYLOAD_SIZE \<le> DEV_PLT_CFG_PART_SIZE"
  shows "\<exists>large w'. ioctl_passthrough_cmd ad (pcd_read_small_cmd dimm off) w =
      (NVM_SUCCESS, take DEV_SMALL_PAYLOAD_SIZE (drop off (part (w_hw w) dimm)), large, w') \<and> quiet w w'"
proof -
  have "off \<le> DEV_PLT_CFG_PART_SIZE - DEV_SMALL_PAYLOAD_SIZE" using assms(2) by simp
  with assms(1) obtain large where "passthrough ad (pcd_read_small_cmd dimm off) (w_hw w) =
      (NVM_SUCCESS, take DEV_SMALL_PAYLOAD_SIZE (drop off (part (w_hw w) dimm)), large, w_hw w)"
    unfolding serves_partition_def by blast
  moreover have "length (take DEV_SMALL_PAYLOAD_SIZE (drop off (part (w_hw w) dimm))) = DEV_SMALL_PAYLOAD_SIZE"
    using assms unfolding serves_partition_def by simp
  ultimately show ?thesis by (simp add: ioctl_passthrough_cmd_def fit_exact quiet_def)
qed

lemma read_large_step:
  assumes "serves_partition ad part"
  shows "\<exists>small w'. ioctl_passthrough_cmd ad (pcd_read_large_cmd dimm) w =
      (NVM_SUCCESS, small, part (w_hw w) dimm, w') \<and> quiet w w'"
proof -
  from assms obtain small where "passthrough ad (pcd_read_large_cmd dimm) (w_hw w) =
      (NVM_SUCCESS, small, part (w_hw w) dimm, w_hw w)"
    unfolding serves_partition_def by blast
  moreover have "length (part (w_hw w) dimm) = DEV_PLT_CFG_PART_SIZE"
    using assms unfolding serves_partition_def by simp
  ultimately show ?thesis by (simp add: ioctl_passthrough_cmd_def fit_exact quiet_def)
qed

lemma part_size_dvd: "128 dvd DEV_PLT_CFG_PART_SIZE" "64 dvd DEV_PLT_CFG_PART_SIZE"
  by (simp_all add: DEV_PLT_CFG_PART_SIZE_def)

lemma chunk_in_partition:
  "(k::nat) dvd off \<Longrightarrow> off < n \<Longrightarrow> n \<le> p \<Longrightarrow> k dvd p \<Longrightarrow> off + k \<le> p"
proof -
  assume "k dvd off" "off < n" "n \<le> p" "k dvd p"
  then obtain a b where "off = k * a" "p = k * b" by (auto elim!: dvdE)
  with \<open>off < n\<close> \<open>n \<le> p\<close> have "Suc a \<le> b" by (metis Suc_leI le_trans mult_less_cancel1 not_less)
  then have "k * Suc a \<le> k * b" by (rule mult_le_mono2)
  with \<open>off = k * a\<close> \<open>p = k * b\<close> show ?thesis by simp
qed

lemma splice_chunk:
  assumes "length buf = n" "off + k \<le> n" "off + k \<le> length p"
  shows "take (off + k) (take off buf @ take k (drop off p) @ drop (off + k) buf) @
      take (n - (off + k)) (drop (off + k) p) = take off buf @ take (n - off) (drop off p)"
proof -
  have "n - off = k + (n - (off + k))" using assms(2) by simp
  then have "take (n - off) (drop off p) = take k (drop off p) @ take (n - (off + k)) (drop (off + k) p)"
    by (metis add.commute drop_drop take_add)
  moreover have "take (off + k) (take off buf @ take k (drop off p) @ drop (off + k) buf) =
      take off buf @ take k (drop off p)"
    using assms by simp
  ultimately show ?thesis by simp
qed

lemma splice_end:
  assumes "length buf = n" "off + k = n" "k \<le> m" "off + m \<le> length p"
  shows "take (off + m) (take off buf @ take k (drop off p) @ drop (off + k) buf) @
      take (n - (off + m)) (drop (off + m) p) = take off buf @ take (n - off) (drop off p)"
proof -
  have "n - off = k" using assms(2) by simp
  with assms show ?thesis by simp
qed

lemma read_pcd_small_whole:
  assumes "serves_partition ad part" "n \<le> DEV_PLT_CFG_PART_SIZE" "128 dvd off" "length buf = n"
  shows "\<exists>w'. read_pcd_small ad dimm n off buf w =
      (NVM_SUCCESS, take off buf @ take (n - off) (drop off (part (w_hw w) dimm)), w') \<and> quiet w w'"
  using assms(3,4)
proof (induction "n - off" arbitrary: off buf w rule: less_induct)
  case less
  show ?case
  proof (cases "off < n")
    case False
    with less.prems(2) show ?thesis by (subst read_pcd_small.simps) simp
  next
    case True
    have le: "off + 128 \<le> DEV_PLT_CFG_PART_SIZE"
      using chunk_in_partition [OF less.prems(1) True assms(2) part_size_dvd(1)] .
    let ?p = "part (w_hw w) dimm"
    obtain large w1 where io: "ioctl_passthrough_cmd ad (pcd_read_small_cmd dimm off) w =
      (NVM_SUCCESS, take 128 (drop off ?p), large, w1)" "quiet w w1"
      using read_small_step [OF assms(1) le] by blast
    define k where "k = (if off + 128 > n then n - off else 128)"
    let ?buf = "take off buf @ take k (drop off ?p) @ drop (off + k) buf"
    have k: "off + k \<le> n" "k \<le> 128" "off + k = n \<or> k = 128"
      using True by (auto simp: k_def)
    have lp: "length ?p = DEV_PLT_CFG_PART_SIZE" using assms(1) unfolding serves_partition_def by simp
    have len: "length ?buf = n"
      using less.prems(2) k(1,2) le lp by simp
    have "n - (off + 128) < n - off" "128 dvd off + 128" using True less.prems(1) by simp_all
    from less.hyps [OF this len, of w1] obtain w2 where
      r: "read_pcd_small ad dimm n (off + 128) ?buf w1 =
        (NVM_SUCCESS, take (off + 128) ?buf @ take (n - (off + 128)) (drop (off + 128) (part (w_hw w1) dimm)), w2)"
      "quiet w1 w2" by blast
    have "take (off + 128) ?buf @ take (n - (off + 128)) (drop (off + 128) ?p) =
        take off buf @ take (n - off) (drop off ?p)"
    proof (cases "k = 128")
      case True
      with splice_chunk [OF less.prems(2) k(1), of ?p] k(1) assms(2) lp show ?thesis by simp
    next
      case False
      with k splice_end [OF less.prems(2), of off k 128 ?p] le lp show ?thesis by simp
    qed
    moreover have "w_hw w1 = w_hw w" using io(2) by (simp add: quiet_def)
    moreover have "read_pcd_small ad dimm n off buf w = read_pcd_small ad dimm n (off + 128) ?buf w1"
    proof -
      have "\<not> off > DEV_PLT_CFG_PART_SIZE - 128" using le by arith
      then show ?thesis
        using True k(2)
        by (subst read_pcd_small.simps) (simp add: io(1) Let_def k_def [symmetric] min_absorb1)
    qed
    ultimately show ?thesis using r quiet_trans [OF io(2) r(2)] by simp
  qed
qed

text \<open>Both builds read the same data from a device: the data stored in its partition.\<close>

lemma read_partition:
  assumes "serves_partition ad part" "ad_os ad = os_fine"
  shows "case stored_pcd (part (w_hw w) dimm) pp of
      None \<Rightarrow> get_hw_dimm_platform_config_alloc ad large dimm pp w = None
    | Some (rc, p) \<Rightarrow>
        \<exists>w'. get_hw_dimm_platform_config_alloc ad large dimm pp w = Some (rc, p, w') \<and> quiet w w'"
proof -
  let ?p = "part (w_hw w) dimm"
  have lp: "length ?p = DEV_PLT_CFG_PART_SIZE" using assms(1) unfolding serves_partition_def by simp
  obtain l w1 where io: "ioctl_passthrough_cmd ad (pcd_read_small_cmd dimm 0) w =
      (NVM_SUCCESS, take 128 (drop 0 ?p), l, w1)" "quiet w w1"
    using read_small_step [OF assms(1), of 0 dimm w] by (auto simp: DEV_PLT_CFG_PART_SIZE_def)
  have hw: "w_hw w1 = w_hw w" using io(2) by (simp add: quiet_def)
  have "pcd_size_of ?p \<noteq> None"
    using lp rd_Some_iff(3) [of ?p]
    by (auto simp: pcd_size_of_def table_length_def DEV_PLT_CFG_PART_SIZE_def bind_eq_None_conv)
  then obtain n where n: "pcd_size_of ?p = Some n" by blast
  have sz: "get_pcd_table_size ad dimm w = Some (NVM_SUCCESS, unat n, w1)"
    using io n by (simp add: get_pcd_table_size_def pcd_size_of_take)
  have rd: "\<exists>w2. (if large then read_pcd_large ad dimm (unat n) (replicate (unat n) 0) w1
      else read_pcd_small ad dimm (unat n) 0 (replicate (unat n) 0) w1) =
      (NVM_SUCCESS, take (unat n) ?p, w2) \<and> quiet w1 w2" if "unat n \<le> DEV_PLT_CFG_PART_SIZE"
  proof (cases large)
    case True
    then show ?thesis
      using read_large_step [OF assms(1), of dimm w1] assms(2) hw
      by (auto simp: read_pcd_large_def)
  next
    case False
    then show ?thesis
      using read_pcd_small_whole [OF assms(1) that, of 0 "replicate (unat n) 0" dimm w1] hw by simp
  qed
  show ?thesis
  proof (cases "n = 0 \<or> unat n < PCD_LEN \<or> unat n > DEV_PLT_CFG_PART_SIZE")
    case True
    then show ?thesis
      using n sz io(2) by (auto simp: stored_pcd_def get_hw_dimm_platform_config_alloc_def unat_eq_0)
  next
    case False
    with rd obtain w2 where r: "(if large then read_pcd_large ad dimm (unat n) (replicate (unat n) 0) w1
      else read_pcd_small ad dimm (unat n) 0 (replicate (unat n) 0) w1) =
      (NVM_SUCCESS, take (unat n) ?p, w2)" "quiet w1 w2" by auto
    have "quiet w w2" using io(2) r(2) by (rule quiet_trans)
    moreover have "n \<noteq> 0" "\<not> unat n < PCD_LEN" "\<not> unat n > DEV_PLT_CFG_PART_SIZE" "unat n \<noteq> 0"
      using False by (auto simp: unat_eq_0)
    ultimately show ?thesis
      using n sz r(1) assms(2)
      by (cases "checked_config (take (unat n) ?p)")
        (auto simp: stored_pcd_def get_hw_dimm_platform_config_alloc_def)
  qed
qed

section \<open>Writing a partition\<close>

lemma write_small_step:
  assumes "keeps_partition ad part" "off + WRITE_SIZE \<le> DEV_PLT_CFG_PART_SIZE" "length data = WRITE_SIZE"
  shows "\<exists>small large w'. ioctl_passthrough_cmd ad (pcd_set_cmd dimm DEV_PLT_CFG_SMALL_PAY off data []) w =
      (NVM_SUCCESS, small, large, w') \<and> w_ctx w' = w_ctx w \<and>
      store (part (w_hw w) dimm) off data = Some (part (w_hw w') dimm)"
proof -
  have "off \<le> DEV_PLT_CFG_PART_SIZE - WRITE_SIZE" using assms(2) by simp
  with assms(1,3) obtain small large h' where
    "passthrough ad (pcd_set_cmd dimm DEV_PLT_CFG_SMALL_PAY off data []) (w_hw w) =
      (NVM_SUCCESS, small, large, h')" "store (part (w_hw w) dimm) off data = Some (part h' dimm)"
    unfolding keeps_partition_def by blast
  then show ?thesis by (simp add: ioctl_passthrough_cmd_def)
qed

lemma write_large_step:
  assumes "keeps_partition ad part" "length data = DEV_PLT_CFG_PART_SIZE"
  shows "\<exists>small large w'. ioctl_passthrough_cmd ad
        (pcd_set_cmd dimm DEV_PLT_CFG_LARGE_PAY 0 (replicate WRITE_SIZE 0) data) w =
      (NVM_SUCCESS, small, large, w') \<and> w_ctx w' = w_ctx w \<and> part (w_hw w') dimm = data"
proof -
  from assms obtain small large h' where
    "passthrough ad (pcd_set_cmd dimm DEV_PLT_CFG_LARGE_PAY 0 (replicate WRITE_SIZE 0) data) (w_hw w) =
      (NVM_SUCCESS, small, large, h')" "part h' dimm = data"
    unfolding keeps_partition_def by blast
  then show ?thesis by (simp add: ioctl_passthrough_cmd_def)
qed

lemma keeps_length: "keeps_partition ad part \<Longrightarrow> length (part h dimm) = DEV_PLT_CFG_PART_SIZE"
  by (simp add: keeps_partition_def serves_partition_def)

lemma nth_store:
  "store buf off bs = Some buf' \<Longrightarrow> i < length buf \<Longrightarrow>
   buf' ! i = (if off \<le> i \<and> i < off + length bs then bs ! (i - off) else buf ! i)"
  by (auto simp: store_def nth_append split: if_splits)

lemma write_pcd_small_whole:
  assumes "keeps_partition ad part" "n \<le> DEV_PLT_CFG_PART_SIZE" "64 dvd off"
    "write_pcd_small ad dimm cfg n off w = Some (rc, w')"
  shows "rc = NVM_SUCCESS \<and> w_ctx w' = w_ctx w \<and> (off < n \<longrightarrow> n \<le> length cfg) \<and>
    (\<forall>i < DEV_PLT_CFG_PART_SIZE.
       (i < off \<longrightarrow> part (w_hw w') dimm ! i = part (w_hw w) dimm ! i) \<and>
       (off \<le> i \<and> i < n \<longrightarrow> part (w_hw w') dimm ! i = cfg ! i))"
  using assms(3,4)
proof (induction "n - off" arbitrary: off w rule: less_induct)
  case less
  show ?case
  proof (cases "off < n")
    case False
    with less.prems(2) show ?thesis by (subst (asm) write_pcd_small.simps) auto
  next
    case True
    have le: "off + 64 \<le> DEV_PLT_CFG_PART_SIZE"
      using chunk_in_partition [OF less.prems(1) True assms(2) part_size_dvd(2)] .
    then have g: "\<not> off > DEV_PLT_CFG_PART_SIZE - 64" by arith
    from less.prems(2) True g obtain data where data: "rd_bytes cfg off 64 = Some data"
      by (subst (asm) write_pcd_small.simps) (auto split: option.splits)
    then have len: "length data = 64" and cfg: "off + 64 \<le> length cfg"
      and nth: "\<And>i. off \<le> i \<Longrightarrow> i < off + 64 \<Longrightarrow> data ! (i - off) = cfg ! i"
      by (auto simp: rd_bytes_def split: if_splits)
    from write_small_step [OF assms(1) le len] obtain s l w1 where
      io: "ioctl_passthrough_cmd ad (pcd_set_cmd dimm DEV_PLT_CFG_SMALL_PAY off data []) w =
        (NVM_SUCCESS, s, l, w1)" "w_ctx w1 = w_ctx w"
        "store (part (w_hw w) dimm) off data = Some (part (w_hw w1) dimm)" by blast
    have st: "part (w_hw w1) dimm ! i = (if off \<le> i \<and> i < off + 64 then cfg ! i else part (w_hw w) dimm ! i)"
      if "i < DEV_PLT_CFG_PART_SIZE" for i
      using nth_store [OF io(3), of i] that len nth keeps_length [OF assms(1)] by auto
    have "write_pcd_small ad dimm cfg n (off + 64) w1 = Some (rc, w')"
      using less.prems(2) True g data io(1) by (subst (asm) write_pcd_small.simps) (simp add: Let_def)
    moreover have "n - (off + 64) < n - off" "64 dvd off + 64" using True less.prems(1) by simp_all
    ultimately have ih: "rc = NVM_SUCCESS" "w_ctx w' = w_ctx w1" "off + 64 < n \<longrightarrow> n \<le> length cfg"
      "\<forall>i < DEV_PLT_CFG_PART_SIZE. (i < off + 64 \<longrightarrow> part (w_hw w') dimm ! i = part (w_hw w1) dimm ! i) \<and>
       (off + 64 \<le> i \<and> i < n \<longrightarrow> part (w_hw w') dimm ! i = cfg ! i)"
      using less.hyps [of "off + 64" w1] by blast+
    have "part (w_hw w') dimm ! i = cfg ! i" if "i < DEV_PLT_CFG_PART_SIZE" "off \<le> i" "i < n" for i
      using ih(4) st [of i] that by (cases "i < off + 64") auto
    moreover have "part (w_hw w') dimm ! i = part (w_hw w) dimm ! i" if "i < DEV_PLT_CFG_PART_SIZE" "i < off" for i
      using ih(4) st [of i] that by auto
    moreover have "n \<le> length cfg" using ih(3) cfg by (cases "off + 64 < n") auto
    ultimately show ?thesis using ih(1,2) io(2) by simp
  qed
qed

text \<open>Both builds leave the data in the partition.\<close>

lemma write_partition:
  assumes "keeps_partition ad part" "ad_os ad = os_fine" "n \<le> DEV_PLT_CFG_PART_SIZE" "0 < n"
    "(if large then write_pcd_large ad dimm cfg n w else write_pcd_small ad dimm cfg n 0 w) = Some (rc, w')"
  shows "rc = NVM_SUCCESS \<and> take n (part (w_hw w') dimm) = take n cfg \<and> n \<le> length cfg"
proof (cases large)
  case True
  with assms(2,5) obtain data buf where d: "rd_bytes cfg 0 n = Some data"
    "store (replicate DEV_PLT_CFG_PART_SIZE 0) 0 data = Some buf"
    and io: "(let (rc, _, _, w) = ioctl_passthrough_cmd ad
        (pcd_set_cmd dimm DEV_PLT_CFG_LARGE_PAY 0 (replicate WRITE_SIZE 0) buf) w in Some (rc, w)) = Some (rc, w')"
    by (auto simp: write_pcd_large_def os_fine_def bind_eq_Some_conv)
  then have data: "data = take n cfg" "n \<le> length cfg" and buf: "take n buf = data"
    "length buf = DEV_PLT_CFG_PART_SIZE"
    using assms(3) by (auto simp: rd_bytes_def store_def split: if_splits)
  from write_large_step [OF assms(1) buf(2), of dimm w] io show ?thesis
    using buf(1) data by (auto simp: Let_def)
next
  case False
  with assms(5) have "write_pcd_small ad dimm cfg n 0 w = Some (rc, w')" by simp
  from write_pcd_small_whole [OF assms(1,3) _ this] assms(4)
  have r: "rc = NVM_SUCCESS" "n \<le> length cfg"
    "\<forall>i < DEV_PLT_CFG_PART_SIZE. i < n \<longrightarrow> part (w_hw w') dimm ! i = cfg ! i" by auto
  have "take n (part (w_hw w') dimm) = take n cfg"
    using r assms(3) keeps_length [OF assms(1)] by (intro nth_equalityI) auto
  with r show ?thesis by simp
qed

lemma steps_keep_partition:
  assumes "keeps_partition ad part" "lookup_steps ad w w'"
  shows "part (w_hw w') dimm = part (w_hw w) dimm"
  using assms(2) refl [of "part (w_hw w) dimm"]
proof (rule lookup_steps_preserve)
  fix v cmd rc small large v'
  assume v: "part (w_hw v) dimm = part (w_hw w) dimm"
    and c: "cmd_opcode cmd = PT_IDENTIFY_DIMM \<or> cmd_opcode cmd = PT_GET_SEC_INFO"
    and io: "ioctl_passthrough_cmd ad cmd v = (rc, small, large, v')"
  have "w_hw v' = snd (snd (snd (passthrough ad cmd (w_hw v))))"
    using io by (auto simp: ioctl_passthrough_cmd_def Let_def split: prod.splits)
  moreover have "cmd_opcode cmd \<noteq> PT_SET_ADMIN_FEATURES" using c by auto
  ultimately show "part (w_hw v') dimm = part (w_hw w) dimm"
    using assms(1) v unfolding keeps_partition_def by metis
qed simp

section \<open>The cached data\<close>

lemma lookup_handle_warm:
  assumes "ad_os ad = os_fine" "permitted ad" "driver_ok ad" "cached (p_context (w_ctx w)) ds"
    and "length ds < 256"
  shows "\<exists>w'. lookup_dev_handle ad h w =
      Some (case find (\<lambda>d. h = device_handle d) ds of
              None \<Rightarrow> (NVM_ERR_BADDEVICE, None, w') | Some d \<Rightarrow> (NVM_SUCCESS, Some d, w')) \<and>
    w_sent w' = w_sent w \<and> w_hw w' = w_hw w \<and> p_context (w_ctx w') = p_context (w_ctx w)"
proof -
  from get_devices_from_cache [OF assms] obtain w' where
    w': "get_devices ad w = Some (int (length ds), Some (Some ds), w')" "w_sent w' = w_sent w"
      "w_hw w' = w_hw w" "p_context (w_ctx w') = p_context (w_ctx w)" by blast
  have "ds \<noteq> []" using assms(4) by (auto simp: cached_def)
  with w' show ?thesis
    by (auto simp: lookup_dev_handle_def lookup_in_find split: option.splits)
qed

text \<open>The context holds these devices, each entry under its own GUID.\<close>

definition holds_devices :: "'det nvm_context option \<Rightarrow> device_discovery list \<Rightarrow> bool" where
  "holds_devices c ds \<longleftrightarrow>
     (\<exists>x es. c = Some x \<and> p_devices x = Some es \<and> device_count x = int (length ds) \<and> ds \<noteq> [] \<and>
        list_all2 (\<lambda>e d. p_device_discovery e = Some d \<and> dc_guid e = dev_guid d) es ds)"

lemma copy_discovery_all2:
  "list_all2 (\<lambda>e d. p_device_discovery e = Some d \<and> dc_guid e = dev_guid d) es ds \<Longrightarrow>
   copy_discovery es (length ds) = Some (ds, True)"
  by (induction rule: list_all2_induct) auto

lemma holds_devices_cached: "holds_devices c ds \<Longrightarrow> cached c ds"
  by (auto simp: holds_devices_def cached_def dest: copy_discovery_all2)

lemma holds_present:
  assumes "holds_devices (p_context s) ds" "d \<in> set ds" "wf_ctx (p_context s)"
  shows "device_present (dev_guid d) s"
proof -
  from assms(1) obtain x es where x: "p_context s = Some x" "p_devices x = Some es"
    "device_count x = int (length ds)" "ds \<noteq> []"
    and a: "list_all2 (\<lambda>e d. p_device_discovery e = Some d \<and> dc_guid e = dev_guid d) es ds"
    by (auto simp: holds_devices_def)
  from assms(2) obtain j where j: "j < length ds" "ds ! j = d" by (auto simp: in_set_conv_nth)
  have le: "length es = length ds" using a by (rule list_all2_lengthD)
  have "list_all wf_device es" using assms(3) x le by (auto simp: wf_ctx_def wf_list_def)
  then have "guid_match (dev_guid d) (dc_guid (es ! j))"
    using a j le by (auto simp: list_all2_conv_all_nth list_all_length wf_device_def)
  then have "search (\<lambda>e. guid_match (dev_guid d) (dc_guid e)) es (length es) 0 \<noteq> Some None"
    unfolding search_Some_None using j(1) le by (metis nth_mem)
  moreover obtain r where "search (\<lambda>e. guid_match (dev_guid d) (dc_guid e)) es (length es) 0 = Some r"
    using search_ex by blast
  ultimately show ?thesis
    using x le by (cases r) (auto simp: device_present_def find_device_def)
qed

lemma holds_guid:
  assumes "holds_devices (p_context s) ds" "d \<in> set ds" "wf_ctx (p_context s)"
  shows "length (dev_guid d) = GUID_LEN"
proof -
  from assms(1) obtain x es where x: "p_context s = Some x" "p_devices x = Some es"
    "device_count x = int (length ds)"
    and a: "list_all2 (\<lambda>e d. p_device_discovery e = Some d \<and> dc_guid e = dev_guid d) es ds"
    by (auto simp: holds_devices_def)
  have "length es = length ds" using a by (rule list_all2_lengthD)
  with assms(3) x have "list_all wf_device es" by (auto simp: wf_ctx_def wf_list_def)
  with a assms(2) show ?thesis
    by (auto simp: list_all2_conv_all_nth in_set_conv_nth list_all_length wf_device_def)
qed

lemma list_all2_update:
  "list_all2 R xs ys \<Longrightarrow> (i < length xs \<Longrightarrow> R x (ys ! i)) \<Longrightarrow> list_all2 R (xs[i := x]) ys"
  by (auto simp: list_all2_conv_all_nth) (metis nth_list_update_eq nth_list_update_neq)

lemma holds_write_pcd:
  assumes "holds_devices (p_context s) ds" "wf_ctx (p_context s)"
  shows "holds_devices (p_context (write_pcd g v s)) ds"
proof (cases "device_at g s")
  case None
  with assms show ?thesis by (simp add: write_pcd_eq map_device_def)
next
  case (Some e)
  obtain i d where e: "e = (i, d)" by fastforce
  from assms(1) obtain x es where x: "p_context s = Some x" "p_devices x = Some es"
    "device_count x = int (length ds)" "ds \<noteq> []"
    and a: "list_all2 (\<lambda>e d. p_device_discovery e = Some d \<and> dc_guid e = dev_guid d) es ds"
    by (auto simp: holds_devices_def)
  have "d = es ! i"
    using Some e x by (auto simp: device_at_def find_device_def split: option.splits if_splits Option.bind_splits)
  then have "list_all2 (\<lambda>e d. p_device_discovery e = Some d \<and> dc_guid e = dev_guid d)
      (es[i := d\<lparr>p_pcd := Some v, pcd_size := of_nat (length v)\<rparr>]) ds"
    using a by (intro list_all2_update [OF a]) (simp add: list_all2_conv_all_nth)
  with x assms(2) Some e show ?thesis
    by (auto simp: write_pcd_eq map_device_def put_device_def holds_devices_def)
qed

lemma ctx_get_pcd:
  fixes w :: "('hw, 'det) world"
  assumes "wf_ctx (p_context (w_ctx w))"
  shows "\<exists>w' r out. on_ctx (get_nvm_context_device_pcd os_fine g) w = Some (r, out, w') \<and>
    map_option fst out = read_pcd g (w_ctx w) \<and> (r = NVM_SUCCESS \<longleftrightarrow> out \<noteq> None) \<and>
    w_sent w' = w_sent w \<and> w_hw w' = w_hw w \<and> p_context (w_ctx w') = p_context (w_ctx w)"
proof -
  let ?f = "\<lambda>d :: 'det nvm_device_context. (case p_pcd d of
        None \<Rightarrow> (d, NVM_ERR_UNKNOWN, None)
      | Some pcd \<Rightarrow>
          if \<not> pcd_size d > 0 then (d, NVM_ERR_UNKNOWN, None)
          else (d, NVM_SUCCESS, Some (pcd, pcd_size d)))"
  have g: "get_nvm_context_device_pcd os_fine g = with_lock os_fine None (on_device g None ?f)"
    by (simp add: get_nvm_context_device_pcd_def calloc_fine cong: option.case_cong if_cong)
  have same: "map_device g (\<lambda>_. d) (w_ctx w) = p_context (w_ctx w)" if "device_at g (w_ctx w) = Some (i, d)" for i d
    using that
    by (auto simp: map_device_def put_device_def device_at_def find_device_def
      split: option.splits if_splits Option.bind_splits)
  show ?thesis
    using assms
    by (cases "device_at g (w_ctx w)")
      (auto simp: g on_ctx_def run_on_device read_pcd_eq same split: option.splits)
qed

lemma ctx_set_pcd:
  "wf_ctx (p_context (w_ctx w)) \<Longrightarrow>
   \<exists>r. on_ctx (set_nvm_context_device_pcd os_fine g c) w =
     Some (r, (), w\<lparr>w_ctx := write_pcd g c (w_ctx w)\<rparr>)"
proof -
  assume wf: "wf_ctx (p_context (w_ctx w))"
  then obtain s r where "set_nvm_context_device_pcd os_fine g c (w_ctx w) = Some (s, r, ())"
    by (cases "device_at g (w_ctx w)")
      (auto simp: set_nvm_context_device_pcd_def run_on_device split: prod.splits)
  then show ?thesis by (simp add: on_ctx_def write_pcd_def)
qed

lemma ctx_invalidate_pcd:
  "wf_ctx (p_context (w_ctx w)) \<Longrightarrow> \<exists>r w'. on_ctx (invalidate_device_pcd os_fine g) w = Some (r, (), w')"
  by (cases "device_at g (w_ctx w)"; cases "p_pcd (snd (the (device_at g (w_ctx w))))")
    (auto simp: on_ctx_def invalidate_device_pcd_def run_on_device)

text \<open>A read of data the context holds.\<close>

lemma warm_pcd:
  fixes w :: "('hw, 'det) world"
  assumes "ad_os ad = os_fine" "permitted ad" "driver_ok ad"
    and "wf_ctx (p_context (w_ctx w))" "holds_devices (p_context (w_ctx w)) ds" "length ds < 256"
    and "find (\<lambda>d. h = device_handle d) ds = Some d" "read_pcd (dev_guid d) (w_ctx w) = Some c"
  shows "\<exists>w'. get_dimm_platform_config ad large h w = Some (NVM_SUCCESS, Config c, w') \<and>
    w_sent w' = w_sent w \<and> w_hw w' = w_hw w \<and> p_context (w_ctx w') = p_context (w_ctx w)"
proof -
  from lookup_handle_warm [OF assms(1-3) holds_devices_cached [OF assms(5)] assms(6), of h] assms(7)
  obtain w1 where w1: "lookup_dev_handle ad h w = Some (NVM_SUCCESS, Some d, w1)" "w_sent w1 = w_sent w"
    "w_hw w1 = w_hw w" "p_context (w_ctx w1) = p_context (w_ctx w)" by auto
  have wf: "wf_ctx (p_context (w_ctx w1))" using assms(4) w1(4) by simp
  have "read_pcd (dev_guid d) (w_ctx w1) = Some c"
    using assms(4,8) wf w1(4) by (simp add: read_pcd_eq device_at_def)
  with ctx_get_pcd [OF wf, of "dev_guid d"] obtain w2 out where
    "on_ctx (get_nvm_context_device_pcd os_fine (dev_guid d)) w1 = Some (NVM_SUCCESS, Some out, w2)"
    "fst out = c" "w_sent w2 = w_sent w1" "w_hw w2 = w_hw w1"
    "p_context (w_ctx w2) = p_context (w_ctx w1)" by auto
  with w1 assms(1) show ?thesis by (auto simp: get_dimm_platform_config_def split: prod.splits)
qed

lemma read_pcd_small_ctx:
  "read_pcd_small ad h n off buf w = (rc, buf', w') \<Longrightarrow> w_ctx w' = w_ctx w"
proof (induction ad h n off buf w rule: read_pcd_small.induct)
  case (1 ad h n off buf w)
  obtain rc1 out lg w1 where io: "ioctl_passthrough_cmd ad (pcd_read_small_cmd h off) w = (rc1, out, lg, w1)"
    by (metis prod_cases4)
  from ioctl_effect [OF io] have c: "w_ctx w1 = w_ctx w" by simp
  show ?case
    using 1(2) io c 1(1) [OF _ _ io [symmetric] refl refl refl _ refl]
    by (subst (asm) read_pcd_small.simps) (auto simp: Let_def split: if_splits)
qed

lemma alloc_ctx:
  assumes "get_hw_dimm_platform_config_alloc ad large h pp w = Some (rc, p, w')"
  shows "w_ctx w' = w_ctx w"
  using assms
  by (auto simp: get_hw_dimm_platform_config_alloc_def get_pcd_table_size_def read_pcd_large_def
    bind_eq_Some_conv Let_def split: if_splits prod.splits dest!: ioctl_effect read_pcd_small_ctx)

text \<open>After a successful read the context holds the data.\<close>

lemma first_read:
  assumes "ad_os ad = os_fine" "permitted ad" "driver_ok ad" "wf_ctx (p_context (w_ctx w))"
    and "holds_devices (p_context (w_ctx w)) ds" "length ds < 256" "pcd_ok c"
    and "get_dimm_platform_config ad large h w = Some (NVM_SUCCESS, Config c, w')"
  shows "\<exists>d. find (\<lambda>d. h = device_handle d) ds = Some d \<and> read_pcd (dev_guid d) (w_ctx w') = Some c \<and>
    wf_ctx (p_context (w_ctx w')) \<and> holds_devices (p_context (w_ctx w')) ds"
proof -
  from lookup_handle_warm [OF assms(1-3) holds_devices_cached [OF assms(5)] assms(6), of h] assms(8)
  obtain w1 d where f: "find (\<lambda>d. h = device_handle d) ds = Some d"
    and w1: "lookup_dev_handle ad h w = Some (NVM_SUCCESS, Some d, w1)"
      "p_context (w_ctx w1) = p_context (w_ctx w)"
    by (auto simp: get_dimm_platform_config_def split: option.splits)
  have wf: "wf_ctx (p_context (w_ctx w1))" and hold: "holds_devices (p_context (w_ctx w1)) ds"
    using assms(4,5) w1(2) by simp_all
  from ctx_get_pcd [OF wf, of "dev_guid d"] obtain w2 r out where
    g: "on_ctx (get_nvm_context_device_pcd os_fine (dev_guid d)) w1 = Some (r, out, w2)"
    "map_option fst out = read_pcd (dev_guid d) (w_ctx w1)" "r = NVM_SUCCESS \<longleftrightarrow> out \<noteq> None"
    "p_context (w_ctx w2) = p_context (w_ctx w1)" by blast
  have wf2: "wf_ctx (p_context (w_ctx w2))" using wf g(4) by simp
  show ?thesis
  proof (cases out)
    case (Some o1)
    with assms(1,8) w1 g have "w' = w2" "fst o1 = c"
      by (auto simp: get_dimm_platform_config_def split: prod.splits)
    with f wf wf2 hold g Some show ?thesis by (simp add: read_pcd_eq device_at_def)
  next
    case None
    then have r: "r \<noteq> NVM_SUCCESS" using g(3) by simp
    have call: "\<exists>w3. get_hw_dimm_platform_config_alloc ad large h Null_config w2 =
        Some (NVM_SUCCESS, Config c, w3) \<and>
        w' = w3\<lparr>w_ctx := write_pcd (dev_guid d) c (w_ctx w3)\<rparr>"
    proof -
      from assms(1,8) w1 g(1) r None obtain rc p w3 where
        a: "get_hw_dimm_platform_config_alloc ad large h Null_config w2 = Some (rc, p, w3)"
        by (auto simp: get_dimm_platform_config_def bind_eq_Some_conv)
      have "wf_ctx (p_context (w_ctx w3))" using wf2 alloc_ctx [OF a] by simp
      then have set: "\<And>c. \<exists>r. on_ctx (set_nvm_context_device_pcd os_fine (dev_guid d) c) w3 =
          Some (r, (), w3\<lparr>w_ctx := write_pcd (dev_guid d) c (w_ctx w3)\<rparr>)" by (rule ctx_set_pcd)
      obtain r' where "on_ctx (set_nvm_context_device_pcd os_fine (dev_guid d) c) w3 =
          Some (r', (), w3\<lparr>w_ctx := write_pcd (dev_guid d) c (w_ctx w3)\<rparr>)" using set by blast
      with assms(1,8) w1 g(1) r None a show ?thesis
        by (cases p) (auto simp: get_dimm_platform_config_def bind_eq_Some_conv split: if_splits)
    qed
    then obtain w3 where a: "get_hw_dimm_platform_config_alloc ad large h Null_config w2 =
        Some (NVM_SUCCESS, Config c, w3)" and w': "w' = w3\<lparr>w_ctx := write_pcd (dev_guid d) c (w_ctx w3)\<rparr>"
      by blast
    have ctx: "p_context (w_ctx w3) = p_context (w_ctx w)" using alloc_ctx [OF a] g(4) w1(2) by simp
    have wf3: "wf_ctx (p_context (w_ctx w3))" and h3: "holds_devices (p_context (w_ctx w3)) ds"
      using assms(4,5) ctx by simp_all
    have d: "d \<in> set ds" using f by (auto simp: find_Some_iff)
    have gl: "length (dev_guid d) = GUID_LEN" using holds_guid [OF h3 d wf3] .
    from holds_present [OF h3 d wf3] wf3 gl assms(7)
    have "read_pcd (dev_guid d) (w_ctx w') = Some c" "wf_ctx (p_context (w_ctx w'))"
      by (simp_all add: w' pcd_cache.lookup_update_same pcd_cache.inv_update)
    with f holds_write_pcd [OF h3 wf3] w' show ?thesis by simp
  qed
qed

section \<open>A sample device\<close>

text \<open>The firmware of a device whose hardware state is its partition.\<close>

definition part_firmware :: "fw_cmd \<Rightarrow> bytes \<Rightarrow> int \<times> bytes \<times> bytes \<times> bytes" where
  "part_firmware cmd h =
     (let part = fit DEV_PLT_CFG_PART_SIZE h;
          off = (case rd32 (cmd_input_payload cmd) 2 of None \<Rightarrow> 0 | Some off \<Rightarrow> unat off)
      in if cmd_opcode cmd = PT_GET_ADMIN_FEATURES
         then (NVM_SUCCESS, take DEV_SMALL_PAYLOAD_SIZE (drop off part), part, h)
         else if cmd_opcode cmd \<noteq> PT_SET_ADMIN_FEATURES then (NVM_SUCCESS, [], [], h)
         else if cmd_large_input_payload cmd \<noteq> [] then (NVM_SUCCESS, [], [], cmd_large_input_payload cmd)
         else (case store part off (drop 64 (cmd_input_payload cmd)) of
                 None \<Rightarrow> (NVM_ERR_UNKNOWN, [], [], h)
               | Some h \<Rightarrow> (NVM_SUCCESS, [], [], h)))"

definition part_of :: "bytes \<Rightarrow> u32 \<Rightarrow> bytes" where
  "part_of h dimm = fit DEV_PLT_CFG_PART_SIZE h"

lemma pcd_cmd_offset:
  "cmd_input_payload (pcd_read_small_cmd dimm off) = [1, 1] @ le32 (of_nat off) @ replicate 122 0"
  "cmd_input_payload (pcd_set_cmd dimm pay off data big) = [1, pay] @ le32 (of_nat off) @ replicate 58 0 @ data"
  "cmd_opcode (pcd_read_small_cmd dimm off) = PT_GET_ADMIN_FEATURES"
  "cmd_opcode (pcd_read_large_cmd dimm) = PT_GET_ADMIN_FEATURES"
  "cmd_opcode (pcd_set_cmd dimm pay off data big) = PT_SET_ADMIN_FEATURES"
  "cmd_large_input_payload (pcd_set_cmd dimm pay off data big) = big"
  by (simp_all add: pcd_read_small_cmd_def pcd_read_large_cmd_def pcd_get_cmd_def pcd_set_cmd_def fw_cmd_for_def)

lemma rd32_payload: "rd32 (a # b # le32 v @ xs) 2 = Some v"
  using rd32_append [of 2 "[a, b]" v xs] by simp

lemma small_offset:
  "off \<le> DEV_PLT_CFG_PART_SIZE \<Longrightarrow> unat (of_nat off :: u32) = off"
  by (simp add: DEV_PLT_CFG_PART_SIZE_def unat_of_nat)

lemma part_firmware_keeps: "keeps_partition (adapter_with part_firmware) part_of"
  unfolding keeps_partition_def serves_partition_def
proof (intro conjI allI impI)
  fix h :: bytes and dimm :: u32
  show "length (part_of h dimm) = DEV_PLT_CFG_PART_SIZE" by (simp add: part_of_def)
  show "\<exists>large. passthrough (adapter_with part_firmware) (pcd_read_small_cmd dimm off) h =
      (NVM_SUCCESS, take DEV_SMALL_PAYLOAD_SIZE (drop off (part_of h dimm)), large, h)"
    if "off \<le> DEV_PLT_CFG_PART_SIZE - DEV_SMALL_PAYLOAD_SIZE" for off
  proof -
    have "off \<le> DEV_PLT_CFG_PART_SIZE" using that by simp
    then show ?thesis
      by (simp add: part_firmware_def part_of_def pcd_cmd_offset rd32_payload small_offset Let_def)
  qed
  show "\<exists>small. passthrough (adapter_with part_firmware) (pcd_read_large_cmd dimm) h =
      (NVM_SUCCESS, small, part_of h dimm, h)"
    by (simp add: part_firmware_def part_of_def pcd_cmd_offset Let_def)
  show "part_of (snd (snd (snd (passthrough (adapter_with part_firmware) cmd h)))) dimm = part_of h dimm"
    if "cmd_opcode cmd \<noteq> PT_SET_ADMIN_FEATURES" for cmd
    using that by (simp add: part_firmware_def Let_def)
  show "\<exists>small large h'. passthrough (adapter_with part_firmware)
      (pcd_set_cmd dimm DEV_PLT_CFG_LARGE_PAY 0 (replicate WRITE_SIZE 0) data) h =
      (NVM_SUCCESS, small, large, h') \<and> part_of h' dimm = data"
    if "length data = DEV_PLT_CFG_PART_SIZE" for data
  proof -
    have "data \<noteq> []" using that by (auto simp: DEV_PLT_CFG_PART_SIZE_def)
    then show ?thesis using that by (simp add: part_firmware_def part_of_def pcd_cmd_offset fit_exact)
  qed
  show "\<exists>small large h'. passthrough (adapter_with part_firmware)
      (pcd_set_cmd dimm DEV_PLT_CFG_SMALL_PAY off data []) h = (NVM_SUCCESS, small, large, h') \<and>
      store (part_of h dimm) off data = Some (part_of h' dimm)"
    if ol: "off \<le> DEV_PLT_CFG_PART_SIZE - WRITE_SIZE" and dl: "length data = WRITE_SIZE" for off data
  proof -
    have le: "off + 64 \<le> DEV_PLT_CFG_PART_SIZE"
      using ol by (simp add: DEV_PLT_CFG_PART_SIZE_def)
    then obtain h' where st: "store (part_of h dimm) off data = Some h'"
      using store_Some [of off data "part_of h dimm"] dl by (auto simp: part_of_def)
    then have "length h' = DEV_PLT_CFG_PART_SIZE" using length_store by (fastforce simp: part_of_def)
    then show ?thesis
      using st le dl
      by (simp add: part_firmware_def part_of_def pcd_cmd_offset rd32_payload small_offset fit_exact)
  qed
qed

definition part_world :: "bytes \<Rightarrow> (bytes, nat) world" where
  "part_world h =
     \<lparr>w_ctx = \<lparr>p_context = Some (fresh_context\<lparr>p_devices := Some [device_entry (sample_device 1)],
        device_count := 1\<rparr>), lock_held = False\<rparr>, w_hw = h, w_sent = [], w_events = []\<rparr>"

lemma part_world_holds:
  "holds_devices (p_context (w_ctx (part_world h))) [sample_device 1]"
  "wf_ctx (p_context (w_ctx (part_world h)))" "w_hw (part_world h) = h" "w_sent (part_world h) = []"
  by (simp_all add: holds_devices_def part_world_def device_entry_def wf_ctx_def wf_list_def wf_device_def
    fresh_context_def sample_device_def)

lemma part_driver_ok: "driver_ok (adapter_with part_firmware)"
  by (rule adapter_with_driver_ok) (simp add: part_firmware_def Let_def split: option.splits)

text \<open>Data of the header alone, as on a device never configured.\<close>

definition header_only :: bytes where
  "header_only = pcd_header @ replicate 24 0"

lemma length_pcd_header [simp]: "length pcd_header = HEADER_LEN"
  by (simp add: pcd_header_def encode_header_def intel_header_def ascii_def)

lemma header_only_fields:
  "table_length header_only = Some 60" "rd32 header_only 36 = Some 0" "rd32 header_only 44 = Some 0"
  "rd32 header_only 52 = Some 0" "length header_only = 60"
proof -
  have z: "rd32 (replicate 24 0) k = Some 0" if "k + 4 \<le> 24" for k
    using that by (auto simp: rd32_def load_def le_nat_zeros)
  have t: "rd32 header_only (36 + k) = rd32 (replicate 24 0) k" for k
    by (simp add: header_only_def rd_as_bytes rd_bytes_skip)
  show "rd32 header_only 36 = Some 0" "rd32 header_only 44 = Some 0" "rd32 header_only 52 = Some 0"
    using t [of 0] t [of 8] t [of 16] z [of 0] z [of 8] z [of 16] by simp_all
  show "length header_only = 60" by (simp add: header_only_def)
  show "table_length header_only = Some 60"
    using rd32_append [of 4 "PLATFORM_CONFIG_TABLE_SIGNATURE" 60]
    by (simp add: table_length_def header_only_def pcd_header_def encode_header_def intel_header_def)
qed

lemma header_only_accepted:
  "\<exists>c. checked_config header_only = Some (NVM_SUCCESS, Config c) \<and> length c = 60"
proof -
  obtain v where g: "generate_checksum header_only 60 CHECKSUM_OFFSET = Some (header_only[9 := v])"
    by (auto simp: generate_checksum_def Let_def header_only_fields)
  let ?c = "header_only[9 := v]"
  have same: "rd32 ?c off = rd32 header_only off" if "10 \<le> off" for off
    using that by (simp add: rd_as_bytes rd_bytes_update_other header_only_fields)
  have sig: "take 4 ?c = PLATFORM_CONFIG_TABLE_SIGNATURE"
    by (simp add: header_only_def pcd_header_def encode_header_def intel_header_def)
  then have "check_signature PLATFORM_CONFIG_TABLE_SIGNATURE ?c = Some NVM_SUCCESS"
    by (simp add: check_signature_def rd_bytes_def header_only_fields)
  moreover have "verify_checksum ?c 60 = Some NVM_SUCCESS"
    using verify_generated [OF g] by simp
  moreover have "print_pcd_header header_only = Some ()"
    by (simp add: print_pcd_header_def rd_bytes_def header_only_fields)
  ultimately have "check_platform_config_header header_only = Some (?c, NVM_SUCCESS)"
    using g by (simp add: check_platform_config_header_def header_only_fields)
  moreover have "check_current_config ?c = Some NVM_SUCCESS" "check_config_input ?c = Some NVM_SUCCESS"
    "check_config_output ?c = Some NVM_SUCCESS"
    using same [of 36] same [of 44] same [of 52]
    by (simp_all add: check_current_config_def check_config_input_def check_config_output_def header_only_fields)
  ultimately show ?thesis
    by (simp add: checked_config_def check_platform_config_def header_only_fields)
qed

lemma header_only_stored:
  "stored_pcd (fit DEV_PLT_CFG_PART_SIZE header_only) pp = checked_config header_only"
proof -
  have t: "take 60 (fit DEV_PLT_CFG_PART_SIZE header_only) = header_only"
    by (simp add: fit_def header_only_fields DEV_PLT_CFG_PART_SIZE_def)
  have "pcd_size_of (fit DEV_PLT_CFG_PART_SIZE header_only) = Some 60"
    using pcd_size_of_take [of 60 "fit DEV_PLT_CFG_PART_SIZE header_only"]
    by (simp add: t pcd_size_of_def header_only_fields)
  moreover have "60 \<le> DEV_PLT_CFG_PART_SIZE" by (simp add: DEV_PLT_CFG_PART_SIZE_def)
  ultimately show ?thesis by (simp add: stored_pcd_def t)
qed

lemma part_world_first_read:
  "\<exists>c w'. get_dimm_platform_config (adapter_with part_firmware) large 1 (part_world header_only) =
     Some (NVM_SUCCESS, Config c, w') \<and> length c = 60"
proof -
  let ?ad = "adapter_with part_firmware" and ?w = "part_world header_only" and ?g = "replicate GUID_LEN 1"
  have f: "find (\<lambda>d. (1::u32) = device_handle d) [sample_device 1] = Some (sample_device 1)"
    by (simp add: sample_device_def)
  from lookup_handle_warm [OF _ _ part_driver_ok holds_devices_cached [OF part_world_holds(1)], of 1 header_only] f
  obtain w1 where w1: "lookup_dev_handle ?ad 1 ?w = Some (NVM_SUCCESS, Some (sample_device 1), w1)"
    "w_hw w1 = w_hw ?w" "p_context (w_ctx w1) = p_context (w_ctx ?w)" by auto
  have wf: "wf_ctx (p_context (w_ctx w1))" using part_world_holds(2) [of header_only] w1(3) by simp
  have "read_pcd (dev_guid (sample_device 1)) (w_ctx w1) = None"
    using w1(3) by (simp add: read_pcd_eq [OF wf] device_at_def part_world_def find_device_def device_entry_def)
  with ctx_get_pcd [OF wf, of "dev_guid (sample_device 1)"] obtain w2 r where
    g: "on_ctx (get_nvm_context_device_pcd os_fine (dev_guid (sample_device 1))) w1 = Some (r, None, w2)"
    "r \<noteq> NVM_SUCCESS" "w_hw w2 = w_hw w1" "p_context (w_ctx w2) = p_context (w_ctx w1)" by auto
  obtain c where c: "checked_config header_only = Some (NVM_SUCCESS, Config c)" "length c = 60"
    using header_only_accepted by blast
  have "part_of (w_hw w2) 1 = fit DEV_PLT_CFG_PART_SIZE header_only"
    using g(3) w1(2) part_world_holds(3) by (simp add: part_of_def)
  then have st: "stored_pcd (part_of (w_hw w2) 1) Null_config = Some (NVM_SUCCESS, Config c)"
    by (simp add: header_only_stored c(1))
  have sv: "serves_partition ?ad part_of" using part_firmware_keeps by (simp add: keeps_partition_def)
  from read_partition [OF sv, where w = w2 and dimm = 1 and pp = Null_config and large = large] st
  obtain w3 where a: "get_hw_dimm_platform_config_alloc ?ad large 1 Null_config w2 =
      Some (NVM_SUCCESS, Config c, w3)" by auto
  have "wf_ctx (p_context (w_ctx w3))" using wf g(4) alloc_ctx [OF a] by simp
  from ctx_set_pcd [OF this, of "dev_guid (sample_device 1)" c] obtain r' w4 where
    "on_ctx (set_nvm_context_device_pcd os_fine (dev_guid (sample_device 1)) c) w3 = Some (r', (), w4)" by blast
  with w1 g a c(2) show ?thesis by (simp add: get_dimm_platform_config_def)
qed

section \<open>Properties\<close>





text \<open>C14. The data of a device is read once: after a successful read, the next read returns the same
  data from the context without a command.\<close>

theorem pcd_read_once:
  assumes "ad_os ad = os_fine" "permitted ad" "driver_ok ad" "wf_ctx (p_context (w_ctx w))"
    and "holds_devices (p_context (w_ctx w)) ds" "length ds < 256" "pcd_ok c"
    and "get_dimm_platform_config ad large h w = Some (NVM_SUCCESS, Config c, w')"
  shows "\<exists>w''. get_dimm_platform_config ad large' h w' = Some (NVM_SUCCESS, Config c, w'') \<and>
    w_sent w'' = w_sent w'"
proof -
  from first_read [OF assms] obtain d where
    "find (\<lambda>d. h = device_handle d) ds = Some d" "read_pcd (dev_guid d) (w_ctx w') = Some c"
    "wf_ctx (p_context (w_ctx w'))" "holds_devices (p_context (w_ctx w')) ds" by blast
  with warm_pcd [OF assms(1-3) _ _ assms(6)] show ?thesis by blast
qed

theorem pcd_read_once_witness:
  "\<exists>c w' w''. get_dimm_platform_config (adapter_with part_firmware) False 1 (part_world header_only) =
     Some (NVM_SUCCESS, Config c, w') \<and>
   get_dimm_platform_config (adapter_with part_firmware) True 1 w' = Some (NVM_SUCCESS, Config c, w'') \<and>
   w_sent w'' = w_sent w'"
proof -
  obtain c w' where r: "get_dimm_platform_config (adapter_with part_firmware) False 1 (part_world header_only) =
     Some (NVM_SUCCESS, Config c, w')" "length c = 60" using part_world_first_read by blast
  then have "pcd_ok c" by (simp add: pcd_ok_def)
  from pcd_read_once [OF _ _ part_driver_ok part_world_holds(2,1) _ this r(1)] r(1) show ?thesis by auto
qed

text \<open>A failed read is freed twice: when the size of the data can be read but the data cannot,
  the read frees its buffer and leaves the pointer, and the interleave lookup frees it again, so it
  has no defined result.\<close>

theorem failed_read_freed_twice:
  fixes w :: "('hw, 'det) world"
  assumes "ad_os ad = os_fine" "permitted ad" "driver_ok ad"
    and "wf_ctx (p_context (w_ctx w))" "holds_devices (p_context (w_ctx w)) ds" "length ds < 256"
    and "find (\<lambda>d. h = device_handle d) ds = Some d" "read_pcd (dev_guid d) (w_ctx w) = None"
    and "passthrough ad (pcd_read_small_cmd h 0) (w_hw w) = (NVM_SUCCESS, out, big, hw1)"
    and "pcd_size_of (fit DEV_SMALL_PAYLOAD_SIZE out) = Some n"
    and "PCD_LEN \<le> unat n" "unat n \<le> DEV_PLT_CFG_PART_SIZE"
    and "fst (passthrough ad (pcd_read_large_cmd h) hw1) \<noteq> NVM_SUCCESS"
  shows "get_interleave_settings_from_platform_config_data ad True h iset_offset fmt w = None"
proof -
  from lookup_handle_warm [OF assms(1-3) holds_devices_cached [OF assms(5)] assms(6), of h] assms(7)
  obtain w1 where w1: "lookup_dev_handle ad h w = Some (NVM_SUCCESS, Some d, w1)"
    "w_hw w1 = w_hw w" "p_context (w_ctx w1) = p_context (w_ctx w)" by auto
  have wf: "wf_ctx (p_context (w_ctx w1))" using assms(4) w1(3) by simp
  have "read_pcd (dev_guid d) (w_ctx w1) = None"
    using assms(4,8) wf w1(3) by (simp add: read_pcd_eq device_at_def)
  with ctx_get_pcd [OF wf, of "dev_guid d"] obtain w2 r where
    g: "on_ctx (get_nvm_context_device_pcd os_fine (dev_guid d)) w1 = Some (r, None, w2)"
    "r \<noteq> NVM_SUCCESS" "w_hw w2 = w_hw w1" by auto
  let ?w3 = "w2\<lparr>w_hw := hw1, w_sent := w_sent w2 @ [pcd_read_small_cmd h 0]\<rparr>"
  have sz: "get_pcd_table_size ad h w2 = Some (NVM_SUCCESS, unat n, ?w3)"
    using assms(9,10) g(3) w1(2) by (simp add: get_pcd_table_size_def ioctl_passthrough_cmd_def)
  obtain rc small data hw2 where fail: "passthrough ad (pcd_read_large_cmd h) hw1 = (rc, small, data, hw2)"
    "rc \<noteq> NVM_SUCCESS" using assms(13) by (metis fst_conv prod_cases4)
  have "\<exists>w4. get_hw_dimm_platform_config_alloc ad True h Null_config w2 = Some (rc, Freed_config, w4)"
    using sz fail assms(1,11,12)
    by (auto simp: get_hw_dimm_platform_config_alloc_def read_pcd_large_def ioctl_passthrough_cmd_def
      calloc_fine)
  with w1(1) g assms(1) fail(2)
  have "\<exists>w4. get_dimm_platform_config ad True h w = Some (rc, Freed_config, w4)"
    by (auto simp: get_dimm_platform_config_def)
  with fail(2) show ?thesis
    by (auto simp: get_interleave_settings_from_platform_config_data_def free_config_def)
qed

text \<open>The firmware of the witness answers small reads only.\<close>

theorem failed_read_freed_twice_witness:
  "get_interleave_settings_from_platform_config_data
     (adapter_with (\<lambda>cmd h. if cmd = pcd_read_large_cmd 1 then (NVM_ERR_DEVICEERROR, [], [], h)
        else part_firmware cmd h)) True 1 0 zero_format (part_world header_only) = None"
proof -
  let ?pt = "\<lambda>cmd h. if cmd = pcd_read_large_cmd 1 then (NVM_ERR_DEVICEERROR, [], [], h)
    else part_firmware cmd h"
  have ok: "driver_ok (adapter_with ?pt)"
    by (rule adapter_with_driver_ok) (simp add: part_firmware_def Let_def split: option.splits)
  have differ: "pcd_read_small_cmd 1 0 \<noteq> pcd_read_large_cmd 1"
    by (auto simp: pcd_read_small_cmd_def pcd_read_large_cmd_def pcd_get_cmd_def fw_cmd_for_def)
  have sz: "pcd_size_of (fit 128 (take 128 (part_of header_only 1))) = Some 60"
  proof -
    have "take 60 (fit 128 (take 128 (part_of header_only 1))) = header_only"
      by (simp add: part_of_def fit_def header_only_fields DEV_PLT_CFG_PART_SIZE_def)
    then show ?thesis
      using pcd_size_of_take [of 60 "fit 128 (take 128 (part_of header_only 1))"]
      by (simp add: pcd_size_of_def header_only_fields)
  qed
  have none: "read_pcd (dev_guid (sample_device 1)) (w_ctx (part_world header_only)) = None"
    unfolding read_pcd_eq [OF part_world_holds(2)]
    by (simp add: device_at_def part_world_def find_device_def device_entry_def)
  show ?thesis
    by (rule failed_read_freed_twice [OF _ _ ok part_world_holds(2,1) _ _ none _ sz])
      (use differ in \<open>auto simp: part_world_holds(3) sample_device_def part_firmware_def part_of_def
        pcd_cmd_offset rd32_payload Let_def DEV_PLT_CFG_PART_SIZE_def\<close>)
qed

end
