(* ===== verification/Reads.thy ===== *)
theory Reads
  imports PcdIo
begin

text \<open>
  Operations that read a device's configuration beside looking it up. They send the commands of a
  lookup and those that get features, administrative features and logs, and change nothing but the
  context.
\<close>

inductive read_steps :: "'hw adapter \<Rightarrow> ('hw, 'det) world \<Rightarrow> ('hw, 'det) world \<Rightarrow> bool"
  for ad :: "'hw adapter" where
  read_none [simp, intro]: "read_steps ad w w"
| read_ctx: "read_steps ad w w' \<Longrightarrow> read_steps ad w (w'\<lparr>w_ctx := s\<rparr>)"
| read_cmd: "read_steps ad w w' \<Longrightarrow>
    cmd_opcode cmd \<in> {PT_IDENTIFY_DIMM, PT_GET_SEC_INFO, PT_GET_ADMIN_FEATURES, PT_GET_FEATURES, PT_GET_LOG} \<Longrightarrow>
    ioctl_passthrough_cmd ad cmd w' = (rc, small, large, w'') \<Longrightarrow> read_steps ad w w''"

named_theorems reads \<open>which operations only read\<close>

lemma read_steps_trans [trans]:
  assumes "read_steps ad w1 w2" "read_steps ad w2 w3"
  shows "read_steps ad w1 w3"
  using assms(2,1) by (induction rule: read_steps.induct) (auto intro: read_steps.intros)

lemma lookup_is_read: "lookup_steps ad w w' \<Longrightarrow> read_steps ad w w'"
  by (induction rule: lookup_steps.induct) (auto intro: read_steps.intros)

lemma get_admin_reads:
  "ioctl_passthrough_cmd ad cmd w = (rc, s, l, w') \<Longrightarrow> cmd_opcode cmd = PT_GET_ADMIN_FEATURES \<Longrightarrow>
   read_steps ad w w'"
  by (rule read_cmd [OF read_none]) auto

lemmas lookup_reads [reads] =
  on_ctx_steps [THEN lookup_is_read] supported_steps [THEN lookup_is_read]
  count_steps [THEN lookup_is_read] devices_steps [THEN lookup_is_read]
  get_devices_steps [THEN lookup_is_read] lookup_steps [THEN lookup_is_read]
  lookup_handle_steps [THEN lookup_is_read] exists_steps [THEN lookup_is_read]
  feature_steps [THEN lookup_is_read] capabilities_steps [THEN lookup_is_read]

section \<open>The configuration data\<close>

lemma table_size_reads: "get_pcd_table_size ad h w = Some (rc, n, w') \<Longrightarrow> read_steps ad w w'"
  by (auto simp: get_pcd_table_size_def bind_eq_Some_conv pcd_cmd_offset split: prod.splits if_splits
      dest!: get_admin_reads)

lemma small_reads: "read_pcd_small ad h n off buf w = (rc, buf', w') \<Longrightarrow> read_steps ad w w'"
proof (induction "n - off" arbitrary: off buf w rule: less_induct)
  case less
  obtain r out l w1 where io: "ioctl_passthrough_cmd ad (pcd_read_small_cmd h off) w = (r, out, l, w1)"
    by (metis prod_cases4)
  then have r1: "read_steps ad w w1" by (rule get_admin_reads) (simp add: pcd_cmd_offset)
  show ?case
  proof (cases "off < n \<and> off \<le> DEV_PLT_CFG_PART_SIZE - DEV_SMALL_PAYLOAD_SIZE \<and> r = NVM_SUCCESS")
    case True
    with less.prems io obtain buf1 where
      "read_pcd_small ad h n (off + DEV_SMALL_PAYLOAD_SIZE) buf1 w1 = (rc, buf', w')"
      by (subst (asm) read_pcd_small.simps) (auto simp: Let_def)
    moreover have "n - (off + DEV_SMALL_PAYLOAD_SIZE) < n - off" using True by (intro diff_less_mono2) auto
    ultimately have "read_steps ad w1 w'" using less.hyps by blast
    with r1 show ?thesis by (rule read_steps_trans)
  next
    case False
    with less.prems io r1 show ?thesis
      by (subst (asm) read_pcd_small.simps) (auto simp: Let_def split: if_splits)
  qed
qed

lemma large_reads: "read_pcd_large ad h n buf w = (rc, buf', w') \<Longrightarrow> read_steps ad w w'"
  by (auto simp: read_pcd_large_def pcd_cmd_offset split: prod.splits if_splits dest!: get_admin_reads)

lemma alloc_reads:
  assumes "get_hw_dimm_platform_config_alloc ad large h pp w = Some (rc, p, w')"
  shows "read_steps ad w w'"
proof -
  from assms obtain r n w1 where s: "get_pcd_table_size ad h w = Some (r, n, w1)"
    unfolding get_hw_dimm_platform_config_alloc_def by (auto simp: bind_eq_Some_conv)
  obtain r2 buf w2 where rd: "(if large then read_pcd_large ad h n (replicate n 0) w1
      else read_pcd_small ad h n 0 (replicate n 0) w1) = (r2, buf, w2)" by (metis prod_cases3)
  have "read_steps ad w w1" using s by (rule table_size_reads)
  moreover have "read_steps ad w1 w2"
    using rd by (auto split: if_splits dest: large_reads small_reads)
  moreover have "w' = w1 \<or> w' = w2"
    using assms s rd unfolding get_hw_dimm_platform_config_alloc_def
    by (auto simp: bind_eq_Some_conv split: if_splits)
  ultimately show ?thesis by (auto intro: read_steps_trans)
qed

lemma pcd_reads [reads]:
  assumes "get_dimm_platform_config ad large h w = Some (rc, p, w')"
  shows "read_steps ad w w'"
proof -
  from assms obtain r d w1 where l: "lookup_dev_handle ad h w = Some (r, d, w1)"
    unfolding get_dimm_platform_config_def by (auto simp: bind_eq_Some_conv)
  have s1: "read_steps ad w w1" using l by (rule lookup_reads)
  show ?thesis
  proof (cases "r = NVM_SUCCESS")
    case False
    with assms l s1 show ?thesis
      unfolding get_dimm_platform_config_def by (auto simp: Let_def)
  next
    case True
    with assms l obtain dev r2 out w2 where
      d: "d = Some dev" and c: "on_ctx (get_nvm_context_device_pcd (ad_os ad) (dev_guid dev)) w1 = Some (r2, out, w2)"
      unfolding get_dimm_platform_config_def by (auto simp: bind_eq_Some_conv)
    have s2: "read_steps ad w w2" using s1 lookup_reads(1) [OF c] by (rule read_steps_trans)
    show ?thesis
    proof (cases "r2 = NVM_SUCCESS")
      case True
      with \<open>r = NVM_SUCCESS\<close> assms l d c s2 show ?thesis
        unfolding get_dimm_platform_config_def by (auto simp: Let_def)
    next
      case False
      let ?pp = "case out of None \<Rightarrow> Null_config | Some (pcd, _) \<Rightarrow> Config pcd"
      from False \<open>r = NVM_SUCCESS\<close> assms l d c obtain r3 p3 w3 where
        a: "get_hw_dimm_platform_config_alloc ad large h ?pp w2 = Some (r3, p3, w3)"
        unfolding get_dimm_platform_config_def by (auto simp: bind_eq_Some_conv Let_def)
      have "read_steps ad w3 w'"
        using False \<open>r = NVM_SUCCESS\<close> assms l d c a unfolding get_dimm_platform_config_def
        by (cases p3) (auto simp: bind_eq_Some_conv Let_def split: if_splits dest: lookup_reads(1))
      with s2 alloc_reads [OF a] show ?thesis by (blast intro: read_steps_trans)
    qed
  qed
qed

section \<open>Reads that leave the device as it is\<close>

text \<open>What the code relies on: a command that gets something does not change the device.\<close>

definition reads_keep :: "'hw adapter \<Rightarrow> bool" where
  "reads_keep ad \<longleftrightarrow> (\<forall>cmd h.
     cmd_opcode cmd \<in> {PT_IDENTIFY_DIMM, PT_GET_SEC_INFO, PT_GET_ADMIN_FEATURES, PT_GET_FEATURES, PT_GET_LOG} \<longrightarrow>
     snd (snd (snd (passthrough ad cmd h))) = h)"

lemma read_steps_hw:
  assumes "read_steps ad w w'" "reads_keep ad"
  shows "w_hw w' = w_hw w"
  using assms
proof (induction rule: read_steps.induct)
  case (read_cmd w w' cmd rc small large w'')
  then have "snd (snd (snd (passthrough ad cmd (w_hw w')))) = w_hw w'"
    unfolding reads_keep_def by blast
  with read_cmd show ?case
    by (auto simp: ioctl_passthrough_cmd_def split: prod.splits)
qed simp_all

lemma read_steps_events: "read_steps ad w w' \<Longrightarrow> w_events w' = w_events w"
  by (induction rule: read_steps.induct) (auto simp: ioctl_passthrough_cmd_def split: prod.splits)

lemma part_firmware_reads_keep: "reads_keep (adapter_with part_firmware)"
  unfolding reads_keep_def by (auto simp: part_firmware_def Let_def)

end
