(* ===== verification/Capacity.thy ===== *)
theory Capacity
  imports Reads
begin

text \<open>
  What a device's capacity is used for (\<^verbatim>\<open>src/lib/device_utilities.c\<close>), which namespaces lie on
  it, and the license checks built on both (\<^verbatim>\<open>src/lib/capabilities.c\<close>,
  \<^verbatim>\<open>get_interleaveset_by_driver_id\<close> of \<^verbatim>\<open>src/lib/pool_utilities.c\<close>).
\<close>

abbreviation (input) NVM_ERR_SKUVIOLATION :: int where "NVM_ERR_SKUVIOLATION \<equiv> - 45"

section \<open>Arrays filled by the driver\<close>

text \<open>An array of \<open>n\<close> entries \<open>z\<close> after the driver has filled in \<open>xs\<close>.\<close>

definition filled :: "nat \<Rightarrow> 'a \<Rightarrow> 'a list \<Rightarrow> 'a list" where
  "filled n z xs = take n (xs @ replicate n z)"

section \<open>Interleave sets and namespaces of a device\<close>

definition get_interleaveset_by_driver_id ::
  "'hw adapter \<Rightarrow> 'hw \<Rightarrow> u32 \<Rightarrow> (int \<times> nvm_interleave_set option) option" where
  "get_interleaveset_by_driver_id ad h drv_id =
     (let count = ad_interleave_set_count (ns_driver ad) h in
      if count \<ge> 0 then
        let (n, sets) = ad_interleave_sets (ns_driver ad) h (of_int count) in
        if n > 0 then do {
          r \<leftarrow> search (\<lambda>s. nis_driver_id s = drv_id) (take (nat count) sets) (nat n) 0;
          Some (case r of None \<Rightarrow> (NVM_ERR_DRIVERFAILED, None) | Some i \<Rightarrow> (NVM_SUCCESS, Some (sets ! i)))
        }
        else Some (NVM_ERR_DRIVERFAILED, None)
      else Some (NVM_ERR_DRIVERFAILED, None))"

text \<open>Whether a namespace is of the type and on the device, with the code of the interleave lookup.\<close>

definition namespace_on_dimm ::
  "'hw adapter \<Rightarrow> 'hw \<Rightarrow> u32 \<Rightarrow> namespace_type \<Rightarrow> nvm_namespace_details \<Rightarrow> (int \<times> bool) option" where
  "namespace_on_dimm ad h dimm ty nd =
     (if \<not> (ty = NAMESPACE_TYPE_UNKNOWN \<or> nnd_type nd = ty) then Some (NVM_SUCCESS, False)
      else if nnd_type nd = NAMESPACE_TYPE_STORAGE then Some (NVM_SUCCESS, nnd_creation_id nd = dimm)
      else if nnd_type nd = NAMESPACE_TYPE_APP_DIRECT then do {
        (rc, iset) \<leftarrow> get_interleaveset_by_driver_id ad h (nnd_creation_id nd);
        Some (rc, case iset of None \<Rightarrow> False | Some s \<Rightarrow> dimm \<in> set (nis_dimms s))
      }
      else Some (NVM_SUCCESS, False))"

fun count_namespaces ::
  "'hw adapter \<Rightarrow> 'hw \<Rightarrow> u32 \<Rightarrow> namespace_type \<Rightarrow> namespace_discovery list \<Rightarrow> nat \<Rightarrow> int \<Rightarrow> (int \<times> int) option" where
  "count_namespaces ad h dimm ty nss 0 matched = Some (NVM_SUCCESS, matched)"
| "count_namespaces ad h dimm ty [] (Suc n) matched = None"
| "count_namespaces ad h dimm ty (ns # nss) (Suc n) matched =
     (let (rc, nd) = ad_namespace_details (ns_driver ad) h (namespace_guid ns) in
      if rc \<noteq> NVM_SUCCESS then Some (rc, matched)
      else do {
        (rc, on) \<leftarrow> namespace_on_dimm ad h dimm ty nd;
        let matched = (if on then matched + 1 else matched);
        if rc \<noteq> NVM_SUCCESS then Some (rc, matched)
        else count_namespaces ad h dimm ty nss n matched
      })"

definition dimm_has_namespaces_of_type ::
  "'hw adapter \<Rightarrow> 'hw \<Rightarrow> u32 \<Rightarrow> namespace_type \<Rightarrow> int option" where
  "dimm_has_namespaces_of_type ad h dimm ty =
     (let rc = ad_namespace_count (ns_driver ad) h in
      if rc > 0 then
        let (n, nss) = ad_namespaces (ns_driver ad) h (of_int rc) in
        if n > 0 then do {
          (rc, matched) \<leftarrow> count_namespaces ad h dimm ty (take (nat rc) nss) (nat n) 0;
          Some (if rc = NVM_SUCCESS then matched else rc)
        }
        else Some (if n = NVM_SUCCESS then 0 else n)
      else Some (if rc = NVM_SUCCESS then 0 else rc))"

section \<open>Partition sizes and capacities\<close>

record partition_info =
  volatile_capacity :: u32
  pmem_capacity :: u32
  start_pmem :: u64
  raw_capacity :: u32

abbreviation (input) SUBOP_DIMM_PARTITION_INFO :: u8 where "SUBOP_DIMM_PARTITION_INFO \<equiv> 2"

definition get_partition_info ::
  "'hw adapter \<Rightarrow> u32 \<Rightarrow> ('hw, 'det) world \<Rightarrow> (int \<times> partition_info \<times> ('hw, 'det) world) option" where
  "get_partition_info ad handle w =
     (let (rc, out, _, w) = ioctl_passthrough_cmd ad
            ((fw_cmd_for handle PT_GET_ADMIN_FEATURES SUBOP_DIMM_PARTITION_INFO)
               \<lparr>cmd_output_payload_size := 128\<rparr>) w
      in do {
        v \<leftarrow> rd32 out 0;
        p \<leftarrow> rd32 out 16;
        sp \<leftarrow> rd64 out 24;
        raw \<leftarrow> rd32 out 32;
        Some (rc, \<lparr>volatile_capacity = v, pmem_capacity = p, start_pmem = sp, raw_capacity = raw\<rparr>, w)
      })"

definition MULTIPLES_TO_BYTES :: "u32 \<Rightarrow> u64" where
  "MULTIPLES_TO_BYTES v = 4096 * ucast v"

definition RESERVED_CAPACITY_BYTES :: "u64 \<Rightarrow> u64" where
  "RESERVED_CAPACITY_BYTES cap = cap mod BYTES_PER_GB"

record device_capacities =
  dc_capacity :: u64
  dc_memory_capacity :: u64
  dc_app_direct_capacity :: u64
  dc_storage_capacity :: u64
  dc_unconfigured_capacity :: u64
  dc_inaccessible_capacity :: u64
  dc_reserved_capacity :: u64

definition zero_capacities :: device_capacities where
  "zero_capacities =
     \<lparr>dc_capacity = 0, dc_memory_capacity = 0, dc_app_direct_capacity = 0, dc_storage_capacity = 0,
      dc_unconfigured_capacity = 0, dc_inaccessible_capacity = 0, dc_reserved_capacity = 0\<rparr>"

definition no_storage :: nvm_storage_capacities where
  "no_storage =
     \<lparr>sc_device_handle = 0, sc_total_storage_capacity = 0, sc_free_storage_capacity = 0,
      sc_storage_only_capacity = 0\<rparr>"

text \<open>The storage capacities of all devices: the code and the array.\<close>

definition get_dimm_storage_capacities ::
  "'hw adapter \<Rightarrow> 'hw \<Rightarrow> nat \<Rightarrow> int \<times> nvm_storage_capacities list" where
  "get_dimm_storage_capacities ad h n =
     (let (rc, xs) = ad_storage_capacities (ns_driver ad) h (of_nat n) in (rc, filled n no_storage xs))"

definition get_dimm_storage_capacity ::
  "'hw adapter \<Rightarrow> 'hw \<Rightarrow> u32 \<Rightarrow> u64 \<Rightarrow> (int \<times> u64) option" where
  "get_dimm_storage_capacity ad h handle old =
     (let rc = topology_count ad h in
      if rc > 0 then
        let (n, caps) = get_dimm_storage_capacities ad h (nat rc) in
        if n > 0 then do {
          r \<leftarrow> search (\<lambda>c. handle = sc_device_handle c) caps (nat n) 0;
          Some (case r of None \<Rightarrow> (NVM_ERR_BADDEVICE, 0)
                | Some i \<Rightarrow> (NVM_SUCCESS, sc_total_storage_capacity (caps ! i)))
        }
        else Some (n, old)
      else Some (rc, old))"

definition sku_adjusted :: "nvm_features \<Rightarrow> device_capabilities \<Rightarrow> device_capacities \<Rightarrow> device_capacities" where
  "sku_adjusted f dev c =
     (let pm_capacity = dc_app_direct_capacity c + dc_unconfigured_capacity c in
      if (\<not> memory_mode f \<and> \<not> app_direct_mode f \<and> \<not> storage_mode f) \<or>
         (\<not> memory_mode_capable dev \<and> \<not> app_direct_mode_capable dev \<and> \<not> storage_mode_capable dev)
      then c\<lparr>dc_inaccessible_capacity := dc_inaccessible_capacity c + dc_capacity c,
             dc_memory_capacity := 0, dc_app_direct_capacity := 0, dc_storage_capacity := 0,
             dc_unconfigured_capacity := 0\<rparr>
      else if dc_memory_capacity c > 0 \<and> (\<not> memory_mode f \<or> \<not> memory_mode_capable dev)
      then c\<lparr>dc_inaccessible_capacity := dc_inaccessible_capacity c + dc_memory_capacity c,
             dc_memory_capacity := 0\<rparr>
      else if pm_capacity > 0 then
        if (\<not> app_direct_mode f \<and> \<not> storage_mode f) \<or>
           (\<not> app_direct_mode_capable dev \<and> \<not> storage_mode_capable dev)
        then c\<lparr>dc_inaccessible_capacity := dc_inaccessible_capacity c + pm_capacity,
               dc_app_direct_capacity := 0, dc_storage_capacity := 0, dc_unconfigured_capacity := 0\<rparr>
        else if dc_app_direct_capacity c > 0 \<and> (\<not> app_direct_mode f \<or> \<not> app_direct_mode_capable dev)
        then c\<lparr>dc_inaccessible_capacity := dc_inaccessible_capacity c + dc_app_direct_capacity c,
               dc_app_direct_capacity := 0\<rparr>
        else if dc_storage_capacity c > 0 \<and> (\<not> storage_mode f \<or> \<not> storage_mode_capable dev)
        then c\<lparr>dc_storage_capacity := 0\<rparr>
        else c
      else c)"

definition update_capacities_based_on_sku ::
  "'hw adapter \<Rightarrow> u32 \<Rightarrow> nvm_capabilities \<Rightarrow> device_capacities \<Rightarrow> ('hw, 'det) world \<Rightarrow>
   (int \<times> device_capacities \<times> ('hw, 'det) world) option" where
  "update_capacities_based_on_sku ad handle caps c w = do {
     (rc, d, w) \<leftarrow> lookup_dev_handle ad handle w;
     if rc = NVM_SUCCESS then do {
       d \<leftarrow> d;
       Some (rc, sku_adjusted (nvm_features caps) (convert_sku_to_device_capabilities (dimm_sku d)) c, w)
     } else Some (rc, c, w)
   }"

text \<open>The capacities of the partitions, then those the BIOS has mapped.\<close>

definition partition_capacities :: "partition_info \<Rightarrow> device_capacities" where
  "partition_capacities p =
     zero_capacities\<lparr>dc_capacity := MULTIPLES_TO_BYTES (raw_capacity p),
       dc_reserved_capacity := RESERVED_CAPACITY_BYTES (MULTIPLES_TO_BYTES (raw_capacity p)),
       dc_memory_capacity := MULTIPLES_TO_BYTES (volatile_capacity p),
       dc_app_direct_capacity := MULTIPLES_TO_BYTES (pmem_capacity p)\<rparr>"

definition mapped_capacities ::
  "'hw adapter \<Rightarrow> 'hw \<Rightarrow> u32 \<Rightarrow> bytes \<Rightarrow> device_capacities \<Rightarrow> device_capacities option" where
  "mapped_capacities ad h handle cfg c = do {
     cur \<leftarrow> cast_current_config cfg;
     case cur of
       None \<Rightarrow> Some c
     | Some t \<Rightarrow> do {
         mem \<leftarrow> rd64 t 40;
         ad_cap \<leftarrow> rd64 t 48;
         (_, storage) \<leftarrow> get_dimm_storage_capacity ad h handle (dc_storage_capacity c);
         Some (c\<lparr>dc_memory_capacity := mem, dc_app_direct_capacity := ad_cap,
                 dc_storage_capacity := storage,
                 dc_unconfigured_capacity := dc_capacity c - mem - ad_cap - dc_reserved_capacity c\<rparr>)
       }
   }"

definition get_dimm_capacities ::
  "'hw adapter \<Rightarrow> bool \<Rightarrow> u32 \<Rightarrow> nvm_capabilities \<Rightarrow> ('hw, 'det) world \<Rightarrow>
   (int \<times> device_capacities \<times> ('hw, 'det) world) option" where
  "get_dimm_capacities ad large handle caps w = do {
     (rc, p, w) \<leftarrow> get_partition_info ad handle w;
     if rc \<noteq> NVM_SUCCESS then Some (rc, zero_capacities, w)
     else do {
       (rc, pp, w) \<leftarrow> get_dimm_platform_config ad large handle w;
       c \<leftarrow> (if rc = NVM_SUCCESS then
              (case pp of
                 Config cfg \<Rightarrow> mapped_capacities ad (w_hw w) handle cfg (partition_capacities p)
               | _ \<Rightarrow> None)
            else Some (partition_capacities p));
       _ \<leftarrow> free_config pp;
       (r, c, w) \<leftarrow> update_capacities_based_on_sku ad handle caps c w;
       Some (keep_error rc r, c, w)
     }
   }"

section \<open>The license checks\<close>

definition check_namespaces_for_sku_violation ::
  "'hw adapter \<Rightarrow> bool \<Rightarrow> namespace_type \<Rightarrow> 'hw \<Rightarrow> u32 \<Rightarrow> bool \<Rightarrow> (int \<times> bool) option" where
  "check_namespaces_for_sku_violation ad supported ty h handle violation =
     (if supported then Some (NVM_SUCCESS, violation)
      else do {
        n \<leftarrow> dimm_has_namespaces_of_type ad h handle ty;
        Some (if n < 0 then (n, violation) else if n \<noteq> 0 then (NVM_SUCCESS, True) else (NVM_SUCCESS, violation))
      })"

definition check_device_app_direct_namespaces_for_sku_violation ::
  "'hw adapter \<Rightarrow> nvm_capabilities \<Rightarrow> 'hw \<Rightarrow> u32 \<Rightarrow> bool \<Rightarrow> (int \<times> bool) option" where
  "check_device_app_direct_namespaces_for_sku_violation ad caps =
     check_namespaces_for_sku_violation ad (app_direct_mode (nvm_features caps)) NAMESPACE_TYPE_APP_DIRECT"

definition check_device_storage_namespaces_for_sku_violation ::
  "'hw adapter \<Rightarrow> nvm_capabilities \<Rightarrow> 'hw \<Rightarrow> u32 \<Rightarrow> bool \<Rightarrow> (int \<times> bool) option" where
  "check_device_storage_namespaces_for_sku_violation ad caps =
     check_namespaces_for_sku_violation ad (storage_mode (nvm_features caps)) NAMESPACE_TYPE_STORAGE"

text \<open>The codes of the capacities and of the two namespace checks go to an inner variable of the same
  name, so the returned code is that of the first test alone.\<close>

definition device_in_sku_violation ::
  "'hw adapter \<Rightarrow> bool \<Rightarrow> u32 \<Rightarrow> nvm_capabilities \<Rightarrow> ('hw, 'det) world \<Rightarrow>
   (int \<times> bool \<times> ('hw, 'det) world) option" where
  "device_in_sku_violation ad large handle caps w =
     (if \<not> get_device_capacity (nvm_features caps) then Some (NVM_ERR_NOTSUPPORTED, False, w)
      else do {
        (inner_rc, c, w) \<leftarrow> get_dimm_capacities ad large handle caps w;
        let violation = (inner_rc = NVM_SUCCESS \<and> dc_inaccessible_capacity c > 0);
        (_, violation) \<leftarrow>
          (if violation then Some (NVM_SUCCESS, violation)
           else check_device_storage_namespaces_for_sku_violation ad caps (w_hw w) handle violation);
        (_, violation) \<leftarrow>
          (if violation then Some (NVM_SUCCESS, violation)
           else check_device_app_direct_namespaces_for_sku_violation ad caps (w_hw w) handle violation);
        Some (NVM_SUCCESS, violation, w)
      })"

fun scan_sku_violation ::
  "'hw adapter \<Rightarrow> bool \<Rightarrow> nvm_capabilities \<Rightarrow> device_discovery list \<Rightarrow> int \<Rightarrow> bool \<Rightarrow> ('hw, 'det) world \<Rightarrow>
   (int \<times> bool \<times> ('hw, 'det) world) option" where
  "scan_sku_violation ad large caps [] rc violation w = Some (rc, violation, w)"
| "scan_sku_violation ad large caps (d # ds) rc violation w = do {
     (rc, violation, w) \<leftarrow>
       (if manageability d = MANAGEMENT_VALIDCONFIG then do {
          (r, v, w) \<leftarrow> device_in_sku_violation ad large (device_handle d) caps w;
          Some (keep_error rc r, v, w)
        } else Some (rc, violation, w));
     if violation then Some (rc, violation, w)
     else scan_sku_violation ad large caps ds rc violation w
   }"

definition system_in_sku_violation ::
  "'hw adapter \<Rightarrow> bool \<Rightarrow> nvm_capabilities \<Rightarrow> ('hw, 'det) world \<Rightarrow>
   (int \<times> bool \<times> ('hw, 'det) world) option" where
  "system_in_sku_violation ad large caps w =
     (if \<not> get_devices_feature (nvm_features caps) then Some (NVM_SUCCESS, False, w)
      else do {
        (rc, w) \<leftarrow> nvm_get_device_count ad w;
        if rc > 0 then do {
          (rc, devs, w) \<leftarrow> nvm_get_devices ad (Some (replicate (nat rc) zero_discovery)) (of_int rc) w;
          ds \<leftarrow> devs;
          if rc > 0 then scan_sku_violation ad large caps (take (nat rc) ds) NVM_SUCCESS False w
          else Some (rc, False, w)
        } else Some (rc, False, w)
      })"

definition is_nvm_feature_licensed ::
  "'hw adapter \<Rightarrow> bool \<Rightarrow> (nvm_features \<Rightarrow> bool) \<Rightarrow> ('hw, 'det) world \<Rightarrow>
   (int \<times> ('hw, 'det) world) option" where
  "is_nvm_feature_licensed ad large feature w = do {
     (rc, caps, w) \<leftarrow> nvm_get_nvm_capabilities ad True w;
     if rc \<noteq> NVM_SUCCESS then Some (rc, w)
     else do {
       c \<leftarrow> caps;
       if \<not> feature (nvm_features c) then Some (NVM_ERR_NOTSUPPORTED, w)
       else do {
         (rc, violation, w) \<leftarrow> system_in_sku_violation ad large c w;
         Some (if rc = NVM_SUCCESS \<and> violation then NVM_ERR_SKUVIOLATION else rc, w)
       }
     }
   }"


section \<open>All of this only reads\<close>

lemma partition_reads [reads]:
  "get_partition_info ad h w = Some (rc, p, w') \<Longrightarrow> read_steps ad w w'"
  by (auto simp: get_partition_info_def bind_eq_Some_conv fw_cmd_for_def split: prod.splits
      dest!: get_admin_reads)

lemma sku_update_reads [reads]:
  "update_capacities_based_on_sku ad h caps c w = Some (rc, c', w') \<Longrightarrow> read_steps ad w w'"
  by (auto simp: update_capacities_based_on_sku_def bind_eq_Some_conv split: if_splits dest!: lookup_reads)

lemma capacities_reads [reads]:
  assumes "get_dimm_capacities ad large h caps w = Some (rc, c, w')"
  shows "read_steps ad w w'"
  using assms unfolding get_dimm_capacities_def
  by (auto simp: bind_eq_Some_conv split: if_splits dest!: partition_reads pcd_reads sku_update_reads
      intro: read_steps_trans)

lemma device_violation_reads [reads]:
  assumes "device_in_sku_violation ad large h caps w = Some (rc, v, w')"
  shows "read_steps ad w w'"
  using assms unfolding device_in_sku_violation_def
  by (auto simp: bind_eq_Some_conv Let_def split: if_splits dest!: capacities_reads)

lemma scan_violation_reads [reads]:
  "scan_sku_violation ad large caps ds rc v w = Some (rc', v', w') \<Longrightarrow> read_steps ad w w'"
proof (induction ds arbitrary: rc v w)
  case (Cons d ds)
  then show ?case
    by (auto simp: bind_eq_Some_conv split: if_splits dest!: device_violation_reads
        intro: read_steps_trans)
qed simp

lemma system_violation_reads [reads]:
  assumes "system_in_sku_violation ad large caps w = Some (rc, v, w')"
  shows "read_steps ad w w'"
  using assms unfolding system_in_sku_violation_def
  by (auto simp: bind_eq_Some_conv split: if_splits dest!: lookup_reads scan_violation_reads
      intro: read_steps_trans)

lemma licensed_reads [reads]:
  assumes "is_nvm_feature_licensed ad large f w = Some (rc, w')"
  shows "read_steps ad w w'"
  using assms unfolding is_nvm_feature_licensed_def
  by (auto simp: bind_eq_Some_conv split: if_splits dest!: lookup_reads system_violation_reads
      intro: read_steps_trans)


section \<open>Capacities add up\<close>

lemma sku_adjusted_sum:
  "dc_capacity (sku_adjusted f dev c) = dc_capacity c \<and>
   dc_reserved_capacity (sku_adjusted f dev c) = dc_reserved_capacity c \<and>
   (dc_memory_capacity (sku_adjusted f dev c) + dc_app_direct_capacity (sku_adjusted f dev c) +
      dc_unconfigured_capacity (sku_adjusted f dev c) + dc_inaccessible_capacity (sku_adjusted f dev c) =
    dc_memory_capacity c + dc_app_direct_capacity c + dc_unconfigured_capacity c + dc_inaccessible_capacity c \<or>
    dc_memory_capacity (sku_adjusted f dev c) = 0 \<and> dc_app_direct_capacity (sku_adjusted f dev c) = 0 \<and>
    dc_unconfigured_capacity (sku_adjusted f dev c) = 0 \<and>
    dc_inaccessible_capacity (sku_adjusted f dev c) = dc_inaccessible_capacity c + dc_capacity c)"
  by (simp add: sku_adjusted_def Let_def)

lemma partition_capacities_fields:
  "dc_capacity (partition_capacities p) = 4096 * ucast (raw_capacity p)"
  "dc_inaccessible_capacity (partition_capacities p) = 0"
  "dc_reserved_capacity (partition_capacities p) = dc_capacity (partition_capacities p) mod BYTES_PER_GB"
  by (simp_all add: partition_capacities_def zero_capacities_def MULTIPLES_TO_BYTES_def RESERVED_CAPACITY_BYTES_def)

lemma mapped_capacities_sum:
  assumes "mapped_capacities ad h handle cfg c = Some c'"
  shows "dc_capacity c' = dc_capacity c \<and> dc_inaccessible_capacity c' = dc_inaccessible_capacity c \<and>
    dc_reserved_capacity c' = dc_reserved_capacity c \<and>
    (cast_current_config cfg = Some None \<or>
     dc_memory_capacity c' + dc_app_direct_capacity c' + dc_unconfigured_capacity c' + dc_reserved_capacity c' =
       dc_capacity c')"
proof -
  from assms obtain cur where cur: "cast_current_config cfg = Some cur"
    by (auto simp: mapped_capacities_def bind_eq_Some_conv)
  with assms show ?thesis
    by (cases cur) (auto simp: mapped_capacities_def bind_eq_Some_conv algebra_simps)
qed


text \<open>The license check of a device does not see that the capacities could not be read: with both
  modes supported it answers success and no violation.\<close>
theorem license_check_ignores_errors:
  assumes "get_dimm_capacities ad large handle caps w = Some (rc, c, w')" "rc \<noteq> NVM_SUCCESS"
    and "get_device_capacity (nvm_features caps)" "storage_mode (nvm_features caps)"
    and "app_direct_mode (nvm_features caps)"
  shows "device_in_sku_violation ad large handle caps w = Some (NVM_SUCCESS, False, w')"
  using assms
  by (simp add: device_in_sku_violation_def check_device_storage_namespaces_for_sku_violation_def
      check_device_app_direct_namespaces_for_sku_violation_def check_namespaces_for_sku_violation_def)

section \<open>Namespaces of a device\<close>

definition lies_on :: "(u32 \<Rightarrow> nvm_interleave_set) \<Rightarrow> u32 \<Rightarrow> namespace_type \<Rightarrow> nvm_namespace_details \<Rightarrow> bool" where
  "lies_on isets dimm ty nd \<longleftrightarrow> (ty = NAMESPACE_TYPE_UNKNOWN \<or> nnd_type nd = ty) \<and>
     (nnd_type nd = NAMESPACE_TYPE_STORAGE \<and> nnd_creation_id nd = dimm \<or>
      nnd_type nd = NAMESPACE_TYPE_APP_DIRECT \<and> dimm \<in> set (nis_dimms (isets (nnd_creation_id nd))))"

lemma namespace_on_dimm_spec:
  assumes "nnd_type nd = NAMESPACE_TYPE_APP_DIRECT \<Longrightarrow>
      get_interleaveset_by_driver_id ad h (nnd_creation_id nd) =
        Some (NVM_SUCCESS, Some (isets (nnd_creation_id nd)))"
  shows "namespace_on_dimm ad h dimm ty nd = Some (NVM_SUCCESS, lies_on isets dimm ty nd)"
proof (cases "nnd_type nd = NAMESPACE_TYPE_APP_DIRECT")
  case True
  from assms [OF True] True show ?thesis by (simp add: namespace_on_dimm_def lies_on_def)
next
  case False
  then show ?thesis by (simp add: namespace_on_dimm_def lies_on_def)
qed

lemma count_namespaces_spec:
  assumes "\<And>ns. ns \<in> set nss \<Longrightarrow> ad_namespace_details (ns_driver ad) h (namespace_guid ns) = (NVM_SUCCESS, det ns)"
    and "\<And>ns. ns \<in> set nss \<Longrightarrow> nnd_type (det ns) = NAMESPACE_TYPE_APP_DIRECT \<Longrightarrow>
      get_interleaveset_by_driver_id ad h (nnd_creation_id (det ns)) =
        Some (NVM_SUCCESS, Some (isets (nnd_creation_id (det ns))))"
  shows "count_namespaces ad h dimm ty nss (length nss) m =
    Some (NVM_SUCCESS, m + int (length (filter (\<lambda>ns. lies_on isets dimm ty (det ns)) nss)))"
  using assms
proof (induction nss arbitrary: m)
  case (Cons ns nss)
  have "namespace_on_dimm ad h dimm ty (det ns) = Some (NVM_SUCCESS, lies_on isets dimm ty (det ns))"
    using Cons.prems(2) [of ns] by (intro namespace_on_dimm_spec) simp
  moreover have "count_namespaces ad h dimm ty nss (length nss) k =
      Some (NVM_SUCCESS, k + int (length (filter (\<lambda>ns. lies_on isets dimm ty (det ns)) nss)))" for k
    by (rule Cons.IH) (simp_all add: Cons.prems)
  ultimately show ?case using Cons.prems(1) [of ns] by simp
qed simp

text \<open>Where the driver answers for every namespace and every interleave set,
  dimm_has_namespaces_of_type returns the number of namespaces of the type that lie on the device:
  storage namespaces created on it and app direct namespaces in an interleave set that contains it.\<close>
theorem namespaces_on_dimm_counted:
  assumes "ad_namespace_count (ns_driver ad) h = int (length nss)"
    and "nss \<noteq> [] \<Longrightarrow> ad_namespaces (ns_driver ad) h (of_nat (length nss)) = (int (length nss), nss)"
    and "\<And>ns. ns \<in> set nss \<Longrightarrow> ad_namespace_details (ns_driver ad) h (namespace_guid ns) = (NVM_SUCCESS, det ns)"
    and "\<And>ns. ns \<in> set nss \<Longrightarrow> nnd_type (det ns) = NAMESPACE_TYPE_APP_DIRECT \<Longrightarrow>
      get_interleaveset_by_driver_id ad h (nnd_creation_id (det ns)) =
        Some (NVM_SUCCESS, Some (isets (nnd_creation_id (det ns))))"
  shows "dimm_has_namespaces_of_type ad h dimm ty =
    Some (int (length (filter (\<lambda>ns. lies_on isets dimm ty (det ns)) nss)))"
proof (cases "nss = []")
  case False
  with assms(1,2) count_namespaces_spec [OF assms(3,4), where dimm = dimm and ty = ty and m = 0] show ?thesis
    by (simp add: dimm_has_namespaces_of_type_def)
qed (use assms(1) in \<open>simp add: dimm_has_namespaces_of_type_def\<close>)


section \<open>A licensed feature\<close>

lemma device_violation_clear:
  assumes "device_in_sku_violation ad large handle caps w = Some (rc, False, w')" "0 \<le> rc" "reads_keep ad"
  shows "(storage_mode (nvm_features caps) \<or>
      (\<exists>k\<le>0. dimm_has_namespaces_of_type ad (w_hw w) handle NAMESPACE_TYPE_STORAGE = Some k)) \<and>
    (app_direct_mode (nvm_features caps) \<or>
      (\<exists>k\<le>0. dimm_has_namespaces_of_type ad (w_hw w) handle NAMESPACE_TYPE_APP_DIRECT = Some k))"
proof -
  from assms(1,2) obtain r c w1 where
    g: "get_dimm_capacities ad large handle caps w = Some (r, c, w1)" and w1: "w' = w1"
    unfolding device_in_sku_violation_def by (auto simp: bind_eq_Some_conv Let_def split: if_splits)
  have hw: "w_hw w1 = w_hw w" using read_steps_hw [OF capacities_reads [OF g] assms(3)] .
  from assms(1,2) g obtain a b v where
    st: "check_device_storage_namespaces_for_sku_violation ad caps (w_hw w1) handle False = Some (a, v)"
    and v: "\<not> v" and
    app: "check_device_app_direct_namespaces_for_sku_violation ad caps (w_hw w1) handle v = Some (b, False)"
    unfolding device_in_sku_violation_def by (auto simp: bind_eq_Some_conv Let_def split: if_splits)
  have "storage_mode (nvm_features caps) \<or>
      (\<exists>k\<le>0. dimm_has_namespaces_of_type ad (w_hw w) handle NAMESPACE_TYPE_STORAGE = Some k)"
    using st v unfolding check_device_storage_namespaces_for_sku_violation_def
      check_namespaces_for_sku_violation_def hw by (auto simp: bind_eq_Some_conv split: if_splits)
  moreover have "app_direct_mode (nvm_features caps) \<or>
      (\<exists>k\<le>0. dimm_has_namespaces_of_type ad (w_hw w) handle NAMESPACE_TYPE_APP_DIRECT = Some k)"
    using app v unfolding check_device_app_direct_namespaces_for_sku_violation_def
      check_namespaces_for_sku_violation_def hw by (auto simp: bind_eq_Some_conv split: if_splits)
  ultimately show ?thesis by blast
qed

lemma scan_violation_clear:
  fixes w :: "('hw, 'det) world"
  assumes "scan_sku_violation ad large caps ds rc v w = Some (NVM_SUCCESS, False, w')" "reads_keep ad"
  shows "0 \<le> rc \<and> (\<forall>d \<in> set ds. manageability d = MANAGEMENT_VALIDCONFIG \<longrightarrow>
    (\<exists>(w1 :: ('hw, 'det) world) w2 r.
      device_in_sku_violation ad large (device_handle d) caps w1 = Some (r, False, w2) \<and> 0 \<le> r \<and>
      w_hw w1 = w_hw w))"
  using assms(1)
proof (induction ds arbitrary: rc v w)
  case (Cons d ds)
  show ?case
  proof (cases "manageability d = MANAGEMENT_VALIDCONFIG")
    case True
    with Cons.prems obtain r w1 where
      dv: "device_in_sku_violation ad large (device_handle d) caps w = Some (r, False, w1)"
      and rest: "scan_sku_violation ad large caps ds (keep_error rc r) False w1 = Some (NVM_SUCCESS, False, w')"
      by (auto simp: bind_eq_Some_conv split: if_splits)
    have hw: "w_hw w1 = w_hw w" using read_steps_hw [OF device_violation_reads [OF dv] assms(2)] .
    from Cons.IH [OF rest] have "0 \<le> keep_error rc r" by blast
    then have "0 \<le> rc" "0 \<le> r" by (auto simp: keep_error_def split: if_splits)
    moreover have "\<exists>(wa :: ('hw, 'det) world) wb r. device_in_sku_violation ad large (device_handle d) caps wa = Some (r, False, wb) \<and>
        0 \<le> r \<and> w_hw wa = w_hw w" using dv \<open>0 \<le> r\<close> by blast
    ultimately show ?thesis using Cons.IH [OF rest] hw by simp
  next
    case False
    with Cons.prems have "scan_sku_violation ad large caps ds rc v w = Some (NVM_SUCCESS, False, w')"
      by (auto split: if_splits)
    from Cons.IH [OF this] False show ?thesis by auto
  qed
qed simp


section \<open>A sample device with a current configuration\<close>

definition cap_device :: device_discovery where
  "cap_device = (sample_device 1)\<lparr>dimm_sku := 7\<rparr>"

definition cap_firmware :: "fw_cmd \<Rightarrow> unit \<Rightarrow> int \<times> bytes \<times> bytes \<times> unit" where
  "cap_firmware cmd h =
     (NVM_SUCCESS, le32 0x1000000 @ replicate 12 0 @ le32 0x1000000 @ replicate 4 0 @ le64 0 @
        le32 0x2001000 @ replicate 92 0, [], ())"

definition cap_cfg :: bytes where
  "cap_cfg = replicate 36 0 @ le32 56 @ le32 60 @ replicate 16 0 @
     replicate 40 0 @ le64 0x1000000000 @ le64 0x800000000"

definition cap_features :: nvm_features where
  "cap_features = no_features\<lparr>get_devices_feature := True, get_device_capacity := True,
     memory_mode := True, app_direct_mode := True, get_namespaces := True, get_device_health := True,
     get_pools_feature := True\<rparr>"

definition cap_caps :: nvm_capabilities where
  "cap_caps = zero_capabilities\<lparr>nvm_features := cap_features\<rparr>"

definition cap_ctx :: "nat nvm_context" where
  "cap_ctx = fresh_context\<lparr>p_capabilities := Some cap_caps, device_count := 1,
     p_devices := Some [(device_entry cap_device)\<lparr>p_pcd := Some cap_cfg, pcd_size := of_nat (length cap_cfg)\<rparr>]\<rparr>"

definition cap_world :: "(unit, nat) world" where
  "cap_world = \<lparr>w_ctx = \<lparr>p_context = Some cap_ctx, lock_held = False\<rparr>, w_hw = (), w_sent = [], w_events = []\<rparr>"

abbreviation in_cap_ctx :: "(unit, nat) world \<Rightarrow> bool" where
  "in_cap_ctx w \<equiv> p_context (w_ctx w) = Some cap_ctx"

lemma cap_driver_ok: "driver_ok (adapter_with cap_firmware)"
  by (rule adapter_with_driver_ok) (simp add: cap_firmware_def)

lemma cap_cfg_length: "length cap_cfg = 116"
  by (simp add: cap_cfg_def)

lemma cap_ctx_ok: "wf_ctx (Some cap_ctx)" "holds_devices (Some cap_ctx) [cap_device]"
  by (simp_all add: cap_ctx_def wf_ctx_def wf_list_def wf_device_def fresh_context_def device_entry_def
    holds_devices_def cap_device_def sample_device_def)

lemma cap_partition:
  "\<exists>w'. get_partition_info (adapter_with cap_firmware) h w = Some (NVM_SUCCESS,
      \<lparr>volatile_capacity = 0x1000000, pmem_capacity = 0x1000000, start_pmem = 0, raw_capacity = 0x2001000\<rparr>, w') \<and>
    p_context (w_ctx w') = p_context (w_ctx w)"
proof -
  let ?out = "le32 0x1000000 @ replicate 12 0 @ le32 0x1000000 @ replicate 4 0 @ le64 0 @
        le32 0x2001000 @ replicate 92 0"
  have "rd32 ?out 0 = Some 0x1000000" using rd32_append [of 0 "[]"] by simp
  moreover have "rd32 ?out 16 = Some 0x1000000"
    using rd32_append [of 16 "le32 0x1000000 @ replicate 12 0"] by simp
  moreover have "rd64 ?out 24 = Some 0"
    using rd64_append [of 24 "le32 0x1000000 @ replicate 12 0 @ le32 0x1000000 @ replicate 4 0"] by simp
  moreover have "rd32 ?out 32 = Some 0x2001000"
    using rd32_append [of 32 "le32 0x1000000 @ replicate 12 0 @ le32 0x1000000 @ replicate 4 0 @ le64 0"] by simp
  ultimately show ?thesis
    by (simp add: get_partition_info_def ioctl_passthrough_cmd_def cap_firmware_def fw_cmd_for_def fit_exact)
qed

lemma cap_pcd:
  assumes "in_cap_ctx w"
  shows "\<exists>w'. get_dimm_platform_config (adapter_with cap_firmware) large 1 w =
    Some (NVM_SUCCESS, Config cap_cfg, w') \<and> in_cap_ctx w'"
proof -
  have f: "find (\<lambda>d. 1 = device_handle d) [cap_device] = Some cap_device"
    by (simp add: cap_device_def sample_device_def)
  have wf: "wf_ctx (p_context (w_ctx w))" using assms cap_ctx_ok by simp
  have "read_pcd (dev_guid cap_device) (w_ctx w) = Some cap_cfg"
    using assms by (simp add: read_pcd_eq [OF wf] device_at_def cap_ctx_def find_device_def device_entry_def
      cap_cfg_length cap_device_def sample_device_def guid_match_iff)
  from warm_pcd [OF _ _ cap_driver_ok wf _ _ f this, of large] assms cap_ctx_ok show ?thesis by auto
qed

lemma cap_current:
  "\<exists>t. cast_current_config cap_cfg = Some (Some t) \<and> rd64 t 40 = Some 0x1000000000 \<and> rd64 t 48 = Some 0x800000000"
proof -
  let ?t = "replicate 40 0 @ le64 0x1000000000 @ le64 0x800000000 :: bytes"
  have "rd32 cap_cfg 36 = Some 56" "rd32 cap_cfg 40 = Some 60"
    using rd32_append [of 36 "replicate 36 0"] rd32_append [of 40 "replicate 36 0 @ le32 56"]
    by (simp_all add: cap_cfg_def)
  moreover have "drop 60 cap_cfg = ?t" by (simp add: cap_cfg_def)
  moreover have "rd64 ?t 40 = Some 0x1000000000" "rd64 ?t 48 = Some 0x800000000"
    using rd64_append [of 40 "replicate 40 0" _ "le64 0x800000000"]
      rd64_append [of 48 "replicate 40 0 @ le64 0x1000000000" _ "[]"] by simp_all
  ultimately show ?thesis
    by (intro exI [of _ ?t]) (simp add: cast_table_def cast_current_config_def)
qed

lemma cap_lookup:
  assumes "in_cap_ctx w"
  shows "\<exists>w'. lookup_dev_handle (adapter_with cap_firmware) 1 w = Some (NVM_SUCCESS, Some cap_device, w') \<and> in_cap_ctx w'"
proof -
  have "cached (p_context (w_ctx w)) [cap_device]" using cap_ctx_ok(2) assms by (simp add: holds_devices_cached)
  moreover have "find (\<lambda>d. 1 = device_handle d) [cap_device] = Some cap_device"
    by (simp add: cap_device_def sample_device_def)
  ultimately show ?thesis using lookup_handle_warm [OF _ _ cap_driver_ok, of w "[cap_device]" 1] assms by auto
qed

lemma cap_run:
  assumes "in_cap_ctx w"
  shows "\<exists>c w'. get_dimm_capacities (adapter_with cap_firmware) large 1 cap_caps w = Some (NVM_SUCCESS, c, w') \<and>
    dc_inaccessible_capacity c = 0 \<and> dc_memory_capacity c = 0x1000000000 \<and>
    dc_app_direct_capacity c = 0x800000000 \<and> in_cap_ctx w'"
proof -
  obtain p w1 where p: "get_partition_info (adapter_with cap_firmware) 1 w = Some (NVM_SUCCESS, p, w1)" "in_cap_ctx w1"
    using cap_partition [of 1 w] assms by auto
  obtain w2 where g: "get_dimm_platform_config (adapter_with cap_firmware) large 1 w1 =
      Some (NVM_SUCCESS, Config cap_cfg, w2)" "in_cap_ctx w2"
    using cap_pcd [OF p(2)] by auto
  obtain w3 where l: "lookup_dev_handle (adapter_with cap_firmware) 1 w2 = Some (NVM_SUCCESS, Some cap_device, w3)"
    "in_cap_ctx w3" using cap_lookup [OF g(2)] by auto
  obtain t where t: "cast_current_config cap_cfg = Some (Some t)" "rd64 t 40 = Some 0x1000000000"
    "rd64 t 48 = Some 0x800000000" using cap_current by blast
  have st: "get_dimm_storage_capacity (adapter_with cap_firmware) () 1 old = Some (0, old)" for old
    by (simp add: get_dimm_storage_capacity_def get_dimm_storage_capacities_def adapter_with_def
        empty_ns_driver_def)
  let ?c0 = "(partition_capacities p)\<lparr>dc_memory_capacity := 0x1000000000, dc_app_direct_capacity := 0x800000000,
      dc_storage_capacity := dc_storage_capacity (partition_capacities p),
      dc_unconfigured_capacity := dc_capacity (partition_capacities p) - 0x1000000000 - 0x800000000 -
        dc_reserved_capacity (partition_capacities p)\<rparr>"
  have m: "mapped_capacities (adapter_with cap_firmware) () 1 cap_cfg (partition_capacities p) = Some ?c0"
    using t by (simp add: mapped_capacities_def st)
  have "get_dimm_capacities (adapter_with cap_firmware) large 1 cap_caps w =
      Some (NVM_SUCCESS, sku_adjusted (nvm_features cap_caps) (convert_sku_to_device_capabilities (dimm_sku cap_device)) ?c0, w3)"
    using p(1) g(1) l(1) m
    by (simp add: get_dimm_capacities_def update_capacities_based_on_sku_def free_config_def keep_error_def)
  moreover have "sku_adjusted (nvm_features cap_caps) (convert_sku_to_device_capabilities (dimm_sku cap_device)) ?c0 = ?c0"
    by (simp add: sku_adjusted_def Let_def cap_caps_def cap_features_def convert_sku_to_device_capabilities_def
        cap_device_def partition_capacities_def zero_capacities_def)
  ultimately show ?thesis using l(2)
    by (auto simp: partition_capacities_def zero_capacities_def)
qed


definition blind_firmware :: "fw_cmd \<Rightarrow> unit \<Rightarrow> int \<times> bytes \<times> bytes \<times> unit" where
  "blind_firmware cmd h = (NVM_ERR_DRIVERFAILED, [], [], ())"

theorem license_check_ignores_errors_witness:
  "\<exists>c w'. get_dimm_capacities (adapter_with blind_firmware) False 1
      (cap_caps\<lparr>nvm_features := cap_features\<lparr>storage_mode := True\<rparr>\<rparr>) cap_world = Some (NVM_ERR_DRIVERFAILED, c, w') \<and>
    device_in_sku_violation (adapter_with blind_firmware) False 1
      (cap_caps\<lparr>nvm_features := cap_features\<lparr>storage_mode := True\<rparr>\<rparr>) cap_world = Some (NVM_SUCCESS, False, w')"
proof -
  let ?caps = "cap_caps\<lparr>nvm_features := cap_features\<lparr>storage_mode := True\<rparr>\<rparr>"
  have z: "rd32 (replicate 128 0) k = Some 0 \<and> rd64 (replicate 128 0) k = Some 0" if "k + 8 \<le> 128" for k
    using that by (auto simp: rd32_def rd64_def load_def le_nat_zeros)
  have "\<exists>p w'. get_partition_info (adapter_with blind_firmware) 1 cap_world = Some (NVM_ERR_DRIVERFAILED, p, w')"
    using z [of 0] z [of 16] z [of 24] z [of 32]
    by (simp add: get_partition_info_def ioctl_passthrough_cmd_def blind_firmware_def fw_cmd_for_def fit_def)
  then obtain w' where r: "get_dimm_capacities (adapter_with blind_firmware) False 1 ?caps cap_world =
      Some (NVM_ERR_DRIVERFAILED, zero_capacities, w')"
    by (auto simp: get_dimm_capacities_def)
  from license_check_ignores_errors [OF this] r show ?thesis by (simp add: cap_features_def)
qed

lemma cap_query:
  obtains w1 w2 w3 where
    "nvm_get_nvm_capabilities (adapter_with cap_firmware) True cap_world = Some (NVM_SUCCESS, Some cap_caps, w1)"
    "nvm_get_device_count (adapter_with cap_firmware) w1 = Some (1, w2)"
    "nvm_get_devices (adapter_with cap_firmware) (Some (replicate (nat 1) zero_discovery)) (of_int 1) w2 =
      Some (1, Some [cap_device], w3)"
    "in_cap_ctx w3"
proof -
  let ?ad = "adapter_with cap_firmware"
  have c: "p_context (w_ctx cap_world) = Some cap_ctx" by (simp add: cap_world_def)
  have "p_capabilities cap_ctx = Some cap_caps" by (simp add: cap_ctx_def)
  from capabilities_cached [OF _ _ c this, of ?ad] obtain w1 where
    w1: "nvm_get_nvm_capabilities ?ad True cap_world = Some (NVM_SUCCESS, Some cap_caps, w1)" "in_cap_ctx w1"
    by simp
  have ch: "cached (Some cap_ctx) [cap_device]" by (rule holds_devices_cached [OF cap_ctx_ok(2)])
  from device_count_cached [OF _ _ cap_driver_ok, of w1 "[cap_device]"] ch w1(2) obtain w2 where
    w2: "nvm_get_device_count ?ad w1 = Some (1, w2)" "in_cap_ctx w2" by simp
  from get_devices_cached [OF _ _ cap_driver_ok, of w2 "[cap_device]" 1 "[zero_discovery]"] ch w2(2) obtain w3 where
    w3: "nvm_get_devices ?ad (Some (replicate (nat 1) zero_discovery)) (of_int 1) w2 = Some (1, Some [cap_device], w3)"
      "in_cap_ctx w3" by auto
  show ?thesis by (rule that [OF w1(1) w2(1) w3])
qed

lemma cap_violation:
  assumes "in_cap_ctx w"
  shows "\<exists>w'. device_in_sku_violation (adapter_with cap_firmware) large 1 cap_caps w = Some (NVM_SUCCESS, False, w') \<and>
    in_cap_ctx w'"
proof -
  from cap_run [OF assms, of large] obtain c w' where
    "get_dimm_capacities (adapter_with cap_firmware) large 1 cap_caps w = Some (NVM_SUCCESS, c, w')"
    "dc_inaccessible_capacity c = 0" "in_cap_ctx w'" by blast
  moreover have "dimm_has_namespaces_of_type (adapter_with cap_firmware) () 1 ty = Some 0" for ty
    by (simp add: dimm_has_namespaces_of_type_def adapter_with_def empty_ns_driver_def)
  ultimately show ?thesis
    by (simp add: device_in_sku_violation_def check_device_storage_namespaces_for_sku_violation_def
        check_device_app_direct_namespaces_for_sku_violation_def check_namespaces_for_sku_violation_def
        cap_caps_def cap_features_def)
qed


text \<open>Two storage namespaces, one of them on the device.\<close>

definition two_namespaces :: "unit adapter" where
  "two_namespaces = (adapter_with cap_firmware)\<lparr>ns_driver := empty_ns_driver\<lparr>
     ad_namespace_count := (\<lambda>_. 2),
     ad_namespaces := (\<lambda>_ _. (2, [\<lparr>namespace_guid = replicate 16 1, nsd_friendly_name = []\<rparr>,
       \<lparr>namespace_guid = replicate 16 2, nsd_friendly_name = []\<rparr>])),
     ad_namespace_details := (\<lambda>_ g. (NVM_SUCCESS, no_namespace\<lparr>nnd_type := NAMESPACE_TYPE_STORAGE,
       nnd_creation_id := if g = replicate 16 1 then 1 else 2\<rparr>))\<rparr>\<rparr>"

theorem namespaces_on_dimm_counted_witness:
  "dimm_has_namespaces_of_type two_namespaces () 1 NAMESPACE_TYPE_STORAGE = Some 1"
  using namespaces_on_dimm_counted [of two_namespaces "()" "[\<lparr>namespace_guid = replicate 16 1, nsd_friendly_name = []\<rparr>,
       \<lparr>namespace_guid = replicate 16 2, nsd_friendly_name = []\<rparr>]"
    "\<lambda>ns. no_namespace\<lparr>nnd_type := NAMESPACE_TYPE_STORAGE,
       nnd_creation_id := if namespace_guid ns = replicate 16 1 then 1 else 2\<rparr>" "\<lambda>_. undefined" 1 NAMESPACE_TYPE_STORAGE]
  by (simp add: two_namespaces_def lies_on_def)

end
