(* ===== verification/Security.thy ===== *)
theory Security
  imports Lookups
begin

text \<open>
  Passphrases, unlocking and erasing (\<^verbatim>\<open>src/lib/security.c\<close>). Every operation looks its
  device up, prepares it (a locked device is unlocked first) and sends security commands through
  the driver, which the world records. A passphrase is the caller's pointer and its length.
\<close>

abbreviation (input) NVM_PASSPHRASE_LEN :: nat where "NVM_PASSPHRASE_LEN \<equiv> 32"
abbreviation (input) SUBOP_OVERWRITE_DIMM :: u8 where "SUBOP_OVERWRITE_DIMM \<equiv> 0x01"
abbreviation (input) SUBOP_CRYPTO_SCRAMBLE :: u8 where "SUBOP_CRYPTO_SCRAMBLE \<equiv> 0x02"
abbreviation (input) SUBOP_SET_PASS :: u8 where "SUBOP_SET_PASS \<equiv> 0xF1"
abbreviation (input) SUBOP_DISABLE_PASS :: u8 where "SUBOP_DISABLE_PASS \<equiv> 0xF2"
abbreviation (input) SUBOP_UNLOCK_UNIT :: u8 where "SUBOP_UNLOCK_UNIT \<equiv> 0xF3"
abbreviation (input) SUBOP_SEC_ERASE_UNIT :: u8 where "SUBOP_SEC_ERASE_UNIT \<equiv> 0xF5"
abbreviation (input) SUBOP_SEC_FREEZE_LOCK :: u8 where "SUBOP_SEC_FREEZE_LOCK \<equiv> 0xF6"

abbreviation (input) ERASE_TYPE_QUICK_OVERWRITE :: int where "ERASE_TYPE_QUICK_OVERWRITE \<equiv> 0"
abbreviation (input) ERASE_TYPE_MULTI_OVERWRITE :: int where "ERASE_TYPE_MULTI_OVERWRITE \<equiv> 1"
abbreviation (input) ERASE_TYPE_CRYPTO :: int where "ERASE_TYPE_CRYPTO \<equiv> 2"

section \<open>Payloads and single commands\<close>

text \<open>The zeroed 32-byte passphrase field after \<^verbatim>\<open>s_strncpy\<close>.\<close>

definition passphrase_field :: "bytes option \<Rightarrow> nat \<Rightarrow> bytes option" where
  "passphrase_field passphrase len = do {
     r \<leftarrow> s_strncpy (Some (replicate NVM_PASSPHRASE_LEN 0)) NVM_PASSPHRASE_LEN passphrase len;
     r
   }"

definition passphrase_payload :: "bytes option \<Rightarrow> nat \<Rightarrow> bytes option" where
  "passphrase_payload passphrase len = do {
     f \<leftarrow> passphrase_field passphrase len;
     Some (f @ replicate 96 0)
   }"

definition set_passphrase_payload :: "bytes option \<Rightarrow> nat \<Rightarrow> bytes option \<Rightarrow> nat \<Rightarrow> bytes option" where
  "set_passphrase_payload old old_len new new_len = do {
     cur \<leftarrow> (if old_len > 0 \<and> old \<noteq> None then passphrase_field old old_len
           else Some (replicate NVM_PASSPHRASE_LEN 0));
     n \<leftarrow> passphrase_field new new_len;
     Some (cur @ replicate 32 0 @ n @ replicate 32 0)
   }"

definition sec_cmd :: "device_discovery \<Rightarrow> u8 \<Rightarrow> bytes \<Rightarrow> fw_cmd" where
  "sec_cmd d subop payload =
     (fw_cmd_for (device_handle d) PT_SET_SEC_INFO subop)\<lparr>cmd_input_payload := payload\<rparr>"

definition send :: "'hw adapter \<Rightarrow> fw_cmd \<Rightarrow> ('hw, 'det) world \<Rightarrow> int \<times> ('hw, 'det) world" where
  "send ad cmd w = (let (rc, _, _, w) = ioctl_passthrough_cmd ad cmd w in (rc, w))"

definition freeze_security ::
  "'hw adapter \<Rightarrow> device_discovery \<Rightarrow> ('hw, 'det) world \<Rightarrow> int \<times> ('hw, 'det) world" where
  "freeze_security ad d w = send ad (sec_cmd d SUBOP_SEC_FREEZE_LOCK []) w"

section \<open>Checks\<close>

definition security_change_prepare ::
  "'hw adapter \<Rightarrow> device_discovery \<Rightarrow> bytes option \<Rightarrow> nat \<Rightarrow> bool \<Rightarrow> ('hw, 'det) world \<Rightarrow>
   (int \<times> ('hw, 'det) world) option" where
  "security_change_prepare ad d passphrase len check_enabled w =
     (if dev_lock_state d = LOCK_STATE_FROZEN then Some (NVM_ERR_SECURITYFROZEN, w)
      else if dev_lock_state d = LOCK_STATE_PASSPHRASE_LIMIT then Some (NVM_ERR_LIMITPASSPHRASE, w)
      else if dev_lock_state d = LOCK_STATE_UNKNOWN then Some (NVM_ERR_NOTSUPPORTED, w)
      else if check_enabled \<and> dev_lock_state d = LOCK_STATE_DISABLED
        then Some (NVM_ERR_SECURITYDISABLED, w)
      else if dev_lock_state d = LOCK_STATE_LOCKED then do {
        p \<leftarrow> passphrase_payload passphrase len;
        Some (send ad (sec_cmd d SUBOP_UNLOCK_UNIT p) w)
      }
      else Some (NVM_SUCCESS, w))"

definition overwrite_crypto_change_prepare :: "device_discovery \<Rightarrow> int" where
  "overwrite_crypto_change_prepare d =
     (if dev_lock_state d = LOCK_STATE_FROZEN then NVM_ERR_SECURITYFROZEN else NVM_SUCCESS)"

definition check_passphrase :: "bytes option \<Rightarrow> nat \<Rightarrow> int" where
  "check_passphrase passphrase len =
     (if passphrase = None then NVM_ERR_BADPASSPHRASE
      else if len > NVM_PASSPHRASE_LEN then NVM_ERR_BADPASSPHRASE
      else if len = 0 then NVM_ERR_BADPASSPHRASE
      else NVM_SUCCESS)"

definition check_capable ::
  "(device_security_capabilities \<Rightarrow> bool) \<Rightarrow> 'hw adapter \<Rightarrow> guid option \<Rightarrow> ('hw, 'det) world \<Rightarrow>
   (int \<times> ('hw, 'det) world) option" where
  "check_capable capable ad guid w = do {
     (rc, d, w) \<leftarrow> nvm_get_device_discovery ad guid True w;
     if rc = NVM_SUCCESS then do {
       d \<leftarrow> d;
       Some (if capable (dev_security_capabilities d) then NVM_SUCCESS else NVM_ERR_NOTSUPPORTED, w)
     } else Some (rc, w)
   }"

definition check_passphrase_capable ::
  "'hw adapter \<Rightarrow> guid option \<Rightarrow> ('hw, 'det) world \<Rightarrow> (int \<times> ('hw, 'det) world) option" where
  "check_passphrase_capable = check_capable passphrase_capable"

definition check_unlock_device_capable ::
  "'hw adapter \<Rightarrow> guid option \<Rightarrow> ('hw, 'det) world \<Rightarrow> (int \<times> ('hw, 'det) world) option" where
  "check_unlock_device_capable = check_capable unlock_device_capable"

definition drop_device_cache ::
  "'hw adapter \<Rightarrow> ('hw, 'det) world \<Rightarrow> ('hw, 'det) world option" where
  "drop_device_cache ad w = do { (_, _, w) \<leftarrow> on_ctx (invalidate_devices (ad_os ad)) w; Some w }"

text \<open>The device lookup, the capability check and the preparation the passphrase operations start
  with; a device comes with the code 0.\<close>

definition ready_device ::
  "('hw adapter \<Rightarrow> guid option \<Rightarrow> ('hw, 'det) world \<Rightarrow> (int \<times> ('hw, 'det) world) option) \<Rightarrow>
   'hw adapter \<Rightarrow> guid option \<Rightarrow> bytes option \<Rightarrow> nat \<Rightarrow> bool \<Rightarrow> ('hw, 'det) world \<Rightarrow>
   (int \<times> device_discovery option \<times> ('hw, 'det) world) option" where
  "ready_device capable ad guid passphrase len check_enabled w = do {
     (rc, d, w) \<leftarrow> exists_and_manageable ad guid True w;
     if rc \<noteq> NVM_SUCCESS then Some (rc, None, w)
     else do {
       (rc, w) \<leftarrow> capable ad guid w;
       if rc \<noteq> NVM_SUCCESS then Some (rc, None, w)
       else do {
         dev \<leftarrow> d;
         (rc, w) \<leftarrow> security_change_prepare ad dev passphrase len check_enabled w;
         Some (rc, if rc = NVM_SUCCESS then Some dev else None, w)
       }
     }
   }"

text \<open>The guards every operation begins with.\<close>

definition security_guard ::
  "'hw adapter \<Rightarrow> guid option \<Rightarrow> ('hw, 'det) world \<Rightarrow> (int \<times> ('hw, 'det) world) option" where
  "security_guard ad guid w =
     (if \<not> permitted ad then Some (NVM_ERR_INVALIDPERMISSIONS, w)
      else do {
        (rc, w) \<leftarrow> is_nvm_feature_supported ad modify_device_security w;
        Some (if rc \<noteq> NVM_SUCCESS then rc
              else if guid = None then NVM_ERR_INVALIDPARAMETER else NVM_SUCCESS, w)
      })"

section \<open>Passphrase operations\<close>

text \<open>The part the three operations share: the ready device, the operation's own command, and the
  cached devices dropped, since the security state has likely changed.\<close>

definition on_ready_device ::
  "('hw adapter \<Rightarrow> guid option \<Rightarrow> ('hw, 'det) world \<Rightarrow> (int \<times> ('hw, 'det) world) option) \<Rightarrow>
   'hw adapter \<Rightarrow> guid option \<Rightarrow> bytes option \<Rightarrow> nat \<Rightarrow> bool \<Rightarrow>
   (device_discovery \<Rightarrow> ('hw, 'det) world \<Rightarrow> (int \<times> ('hw, 'det) world) option) \<Rightarrow>
   ('hw, 'det) world \<Rightarrow> (int \<times> ('hw, 'det) world) option" where
  "on_ready_device capable ad guid passphrase len check_enabled body w = do {
     (rc, d, w) \<leftarrow> ready_device capable ad guid passphrase len check_enabled w;
     case d of
       None \<Rightarrow> Some (rc, w)
     | Some d \<Rightarrow> do {
         (rc, w) \<leftarrow> body d w;
         w \<leftarrow> drop_device_cache ad w;
         Some (rc, w)
       }
   }"

definition log_success ::
  "event_code \<Rightarrow> guid option \<Rightarrow> int \<times> ('hw, 'det) world \<Rightarrow> int \<times> ('hw, 'det) world" where
  "log_success code guid = (\<lambda>(rc, w).
     (rc, if rc = NVM_SUCCESS then log_mgmt_event code (the guid) [guid_to_str guid] w else w))"

definition send_and_freeze ::
  "'hw adapter \<Rightarrow> device_discovery \<Rightarrow> fw_cmd \<Rightarrow> ('hw, 'det) world \<Rightarrow> int \<times> ('hw, 'det) world" where
  "send_and_freeze ad d cmd w =
     (let (rc, w) = send ad cmd w in if rc = NVM_SUCCESS then freeze_security ad d w else (rc, w))"

definition nvm_set_passphrase ::
  "'hw adapter \<Rightarrow> guid option \<Rightarrow> bytes option \<Rightarrow> nat \<Rightarrow> bytes option \<Rightarrow> nat \<Rightarrow> ('hw, 'det) world \<Rightarrow>
   (int \<times> ('hw, 'det) world) option" where
  "nvm_set_passphrase ad guid old old_len new new_len w = do {
     (rc, w) \<leftarrow> security_guard ad guid w;
     let rc = (if rc \<noteq> NVM_SUCCESS then rc
               else if check_passphrase new new_len \<noteq> NVM_SUCCESS then NVM_ERR_INVALIDPASSPHRASE
               else if old \<noteq> None then check_passphrase old old_len
               else NVM_SUCCESS);
     if rc \<noteq> NVM_SUCCESS then Some (rc, w)
     else on_ready_device check_passphrase_capable ad guid old old_len False (\<lambda>d w. do {
       p \<leftarrow> set_passphrase_payload old old_len new new_len;
       Some (log_success EVENT_CODE_MGMT_SECURITY_PASSWORD_SET guid
         (send_and_freeze ad d (sec_cmd d SUBOP_SET_PASS p) w))
     }) w
   }"

definition nvm_remove_passphrase ::
  "'hw adapter \<Rightarrow> guid option \<Rightarrow> bytes option \<Rightarrow> nat \<Rightarrow> ('hw, 'det) world \<Rightarrow>
   (int \<times> ('hw, 'det) world) option" where
  "nvm_remove_passphrase ad guid passphrase len w = do {
     (rc, w) \<leftarrow> security_guard ad guid w;
     let rc = (if rc \<noteq> NVM_SUCCESS then rc else check_passphrase passphrase len);
     if rc \<noteq> NVM_SUCCESS then Some (rc, w)
     else on_ready_device check_passphrase_capable ad guid passphrase len True (\<lambda>d w. do {
       p \<leftarrow> passphrase_payload passphrase len;
       Some (log_success EVENT_CODE_MGMT_SECURITY_PASSWORD_REMOVED guid
         (send ad (sec_cmd d SUBOP_DISABLE_PASS p) w))
     }) w
   }"

definition nvm_unlock_device ::
  "'hw adapter \<Rightarrow> guid option \<Rightarrow> bytes option \<Rightarrow> nat \<Rightarrow> ('hw, 'det) world \<Rightarrow>
   (int \<times> ('hw, 'det) world) option" where
  "nvm_unlock_device ad guid passphrase len w = do {
     (rc, w) \<leftarrow> security_guard ad guid w;
     let rc = (if rc \<noteq> NVM_SUCCESS then rc else check_passphrase passphrase len);
     if rc \<noteq> NVM_SUCCESS then Some (rc, w)
     else on_ready_device check_unlock_device_capable ad guid passphrase len True (\<lambda>d w. do {
       p \<leftarrow> passphrase_payload passphrase len;
       Some (log_success EVENT_CODE_MGMT_SECURITY_UNLOCK guid
         (send_and_freeze ad d (sec_cmd d SUBOP_UNLOCK_UNIT p) w))
     }) w
   }"

section \<open>Erasing\<close>

text \<open>The retry loops: the commands of the successive attempts, the next one sent while the
  device is busy.\<close>

fun send_while_busy ::
  "'hw adapter \<Rightarrow> fw_cmd list \<Rightarrow> int \<Rightarrow> ('hw, 'det) world \<Rightarrow> int \<times> ('hw, 'det) world" where
  "send_while_busy ad [] rc w = (rc, w)"
| "send_while_busy ad (cmd # cmds) rc w =
     (let (rc, w) = send ad cmd w in
      if rc = NVM_ERR_DEVICEBUSY then send_while_busy ad cmds rc w else (rc, w))"

text \<open>The payload is the pattern and the options: the number of passes and the invert flag. The
  loop clears it after the first attempt, so the later attempts send zeros.\<close>

definition overwrite_payload :: "bool \<Rightarrow> bytes" where
  "overwrite_payload quick = le32 0 @ le32 (if quick then 1 else 0x10 OR 3)"

definition overwrite_dimm ::
  "'hw adapter \<Rightarrow> bool \<Rightarrow> device_discovery \<Rightarrow> ('hw, 'det) world \<Rightarrow> int \<times> ('hw, 'det) world" where
  "overwrite_dimm ad quick d w =
     (let cmd = sec_cmd d SUBOP_OVERWRITE_DIMM;
          (rc, w) = send_while_busy ad (cmd (overwrite_payload quick) # replicate 4 (cmd (replicate 8 0)))
                      NVM_ERR_UNKNOWN w
      in (rc, if rc = NVM_SUCCESS then
                log_mgmt_event EVENT_CODE_MGMT_SANITIZE_OVERWRITE (dev_guid d)
                  [guid_to_str (Some (dev_guid d)), if quick then ''1'' else ''3''] w
              else w))"

definition crypto_scramble_dimm ::
  "'hw adapter \<Rightarrow> device_discovery \<Rightarrow> ('hw, 'det) world \<Rightarrow> int \<times> ('hw, 'det) world" where
  "crypto_scramble_dimm ad d w =
     (let (rc, w) = send_while_busy ad (replicate 5 (sec_cmd d SUBOP_CRYPTO_SCRAMBLE []))
                      NVM_ERR_UNKNOWN w
      in (rc, if rc = NVM_SUCCESS then
                log_mgmt_event EVENT_CODE_MGMT_SANITIZE_CRYPTOSCRAMBLE (dev_guid d)
                  [guid_to_str (Some (dev_guid d))] w
              else w))"

definition secure_erase ::
  "'hw adapter \<Rightarrow> bytes option \<Rightarrow> nat \<Rightarrow> device_discovery \<Rightarrow> ('hw, 'det) world \<Rightarrow>
   (int \<times> ('hw, 'det) world) option" where
  "secure_erase ad passphrase len d w = do {
     p \<leftarrow> passphrase_payload passphrase len;
     let (rc, w) = send_while_busy ad (replicate 5 (sec_cmd d SUBOP_SEC_ERASE_UNIT p))
                     NVM_ERR_UNKNOWN w;
     Some (rc, if rc = NVM_SUCCESS then
                 log_mgmt_event EVENT_CODE_MGMT_SECURITY_SECURE_ERASE (dev_guid d)
                   [guid_to_str (Some (dev_guid d))] w
               else w)
   }"

text \<open>The erase operation, and the part of it after the device lookup.\<close>

definition erase_found ::
  "'hw adapter \<Rightarrow> device_discovery \<Rightarrow> int \<Rightarrow> bytes option \<Rightarrow> nat \<Rightarrow> ('hw, 'det) world \<Rightarrow>
   (int \<times> ('hw, 'det) world) option" where
  "erase_found ad d type passphrase len w =
     (let caps = dev_security_capabilities d;
          overwrite = (\<lambda>quick.
            if \<not> erase_overwrite_capable caps then Some (NVM_ERR_NOTSUPPORTED, w)
            else if overwrite_crypto_change_prepare d \<noteq> NVM_SUCCESS
              then Some (overwrite_crypto_change_prepare d, w)
            else
              let (rc, w) = overwrite_dimm ad quick d w in
              do { w \<leftarrow> drop_device_cache ad w; Some (rc, w) })
      in
      if type = ERASE_TYPE_QUICK_OVERWRITE then overwrite True
      else if type = ERASE_TYPE_MULTI_OVERWRITE then overwrite False
      else if type = ERASE_TYPE_CRYPTO then
        if passphrase_capable caps then
          if len > NVM_PASSPHRASE_LEN then Some (NVM_ERR_BADPASSPHRASE, w)
          else do {
            (rc, w) \<leftarrow> security_change_prepare ad d passphrase len True w;
            if rc = NVM_SUCCESS then do {
              (rc, w) \<leftarrow> secure_erase ad passphrase len d w;
              w \<leftarrow> drop_device_cache ad w;
              Some (rc, w)
            } else Some (rc, w)
          }
        else if erase_crypto_capable caps then
          if overwrite_crypto_change_prepare d \<noteq> NVM_SUCCESS
          then Some (overwrite_crypto_change_prepare d, w)
          else
            let (rc, w) = crypto_scramble_dimm ad d w in
            do { w \<leftarrow> drop_device_cache ad w; Some (rc, w) }
        else Some (NVM_ERR_INVALIDPARAMETER, w)
      else Some (NVM_ERR_INVALIDPARAMETER, w))"

definition nvm_erase_device ::
  "'hw adapter \<Rightarrow> guid option \<Rightarrow> int \<Rightarrow> bytes option \<Rightarrow> nat \<Rightarrow> ('hw, 'det) world \<Rightarrow>
   (int \<times> ('hw, 'det) world) option" where
  "nvm_erase_device ad guid type passphrase len w = do {
     (rc, w) \<leftarrow> security_guard ad guid w;
     if rc \<noteq> NVM_SUCCESS then Some (rc, w)
     else do {
       (rc, d, w) \<leftarrow> exists_and_manageable ad guid True w;
       if rc \<noteq> NVM_SUCCESS then Some (rc, w)
       else do {
         d \<leftarrow> d;
         erase_found ad d type passphrase len w
       }
     }
   }"

section \<open>What the lookups send\<close>

text \<open>A step that sends no security command and stores no event.\<close>

definition only_reads :: "('hw, 'det) world \<Rightarrow> ('hw, 'det) world \<Rightarrow> bool" where
  "only_reads w w' \<longleftrightarrow>
     (\<exists>cs. w_sent w' = w_sent w @ cs \<and> (\<forall>c \<in> set cs. cmd_opcode c \<noteq> PT_SET_SEC_INFO)) \<and>
     w_events w' = w_events w"

named_theorems reads \<open>which operations only read\<close>

lemma only_reads_refl [simp]: "only_reads w w"
  by (simp add: only_reads_def)

lemma only_reads_trans [trans]: "only_reads w1 w2 \<Longrightarrow> only_reads w2 w3 \<Longrightarrow> only_reads w1 w3"
  unfolding only_reads_def by (metis append.assoc Un_iff set_append)

lemma ioctl_reads:
  "ioctl_passthrough_cmd ad cmd w = (rc, s, l, w') \<Longrightarrow> cmd_opcode cmd \<noteq> PT_SET_SEC_INFO \<Longrightarrow>
   only_reads w w'"
  by (auto simp: only_reads_def dest!: ioctl_effect)

lemma steps_reads:
  assumes "lookup_steps ad w w'"
  shows "only_reads w w'"
  using assms only_reads_refl
proof (rule lookup_steps_preserve)
  show "only_reads w (v\<lparr>w_ctx := s\<rparr>)" if "only_reads w v" for v s
    using that by (simp add: only_reads_def)
  show "only_reads w v'" if "only_reads w v" "cmd_opcode cmd = PT_IDENTIFY_DIMM \<or> cmd_opcode cmd = PT_GET_SEC_INFO"
    "ioctl_passthrough_cmd ad cmd v = (rc, small, large, v')" for v cmd rc small large v'
    using that(2) by (intro only_reads_trans [OF that(1) ioctl_reads [OF that(3)]]) auto
qed

lemma on_ctx_reads [reads]: "on_ctx f w = Some (rc, out, w') \<Longrightarrow> only_reads w w'"
  by (rule steps_reads [OF on_ctx_steps [where ad = undefined]])

lemma exists_reads [reads]: "exists_and_manageable ad g chk w = Some (rc, d, w') \<Longrightarrow> only_reads w w'"
  by (rule steps_reads [OF exists_steps])

lemma capable_reads [reads]: "check_capable c ad g w = Some (rc, w') \<Longrightarrow> only_reads w w'"
  by (auto simp: check_capable_def bind_eq_Some_conv split: if_splits
      dest!: discovery_steps [THEN steps_reads])

lemma guard_reads [reads]: "security_guard ad g w = Some (rc, w') \<Longrightarrow> only_reads w w'"
  by (auto simp: security_guard_def bind_eq_Some_conv split: if_splits
      dest!: feature_steps [THEN steps_reads])

section \<open>The security commands of a run\<close>

definition sec_cmds :: "('hw, 'det) world \<Rightarrow> fw_cmd list" where
  "sec_cmds w = filter (\<lambda>c. cmd_opcode c = PT_SET_SEC_INFO) (w_sent w)"

lemma reads_sec_cmds: "only_reads w w' \<Longrightarrow> sec_cmds w' = sec_cmds w \<and> w_events w' = w_events w"
  by (auto simp: only_reads_def sec_cmds_def)

lemma log_sec_cmds [simp]: "sec_cmds (log_mgmt_event code g args w) = sec_cmds w"
  by (simp add: sec_cmds_def)

lemma send_effect:
  "send ad cmd w = (rc, w') \<Longrightarrow> cmd_opcode cmd = PT_SET_SEC_INFO \<Longrightarrow>
   sec_cmds w' = sec_cmds w @ [cmd] \<and> w_events w' = w_events w \<and> w_ctx w' = w_ctx w"
  by (auto simp: send_def sec_cmds_def Let_def split: prod.splits dest!: ioctl_effect)

lemma sec_cmd_simps [simp]:
  "cmd_opcode (sec_cmd d s p) = PT_SET_SEC_INFO" "cmd_sub_opcode (sec_cmd d s p) = s"
  "cmd_device_handle (sec_cmd d s p) = device_handle d" "cmd_input_payload (sec_cmd d s p) = p"
  by (simp_all add: sec_cmd_def fw_cmd_for_def)

lemma drop_cache_effect:
  "drop_device_cache ad w = Some w' \<Longrightarrow> sec_cmds w' = sec_cmds w \<and> w_events w' = w_events w"
  by (auto simp: drop_device_cache_def bind_eq_Some_conv dest!: on_ctx_reads reads_sec_cmds)

lemma prepare_refuses:
  "dev_lock_state d = LOCK_STATE_FROZEN \<Longrightarrow>
   security_change_prepare ad d p len chk w = Some (NVM_ERR_SECURITYFROZEN, w)"
  by (simp add: security_change_prepare_def)

text \<open>What the preparation sends: the unlock command for a locked device.\<close>

definition unlock_cmds :: "device_discovery \<Rightarrow> bytes option \<Rightarrow> nat \<Rightarrow> fw_cmd list" where
  "unlock_cmds d passphrase len =
     (if dev_lock_state d = LOCK_STATE_LOCKED
      then [sec_cmd d SUBOP_UNLOCK_UNIT (the (passphrase_payload passphrase len))] else [])"

lemma prepare_success:
  "security_change_prepare ad d p len chk w = Some (NVM_SUCCESS, w') \<Longrightarrow>
   sec_cmds w' = sec_cmds w @ unlock_cmds d p len \<and> w_events w' = w_events w"
  by (auto simp: security_change_prepare_def unlock_cmds_def bind_eq_Some_conv split: if_splits
      dest!: send_effect)

definition reads_op :: "(('hw, 'det) world \<Rightarrow> (int \<times> ('hw, 'det) world) option) \<Rightarrow> bool" where
  "reads_op f \<longleftrightarrow> (\<forall>w rc w'. f w = Some (rc, w') \<longrightarrow> only_reads w w')"

lemma reads_opD: "reads_op f \<Longrightarrow> f w = Some (rc, w') \<Longrightarrow> only_reads w w'"
  by (auto simp: reads_op_def)

lemma ready_device_success:
  assumes "ready_device capable ad g p len chk w = Some (rc, Some d, w')"
    and "reads_op (capable ad g)"
  shows "sec_cmds w' = sec_cmds w @ unlock_cmds d p len \<and> w_events w' = w_events w \<and> rc = NVM_SUCCESS \<and>
    (\<exists>w1. exists_and_manageable ad g True w = Some (NVM_SUCCESS, Some d, w1))"
proof -
  from assms(1) obtain w1 w2 where x: "exists_and_manageable ad g True w = Some (NVM_SUCCESS, Some d, w1)"
    "capable ad g w1 = Some (NVM_SUCCESS, w2)"
    "security_change_prepare ad d p len chk w2 = Some (NVM_SUCCESS, w')" "rc = NVM_SUCCESS"
    by (auto simp: ready_device_def bind_eq_Some_conv split: if_splits)
  from reads_sec_cmds [OF exists_reads [OF x(1)]] reads_sec_cmds [OF reads_opD [OF assms(2) x(2)]]
    prepare_success [OF x(3)] x show ?thesis by simp
qed

lemma ready_device_frozen:
  assumes "ready_device capable ad g p len chk w = Some (rc, r, w')"
    and "exists_and_manageable ad g True w = Some (NVM_SUCCESS, Some d, w1)"
    and "dev_lock_state d = LOCK_STATE_FROZEN"
    and "reads_op (capable ad g)"
  shows "r = None \<and> rc \<noteq> NVM_SUCCESS \<and> only_reads w w'"
  using assms(1-3) exists_reads [OF assms(2)]
  by (auto simp: ready_device_def bind_eq_Some_conv prepare_refuses split: if_splits
      dest!: reads_opD [OF assms(4)] intro: only_reads_trans)

lemma capable_both:
  "reads_op (check_passphrase_capable ad g)" "reads_op (check_unlock_device_capable ad g)"
  by (auto simp: reads_op_def check_passphrase_capable_def check_unlock_device_capable_def
      dest: capable_reads)

lemma on_ready_frozen:
  assumes "on_ready_device capable ad g p len chk body w = Some (rc, w')"
    and "exists_and_manageable ad g True w = Some (NVM_SUCCESS, Some d, w1)"
    and "dev_lock_state d = LOCK_STATE_FROZEN"
    and "reads_op (capable ad g)"
  shows "rc \<noteq> NVM_SUCCESS \<and> only_reads w w'"
proof -
  from assms(1) obtain rc0 r w0 where r: "ready_device capable ad g p len chk w = Some (rc0, r, w0)"
    by (auto simp: on_ready_device_def bind_eq_Some_conv)
  from ready_device_frozen [OF r assms(2-4)] r assms(1) show ?thesis
    by (auto simp: on_ready_device_def)
qed

lemma on_ready_success:
  assumes "on_ready_device capable ad g p len chk body w = Some (NVM_SUCCESS, w')"
    and "reads_op (capable ad g)"
  obtains d w0 w1 w2 where "exists_and_manageable ad g True w = Some (NVM_SUCCESS, Some d, w0)"
    "sec_cmds w1 = sec_cmds w @ unlock_cmds d p len" "w_events w1 = w_events w"
    "body d w1 = Some (NVM_SUCCESS, w2)" "sec_cmds w' = sec_cmds w2" "w_events w' = w_events w2"
proof -
  from assms(1) obtain rc0 r w1 where r: "ready_device capable ad g p len chk w = Some (rc0, r, w1)"
    by (auto simp: on_ready_device_def bind_eq_Some_conv)
  show thesis
  proof (cases r)
    case None
    have "rc0 \<noteq> NVM_SUCCESS"
      using r None by (auto simp: ready_device_def bind_eq_Some_conv split: if_splits)
    with None r assms(1) show thesis by (simp add: on_ready_device_def)
  next
    case (Some d)
    with r assms(1) obtain w2 where "body d w1 = Some (NVM_SUCCESS, w2)" "drop_device_cache ad w2 = Some w'"
      by (auto simp: on_ready_device_def bind_eq_Some_conv)
    note b = this
    note s = ready_device_success [OF r [unfolded Some] assms(2)]
    then obtain w0 where "exists_and_manageable ad g True w = Some (NVM_SUCCESS, Some d, w0)" by blast
    with s b drop_cache_effect [OF b(2)] show thesis by (intro that) auto
  qed
qed

lemma send_and_freeze_success:
  "send_and_freeze ad d (sec_cmd d s p) w = (NVM_SUCCESS, w') \<Longrightarrow>
   sec_cmds w' = sec_cmds w @ [sec_cmd d s p, sec_cmd d SUBOP_SEC_FREEZE_LOCK []] \<and>
   w_events w' = w_events w"
  by (auto simp: send_and_freeze_def freeze_security_def Let_def split: prod.splits if_splits
      dest!: send_effect)

lemma log_success_effect:
  "log_success code g r = (NVM_SUCCESS, w') \<Longrightarrow>
   \<exists>w. r = (NVM_SUCCESS, w) \<and> sec_cmds w' = sec_cmds w \<and>
     w_events w' = w_events w @ [\<lparr>ev_code = code, ev_guid = the g, ev_args = [guid_to_str g]\<rparr>]"
  by (cases r) (auto simp: log_success_def)

lemma frozen_refused:
  assumes g: "security_guard ad guid w = Some (NVM_SUCCESS, w0)"
    and x: "exists_and_manageable ad guid True w0 = Some (NVM_SUCCESS, Some d, w1)"
    and f: "dev_lock_state d = LOCK_STATE_FROZEN"
  shows "nvm_set_passphrase ad guid old ol new nl w = Some (rc, w') \<Longrightarrow>
      rc \<noteq> NVM_SUCCESS \<and> only_reads w w'"
    and "nvm_remove_passphrase ad guid p len w = Some (rc, w') \<Longrightarrow> rc \<noteq> NVM_SUCCESS \<and> only_reads w w'"
    and "nvm_unlock_device ad guid p len w = Some (rc, w') \<Longrightarrow> rc \<noteq> NVM_SUCCESS \<and> only_reads w w'"
    and "nvm_erase_device ad guid type p len w = Some (rc, w') \<Longrightarrow> rc \<noteq> NVM_SUCCESS \<and> only_reads w w'"
proof -
  note r = guard_reads [OF g]
  note rd = on_ready_frozen [OF _ x f capable_both(1)] on_ready_frozen [OF _ x f capable_both(2)]
  show "nvm_set_passphrase ad guid old ol new nl w = Some (rc, w') \<Longrightarrow> rc \<noteq> NVM_SUCCESS \<and> only_reads w w'"
    using g r by (auto simp: nvm_set_passphrase_def bind_eq_Some_conv Let_def split: if_splits
        dest!: rd(1) intro: only_reads_trans)
  show "nvm_remove_passphrase ad guid p len w = Some (rc, w') \<Longrightarrow> rc \<noteq> NVM_SUCCESS \<and> only_reads w w'"
    using g r by (auto simp: nvm_remove_passphrase_def bind_eq_Some_conv Let_def split: if_splits
        dest!: rd(1) intro: only_reads_trans)
  show "nvm_unlock_device ad guid p len w = Some (rc, w') \<Longrightarrow> rc \<noteq> NVM_SUCCESS \<and> only_reads w w'"
    using g r by (auto simp: nvm_unlock_device_def bind_eq_Some_conv Let_def split: if_splits
        dest!: rd(2) intro: only_reads_trans)
  have "erase_found ad d type p len w1 = Some (rc, w') \<Longrightarrow> rc \<noteq> NVM_SUCCESS \<and> w' = w1"
    using f by (auto simp: erase_found_def overwrite_crypto_change_prepare_def prepare_refuses Let_def
        split: if_splits)
  then show "nvm_erase_device ad guid type p len w = Some (rc, w') \<Longrightarrow> rc \<noteq> NVM_SUCCESS \<and> only_reads w w'"
    using g x only_reads_trans [OF r exists_reads [OF x]]
    by (auto simp: nvm_erase_device_def)
qed

lemma on_ready_logged:
  fixes w w' :: "('hw, 'det) world"
  assumes r: "on_ready_device capable ad (Some g) p len chk
      (\<lambda>d w. do { x \<leftarrow> pay; Some (log_success code (Some g) (act d x w)) }) w = Some (NVM_SUCCESS, w')"
    and "reads_op (capable ad (Some g))"
    and act: "\<And>d x w1 w2. act d x (w1 :: ('hw, 'det) world) = (NVM_SUCCESS, w2) \<Longrightarrow>
      sec_cmds w2 = sec_cmds w1 @ cmds d x \<and> w_events w2 = w_events w1"
  obtains d x w1 where "exists_and_manageable ad (Some g) True w = Some (NVM_SUCCESS, Some d, w1)"
    "pay = Some x" "sec_cmds w' = sec_cmds w @ unlock_cmds d p len @ cmds d x"
    "w_events w' = w_events w @ [\<lparr>ev_code = code, ev_guid = g, ev_args = [guid_to_str (Some g)]\<rparr>]"
proof -
  obtain d w1 and w2 :: "('hw, 'det) world" and w3 where
    d: "exists_and_manageable ad (Some g) True w = Some (NVM_SUCCESS, Some d, w1)"
      "sec_cmds w2 = sec_cmds w @ unlock_cmds d p len" "w_events w2 = w_events w"
    and b: "do { x \<leftarrow> pay; Some (log_success code (Some g) (act d x w2)) } = Some (NVM_SUCCESS, w3)"
    and d': "sec_cmds w' = sec_cmds w3" "w_events w' = w_events w3"
    by (rule on_ready_success [OF r assms(2)])
  from b obtain x where x: "pay = Some x" "log_success code (Some g) (act d x w2) = (NVM_SUCCESS, w3)"
    by (auto simp: bind_eq_Some_conv)
  from log_success_effect [OF x(2)] obtain w4 where w4: "act d x w2 = (NVM_SUCCESS, w4)"
    "sec_cmds w3 = sec_cmds w4"
    "w_events w3 = w_events w4 @ [\<lparr>ev_code = code, ev_guid = g, ev_args = [guid_to_str (Some g)]\<rparr>]"
    by auto
  show thesis by (rule that [OF d(1) x(1)]) (use act [OF w4(1)] w4 d d' in simp_all)
qed

lemma send_success:
  "send ad (sec_cmd d s p) w = (NVM_SUCCESS, w') \<Longrightarrow>
   sec_cmds w' = sec_cmds w @ [sec_cmd d s p] \<and> w_events w' = w_events w"
  using send_effect by fastforce

lemma busy_effect:
  assumes "send_while_busy ad cmds rc w = (rc', w')" "\<forall>c \<in> set cmds. cmd_opcode c = PT_SET_SEC_INFO"
  shows "\<exists>n \<le> length cmds. sec_cmds w' = sec_cmds w @ take n cmds \<and> w_events w' = w_events w \<and>
    w_ctx w' = w_ctx w \<and> (cmds \<noteq> [] \<longrightarrow> 0 < n)"
  using assms
proof (induction ad cmds rc w arbitrary: rc' w' rule: send_while_busy.induct)
  case (1 ad rc w)
  then show ?case by simp
next
  case (2 ad cmd cmds rc w)
  obtain r1 w1 where s: "send ad cmd w = (r1, w1)" by fastforce
  with 2(3) have e: "sec_cmds w1 = sec_cmds w @ [cmd]" "w_events w1 = w_events w" "w_ctx w1 = w_ctx w"
    using send_effect by fastforce+
  show ?case
  proof (cases "r1 = NVM_ERR_DEVICEBUSY")
    case True
    with 2(1) [OF s [symmetric] refl] 2(2,3) s obtain n where "n \<le> length cmds"
      "sec_cmds w' = sec_cmds w1 @ take n cmds" "w_events w' = w_events w1" "w_ctx w' = w_ctx w1"
      by auto
    with e show ?thesis by (intro exI [of _ "Suc n"]) simp
  next
    case False
    with 2(2) s e show ?thesis by (intro exI [of _ 1]) simp
  qed
qed

definition stays_on :: "device_discovery \<Rightarrow> nat \<Rightarrow> ('hw, 'det) world \<Rightarrow> ('hw, 'det) world \<Rightarrow> bool" where
  "stays_on d n w w' \<longleftrightarrow>
     (\<exists>cs. sec_cmds w' = sec_cmds w @ cs \<and> length cs \<le> n \<and>
       list_all (\<lambda>c. cmd_device_handle c = device_handle d) cs)"

lemma stays_on_trans: "stays_on d m w1 w2 \<Longrightarrow> stays_on d n w2 w3 \<Longrightarrow> stays_on d (m + n) w1 w3"
  unfolding stays_on_def by force

lemma stays_on_same: "sec_cmds w' = sec_cmds w \<Longrightarrow> stays_on d n w w'"
  by (simp add: stays_on_def)

lemma busy_stays_on:
  assumes "send_while_busy ad cmds rc w = (rc', w')" "length cmds \<le> 5"
    "\<forall>c \<in> set cmds. cmd_opcode c = PT_SET_SEC_INFO \<and> cmd_device_handle c = device_handle d"
  shows "stays_on d 5 w w'"
proof -
  from busy_effect [OF assms(1)] assms(3) obtain n where n: "sec_cmds w' = sec_cmds w @ take n cmds" by auto
  have "list_all (\<lambda>c. cmd_device_handle c = device_handle d) (take n cmds)"
    using assms(3) by (auto simp: list_all_iff dest: in_set_takeD)
  with n assms(2) show ?thesis by (auto simp: stays_on_def)
qed

lemma prepare_stays_on:
  "security_change_prepare ad d p len chk w = Some (rc, w') \<Longrightarrow> stays_on d 1 w w'"
  by (auto simp: security_change_prepare_def bind_eq_Some_conv stays_on_def split: if_splits
      dest!: send_effect)

lemma erase_parts_stay_on:
  "overwrite_dimm ad quick d w = (rc, w') \<Longrightarrow> stays_on d 5 w w'"
  "crypto_scramble_dimm ad d w = (rc, w') \<Longrightarrow> stays_on d 5 w w'"
  "secure_erase ad p len d w = Some (rc, w') \<Longrightarrow> stays_on d 5 w w'"
proof -
  have log: "stays_on d 5 w w'"
    if "send_while_busy ad cmds NVM_ERR_UNKNOWN w = (r, w1)" "sec_cmds w' = sec_cmds w1" "length cmds \<le> 5"
      "\<forall>c \<in> set cmds. cmd_opcode c = PT_SET_SEC_INFO \<and> cmd_device_handle c = device_handle d"
    for cmds r w1
    using busy_stays_on [OF that(1,3,4)] that(2) by (simp add: stays_on_def)
  show "stays_on d 5 w w'" if o: "overwrite_dimm ad quick d w = (rc, w')"
  proof -
    let ?cmds = "sec_cmd d SUBOP_OVERWRITE_DIMM (overwrite_payload quick) #
      replicate 4 (sec_cmd d SUBOP_OVERWRITE_DIMM (replicate 8 0))"
    obtain r w1 where b: "send_while_busy ad ?cmds NVM_ERR_UNKNOWN w = (r, w1)" by fastforce
    have "sec_cmds w' = sec_cmds w1"
      using o b by (auto simp: overwrite_dimm_def Let_def simp del: send_while_busy.simps split: if_splits)
    from log [OF b this] show ?thesis by auto
  qed
  show "stays_on d 5 w w'" if o: "crypto_scramble_dimm ad d w = (rc, w')"
  proof -
    let ?cmds = "replicate 5 (sec_cmd d SUBOP_CRYPTO_SCRAMBLE [])"
    obtain r w1 where b: "send_while_busy ad ?cmds NVM_ERR_UNKNOWN w = (r, w1)" by fastforce
    have "sec_cmds w' = sec_cmds w1"
      using o b by (auto simp: crypto_scramble_dimm_def Let_def simp del: send_while_busy.simps split: if_splits)
    from log [OF b this] show ?thesis by auto
  qed
  show "stays_on d 5 w w'" if o: "secure_erase ad p len d w = Some (rc, w')"
  proof -
    obtain q where q: "passphrase_payload p len = Some q"
      using o by (auto simp: secure_erase_def bind_eq_Some_conv)
    let ?cmds = "replicate 5 (sec_cmd d SUBOP_SEC_ERASE_UNIT q)"
    obtain r w1 where b: "send_while_busy ad ?cmds NVM_ERR_UNKNOWN w = (r, w1)" by fastforce
    have "sec_cmds w' = sec_cmds w1"
      using o b q by (auto simp: secure_erase_def Let_def simp del: send_while_busy.simps split: if_splits)
    from log [OF b this] show ?thesis by auto
  qed
qed

lemma drop_stays_on: "drop_device_cache ad w = Some w' \<Longrightarrow> stays_on d 0 w w'"
  by (auto simp: stays_on_def dest!: drop_cache_effect)

lemma erase_stays_on:
  assumes "erase_found ad d type p len w = Some (rc, w')"
  shows "stays_on d 6 w w'"
proof -
  have five: "stays_on d 6 w w'" if "stays_on d 5 w w1" "drop_device_cache ad w1 = Some w'" for w1
    using stays_on_trans [OF that(1) drop_stays_on [OF that(2)]] by (force simp: stays_on_def)
  have six: "stays_on d 6 w w'" if "stays_on d 1 w w0" "stays_on d 5 w0 w1" "drop_device_cache ad w1 = Some w'"
    for w0 w1
    using stays_on_trans [OF stays_on_trans [OF that(1,2)] drop_stays_on [OF that(3)]] by simp
  have one: "stays_on d 6 w w'" if "stays_on d 1 w w'"
    using that by (force simp: stays_on_def)
  show ?thesis
    using assms
    by (auto simp: erase_found_def Let_def bind_eq_Some_conv stays_on_same
        split: if_splits prod.splits dest: erase_parts_stay_on prepare_stays_on
        intro: five six one)
qed


section \<open>A device to try\<close>

definition sec_features :: nvm_features where
  "sec_features = no_features\<lparr>get_devices_feature := True, modify_device_security := True,
     modify_device_settings := True\<rparr>"

definition sec_ctx :: "device_discovery \<Rightarrow> nat nvm_context" where
  "sec_ctx d = fresh_context\<lparr>p_capabilities := Some (zero_capabilities\<lparr>nvm_features := sec_features\<rparr>),
     p_devices := Some [device_entry d], device_count := 1\<rparr>"

definition sec_world :: "device_discovery \<Rightarrow> (unit, nat) world" where
  "sec_world d = sample_world\<lparr>w_ctx := \<lparr>p_context = Some (sec_ctx d), lock_held = False\<rparr>\<rparr>"

abbreviation holds_device :: "device_discovery \<Rightarrow> (unit, nat) world \<Rightarrow> bool" where
  "holds_device d w \<equiv> p_context (w_ctx w) = Some (sec_ctx d)"

definition sec_device :: "lock_state \<Rightarrow> device_discovery" where
  "sec_device st = (sample_device 1)\<lparr>dev_lock_state := st\<rparr>"

lemma sec_device_simps [simp]:
  "dev_guid (sec_device st) = replicate GUID_LEN 1" "dev_lock_state (sec_device st) = st"
  "manageability (sec_device st) = MANAGEMENT_VALIDCONFIG"
  "passphrase_capable (dev_security_capabilities (sec_device st))"
  "unlock_device_capable (dev_security_capabilities (sec_device st))"
  by (simp_all add: sec_device_def sample_device_def)

lemma sec_world_holds: "holds_device d (sec_world d)"
  by (simp add: sec_world_def)

lemma sec_guard:
  assumes "holds_device d w"
  shows "\<exists>w'. security_guard sample_adapter (Some g) w = Some (NVM_SUCCESS, w') \<and> holds_device d w'"
proof -
  have c: "p_capabilities (sec_ctx d) = Some (zero_capabilities\<lparr>nvm_features := sec_features\<rparr>)"
    by (simp add: sec_ctx_def)
  from capabilities_cached [OF sample_sizes(1,2) assms c] show ?thesis
    using sample_sizes(2)
    by (simp add: security_guard_def is_nvm_feature_supported_def sec_features_def)
qed

lemma sec_lookup:
  assumes "holds_device d w" "dev_guid d = g" "length g = GUID_LEN"
  shows "\<exists>w'. lookup_dev_guid sample_adapter (Some g) w = Some (NVM_SUCCESS, Some d, w') \<and> holds_device d w'"
proof -
  have c: "cached (p_context (w_ctx w)) [d]"
    using copy_discovery_entries [of 1 "[d]"] assms(1) by (simp add: cached_def sec_ctx_def)
  from lookup_warm [OF sample_sizes(1,2) sample_driver_ok c, of g] assms show ?thesis by auto
qed

lemma sec_exists:
  assumes "holds_device (sec_device st) w"
  shows "\<exists>w'. exists_and_manageable sample_adapter (Some (replicate GUID_LEN 1)) True w =
    Some (NVM_SUCCESS, Some (sec_device st), w') \<and> holds_device (sec_device st) w'"
  using sec_lookup [OF assms] by (auto simp: exists_and_manageable_def)

lemma sec_capable:
  assumes "holds_device (sec_device st) w"
  shows "\<exists>w'. check_passphrase_capable sample_adapter (Some (replicate GUID_LEN 1)) w =
      Some (NVM_SUCCESS, w') \<and> holds_device (sec_device st) w'"
    and "\<exists>w'. check_unlock_device_capable sample_adapter (Some (replicate GUID_LEN 1)) w =
      Some (NVM_SUCCESS, w') \<and> holds_device (sec_device st) w'"
proof -
  let ?w = "w\<lparr>w_ctx := \<lparr>p_context = p_context (w_ctx w), lock_held = False\<rparr>\<rparr>"
  have h: "holds_device (sec_device st) ?w" using assms by simp
  from sec_lookup [OF h, of "replicate GUID_LEN 1"] obtain w' where
    "lookup_dev_guid sample_adapter (Some (replicate GUID_LEN 1)) ?w = Some (NVM_SUCCESS, Some (sec_device st), w')"
    "holds_device (sec_device st) w'" by auto
  then have d: "\<exists>w'. nvm_get_device_discovery sample_adapter (Some (replicate GUID_LEN 1)) True w =
      Some (NVM_SUCCESS, Some (sec_device st), w') \<and> holds_device (sec_device st) w'"
    using supported_fine [OF sample_sizes(1) sample_driver_ok, of w] sample_sizes(2)
    by (simp add: nvm_get_device_discovery_def)
  then show "\<exists>w'. check_passphrase_capable sample_adapter (Some (replicate GUID_LEN 1)) w =
      Some (NVM_SUCCESS, w') \<and> holds_device (sec_device st) w'"
    and "\<exists>w'. check_unlock_device_capable sample_adapter (Some (replicate GUID_LEN 1)) w =
      Some (NVM_SUCCESS, w') \<and> holds_device (sec_device st) w'"
    by (auto simp: check_passphrase_capable_def check_unlock_device_capable_def check_capable_def)
qed

lemma sample_send:
  "send sample_adapter cmd w = (NVM_SUCCESS, w\<lparr>w_hw := (), w_sent := w_sent w @ [cmd]\<rparr>)"
  by (simp add: send_def ioctl_passthrough_cmd_def sample_adapter_def)

lemma sample_drop: "\<exists>w'. drop_device_cache sample_adapter w = Some w'"
  by (auto simp: drop_device_cache_def invalidate_devices_def on_ctx_fine sample_sizes)

lemma sample_payload:
  "\<exists>q. passphrase_payload (Some [115, 101, 99, 114, 101, 116, 0]) 6 = Some q"
  "\<exists>q. set_passphrase_payload None 0 (Some [115, 101, 99, 114, 101, 116, 0]) 6 = Some q"
proof -
  have "s_strncpy (Some (replicate 32 0)) 32 (Some [115, 101, 99, 114, 101, 116, 0]) 6 \<noteq> None"
    using s_strncpy_ok [of 32 "replicate 32 0" "[115, 101, 99, 114, 101, 116, 0]" 6]
    by (auto simp: readable_def cstr_def)
  then have "\<exists>q. passphrase_field (Some [115, 101, 99, 114, 101, 116, 0]) 6 = Some q"
    using s_strncpy_ok [of 32 "replicate 32 0" "[115, 101, 99, 114, 101, 116, 0]" 6]
    by (auto simp: passphrase_field_def readable_def cstr_def)
  then show "\<exists>q. passphrase_payload (Some [115, 101, 99, 114, 101, 116, 0]) 6 = Some q"
    "\<exists>q. set_passphrase_payload None 0 (Some [115, 101, 99, 114, 101, 116, 0]) 6 = Some q"
    by (auto simp: passphrase_payload_def set_passphrase_payload_def)
qed

lemma sample_passphrase_ok [simp]: "check_passphrase (Some [115, 101, 99, 114, 101, 116, 0]) 6 = NVM_SUCCESS"
  by (simp add: check_passphrase_def)

lemma sec_world_start [simp]: "sec_cmds (sec_world d) = []" "w_events (sec_world d) = []"
  by (simp_all add: sec_world_def sample_world_def sec_cmds_def)

lemma sec_run:
  obtains w0 w1 where
    "security_guard sample_adapter (Some (replicate GUID_LEN 1)) (sec_world (sec_device st)) =
       Some (NVM_SUCCESS, w0)"
    "holds_device (sec_device st) w0"
    "exists_and_manageable sample_adapter (Some (replicate GUID_LEN 1)) True w0 =
       Some (NVM_SUCCESS, Some (sec_device st), w1)"
    "holds_device (sec_device st) w1"
proof -
  from sec_guard [OF sec_world_holds, of "replicate GUID_LEN 1"] obtain w0 where
    g: "security_guard sample_adapter (Some (replicate GUID_LEN 1)) (sec_world (sec_device st)) =
       Some (NVM_SUCCESS, w0)" "holds_device (sec_device st) w0" by blast
  from sec_exists [OF g(2)] g show thesis by (blast intro: that)
qed

definition busy_adapter :: "unit adapter" where
  "busy_adapter = sample_adapter\<lparr>passthrough := \<lambda>cmd h. (NVM_ERR_DEVICEBUSY, [], [], h)\<rparr>"

lemma busy_send:
  "send busy_adapter cmd w = (NVM_ERR_DEVICEBUSY, w\<lparr>w_hw := (), w_sent := w_sent w @ [cmd]\<rparr>)"
  by (simp add: send_def ioctl_passthrough_cmd_def busy_adapter_def)

section \<open>Properties\<close>

text \<open>C1. Nothing is done to a frozen device: whatever security operation is called on it, with
  whatever arguments, it fails, sends no security command and stores no event.\<close>

theorem frozen_device_untouched:
  assumes "security_guard ad guid w = Some (NVM_SUCCESS, w0)"
    and "exists_and_manageable ad guid True w0 = Some (NVM_SUCCESS, Some d, w1)"
    and "dev_lock_state d = LOCK_STATE_FROZEN"
    and "nvm_set_passphrase ad guid old ol new nl w = Some (rc, w') \<or>
      nvm_remove_passphrase ad guid p len w = Some (rc, w') \<or>
      nvm_unlock_device ad guid p len w = Some (rc, w') \<or>
      nvm_erase_device ad guid type p len w = Some (rc, w')"
  shows "rc \<noteq> NVM_SUCCESS \<and> sec_cmds w' = sec_cmds w \<and> w_events w' = w_events w"
proof -
  have "rc \<noteq> NVM_SUCCESS \<and> only_reads w w'"
    using assms(4) frozen_refused [OF assms(1-3)] by blast
  with reads_sec_cmds show ?thesis by blast
qed

theorem frozen_device_untouched_witness:
  "\<exists>rc w'. nvm_erase_device sample_adapter (Some (replicate GUID_LEN 1)) ERASE_TYPE_CRYPTO None 0
     (sec_world (sec_device LOCK_STATE_FROZEN)) = Some (rc, w') \<and> rc \<noteq> NVM_SUCCESS \<and>
   sec_cmds w' = sec_cmds (sec_world (sec_device LOCK_STATE_FROZEN)) \<and> w_events w' = []"
proof -
  obtain w0 w1 where
    g: "security_guard sample_adapter (Some (replicate GUID_LEN 1)) (sec_world (sec_device LOCK_STATE_FROZEN)) =
       Some (NVM_SUCCESS, w0)"
    and x: "exists_and_manageable sample_adapter (Some (replicate GUID_LEN 1)) True w0 =
       Some (NVM_SUCCESS, Some (sec_device LOCK_STATE_FROZEN), w1)" by (rule sec_run)
  have r: "nvm_erase_device sample_adapter (Some (replicate GUID_LEN 1)) ERASE_TYPE_CRYPTO None 0
     (sec_world (sec_device LOCK_STATE_FROZEN)) = Some (NVM_ERR_SECURITYFROZEN, w1)"
    using g x by (simp add: nvm_erase_device_def erase_found_def security_change_prepare_def)
  from frozen_device_untouched [OF g x, where p = None and len = 0 and type = ERASE_TYPE_CRYPTO
    and rc = NVM_ERR_SECURITYFROZEN and w' = w1] r
  show ?thesis by (simp add: sec_world_def sample_world_def)
qed

text \<open>C2. A successful \<^verbatim>\<open>nvm_set_passphrase\<close> sends exactly: an unlock with the old
  passphrase when the device is locked, then the new passphrase, then the freeze; all to the device
  with the GUID, and it stores one event.\<close>

theorem set_passphrase_commands:
  assumes "nvm_set_passphrase ad (Some g) old ol new nl w = Some (NVM_SUCCESS, w')"
  shows "\<exists>d p w0 w1. security_guard ad (Some g) w = Some (NVM_SUCCESS, w0) \<and>
    exists_and_manageable ad (Some g) True w0 = Some (NVM_SUCCESS, Some d, w1) \<and>
    set_passphrase_payload old ol new nl = Some p \<and>
    sec_cmds w' = sec_cmds w @ unlock_cmds d old ol @
      [sec_cmd d SUBOP_SET_PASS p, sec_cmd d SUBOP_SEC_FREEZE_LOCK []] \<and>
    w_events w' = w_events w @
      [\<lparr>ev_code = EVENT_CODE_MGMT_SECURITY_PASSWORD_SET, ev_guid = g, ev_args = [guid_to_str (Some g)]\<rparr>]"
proof -
  from assms obtain w0 where g: "security_guard ad (Some g) w = Some (NVM_SUCCESS, w0)"
    and r: "on_ready_device check_passphrase_capable ad (Some g) old ol False (\<lambda>d w. do {
       p \<leftarrow> set_passphrase_payload old ol new nl;
       Some (log_success EVENT_CODE_MGMT_SECURITY_PASSWORD_SET (Some g)
         (send_and_freeze ad d (sec_cmd d SUBOP_SET_PASS p) w))
     }) w0 = Some (NVM_SUCCESS, w')"
    by (auto simp: nvm_set_passphrase_def bind_eq_Some_conv Let_def split: if_splits)
  show ?thesis
    using g reads_sec_cmds [OF guard_reads [OF g]]
    by (rule_tac on_ready_logged [OF r capable_both(1) send_and_freeze_success]) auto
qed

theorem set_passphrase_commands_witness:
  "\<exists>w'. nvm_set_passphrase sample_adapter (Some (replicate GUID_LEN 1)) None 0 (Some [115, 101, 99, 114, 101, 116, 0]) 6
     (sec_world (sec_device LOCK_STATE_DISABLED)) = Some (NVM_SUCCESS, w') \<and>
   map cmd_sub_opcode (sec_cmds w') = [SUBOP_SET_PASS, SUBOP_SEC_FREEZE_LOCK] \<and> length (w_events w') = 1"
proof -
  obtain w0 w1 where
    g: "security_guard sample_adapter (Some (replicate GUID_LEN 1)) (sec_world (sec_device LOCK_STATE_DISABLED)) =
       Some (NVM_SUCCESS, w0)"
    and x: "exists_and_manageable sample_adapter (Some (replicate GUID_LEN 1)) True w0 =
       Some (NVM_SUCCESS, Some (sec_device LOCK_STATE_DISABLED), w1)"
    and h: "holds_device (sec_device LOCK_STATE_DISABLED) w1" by (rule sec_run)
  from sec_capable(1) [OF h] obtain w2 where
    c: "check_passphrase_capable sample_adapter (Some (replicate GUID_LEN 1)) w1 = Some (NVM_SUCCESS, w2)"
    by blast
  from sample_payload(2) obtain q where
    q: "set_passphrase_payload None 0 (Some [115, 101, 99, 114, 101, 116, 0]) 6 = Some q" by blast
  obtain w' where r: "nvm_set_passphrase sample_adapter (Some (replicate GUID_LEN 1)) None 0 (Some [115, 101, 99, 114, 101, 116, 0]) 6
     (sec_world (sec_device LOCK_STATE_DISABLED)) = Some (NVM_SUCCESS, w')"
    using g x c q sample_drop
    by (auto simp: nvm_set_passphrase_def on_ready_device_def ready_device_def security_change_prepare_def
      send_and_freeze_def freeze_security_def sample_send log_success_def Let_def bind_eq_Some_conv
      split: prod.splits)
  from set_passphrase_commands [OF r] g x q show ?thesis
    by (intro exI [of _ "w'"])
      (auto simp: r
        sec_world_start sec_cmd_def fw_cmd_for_def unlock_cmds_def)
qed

text \<open>A successful \<^verbatim>\<open>nvm_unlock_device\<close> ends with the freeze, directly after an
  unlock command with the given passphrase; a locked device gets that command twice.\<close>

theorem unlock_commands:
  assumes "nvm_unlock_device ad (Some g) pass len w = Some (NVM_SUCCESS, w')"
  shows "\<exists>d p w0 w1. security_guard ad (Some g) w = Some (NVM_SUCCESS, w0) \<and>
    exists_and_manageable ad (Some g) True w0 = Some (NVM_SUCCESS, Some d, w1) \<and>
    passphrase_payload pass len = Some p \<and>
    sec_cmds w' = sec_cmds w @
      (if dev_lock_state d = LOCK_STATE_LOCKED then [sec_cmd d SUBOP_UNLOCK_UNIT p] else []) @
      [sec_cmd d SUBOP_UNLOCK_UNIT p, sec_cmd d SUBOP_SEC_FREEZE_LOCK []]"
proof -
  from assms obtain w0 where g: "security_guard ad (Some g) w = Some (NVM_SUCCESS, w0)"
    and r: "on_ready_device check_unlock_device_capable ad (Some g) pass len True (\<lambda>d w. do {
       p \<leftarrow> passphrase_payload pass len;
       Some (log_success EVENT_CODE_MGMT_SECURITY_UNLOCK (Some g)
         (send_and_freeze ad d (sec_cmd d SUBOP_UNLOCK_UNIT p) w))
     }) w0 = Some (NVM_SUCCESS, w')"
    by (auto simp: nvm_unlock_device_def bind_eq_Some_conv Let_def split: if_splits)
  show ?thesis
    using g reads_sec_cmds [OF guard_reads [OF g]]
    by (rule_tac on_ready_logged [OF r capable_both(2) send_and_freeze_success])
      (auto simp: unlock_cmds_def)
qed

theorem unlock_commands_witness:
  "\<exists>w'. nvm_unlock_device sample_adapter (Some (replicate GUID_LEN 1)) (Some [115, 101, 99, 114, 101, 116, 0]) 6
     (sec_world (sec_device LOCK_STATE_LOCKED)) = Some (NVM_SUCCESS, w') \<and>
   map cmd_sub_opcode (sec_cmds w') = [SUBOP_UNLOCK_UNIT, SUBOP_UNLOCK_UNIT, SUBOP_SEC_FREEZE_LOCK]"
proof -
  obtain w0 w1 where
    g: "security_guard sample_adapter (Some (replicate GUID_LEN 1)) (sec_world (sec_device LOCK_STATE_LOCKED)) =
       Some (NVM_SUCCESS, w0)"
    and x: "exists_and_manageable sample_adapter (Some (replicate GUID_LEN 1)) True w0 =
       Some (NVM_SUCCESS, Some (sec_device LOCK_STATE_LOCKED), w1)"
    and h: "holds_device (sec_device LOCK_STATE_LOCKED) w1" by (rule sec_run)
  from sec_capable(2) [OF h] obtain w2 where
    c: "check_unlock_device_capable sample_adapter (Some (replicate GUID_LEN 1)) w1 = Some (NVM_SUCCESS, w2)"
    by blast
  from sample_payload(1) obtain q where
    q: "passphrase_payload (Some [115, 101, 99, 114, 101, 116, 0]) 6 = Some q" by blast
  obtain w' where r: "nvm_unlock_device sample_adapter (Some (replicate GUID_LEN 1)) (Some [115, 101, 99, 114, 101, 116, 0]) 6
     (sec_world (sec_device LOCK_STATE_LOCKED)) = Some (NVM_SUCCESS, w')"
    using g x c q sample_drop
    by (auto simp: nvm_unlock_device_def on_ready_device_def ready_device_def security_change_prepare_def
      send_and_freeze_def freeze_security_def sample_send log_success_def Let_def bind_eq_Some_conv
      split: prod.splits)
  from unlock_commands [OF r] g x q show ?thesis
    by (intro exI [of _ "w'"])
      (auto simp: r
        sec_world_start sec_cmd_def fw_cmd_for_def unlock_cmds_def)
qed

text \<open>A passphrase of the full 32 characters the checks allow reaches the device without its
  last character: the payload is that of its first 31.\<close>

theorem passphrase_truncated:
  assumes "length p = 32" "0 \<notin> set p"
  shows "check_passphrase (Some p) 32 = NVM_SUCCESS \<and>
    passphrase_payload (Some p) 32 = passphrase_payload (Some (take 31 p)) 31 \<and>
    passphrase_payload (Some p) 32 = Some (take 31 p @ replicate 97 0)"
proof -
  have f: "passphrase_field (Some q) n = Some (take 31 p @ [0])"
    if "n \<le> 32" "31 \<le> n" "take 31 q = take 31 p" "length q \<le> 32" "31 \<le> length q" "0 \<notin> set q" for q n
  proof -
    have "cstr q = q" using that(6) by (auto simp: cstr_def takeWhile_eq_all_conv)
    then have "copy_until 31 q = Some (take 31 p)"
      using that by (simp add: copy_until_cstr)
    then show ?thesis
      using assms(1) that(2) by (simp add: passphrase_field_def s_strncpy_def store_def)
  qed
  have "(97::nat) = Suc 96" by simp
  then have z: "replicate 97 (0::u8) = 0 # replicate 96 0" by (simp only: replicate_Suc)
  have "0 \<notin> set (take 31 p)" using assms(2) by (auto dest: in_set_takeD)
  with f [of 32 p] f [of 31 "take 31 p"] assms show ?thesis
    by (simp add: check_passphrase_def passphrase_payload_def z)
qed

theorem passphrase_truncated_witness:
  "passphrase_payload (Some (replicate 31 65 @ [66])) 32 = passphrase_payload (Some (replicate 31 65)) 31"
  using passphrase_truncated [of "replicate 31 65 @ [66]"] by simp

text \<open>An overwrite that is retried does not overwrite: when the device is busy at the first
  attempt, the next command asks for zero passes.\<close>

theorem overwrite_retry_is_empty:
  assumes "send ad (sec_cmd d SUBOP_OVERWRITE_DIMM (overwrite_payload quick)) w = (NVM_ERR_DEVICEBUSY, w1)"
    and "overwrite_dimm ad quick d w = (rc, w')"
  shows "\<exists>n. sec_cmds w' = sec_cmds w @ sec_cmd d SUBOP_OVERWRITE_DIMM (overwrite_payload quick) #
    replicate (Suc n) (sec_cmd d SUBOP_OVERWRITE_DIMM (replicate 8 0)) \<and> n < 4"
proof -
  let ?f = "sec_cmd d SUBOP_OVERWRITE_DIMM (overwrite_payload quick)"
  let ?z = "sec_cmd d SUBOP_OVERWRITE_DIMM (replicate 8 0)"
  obtain r w2 where b: "send_while_busy ad (replicate 4 ?z) NVM_ERR_DEVICEBUSY w1 = (r, w2)" by fastforce
  have "send_while_busy ad (?f # replicate 4 ?z) NVM_ERR_UNKNOWN w = (r, w2)"
    using assms(1) b by simp
  then have "sec_cmds w' = sec_cmds w2"
    using assms(2) by (auto simp: overwrite_dimm_def Let_def split: if_splits)
  moreover obtain n where "n \<le> 4" "0 < n" "sec_cmds w2 = sec_cmds w1 @ replicate n ?z"
    using busy_effect [OF b] by (auto simp: take_replicate min_def split: if_splits)
  moreover have "sec_cmds w1 = sec_cmds w @ [?f]" using send_effect [OF assms(1)] by simp
  ultimately show ?thesis by (intro exI [of _ "n - 1"]) auto
qed

theorem overwrite_retry_is_empty_witness:
  "\<exists>n w'. overwrite_dimm busy_adapter False (sec_device LOCK_STATE_DISABLED) sample_world =
     (NVM_ERR_DEVICEBUSY, w') \<and> sec_cmds w' =
       sec_cmd (sec_device LOCK_STATE_DISABLED) SUBOP_OVERWRITE_DIMM (overwrite_payload False) #
       replicate (Suc n) (sec_cmd (sec_device LOCK_STATE_DISABLED) SUBOP_OVERWRITE_DIMM (replicate 8 0))"
proof -
  let ?d = "sec_device LOCK_STATE_DISABLED"
  obtain w1 where s: "send busy_adapter (sec_cmd ?d SUBOP_OVERWRITE_DIMM (overwrite_payload False)) sample_world =
      (NVM_ERR_DEVICEBUSY, w1)" by (simp add: busy_send)
  obtain w' where r: "overwrite_dimm busy_adapter False ?d sample_world = (NVM_ERR_DEVICEBUSY, w')"
    by (simp add: overwrite_dimm_def busy_send numeral_eq_Suc Let_def)
  from overwrite_retry_is_empty [OF s r] r show ?thesis by (auto simp: sec_cmds_def sample_world_def)
qed

text \<open>An erase is bounded and stays on its device: after the guards and the lookup, whatever the
  type, the operation sends at most one unlock and five erase commands, all to the device found,
  and none when the device does not support the erase.\<close>

theorem erase_bounded:
  assumes "erase_found ad d type pass len w = Some (rc, w')"
  shows "\<exists>cs. sec_cmds w' = sec_cmds w @ cs \<and> length cs \<le> 6 \<and>
    list_all (\<lambda>c. cmd_device_handle c = device_handle d) cs \<and>
    (\<not> device_is_erase_capable (dev_security_capabilities d) \<and>
     \<not> passphrase_capable (dev_security_capabilities d) \<longrightarrow> cs = [] \<and> rc \<noteq> NVM_SUCCESS)"
proof -
  have "\<not> device_is_erase_capable (dev_security_capabilities d) \<Longrightarrow>
      \<not> passphrase_capable (dev_security_capabilities d) \<Longrightarrow> w' = w \<and> rc \<noteq> NVM_SUCCESS"
    using assms by (auto simp: erase_found_def device_is_erase_capable_def Let_def split: if_splits)
  note none = this
  from erase_stays_on [OF assms] obtain cs where cs: "sec_cmds w' = sec_cmds w @ cs" "length cs \<le> 6"
    "list_all (\<lambda>c. cmd_device_handle c = device_handle d) cs" by (auto simp: stays_on_def)
  have "cs = []" if "w' = w" using cs(1) that by simp
  with none cs show ?thesis by blast
qed

theorem erase_bounded_witness:
  "\<exists>w' cs. erase_found sample_adapter (sec_device LOCK_STATE_LOCKED) ERASE_TYPE_CRYPTO
       (Some [115, 101, 99, 114, 101, 116, 0]) 6 sample_world = Some (NVM_SUCCESS, w') \<and>
     sec_cmds w' = sec_cmds sample_world @ cs \<and> length cs \<le> 6"
proof -
  from sample_payload(1) obtain q where
    q: "passphrase_payload (Some [115, 101, 99, 114, 101, 116, 0]) 6 = Some q" by blast
  obtain w' where "erase_found sample_adapter (sec_device LOCK_STATE_LOCKED) ERASE_TYPE_CRYPTO
       (Some [115, 101, 99, 114, 101, 116, 0]) 6 sample_world = Some (NVM_SUCCESS, w')"
    using q sample_drop
    by (auto simp: erase_found_def security_change_prepare_def secure_erase_def sample_send
      numeral_eq_Suc bind_eq_Some_conv)
  with erase_bounded [OF this] show ?thesis by blast
qed

end
