(* ===== verification/ConfigGoal.thy ===== *)
theory ConfigGoal
  imports Capacity Security
begin

text \<open>
  Configuration goals (\<^verbatim>\<open>src/lib/config_goal.c\<close>): validating what a caller asks for, turning it
  into the input table for the BIOS, writing it beside the existing tables, reading it back and
  deleting it.
\<close>

abbreviation (input) NVM_ERR_BADSIZE :: int where "NVM_ERR_BADSIZE \<equiv> - 24"
abbreviation (input) NVM_ERR_BADALIGNMENT :: int where "NVM_ERR_BADALIGNMENT \<equiv> - 36"
abbreviation (input) NVM_ERR_CONFIGNOTSUPPORTED :: int where "NVM_ERR_CONFIGNOTSUPPORTED \<equiv> - 44"
abbreviation (input) NVM_ERR_NAMESPACESEXIST :: int where "NVM_ERR_NAMESPACESEXIST \<equiv> - 32"
abbreviation (input) NVM_MAX_INTERLEAVE_SETS_PER_DIMM :: nat where "NVM_MAX_INTERLEAVE_SETS_PER_DIMM \<equiv> 2"

text \<open>The flag value of a size: all that is left.\<close>

abbreviation (input) ALL_REMAINING :: u64 where "ALL_REMAINING \<equiv> - 1"

section \<open>Validation\<close>

definition validate_size_alignment :: "u64 \<Rightarrow> u64 \<Rightarrow> int option" where
  "validate_size_alignment size_gb alignment =
     (if size_gb \<noteq> ALL_REMAINING \<and> size_gb \<noteq> 0 then
        if alignment = 0 then None
        else Some (if (size_gb * BYTES_PER_GB) mod alignment \<noteq> 0 then NVM_ERR_BADALIGNMENT else NVM_SUCCESS)
      else Some NVM_SUCCESS)"

text \<open>\<open>1 << n\<close> is a shift of a 32-bit signed integer, undefined from 31 on.\<close>

definition shifted_one :: "u8 \<Rightarrow> u64 option" where
  "shifted_one n = (if n < 31 then Some (push_bit (unat n) 1) else None)"

fun validate_sizes_alignment :: "u64 list \<Rightarrow> u64 \<Rightarrow> nat \<Rightarrow> int option" where
  "validate_sizes_alignment sizes alignment 0 = Some NVM_SUCCESS"
| "validate_sizes_alignment [] alignment (Suc n) = None"
| "validate_sizes_alignment (s # sizes) alignment (Suc n) = do {
     rc \<leftarrow> validate_size_alignment s alignment;
     if rc = NVM_SUCCESS then validate_sizes_alignment sizes alignment n else Some rc
   }"

definition goal_sizes :: "config_goal \<Rightarrow> u64 list" where
  "goal_sizes goal = [app_direct_1_size goal, app_direct_2_size goal]"

definition validate_config_goal_alignment :: "config_goal \<Rightarrow> nvm_capabilities \<Rightarrow> int option" where
  "validate_config_goal_alignment goal caps =
     (let mem_exp = ucast (interleave_alignment_size (pc_memory_mode (platform_capabilities caps))) :: u8;
          ad_exp = ucast (interleave_alignment_size (pc_app_direct_mode (platform_capabilities caps))) :: u8
      in if mem_exp < 64 \<and> ad_exp < 64 then do {
           mem_al \<leftarrow> shifted_one mem_exp;
           ad_al \<leftarrow> shifted_one ad_exp;
           rc \<leftarrow> validate_size_alignment (memory_size goal) mem_al;
           if rc = NVM_SUCCESS
           then validate_sizes_alignment (goal_sizes goal) ad_al (unat (app_direct_count goal))
           else Some rc
         } else Some NVM_ERR_UNKNOWN)"

definition get_size_from_capacity :: "u64 \<Rightarrow> u64 \<Rightarrow> bool \<Rightarrow> u64" where
  "get_size_from_capacity size_gb remaining mirr =
     (if size_gb = ALL_REMAINING then
        let sz = remaining div BYTES_PER_GB in if mirr then sz div 2 else sz
      else size_gb)"

text \<open>The code and the capacity that remains.\<close>

definition validate_interleave_set_size :: "u64 \<Rightarrow> u64 \<Rightarrow> bool \<Rightarrow> int \<times> u64" where
  "validate_interleave_set_size size_gb remaining mirr =
     (let actual = get_size_from_capacity size_gb remaining mirr;
          actual = (if mirr then actual * 2 else actual)
      in if actual > MAX_UINT64_GB then (NVM_ERR_BADSIZE, remaining)
         else
           let sz = actual * BYTES_PER_GB in
           if sz > remaining then (NVM_ERR_BADSIZE, remaining) else (NVM_SUCCESS, remaining - sz))"

fun validate_set_sizes :: "(u64 \<times> bool) list \<Rightarrow> nat \<Rightarrow> u64 \<Rightarrow> int option" where
  "validate_set_sizes sizes 0 remaining = Some NVM_SUCCESS"
| "validate_set_sizes [] (Suc n) remaining = None"
| "validate_set_sizes ((s, mirr) # sizes) (Suc n) remaining =
     (if s = 0 then Some NVM_ERR_BADSIZE
      else
        let (rc, remaining) = validate_interleave_set_size s remaining mirr in
        if rc = NVM_SUCCESS then validate_set_sizes sizes n remaining else Some rc)"

definition goal_sets :: "config_goal \<Rightarrow> (u64 \<times> bool) list" where
  "goal_sets goal =
     [(app_direct_1_size goal, mirrored (app_direct_1_settings goal) \<noteq> 0),
      (app_direct_2_size goal, mirrored (app_direct_2_settings goal) \<noteq> 0)]"

definition validate_config_goal_size :: "config_goal \<Rightarrow> device_discovery \<Rightarrow> int option" where
  "validate_config_goal_size goal d =
     (let (rc, remaining) =
        validate_interleave_set_size (memory_size goal) (usable_capacity_bytes (dev_capacity d)) False in
      if rc = NVM_SUCCESS then validate_set_sizes (goal_sets goal) (unat (app_direct_count goal)) remaining
      else Some rc)"

definition get_number_of_mirrored_app_direct_interleave_sets :: "config_goal \<Rightarrow> u32" where
  "get_number_of_mirrored_app_direct_interleave_sets goal =
     (if app_direct_count goal > 0 \<and> mirrored (app_direct_1_settings goal) \<noteq> 0 then 1 else 0) +
     (if app_direct_count goal > 1 \<and> mirrored (app_direct_2_settings goal) \<noteq> 0 then 1 else 0)"

definition current_volatile_mode_is_supported :: "volatile_mode \<Rightarrow> bool" where
  "current_volatile_mode_is_supported m \<longleftrightarrow> m = VOLATILE_MODE_MEMORY \<or> m = VOLATILE_MODE_AUTO"

definition memory_capacity_is_requested_but_not_supported :: "u64 \<Rightarrow> volatile_mode \<Rightarrow> bool \<Rightarrow> bool" where
  "memory_capacity_is_requested_but_not_supported sz m capable \<longleftrightarrow>
     sz > 0 \<and> (\<not> current_volatile_mode_is_supported m \<or> \<not> capable)"

definition app_direct_capacity_is_requested_but_not_supported ::
  "u16 \<Rightarrow> app_direct_mode \<Rightarrow> bool \<Rightarrow> bool" where
  "app_direct_capacity_is_requested_but_not_supported n m capable \<longleftrightarrow>
     n > 0 \<and> (m \<noteq> APP_DIRECT_MODE_ENABLED \<or> \<not> capable)"

definition goal_support :: "config_goal \<Rightarrow> nvm_capabilities \<Rightarrow> device_discovery \<Rightarrow> int" where
  "goal_support goal caps d =
     (if memory_capacity_is_requested_but_not_supported (memory_size goal)
           (current_volatile_mode (platform_capabilities caps))
           (memory_mode_capable (dev_capabilities d))
      then NVM_ERR_CONFIGNOTSUPPORTED
      else if app_direct_capacity_is_requested_but_not_supported (app_direct_count goal)
           (current_app_direct_mode (platform_capabilities caps))
           (app_direct_mode_capable (dev_capabilities d))
      then NVM_ERR_CONFIGNOTSUPPORTED
      else
        let n = get_number_of_mirrored_app_direct_interleave_sets goal in
        if n > 0 \<and> \<not> memory_mirror_supported (platform_capabilities caps) then NVM_ERR_CONFIGNOTSUPPORTED
        else if n > 1 then NVM_ERR_BADDEVICECONFIG
        else NVM_SUCCESS)"

definition validate_config_goal_supported ::
  "config_goal \<Rightarrow> nvm_capabilities \<Rightarrow> device_discovery \<Rightarrow> ('hw, 'det) world \<Rightarrow> int \<times> ('hw, 'det) world" where
  "validate_config_goal_supported goal caps d w =
     (let rc = goal_support goal caps d in
      (rc, if rc = NVM_ERR_CONFIGNOTSUPPORTED
           then log_mgmt_event EVENT_CODE_CONFIG_GOAL_SKU_VIOLATION (dev_guid d) [guid_to_str (Some (dev_guid d))] w
           else w))"

definition validate_config_goal ::
  "config_goal \<Rightarrow> nvm_capabilities \<Rightarrow> device_discovery \<Rightarrow> ('hw, 'det) world \<Rightarrow>
   (int \<times> ('hw, 'det) world) option" where
  "validate_config_goal goal caps d w =
     (if unat (app_direct_count goal) > NVM_MAX_INTERLEAVE_SETS_PER_DIMM then Some (NVM_ERR_BADDEVICECONFIG, w)
      else
        let (rc, w) = validate_config_goal_supported goal caps d w in
        if rc \<noteq> NVM_SUCCESS then Some (rc, w)
        else do {
          rc \<leftarrow> validate_config_goal_size goal d;
          if rc \<noteq> NVM_SUCCESS then Some (rc, w)
          else do { rc \<leftarrow> validate_config_goal_alignment goal caps; Some (rc, w) }
        })"


section \<open>The input table of a goal\<close>

definition pm_partition_size :: "config_goal \<Rightarrow> device_discovery \<Rightarrow> u64" where
  "pm_partition_size goal d =
     (let overall = usable_capacity_bytes (dev_capacity d) in
      if memory_size goal \<noteq> ALL_REMAINING
      then overall - get_size_from_capacity (memory_size goal) overall False * BYTES_PER_GB
      else 0)"

definition config_goal_to_partition_ext_table :: "config_goal \<Rightarrow> device_discovery \<Rightarrow> bytes" where
  "config_goal_to_partition_ext_table goal d = encode_ext (Partition_change 0 (pm_partition_size goal d))"

definition goal_dimm :: "u64 \<Rightarrow> u64 \<Rightarrow> device_discovery \<Rightarrow> dimm_info_extension_table option" where
  "goal_dimm set_size set_offset d = do {
     mf \<leftarrow> rd_bytes (manufacturer d) 0 2;
     sn \<leftarrow> rd_bytes (serial_number d) 0 4;
     mn \<leftarrow> rd_bytes (model_number d) 0 20;
     Some \<lparr>di_manufacturer = mf, di_serial_number = sn, di_model_number = mn,
           di_offset = set_offset * BYTES_PER_GB, di_size = set_size * BYTES_PER_GB\<rparr>
   }"

text \<open>The entries of the set, up to the first device that cannot be used.\<close>

fun goal_dimms ::
  "'hw adapter \<Rightarrow> guid list \<Rightarrow> nat \<Rightarrow> u64 \<Rightarrow> u64 \<Rightarrow> ('hw, 'det) world \<Rightarrow>
   (int \<times> dimm_info_extension_table list \<times> ('hw, 'det) world) option" where
  "goal_dimms ad gs 0 set_size set_offset w = Some (NVM_SUCCESS, [], w)"
| "goal_dimms ad [] (Suc n) set_size set_offset w = None"
| "goal_dimms ad (g # gs) (Suc n) set_size set_offset w = do {
     (rc, d, w) \<leftarrow> exists_and_manageable ad (Some g) True w;
     if rc \<noteq> NVM_SUCCESS then Some (rc, [], w)
     else do {
       d \<leftarrow> d;
       e \<leftarrow> goal_dimm set_size set_offset d;
       (rc, es, w) \<leftarrow> goal_dimms ad gs n set_size set_offset w;
       Some (rc, e # es, w)
     }
   }"

text \<open>The callers pass a pointer to a null pointer and set the memory type. The table is used only on
  success.\<close>

definition config_goal_to_interleave_ext_table ::
  "'hw adapter \<Rightarrow> app_direct_attributes \<Rightarrow> u64 \<Rightarrow> u64 \<Rightarrow> u16 \<Rightarrow> ('hw, 'det) world \<Rightarrow>
   (int \<times> interleave_info_extension_table \<times> ('hw, 'det) world) option" where
  "config_goal_to_interleave_ext_table ad qos set_size set_offset set_id w =
     (let tbl = \<lparr>ii_index = set_id, ii_memory_type = 0,
            ii_interleave_format = interleave_struct_to_format (interleave qos),
            ii_mirror_enable = mirrored qos, ii_status = 0, ii_mem_spare = 0, ii_dimms = []\<rparr>
      in if \<not> calloc_ok (ad_os ad) 0 then Some (NVM_ERR_NOMEMORY, tbl, w)
         else do {
           (rc, es, w) \<leftarrow> goal_dimms ad (dimms qos) (ways_value (ways (interleave qos))) set_size set_offset w;
           Some (rc, tbl\<lparr>ii_dimms := es\<rparr>, w)
         })"

definition app_direct_table :: "interleave_info_extension_table \<Rightarrow> extension_table" where
  "app_direct_table t = Interleave_info (t\<lparr>ii_memory_type := INTERLEAVE_MEMORY_TYPE_APP_DIRECT\<rparr>)"

text \<open>The interleave tables of the goal.\<close>

definition goal_interleave_tables ::
  "'hw adapter \<Rightarrow> config_goal \<Rightarrow> device_discovery \<Rightarrow> ('hw, 'det) world \<Rightarrow>
   (int \<times> extension_table list \<times> ('hw, 'det) world) option" where
  "goal_interleave_tables ad goal d w =
     (let capacity = usable_capacity_bytes (dev_capacity d) - memory_size goal * BYTES_PER_GB in
      if app_direct_count goal > 0 then do {
        let ad1_size = get_size_from_capacity (app_direct_1_size goal) capacity
              (mirrored (app_direct_1_settings goal) \<noteq> 0);
        (rc, t1, w) \<leftarrow> config_goal_to_interleave_ext_table ad (app_direct_1_settings goal) ad1_size 0
              (app_direct_1_set_id goal) w;
        if rc \<noteq> NVM_SUCCESS then Some (rc, [], w)
        else do {
          let capacity = capacity - ad1_size * BYTES_PER_GB;
          if app_direct_count goal > 1 then do {
            let ad2_size = get_size_from_capacity (app_direct_2_size goal) capacity
                  (mirrored (app_direct_2_settings goal) \<noteq> 0);
            (rc, t2, w) \<leftarrow> config_goal_to_interleave_ext_table ad (app_direct_2_settings goal) ad2_size
                  (app_direct_1_size goal) (app_direct_2_set_id goal) w;
            Some (rc, if rc = NVM_SUCCESS then [app_direct_table t1, app_direct_table t2]
                      else [app_direct_table t1], w)
          }
          else Some (rc, [app_direct_table t1], w)
        }
      }
      else Some (NVM_SUCCESS, [], w))"

definition config_input_table :: "u32 \<Rightarrow> bytes \<Rightarrow> bytes" where
  "config_input_table seq_num exts =
     encode_header (intel_header CONFIG_INPUT_TABLE_SIGNATURE (of_nat (INPUT_LEN + length exts))) @
     le32 seq_num @ replicate 8 0 @ exts"

definition config_goal_to_config_input ::
  "'hw adapter \<Rightarrow> config_goal \<Rightarrow> device_discovery \<Rightarrow> u32 \<Rightarrow> ('hw, 'det) world \<Rightarrow>
   (int \<times> bytes option \<times> ('hw, 'det) world) option" where
  "config_goal_to_config_input ad goal d seq_num w = do {
     (rc, tables, w) \<leftarrow> goal_interleave_tables ad goal d w;
     if rc \<noteq> NVM_SUCCESS then Some (rc, None, w)
     else if \<not> calloc_ok (ad_os ad) 1 then Some (NVM_ERR_NOMEMORY, None, w)
     else Some (NVM_SUCCESS,
       Some (config_input_table seq_num (config_goal_to_partition_ext_table goal d @ encode_exts tables)), w)
   }"

section \<open>Writing a goal\<close>

definition new_input_table ::
  "'hw adapter \<Rightarrow> bytes \<Rightarrow> config_goal option \<Rightarrow> device_discovery \<Rightarrow> ('hw, 'det) world \<Rightarrow>
   (int \<times> bytes option \<times> ('hw, 'det) world) option" where
  "new_input_table ad old goal d w =
     (case goal of
        None \<Rightarrow> Some (NVM_SUCCESS, None, w)
      | Some goal \<Rightarrow> do {
          n \<leftarrow> get_last_config_output_sequence_number old;
          (rc, tbl, w) \<leftarrow> config_goal_to_config_input ad goal d (n + 1) w;
          if rc = NVM_SUCCESS then do {
            t \<leftarrow> tbl;
            len \<leftarrow> table_length t;
            t \<leftarrow> generate_checksum t len CHECKSUM_OFFSET;
            Some (rc, Some t, w)
          } else Some (rc, tbl, w)
        })"

text \<open>Without a goal the existing one is deleted: the new data has no input table.\<close>

definition update_config_goal ::
  "'hw adapter \<Rightarrow> bool \<Rightarrow> device_discovery \<Rightarrow> config_goal option \<Rightarrow> ('hw, 'det) world \<Rightarrow>
   (int \<times> ('hw, 'det) world) option" where
  "update_config_goal ad large d goal w = do {
     (rc, pp, w) \<leftarrow> get_dimm_platform_config ad large (device_handle d) w;
     (rc, w) \<leftarrow>
       (if rc \<noteq> NVM_SUCCESS then Some (rc, w)
        else case pp of
          Config old \<Rightarrow> do {
            (rc, input, w) \<leftarrow> new_input_table ad old goal d w;
            if rc \<noteq> NVM_SUCCESS then Some (rc, w)
            else do {
              cur \<leftarrow> cast_current_config old;
              out \<leftarrow> cast_config_output old;
              (rc, cfg) \<leftarrow> build_platform_config_data (calloc_ok (ad_os ad) 2) cur input out (Some None);
              if rc \<noteq> NVM_SUCCESS then Some (rc, w)
              else do {
                cfg \<leftarrow> cfg;
                cfg \<leftarrow> cfg;
                set_dimm_platform_config ad large (device_handle d) cfg w
              }
            }
          }
        | _ \<Rightarrow> None);
     _ \<leftarrow> free_config pp;
     Some (rc, w)
   }"

definition nvm_create_config_goal ::
  "'hw adapter \<Rightarrow> bool \<Rightarrow> guid option \<Rightarrow> config_goal option \<Rightarrow> ('hw, 'det) world \<Rightarrow>
   (int \<times> ('hw, 'det) world) option" where
  "nvm_create_config_goal ad large guid goal w =
     (if \<not> permitted ad then Some (NVM_ERR_INVALIDPERMISSIONS, w)
      else do {
        (rc, caps, w) \<leftarrow> nvm_get_nvm_capabilities ad True w;
        if rc \<noteq> NVM_SUCCESS then Some (rc, w)
        else do {
          caps \<leftarrow> caps;
          if \<not> modify_device_capacity (nvm_features caps) then Some (NVM_ERR_NOTSUPPORTED, w)
          else if guid = None \<or> goal = None then Some (NVM_ERR_INVALIDPARAMETER, w)
          else do {
            (rc, d, w) \<leftarrow> exists_and_manageable ad guid True w;
            if rc \<noteq> NVM_SUCCESS then Some (rc, w)
            else do {
              d \<leftarrow> d;
              n \<leftarrow> dimm_has_namespaces_of_type ad (w_hw w) (device_handle d) NAMESPACE_TYPE_UNKNOWN;
              if n \<noteq> 0 then Some (if n > 0 then NVM_ERR_NAMESPACESEXIST else n, w)
              else do {
                (rc, w) \<leftarrow> validate_config_goal (the goal) caps d w;
                if rc \<noteq> NVM_SUCCESS then Some (rc, w)
                else do {
                  r \<leftarrow> update_config_goal ad large d goal w;
                  Some (log_success EVENT_CODE_MGMT_CONFIG_GOAL_CREATED guid r)
                }
              }
            }
          }
        }
      })"

section \<open>The status of a goal\<close>

definition get_config_goal_status_error_from_config_output :: "bytes \<Rightarrow> config_goal_status option" where
  "get_config_goal_status_error_from_config_output t = do {
     e \<leftarrow> get_config_error_from_config_output t;
     Some (case e of
         CONFIG_ERROR_BADREQUEST \<Rightarrow> CONFIG_GOAL_STATUS_ERR_BADREQUEST
       | CONFIG_ERROR_BROKENINTERLEAVE \<Rightarrow> CONFIG_GOAL_STATUS_ERR_BADREQUEST
       | CONFIG_ERROR_FW \<Rightarrow> CONFIG_GOAL_STATUS_ERR_FW
       | CONFIG_ERROR_INSUFFICIENTRESOURCES \<Rightarrow> CONFIG_GOAL_STATUS_ERR_INSUFFICIENTRESOURCES
       | CONFIG_ERROR_UNKNOWN \<Rightarrow> CONFIG_GOAL_STATUS_ERR_UNKNOWN
       | CONFIG_ERROR_NOTFOUND \<Rightarrow> CONFIG_GOAL_STATUS_UNKNOWN)
   }"

abbreviation (input) CONFIG_OUTPUT_STATUS_SUCCESS :: u8 where "CONFIG_OUTPUT_STATUS_SUCCESS \<equiv> 1"

definition get_config_goal_status_from_platform_config_data :: "bytes \<Rightarrow> config_goal_status option" where
  "get_config_goal_status_from_platform_config_data cfg = do {
     input \<leftarrow> cast_config_input cfg;
     output \<leftarrow> cast_config_output cfg;
     case (input, output) of
       (None, _) \<Rightarrow> Some CONFIG_GOAL_STATUS_UNKNOWN
     | (Some i, None) \<Rightarrow> Some CONFIG_GOAL_STATUS_NEW
     | (Some i, Some out) \<Rightarrow> do {
         si \<leftarrow> rd32 i 36;
         so \<leftarrow> rd32 out 36;
         if so \<noteq> si then Some CONFIG_GOAL_STATUS_NEW
         else do {
           v \<leftarrow> rd8 out 40;
           if v = CONFIG_OUTPUT_STATUS_SUCCESS then Some CONFIG_GOAL_STATUS_SUCCESS
           else get_config_goal_status_error_from_config_output out
         }
       }
   }"

section \<open>Reading a goal back\<close>

definition no_settings :: app_direct_attributes where
  "no_settings =
     \<lparr>interleave = zero_format, mirrored = 0, dimms = replicate NVM_MAX_DEVICES_PER_POOL (replicate GUID_LEN 0)\<rparr>"

definition zero_goal :: config_goal where
  "zero_goal =
     \<lparr>memory_size = 0, app_direct_count = 0, app_direct_1_size = 0, app_direct_1_set_id = 0,
      app_direct_1_settings = no_settings, app_direct_2_size = 0, app_direct_2_set_id = 0,
      app_direct_2_settings = no_settings, goal_status = CONFIG_GOAL_STATUS_UNKNOWN\<rparr>"

definition read_partition_goal ::
  "'hw adapter \<Rightarrow> guid \<Rightarrow> bytes \<Rightarrow> nat \<Rightarrow> config_goal \<Rightarrow> ('hw, 'det) world \<Rightarrow>
   (int \<times> config_goal \<times> ('hw, 'det) world) option" where
  "read_partition_goal ad g t off goal w = do {
     (rc, d, w) \<leftarrow> nvm_get_device_discovery ad (Some g) True w;
     if rc \<noteq> NVM_SUCCESS then Some (rc, goal, w)
     else do {
       d \<leftarrow> d;
       sz \<leftarrow> rd64 t (off + 8);
       let mem = usable_capacity_bytes (dev_capacity d) div BYTES_PER_GB;
       Some (rc, goal\<lparr>memory_size := if sz \<noteq> 0 then mem - sz div BYTES_PER_GB else mem\<rparr>, w)
     }
   }"

text \<open>The devices of a set from its \<open>i\<close>-th on: their GUIDs go into the array, the entry of the
  requested device gives the size.\<close>

fun read_set_dimms ::
  "'hw adapter \<Rightarrow> guid \<Rightarrow> bytes \<Rightarrow> u32 \<Rightarrow> nat \<Rightarrow> nat \<Rightarrow> u32 \<Rightarrow> guid list \<Rightarrow> u64 \<Rightarrow> ('hw, 'det) world \<Rightarrow>
   (int \<times> guid list \<times> u64 \<times> ('hw, 'det) world) option" where
  "read_set_dimms ad g t limit 0 i off gs sz w = Some (NVM_SUCCESS, gs, sz, w)"
| "read_set_dimms ad g t limit (Suc n) i off gs sz w =
     (if off > limit then Some (NVM_ERR_BADDEVICECONFIG, gs, sz, w)
      else do {
        mf \<leftarrow> rd_bytes t (unat off) 2;
        sn \<leftarrow> rd_bytes t (unat off + 2) 4;
        mn \<leftarrow> rd_bytes t (unat off + 6) 20;
        (rc, d, w) \<leftarrow> lookup_dev_manufacturer_serial_model ad mf sn mn w;
        if rc \<noteq> NVM_SUCCESS then Some (NVM_ERR_BADDEVICECONFIG, gs, sz, w)
        else do {
          d \<leftarrow> d;
          if \<not> i < length gs then None
          else do {
            sz \<leftarrow> (if guid_match (dev_guid d) g
                   then map_option (\<lambda>b. b div BYTES_PER_GB) (rd64 t (unat off + 40)) else Some sz);
            read_set_dimms ad g t limit n (Suc i) (off + of_nat DIMM_INFO_LEN) (gs[i := dev_guid d]) sz w
          }
        }
      })"

definition read_set_goal ::
  "'hw adapter \<Rightarrow> guid \<Rightarrow> bytes \<Rightarrow> u32 \<Rightarrow> u32 \<Rightarrow> config_goal \<Rightarrow> ('hw, 'det) world \<Rightarrow>
   (int \<times> config_goal \<times> ('hw, 'det) world) option" where
  "read_set_goal ad g t limit off goal w = do {
     mt \<leftarrow> rd8 t (unat off + 7);
     if mt = INTERLEAVE_MEMORY_TYPE_APP_DIRECT then
       if app_direct_1_size goal \<noteq> 0 \<and> app_direct_2_size goal \<noteq> 0 then Some (NVM_ERR_BADDEVICECONFIG, goal, w)
       else do {
         let second = app_direct_1_size goal \<noteq> 0;
         idx \<leftarrow> rd16 t (unat off + 4);
         mirr \<leftarrow> rd8 t (unat off + 12);
         fmt \<leftarrow> rd32 t (unat off + 8);
         n \<leftarrow> rd8 t (unat off + 6);
         let qos = (if second then app_direct_2_settings goal else app_direct_1_settings goal);
         (rc, gs, sz, w) \<leftarrow> read_set_dimms ad g t limit (unat n) 0 (off + of_nat INTERLEAVE_LEN) (dimms qos)
            (if second then app_direct_2_size goal else app_direct_1_size goal) w;
         let qos = \<lparr>interleave = interleave_format_to_struct fmt (interleave qos), mirrored = mirr, dimms = gs\<rparr>;
         Some (rc,
           if second then goal\<lparr>app_direct_count := 2, app_direct_2_set_id := idx,
                               app_direct_2_settings := qos, app_direct_2_size := sz\<rparr>
           else goal\<lparr>app_direct_count := 1, app_direct_1_set_id := idx,
                     app_direct_1_settings := qos, app_direct_1_size := sz\<rparr>, w)
       }
     else if mt \<noteq> INTERLEAVE_MEMORY_TYPE_MEMORY then Some (NVM_ERR_BADDEVICECONFIG, goal, w)
     else Some (NVM_SUCCESS, goal, w)
   }"

partial_function (option) config_input_table_to_config_goal ::
  "'hw adapter \<Rightarrow> guid \<Rightarrow> bytes \<Rightarrow> u32 \<Rightarrow> u32 \<Rightarrow> config_goal \<Rightarrow> ('hw, 'det) world \<Rightarrow>
   (int \<times> config_goal \<times> ('hw, 'det) world) option" where
  "config_input_table_to_config_goal ad g t offset limit goal w =
     (if \<not> offset < limit then Some (NVM_SUCCESS, goal, w)
      else do {
        len \<leftarrow> rd16 t (unat offset + 2);
        if offset + ucast len > limit then Some (NVM_ERR_BADDEVICECONFIG, goal, w)
        else do {
          ty \<leftarrow> rd16 t (unat offset);
          (rc, goal, w) \<leftarrow>
            (if ty = PARTITION_CHANGE_TABLE then read_partition_goal ad g t (unat offset) goal w
             else if ty = INTERLEAVE_TABLE then read_set_goal ad g t limit offset goal w
             else Some (NVM_SUCCESS, goal, w));
          if rc \<noteq> NVM_SUCCESS then Some (rc, goal, w)
          else config_input_table_to_config_goal ad g t (offset + ucast len) limit goal w
        }
      })"

definition nvm_get_config_goal ::
  "'hw adapter \<Rightarrow> bool \<Rightarrow> guid option \<Rightarrow> bool \<Rightarrow> ('hw, 'det) world \<Rightarrow>
   (int \<times> config_goal option \<times> ('hw, 'det) world) option" where
  "nvm_get_config_goal ad large guid have_out w =
     (if \<not> permitted ad then Some (NVM_ERR_INVALIDPERMISSIONS, None, w)
      else do {
        (rc, w) \<leftarrow> is_nvm_feature_supported ad get_device_capacity w;
        if rc \<noteq> NVM_SUCCESS then Some (rc, None, w)
        else if guid = None \<or> \<not> have_out then Some (NVM_ERR_INVALIDPARAMETER, None, w)
        else do {
          (rc, d, w) \<leftarrow> exists_and_manageable ad guid True w;
          if rc \<noteq> NVM_SUCCESS then Some (rc, None, w)
          else do {
            d \<leftarrow> d;
            (rc, pp, w) \<leftarrow> get_dimm_platform_config ad large (device_handle d) w;
            if rc \<noteq> NVM_SUCCESS then Some (rc, Some zero_goal, w)
            else case pp of
              Config cfg \<Rightarrow> do {
                input \<leftarrow> cast_config_input cfg;
                case input of
                  None \<Rightarrow> Some (NVM_ERR_NOTFOUND, Some zero_goal, w)
                | Some t \<Rightarrow> do {
                    st \<leftarrow> get_config_goal_status_from_platform_config_data cfg;
                    len \<leftarrow> table_length t;
                    (rc, goal, w) \<leftarrow> config_input_table_to_config_goal ad (the guid) t (of_nat INPUT_LEN) len
                        (zero_goal\<lparr>goal_status := st\<rparr>) w;
                    Some (rc, Some goal, w)
                  }
              }
            | _ \<Rightarrow> None
          }
        }
      })"

text \<open>Deleting also acknowledges the events on this device that call for an action; the events the
  library stores here call for none.\<close>

definition nvm_delete_config_goal ::
  "'hw adapter \<Rightarrow> bool \<Rightarrow> guid option \<Rightarrow> ('hw, 'det) world \<Rightarrow> (int \<times> ('hw, 'det) world) option" where
  "nvm_delete_config_goal ad large guid w =
     (if \<not> permitted ad then Some (NVM_ERR_INVALIDPERMISSIONS, w)
      else do {
        (rc, w) \<leftarrow> is_nvm_feature_supported ad modify_device_capacity w;
        if rc \<noteq> NVM_SUCCESS then Some (rc, w)
        else if guid = None then Some (NVM_ERR_INVALIDPARAMETER, w)
        else do {
          (rc, d, w) \<leftarrow> exists_and_manageable ad guid True w;
          if rc \<noteq> NVM_SUCCESS then Some (rc, w)
          else do {
            d \<leftarrow> d;
            (rc, _, w) \<leftarrow> nvm_get_config_goal ad large guid True w;
            if rc \<noteq> NVM_SUCCESS then Some (rc, w)
            else do {
              r \<leftarrow> update_config_goal ad large d None w;
              Some (log_success EVENT_CODE_MGMT_CONFIG_GOAL_DELETED guid r)
            }
          }
        }
      })"

section \<open>What validation guarantees\<close>

lemma unat_gib: "unat s \<le> 2 ^ 34 - 1 \<Longrightarrow> unat (s * BYTES_PER_GB) = unat s * 2 ^ 30"
  by (subst unat_mult_lem [THEN iffD1]) (simp_all add: BYTES_PER_GB_def)

lemma max_gib: "unat MAX_UINT64_GB = 2 ^ 34 - 1"
  by (simp add: MAX_UINT64_GB_def unsigned_drop_bit_eq drop_bit_eq_div)

text \<open>What an explicit size takes, in bytes.\<close>

definition set_bytes :: "u64 \<Rightarrow> bool \<Rightarrow> nat" where
  "set_bytes s mirr = (if mirr then 2 else 1) * unat s * 2 ^ 30"

text \<open>An explicit size whose double does not wrap.\<close>

definition plain_size :: "u64 \<Rightarrow> bool \<Rightarrow> bool" where
  "plain_size s mirr \<longleftrightarrow> s \<noteq> ALL_REMAINING \<and> (mirr \<longrightarrow> unat s < 2 ^ 63)"

lemma set_size_fits:
  assumes "validate_interleave_set_size s rem mirr = (NVM_SUCCESS, rem')" "plain_size s mirr"
  shows "unat rem' + set_bytes s mirr = unat rem"
proof -
  define actual :: u64 where "actual = (if mirr then s * 2 else s)"
  have a: "unat actual * 2 ^ 30 = set_bytes s mirr"
  proof (cases mirr)
    case True
    with assms(2) have "unat (s * 2) = unat s * 2"
      by (subst unat_mult_lem [THEN iffD1]) (simp_all add: plain_size_def)
    with True show ?thesis by (simp add: actual_def set_bytes_def)
  qed (simp add: actual_def set_bytes_def)
  have r: "actual \<le> MAX_UINT64_GB" "actual * BYTES_PER_GB \<le> rem" "rem' = rem - actual * BYTES_PER_GB"
    using assms by (auto simp: validate_interleave_set_size_def get_size_from_capacity_def plain_size_def
        actual_def Let_def not_less split: if_splits)
  have "unat actual \<le> 2 ^ 34 - 1" using r(1) max_gib by (simp add: word_le_nat_alt)
  then have "unat (actual * BYTES_PER_GB) = set_bytes s mirr" using unat_gib a by simp
  with r(2,3) show ?thesis by (simp add: unat_sub word_le_nat_alt)
qed

definition plain_goal :: "config_goal \<Rightarrow> bool" where
  "plain_goal goal \<longleftrightarrow> memory_size goal \<noteq> ALL_REMAINING \<and>
     list_all (\<lambda>(s, mirr). plain_size s mirr) (take (unat (app_direct_count goal)) (goal_sets goal))"

lemma validate_sets_fit:
  "validate_set_sizes sets n rem = Some NVM_SUCCESS \<Longrightarrow> list_all (\<lambda>(s, mirr). plain_size s mirr) (take n sets) \<Longrightarrow>
   sum_list (map (\<lambda>(s, mirr). set_bytes s mirr) (take n sets)) \<le> unat rem"
proof (induction sets n rem rule: validate_set_sizes.induct)
  case (3 s mirr sizes n rem)
  obtain rem' where v: "validate_interleave_set_size s rem mirr = (NVM_SUCCESS, rem')"
    and r: "validate_set_sizes sizes n rem' = Some NVM_SUCCESS"
    using "3.prems"(1) by (auto split: if_splits prod.splits)
  from "3.prems" v r have "sum_list (map (\<lambda>(s, mirr). set_bytes s mirr) (take n sizes)) \<le> unat rem'"
    by (intro "3.IH") (auto split: if_splits)
  with set_size_fits [OF v] "3.prems"(2) show ?case by simp
qed simp_all

lemma size_check_splits:
  assumes "validate_config_goal_size goal d = Some NVM_SUCCESS" "plain_goal goal"
  shows "unat (pm_partition_size goal d) + unat (memory_size goal) * 2 ^ 30 =
      unat (usable_capacity_bytes (dev_capacity d)) \<and>
    validate_set_sizes (goal_sets goal) (unat (app_direct_count goal)) (pm_partition_size goal d) = Some NVM_SUCCESS"
proof -
  let ?u = "usable_capacity_bytes (dev_capacity d)"
  obtain rem where v: "validate_interleave_set_size (memory_size goal) ?u False = (NVM_SUCCESS, rem)"
    and s: "validate_set_sizes (goal_sets goal) (unat (app_direct_count goal)) rem = Some NVM_SUCCESS"
    using assms(1) by (auto simp: validate_config_goal_size_def split: prod.splits if_splits)
  have p: "plain_size (memory_size goal) False" using assms(2) by (simp add: plain_goal_def plain_size_def)
  have "rem = pm_partition_size goal d"
    using v assms(2)
    by (auto simp: validate_interleave_set_size_def get_size_from_capacity_def pm_partition_size_def
        plain_goal_def Let_def split: if_splits)
  with set_size_fits [OF v p] s show ?thesis by (simp add: set_bytes_def)
qed


text \<open>A goal that gives everything to memory and everything that is left to one set.\<close>

definition greedy_goal :: "app_direct_attributes \<Rightarrow> config_goal" where
  "greedy_goal qos = zero_goal\<lparr>memory_size := ALL_REMAINING, app_direct_count := 1,
     app_direct_1_size := ALL_REMAINING, app_direct_1_settings := qos\<rparr>"

lemma goal_dimms_sizes:
  "goal_dimms ad gs n sz off w = Some (rc, es, w') \<Longrightarrow>
   \<forall>e \<in> set es. di_size e = sz * BYTES_PER_GB \<and> di_offset e = off * BYTES_PER_GB"
proof (induction ad gs n sz off w arbitrary: rc es w' rule: goal_dimms.induct)
  case (3 ad g gs n sz off w)
  then show ?case by (fastforce simp: bind_eq_Some_conv goal_dimm_def split: if_splits)
qed auto

text \<open>A goal that asks for all capacity as memory and for all that remains as app direct passes the
  size check although nothing remains; its table asks for an empty persistent partition and for a set
  of one GiB more than the usable capacity.\<close>
theorem greedy_goal_overcommits:
  assumes "unat (dev_capacity d) < 2 ^ 63" "mirrored qos = 0"
    and "goal_interleave_tables ad (greedy_goal qos) d w = Some (NVM_SUCCESS, tables, w')"
  shows "validate_config_goal_size (greedy_goal qos) d = Some NVM_SUCCESS \<and>
    pm_partition_size (greedy_goal qos) d = 0 \<and>
    (\<exists>t. tables = [Interleave_info t] \<and>
      (\<forall>e \<in> set (ii_dimms t). unat (di_size e) = unat (usable_capacity_bytes (dev_capacity d)) + 2 ^ 30))"
proof -
  let ?u = "usable_capacity_bytes (dev_capacity d)" and ?q = "unat (dev_capacity d) div 2 ^ 30"
  have gb: "unat BYTES_PER_GB = 2 ^ 30" by (simp add: BYTES_PER_GB_def)
  have u: "unat ?u = ?q * 2 ^ 30" by (rule unat_usable)
  have q: "?q < 2 ^ 33" using assms(1) by (simp add: less_mult_imp_div_less)
  have "unat (?u div BYTES_PER_GB) = ?q" using u gb by (simp add: unat_div_distrib)
  then have all: "unat (?u div BYTES_PER_GB * BYTES_PER_GB) = unat ?u"
    using q u unat_gib [of "?u div BYTES_PER_GB"] by simp
  have mem: "validate_interleave_set_size ALL_REMAINING ?u False = (NVM_SUCCESS, 0)"
  proof -
    have "\<not> ?u div BYTES_PER_GB > MAX_UINT64_GB"
      using q \<open>unat (?u div BYTES_PER_GB) = ?q\<close> max_gib by (simp add: word_less_nat_alt)
    moreover have "?u div BYTES_PER_GB * BYTES_PER_GB = ?u" using all by (simp only: word_unat_eq_iff)
    ultimately show ?thesis by (simp add: validate_interleave_set_size_def get_size_from_capacity_def)
  qed
  have set: "validate_interleave_set_size ALL_REMAINING 0 False = (NVM_SUCCESS, 0)"
    by (simp add: validate_interleave_set_size_def get_size_from_capacity_def)
  have v: "validate_config_goal_size (greedy_goal qos) d = Some NVM_SUCCESS"
    using mem set assms(2)
    by (simp add: validate_config_goal_size_def greedy_goal_def zero_goal_def goal_sets_def numeral_2_eq_2)
  have gbu: "unat (?u + BYTES_PER_GB) = (?q + 1) * 2 ^ 30"
    using u gb q by (subst unat_add_lem [THEN iffD1]) simp_all
  then have "unat ((?u + BYTES_PER_GB) div BYTES_PER_GB) = ?q + 1"
    using gb by (simp only: unat_div_distrib) simp
  then have big: "unat ((?u + BYTES_PER_GB) div BYTES_PER_GB * BYTES_PER_GB) = unat ?u + 2 ^ 30"
    using q u unat_gib [of "(?u + BYTES_PER_GB) div BYTES_PER_GB"] by simp
  from assms(3) obtain es where
    g: "goal_dimms ad (dimms qos) (ways_value (ways (interleave qos))) ((?u + BYTES_PER_GB) div BYTES_PER_GB) 0 w =
      Some (NVM_SUCCESS, es, w')"
    and t: "\<exists>t. tables = [Interleave_info t] \<and> ii_dimms t = es"
    using assms(2)
    by (auto simp: goal_interleave_tables_def greedy_goal_def zero_goal_def get_size_from_capacity_def
        config_goal_to_interleave_ext_table_def app_direct_table_def bind_eq_Some_conv Let_def split: if_splits)
  show ?thesis
    using v t goal_dimms_sizes [OF g] big by (auto simp: pm_partition_size_def greedy_goal_def zero_goal_def)
qed

section \<open>When a goal is written\<close>

definition set_cmds :: "('hw, 'det) world \<Rightarrow> fw_cmd list" where
  "set_cmds w = filter (\<lambda>c. cmd_opcode c = PT_SET_ADMIN_FEATURES) (w_sent w)"

lemma reads_set_cmds: "read_steps ad w w' \<Longrightarrow> set_cmds w' = set_cmds w"
  by (induction rule: read_steps.induct)
    (auto simp: set_cmds_def ioctl_passthrough_cmd_def split: prod.splits)

lemma validate_set_cmds: "validate_config_goal goal caps d w = Some (rc, w') \<Longrightarrow> set_cmds w' = set_cmds w"
  by (auto simp: validate_config_goal_def validate_config_goal_supported_def set_cmds_def bind_eq_Some_conv
      Let_def split: if_splits)

text \<open>C5. nvm_create_config_goal sends a command that changes the configuration only when the caller is
  permitted, the capabilities allow it, the device is known and manageable and carries no namespace, and
  the goal has passed the whole validation.\<close>
theorem goal_written_only_when_valid:
  fixes w :: "('hw, 'det) world"
  assumes "nvm_create_config_goal ad large guid goal w = Some (rc, w')" "set_cmds w' \<noteq> set_cmds w"
  shows "permitted ad \<and> (\<exists>caps (w1 :: ('hw, 'det) world) d w2 gl w3.
    nvm_get_nvm_capabilities ad True w = Some (NVM_SUCCESS, Some caps, w1) \<and>
    modify_device_capacity (nvm_features caps) \<and>
    exists_and_manageable ad guid True w1 = Some (NVM_SUCCESS, Some d, w2) \<and>
    dimm_has_namespaces_of_type ad (w_hw w2) (device_handle d) NAMESPACE_TYPE_UNKNOWN = Some 0 \<and>
    goal = Some gl \<and> validate_config_goal gl caps d w2 = Some (NVM_SUCCESS, w3))"
proof -
  have p: "permitted ad"
    using assms by (cases "permitted ad") (simp_all add: nvm_create_config_goal_def)
  with assms(1) obtain r caps w1 where c: "nvm_get_nvm_capabilities ad True w = Some (r, caps, w1)"
    by (auto simp: nvm_create_config_goal_def bind_eq_Some_conv)
  have s1: "set_cmds w1 = set_cmds w" using capabilities_steps [OF c] by (intro reads_set_cmds lookup_is_read)
  with assms p c obtain cp gl g where c': "r = NVM_SUCCESS" "caps = Some cp" "modify_device_capacity (nvm_features cp)"
    "goal = Some gl" "guid = Some g"
    by (auto simp: nvm_create_config_goal_def bind_eq_Some_conv split: if_splits)
  with assms p c obtain r2 d w2 where e: "exists_and_manageable ad guid True w1 = Some (r2, d, w2)"
    by (auto simp: nvm_create_config_goal_def bind_eq_Some_conv)
  have s2: "set_cmds w2 = set_cmds w" using s1 reads_set_cmds [OF lookup_is_read [OF exists_steps [OF e]]] by simp
  with assms p c c' e have "r2 = NVM_SUCCESS"
    by (cases "r2 = NVM_SUCCESS") (auto simp: nvm_create_config_goal_def)
  with assms p c c' e obtain dv n where d: "d = Some dv" and
    n: "dimm_has_namespaces_of_type ad (w_hw w2) (device_handle dv) NAMESPACE_TYPE_UNKNOWN = Some n"
    by (auto simp: nvm_create_config_goal_def bind_eq_Some_conv)
  with assms p c c' e \<open>r2 = NVM_SUCCESS\<close> s2 have "n = 0"
    by (auto simp: nvm_create_config_goal_def split: if_splits)
  with assms p c c' e \<open>r2 = NVM_SUCCESS\<close> d n obtain r3 w3 where
    v: "validate_config_goal gl cp dv w2 = Some (r3, w3)"
    by (auto simp: nvm_create_config_goal_def bind_eq_Some_conv)
  have s3: "set_cmds w3 = set_cmds w" using s2 validate_set_cmds [OF v] by simp
  with assms p c c' e \<open>r2 = NVM_SUCCESS\<close> d n \<open>n = 0\<close> v have "r3 = NVM_SUCCESS"
    by (cases "r3 = NVM_SUCCESS") (auto simp: nvm_create_config_goal_def)
  with p c c' e d n \<open>n = 0\<close> v \<open>r2 = NVM_SUCCESS\<close> show ?thesis by blast
qed

section \<open>The status of a new goal\<close>

lemma cast_holds:
  assumes "holds cfg fld (Some t)" "length t < 2 ^ 32" "t \<noteq> []"
  shows "\<exists>r. cast_table fld cfg = Some (Some (t @ r))"
proof -
  have "(of_nat (length t) :: u32) > 0"
    using assms(2,3) by (simp add: word_gt_0 word_of_nat_eq_0_iff nat_dvd_not_less)
  with assms(1) show ?thesis by (auto simp: holds_def cast_table_def)
qed


end
