(* ===== verification/GoalTables.thy ===== *)
theory GoalTables
  imports ConfigGoal
begin

text \<open>
  What a goal's input table means when it is read again (\<^verbatim>\<open>config_goal_to_config_input\<close> and
  \<^verbatim>\<open>config_input_table_to_config_goal\<close> of \<^verbatim>\<open>src/lib/config_goal.c\<close>), over the devices in the
  context.
\<close>

section \<open>The devices in the context\<close>

definition device_key :: "device_discovery \<Rightarrow> bytes \<times> bytes \<times> bytes" where
  "device_key d = (manufacturer d, serial_number d, take 20 (model_number d))"

definition known_devices :: "device_discovery list \<Rightarrow> bool" where
  "known_devices ds \<longleftrightarrow> ds \<noteq> [] \<and> length ds < 256 \<and>
     (\<forall>d \<in> set ds. wf_discovery d \<and> length (dev_guid d) = GUID_LEN) \<and>
     distinct (map dev_guid ds) \<and> distinct (map device_key ds)"

definition ready :: "'hw adapter \<Rightarrow> bool" where
  "ready ad \<longleftrightarrow> ad_os ad = os_fine \<and> permitted ad \<and> driver_ok ad"

abbreviation warm :: "device_discovery list \<Rightarrow> ('hw, 'det) world \<Rightarrow> bool" where
  "warm ds w \<equiv> cached (p_context (w_ctx w)) ds"

lemma find_distinct:
  "d \<in> set ds \<Longrightarrow> distinct (map f ds) \<Longrightarrow> find (\<lambda>x. f x = f d) ds = Some d"
  by (induction ds) auto

lemma lookup_known:
  assumes "ready ad" "known_devices ds" "warm ds w" "length g = GUID_LEN"
    and "lookup_dev_guid ad (Some g) w = Some (rc, d, w')"
  shows "warm ds w' \<and> (rc = NVM_SUCCESS \<longrightarrow> (\<exists>x. d = Some x \<and> x \<in> set ds \<and> dev_guid x = g))"
proof -
  from lookup_warm [of ad w ds g] assms obtain w1 where
    "lookup_dev_guid ad (Some g) w = Some (case find (\<lambda>d. dev_guid d = g) ds of
        None \<Rightarrow> (NVM_ERR_BADDEVICE, None, w1) | Some d \<Rightarrow> (NVM_SUCCESS, Some d, w1))"
    "p_context (w_ctx w1) = p_context (w_ctx w)"
    unfolding ready_def known_devices_def by blast
  with assms(3,5) show ?thesis by (auto simp: find_Some_iff split: option.splits)
qed

lemma exists_known:
  assumes "ready ad" "known_devices ds" "warm ds w" "length g = GUID_LEN"
    and "exists_and_manageable ad (Some g) True w = Some (rc, d, w')"
  shows "warm ds w' \<and> (rc = NVM_SUCCESS \<longrightarrow> (\<exists>x. d = Some x \<and> x \<in> set ds \<and> dev_guid x = g))"
proof -
  from assms(5) obtain r d1 where l: "lookup_dev_guid ad (Some g) w = Some (r, d1, w')"
    and s: "rc = NVM_SUCCESS \<Longrightarrow> r = NVM_SUCCESS \<and> d = d1"
    by (auto simp: exists_and_manageable_def bind_eq_Some_conv split: if_splits)
  from lookup_known [OF assms(1-4) l] s show ?thesis by blast
qed

lemma lookup_key_known:
  assumes "ready ad" "known_devices ds" "warm ds w" "d \<in> set ds"
  shows "\<exists>w'. lookup_dev_manufacturer_serial_model ad (manufacturer d) (serial_number d)
      (take 20 (model_number d)) w = Some (NVM_SUCCESS, Some d, w') \<and> warm ds w'"
proof -
  from get_devices_from_cache [of ad w ds] assms obtain w' where
    w': "get_devices ad w = Some (int (length ds), Some (Some ds), w')" "warm ds w'"
    unfolding ready_def known_devices_def by force
  let ?P = "\<lambda>x. cmp_bytes (Some (manufacturer x)) (Some (manufacturer d)) 2 = Some 1 \<and>
      cmp_bytes (Some (serial_number x)) (Some (serial_number d)) 4 = Some 1 \<and>
      cmp_bytes (Some (model_number x)) (Some (take 20 (model_number d))) 20 = Some 1"
  have "find ?P ds = find (\<lambda>x. device_key x = device_key d) ds"
  proof (rule find_cong)
    fix x assume "x \<in> set ds"
    then have "wf_discovery x" "wf_discovery d" using assms(2,4) by (auto simp: known_devices_def)
    then show "?P x \<longleftrightarrow> device_key x = device_key d"
      by (simp add: wf_discovery_def cmp_bytes_eq device_key_def)
  qed simp
  also have "\<dots> = Some d" using assms(2,4) by (intro find_distinct) (auto simp: known_devices_def)
  finally have "lookup_in ?P (int (length ds)) (Some (Some ds)) = Some (NVM_SUCCESS, Some d)"
    using assms(2) lookup_in_find [of ds ?P] by (simp add: known_devices_def)
  with w' show ?thesis by (simp add: lookup_dev_manufacturer_serial_model_def)
qed

section \<open>The entries of a set\<close>

definition goal_entry :: "u64 \<Rightarrow> u64 \<Rightarrow> device_discovery \<Rightarrow> dimm_info_extension_table" where
  "goal_entry sz off d = \<lparr>di_manufacturer = manufacturer d, di_serial_number = serial_number d,
     di_model_number = take 20 (model_number d), di_offset = off * BYTES_PER_GB, di_size = sz * BYTES_PER_GB\<rparr>"

lemma wf_goal_entry: "wf_discovery d \<Longrightarrow> wf_dimm (goal_entry sz off d)"
  by (simp add: wf_dimm_def goal_entry_def wf_discovery_def)

lemma goal_dimm_entry: "wf_discovery d \<Longrightarrow> goal_dimm sz off d = Some (goal_entry sz off d)"
  by (simp add: goal_dimm_def goal_entry_def wf_discovery_def rd_bytes_def)

lemma goal_dimms_known:
  assumes kd: "known_devices ds"
  shows "goal_dimms ad gs n sz off w = Some (NVM_SUCCESS, es, w') \<Longrightarrow> warm ds w \<Longrightarrow>
    \<forall>g \<in> set (take n gs). length g = GUID_LEN \<Longrightarrow> ready ad \<Longrightarrow>
    warm ds w' \<and> (\<exists>xs. set xs \<subseteq> set ds \<and> length xs = n \<and> n \<le> length gs \<and>
      map dev_guid xs = take n gs \<and> es = map (goal_entry sz off) xs)"
proof (induction ad gs n sz off w arbitrary: es w' rule: goal_dimms.induct)
  case (1 ad gs sz off w)
  then show ?case by auto
next
  case (3 ad g gs n sz off w)
  then obtain d w1 e es' where x: "exists_and_manageable ad (Some g) True w = Some (NVM_SUCCESS, Some d, w1)"
    and e: "goal_dimm sz off d = Some e" "es = e # es'"
    and r: "goal_dimms ad gs n sz off w1 = Some (NVM_SUCCESS, es', w')"
    by (auto simp: bind_eq_Some_conv split: if_splits)
  have "length g = GUID_LEN" using "3.prems"(3) by simp
  from exists_known [OF "3.prems"(4) kd "3.prems"(2) this x]
  have k: "warm ds w1" "d \<in> set ds" "dev_guid d = g" by auto
  then have wf: "wf_discovery d" using kd by (simp add: known_devices_def)
  have "warm ds w' \<and> (\<exists>xs. set xs \<subseteq> set ds \<and> length xs = n \<and> n \<le> length gs \<and>
      map dev_guid xs = take n gs \<and> es' = map (goal_entry sz off) xs)"
    by (rule "3.IH" [OF x refl refl _ refl e(1) r k(1)]) (use "3.prems"(3,4) in simp_all)
  then obtain xs where "warm ds w'" "set xs \<subseteq> set ds" "length xs = n" "n \<le> length gs"
      "map dev_guid xs = take n gs" "es' = map (goal_entry sz off) xs" by blast
  then show ?case using k e goal_dimm_entry [OF wf]
    by (intro conjI exI [of _ "d # xs"]) auto
qed simp

section \<open>Reading the entries\<close>

lemma read_entry:
  assumes "wf_dimm e" "off = length pre"
  shows "rd_bytes (pre @ encode_dimm e @ post) off 2 = Some (di_manufacturer e)"
    "rd_bytes (pre @ encode_dimm e @ post) (off + 2) 4 = Some (di_serial_number e)"
    "rd_bytes (pre @ encode_dimm e @ post) (off + 6) 20 = Some (di_model_number e)"
    "rd64 (pre @ encode_dimm e @ post) (off + 40) = Some (di_size e)"
  using assms by (simp_all add: encode_dimm_def wf_dimm_def rd_as_bytes rd_walk le_nat_back)

lemma gib_back: "unat sz \<le> 2 ^ 34 - 1 \<Longrightarrow> sz * BYTES_PER_GB div BYTES_PER_GB = sz"
proof -
  assume "unat sz \<le> 2 ^ 34 - 1"
  then have "unat (sz * BYTES_PER_GB) = unat sz * 2 ^ 30" by (rule unat_gib)
  then have "unat (sz * BYTES_PER_GB div BYTES_PER_GB) = unat sz"
    by (simp add: unat_div_distrib BYTES_PER_GB_def)
  then show ?thesis by (simp only: word_unat_eq_iff)
qed

lemma read_entries:
  assumes "ready ad" "known_devices ds" "length g = GUID_LEN" "unat sz \<le> 2 ^ 34 - 1"
  shows "set xs \<subseteq> set ds \<Longrightarrow> warm ds w \<Longrightarrow> i + length xs \<le> length gs \<Longrightarrow>
    length pre + DIMM_INFO_LEN * length xs \<le> unat limit \<Longrightarrow>
    \<exists>w'. read_set_dimms ad g (pre @ concat (map encode_dimm (map (goal_entry sz off) xs)) @ post) limit
      (length xs) i (of_nat (length pre)) gs sz0 w =
      Some (NVM_SUCCESS, take i gs @ map dev_guid xs @ drop (i + length xs) gs,
        if g \<in> dev_guid ` set xs then sz else sz0, w') \<and> warm ds w'"
proof (induction xs arbitrary: pre i gs sz0 w)
  case Nil
  then show ?case by simp
next
  case (Cons x xs)
  let ?e = "goal_entry sz off x" and ?rest = "concat (map encode_dimm (map (goal_entry sz off) xs))"
  have x: "x \<in> set ds" "wf_discovery x" "length (dev_guid x) = GUID_LEN"
    using Cons.prems(1) assms(2) by (auto simp: known_devices_def)
  have wf: "wf_dimm ?e" by (rule wf_goal_entry [OF x(2)])
  have lim: "length pre < 2 ^ 32" "length pre + DIMM_INFO_LEN < 2 ^ 32 + DIMM_INFO_LEN" "length pre \<le> unat limit"
  proof -
    have "unat limit < 2 ^ 32" using unsigned_less [of limit] by simp
    with Cons.prems(4) show "length pre < 2 ^ 32" "length pre + DIMM_INFO_LEN < 2 ^ 32 + DIMM_INFO_LEN"
      "length pre \<le> unat limit" by simp_all
  qed
  then have off: "unat (of_nat (length pre) :: u32) = length pre" by (simp add: unat_of_nat)
  have nlim: "\<not> (of_nat (length pre) :: u32) > limit" using off lim(3) by (simp add: word_less_nat_alt)
  obtain w1 where l: "lookup_dev_manufacturer_serial_model ad (manufacturer x) (serial_number x)
      (take 20 (model_number x)) w = Some (NVM_SUCCESS, Some x, w1)" "warm ds w1"
    using lookup_key_known [OF assms(1,2) Cons.prems(2) x(1)] by blast
  note rd = read_entry [OF wf refl, of pre "?rest @ post"]
  have next_off: "of_nat (length pre) + of_nat DIMM_INFO_LEN = (of_nat (length (pre @ encode_dimm ?e)) :: u32)"
    using length_encode_dimm [OF wf] by simp
  let ?sz1 = "if guid_match (dev_guid x) g then sz else sz0"
  from Cons.IH [of w1 "Suc i" "gs[i := dev_guid x]" "pre @ encode_dimm ?e" ?sz1] Cons.prems l(2)
    length_encode_dimm [OF wf]
  obtain w2 where ih: "read_set_dimms ad g ((pre @ encode_dimm ?e) @ ?rest @ post) limit (length xs) (Suc i)
      (of_nat (length (pre @ encode_dimm ?e))) (gs[i := dev_guid x]) ?sz1 w1 =
      Some (NVM_SUCCESS, take (Suc i) (gs[i := dev_guid x]) @ map dev_guid xs @ drop (Suc i + length xs) (gs[i := dev_guid x]),
        if g \<in> dev_guid ` set xs then sz else ?sz1, w2)" "warm ds w2" by auto
  have "take (Suc i) (gs[i := dev_guid x]) = take i gs @ [dev_guid x]"
    using Cons.prems(3) by (simp add: take_Suc_conv_app_nth)
  moreover have "i < length gs" using Cons.prems(3) by simp
  moreover have "rd64 (pre @ encode_dimm ?e @ ?rest @ post) (length pre + 40) = Some (sz * BYTES_PER_GB)"
    using rd(4) by (simp add: goal_entry_def)
  moreover have "di_manufacturer ?e = manufacturer x" "di_serial_number ?e = serial_number x"
    "di_model_number ?e = take 20 (model_number x)" by (simp_all add: goal_entry_def)
  ultimately show ?case
    using ih rd(1-3) l(1) nlim off next_off x(3) assms(3)
    by (intro exI [of _ w2], cases "dev_guid x = g") (simp_all add: o_def gib_back [OF assms(4)])
qed

section \<open>Reading one table\<close>

definition set_settings :: "u8 \<Rightarrow> u32 \<Rightarrow> device_discovery list \<Rightarrow> app_direct_attributes \<Rightarrow> app_direct_attributes" where
  "set_settings mirr fmt xs old =
     \<lparr>interleave = interleave_format_to_struct fmt (interleave old), mirrored = mirr,
      dimms = map dev_guid xs @ drop (length xs) (dimms old)\<rparr>"

definition goal_table :: "u16 \<Rightarrow> u8 \<Rightarrow> u32 \<Rightarrow> u64 \<Rightarrow> u64 \<Rightarrow> device_discovery list \<Rightarrow> interleave_info_extension_table" where
  "goal_table idx mirr fmt sz off xs =
     \<lparr>ii_index = idx, ii_memory_type = INTERLEAVE_MEMORY_TYPE_APP_DIRECT, ii_interleave_format = fmt,
      ii_mirror_enable = mirr, ii_status = 0, ii_mem_spare = 0, ii_dimms = map (goal_entry sz off) xs\<rparr>"

lemma wf_goal_table:
  "\<forall>x \<in> set xs. wf_discovery x \<Longrightarrow> length xs < 256 \<Longrightarrow> wf_ext (Interleave_info (goal_table idx mirr fmt sz off xs))"
  by (simp add: goal_table_def list_all_iff wf_goal_entry)

lemma encode_goal_table:
  "\<exists>hd. length hd = INTERLEAVE_LEN \<and> encode_interleave (goal_table idx mirr fmt sz off xs) =
     hd @ concat (map encode_dimm (map (goal_entry sz off) xs))"
  by (rule exI [of _ "le16 INTERLEAVE_TABLE @ le16 (of_nat (INTERLEAVE_LEN + DIMM_INFO_LEN * length xs)) @
     le16 idx @ [of_nat (length xs), INTERLEAVE_MEMORY_TYPE_APP_DIRECT] @ le32 fmt @ [mirr, 0, 0] @ replicate 9 0"])
    (simp add: encode_interleave_def goal_table_def o_def)

lemma read_goal_table:
  assumes "ready ad" "known_devices ds" "d \<in> set ds" "unat sz \<le> 2 ^ 34 - 1"
    and xs: "set xs \<subseteq> set ds" "d \<in> set xs" "length xs \<le> 24"
    and "warm ds w" "app_direct_2_size goal = 0"
    and len: "length (dimms (app_direct_1_settings goal)) = NVM_MAX_DEVICES_PER_POOL"
      "length (dimms (app_direct_2_settings goal)) = NVM_MAX_DEVICES_PER_POOL"
    and lim: "length pre + length (encode_interleave (goal_table idx mirr fmt sz off xs)) \<le> unat limit"
  shows "\<exists>w'. read_set_goal ad (dev_guid d) (pre @ encode_interleave (goal_table idx mirr fmt sz off xs) @ post)
      limit (of_nat (length pre)) goal w = Some (NVM_SUCCESS,
        if app_direct_1_size goal \<noteq> 0
        then goal\<lparr>app_direct_count := 2, app_direct_2_set_id := idx,
          app_direct_2_settings := set_settings mirr fmt xs (app_direct_2_settings goal), app_direct_2_size := sz\<rparr>
        else goal\<lparr>app_direct_count := 1, app_direct_1_set_id := idx,
          app_direct_1_settings := set_settings mirr fmt xs (app_direct_1_settings goal), app_direct_1_size := sz\<rparr>, w') \<and> warm ds w'"
proof -
  let ?t = "goal_table idx mirr fmt sz off xs"
  have wfx: "\<forall>x \<in> set xs. wf_discovery x" using assms(2) xs(1) by (auto simp: known_devices_def)
  have wf: "wf_ext (Interleave_info ?t)" by (rule wf_goal_table [OF wfx]) (use xs(3) in simp)
  have n: "length (ii_dimms ?t) = length xs" by (simp add: goal_table_def)
  obtain hd where hd: "length hd = INTERLEAVE_LEN"
      "encode_interleave ?t = hd @ concat (map encode_dimm (map (goal_entry sz off) xs))"
    using encode_goal_table by blast
  have dl: "length (concat (map encode_dimm (map (goal_entry sz off) xs))) = DIMM_INFO_LEN * length xs"
    using length_encode_dimms [of "map (goal_entry sz off) xs"] wfx by (simp add: list_all_iff wf_goal_entry)
  have g: "length (dev_guid d) = GUID_LEN" using assms(2,3) by (simp add: known_devices_def)
  have lim32: "unat limit < 2 ^ 32" using unsigned_less [of limit] by simp
  have off: "unat (of_nat (length pre) :: u32) = length pre"
    using lim lim32 by (simp add: unat_of_nat)
  let ?qos = "if app_direct_1_size goal \<noteq> 0 then app_direct_2_settings goal else app_direct_1_settings goal"
  have lq: "0 + length xs \<le> length (dimms ?qos)" using len xs(3) by simp
  have ll: "length (pre @ hd) + DIMM_INFO_LEN * length xs \<le> unat limit" using lim hd dl by simp
  let ?sz0 = "if app_direct_1_size goal \<noteq> 0 then app_direct_2_size goal else app_direct_1_size goal"
  from read_entries [OF assms(1,2) g assms(4) xs(1) assms(8) lq ll, of off post ?sz0] xs(2) hd
  obtain w' where r: "read_set_dimms ad (dev_guid d) (pre @ encode_interleave ?t @ post) limit (length xs) 0
      (of_nat (length pre) + of_nat INTERLEAVE_LEN) (dimms ?qos) ?sz0 w =
    Some (NVM_SUCCESS, map dev_guid xs @ drop (length xs) (dimms ?qos), sz, w')" and w': "warm ds w'"
    by auto
  note f = interleave_fields [OF wf refl, of pre post]
  have nx: "unat (of_nat (length xs) :: u8) = length xs" using xs(3) by (simp add: unat_of_nat)
  have ff: "rd8 (pre @ encode_interleave ?t @ post) (unat (of_nat (length pre) :: u32) + 7) =
      Some INTERLEAVE_MEMORY_TYPE_APP_DIRECT"
    "rd16 (pre @ encode_interleave ?t @ post) (unat (of_nat (length pre) :: u32) + 4) = Some idx"
    "rd8 (pre @ encode_interleave ?t @ post) (unat (of_nat (length pre) :: u32) + 12) = Some mirr"
    "rd32 (pre @ encode_interleave ?t @ post) (unat (of_nat (length pre) :: u32) + 8) = Some fmt"
    "rd8 (pre @ encode_interleave ?t @ post) (unat (of_nat (length pre) :: u32) + 6) = Some (of_nat (length xs))"
    using f(1-5) n unfolding off by (simp_all add: goal_table_def)
  show ?thesis
  proof (cases "app_direct_1_size goal = 0")
    case True
    with r ff w' assms(9) show ?thesis by (simp add: read_set_goal_def set_settings_def nx Let_def)
  next
    case False
    with r ff w' assms(9) show ?thesis by (simp add: read_set_goal_def set_settings_def nx Let_def)
  qed
qed


section \<open>Walking the table\<close>

lemma discovery_known:
  assumes "ready ad" "known_devices ds" "warm ds w" "d \<in> set ds"
  shows "\<exists>w'. nvm_get_device_discovery ad (Some (dev_guid d)) True w = Some (NVM_SUCCESS, Some d, w') \<and> warm ds w'"
proof -
  let ?w = "w\<lparr>w_ctx := \<lparr>p_context = p_context (w_ctx w), lock_held = False\<rparr>\<rparr>"
  have "warm ds ?w" using assms(3) by simp
  then obtain w' where l: "lookup_dev_guid ad (Some (dev_guid d)) ?w =
      Some (case find (\<lambda>x. dev_guid x = dev_guid d) ds of
        None \<Rightarrow> (NVM_ERR_BADDEVICE, None, w') | Some d \<Rightarrow> (NVM_SUCCESS, Some d, w'))"
    "p_context (w_ctx w') = p_context (w_ctx ?w)"
    using lookup_warm [of ad ?w ds "dev_guid d"] assms(1,2,4) unfolding ready_def known_devices_def by blast
  have "find (\<lambda>x. dev_guid x = dev_guid d) ds = Some d"
    using assms(2,4) by (intro find_distinct) (auto simp: known_devices_def)
  with l assms(1,3) supported_fine [of ad w] show ?thesis
    by (auto simp: nvm_get_device_discovery_def ready_def)
qed

lemma walk_step:
  assumes "wf_ext e" "length pre + length (encode_ext e) \<le> unat limit"
  shows "config_input_table_to_config_goal ad g (pre @ encode_ext e @ post) (of_nat (length pre)) limit goal w =
    do {
      (rc, goal, w) \<leftarrow>
        (if ext_type e = PARTITION_CHANGE_TABLE then read_partition_goal ad g (pre @ encode_ext e @ post) (length pre) goal w
         else if ext_type e = INTERLEAVE_TABLE
         then read_set_goal ad g (pre @ encode_ext e @ post) limit (of_nat (length pre)) goal w
         else Some (NVM_SUCCESS, goal, w));
      if rc \<noteq> NVM_SUCCESS then Some (rc, goal, w)
      else config_input_table_to_config_goal ad g (pre @ encode_ext e @ post)
        (of_nat (length (pre @ encode_ext e))) limit goal w
    }"
proof -
  have lim32: "unat limit < 2 ^ 32" using unsigned_less [of limit] by simp
  have le: "4 < length (encode_ext e)" "length (encode_ext e) < 65536"
    using length_encode_ext [OF assms(1)] by simp_all
  have off: "unat (of_nat (length pre) :: u32) = length pre" using assms(2) lim32 by (simp add: unat_of_nat)
  have nxt: "(of_nat (length pre) :: u32) + ucast (of_nat (length (encode_ext e)) :: u16) =
      of_nat (length (pre @ encode_ext e))"
    using walk_offset [of "length pre" "length (encode_ext e)"] assms(2) lim32 le by simp
  have "unat (of_nat (length (pre @ encode_ext e)) :: u32) = length (pre @ encode_ext e)"
    using assms(2) lim32 by (simp add: unat_of_nat del: of_nat_add length_append) simp
  then have "\<not> (of_nat (length (pre @ encode_ext e)) :: u32) > limit"
    using assms(2) by (simp add: word_less_nat_alt del: of_nat_add)
  moreover have "(of_nat (length pre) :: u32) < limit" using off le assms(2) by (simp add: word_less_nat_alt)
  moreover note ext_header [OF assms(1) refl, of pre post]
  ultimately show ?thesis
    using off nxt
    by (subst config_input_table_to_config_goal.simps) (simp cong: if_cong del: of_nat_add length_append encode_ext.simps)
qed

lemma walk_end: "config_input_table_to_config_goal ad g t limit limit goal w = Some (NVM_SUCCESS, goal, w)"
  by (subst config_input_table_to_config_goal.simps) simp

lemma read_partition_table:
  assumes "ready ad" "known_devices ds" "warm ds w" "d \<in> set ds"
  shows "\<exists>w'. read_partition_goal ad (dev_guid d) (pre @ encode_ext (Partition_change st sz) @ post) (length pre) goal w =
    Some (NVM_SUCCESS, goal\<lparr>memory_size :=
      (let mem = usable_capacity_bytes (dev_capacity d) div BYTES_PER_GB in
       if sz \<noteq> 0 then mem - sz div BYTES_PER_GB else mem)\<rparr>, w') \<and> warm ds w'"
  using discovery_known [OF assms] partition_fields(2) [OF refl, of pre st sz post]
  by (auto simp: read_partition_goal_def Let_def simp del: encode_ext.simps)


section \<open>The round trip\<close>

text \<open>What reading gives for the settings of a set: the flag of the format normalised and the devices
  of the set alone.\<close>

definition read_settings :: "app_direct_attributes \<Rightarrow> app_direct_attributes" where
  "read_settings qos =
     (let n = ways_value (ways (interleave qos)) in
      \<lparr>interleave = (interleave qos)\<lparr>recommended := if recommended (interleave qos) \<noteq> 0 then 1 else 0\<rparr>,
       mirrored = mirrored qos,
       dimms = take n (dimms qos) @ replicate (NVM_MAX_DEVICES_PER_POOL - n) (replicate GUID_LEN 0)\<rparr>)"

definition goal_read :: "config_goal \<Rightarrow> config_goal_status \<Rightarrow> config_goal" where
  "goal_read goal st =
     (let r = zero_goal\<lparr>goal_status := st, memory_size := memory_size goal\<rparr>;
          r = (if app_direct_count goal > 0 then
                 r\<lparr>app_direct_count := 1, app_direct_1_set_id := app_direct_1_set_id goal,
                   app_direct_1_settings := read_settings (app_direct_1_settings goal),
                   app_direct_1_size := app_direct_1_size goal\<rparr> else r)
      in if app_direct_count goal > 1 then
           r\<lparr>app_direct_count := 2, app_direct_2_set_id := app_direct_2_set_id goal,
             app_direct_2_settings := read_settings (app_direct_2_settings goal),
             app_direct_2_size := app_direct_2_size goal\<rparr> else r)"

text \<open>The devices of a set, among them the one the goal is for.\<close>

definition set_has :: "guid \<Rightarrow> app_direct_attributes \<Rightarrow> bool" where
  "set_has g qos \<longleftrightarrow>
     (let gs = take (ways_value (ways (interleave qos))) (dimms qos) in
      g \<in> set gs \<and> (\<forall>h \<in> set gs. length h = GUID_LEN))"

lemma ways_small: "ways_value ws \<le> 24"
  by (cases ws) simp_all

lemma set_settings_fresh:
  assumes "map dev_guid xs = take (ways_value (ways (interleave qos))) (dimms qos)"
    and "length xs = ways_value (ways (interleave qos))"
  shows "set_settings (mirrored qos) (interleave_struct_to_format (interleave qos)) xs no_settings = read_settings qos"
  using assms ways_small [of "ways (interleave qos)"]
  by (simp add: set_settings_def read_settings_def no_settings_def interleave_format_roundtrip Let_def)

lemma goal_set_table:
  assumes "ready ad" "known_devices ds" "warm ds w" "set_has (dev_guid d) qos" "d \<in> set ds"
    and "config_goal_to_interleave_ext_table ad qos sz off idx w = Some (NVM_SUCCESS, t, w')"
  shows "warm ds w' \<and> (\<exists>xs. set xs \<subseteq> set ds \<and> d \<in> set xs \<and> length xs \<le> 24 \<and>
    app_direct_table t = Interleave_info (goal_table idx (mirrored qos)
      (interleave_struct_to_format (interleave qos)) sz off xs) \<and>
    set_settings (mirrored qos) (interleave_struct_to_format (interleave qos)) xs no_settings = read_settings qos)"
proof -
  let ?n = "ways_value (ways (interleave qos))"
  from assms(6) obtain es where g: "goal_dimms ad (dimms qos) ?n sz off w = Some (NVM_SUCCESS, es, w')"
    and t: "t = \<lparr>ii_index = idx, ii_memory_type = 0, ii_interleave_format = interleave_struct_to_format (interleave qos),
      ii_mirror_enable = mirrored qos, ii_status = 0, ii_mem_spare = 0, ii_dimms = es\<rparr>"
    by (auto simp: config_goal_to_interleave_ext_table_def bind_eq_Some_conv Let_def split: if_splits)
  from goal_dimms_known [OF assms(2) g assms(3) _ assms(1)] assms(4) obtain xs where
    w': "warm ds w'" and xs: "set xs \<subseteq> set ds" "length xs = ?n" "map dev_guid xs = take ?n (dimms qos)"
      "es = map (goal_entry sz off) xs"
    by (auto simp: set_has_def Let_def)
  have "dev_guid d \<in> dev_guid ` set xs"
    using assms(4) xs(3) by (metis image_set set_has_def)
  then obtain y where y: "y \<in> set xs" "dev_guid y = dev_guid d" by auto
  have "inj_on dev_guid (set ds)" using assms(2) by (simp add: known_devices_def distinct_map)
  with y assms(5) xs(1) have "y = d" by (meson inj_onD subsetD)
  then show ?thesis
    using w' xs y ways_small [of "ways (interleave qos)"] set_settings_fresh [OF xs(3,2)]
    by (intro conjI exI [of _ xs]) (auto simp: t app_direct_table_def goal_table_def)
qed

lemma new_input_shape:
  assumes "new_input_table ad old (Some goal) d w = Some (NVM_SUCCESS, Some t, w')"
  shows "\<exists>tables hdr. goal_interleave_tables ad goal d w = Some (NVM_SUCCESS, tables, w') \<and>
    t = hdr @ encode_ext (Partition_change 0 (pm_partition_size goal d)) @ encode_exts tables \<and> length hdr = INPUT_LEN"
proof -
  from assms obtain n b w1 len where c: "config_goal_to_config_input ad goal d (n + 1) w = Some (NVM_SUCCESS, Some b, w')"
    and g: "generate_checksum b len CHECKSUM_OFFSET = Some t"
    by (auto simp: new_input_table_def bind_eq_Some_conv split: if_splits)
  from c obtain tables where
    tb: "goal_interleave_tables ad goal d w = Some (NVM_SUCCESS, tables, w')" and
    b: "b = config_input_table (n + 1) (encode_ext (Partition_change 0 (pm_partition_size goal d)) @ encode_exts tables)"
    by (auto simp: config_goal_to_config_input_def config_goal_to_partition_ext_table_def bind_eq_Some_conv
        simp del: encode_ext.simps split: if_splits)
  let ?exts = "encode_ext (Partition_change 0 (pm_partition_size goal d)) @ encode_exts tables"
  define hd where "hd = encode_header (intel_header CONFIG_INPUT_TABLE_SIGNATURE
      (of_nat (INPUT_LEN + length ?exts))) @ le32 (n + 1) @ replicate 8 0"
  have h: "b = hd @ ?exts" "length hd = INPUT_LEN"
    unfolding b config_input_table_def hd_def by (simp_all add: encode_header_def intel_header_def ascii_def)
  from g obtain v where "t = b[CHECKSUM_OFFSET := v]"
    by (auto simp: generate_checksum_def Let_def split: if_splits)
  then have "t = hd[CHECKSUM_OFFSET := v] @ ?exts" using h by (simp add: list_update_append1)
  with tb h(2) show ?thesis by (intro exI conjI) (assumption, assumption, simp)
qed

lemma validated_sizes:
  "validate_set_sizes sets n rem = Some NVM_SUCCESS \<Longrightarrow> list_all (\<lambda>(s, mirr). plain_size s mirr) (take n sets) \<Longrightarrow>
   list_all (\<lambda>(s, mirr). s \<noteq> 0 \<and> s \<noteq> ALL_REMAINING \<and> unat s \<le> 2 ^ 34 - 1) (take n sets)"
proof (induction sets n rem rule: validate_set_sizes.induct)
  case (3 s mirr sizes n rem)
  obtain rem' where v: "validate_interleave_set_size s rem mirr = (NVM_SUCCESS, rem')"
    and r: "s \<noteq> 0" "validate_set_sizes sizes n rem' = Some NVM_SUCCESS"
    using "3.prems"(1) by (auto split: if_splits prod.splits)
  have p: "plain_size s mirr" using "3.prems"(2) by simp
  have "unat (if mirr then s * 2 else s) \<le> 2 ^ 34 - 1"
    using v p max_gib by (auto simp: validate_interleave_set_size_def get_size_from_capacity_def plain_size_def
        Let_def word_le_nat_alt not_less split: if_splits)
  moreover have "unat s \<le> unat (if mirr then s * 2 else s)"
    using p by (auto simp: plain_size_def unat_mult_lem [THEN iffD1])
  ultimately have "unat s \<le> 2 ^ 34 - 1" by simp
  with "3.IH" [OF r(1) v [symmetric] refl _ r(2)] "3.prems"(2) r p show ?case by (simp add: plain_size_def)
qed simp_all

lemma memory_back:
  assumes "validate_config_goal_size goal d = Some NVM_SUCCESS" "plain_goal goal"
  shows "(let mem = usable_capacity_bytes (dev_capacity d) div BYTES_PER_GB in
     if pm_partition_size goal d \<noteq> 0 then mem - pm_partition_size goal d div BYTES_PER_GB else mem) = memory_size goal"
proof -
  let ?u = "usable_capacity_bytes (dev_capacity d)" and ?q = "unat (dev_capacity d) div 2 ^ 30"
  let ?m = "memory_size goal" and ?p = "pm_partition_size goal d"
  have gb: "unat BYTES_PER_GB = 2 ^ 30" by (simp add: BYTES_PER_GB_def)
  have "unat ?p + unat ?m * 2 ^ 30 = ?q * 2 ^ 30"
    using size_check_splits [OF assms] by (simp only: unat_usable)
  then have p: "unat ?p = (?q - unat ?m) * 2 ^ 30" and m: "unat ?m \<le> ?q"
    by (simp_all only: diff_mult_distrib) simp_all
  have u: "unat (?u div BYTES_PER_GB) = ?q" by (simp only: unat_div_distrib unat_usable gb) simp
  have s: "unat (?p div BYTES_PER_GB) = ?q - unat ?m" by (simp only: unat_div_distrib p gb) simp
  have "?p div BYTES_PER_GB \<le> ?u div BYTES_PER_GB" using u s by (simp add: word_le_nat_alt)
  then have "unat (?u div BYTES_PER_GB - ?p div BYTES_PER_GB) = unat ?m"
    using u s m by (simp add: unat_sub)
  moreover have "unat (?u div BYTES_PER_GB) = unat ?m" if "?p = 0"
    using that p u m by simp
  ultimately show ?thesis by (auto simp: Let_def word_unat_eq_iff)
qed

lemma walk_partition:
  assumes "ready ad" "known_devices ds" "warm ds w" "d \<in> set ds"
    and "length pre + length (encode_ext (Partition_change st sz)) \<le> unat limit"
  shows "\<exists>w'. warm ds w' \<and>
    config_input_table_to_config_goal ad (dev_guid d) (pre @ encode_ext (Partition_change st sz) @ post)
      (of_nat (length pre)) limit goal w =
    config_input_table_to_config_goal ad (dev_guid d) (pre @ encode_ext (Partition_change st sz) @ post)
      (of_nat (length (pre @ encode_ext (Partition_change st sz)))) limit (goal\<lparr>memory_size :=
      (let mem = usable_capacity_bytes (dev_capacity d) div BYTES_PER_GB in
       if sz \<noteq> 0 then mem - sz div BYTES_PER_GB else mem)\<rparr>) w'"
proof -
  from read_partition_table [OF assms(1-4), of pre st sz post goal] obtain w' where
    "read_partition_goal ad (dev_guid d) (pre @ encode_ext (Partition_change st sz) @ post) (length pre) goal w =
    Some (NVM_SUCCESS, goal\<lparr>memory_size :=
      (let mem = usable_capacity_bytes (dev_capacity d) div BYTES_PER_GB in
       if sz \<noteq> 0 then mem - sz div BYTES_PER_GB else mem)\<rparr>, w')" "warm ds w'" by blast
  with walk_step [OF _ assms(5), of ad "dev_guid d" post goal w] show ?thesis
    by (intro exI [of _ w']) (simp del: encode_ext.simps of_nat_add length_append)
qed

definition with_set :: "u16 \<Rightarrow> u8 \<Rightarrow> u32 \<Rightarrow> u64 \<Rightarrow> device_discovery list \<Rightarrow> config_goal \<Rightarrow> config_goal" where
  "with_set idx mirr fmt sz xs goal =
     (if app_direct_1_size goal \<noteq> 0
      then goal\<lparr>app_direct_count := 2, app_direct_2_set_id := idx,
        app_direct_2_settings := set_settings mirr fmt xs (app_direct_2_settings goal), app_direct_2_size := sz\<rparr>
      else goal\<lparr>app_direct_count := 1, app_direct_1_set_id := idx,
        app_direct_1_settings := set_settings mirr fmt xs (app_direct_1_settings goal), app_direct_1_size := sz\<rparr>)"

lemma walk_set:
  assumes "ready ad" "known_devices ds" "d \<in> set ds" "unat sz \<le> 2 ^ 34 - 1"
    and "set xs \<subseteq> set ds" "d \<in> set xs" "length xs \<le> 24"
    and "warm ds w" "app_direct_2_size goal = 0"
    and "length (dimms (app_direct_1_settings goal)) = NVM_MAX_DEVICES_PER_POOL"
      "length (dimms (app_direct_2_settings goal)) = NVM_MAX_DEVICES_PER_POOL"
    and "e = Interleave_info (goal_table idx mirr fmt sz off xs)"
    and "length pre + length (encode_ext e) \<le> unat limit"
  shows "\<exists>w'. warm ds w' \<and>
    config_input_table_to_config_goal ad (dev_guid d) (pre @ encode_ext e @ post) (of_nat (length pre)) limit goal w =
    config_input_table_to_config_goal ad (dev_guid d) (pre @ encode_ext e @ post)
      (of_nat (length (pre @ encode_ext e))) limit (with_set idx mirr fmt sz xs goal) w'"
proof -
  have wf: "wf_ext e"
    unfolding assms(12) using assms(2,5,7) by (intro wf_goal_table) (auto simp: known_devices_def)
  have lim: "length pre + length (encode_interleave (goal_table idx mirr fmt sz off xs)) \<le> unat limit"
    using assms(13) by (simp add: assms(12))
  from read_goal_table [OF assms(1-11) lim, of post] obtain w' where
    "read_set_goal ad (dev_guid d) (pre @ encode_ext e @ post) limit (of_nat (length pre)) goal w =
      Some (NVM_SUCCESS, with_set idx mirr fmt sz xs goal, w')" "warm ds w'"
    by (auto simp: with_set_def assms(12))
  moreover have "ext_type e = INTERLEAVE_TABLE" by (simp add: assms(12))
  ultimately show ?thesis using walk_step [OF wf assms(13), of ad "dev_guid d" post goal w]
    by (intro exI [of _ w']) (simp del: encode_ext.simps of_nat_add length_append)
qed

lemma goal_table_length:
  assumes "known_devices ds" "set xs \<subseteq> set ds" "length xs \<le> 24"
  shows "length (encode_ext (Interleave_info (goal_table idx mirr fmt sz off xs))) \<le> 1176"
proof -
  have "list_all wf_dimm (ii_dimms (goal_table idx mirr fmt sz off xs))"
    using assms(1,2) by (auto simp: goal_table_def list_all_iff known_devices_def intro!: wf_goal_entry)
  from length_encode_interleave [OF this] assms(3) show ?thesis by (simp add: goal_table_def)
qed

text \<open>The description of a set: index, mirroring, format, size, offset, devices.\<close>

type_synonym set_desc = "u16 \<times> u8 \<times> u32 \<times> u64 \<times> u64 \<times> device_discovery list"

fun table_of :: "set_desc \<Rightarrow> extension_table" where
  "table_of (idx, mirr, fmt, sz, off, xs) = Interleave_info (goal_table idx mirr fmt sz off xs)"

fun apply_set :: "set_desc \<Rightarrow> config_goal \<Rightarrow> config_goal" where
  "apply_set (idx, mirr, fmt, sz, off, xs) goal = with_set idx mirr fmt sz xs goal"

fun good_set :: "device_discovery list \<Rightarrow> device_discovery \<Rightarrow> set_desc \<Rightarrow> bool" where
  "good_set ds d (idx, mirr, fmt, sz, off, xs) \<longleftrightarrow>
     sz \<noteq> 0 \<and> unat sz \<le> 2 ^ 34 - 1 \<and> set xs \<subseteq> set ds \<and> d \<in> set xs \<and> length xs \<le> 24"

text \<open>A goal has room for the sets that follow, and arrays of full length.\<close>

definition room_for :: "nat \<Rightarrow> config_goal \<Rightarrow> bool" where
  "room_for n goal \<longleftrightarrow> n \<le> 2 \<and> (0 < n \<longrightarrow> app_direct_2_size goal = 0) \<and> (1 < n \<longrightarrow> app_direct_1_size goal = 0) \<and>
     length (dimms (app_direct_1_settings goal)) = NVM_MAX_DEVICES_PER_POOL \<and>
     length (dimms (app_direct_2_settings goal)) = NVM_MAX_DEVICES_PER_POOL"

lemma room_after:
  "room_for (Suc n) goal \<Longrightarrow> good_set ds d s \<Longrightarrow> room_for n (apply_set s goal)"
  by (cases s) (auto simp: room_for_def with_set_def set_settings_def)

lemma walk_sets:
  assumes "ready ad" "known_devices ds" "d \<in> set ds"
  shows "list_all (good_set ds d) ss \<Longrightarrow> room_for (length ss) goal \<Longrightarrow> warm ds w \<Longrightarrow>
    length (pre @ encode_exts (map table_of ss)) \<le> unat limit \<Longrightarrow>
    \<exists>w'. warm ds w' \<and>
    config_input_table_to_config_goal ad (dev_guid d) (pre @ encode_exts (map table_of ss))
      (of_nat (length pre)) limit goal w =
    config_input_table_to_config_goal ad (dev_guid d) (pre @ encode_exts (map table_of ss))
      (of_nat (length (pre @ encode_exts (map table_of ss)))) limit (fold apply_set ss goal) w'"
proof (induction ss arbitrary: pre goal w)
  case Nil
  then show ?case by auto
next
  case (Cons s ss)
  obtain idx mirr fmt sz off xs where s: "s = (idx, mirr, fmt, sz, off, xs)" by (cases s) blast
  have good: "unat sz \<le> 2 ^ 34 - 1" "set xs \<subseteq> set ds" "d \<in> set xs" "length xs \<le> 24"
    using Cons.prems(1) by (simp_all add: s)
  have lens: "app_direct_2_size goal = 0"
    "length (dimms (app_direct_1_settings goal)) = NVM_MAX_DEVICES_PER_POOL"
    "length (dimms (app_direct_2_settings goal)) = NVM_MAX_DEVICES_PER_POOL"
    using Cons.prems(2) by (simp_all add: room_for_def)
  have tab: "table_of s = Interleave_info (goal_table idx mirr fmt sz off xs)" by (simp add: s)
  have lim: "length pre + length (encode_ext (table_of s)) \<le> unat limit" using Cons.prems(4) by simp
  have app: "apply_set s goal = with_set idx mirr fmt sz xs goal" by (simp add: s)
  from walk_set [OF assms(1-3) good Cons.prems(3) lens tab lim, of "encode_exts (map table_of ss)"]
  obtain w1 where w1: "warm ds w1"
    "config_input_table_to_config_goal ad (dev_guid d) (pre @ encode_ext (table_of s) @ encode_exts (map table_of ss))
      (of_nat (length pre)) limit goal w =
    config_input_table_to_config_goal ad (dev_guid d) (pre @ encode_ext (table_of s) @ encode_exts (map table_of ss))
      (of_nat (length (pre @ encode_ext (table_of s)))) limit (apply_set s goal) w1"
    unfolding app by blast
  have "list_all (good_set ds d) ss" "good_set ds d s" using Cons.prems(1) by simp_all
  moreover have "room_for (length ss) (apply_set s goal)"
    using Cons.prems(2) \<open>good_set ds d s\<close> by (intro room_after) simp_all
  ultimately show ?case
    using Cons.IH [OF _ _ w1(1), of "apply_set s goal" "pre @ encode_ext (table_of s)"] Cons.prems(4) w1(2)
    by (simp del: of_nat_add length_append)
qed

lemma goal_sets_tables:
  assumes "ready ad" "known_devices ds" "warm ds w" "d \<in> set ds"
    and "validate_config_goal_size goal d = Some NVM_SUCCESS" "plain_goal goal"
    and "unat (app_direct_count goal) \<le> NVM_MAX_INTERLEAVE_SETS_PER_DIMM"
    and "list_all (set_has (dev_guid d)) (take (unat (app_direct_count goal))
      [app_direct_1_settings goal, app_direct_2_settings goal])"
    and tb: "goal_interleave_tables ad goal d w = Some (NVM_SUCCESS, tables, w')"
  shows "warm ds w' \<and> (\<exists>ss. tables = map table_of ss \<and> list_all (good_set ds d) ss \<and> length ss \<le> 2 \<and>
    fold apply_set ss (zero_goal\<lparr>goal_status := st, memory_size := memory_size goal\<rparr>) = goal_read goal st)"
proof -
  let ?s1 = "app_direct_1_settings goal" and ?s2 = "app_direct_2_settings goal"
  let ?f = "\<lambda>qos. interleave_struct_to_format (interleave qos)"
  have "list_all (\<lambda>(s, mirr). plain_size s mirr) (take (unat (app_direct_count goal)) (goal_sets goal))"
    using assms(6) by (simp add: plain_goal_def)
  note val = validated_sizes [OF conjunct2 [OF size_check_splits [OF assms(5,6)]] this]
  consider "app_direct_count goal = 0" | "app_direct_count goal = 1" | "app_direct_count goal = 2"
    using assms(7) by (fastforce simp: word_unat_eq_iff)
  then show ?thesis
  proof cases
    case 1
    with tb assms(3) show ?thesis by (simp add: goal_interleave_tables_def goal_read_def)
  next
    case 2
    then have s1: "app_direct_1_size goal \<noteq> ALL_REMAINING" "app_direct_1_size goal \<noteq> 0"
        "unat (app_direct_1_size goal) \<le> 2 ^ 34 - 1" and h1: "set_has (dev_guid d) ?s1"
      using val assms(8) by (simp_all add: goal_sets_def)
    from tb 2 s1(1) obtain t1 where
      e1: "config_goal_to_interleave_ext_table ad ?s1 (app_direct_1_size goal) 0 (app_direct_1_set_id goal) w =
        Some (NVM_SUCCESS, t1, w')" and tt: "tables = [app_direct_table t1]"
      by (auto simp: goal_interleave_tables_def get_size_from_capacity_def bind_eq_Some_conv Let_def split: if_splits)
    from goal_set_table [OF assms(1-3) h1 assms(4) e1] obtain xs where w': "warm ds w'"
      and x: "good_set ds d (app_direct_1_set_id goal, mirrored ?s1, ?f ?s1, app_direct_1_size goal, 0, xs)"
        "app_direct_table t1 = table_of (app_direct_1_set_id goal, mirrored ?s1, ?f ?s1, app_direct_1_size goal, 0, xs)"
        "set_settings (mirrored ?s1) (?f ?s1) xs no_settings = read_settings ?s1"
      using s1 by auto
    show ?thesis
      using w' tt x s1 2
      by (intro conjI exI [of _ "[(app_direct_1_set_id goal, mirrored ?s1, ?f ?s1, app_direct_1_size goal, 0, xs)]"])
        (simp_all add: with_set_def goal_read_def zero_goal_def)
  next
    case 3
    then have s1: "app_direct_1_size goal \<noteq> ALL_REMAINING" "app_direct_1_size goal \<noteq> 0"
        "unat (app_direct_1_size goal) \<le> 2 ^ 34 - 1" and h1: "set_has (dev_guid d) ?s1"
      and s2: "app_direct_2_size goal \<noteq> ALL_REMAINING" "app_direct_2_size goal \<noteq> 0"
        "unat (app_direct_2_size goal) \<le> 2 ^ 34 - 1" and h2: "set_has (dev_guid d) ?s2"
      using val assms(8) by (simp_all add: goal_sets_def)
    from tb 3 s1(1) s2(1) obtain t1 t2 w1 where
      e1: "config_goal_to_interleave_ext_table ad ?s1 (app_direct_1_size goal) 0 (app_direct_1_set_id goal) w =
        Some (NVM_SUCCESS, t1, w1)" and
      e2: "config_goal_to_interleave_ext_table ad ?s2 (app_direct_2_size goal) (app_direct_1_size goal)
        (app_direct_2_set_id goal) w1 = Some (NVM_SUCCESS, t2, w')"
      and tt: "tables = [app_direct_table t1, app_direct_table t2]"
      by (auto simp: goal_interleave_tables_def get_size_from_capacity_def bind_eq_Some_conv Let_def split: if_splits)
    from goal_set_table [OF assms(1-3) h1 assms(4) e1] obtain xs where "warm ds w1"
      and x: "good_set ds d (app_direct_1_set_id goal, mirrored ?s1, ?f ?s1, app_direct_1_size goal, 0, xs)"
        "app_direct_table t1 = table_of (app_direct_1_set_id goal, mirrored ?s1, ?f ?s1, app_direct_1_size goal, 0, xs)"
        "set_settings (mirrored ?s1) (?f ?s1) xs no_settings = read_settings ?s1"
      using s1 by auto
    from goal_set_table [OF assms(1,2) this(1) h2 assms(4) e2] obtain ys where w': "warm ds w'"
      and y: "good_set ds d (app_direct_2_set_id goal, mirrored ?s2, ?f ?s2, app_direct_2_size goal, app_direct_1_size goal, ys)"
        "app_direct_table t2 = table_of (app_direct_2_set_id goal, mirrored ?s2, ?f ?s2, app_direct_2_size goal, app_direct_1_size goal, ys)"
        "set_settings (mirrored ?s2) (?f ?s2) ys no_settings = read_settings ?s2"
      using s2 by auto
    show ?thesis
      using w' tt x y s1 3
      by (intro conjI exI [of _ "[(app_direct_1_set_id goal, mirrored ?s1, ?f ?s1, app_direct_1_size goal, 0, xs),
        (app_direct_2_set_id goal, mirrored ?s2, ?f ?s2, app_direct_2_size goal, app_direct_1_size goal, ys)]"])
        (simp_all add: with_set_def goal_read_def zero_goal_def)
  qed
qed

lemma sets_length:
  assumes "known_devices ds"
  shows "list_all (good_set ds d) ss \<Longrightarrow> length (encode_exts (map table_of ss)) \<le> 1176 * length ss"
proof (induction ss)
  case (Cons s ss)
  obtain idx mirr fmt sz off xs where s: "s = (idx, mirr, fmt, sz, off, xs)" by (cases s) blast
  have "length (encode_ext (table_of s)) \<le> 1176"
    using Cons.prems goal_table_length [OF assms] by (simp add: s del: encode_ext.simps)
  with Cons show ?case by (simp del: encode_ext.simps)
qed simp

text \<open>C4. A goal with explicit sizes that passed the size check, over devices the context knows, is read
  back from the table the library builds for it: memory size, number of sets, and of each set its size,
  index, format, mirroring and devices.\<close>
theorem goal_round_trip:
  fixes w :: "('hw, 'det) world"
  assumes "ready ad" "known_devices ds" "warm ds w" "d \<in> set ds"
    and "validate_config_goal_size goal d = Some NVM_SUCCESS" "plain_goal goal"
    and "unat (app_direct_count goal) \<le> NVM_MAX_INTERLEAVE_SETS_PER_DIMM"
    and "list_all (set_has (dev_guid d)) (take (unat (app_direct_count goal))
      [app_direct_1_settings goal, app_direct_2_settings goal])"
    and "new_input_table ad old (Some goal) d w = Some (NVM_SUCCESS, Some t, w')"
  shows "\<exists>w'' :: ('hw, 'det) world. config_input_table_to_config_goal ad (dev_guid d) t (of_nat INPUT_LEN)
    (of_nat (length t)) (zero_goal\<lparr>goal_status := st\<rparr>) w' = Some (NVM_SUCCESS, goal_read goal st, w'')"
proof -
  let ?part = "Partition_change 0 (pm_partition_size goal d)" and ?lim = "of_nat (length t) :: u32"
  let ?G1 = "zero_goal\<lparr>goal_status := st, memory_size := memory_size goal\<rparr>"
  obtain tables hdr where tb: "goal_interleave_tables ad goal d w = Some (NVM_SUCCESS, tables, w')"
    and t: "t = hdr @ encode_ext ?part @ encode_exts tables" and hdr: "length hdr = INPUT_LEN"
    using new_input_shape [OF assms(9)] by blast
  obtain ss where w': "warm ds w'" and ss: "tables = map table_of ss" "list_all (good_set ds d) ss" "length ss \<le> 2"
    "fold apply_set ss ?G1 = goal_read goal st"
    using goal_sets_tables [OF assms(1-8) tb, of st] by blast
  have lt: "unat ?lim = length t"
    using sets_length [OF assms(2) ss(2)] ss(3) hdr by (simp add: t ss(1) unat_of_nat del: of_nat_add)
  have "length hdr + length (encode_ext ?part) \<le> unat ?lim" unfolding lt by (simp add: t)
  from walk_partition [OF assms(1,2) w' assms(4) this, of "encode_exts tables" "zero_goal\<lparr>goal_status := st\<rparr>"]
  obtain w2 :: "('hw, 'det) world" where w2: "warm ds w2"
    "config_input_table_to_config_goal ad (dev_guid d) t (of_nat INPUT_LEN) ?lim (zero_goal\<lparr>goal_status := st\<rparr>) w' =
     config_input_table_to_config_goal ad (dev_guid d) t (of_nat (length (hdr @ encode_ext ?part))) ?lim ?G1 w2"
    unfolding memory_back [OF assms(5,6)] hdr t by auto
  have "room_for (length ss) ?G1" using ss(3) by (simp add: room_for_def zero_goal_def no_settings_def)
  from walk_sets [OF assms(1,2,4) ss(2) this w2(1), of "hdr @ encode_ext ?part" ?lim]
  obtain w3 :: "('hw, 'det) world" where
    "config_input_table_to_config_goal ad (dev_guid d) t (of_nat (length (hdr @ encode_ext ?part))) ?lim ?G1 w2 =
     config_input_table_to_config_goal ad (dev_guid d) t ?lim ?lim (goal_read goal st) w3"
    unfolding lt ss(4) by (auto simp: t ss(1) simp del: encode_ext.simps of_nat_add length_append)
  with w2(2) show ?thesis by (simp add: walk_end)
qed

section \<open>A table that states length zero\<close>

lemma goal_zero_length:
  assumes "config_input_table_to_config_goal ad g t off limit goal w = Some r"
  shows "\<not> (off < limit \<and> rd16 t (unat off + 2) = Some 0 \<and> (\<exists>ty. rd16 t (unat off) = Some ty \<and> ty \<notin> {4, 5}))"
proof (rule config_input_table_to_config_goal.raw_induct [OF _ assms, of "\<lambda>ad g t off limit goal w r.
      \<not> (off < limit \<and> rd16 t (unat off + 2) = Some 0 \<and> (\<exists>ty. rd16 t (unat off) = Some ty \<and> ty \<notin> {4, 5}))"])
  fix f ad g t and off limit :: u32 and goal w r
  assume IH: "\<And>ad g t off limit goal w r. f ad g t off limit goal w = Some r \<Longrightarrow>
      \<not> (off < limit \<and> rd16 t (unat off + 2) = Some 0 \<and> (\<exists>ty. rd16 t (unat off) = Some ty \<and> ty \<notin> {4, 5}))"
    and step: "(if \<not> off < limit then Some (NVM_SUCCESS, goal, w)
      else do {
        len \<leftarrow> rd16 t (unat off + 2);
        if off + ucast len > limit then Some (NVM_ERR_BADDEVICECONFIG, goal, w)
        else do {
          ty \<leftarrow> rd16 t (unat off);
          (rc, goal, w) \<leftarrow>
            (if ty = PARTITION_CHANGE_TABLE then read_partition_goal ad g t (unat off) goal w
             else if ty = INTERLEAVE_TABLE then read_set_goal ad g t limit off goal w
             else Some (NVM_SUCCESS, goal, w));
          if rc \<noteq> NVM_SUCCESS then Some (rc, goal, w)
          else f ad g t (off + ucast len) limit goal w
        }
      }) = Some r"
  show "\<not> (off < limit \<and> rd16 t (unat off + 2) = Some 0 \<and> (\<exists>ty. rd16 t (unat off) = Some ty \<and> ty \<notin> {4, 5}))"
  proof
    assume z: "off < limit \<and> rd16 t (unat off + 2) = Some 0 \<and> (\<exists>ty. rd16 t (unat off) = Some ty \<and> ty \<notin> {4, 5})"
    then have "\<not> limit < off" by (meson order_less_asym)
    with step z have "f ad g t off limit goal w = Some r" by (auto cong: if_cong)
    from IH [OF this] z show False by blast
  qed
qed

text \<open>C19. Reading a goal never returns when the input table holds an extension table of an unknown type
  that states length zero: the loop does not move on.\<close>
theorem zero_length_goal_never_read:
  assumes "off < limit" "rd16 t (unat off + 2) = Some 0"
    and "rd16 t (unat off) = Some ty" "ty \<noteq> PARTITION_CHANGE_TABLE" "ty \<noteq> INTERLEAVE_TABLE"
  shows "config_input_table_to_config_goal ad g t off limit goal w = None"
  using goal_zero_length [of ad g t off limit goal w] assms
  by (cases "config_input_table_to_config_goal ad g t off limit goal w") auto

theorem zero_length_goal_never_read_witness:
  "\<forall>ad g goal w. config_input_table_to_config_goal ad g [9, 0, 0, 0] 0 4 goal w = None"
  by (intro allI, rule zero_length_goal_never_read [of _ _ _ 9]) (simp_all add: rd16_def load_def)

end
