(* ===== verification/GoalSamples.thy ===== *)
theory GoalSamples
  imports GoalTables
begin

text \<open>
  A device, a context and goals on which the statements about \<^verbatim>\<open>src/lib/config_goal.c\<close> are
  instantiated.
\<close>

definition goal_device :: device_discovery where
  "goal_device = (sample_device 1)\<lparr>model_number := replicate 21 65,
     fw_revision := replicate NVM_VERSION_LEN 0, fw_api_version := replicate NVM_VERSION_LEN 0\<rparr>"

definition one_way :: interleave_format where
  "one_way = zero_format\<lparr>ways := INTERLEAVE_WAYS_1\<rparr>"

text \<open>28 GiB of memory and one set of 100 GiB on the device.\<close>

definition sample_goal :: config_goal where
  "sample_goal = zero_goal\<lparr>memory_size := 28, app_direct_count := 1, app_direct_1_size := 100,
     app_direct_1_set_id := 7, app_direct_1_settings := no_settings\<lparr>interleave := one_way,
       dimms := replicate GUID_LEN 1 # replicate 127 (replicate GUID_LEN 0)\<rparr>\<rparr>"

definition goal_ctx :: "nat nvm_context" where
  "goal_ctx = fresh_context\<lparr>
     p_capabilities := Some (zero_capabilities\<lparr>nvm_features := no_features\<lparr>modify_device_capacity := True,
       get_device_capacity := True\<rparr>\<rparr>),
     device_count := 1,
     p_devices := Some [(device_entry goal_device)\<lparr>p_pcd := Some header_only, pcd_size := 60\<rparr>]\<rparr>"

definition goal_world :: "(unit, nat) world" where
  "goal_world = \<lparr>w_ctx = \<lparr>p_context = Some goal_ctx, lock_held = False\<rparr>, w_hw = (), w_sent = [], w_events = []\<rparr>"

abbreviation goal_adapter :: "unit adapter" where "goal_adapter \<equiv> adapter_with blind_firmware"

lemma goal_device_known: "known_devices [goal_device]" "goal_device \<in> set [goal_device]"
  "dev_guid goal_device = replicate GUID_LEN 1" "device_handle goal_device = 1"
  "dev_capacity goal_device = 137438953472" "manageability goal_device = MANAGEMENT_VALIDCONFIG"
  by (simp_all add: known_devices_def goal_device_def sample_device_def wf_discovery_def)

lemma goal_adapter_ready: "ready goal_adapter" "driver_ok goal_adapter"
  by (simp_all add: ready_def adapter_with_driver_ok blind_firmware_def)

lemma goal_adapter_ready_os: "ad_os goal_adapter = os_fine"
  by simp

lemma goal_ctx_ok: "wf_ctx (Some goal_ctx)" "holds_devices (Some goal_ctx) [goal_device]"
  by (simp_all add: goal_ctx_def wf_ctx_def wf_list_def wf_device_def fresh_context_def device_entry_def
    holds_devices_def goal_device_def sample_device_def header_only_fields)

lemma goal_warm: "warm [goal_device] goal_world"
  using holds_devices_cached [OF goal_ctx_ok(2)] by (simp add: goal_world_def)

lemma usable_device: "usable_capacity_bytes (dev_capacity goal_device) = 137438953472"
  by (simp add: usable_capacity_bytes_def goal_device_known BYTES_PER_GB_def)

lemma sample_goal_fits:
  "validate_config_goal_size sample_goal goal_device = Some NVM_SUCCESS" "plain_goal sample_goal"
  by (simp_all add: validate_config_goal_size_def usable_device sample_goal_def zero_goal_def goal_sets_def
    validate_interleave_set_size_def get_size_from_capacity_def MAX_UINT64_GB_def BYTES_PER_GB_def
    plain_goal_def plain_size_def no_settings_def Let_def)


lemma goal_exists:
  fixes w :: "(unit, 'det) world"
  assumes "warm [goal_device] w"
  shows "\<exists>w'. exists_and_manageable goal_adapter (Some (replicate GUID_LEN 1)) True w =
    Some (NVM_SUCCESS, Some goal_device, w') \<and> warm [goal_device] w' \<and>
    w_sent w' = w_sent w \<and> p_context (w_ctx w') = p_context (w_ctx w)"
proof -
  from lookup_warm [OF _ _ goal_adapter_ready(2) assms, of "replicate GUID_LEN 1"] obtain w' where
    "lookup_dev_guid goal_adapter (Some (replicate GUID_LEN 1)) w = Some (NVM_SUCCESS, Some goal_device, w')"
    "w_sent w' = w_sent w" "p_context (w_ctx w') = p_context (w_ctx w)"
    by (auto simp: goal_device_known)
  with assms show ?thesis by (auto simp: exists_and_manageable_def goal_device_known)
qed

lemma one_way_ways: "ways_value (ways one_way) = 1"
  by (simp add: one_way_def)

lemma goal_set_run:
  fixes w :: "(unit, 'det) world"
  assumes "warm [goal_device] w" "dimms qos = replicate GUID_LEN 1 # gs" "interleave qos = one_way"
  shows "\<exists>t w'. config_goal_to_interleave_ext_table goal_adapter qos sz off idx w = Some (NVM_SUCCESS, t, w')"
proof -
  from goal_exists [OF assms(1)] obtain w' where
    e: "exists_and_manageable goal_adapter (Some (replicate GUID_LEN 1)) True w = Some (NVM_SUCCESS, Some goal_device, w')"
    by blast
  have "wf_discovery goal_device" using goal_device_known(1) by (simp add: known_devices_def)
  from goal_dimm_entry [OF this] e assms(2,3) one_way_ways show ?thesis
    by (simp add: config_goal_to_interleave_ext_table_def calloc_fine)
qed

lemma goal_one_set_run:
  fixes w :: "(unit, 'det) world"
  assumes "warm [goal_device] w" "app_direct_count goal = 1" "interleave (app_direct_1_settings goal) = one_way"
    and "dimms (app_direct_1_settings goal) = replicate GUID_LEN 1 # gs"
  shows "\<exists>t w'. goal_interleave_tables goal_adapter goal d w = Some (NVM_SUCCESS, [app_direct_table t], w')"
proof -
  obtain t w' where "config_goal_to_interleave_ext_table goal_adapter (app_direct_1_settings goal)
      (get_size_from_capacity (app_direct_1_size goal)
        (usable_capacity_bytes (dev_capacity d) - memory_size goal * BYTES_PER_GB)
        (mirrored (app_direct_1_settings goal) \<noteq> 0)) 0 (app_direct_1_set_id goal) w = Some (NVM_SUCCESS, t, w')"
    using goal_set_run [OF assms(1,4,3)] by blast
  then show ?thesis using assms(2) by (auto simp: goal_interleave_tables_def Let_def)
qed

theorem greedy_goal_overcommits_witness:
  "\<exists>tables (w' :: (unit, nat) world). goal_interleave_tables goal_adapter
      (greedy_goal (app_direct_1_settings sample_goal)) goal_device goal_world = Some (NVM_SUCCESS, tables, w') \<and>
    (\<exists>t. tables = [Interleave_info t] \<and> (\<forall>e \<in> set (ii_dimms t). unat (di_size e) = 129 * 2 ^ 30))"
proof -
  let ?q = "app_direct_1_settings sample_goal"
  have q: "dimms ?q = replicate GUID_LEN 1 # replicate 127 (replicate GUID_LEN 0)" "interleave ?q = one_way"
    "mirrored ?q = 0" by (simp_all add: sample_goal_def no_settings_def)
  obtain t w' where r: "goal_interleave_tables goal_adapter (greedy_goal ?q) goal_device goal_world =
      Some (NVM_SUCCESS, [app_direct_table t], w')"
    using goal_one_set_run [OF goal_warm, of "greedy_goal ?q" _ goal_device] q by (fastforce simp: greedy_goal_def)
  have "unat (dev_capacity goal_device) < 2 ^ 63" by (simp add: goal_device_known)
  from greedy_goal_overcommits [OF this q(3) r] r show ?thesis by (auto simp: usable_device)
qed

lemma new_table_run:
  assumes "goal_interleave_tables ad goal d w = Some (NVM_SUCCESS, tables, w')" "ad_os ad = os_fine"
    and "get_last_config_output_sequence_number old = Some n" "list_all wf_ext tables"
    and "length (encode_exts tables) < 2 ^ 31"
  shows "\<exists>t. new_input_table ad old (Some goal) d w = Some (NVM_SUCCESS, Some t, w') \<and>
    table_ok CONFIG_INPUT_TABLE_SIGNATURE INPUT_LEN t \<and> length t = 64 + length (encode_exts tables) \<and>
    rd32 t 36 = Some (n + 1)"
proof -
  let ?es = "Partition_change 0 (pm_partition_size goal d) # tables"
  let ?n = "INPUT_LEN + length (encode_exts ?es)"
  define b where "b = encode_header (intel_header CONFIG_INPUT_TABLE_SIGNATURE (of_nat ?n)) @
      (le32 (n + 1) @ replicate 8 0) @ encode_exts ?es"
  have c: "config_goal_to_config_input ad goal d (n + 1) w = Some (NVM_SUCCESS, Some b, w')"
    using assms(1,2) by (simp add: config_goal_to_config_input_def config_input_table_def b_def calloc_fine
        config_goal_to_partition_ext_table_def)
  have h: "length (encode_header (intel_header CONFIG_INPUT_TABLE_SIGNATURE (of_nat ?n))) = 36"
    by (simp add: encode_header_def intel_header_def ascii_def)
  then have l: "length b = ?n" by (simp add: b_def)
  have tl: "table_length b = Some (of_nat ?n)"
    using rd32_append [of 4 "CONFIG_INPUT_TABLE_SIGNATURE" "of_nat ?n"]
    by (simp add: table_length_def b_def encode_header_def intel_header_def)
  have un: "unat (of_nat ?n :: u32) = ?n" using assms(5) by (simp add: unat_of_nat del: of_nat_add)
  then obtain v where g: "generate_checksum b (of_nat ?n) CHECKSUM_OFFSET = Some (b[9 := v])"
    using l by (auto simp: generate_checksum_def Let_def)
  have "table_ok CONFIG_INPUT_TABLE_SIGNATURE INPUT_LEN (b[9 := v])"
    by (rule table_ok_encode [where fixed = "le32 (n + 1) @ replicate 8 0" and es = ?es and n = ?n])
      (use assms(4,5) g b_def in simp_all)
  moreover have "rd32 (b[9 := v]) 36 = Some (n + 1)"
    using rd32_append [OF h [symmetric], of "n + 1" "replicate 8 0 @ encode_exts ?es"] l
    by (simp add: b_def rd_as_bytes rd_bytes_update_other)
  moreover have "length (b[9 := v]) = 64 + length (encode_exts tables)" using l by simp
  ultimately show ?thesis
    using assms(3) c tl g by (simp add: new_input_table_def)
qed

lemma header_only_tables:
  "cast_current_config header_only = Some None" "cast_config_input header_only = Some None"
  "cast_config_output header_only = Some None" "get_last_config_output_sequence_number header_only = Some 0"
  using header_only_fields
  by (simp_all add: cast_current_config_def cast_config_input_def cast_config_output_def cast_table_def
    get_last_config_output_sequence_number_def)

text \<open>A goal without sets on a device never configured: its table, and the data around it.\<close>

lemma bare_goal_run:
  assumes "app_direct_count goal = 0" "ad_os ad = os_fine"
  shows "\<exists>t cfg. new_input_table ad header_only (Some goal) d w = Some (NVM_SUCCESS, Some t, w) \<and>
    build_input_ok None (Some t) None \<and> rd32 t 36 = Some 1 \<and>
    build_platform_config_data True None (Some t) None (Some None) = Some (NVM_SUCCESS, Some (Some cfg)) \<and>
    pcd_size_of cfg = Some 124 \<and> length cfg = DEV_PLT_CFG_PART_SIZE"
proof -
  have "goal_interleave_tables ad goal d w = Some (NVM_SUCCESS, [], w)"
    using assms(1) by (simp add: goal_interleave_tables_def)
  from new_table_run [OF this assms(2) header_only_tables(4)] obtain t where
    t: "new_input_table ad header_only (Some goal) d w = Some (NVM_SUCCESS, Some t, w)"
      "table_ok CONFIG_INPUT_TABLE_SIGNATURE INPUT_LEN t" "length t = 64" "rd32 t 36 = Some 1" by auto
  then have ok: "build_input_ok None (Some t) None" by (simp add: build_input_ok_def DEV_PLT_CFG_PART_SIZE_def)
  from build_ok [OF ok] obtain cfg where c:
    "build_platform_config_data True None (Some t) None (Some None) = Some (NVM_SUCCESS, Some (Some cfg))"
    "length cfg = DEV_PLT_CFG_PART_SIZE" "holds cfg 36 None" "holds cfg 44 (Some t)" "holds cfg 52 None"
    "table_length cfg = Some 60" by blast
  with t(3) have "pcd_size_of cfg = Some 124" by (simp add: pcd_size_of_def holds_def)
  with c t ok show ?thesis by blast
qed


theorem goal_written_only_when_valid_witness:
  "\<exists>w'. nvm_create_config_goal goal_adapter True (Some (replicate GUID_LEN 1)) (Some zero_goal) goal_world =
      Some (NVM_ERR_DRIVERFAILED, w') \<and> set_cmds w' \<noteq> [] \<and>
    dimm_has_namespaces_of_type goal_adapter () 1 NAMESPACE_TYPE_UNKNOWN = Some 0"
proof -
  let ?g = "replicate GUID_LEN 1 :: guid"
  have x: "p_context (w_ctx goal_world) = Some goal_ctx" by (simp add: goal_world_def)
  obtain caps where caps: "p_capabilities goal_ctx = Some caps" "modify_device_capacity (nvm_features caps)"
    "platform_capabilities caps = platform_capabilities zero_capabilities"
    by (simp add: goal_ctx_def zero_capabilities_def)
  from capabilities_cached [OF _ _ x caps(1), of goal_adapter] obtain w1 where
    w1: "nvm_get_nvm_capabilities goal_adapter True goal_world = Some (NVM_SUCCESS, Some caps, w1)"
      "p_context (w_ctx w1) = Some goal_ctx" "w_sent w1 = []" "w_hw w1 = ()" by (simp add: goal_world_def)
  have "warm [goal_device] w1" using w1(2) holds_devices_cached [OF goal_ctx_ok(2)] by simp
  from goal_exists [OF this] obtain w2 where
    w2: "exists_and_manageable goal_adapter (Some ?g) True w1 = Some (NVM_SUCCESS, Some goal_device, w2)"
      "p_context (w_ctx w2) = Some goal_ctx" "w_sent w2 = []" using w1(2,3) by auto
  have n: "dimm_has_namespaces_of_type goal_adapter h 1 ty = Some 0" for h ty
    by (simp add: dimm_has_namespaces_of_type_def adapter_with_def empty_ns_driver_def)
  have v: "validate_config_goal zero_goal caps goal_device w2 = Some (NVM_SUCCESS, w2)"
    using caps(3)
    by (simp add: validate_config_goal_def validate_config_goal_supported_def goal_support_def zero_goal_def
        memory_capacity_is_requested_but_not_supported_def app_direct_capacity_is_requested_but_not_supported_def
        get_number_of_mirrored_app_direct_interleave_sets_def validate_config_goal_size_def
        validate_interleave_set_size_def get_size_from_capacity_def validate_config_goal_alignment_def
        zero_capabilities_def zero_memory_capabilities_def shifted_one_def validate_size_alignment_def)
  have f: "find (\<lambda>d. 1 = device_handle d) [goal_device] = Some goal_device" by (simp add: goal_device_known)
  have wf: "wf_ctx (p_context (w_ctx w2))" using w2(2) goal_ctx_ok by simp
  have "read_pcd (dev_guid goal_device) (w_ctx w2) = Some header_only"
    unfolding read_pcd_eq [OF wf] using w2(2)
    by (simp add: device_at_def goal_ctx_def find_device_def device_entry_def header_only_fields
        goal_device_def sample_device_def guid_match_iff)
  from warm_pcd [OF _ _ goal_adapter_ready(2) wf _ _ f this, of True] w2(2,3) goal_ctx_ok obtain w3 where
    g: "get_dimm_platform_config goal_adapter True 1 w2 = Some (NVM_SUCCESS, Config header_only, w3)"
      "w_sent w3 = []" by auto
  have "app_direct_count zero_goal = 0" by (simp add: zero_goal_def)
  from bare_goal_run [OF this goal_adapter_ready_os, of goal_device w3] obtain t cfg where t:
    "new_input_table goal_adapter header_only (Some zero_goal) goal_device w3 = Some (NVM_SUCCESS, Some t, w3)"
    "build_platform_config_data True None (Some t) None (Some None) = Some (NVM_SUCCESS, Some (Some cfg))"
    "pcd_size_of cfg = Some 124" "length cfg = DEV_PLT_CFG_PART_SIZE" by blast
  have "\<exists>w4. set_dimm_platform_config goal_adapter True 1 cfg w3 = Some (NVM_ERR_DRIVERFAILED, w4) \<and> set_cmds w4 \<noteq> []"
  proof -
    have b: "DEV_PLT_CFG_PART_SIZE = 131072" by (simp add: DEV_PLT_CFG_PART_SIZE_def)
    obtain buf where "rd_bytes cfg 0 124 = Some (take 124 cfg)"
      "store (replicate DEV_PLT_CFG_PART_SIZE 0) 0 (take 124 cfg) = Some buf"
      using t(4) by (simp add: rd_bytes_def store_def b)
    then show ?thesis
      using t(3) w2(3) g(2)
      by (simp add: set_dimm_platform_config_def write_pcd_large_def calloc_fine ioctl_passthrough_cmd_def
          blind_firmware_def set_cmds_def pcd_set_cmd_def fw_cmd_for_def)
  qed
  then obtain w4 where s: "set_dimm_platform_config goal_adapter True 1 cfg w3 = Some (NVM_ERR_DRIVERFAILED, w4)"
    "set_cmds w4 \<noteq> []" by blast
  have u: "update_config_goal goal_adapter True goal_device (Some zero_goal) w2 = Some (NVM_ERR_DRIVERFAILED, w4)"
    using g(1) t header_only_tables s(1) by (simp add: update_config_goal_def goal_device_known calloc_fine free_config_def)
  have r: "nvm_create_config_goal goal_adapter True (Some ?g) (Some zero_goal) goal_world = Some (NVM_ERR_DRIVERFAILED, w4)"
    using w1(1) caps w2(1) n v u by (simp add: nvm_create_config_goal_def goal_device_known log_success_def)
  have "set_cmds w4 \<noteq> set_cmds goal_world" using s(2) by (simp add: set_cmds_def goal_world_def)
  from goal_written_only_when_valid [OF r this] r s(2) n show ?thesis by blast
qed

theorem goal_round_trip_witness:
  "\<exists>t (w' :: (unit, nat) world) w''.
    new_input_table goal_adapter header_only (Some sample_goal) goal_device goal_world = Some (NVM_SUCCESS, Some t, w') \<and>
    config_input_table_to_config_goal goal_adapter (replicate GUID_LEN 1) t (of_nat INPUT_LEN) (of_nat (length t))
      (zero_goal\<lparr>goal_status := CONFIG_GOAL_STATUS_NEW\<rparr>) w' =
      Some (NVM_SUCCESS, goal_read sample_goal CONFIG_GOAL_STATUS_NEW, w'')"
proof -
  let ?s = "app_direct_1_settings sample_goal"
  have s: "app_direct_count sample_goal = 1" "interleave ?s = one_way"
    "dimms ?s = replicate GUID_LEN 1 # replicate 127 (replicate GUID_LEN 0)"
    by (simp_all add: sample_goal_def)
  have has: "list_all (set_has (dev_guid goal_device)) (take (unat (app_direct_count sample_goal))
      [?s, app_direct_2_settings sample_goal])"
    by (simp add: s set_has_def one_way_ways goal_device_known(3))
  have two: "unat (app_direct_count sample_goal) \<le> 2" by (simp add: s)
  from goal_one_set_run [OF goal_warm s] obtain tb w1 where
    r: "goal_interleave_tables goal_adapter sample_goal goal_device goal_world = Some (NVM_SUCCESS, [app_direct_table tb], w1)"
    by blast
  note a = goal_adapter_ready(1) goal_device_known(1) goal_warm goal_device_known(2) sample_goal_fits two has
  from goal_sets_tables [OF a r, of CONFIG_GOAL_STATUS_NEW] obtain ss where ss: "[app_direct_table tb] = map table_of ss"
    "list_all (good_set [goal_device] goal_device) ss" by (elim conjE exE)
  then obtain idx mirr fmt sz off xs where one: "ss = [(idx, mirr, fmt, sz, off, xs)]"
    by (cases ss; cases "hd ss") auto
  have "wf_discovery goal_device" using goal_device_known(1) by (simp add: known_devices_def)
  with ss(2) one have "\<forall>x \<in> set xs. wf_discovery x" "length xs < 256" by auto
  then have "wf_ext (app_direct_table tb)" using ss(1) one wf_goal_table by simp
  moreover have "length (encode_exts [app_direct_table tb]) < 2 ^ 31"
    using sets_length [OF goal_device_known(1) ss(2)] one unfolding ss(1) by simp
  ultimately obtain t where t: "new_input_table goal_adapter header_only (Some sample_goal) goal_device goal_world =
      Some (NVM_SUCCESS, Some t, w1)"
    using new_table_run [OF r goal_adapter_ready_os header_only_tables(4)] by auto
  from goal_round_trip [OF a t] t show ?thesis unfolding goal_device_known(3) by blast
qed

end
