(* ===== verification/DeviceFw.thy ===== *)
theory DeviceFw
  imports Reads Complex_Main
begin

text \<open>
  The firmware commands of \<^verbatim>\<open>src/lib/device_fw.c\<close>, the temperatures the firmware encodes, and the
  translation of its error codes (\<^verbatim>\<open>src/lib/device_fw.h\<close>).
\<close>

abbreviation (input) NVM_ERR_DATATRANSFERERROR :: int where "NVM_ERR_DATATRANSFERERROR \<equiv> - 8"
abbreviation (input) NVM_ERR_BADFIRMWARE :: int where "NVM_ERR_BADFIRMWARE \<equiv> - 25"

abbreviation (input) SUBOP_ALARM_THRESHOLDS :: u8 where "SUBOP_ALARM_THRESHOLDS \<equiv> 1"
abbreviation (input) SUBOP_SMART_HEALTH :: u8 where "SUBOP_SMART_HEALTH \<equiv> 0"
abbreviation (input) SUBOP_FW_IMAGE_INFO :: u8 where "SUBOP_FW_IMAGE_INFO \<equiv> 1"
abbreviation (input) SUBOP_MEM_INFO :: u8 where "SUBOP_MEM_INFO \<equiv> 3"
abbreviation (input) SUBOP_ERROR_LOG :: u8 where "SUBOP_ERROR_LOG \<equiv> 5"

section \<open>Errors\<close>

definition fw_mb_err_to_nvm_lib_err :: "u32 \<Rightarrow> int" where
  "fw_mb_err_to_nvm_lib_err status =
     (let e = drop_bit 16 (status AND 0xFF0000) in
      if e = 0x01 then NVM_ERR_INVALIDPARAMETER
      else if e = 0x02 then NVM_ERR_DATATRANSFERERROR
      else if e = 0x03 then NVM_ERR_DEVICEERROR
      else if e = 0x04 then NVM_ERR_NOTSUPPORTED
      else if e = 0x05 then NVM_ERR_DEVICEBUSY
      else if e = 0x06 then NVM_ERR_BADPASSPHRASE
      else if e = 0x07 then NVM_ERR_BADFIRMWARE
      else if e = 0x08 then NVM_ERR_BADSECURITYSTATE
      else if e \<in> {0x09, 0x0A, 0x0B} then NVM_ERR_DEVICEERROR
      else if e \<in> {0x0C, 0x0D} then NVM_ERR_BADFIRMWARE
      else if e \<in> {0x0E, 0x0F} then NVM_ERR_NOTSUPPORTED
      else if e = 0x10 then NVM_ERR_DEVICEERROR
      else if e = 0x11 then NVM_ERR_NOTSUPPORTED
      else NVM_ERR_DEVICEERROR)"

definition dsm_err_to_nvm_lib_err :: "u32 \<Rightarrow> int" where
  "dsm_err_to_nvm_lib_err status =
     (if status = 0 then NVM_SUCCESS
      else
        let e = status AND 0xFFFF in
        if e = 1 then NVM_ERR_NOTSUPPORTED
        else if e = 2 then NVM_ERR_BADDEVICE
        else if e = 4 then fw_mb_err_to_nvm_lib_err status
        else NVM_ERR_DRIVERFAILED)"

section \<open>Commands\<close>

text \<open>The output buffers are zeroed before the command. A record of the payload is its bytes.\<close>

definition fw_get_alarm_thresholds ::
  "'hw adapter \<Rightarrow> u32 \<Rightarrow> ('hw, 'det) world \<Rightarrow> int \<times> bytes \<times> ('hw, 'det) world" where
  "fw_get_alarm_thresholds ad handle w =
     (let (rc, out, _, w) = ioctl_passthrough_cmd ad
            ((fw_cmd_for handle PT_GET_FEATURES SUBOP_ALARM_THRESHOLDS)\<lparr>cmd_output_payload_size := 128\<rparr>) w
      in (rc, out, w))"

definition fw_set_alarm_thresholds ::
  "'hw adapter \<Rightarrow> u32 \<Rightarrow> bytes \<Rightarrow> ('hw, 'det) world \<Rightarrow> int \<times> ('hw, 'det) world" where
  "fw_set_alarm_thresholds ad handle thresholds w =
     (let (rc, _, _, w) = ioctl_passthrough_cmd ad
            ((fw_cmd_for handle PT_SET_FEATURES SUBOP_ALARM_THRESHOLDS)\<lparr>cmd_input_payload := thresholds\<rparr>) w
      in (rc, w))"

definition fw_get_smart_health ::
  "'hw adapter \<Rightarrow> u32 \<Rightarrow> ('hw, 'det) world \<Rightarrow> int \<times> bytes \<times> ('hw, 'det) world" where
  "fw_get_smart_health ad handle w =
     (let (rc, out, _, w) = ioctl_passthrough_cmd ad
            ((fw_cmd_for handle PT_GET_LOG SUBOP_SMART_HEALTH)\<lparr>cmd_output_payload_size := 128\<rparr>) w
      in (rc, out, w))"

definition fw_get_memory_info_page ::
  "'hw adapter \<Rightarrow> u32 \<Rightarrow> u8 \<Rightarrow> nat \<Rightarrow> ('hw, 'det) world \<Rightarrow> int \<times> bytes \<times> ('hw, 'det) world" where
  "fw_get_memory_info_page ad handle page_num page_size w =
     (let (rc, out, _, w) = ioctl_passthrough_cmd ad
            ((fw_cmd_for handle PT_GET_LOG SUBOP_MEM_INFO)
               \<lparr>cmd_input_payload := page_num # replicate 127 0, cmd_output_payload_size := page_size\<rparr>) w
      in (rc, out, w))"

definition fw_get_fw_image_info ::
  "'hw adapter \<Rightarrow> u32 \<Rightarrow> ('hw, 'det) world \<Rightarrow> int \<times> bytes \<times> ('hw, 'det) world" where
  "fw_get_fw_image_info ad handle w =
     (let (rc, out, _, w) = ioctl_passthrough_cmd ad
            ((fw_cmd_for handle PT_GET_LOG SUBOP_FW_IMAGE_INFO)\<lparr>cmd_output_payload_size := 128\<rparr>) w
      in (rc, out, w))"

text \<open>The parameters of an error log request: level, type and payload in one byte, an offset and the
  number of entries, which is cut to a byte.\<close>

definition error_log_input :: "u8 \<Rightarrow> u8 \<Rightarrow> u8 \<Rightarrow> u32 \<Rightarrow> bytes" where
  "error_log_input log_level log_type payload error_count =
     [log_level OR log_type OR payload, 0, ucast error_count] @ replicate 124 0"

definition fw_get_fw_error_log_count ::
  "'hw adapter \<Rightarrow> u32 \<Rightarrow> u8 \<Rightarrow> u8 \<Rightarrow> ('hw, 'det) world \<Rightarrow> (int \<times> ('hw, 'det) world) option" where
  "fw_get_fw_error_log_count ad handle log_level log_type w =
     (let (rc, out, _, w) = ioctl_passthrough_cmd ad
            ((fw_cmd_for handle PT_GET_LOG SUBOP_ERROR_LOG)
               \<lparr>cmd_input_payload := error_log_input log_level log_type 0 0, cmd_output_payload_size := 128\<rparr>) w
      in if rc = NVM_SUCCESS then do { n \<leftarrow> rd16 out 0; Some (uint n, w) } else Some (rc, w))"

text \<open>An entry is 32 bytes of the media log and 16 of the thermal log.\<close>

definition fw_get_fw_error_logs ::
  "'hw adapter \<Rightarrow> u32 \<Rightarrow> u32 \<Rightarrow> u8 \<Rightarrow> u8 \<Rightarrow> ('hw, 'det) world \<Rightarrow> int \<times> bytes \<times> ('hw, 'det) world" where
  "fw_get_fw_error_logs ad handle error_count log_level log_type w =
     (let (rc, _, out, w) = ioctl_passthrough_cmd ad
            ((fw_cmd_for handle PT_GET_LOG SUBOP_ERROR_LOG)
               \<lparr>cmd_input_payload := error_log_input log_level log_type 8 error_count,
                cmd_large_output_payload_size :=
                  unat (error_count * (if log_type = 0 then 32 else 16))\<rparr>) w
      in (rc, out, w))"

section \<open>Temperatures\<close>

text \<open>
  The firmware writes a temperature with a sign bit, 11 bits of degrees and 4 of sixteenths. The C
  functions compute with floats, which are rationals here: all operations on them are exact but one,
  the difference of a negative temperature and its unsigned degrees, which lies between \<open>- 65537\<close> and
  \<open>- 65536\<close>, where a float of 24 bits is a multiple of \<open>1 / 128\<close>.
\<close>

fun add_fraction_bits :: "u16 \<Rightarrow> nat \<Rightarrow> int \<Rightarrow> rat \<Rightarrow> rat" where
  "add_fraction_bits fraction 0 divisor celsius = celsius"
| "add_fraction_bits fraction (Suc i) divisor celsius =
     add_fraction_bits fraction i (2 * divisor)
       (celsius + (if bit fraction i then 1 else 0) / of_int divisor)"

definition fw_convert_fw_celsius_to_float :: "u16 \<Rightarrow> rat" where
  "fw_convert_fw_celsius_to_float fw =
     (let digit = drop_bit 4 fw AND 0x7FF;
          celsius = add_fraction_bits (fw AND 0xF) 4 2 (of_int (uint digit))
      in if drop_bit 15 fw \<noteq> 0 then celsius * - 1 else celsius)"

text \<open>Converting to an integer cuts towards zero.\<close>

definition cut :: "rat \<Rightarrow> int" where
  "cut x = (if x < 0 then \<lceil>x\<rceil> else \<lfloor>x\<rfloor>)"

fun fraction_of :: "nat \<Rightarrow> rat \<Rightarrow> u16 \<Rightarrow> u16" where
  "fraction_of 0 left fraction = fraction"
| "fraction_of (Suc i) left fraction =
     (let left = left * 2 in
      if left \<ge> 1 then fraction_of i (left - of_int (cut left)) (fraction OR push_bit i 1)
      else fraction_of i left fraction)"

text \<open>The nearest integer, the even one of two.\<close>

definition nearest :: "rat \<Rightarrow> int" where
  "nearest x =
     (let r = x - of_int \<lfloor>x\<rfloor> in
      if r < 1 / 2 \<or> (r = 1 / 2 \<and> even \<lfloor>x\<rfloor>) then \<lfloor>x\<rfloor> else \<lfloor>x\<rfloor> + 1)"

definition float_minus :: "rat \<Rightarrow> int \<Rightarrow> rat" where
  "float_minus x d =
     (let y = x - of_int d in if y \<le> - 65536 then of_int (nearest (y * 128)) / 128 else y)"

text \<open>A temperature outside the 16-bit range has no defined conversion. \<open>digit\<close> is unsigned, so
  the degrees of a negative temperature wrap around.\<close>

definition fw_convert_float_to_fw_celsius :: "rat \<Rightarrow> u16 option" where
  "fw_convert_float_to_fw_celsius celsius =
     (if cut celsius < - 32768 \<or> 32767 < cut celsius then None
      else
        let digit = of_int (cut celsius) :: u16;
            left = float_minus celsius (uint digit);
            neg = celsius < 0;
            left = (if neg then left * - 1 else left);
            fraction = fraction_of 4 left 0
        in Some ((if neg then 0x8000 else 0) OR push_bit 4 digit OR fraction))"

section \<open>Properties\<close>

text \<open>No error of the driver or of the firmware's mailbox is lost in the translation: the library
  reports success exactly for the status zero, and a negative code otherwise.\<close>
theorem dsm_error_kept:
  "(dsm_err_to_nvm_lib_err status = NVM_SUCCESS) = (status = 0) \<and> dsm_err_to_nvm_lib_err status \<le> 0"
  by (simp add: dsm_err_to_nvm_lib_err_def fw_mb_err_to_nvm_lib_err_def Let_def)

lemma set_top_bit:
  assumes "2 ^ n \<le> k" "k < 2 ^ Suc n"
  shows "push_bit n 1 OR of_nat (k - 2 ^ n) = (of_nat k :: u16)"
proof -
  have "\<not> bit (k - 2 ^ n) n" using assms by (simp add: bit_nat_iff bit_iff_odd)
  then have "push_bit n 1 AND of_nat (k - 2 ^ n) = (0 :: u16)"
    by (intro bit_word_eqI) (auto simp: bit_simps)
  then have "push_bit n 1 OR of_nat (k - 2 ^ n) = (push_bit n 1 + of_nat (k - 2 ^ n) :: u16)"
    by (simp add: disjunctive_add_eq_or)
  also have "\<dots> = of_nat k" using assms(1) by (simp add: push_bit_eq_mult of_nat_diff)
  finally show ?thesis .
qed

lemma fraction_value:
  "k < 2 ^ n \<Longrightarrow> fraction_of n (of_nat k / 2 ^ n) fr = fr OR of_nat k"
proof (induction n arbitrary: k fr)
  case (Suc n)
  have two: "of_nat k / 2 ^ Suc n * 2 = (of_nat k / 2 ^ n :: rat)" by simp
  have nat: "(of_nat k :: rat) < 2 ^ m \<longleftrightarrow> k < 2 ^ m" "2 ^ m \<le> (of_nat k :: rat) \<longleftrightarrow> 2 ^ m \<le> k" for m
    using of_nat_less_iff [of k "2 ^ m", where 'a = rat] of_nat_le_iff [of "2 ^ m" k, where 'a = rat]
    by (simp_all only: of_nat_power of_nat_numeral)
  show ?case
  proof (cases "2 ^ n \<le> k")
    case True
    have one: "1 \<le> of_nat k / (2 ^ n :: rat)" using True by (simp add: le_divide_eq nat)
    moreover have "of_nat k / 2 ^ n < (2 :: rat)"
      using Suc.prems nat(1) [of "Suc n"] by (simp add: divide_less_eq)
    moreover have "\<not> of_nat k / 2 ^ n < (0 :: rat)" using one by linarith
    ultimately have c: "cut (of_nat k / 2 ^ n) = 1" unfolding cut_def by (simp add: floor_eq_iff)
    have "of_nat k / 2 ^ n - of_int (cut (of_nat k / 2 ^ n)) = (of_nat (k - 2 ^ n) / 2 ^ n :: rat)"
      unfolding c using True by (simp add: of_nat_diff diff_divide_distrib)
    moreover have "k - 2 ^ n < 2 ^ n" using Suc.prems by simp
    ultimately show ?thesis
      using Suc.IH [of "k - 2 ^ n" "fr OR push_bit n 1"] set_top_bit [OF True Suc.prems] one
      unfolding fraction_of.simps two Let_def by (simp only: if_True or.assoc)
  next
    case False
    then have "\<not> 1 \<le> of_nat k / (2 ^ n :: rat)" and k: "k < 2 ^ n" by (simp_all add: le_divide_eq nat)
    then show ?thesis
      using Suc.IH [OF k, of fr] unfolding fraction_of.simps two Let_def by (simp only: if_False)
  qed
qed simp

lemma fraction_sum:
  "d \<noteq> 0 \<Longrightarrow> add_fraction_bits f n d c = c + of_nat (unat (take_bit n f)) * 2 / (of_int d * 2 ^ n)"
proof (induction n arbitrary: d c)
  case (Suc n)
  define u where "u = (of_nat (unat (take_bit n f)) :: rat)"
  have "unat (take_bit (Suc n) f) = (if bit f n then 2 ^ n else 0) + unat (take_bit n f)"
    by (simp add: unsigned_take_bit_eq take_bit_Suc_from_most bit_simps bit_imp_le_length)
  then have v: "(of_nat (unat (take_bit (Suc n) f)) :: rat) = (if bit f n then 2 ^ n else 0) + u"
    unfolding u_def by (simp only: of_nat_add) simp
  have "add_fraction_bits f (Suc n) d c =
      c + (if bit f n then 1 else 0) / of_int d + u * 2 / (of_int (2 * d) * 2 ^ n)"
    using Suc.IH [of "2 * d"] Suc.prems unfolding u_def by simp
  also have "\<dots> = c + ((if bit f n then 2 ^ n else 0) + u) * 2 / (of_int d * 2 ^ Suc n)"
    using Suc.prems by (simp add: field_simps)
  finally show ?case unfolding v .
qed simp

lemma fraction_bits: "bit (fraction_of n left fr) i \<Longrightarrow> i < n \<or> bit fr i"
proof (induction n left fr rule: fraction_of.induct)
  case (2 n left fr)
  then show ?case by (auto simp: Let_def bit_simps split: if_splits)
qed simp

text \<open>The degrees and the sixteenths of an encoded temperature.\<close>

definition fw_degrees :: "u16 \<Rightarrow> nat" where "fw_degrees fw = unat (drop_bit 4 fw AND 0x7FF)"

definition fw_sixteenths :: "u16 \<Rightarrow> nat" where "fw_sixteenths fw = unat (fw AND 0xF)"

lemma fw_masks: "0x7FF = (mask 11 :: u16)" "0xF = (mask 4 :: u16)" "0x8000 = (push_bit 15 1 :: u16)"
  by (simp_all add: mask_eq_exp_minus_1)

lemma sign_bit: "bit (0x8000 :: u16) n = (n = 15)"
proof -
  have "(0x8000 :: u16) = 2 ^ 15" by simp
  then show ?thesis by (simp only: bit_exp_iff) auto
qed

lemma of_nat_back: "of_nat (unat (x :: u16)) = x"
  by simp

lemma fw_parts:
  "fw_degrees fw < 2048" "fw_sixteenths fw < 16"
  "fw = (if bit fw 15 then 0x8000 else 0) OR push_bit 4 (of_nat (fw_degrees fw)) OR of_nat (fw_sixteenths fw)"
  "drop_bit 15 fw \<noteq> 0 \<longleftrightarrow> bit fw 15"
proof -
  have "drop_bit 4 fw AND mask 11 < 2 ^ 11" "fw AND mask 4 < 2 ^ 4"
    by (rule and_mask_less_size, simp add: word_size)+
  then show "fw_degrees fw < 2048" "fw_sixteenths fw < 16"
    unfolding fw_degrees_def fw_sixteenths_def fw_masks by (simp_all add: word_less_nat_alt)
  show "fw = (if bit fw 15 then 0x8000 else 0) OR push_bit 4 (of_nat (fw_degrees fw)) OR of_nat (fw_sixteenths fw)"
    unfolding fw_degrees_def fw_sixteenths_def fw_masks(1,2) of_nat_back
  proof (rule bit_word_eqI)
    fix n assume "n < LENGTH(16)"
    then consider "n < 4" | "n < 15" "4 \<le> n" "n - 4 < 11" | "n = 15" by fastforce
    then show "bit fw n = bit ((if bit fw 15 then 0x8000 else 0) OR push_bit 4 (drop_bit 4 fw AND mask 11) OR
        (fw AND mask 4)) n"
      using sign_bit [of n] by cases (auto simp: bit_simps)
  qed
  have "drop_bit 15 fw = (if bit fw 15 then 1 else 0)"
  proof (rule bit_word_eqI)
    fix n
    have "bit fw (15 + n) \<longleftrightarrow> n = 0 \<and> bit fw 15" by (cases n) (auto dest: bit_imp_le_length)
    then show "bit (drop_bit 15 fw) n = bit (if bit fw 15 then 1 else 0 :: u16) n" by (simp add: bit_simps)
  qed
  then show "drop_bit 15 fw \<noteq> 0 \<longleftrightarrow> bit fw 15" by simp
qed

lemma celsius_value:
  "fw_convert_fw_celsius_to_float fw =
     (if bit fw 15 then - 1 else 1) * (of_nat (fw_degrees fw) + of_nat (fw_sixteenths fw) / 16)"
proof -
  have t: "take_bit 4 (fw AND 0xF) = fw AND 0xF" by (simp add: fw_masks(2) take_bit_eq_mask and.assoc)
  have "of_int (uint (drop_bit 4 fw AND 0x7FF)) = (of_nat (fw_degrees fw) :: rat)"
    unfolding fw_degrees_def uint_nat by (rule of_int_of_nat_eq)
  moreover have "of_nat (unat (fw AND 0xF)) = (of_nat (fw_sixteenths fw) :: rat)"
    unfolding fw_sixteenths_def ..
  ultimately show ?thesis
    unfolding fw_convert_fw_celsius_to_float_def Let_def fw_parts(4) by (simp only: fraction_sum t) simp
qed

text \<open>Temperatures of zero and above survive: the value the firmware encodes is encoded as the same
  16 bits again.\<close>
theorem celsius_round_trip:
  assumes "\<not> bit fw 15"
  shows "fw_convert_float_to_fw_celsius (fw_convert_fw_celsius_to_float fw) = Some fw"
proof -
  let ?d = "fw_degrees fw" and ?s = "fw_sixteenths fw"
  let ?c = "of_nat ?d + of_nat ?s / 16 :: rat"
  have d: "?d < 2048" and s: "?s < 16" by (rule fw_parts)+
  have c: "fw_convert_fw_celsius_to_float fw = ?c" using assms by (simp add: celsius_value)
  have nn: "\<not> ?c < 0" by (simp add: not_less)
  have "of_nat ?s / 16 < (1 :: rat)" using s by simp
  then have cut: "cut ?c = int ?d" using nn unfolding cut_def by (simp add: floor_eq_iff)
  have "uint (of_int (int ?d) :: u16) = int ?d" using d by (simp add: uint_nat unat_of_nat)
  then have "of_int (uint (of_int (int ?d) :: u16)) = (of_nat ?d :: rat)" by (simp only: of_int_of_nat_eq)
  then have "?c - of_int (uint (of_int (int ?d) :: u16)) = of_nat ?s / 16" by (simp only: add_diff_cancel_left')
  moreover have "\<not> of_nat ?s / 16 \<le> (- 65536 :: rat)" by (simp add: not_le)
  ultimately have left: "float_minus ?c (uint (of_int (int ?d) :: u16)) = of_nat ?s / 16"
    unfolding float_minus_def Let_def by (simp only: if_False)
  have "fw_convert_float_to_fw_celsius ?c = Some (push_bit 4 (of_nat ?d) OR of_nat ?s)"
    using fraction_value [of ?s 4 0] s d nn unfolding fw_convert_float_to_fw_celsius_def cut Let_def left by simp
  moreover have "fw = push_bit 4 (of_nat ?d) OR of_nat ?s" using fw_parts(3) [of fw] assms by simp
  ultimately show ?thesis using c by simp
qed

theorem celsius_round_trip_witness:
  "fw_convert_float_to_fw_celsius (fw_convert_fw_celsius_to_float 0x544) = Some 0x544"
  by (rule celsius_round_trip) simp

text \<open>Temperatures below zero do not survive: the degrees are encoded as their 11-bit two's
  complement beside the sign bit.\<close>
theorem negative_celsius_lost:
  assumes "bit fw 15" "0 < fw_degrees fw"
  shows "\<exists>fw'. fw_convert_float_to_fw_celsius (fw_convert_fw_celsius_to_float fw) = Some fw' \<and>
    bit fw' 15 \<and> fw_degrees fw' = 2048 - fw_degrees fw"
proof -
  let ?d = "fw_degrees fw" and ?s = "fw_sixteenths fw"
  let ?c = "- 1 * (of_nat ?d + of_nat ?s / 16) :: rat"
  have d: "?d < 2048" and s: "?s < 16" by (rule fw_parts)+
  have c: "fw_convert_fw_celsius_to_float fw = ?c" using assms by (simp add: celsius_value)
  have q: "of_nat ?s / 16 < (1 :: rat)" "0 \<le> (of_nat ?s / 16 :: rat)" "(1 :: rat) \<le> of_nat ?d"
    using s assms(2) by (simp_all add: Suc_le_eq)
  then have neg: "?c < 0" by (simp add: add_pos_nonneg)
  have cut: "cut ?c = - int ?d" unfolding cut_def using neg q by (simp add: ceiling_eq_iff)
  define fr where "fr = fraction_of 4 (float_minus ?c (uint (of_int (- int ?d) :: u16)) * - 1) 0"
  have "fw_convert_float_to_fw_celsius ?c = Some (0x8000 OR push_bit 4 (of_int (- int ?d)) OR fr)"
    using d neg unfolding fw_convert_float_to_fw_celsius_def cut Let_def fr_def by simp
  moreover have fr: "bit fr i \<Longrightarrow> i < 4" for i
    unfolding fr_def using fraction_bits [of 4 _ 0 i] by simp
  define sg where "sg = (0x8000 :: u16)"
  have sg: "bit sg n = (n = 15)" for n unfolding sg_def by (rule sign_bit)
  define g where "g = (of_int (- int ?d) :: u16)"
  have "bit (sg OR push_bit 4 g OR fr) 15" by (simp add: bit_simps sg)
  moreover have "drop_bit 4 (sg OR push_bit 4 g OR fr) AND 0x7FF = g AND 0x7FF"
    unfolding fw_masks(1)
  proof (rule bit_word_eqI)
    fix n
    show "bit (drop_bit 4 (sg OR push_bit 4 g OR fr) AND mask 11) n = bit (g AND mask 11) n"
      using fr [of "4 + n"] by (auto simp: bit_simps sg dest: bit_imp_le_length)
  qed
  moreover have "unat (g AND 0x7FF) = 2048 - ?d"
  proof -
    have "g = of_nat (65536 - ?d)" using d by (simp add: g_def of_nat_diff)
    then have "unat (g AND 0x7FF) = (65536 - ?d) mod 2048"
      using assms(2) by (simp add: fw_masks(1) take_bit_eq_mask [symmetric] take_bit_eq_mod unat_mod_distrib unat_of_nat)
    also have "65536 - ?d = 2048 - ?d + 31 * 2048" using d by simp
    also have "\<dots> mod 2048 = 2048 - ?d" using d assms(2) by (simp only: mod_mult_self1) simp
    finally show ?thesis .
  qed
  ultimately show ?thesis using c by (auto simp: fw_degrees_def g_def sg_def)
qed

theorem negative_celsius_lost_witness:
  "\<exists>fw'. fw_convert_float_to_fw_celsius (fw_convert_fw_celsius_to_float 0x8034) = Some fw' \<and> fw_degrees fw' = 2045"
proof -
  have "bit (0x8034 :: u16) 15" "fw_degrees 0x8034 = 3" by (simp_all add: fw_degrees_def)
  from negative_celsius_lost [OF this(1)] this(2) show ?thesis by auto
qed

end
