(* ===== verification/DeviceStatus.thy ===== *)
theory DeviceStatus
  imports Capacity DeviceFw Security
begin

text \<open>
  Health, status, settings, performance and total capacities of the devices (\<^verbatim>\<open>src/lib/device.c\<close>
  and the helpers of \<^verbatim>\<open>src/lib/device_utilities.c\<close>).
\<close>

section \<open>Health and manageability\<close>

datatype device_health =
    DEVICE_HEALTH_UNKNOWN | DEVICE_HEALTH_NORMAL | DEVICE_HEALTH_NONCRITICAL
  | DEVICE_HEALTH_CRITICAL | DEVICE_HEALTH_FATAL

definition smart_health_status_to_device_health :: "u8 \<Rightarrow> device_health" where
  "smart_health_status_to_device_health st =
     (if st = 0 then DEVICE_HEALTH_NORMAL
      else if st = 1 then DEVICE_HEALTH_NONCRITICAL
      else if st = 2 then DEVICE_HEALTH_CRITICAL
      else if st = 4 then DEVICE_HEALTH_FATAL
      else DEVICE_HEALTH_UNKNOWN)"

text \<open>The health in a smart payload, if the payload says it is valid.\<close>

definition smart_health_of :: "bytes \<Rightarrow> device_health option" where
  "smart_health_of smart = do {
     flags \<leftarrow> rd32 smart 0;
     st \<leftarrow> rd8 smart 8;
     Some (if bit flags 0 then smart_health_status_to_device_health st else DEVICE_HEALTH_UNKNOWN)
   }"

definition get_dimm_health ::
  "'hw adapter \<Rightarrow> u32 \<Rightarrow> ('hw, 'det) world \<Rightarrow> (int \<times> device_health \<times> ('hw, 'det) world) option" where
  "get_dimm_health ad handle w =
     (let (rc, smart, w) = fw_get_smart_health ad handle w in
      if rc = NVM_SUCCESS then do { h \<leftarrow> smart_health_of smart; Some (rc, h, w) }
      else Some (rc, DEVICE_HEALTH_UNKNOWN, w))"

text \<open>The revision buffer here has 16 bytes, fewer than the revision parser is told. Its first
  contents are those of the stack; the driver overwrites them.\<close>

abbreviation (input) NVM_DRIVER_REV_LEN :: nat where "NVM_DRIVER_REV_LEN \<equiv> 16"

definition get_dimm_manageability ::
  "'hw adapter \<Rightarrow> u32 \<Rightarrow> ('hw, 'det) world \<Rightarrow> (int \<times> manageability_state \<times> ('hw, 'det) world) option" where
  "get_dimm_manageability ad handle w =
     (let (rc, id_dimm, _, w) = ioctl_passthrough_cmd ad
            ((fw_cmd_for handle PT_IDENTIFY_DIMM 0)\<lparr>cmd_output_payload_size := 128\<rparr>) w in
      if rc \<noteq> NVM_SUCCESS then Some (rc, MANAGEMENT_UNKNOWN, w)
      else
        let (rc, rev) = vendor_driver_revision ad (w_hw w) (replicate NVM_DRIVER_REV_LEN 0) in
        if rc \<noteq> NVM_SUCCESS then Some (rc, MANAGEMENT_UNKNOWN, w)
        else do {
          ifc \<leftarrow> rd16 id_dimm 6;
          api \<leftarrow> rd8 id_dimm 13;
          m \<leftarrow> set_device_manageability ad rev api ifc;
          Some (rc, m, w)
        })"

text \<open>One for a manageable device, zero for another, a negative code on an error.\<close>

definition is_device_manageable ::
  "'hw adapter \<Rightarrow> u32 \<Rightarrow> ('hw, 'det) world \<Rightarrow> (int \<times> ('hw, 'det) world) option" where
  "is_device_manageable ad handle w = do {
     (rc, m, w) \<leftarrow> get_dimm_manageability ad handle w;
     Some (if rc = NVM_SUCCESS then if m = MANAGEMENT_VALIDCONFIG then 1 else 0 else rc, w)
   }"

section \<open>Status\<close>

record device_status =
  st_health :: device_health
  is_new :: bool
  is_missing :: bool
  die_spares_used :: u8
  last_shutdown_status :: u8
  st_config_status :: config_status
  last_shutdown_time :: u64
  st_mixed_sku :: bool
  st_sku_violation :: bool

definition zero_status :: device_status where
  "zero_status =
     \<lparr>st_health = DEVICE_HEALTH_UNKNOWN, is_new = False, is_missing = False, die_spares_used = 0,
      last_shutdown_status = 0, st_config_status = CONFIG_STATUS_NOT_CONFIGURED,
      last_shutdown_time = 0, st_mixed_sku = False, st_sku_violation = False\<rparr>"

abbreviation (input) SUBOP_POLICY_POW_MGMT :: u8 where "SUBOP_POLICY_POW_MGMT \<equiv> 2"
abbreviation (input) SUBOP_POLICY_DIE_SPARING :: u8 where "SUBOP_POLICY_DIE_SPARING \<equiv> 3"
abbreviation (input) SUBOP_OPT_CONFIG_DATA_POLICY :: u8 where "SUBOP_OPT_CONFIG_DATA_POLICY \<equiv> 6"
abbreviation (input) NUM_RANKS :: u8 where "NUM_RANKS \<equiv> 4"

definition get_feature ::
  "'hw adapter \<Rightarrow> u8 \<Rightarrow> u32 \<Rightarrow> ('hw, 'det) world \<Rightarrow> int \<times> bytes \<times> ('hw, 'det) world" where
  "get_feature ad sub_opcode handle w =
     (let (rc, out, _, w) = ioctl_passthrough_cmd ad
            ((fw_cmd_for handle PT_GET_FEATURES sub_opcode)\<lparr>cmd_output_payload_size := 128\<rparr>) w
      in (rc, out, w))"

definition get_fw_die_spare_policy ::
  "'hw adapter \<Rightarrow> u32 \<Rightarrow> ('hw, 'det) world \<Rightarrow> int \<times> bytes \<times> ('hw, 'det) world" where
  "get_fw_die_spare_policy ad = get_feature ad SUBOP_POLICY_DIE_SPARING"

definition get_fw_power_mgmt_policy ::
  "'hw adapter \<Rightarrow> u32 \<Rightarrow> ('hw, 'det) world \<Rightarrow> int \<times> bytes \<times> ('hw, 'det) world" where
  "get_fw_power_mgmt_policy ad = get_feature ad SUBOP_POLICY_POW_MGMT"

text \<open>The spares used: one for each of the four ranks without a die left.\<close>

definition spares_used :: "u8 \<Rightarrow> u8" where
  "spares_used supported =
     NUM_RANKS - (supported AND 1) - drop_bit 1 (supported AND 2) - drop_bit 2 (supported AND 4) -
       drop_bit 3 (supported AND 8)"

definition fill_device_config_status ::
  "'hw adapter \<Rightarrow> bool \<Rightarrow> u32 \<Rightarrow> nvm_capabilities \<Rightarrow> device_status \<Rightarrow> ('hw, 'det) world \<Rightarrow>
   (int \<times> device_status \<times> ('hw, 'det) world) option" where
  "fill_device_config_status ad large handle caps st w =
     (let st = st\<lparr>st_config_status := CONFIG_STATUS_ERR_CORRUPT, is_new := False\<rparr> in
      if \<not> get_device_capacity (nvm_features caps) then Some (NVM_ERR_NOTSUPPORTED, st, w)
      else do {
        let st = st\<lparr>st_config_status := CONFIG_STATUS_NOT_CONFIGURED\<rparr>;
        (rc, pp, w) \<leftarrow> get_dimm_platform_config ad large handle w;
        if rc \<noteq> NVM_SUCCESS then Some (rc, st, w)
        else case pp of
          Config cfg \<Rightarrow> do {
            cur \<leftarrow> cast_current_config cfg;
            case cur of
              None \<Rightarrow> Some (NVM_ERR_BADDEVICECONFIG, st, w)
            | Some t \<Rightarrow> do {
                s \<leftarrow> get_config_status_from_current_config t;
                Some (rc, st\<lparr>st_config_status := s, is_new := s = CONFIG_STATUS_NOT_CONFIGURED\<rparr>, w)
              }
          }
        | _ \<Rightarrow> None
      })"

text \<open>The shutdown data of a smart payload, if the payload says it has any.\<close>

definition smart_status :: "bytes \<Rightarrow> device_status \<Rightarrow> device_status option" where
  "smart_status smart st = do {
     flags \<leftarrow> rd32 smart 0;
     h \<leftarrow> smart_health_of smart;
     lss \<leftarrow> rd8 smart 64;
     t \<leftarrow> rd64 smart 65;
     Some (if bit flags 11
           then st\<lparr>st_health := h, last_shutdown_status := lss, last_shutdown_time := t\<rparr>
           else st\<lparr>st_health := h\<rparr>)
   }"

definition get_device_status_by_handle ::
  "'hw adapter \<Rightarrow> bool \<Rightarrow> u32 \<Rightarrow> nvm_capabilities \<Rightarrow> ('hw, 'det) world \<Rightarrow>
   (int \<times> device_status \<times> ('hw, 'det) world) option" where
  "get_device_status_by_handle ad large handle caps w = do {
     let (r, spare, w) = get_fw_die_spare_policy ad handle w;
     let rc = keep_error NVM_SUCCESS r;
     st \<leftarrow> (if r \<noteq> NVM_SUCCESS then Some zero_status
           else do { s \<leftarrow> rd8 spare 2; Some (zero_status\<lparr>die_spares_used := spares_used s\<rparr>) });
     let (r, smart, w) = fw_get_smart_health ad handle w;
     let rc = (if r \<noteq> NVM_SUCCESS then keep_error rc r else rc);
     st \<leftarrow> (if r \<noteq> NVM_SUCCESS then Some st else smart_status smart st);
     (r, st, w) \<leftarrow> fill_device_config_status ad large handle caps st w;
     let rc = keep_error rc r;
     let st = st\<lparr>st_mixed_sku := mixed_sku (sku_capabilities caps)\<rparr>;
     (r, v, w) \<leftarrow> device_in_sku_violation ad large handle caps w;
     Some (keep_error rc r, st\<lparr>st_sku_violation := v\<rparr>, w)
   }"

definition nvm_get_device_status ::
  "'hw adapter \<Rightarrow> bool \<Rightarrow> guid option \<Rightarrow> bool \<Rightarrow> ('hw, 'det) world \<Rightarrow>
   (int \<times> device_status option \<times> ('hw, 'det) world) option" where
  "nvm_get_device_status ad large guid have_out w =
     (if \<not> permitted ad then Some (NVM_ERR_INVALIDPERMISSIONS, None, w)
      else if guid = None then Some (NVM_ERR_INVALIDPARAMETER, None, w)
      else do {
        (rc, caps, w) \<leftarrow> nvm_get_nvm_capabilities ad True w;
        if rc \<noteq> NVM_SUCCESS then Some (rc, None, w)
        else do {
          c \<leftarrow> caps;
          if \<not> get_device_health (nvm_features c) then Some (NVM_ERR_NOTSUPPORTED, None, w)
          else if \<not> have_out then Some (NVM_ERR_INVALIDPARAMETER, None, w)
          else do {
            (rc, d, w) \<leftarrow> exists_and_manageable ad guid True w;
            if rc \<noteq> NVM_SUCCESS then Some (rc, None, w)
            else do {
              dev \<leftarrow> d;
              (rc, st, w) \<leftarrow> get_device_status_by_handle ad large (device_handle dev) c w;
              Some (rc, Some st, w)
            }
          }
        }
      })"

section \<open>Settings and performance\<close>

text \<open>The guards the operations on one device's settings and counters share, up to the device.\<close>

definition device_request ::
  "'hw adapter \<Rightarrow> (nvm_features \<Rightarrow> bool) \<Rightarrow> guid option \<Rightarrow> bool \<Rightarrow> ('hw, 'det) world \<Rightarrow>
   (int \<times> device_discovery option \<times> ('hw, 'det) world) option" where
  "device_request ad feature guid have_arg w =
     (if \<not> permitted ad then Some (NVM_ERR_INVALIDPERMISSIONS, None, w)
      else do {
        (rc, w) \<leftarrow> is_nvm_feature_supported ad feature w;
        if rc \<noteq> NVM_SUCCESS then Some (rc, None, w)
        else if guid = None \<or> \<not> have_arg then Some (NVM_ERR_INVALIDPARAMETER, None, w)
        else exists_and_manageable ad guid True w
      })"

definition nvm_get_device_settings ::
  "'hw adapter \<Rightarrow> guid option \<Rightarrow> bool \<Rightarrow> ('hw, 'det) world \<Rightarrow> (int \<times> u8 option \<times> ('hw, 'det) world) option" where
  "nvm_get_device_settings ad guid have_out w = do {
     (rc, d, w) \<leftarrow> device_request ad get_device_settings guid have_out w;
     if rc \<noteq> NVM_SUCCESS then Some (rc, None, w)
     else do {
       dev \<leftarrow> d;
       let (rc, data, w) = get_feature ad SUBOP_OPT_CONFIG_DATA_POLICY (device_handle dev) w;
       if rc \<noteq> NVM_SUCCESS then Some (rc, Some 0, w)
       else do { v \<leftarrow> rd8 data 0; Some (rc, Some v, w) }
     }
   }"

text \<open>Only the first byte of the payload is set: \<open>stack\<close> is what the rest holds.\<close>

definition nvm_modify_device_settings ::
  "'hw adapter \<Rightarrow> bytes \<Rightarrow> guid option \<Rightarrow> u8 option \<Rightarrow> ('hw, 'det) world \<Rightarrow> (int \<times> ('hw, 'det) world) option" where
  "nvm_modify_device_settings ad stack guid settings w = do {
     (rc, d, w) \<leftarrow> device_request ad modify_device_settings guid (settings \<noteq> None) w;
     if rc \<noteq> NVM_SUCCESS then Some (rc, w)
     else do {
       dev \<leftarrow> d;
       v \<leftarrow> settings;
       let (rc, _, _, w) = ioctl_passthrough_cmd ad
             ((fw_cmd_for (device_handle dev) PT_SET_FEATURES SUBOP_OPT_CONFIG_DATA_POLICY)
                \<lparr>cmd_input_payload := v # fit 127 stack\<rparr>) w;
       if rc = NVM_SUCCESS then do { w \<leftarrow> drop_device_cache ad w; Some (rc, w) }
       else Some (rc, w)
     }
   }"

record device_performance =
  perf_time :: int
  bytes_read :: u64
  host_reads :: u64
  bytes_written :: u64
  host_writes :: u64
  block_reads :: u64
  block_writes :: u64

definition zero_performance :: "int \<Rightarrow> device_performance" where
  "zero_performance now =
     \<lparr>perf_time = now, bytes_read = 0, host_reads = 0, bytes_written = 0, host_writes = 0,
      block_reads = 0, block_writes = 0\<rparr>"

text \<open>The counters have 16 bytes each, of which the lower 8 are reported; \<open>now\<close> is the clock.\<close>

definition nvm_get_device_performance ::
  "'hw adapter \<Rightarrow> int \<Rightarrow> guid option \<Rightarrow> bool \<Rightarrow> ('hw, 'det) world \<Rightarrow>
   (int \<times> device_performance option \<times> ('hw, 'det) world) option" where
  "nvm_get_device_performance ad now guid have_out w = do {
     (rc, d, w) \<leftarrow> device_request ad get_device_performance guid have_out w;
     if rc \<noteq> NVM_SUCCESS then Some (rc, None, w)
     else do {
       dev \<leftarrow> d;
       let (rc, page, w) = fw_get_memory_info_page ad (device_handle dev) 1 128 w;
       if rc \<noteq> NVM_SUCCESS then Some (rc, Some (zero_performance now), w)
       else do {
         br \<leftarrow> rd64 page 0;
         bw \<leftarrow> rd64 page 16;
         hr \<leftarrow> rd64 page 32;
         hw \<leftarrow> rd64 page 48;
         kr \<leftarrow> rd64 page 64;
         kw \<leftarrow> rd64 page 80;
         Some (rc, Some \<lparr>perf_time = now, bytes_read = br, host_reads = hr, bytes_written = bw,
                         host_writes = hw, block_reads = kr, block_writes = kw\<rparr>, w)
       }
     }
   }"

section \<open>The capacities of the system\<close>

definition add_capacities :: "device_capacities \<Rightarrow> device_capacities \<Rightarrow> device_capacities" where
  "add_capacities a b =
     \<lparr>dc_capacity = dc_capacity a + dc_capacity b,
      dc_memory_capacity = dc_memory_capacity a + dc_memory_capacity b,
      dc_app_direct_capacity = dc_app_direct_capacity a + dc_app_direct_capacity b,
      dc_storage_capacity = dc_storage_capacity a + dc_storage_capacity b,
      dc_unconfigured_capacity = dc_unconfigured_capacity a + dc_unconfigured_capacity b,
      dc_inaccessible_capacity = dc_inaccessible_capacity a + dc_inaccessible_capacity b,
      dc_reserved_capacity = dc_reserved_capacity a + dc_reserved_capacity b\<rparr>"

fun sum_capacities ::
  "'hw adapter \<Rightarrow> bool \<Rightarrow> nvm_capabilities \<Rightarrow> device_discovery list \<Rightarrow> int \<Rightarrow> device_capacities \<Rightarrow>
   ('hw, 'det) world \<Rightarrow> (int \<times> device_capacities \<times> ('hw, 'det) world) option" where
  "sum_capacities ad large caps [] rc acc w = Some (rc, acc, w)"
| "sum_capacities ad large caps (d # ds) rc acc w =
     (if manageability d = MANAGEMENT_VALIDCONFIG then do {
        (r, c, w) \<leftarrow> get_dimm_capacities ad large (device_handle d) caps w;
        if r = NVM_SUCCESS then sum_capacities ad large caps ds rc (add_capacities acc c) w
        else sum_capacities ad large caps ds (keep_error rc r) acc w
      }
      else sum_capacities ad large caps ds rc acc w)"

text \<open>When the second query returns another number of devices than the first, that number is the
  result and no capacity is added.\<close>

definition nvm_get_nvm_capacities ::
  "'hw adapter \<Rightarrow> bool \<Rightarrow> bool \<Rightarrow> ('hw, 'det) world \<Rightarrow>
   (int \<times> device_capacities option \<times> ('hw, 'det) world) option" where
  "nvm_get_nvm_capacities ad large have_out w =
     (if \<not> permitted ad then Some (NVM_ERR_INVALIDPERMISSIONS, None, w)
      else do {
        (rc, caps, w) \<leftarrow> nvm_get_nvm_capabilities ad True w;
        if rc \<noteq> NVM_SUCCESS then Some (rc, None, w)
        else do {
          c \<leftarrow> caps;
          if \<not> get_device_capacity (nvm_features c) then Some (NVM_ERR_NOTSUPPORTED, None, w)
          else if \<not> have_out then Some (NVM_ERR_INVALIDPARAMETER, None, w)
          else do {
            (n, w) \<leftarrow> nvm_get_device_count ad w;
            if n \<le> 0 then Some (n, Some zero_capacities, w)
            else do {
              (rc, devs, w) \<leftarrow> nvm_get_devices ad (Some (replicate (nat n) zero_discovery)) (of_int n) w;
              ds \<leftarrow> devs;
              if rc \<noteq> n then Some (rc, Some zero_capacities, w)
              else do {
                (rc, acc, w) \<leftarrow> sum_capacities ad large c ds NVM_SUCCESS zero_capacities w;
                Some (rc, Some acc, w)
              }
            }
          }
        }
      })"

section \<open>Asking changes nothing\<close>

lemma getter_reads:
  "ioctl_passthrough_cmd ad cmd w = (rc, s, l, w') \<Longrightarrow>
   cmd_opcode cmd \<in> {PT_IDENTIFY_DIMM, PT_GET_SEC_INFO, PT_GET_ADMIN_FEATURES, PT_GET_FEATURES, PT_GET_LOG} \<Longrightarrow>
   read_steps ad w w'"
  by (rule read_cmd [OF read_none])

lemma fw_reads [reads]:
  "fw_get_smart_health ad h w = (rc, out, w') \<Longrightarrow> read_steps ad w w'"
  "fw_get_memory_info_page ad h n sz w = (rc, out, w') \<Longrightarrow> read_steps ad w w'"
  "get_feature ad sub h w = (rc, out, w') \<Longrightarrow> read_steps ad w w'"
  "get_fw_die_spare_policy ad h w = (rc, out, w') \<Longrightarrow> read_steps ad w w'"
  by (auto simp: fw_get_smart_health_def fw_get_memory_info_page_def get_feature_def get_fw_die_spare_policy_def
      fw_cmd_for_def split: prod.splits dest!: getter_reads)

lemma health_reads [reads]: "get_dimm_health ad h w = Some (rc, x, w') \<Longrightarrow> read_steps ad w w'"
  by (auto simp: get_dimm_health_def bind_eq_Some_conv split: prod.splits if_splits dest: fw_reads)

lemma manageable_reads [reads]: "is_device_manageable ad h w = Some (rc, w') \<Longrightarrow> read_steps ad w w'"
  by (auto simp: is_device_manageable_def get_dimm_manageability_def fw_cmd_for_def bind_eq_Some_conv
      split: prod.splits if_splits dest!: getter_reads)

lemma config_status_reads [reads]:
  "fill_device_config_status ad large h caps st w = Some (rc, st', w') \<Longrightarrow> read_steps ad w w'"
  unfolding fill_device_config_status_def
  by (auto simp: bind_eq_Some_conv Let_def split: if_splits config_ptr.splits option.splits dest!: pcd_reads)

lemma status_reads [reads]:
  assumes "get_device_status_by_handle ad large h caps w = Some (rc, st, w')"
  shows "read_steps ad w w'"
proof -
  obtain r1 spare w1 where a: "get_fw_die_spare_policy ad h w = (r1, spare, w1)" by (metis prod_cases3)
  obtain r2 smart w2 where b: "fw_get_smart_health ad h w1 = (r2, smart, w2)" by (metis prod_cases3)
  from assms a b obtain st1 r3 st2 w3 r4 v where
    c: "fill_device_config_status ad large h caps st1 w2 = Some (r3, st2, w3)"
    and d: "device_in_sku_violation ad large h caps w3 = Some (r4, v, w')"
    unfolding get_device_status_by_handle_def
    by (cases "r1 = NVM_SUCCESS"; cases "r2 = NVM_SUCCESS") (auto simp: bind_eq_Some_conv Let_def)
  show ?thesis
    using fw_reads(4) [OF a] fw_reads(1) [OF b] config_status_reads [OF c] device_violation_reads [OF d]
    by (blast intro: read_steps_trans)
qed

lemma request_reads [reads]: "device_request ad f g x w = Some (rc, d, w') \<Longrightarrow> read_steps ad w w'"
  by (auto simp: device_request_def bind_eq_Some_conv split: if_splits dest!: lookup_reads intro: read_steps_trans)

lemma settings_reads [reads]:
  assumes "nvm_get_device_settings ad g x w = Some (rc, s, w')"
  shows "read_steps ad w w'"
proof -
  from assms obtain r d w1 where q: "device_request ad get_device_settings g x w = Some (r, d, w1)"
    unfolding nvm_get_device_settings_def by (auto simp: bind_eq_Some_conv)
  show ?thesis
  proof (cases "r = NVM_SUCCESS")
    case True
    with assms q obtain dev where d: "d = Some dev"
      unfolding nvm_get_device_settings_def by (auto simp: bind_eq_Some_conv)
    obtain r2 data w2 where f: "get_feature ad SUBOP_OPT_CONFIG_DATA_POLICY (device_handle dev) w1 = (r2, data, w2)"
      by (metis prod_cases3)
    with assms q True d have "w' = w2"
      unfolding nvm_get_device_settings_def
      by (cases "r2 = NVM_SUCCESS") (auto simp: bind_eq_Some_conv)
    with request_reads [OF q] fw_reads(3) [OF f] show ?thesis by (auto intro: read_steps_trans)
  qed (use assms q in \<open>auto simp: nvm_get_device_settings_def intro: request_reads\<close>)
qed

lemma performance_reads [reads]:
  assumes "nvm_get_device_performance ad now g x w = Some (rc, s, w')"
  shows "read_steps ad w w'"
proof -
  from assms obtain r d w1 where q: "device_request ad get_device_performance g x w = Some (r, d, w1)"
    unfolding nvm_get_device_performance_def by (auto simp: bind_eq_Some_conv)
  show ?thesis
  proof (cases "r = NVM_SUCCESS")
    case True
    with assms q obtain dev where d: "d = Some dev"
      unfolding nvm_get_device_performance_def by (auto simp: bind_eq_Some_conv)
    obtain r2 data w2 where f: "fw_get_memory_info_page ad (device_handle dev) 1 128 w1 = (r2, data, w2)"
      by (metis prod_cases3)
    with assms q True d have "w' = w2"
      unfolding nvm_get_device_performance_def
      by (cases "r2 = NVM_SUCCESS") (auto simp: bind_eq_Some_conv)
    with request_reads [OF q] fw_reads(2) [OF f] show ?thesis by (auto intro: read_steps_trans)
  qed (use assms q in \<open>auto simp: nvm_get_device_performance_def intro: request_reads\<close>)
qed

lemma sum_reads [reads]:
  "sum_capacities ad large caps ds rc acc w = Some (r, c, w') \<Longrightarrow> read_steps ad w w'"
  by (induction ds arbitrary: rc acc w)
    (auto simp: bind_eq_Some_conv split: if_splits intro: read_steps_trans dest: capacities_reads)

lemma device_status_reads [reads]:
  "nvm_get_device_status ad large g x w = Some (rc, st, w') \<Longrightarrow> read_steps ad w w'"
  unfolding nvm_get_device_status_def
  by (auto simp: bind_eq_Some_conv split: if_splits dest!: lookup_reads status_reads intro: read_steps_trans)

lemma nvm_capacities_reads [reads]:
  "nvm_get_nvm_capacities ad large x w = Some (rc, c, w') \<Longrightarrow> read_steps ad w w'"
  unfolding nvm_get_nvm_capacities_def
  by (auto simp: bind_eq_Some_conv split: if_splits dest!: lookup_reads sum_reads intro: read_steps_trans)

text \<open>C39. Asking for the status, the settings, the counters or the capacities changes no device and
  stores no event, whatever it returns, on firmware whose reading commands change nothing.\<close>
theorem asking_changes_nothing:
  assumes "reads_keep ad"
    and "nvm_get_device_status ad large g x w = Some (rc, st, w') \<or>
      nvm_get_device_settings ad g x w = Some (rc, s, w') \<or>
      nvm_get_device_performance ad now g x w = Some (rc, p, w') \<or>
      nvm_get_nvm_capacities ad large x w = Some (rc, c, w')"
  shows "w_hw w' = w_hw w \<and> w_events w' = w_events w"
proof -
  have "read_steps ad w w'"
    using assms(2) by (elim disjE) (erule reads)+
  with assms(1) show ?thesis using read_steps_hw read_steps_events by blast
qed

theorem asking_changes_nothing_witness:
  "\<exists>c w'. nvm_get_nvm_capacities (adapter_with cap_firmware) False True cap_world = Some (NVM_SUCCESS, Some c, w') \<and>
    w_hw w' = w_hw cap_world \<and> w_events w' = w_events cap_world"
proof -
  let ?ad = "adapter_with cap_firmware"
  obtain w1 w2 w3 where
    w1: "nvm_get_nvm_capabilities ?ad True cap_world = Some (NVM_SUCCESS, Some cap_caps, w1)" and
    w2: "nvm_get_device_count ?ad w1 = Some (1, w2)" and
    w3: "nvm_get_devices ?ad (Some (replicate (nat 1) zero_discovery)) (of_int 1) w2 = Some (1, Some [cap_device], w3)"
      "in_cap_ctx w3" by (rule cap_query)
  from cap_run [OF w3(2), of False] obtain c w4 where
    r: "get_dimm_capacities ?ad False 1 cap_caps w3 = Some (NVM_SUCCESS, c, w4)" by blast
  have dev: "device_handle cap_device = 1" "manageability cap_device = MANAGEMENT_VALIDCONFIG"
    by (simp_all add: cap_device_def sample_device_def)
  have "permitted ?ad" "get_device_capacity (nvm_features cap_caps)"
    by (simp_all add: adapter_with_def cap_caps_def cap_features_def)
  with w1 w2 w3(1) r dev have q: "nvm_get_nvm_capacities ?ad False True cap_world =
      Some (NVM_SUCCESS, Some (add_capacities zero_capacities c), w4)"
    by (simp add: nvm_get_nvm_capacities_def)
  moreover have "reads_keep ?ad" by (simp add: reads_keep_def cap_firmware_def)
  ultimately show ?thesis using asking_changes_nothing [of ?ad] by blast
qed

end
