(* ===== verification/Pools.thy ===== *)
theory Pools
  imports DeviceStatus
begin

text \<open>
  The pools the driver's interleave sets and storage regions form (\<^verbatim>\<open>src/lib/pool_utilities.c\<close>):
  one volatile pool, and a mirrored and a persistent pool for each socket. An array of a pool carries
  as many entries as its count says; a write behind the array is \<open>None\<close>.
\<close>

abbreviation (input) NVM_MAX_SOCKETS :: nat where "NVM_MAX_SOCKETS \<equiv> 4"
abbreviation (input) MAX_ILSETS_PER_POOL :: nat where "MAX_ILSETS_PER_POOL \<equiv> 48"

section \<open>Health\<close>

text \<open>The enumerations are compared by their values, which have the order of their constructors.\<close>

primrec pool_health_value :: "pool_health \<Rightarrow> nat" where
  "pool_health_value POOL_HEALTH_UNKNOWN = 0"
| "pool_health_value POOL_HEALTH_NORMAL = 1"
| "pool_health_value POOL_HEALTH_WARNING = 2"
| "pool_health_value POOL_HEALTH_DEGRADED = 3"
| "pool_health_value POOL_HEALTH_FAILED = 4"

lemma pool_health_value_inj: "pool_health_value x = pool_health_value y \<Longrightarrow> x = y"
  by (cases x; cases y) simp_all

instantiation pool_health :: linorder
begin

definition less_eq_pool_health :: "pool_health \<Rightarrow> pool_health \<Rightarrow> bool" where
  "less_eq_pool_health x y = (pool_health_value x \<le> pool_health_value y)"

definition less_pool_health :: "pool_health \<Rightarrow> pool_health \<Rightarrow> bool" where
  "less_pool_health x y = (pool_health_value x < pool_health_value y)"

instance
  by standard (auto simp: less_eq_pool_health_def less_pool_health_def intro: pool_health_value_inj)

end

definition pool_health_of :: "pool_type \<Rightarrow> device_health \<Rightarrow> pool_health" where
  "pool_health_of ty h =
     (case h of
        DEVICE_HEALTH_NORMAL \<Rightarrow> POOL_HEALTH_NORMAL
      | DEVICE_HEALTH_NONCRITICAL \<Rightarrow> POOL_HEALTH_WARNING
      | DEVICE_HEALTH_CRITICAL \<Rightarrow> POOL_HEALTH_WARNING
      | DEVICE_HEALTH_FATAL \<Rightarrow> if ty = POOL_TYPE_PERSISTENT_MIRROR then POOL_HEALTH_DEGRADED else POOL_HEALTH_FAILED
      | DEVICE_HEALTH_UNKNOWN \<Rightarrow> POOL_HEALTH_UNKNOWN)"

section \<open>A pool\<close>

record nvm_pool =
  np_guid :: guid
  np_type :: pool_type
  np_capacity :: u64
  np_free_capacity :: u64
  np_socket_id :: u16
  np_memory_capacities :: "u64 list"
  np_raw_capacities :: "u64 list"
  np_storage_capacities :: "u64 list"
  np_dimms :: "u32 list"
  np_ilsets :: "nvm_interleave_set list"
  np_health :: pool_health

definition zero_nvm_pool :: nvm_pool where
  "zero_nvm_pool =
     \<lparr>np_guid = replicate GUID_LEN 0, np_type = POOL_TYPE_UNKNOWN, np_capacity = 0, np_free_capacity = 0,
      np_socket_id = 0, np_memory_capacities = [], np_raw_capacities = [], np_storage_capacities = [],
      np_dimms = [], np_ilsets = [], np_health = POOL_HEALTH_UNKNOWN\<rparr>"

definition init_pool :: "'hw adapter \<Rightarrow> bytes \<Rightarrow> pool_type \<Rightarrow> u16 \<Rightarrow> int \<times> nvm_pool" where
  "init_pool ad uuid_src ty socket =
     (let (ok, g) = guid_hash (sha1 ad) uuid_src in
      (if ok = 0 then NVM_ERR_UNKNOWN else NVM_SUCCESS,
       zero_nvm_pool\<lparr>np_guid := (case g of None \<Rightarrow> replicate GUID_LEN 0 | Some g \<Rightarrow> g),
                     np_type := ty, np_socket_id := socket\<rparr>))"

definition get_dimm_memory_capacity ::
  "'hw adapter \<Rightarrow> bool \<Rightarrow> u32 \<Rightarrow> ('hw, 'det) world \<Rightarrow> (int \<times> u64 \<times> ('hw, 'det) world) option" where
  "get_dimm_memory_capacity ad large handle w = do {
     (rc, pp, w) \<leftarrow> get_dimm_platform_config ad large handle w;
     if rc \<noteq> NVM_SUCCESS then Some (rc, 0, w)
     else case pp of
       Config cfg \<Rightarrow> do {
         cur \<leftarrow> cast_current_config cfg;
         case cur of
           None \<Rightarrow> Some (NVM_ERR_DRIVERFAILED, 0, w)
         | Some t \<Rightarrow> do { size \<leftarrow> rd64 t 40; Some (rc, size, w) }
       }
     | _ \<Rightarrow> None
   }"

text \<open>A device is added once, with its capacities; the pool keeps the worse health. The code of the
  memory capacity is not looked at.\<close>

definition add_dimm_to_pool ::
  "'hw adapter \<Rightarrow> bool \<Rightarrow> nvm_pool \<Rightarrow> u32 \<Rightarrow> ('hw, 'det) world \<Rightarrow>
   (int \<times> nvm_pool \<times> ('hw, 'det) world) option" where
  "add_dimm_to_pool ad large p handle w =
     (if handle \<in> set (np_dimms p) then Some (NVM_SUCCESS, p, w)
      else do {
        (rc, pi, w) \<leftarrow> get_partition_info ad handle w;
        if rc \<noteq> NVM_SUCCESS then Some (rc, p, w)
        else if NVM_MAX_DEVICES_PER_POOL \<le> length (np_dimms p) then None
        else do {
          (_, mem, w) \<leftarrow> get_dimm_memory_capacity ad large handle w;
          let p = p\<lparr>np_dimms := np_dimms p @ [handle],
                    np_memory_capacities := np_memory_capacities p @ [mem],
                    np_raw_capacities := np_raw_capacities p @ [4096 * ucast (raw_capacity pi)],
                    np_storage_capacities := np_storage_capacities p @ [0]\<rparr>;
          (rc, health, w) \<leftarrow> get_dimm_health ad handle w;
          Some (rc, if rc = NVM_SUCCESS
                    then p\<lparr>np_health := max (np_health p) (pool_health_of (np_type p) health)\<rparr> else p, w)
        }
      })"

fun add_dimms_to_pool ::
  "'hw adapter \<Rightarrow> bool \<Rightarrow> nvm_pool \<Rightarrow> u32 list \<Rightarrow> ('hw, 'det) world \<Rightarrow>
   (int \<times> nvm_pool \<times> ('hw, 'det) world) option" where
  "add_dimms_to_pool ad large p [] w = Some (NVM_SUCCESS, p, w)"
| "add_dimms_to_pool ad large p (d # ds) w = do {
     (rc, p, w) \<leftarrow> add_dimm_to_pool ad large p d w;
     if rc = NVM_SUCCESS then add_dimms_to_pool ad large p ds w else Some (rc, p, w)
   }"

definition add_ilset_to_pool ::
  "'hw adapter \<Rightarrow> bool \<Rightarrow> nvm_pool \<Rightarrow> nvm_interleave_set \<Rightarrow> ('hw, 'det) world \<Rightarrow>
   (int \<times> nvm_pool \<times> ('hw, 'det) world) option" where
  "add_ilset_to_pool ad large p s w =
     (if \<exists>x \<in> set (np_ilsets p). nis_set_index x = nis_set_index s then Some (NVM_SUCCESS, p, w)
      else if MAX_ILSETS_PER_POOL \<le> length (np_ilsets p) then None
      else add_dimms_to_pool ad large (p\<lparr>np_ilsets := np_ilsets p @ [s]\<rparr>) (nis_dimms s) w)"

section \<open>The pool of a socket\<close>

text \<open>The text a pool's GUID is computed from. It goes through a buffer of twelve bytes, the size of a
  pointer and four digits, so only eleven characters of it are left.\<close>

definition pool_source :: "string \<Rightarrow> nat \<Rightarrow> bytes" where
  "pool_source prefix socket = take 11 (ascii prefix @ decimal socket)"

text \<open>The pool of the socket, created behind the others when there is none yet, and what \<open>add\<close> makes of
  it.\<close>

definition in_socket_pool ::
  "'hw adapter \<Rightarrow> pool_type \<Rightarrow> string \<Rightarrow> u16 \<Rightarrow>
   (nvm_pool \<Rightarrow> ('hw, 'det) world \<Rightarrow> (int \<times> nvm_pool \<times> ('hw, 'det) world) option) \<Rightarrow>
   nvm_pool list \<Rightarrow> ('hw, 'det) world \<Rightarrow> (int \<times> nvm_pool list \<times> ('hw, 'det) world) option" where
  "in_socket_pool ad ty prefix socket add pools w = do {
     idx \<leftarrow> search (\<lambda>p. np_socket_id p = socket) pools (length pools) 0;
     case idx of
       Some i \<Rightarrow> do { (rc, p, w) \<leftarrow> add (pools ! i) w; Some (rc, pools[i := p], w) }
     | None \<Rightarrow>
         if NVM_MAX_SOCKETS \<le> length pools then None
         else
           let (rc, p) = init_pool ad (pool_source prefix (unat socket)) ty socket in
           if rc \<noteq> NVM_SUCCESS then Some (rc, pools @ [p], w)
           else do { (rc, p, w) \<leftarrow> add p w; Some (rc, pools @ [p], w) }
   }"

definition add_ilset_to_pools ::
  "'hw adapter \<Rightarrow> bool \<Rightarrow> pool_type \<Rightarrow> string \<Rightarrow> nvm_pool list \<Rightarrow> nvm_interleave_set \<Rightarrow> ('hw, 'det) world \<Rightarrow>
   (int \<times> nvm_pool list \<times> ('hw, 'det) world) option" where
  "add_ilset_to_pools ad large ty prefix pools s =
     in_socket_pool ad ty prefix (ucast (nis_socket_id s)) (\<lambda>p. add_ilset_to_pool ad large p s) pools"

text \<open>A device that is not configured is left out.\<close>

definition add_dimm_to_pools ::
  "'hw adapter \<Rightarrow> bool \<Rightarrow> pool_type \<Rightarrow> string \<Rightarrow> nvm_pool list \<Rightarrow> u32 \<Rightarrow> ('hw, 'det) world \<Rightarrow>
   (int \<times> nvm_pool list \<times> ('hw, 'det) world) option" where
  "add_dimm_to_pools ad large ty prefix pools handle w = do {
     (rc, caps, w) \<leftarrow> nvm_get_nvm_capabilities ad True w;
     if rc \<noteq> NVM_SUCCESS then Some (rc, pools, w)
     else do {
       c \<leftarrow> caps;
       if \<not> get_device_health (nvm_features c) then Some (NVM_ERR_NOTSUPPORTED, pools, w)
       else do {
         (rc, st, w) \<leftarrow> get_device_status_by_handle ad large handle c w;
         if rc \<noteq> NVM_SUCCESS \<or> st_config_status st = CONFIG_STATUS_NOT_CONFIGURED then Some (rc, pools, w)
         else in_socket_pool ad ty prefix (handle_part handle 12 4)
                (\<lambda>p. add_dimm_to_pool ad large p handle) pools w
       }
     }
   }"

fun add_ilsets_to_pools ::
  "'hw adapter \<Rightarrow> bool \<Rightarrow> pool_type \<Rightarrow> string \<Rightarrow> (nvm_interleave_set \<Rightarrow> bool) \<Rightarrow> nvm_interleave_set list \<Rightarrow>
   nvm_pool list \<Rightarrow> ('hw, 'det) world \<Rightarrow> (int \<times> nvm_pool list \<times> ('hw, 'det) world) option" where
  "add_ilsets_to_pools ad large ty prefix pick [] pools w = Some (NVM_SUCCESS, pools, w)"
| "add_ilsets_to_pools ad large ty prefix pick (s # ss) pools w =
     (if pick s then do {
        (rc, pools, w) \<leftarrow> add_ilset_to_pools ad large ty prefix pools s w;
        if rc = NVM_SUCCESS then add_ilsets_to_pools ad large ty prefix pick ss pools w
        else Some (rc, pools, w)
      }
      else add_ilsets_to_pools ad large ty prefix pick ss pools w)"

section \<open>Mirrored pools\<close>

text \<open>The interleave sets of the driver, read for a count it gave before.\<close>

definition read_interleave_sets :: "'hw adapter \<Rightarrow> 'hw \<Rightarrow> int \<Rightarrow> (int \<times> nvm_interleave_set list) option" where
  "read_interleave_sets ad h count =
     (let (rc, sets) = ad_interleave_sets (ns_driver ad) h (of_int count) in
      if rc \<noteq> count then Some (rc, [])
      else do { sets \<leftarrow> copy_first sets count; Some (rc, sets) })"

definition sum_ilsets :: "nvm_pool \<Rightarrow> nvm_pool" where
  "sum_ilsets p = p\<lparr>np_capacity := np_capacity p + sum_list (map nis_size (np_ilsets p)),
     np_free_capacity := np_free_capacity p + sum_list (map nis_available_size (np_ilsets p))\<rparr>"

text \<open>The number of pools or an error, and the pools; a caller that does not want the pools gets the same
  code.\<close>

definition copy_pools :: "nvm_pool list option \<Rightarrow> nvm_pool list \<Rightarrow> int \<times> nvm_pool list option" where
  "copy_pools dst src =
     (case dst of
        None \<Rightarrow> (int (length src), None)
      | Some d \<Rightarrow>
          if d = [] then (int (length src), dst)
          else (if length d < length src then NVM_ERR_UNKNOWN else int (length src),
                Some (filled (length d) zero_nvm_pool src)))"

definition get_mirrored_pools ::
  "'hw adapter \<Rightarrow> bool \<Rightarrow> nvm_pool list option \<Rightarrow> ('hw, 'det) world \<Rightarrow>
   (int \<times> nvm_pool list option \<times> ('hw, 'det) world) option" where
  "get_mirrored_pools ad large dst w =
     (let count = ad_interleave_set_count (ns_driver ad) (w_hw w) in
      if count \<le> 0 then Some (count, dst, w)
      else do {
        (rc, sets) \<leftarrow> read_interleave_sets ad (w_hw w) count;
        if rc \<noteq> count then Some (rc, dst, w)
        else do {
          (rc, pools, w) \<leftarrow> add_ilsets_to_pools ad large POOL_TYPE_PERSISTENT_MIRROR ''mirrored''
                              (\<lambda>s. nis_mirrored s \<noteq> 0) sets [] w;
          if rc \<noteq> NVM_SUCCESS then Some (rc, dst, w)
          else let (rc, dst) = copy_pools dst (map sum_ilsets pools) in Some (rc, dst, w)
        }
      })"

definition get_mirrored_pools_count ::
  "'hw adapter \<Rightarrow> bool \<Rightarrow> ('hw, 'det) world \<Rightarrow> (int \<times> ('hw, 'det) world) option" where
  "get_mirrored_pools_count ad large w = do { (rc, _, w) \<leftarrow> get_mirrored_pools ad large None w; Some (rc, w) }"

section \<open>Persistent pools\<close>

text \<open>Storage regions outside every interleave set. A device that is not manageable is skipped; a
  failed query counts as manageable, because the code tests for zero.\<close>

fun add_storage_regions ::
  "'hw adapter \<Rightarrow> bool \<Rightarrow> nvm_storage_capacities list \<Rightarrow> nvm_pool list \<Rightarrow> int \<Rightarrow> ('hw, 'det) world \<Rightarrow>
   (int \<times> nvm_pool list \<times> ('hw, 'det) world) option" where
  "add_storage_regions ad large [] pools rc w = Some (rc, pools, w)"
| "add_storage_regions ad large (c # cs) pools rc w = do {
     (m, w) \<leftarrow> is_device_manageable ad (sc_device_handle c) w;
     if m \<noteq> 0 \<and> sc_total_storage_capacity c > 0 then do {
       (rc, pools, w) \<leftarrow> add_dimm_to_pools ad large POOL_TYPE_PERSISTENT ''persistent'' pools (sc_device_handle c) w;
       if rc = NVM_SUCCESS then add_storage_regions ad large cs pools rc w else Some (rc, pools, w)
     }
     else add_storage_regions ad large cs pools rc w
   }"

definition add_storage_regions_to_pools ::
  "'hw adapter \<Rightarrow> bool \<Rightarrow> nvm_pool list \<Rightarrow> ('hw, 'det) world \<Rightarrow>
   (int \<times> nvm_pool list \<times> ('hw, 'det) world) option" where
  "add_storage_regions_to_pools ad large pools w =
     (let n = topology_count ad (w_hw w) in
      if n \<le> 0 then Some (n, pools, w)
      else
        let (rc, caps) = get_dimm_storage_capacities ad (w_hw w) (nat n) in
        if rc \<le> 0 then Some (rc, pools, w)
        else do {
          caps \<leftarrow> copy_first caps rc;
          (rc, pools, w) \<leftarrow> add_storage_regions ad large caps pools rc w;
          Some (if rc \<ge> 0 then NVM_SUCCESS else rc, pools, w)
        })"

text \<open>The storage of one region in the pool's device \<open>i\<close>.\<close>

definition add_capacity :: "nat \<Rightarrow> nvm_storage_capacities \<Rightarrow> nvm_pool \<Rightarrow> nvm_pool" where
  "add_capacity i c p =
     (if sc_device_handle c \<noteq> np_dimms p ! i then p
      else
        let p = p\<lparr>np_storage_capacities := (np_storage_capacities p)[i := sc_storage_only_capacity c]\<rparr> in
        if np_type p = POOL_TYPE_PERSISTENT
        then p\<lparr>np_capacity := np_capacity p + sc_total_storage_capacity c,
               np_free_capacity := np_free_capacity p + sc_free_storage_capacity c\<rparr>
        else p)"

definition add_capacities_of :: "nvm_storage_capacities list \<Rightarrow> nvm_pool \<Rightarrow> nvm_pool" where
  "add_capacities_of caps p = fold (\<lambda>i. fold (add_capacity i) caps) [0..<length (np_dimms p)] p"

text \<open>The array of capacities is not cleared here: what the driver says it has filled in must be there.\<close>

definition calculate_pm_capacities ::
  "'hw adapter \<Rightarrow> 'hw \<Rightarrow> nvm_pool \<Rightarrow> (int \<times> nvm_pool) option" where
  "calculate_pm_capacities ad h p =
     (let n = topology_count ad h in
      if n \<le> 0 then Some (n, p)
      else
        let (rc, caps) = ad_storage_capacities (ns_driver ad) h (of_int n) in
        if rc \<le> 0 then Some (rc, p)
        else do {
          caps \<leftarrow> copy_first caps (if n < rc then n else rc);
          Some (NVM_SUCCESS, add_capacities_of caps p)
        })"

fun calculate_all_pm_capacities ::
  "'hw adapter \<Rightarrow> 'hw \<Rightarrow> nvm_pool list \<Rightarrow> (int \<times> nvm_pool list) option" where
  "calculate_all_pm_capacities ad h [] = Some (NVM_SUCCESS, [])"
| "calculate_all_pm_capacities ad h (p # ps) = do {
     (rc, p) \<leftarrow> calculate_pm_capacities ad h p;
     if rc \<noteq> NVM_SUCCESS then Some (rc, p # ps)
     else do { (rc, ps) \<leftarrow> calculate_all_pm_capacities ad h ps; Some (rc, p # ps) }
   }"

text \<open>The pools of the interleave sets, then those of the storage regions.\<close>

definition build_persistent_pools ::
  "'hw adapter \<Rightarrow> bool \<Rightarrow> ('hw, 'det) world \<Rightarrow> (int \<times> nvm_pool list \<times> ('hw, 'det) world) option" where
  "build_persistent_pools ad large w = do {
     let count = ad_interleave_set_count (ns_driver ad) (w_hw w);
     (rc, pools, w) \<leftarrow>
       (if count \<le> 0 then Some (count, [], w)
        else do {
          (rc, sets) \<leftarrow> read_interleave_sets ad (w_hw w) count;
          if rc \<noteq> count then Some (NVM_ERR_UNKNOWN, [], w)
          else add_ilsets_to_pools ad large POOL_TYPE_PERSISTENT ''persistent'' (\<lambda>s. nis_mirrored s = 0) sets [] w
        });
     if rc \<noteq> NVM_SUCCESS then Some (rc, pools, w)
     else add_storage_regions_to_pools ad large pools w
   }"

definition get_persistent_pools ::
  "'hw adapter \<Rightarrow> bool \<Rightarrow> nvm_pool list option \<Rightarrow> ('hw, 'det) world \<Rightarrow>
   (int \<times> nvm_pool list option \<times> ('hw, 'det) world) option" where
  "get_persistent_pools ad large dst w = do {
     (rc, pools, w) \<leftarrow> build_persistent_pools ad large w;
     if rc \<noteq> NVM_SUCCESS then Some (rc, dst, w)
     else do {
       (rc, pools) \<leftarrow> calculate_all_pm_capacities ad (w_hw w) pools;
       if rc \<noteq> NVM_SUCCESS then Some (rc, dst, w)
       else let (rc, dst) = copy_pools dst pools in Some (rc, dst, w)
     }
   }"

definition get_persistent_pools_count ::
  "'hw adapter \<Rightarrow> bool \<Rightarrow> ('hw, 'det) world \<Rightarrow> (int \<times> ('hw, 'det) world) option" where
  "get_persistent_pools_count ad large w = do { (rc, _, w) \<leftarrow> get_persistent_pools ad large None w; Some (rc, w) }"

section \<open>The volatile pool\<close>

fun add_memory_dimms ::
  "'hw adapter \<Rightarrow> bool \<Rightarrow> nvm_topology list \<Rightarrow> nvm_pool \<Rightarrow> ('hw, 'det) world \<Rightarrow>
   (int \<times> nvm_pool \<times> ('hw, 'det) world) option" where
  "add_memory_dimms ad large [] p w = Some (NVM_SUCCESS, p, w)"
| "add_memory_dimms ad large (t # ts) p w = do {
     (m, w) \<leftarrow> is_device_manageable ad (topo_device_handle t) w;
     if m \<le> 0 then add_memory_dimms ad large ts p w
     else do {
       (rc, mem, w) \<leftarrow> get_dimm_memory_capacity ad large (topo_device_handle t) w;
       if rc \<noteq> NVM_SUCCESS then Some (rc, p, w)
       else if mem = 0 then add_memory_dimms ad large ts p w
       else do {
         (rc, p, w) \<leftarrow> add_dimm_to_pool ad large (p\<lparr>np_capacity := np_capacity p + mem\<rparr>) (topo_device_handle t) w;
         if rc = NVM_SUCCESS then add_memory_dimms ad large ts p w else Some (rc, p, w)
       }
     }
   }"

definition get_memory_pool ::
  "'hw adapter \<Rightarrow> bool \<Rightarrow> ('hw, 'det) world \<Rightarrow> (int \<times> nvm_pool \<times> ('hw, 'det) world) option" where
  "get_memory_pool ad large w =
     (let (rc, name) = ad_host_name (ns_driver ad) (w_hw w) in
      if rc \<noteq> NVM_SUCCESS then Some (rc, zero_nvm_pool, w)
      else
        let (rc, p) = init_pool ad (ascii (name @ ''volatile'')) POOL_TYPE_VOLATILE (- 1) in
        if rc \<noteq> NVM_SUCCESS then Some (rc, p, w)
        else
          let count = topology_count ad (w_hw w) in
          if count \<le> 0 then Some (count, p, w)
          else
            let (rc, topo) = topology ad (w_hw w) (of_int count) in
            if rc \<noteq> count then Some (rc, p, w)
            else do {
              topo \<leftarrow> copy_first topo count;
              (rc, p, w) \<leftarrow> add_memory_dimms ad large topo p w;
              Some (rc, p\<lparr>np_free_capacity := np_capacity p\<rparr>, w)
            })"

definition has_memory_pool ::
  "'hw adapter \<Rightarrow> bool \<Rightarrow> ('hw, 'det) world \<Rightarrow> (int \<times> ('hw, 'det) world) option" where
  "has_memory_pool ad large w = do {
     (rc, p, w) \<leftarrow> get_memory_pool ad large w;
     Some (if rc = NVM_SUCCESS then if np_capacity p > 0 then 1 else 0 else rc, w)
   }"

section \<open>All pools\<close>

definition get_pool_count ::
  "'hw adapter \<Rightarrow> bool \<Rightarrow> ('hw, 'det) world \<Rightarrow> (int \<times> ('hw, 'det) world) option" where
  "get_pool_count ad large w = do {
     (v, w) \<leftarrow> has_memory_pool ad large w;
     if v < 0 then Some (v, w)
     else do {
       (m, w) \<leftarrow> get_mirrored_pools_count ad large w;
       if m < 0 then Some (m, w)
       else do {
         (p, w) \<leftarrow> get_persistent_pools_count ad large w;
         Some (if p < 0 then p else v + m + p, w)
       }
     }
   }"

text \<open>One kind of pools: counted first, then read into an array of that size. A code below zero ends the
  query; another count than expected does not.\<close>

definition counted_pools ::
  "os_env \<Rightarrow> (('hw, 'det) world \<Rightarrow> (int \<times> ('hw, 'det) world) option) \<Rightarrow>
   (nvm_pool list option \<Rightarrow> ('hw, 'det) world \<Rightarrow> (int \<times> nvm_pool list option \<times> ('hw, 'det) world) option) \<Rightarrow>
   ('hw, 'det) world \<Rightarrow> (int \<times> nvm_pool list \<times> ('hw, 'det) world) option" where
  "counted_pools os count read w = do {
     (n, w) \<leftarrow> count w;
     if n \<le> 0 then Some (n, [], w)
     else if \<not> calloc_ok os 0 then Some (NVM_ERR_NOMEMORY, replicate (nat n) zero_nvm_pool, w)
     else do {
       (rc, ps, w) \<leftarrow> read (Some (replicate (nat n) zero_nvm_pool)) w;
       ps \<leftarrow> ps;
       Some (rc, ps, w)
     }
   }"

definition get_pools ::
  "'hw adapter \<Rightarrow> bool \<Rightarrow> nat \<Rightarrow> ('hw, 'det) world \<Rightarrow> (int \<times> nvm_pool list \<times> ('hw, 'det) world) option" where
  "get_pools ad large count w = do {
     let none = replicate count zero_nvm_pool;
     (rc, v, w) \<leftarrow> get_memory_pool ad large w;
     let vs = (if rc = NVM_SUCCESS \<and> np_capacity v > 0 then [v] else []);
     (rc, ms, w) \<leftarrow> (if rc \<ge> 0 then counted_pools (ad_os ad) (get_mirrored_pools_count ad large)
                        (get_mirrored_pools ad large) w else Some (rc, [], w));
     (rc, ps, w) \<leftarrow> (if rc \<ge> 0 then counted_pools (ad_os ad) (get_persistent_pools_count ad large)
                        (get_persistent_pools ad large) w else Some (rc, [], w));
     if rc < 0 then Some (rc, none, w)
     else if length (vs @ ms @ ps) \<noteq> count then Some (NVM_ERR_INVALIDPARAMETER, none, w)
     else Some (int count, vs @ ms @ ps, w)
   }"

section \<open>What the interleave sets take of a device\<close>

definition size_per_dimm :: "nvm_interleave_set \<Rightarrow> u64" where
  "size_per_dimm s =
     (let q = nis_size s div of_nat (length (nis_dimms s)) in if nis_mirrored s \<noteq> 0 then 2 * q else q)"

text \<open>The mirrored and the unmirrored size. A set without devices is divided by zero.\<close>

definition get_dimm_ilset_capacity ::
  "'hw adapter \<Rightarrow> 'hw \<Rightarrow> u32 \<Rightarrow> (int \<times> u64 \<times> u64) option" where
  "get_dimm_ilset_capacity ad h handle =
     (let count = ad_interleave_set_count (ns_driver ad) h in
      if count \<le> 0 then Some (count, 0, 0)
      else
        let (rc, sets) = ad_interleave_sets (ns_driver ad) h (of_int count) in
        if rc \<le> 0 then Some (rc, 0, 0)
        else do {
          sets \<leftarrow> copy_first sets count;
          if \<exists>s \<in> set sets. nis_dimms s = [] then None
          else
            let mine = filter (\<lambda>s. handle \<in> set (nis_dimms s)) sets in
            Some (NVM_SUCCESS, sum_list (map size_per_dimm (filter (\<lambda>s. nis_mirrored s \<noteq> 0) mine)),
                  sum_list (map size_per_dimm (filter (\<lambda>s. nis_mirrored s = 0) mine)))
        })"

end
