(* ===== verification/PoolFacts.thy ===== *)
theory PoolFacts
  imports Pools
begin

text \<open>
  What the pools the library builds look like: one pool for each socket, with every device and
  interleave set once, and capacities that are sums over the driver's tables.
\<close>

section \<open>Well-formed pools\<close>

text \<open>A pool names each device and each interleave set once, its arrays have an entry for each device
  and stay inside their bounds.\<close>

definition wf_pool :: "nvm_pool \<Rightarrow> bool" where
  "wf_pool p \<longleftrightarrow> distinct (np_dimms p) \<and> length (np_dimms p) \<le> NVM_MAX_DEVICES_PER_POOL \<and>
     length (np_memory_capacities p) = length (np_dimms p) \<and>
     length (np_raw_capacities p) = length (np_dimms p) \<and>
     length (np_storage_capacities p) = length (np_dimms p) \<and>
     distinct (map nis_set_index (np_ilsets p)) \<and> length (np_ilsets p) \<le> MAX_ILSETS_PER_POOL"

text \<open>A pool of a kind, with interleave sets of its socket only; pools of one kind, at most one for each
  socket.\<close>

definition wf_kind :: "pool_type \<Rightarrow> nvm_pool \<Rightarrow> bool" where
  "wf_kind ty p \<longleftrightarrow> wf_pool p \<and> np_type p = ty \<and>
     (\<forall>s \<in> set (np_ilsets p). np_socket_id p = ucast (nis_socket_id s))"

definition wf_pools :: "pool_type \<Rightarrow> nvm_pool list \<Rightarrow> bool" where
  "wf_pools ty ps \<longleftrightarrow> length ps \<le> NVM_MAX_SOCKETS \<and> distinct (map np_socket_id ps) \<and>
     (\<forall>p \<in> set ps. wf_kind ty p)"

text \<open>What an addition leaves of a pool: its identity and everything that is in it.\<close>

definition pool_grows :: "nvm_pool \<Rightarrow> nvm_pool \<Rightarrow> bool" where
  "pool_grows p p' \<longleftrightarrow> np_guid p' = np_guid p \<and> np_type p' = np_type p \<and> np_socket_id p' = np_socket_id p \<and>
     set (np_dimms p) \<subseteq> set (np_dimms p') \<and> set (np_ilsets p) \<subseteq> set (np_ilsets p') \<and>
     (wf_pool p \<longrightarrow> wf_pool p')"

lemma pool_grows_refl [simp]: "pool_grows p p"
  by (simp add: pool_grows_def)

lemma pool_grows_trans: "pool_grows p q \<Longrightarrow> pool_grows q r \<Longrightarrow> pool_grows p r"
  by (auto simp: pool_grows_def)

lemma add_dimm_cases:
  assumes "add_dimm_to_pool ad large p h w = Some (rc, p', w')"
  obtains (known) "h \<in> set (np_dimms p)" "p' = p" | (failed) "rc \<noteq> NVM_SUCCESS" "p' = p"
  | (added) mem raw health where "h \<notin> set (np_dimms p)" "length (np_dimms p) < NVM_MAX_DEVICES_PER_POOL"
    "p' = p\<lparr>np_dimms := np_dimms p @ [h], np_memory_capacities := np_memory_capacities p @ [mem],
      np_raw_capacities := np_raw_capacities p @ [raw], np_storage_capacities := np_storage_capacities p @ [0],
      np_health := health\<rparr>"
proof (cases "h \<in> set (np_dimms p)")
  case True
  with assms have "p' = p" by (simp add: add_dimm_to_pool_def)
  with True show thesis by (rule known)
next
  case False
  with assms obtain r pi w1 where g: "get_partition_info ad h w = Some (r, pi, w1)"
    by (auto simp: add_dimm_to_pool_def bind_eq_Some_conv)
  show thesis
  proof (cases "r = NVM_SUCCESS")
    case True
    with assms False g have room: "length (np_dimms p) < NVM_MAX_DEVICES_PER_POOL"
      by (simp add: add_dimm_to_pool_def split: if_splits)
    obtain r2 mem w2 where m: "get_dimm_memory_capacity ad large h w1 = Some (r2, mem, w2)"
      using assms False g True room
      by (cases "get_dimm_memory_capacity ad large h w1") (auto simp: add_dimm_to_pool_def)
    obtain r3 hl w3 where h: "get_dimm_health ad h w2 = Some (r3, hl, w3)"
      using assms False g True room m
      by (cases "get_dimm_health ad h w2") (auto simp: add_dimm_to_pool_def Let_def)
    let ?q = "p\<lparr>np_dimms := np_dimms p @ [h], np_memory_capacities := np_memory_capacities p @ [mem],
      np_raw_capacities := np_raw_capacities p @ [4096 * ucast (raw_capacity pi)],
      np_storage_capacities := np_storage_capacities p @ [0]\<rparr>"
    have "p' = (if r3 = NVM_SUCCESS then ?q\<lparr>np_health := max (np_health p) (pool_health_of (np_type p) hl)\<rparr> else ?q)"
      using assms False g True room m h by (cases "r3 = NVM_SUCCESS") (simp_all add: add_dimm_to_pool_def Let_def)
    then have "p' = ?q\<lparr>np_health := if r3 = NVM_SUCCESS then max (np_health p) (pool_health_of (np_type p) hl) else np_health p\<rparr>"
      by (cases "r3 = NVM_SUCCESS") simp_all
    then show thesis by (rule added [OF False room])
  next
    case False
    with assms \<open>h \<notin> set (np_dimms p)\<close> g have "rc \<noteq> NVM_SUCCESS" "p' = p" by (simp_all add: add_dimm_to_pool_def)
    then show thesis by (rule failed)
  qed
qed

lemma add_dimm_grows:
  assumes "add_dimm_to_pool ad large p h w = Some (rc, p', w')"
  shows "pool_grows p p' \<and> np_ilsets p' = np_ilsets p \<and> (rc = NVM_SUCCESS \<longrightarrow> h \<in> set (np_dimms p'))"
  using assms by (cases rule: add_dimm_cases) (auto simp: pool_grows_def wf_pool_def)

lemma add_dimms_grow:
  "add_dimms_to_pool ad large p ds w = Some (rc, p', w') \<Longrightarrow>
   pool_grows p p' \<and> np_ilsets p' = np_ilsets p \<and> (rc = NVM_SUCCESS \<longrightarrow> set ds \<subseteq> set (np_dimms p'))"
proof (induction ds arbitrary: p w)
  case (Cons d ds)
  then obtain r q w1 where q: "add_dimm_to_pool ad large p d w = Some (r, q, w1)"
    by (auto simp: bind_eq_Some_conv)
  note one = add_dimm_grows [OF q]
  show ?case
  proof (cases "r = NVM_SUCCESS")
    case True
    with Cons.prems q have "add_dimms_to_pool ad large q ds w1 = Some (rc, p', w')" by simp
    from Cons.IH [OF this] one True show ?thesis by (auto simp: pool_grows_def)
  next
    case False
    with Cons.prems q one show ?thesis by simp
  qed
qed simp

lemma add_ilset_cases:
  assumes "add_ilset_to_pool ad large p s w = Some (rc, p', w')"
  obtains (known) "nis_set_index s \<in> nis_set_index ` set (np_ilsets p)" "p' = p" "rc = NVM_SUCCESS"
  | (added) "nis_set_index s \<notin> nis_set_index ` set (np_ilsets p)" "length (np_ilsets p) < MAX_ILSETS_PER_POOL"
    "add_dimms_to_pool ad large (p\<lparr>np_ilsets := np_ilsets p @ [s]\<rparr>) (nis_dimms s) w = Some (rc, p', w')"
proof (cases "\<exists>x \<in> set (np_ilsets p). nis_set_index x = nis_set_index s")
  case True
  then have "nis_set_index s \<in> nis_set_index ` set (np_ilsets p)" by (metis image_eqI)
  moreover have "p' = p" "rc = NVM_SUCCESS" using True assms by (simp_all add: add_ilset_to_pool_def)
  ultimately show thesis by (rule known)
next
  case False
  then have "nis_set_index s \<notin> nis_set_index ` set (np_ilsets p)" by (metis imageE)
  moreover have "length (np_ilsets p) < MAX_ILSETS_PER_POOL"
    "add_dimms_to_pool ad large (p\<lparr>np_ilsets := np_ilsets p @ [s]\<rparr>) (nis_dimms s) w = Some (rc, p', w')"
    using False assms by (simp_all add: add_ilset_to_pool_def split: if_splits)
  ultimately show thesis by (rule added)
qed

lemma add_ilset_grows:
  assumes "add_ilset_to_pool ad large p s w = Some (rc, p', w')"
  shows "pool_grows p p'" "nis_set_index s \<in> nis_set_index ` set (np_ilsets p')"
    "set (np_ilsets p') \<subseteq> insert s (set (np_ilsets p))"
    "rc = NVM_SUCCESS \<Longrightarrow> x \<in> set (np_ilsets p') \<Longrightarrow> x \<in> set (np_ilsets p) \<or> set (nis_dimms x) \<subseteq> set (np_dimms p')"
proof -
  have "pool_grows p p' \<and> nis_set_index s \<in> nis_set_index ` set (np_ilsets p') \<and>
      set (np_ilsets p') \<subseteq> insert s (set (np_ilsets p)) \<and>
      (rc = NVM_SUCCESS \<longrightarrow> x \<in> set (np_ilsets p') \<longrightarrow> x \<in> set (np_ilsets p) \<or> set (nis_dimms x) \<subseteq> set (np_dimms p'))"
    using assms
  proof (cases rule: add_ilset_cases)
    case added
    let ?q = "p\<lparr>np_ilsets := np_ilsets p @ [s]\<rparr>"
    note d = add_dimms_grow [OF added(3)]
    have "pool_grows p ?q" using added(1,2) by (auto simp: pool_grows_def wf_pool_def)
    with d have "pool_grows p p'" by (blast intro: pool_grows_trans)
    with d show ?thesis by auto
  qed auto
  then show "pool_grows p p'" "nis_set_index s \<in> nis_set_index ` set (np_ilsets p')"
    "set (np_ilsets p') \<subseteq> insert s (set (np_ilsets p))"
    "rc = NVM_SUCCESS \<Longrightarrow> x \<in> set (np_ilsets p') \<Longrightarrow> x \<in> set (np_ilsets p) \<or> set (nis_dimms x) \<subseteq> set (np_dimms p')"
    by blast+
qed

text \<open>What every pool of a socket has in common with what was added to it.\<close>

lemma in_socket_pool_cases:
  assumes "in_socket_pool ad ty prefix socket add ps w = Some (rc, ps', w')"
  obtains (old) i p' where "i < length ps" "np_socket_id (ps ! i) = socket"
      "add (ps ! i) w = Some (rc, p', w')" "ps' = ps[i := p']"
  | (new) r p where "\<forall>x \<in> set ps. np_socket_id x \<noteq> socket" "length ps < NVM_MAX_SOCKETS"
      "init_pool ad (pool_source prefix (unat socket)) ty socket = (r, p)" "r = NVM_SUCCESS"
      "\<exists>p'. add p w = Some (rc, p', w') \<and> ps' = ps @ [p']"
  | (bad) p where "\<forall>x \<in> set ps. np_socket_id x \<noteq> socket" "length ps < NVM_MAX_SOCKETS"
      "init_pool ad (pool_source prefix (unat socket)) ty socket = (rc, p)" "rc \<noteq> NVM_SUCCESS" "ps' = ps @ [p]"
proof -
  obtain r where r: "search (\<lambda>p. np_socket_id p = socket) ps (length ps) 0 = Some r" using search_ex by blast
  show thesis
  proof (cases r)
    case None
    then have "\<forall>x \<in> set ps. np_socket_id x \<noteq> socket" using r by (simp add: search_Some_None)
    moreover obtain rc1 p where i: "init_pool ad (pool_source prefix (unat socket)) ty socket = (rc1, p)"
      by (cases "init_pool ad (pool_source prefix (unat socket)) ty socket")
    ultimately show thesis using new bad assms r None i
      by (cases "rc1 = NVM_SUCCESS") (auto simp: in_socket_pool_def bind_eq_Some_conv split: if_splits)
  next
    case (Some i)
    then show thesis using old assms r search_Some_Some [OF r [unfolded Some]]
      by (auto simp: in_socket_pool_def bind_eq_Some_conv)
  qed
qed

lemma init_pool_fields:
  "init_pool ad src ty socket = (rc, p) \<Longrightarrow> np_type p = ty \<and> np_socket_id p = socket \<and> np_ilsets p = [] \<and>
   np_dimms p = [] \<and> wf_pool p"
  by (auto simp: init_pool_def zero_nvm_pool_def wf_pool_def split: prod.splits)

lemma wf_pools_append:
  assumes "wf_pools ty ps" "\<forall>x \<in> set ps. np_socket_id x \<noteq> np_socket_id p" "length ps < NVM_MAX_SOCKETS"
    and "wf_kind ty p"
  shows "wf_pools ty (ps @ [p])"
  using assms by (auto simp: wf_pools_def)

text \<open>What an addition to a pool of a socket has to keep.\<close>

lemma kind_kept:
  assumes "wf_kind ty p" "pool_grows p p'" "np_socket_id p = socket"
    and "\<forall>s \<in> set (np_ilsets p'). s \<in> set (np_ilsets p) \<or> socket = ucast (nis_socket_id s)"
  shows "wf_kind ty p'" "np_socket_id p' = socket"
proof -
  show sock: "np_socket_id p' = socket" using assms(2,3) by (simp add: pool_grows_def)
  have "\<forall>s \<in> set (np_ilsets p'). socket = ucast (nis_socket_id s)"
    using assms(1,3,4) unfolding wf_kind_def by metis
  with assms(1,2) sock show "wf_kind ty p'" unfolding wf_kind_def pool_grows_def by metis
qed

lemma in_socket_pool_wf:
  assumes "in_socket_pool ad ty prefix socket add ps w = Some (rc, ps', w')" "wf_pools ty ps"
    and add: "\<And>p p'. add p w = Some (rc, p', w') \<Longrightarrow> pool_grows p p' \<and>
      (\<forall>s \<in> set (np_ilsets p'). s \<in> set (np_ilsets p) \<or> socket = ucast (nis_socket_id s))"
  shows "wf_pools ty ps'"
  using assms(1)
proof (cases rule: in_socket_pool_cases)
  case (old i p')
  have "wf_kind ty (ps ! i)" using assms(2) old(1) unfolding wf_pools_def by simp
  note k = kind_kept [OF this conjunct1 [OF add [OF old(3)]] old(2) conjunct2 [OF add [OF old(3)]]]
  have "map np_socket_id ps' = (map np_socket_id ps)[i := np_socket_id (ps ! i)]"
    using old(2,4) k(2) by (simp add: map_update)
  also have "\<dots> = map np_socket_id ps" using old(1) by (metis list_update_id nth_map)
  finally have m: "map np_socket_id ps' = map np_socket_id ps" .
  have "\<forall>p \<in> set ps'. wf_kind ty p"
    using assms(2) k(1) set_update_subset_insert [of ps i p'] unfolding wf_pools_def old(4) by blast
  then show ?thesis using assms(2) m old(4) unfolding wf_pools_def by simp
next
  case (new r p)
  then obtain p' where p': "add p w = Some (rc, p', w')" "ps' = ps @ [p']" by blast
  have "wf_kind ty p" "np_socket_id p = socket" using init_pool_fields [OF new(3)] by (simp_all add: wf_kind_def)
  note k = kind_kept [OF this(1) conjunct1 [OF add [OF p'(1)]] this(2) conjunct2 [OF add [OF p'(1)]]]
  show ?thesis unfolding p'(2) using new(1,2) k(2) by (intro wf_pools_append [OF assms(2)] k(1)) simp_all
next
  case (bad p)
  have "wf_kind ty p" "np_socket_id p = socket" using init_pool_fields [OF bad(3)] by (simp_all add: wf_kind_def)
  then show ?thesis unfolding bad(5) using bad(1,2) by (intro wf_pools_append [OF assms(2)]) simp_all
qed

text \<open>Where an added interleave set is found: in the pool of its socket.\<close>

definition set_placed :: "nvm_interleave_set \<Rightarrow> nvm_pool list \<Rightarrow> bool" where
  "set_placed s ps \<longleftrightarrow> (\<exists>p \<in> set ps. np_socket_id p = ucast (nis_socket_id s) \<and>
     nis_set_index s \<in> nis_set_index ` set (np_ilsets p))"

text \<open>Every device of an interleave set of a pool is one of the pool's devices.\<close>

definition sets_closed :: "nvm_pool list \<Rightarrow> bool" where
  "sets_closed ps \<longleftrightarrow> (\<forall>p \<in> set ps. \<forall>s \<in> set (np_ilsets p). set (nis_dimms s) \<subseteq> set (np_dimms p))"

lemma in_socket_pool_keeps:
  assumes "in_socket_pool ad ty prefix socket add ps w = Some (rc, ps', w')"
    and add: "\<And>p p'. add p w = Some (rc, p', w') \<Longrightarrow> pool_grows p p'"
    and "set_placed s ps"
  shows "set_placed s ps'"
  using assms(1)
proof (cases rule: in_socket_pool_cases)
  case (old i p')
  have g: "pool_grows (ps ! i) p'" by (rule add [OF old(3)])
  obtain p where p: "p \<in> set ps" "np_socket_id p = ucast (nis_socket_id s)"
    "nis_set_index s \<in> nis_set_index ` set (np_ilsets p)" using assms(3) unfolding set_placed_def by blast
  then obtain j where j: "j < length ps" "ps ! j = p" by (metis in_set_conv_nth)
  show ?thesis
  proof (cases "j = i")
    case True
    then have "p' \<in> set ps'" using old(1,4) by (simp add: set_update_memI)
    moreover have "np_socket_id p' = ucast (nis_socket_id s)" "nis_set_index s \<in> nis_set_index ` set (np_ilsets p')"
      using g p j True unfolding pool_grows_def by auto
    ultimately show ?thesis unfolding set_placed_def by blast
  next
    case False
    then have "ps' ! j = p" "j < length ps'" using j old(4) by simp_all
    then have "p \<in> set ps'" by (metis nth_mem)
    with p show ?thesis unfolding set_placed_def by blast
  qed
next
  case (new r p)
  with assms(3) show ?thesis unfolding set_placed_def by auto
next
  case (bad p)
  with assms(3) show ?thesis unfolding set_placed_def by auto
qed

lemma in_socket_pool_places:
  assumes "in_socket_pool ad ty prefix (ucast (nis_socket_id s)) add ps w = Some (NVM_SUCCESS, ps', w')"
    and add: "\<And>p p'. add p w = Some (NVM_SUCCESS, p', w') \<Longrightarrow> pool_grows p p' \<and>
      nis_set_index s \<in> nis_set_index ` set (np_ilsets p')"
  shows "set_placed s ps'"
  using assms(1)
proof (cases rule: in_socket_pool_cases)
  case (old i p')
  then have "p' \<in> set ps'" by (simp add: set_update_memI)
  moreover have "np_socket_id p' = ucast (nis_socket_id s)" "nis_set_index s \<in> nis_set_index ` set (np_ilsets p')"
    using add [OF old(3)] old(2) unfolding pool_grows_def by auto
  ultimately show ?thesis unfolding set_placed_def by blast
next
  case (new r p)
  then obtain p' where p': "add p w = Some (NVM_SUCCESS, p', w')" "ps' = ps @ [p']" by blast
  with add [OF p'(1)] init_pool_fields [OF new(3)] show ?thesis unfolding set_placed_def pool_grows_def by auto
next
  case (bad p)
  then show ?thesis by simp
qed

lemma in_socket_pool_closed:
  assumes "in_socket_pool ad ty prefix socket add ps w = Some (rc, ps', w')" "sets_closed ps"
    and add: "\<And>p p' x. add p w = Some (rc, p', w') \<Longrightarrow> pool_grows p p' \<and>
      (x \<in> set (np_ilsets p') \<longrightarrow> x \<in> set (np_ilsets p) \<or> set (nis_dimms x) \<subseteq> set (np_dimms p'))"
  shows "sets_closed ps'"
proof -
  have one: "\<forall>s \<in> set (np_ilsets p'). set (nis_dimms s) \<subseteq> set (np_dimms p')"
    if "add p w = Some (rc, p', w')" "\<forall>s \<in> set (np_ilsets p). set (nis_dimms s) \<subseteq> set (np_dimms p)" for p p'
    using add [OF that(1)] that(2) unfolding pool_grows_def by blast
  show ?thesis
    using assms(1)
  proof (cases rule: in_socket_pool_cases)
    case (old i p')
    have "\<forall>s \<in> set (np_ilsets p'). set (nis_dimms s) \<subseteq> set (np_dimms p')"
      using assms(2) old(1) unfolding sets_closed_def by (intro one [OF old(3)]) simp
    then show ?thesis using assms(2) set_update_subset_insert [of ps i p'] unfolding sets_closed_def old(4) by blast
  next
    case (new r p)
    then obtain p' where p': "add p w = Some (rc, p', w')" "ps' = ps @ [p']" by blast
    have "\<forall>s \<in> set (np_ilsets p'). set (nis_dimms s) \<subseteq> set (np_dimms p')"
      using init_pool_fields [OF new(3)] by (intro one [OF p'(1)]) simp
    then show ?thesis using assms(2) unfolding sets_closed_def p'(2) by auto
  next
    case (bad p)
    then show ?thesis using assms(2) init_pool_fields [OF bad(3)] unfolding sets_closed_def by auto
  qed
qed

section \<open>The persistent pools\<close>

lemma add_ilset_step:
  assumes "add_ilset_to_pools ad large ty prefix ps s w = Some (rc, ps', w')"
  shows "wf_pools ty ps \<Longrightarrow> wf_pools ty ps'" "set_placed x ps \<Longrightarrow> set_placed x ps'"
    "rc = NVM_SUCCESS \<Longrightarrow> set_placed s ps'" "rc = NVM_SUCCESS \<Longrightarrow> sets_closed ps \<Longrightarrow> sets_closed ps'"
proof -
  note i = assms [unfolded add_ilset_to_pools_def]
  show "wf_pools ty ps \<Longrightarrow> wf_pools ty ps'"
    by (rule in_socket_pool_wf [OF i]) (use add_ilset_grows(1,3) in \<open>blast+\<close>)
  show "set_placed x ps \<Longrightarrow> set_placed x ps'"
    by (rule in_socket_pool_keeps [OF i]) (use add_ilset_grows(1) in \<open>blast+\<close>)
  show "rc = NVM_SUCCESS \<Longrightarrow> set_placed s ps'"
    using in_socket_pool_places [of ad ty prefix s _ ps w ps' w'] i add_ilset_grows(1,2) by blast
  show "rc = NVM_SUCCESS \<Longrightarrow> sets_closed ps \<Longrightarrow> sets_closed ps'"
    by (rule in_socket_pool_closed [OF i]) (use add_ilset_grows(1,4) in \<open>blast+\<close>)
qed

lemma add_ilsets_pools:
  assumes "add_ilsets_to_pools ad large ty prefix pick ss ps w = Some (rc, ps', w')" "wf_pools ty ps"
  shows "wf_pools ty ps' \<and> (set_placed x ps \<longrightarrow> set_placed x ps') \<and>
    (rc = NVM_SUCCESS \<longrightarrow> (sets_closed ps \<longrightarrow> sets_closed ps') \<and> (\<forall>s \<in> set ss. pick s \<longrightarrow> set_placed s ps'))"
  using assms
proof (induction ss arbitrary: ps w x)
  case (Cons s ss)
  show ?case
  proof (cases "pick s")
    case False
    with Cons.prems Cons.IH [of ps w x] show ?thesis by auto
  next
    case True
    with Cons.prems(1) obtain r qs w1 where q: "add_ilset_to_pools ad large ty prefix ps s w = Some (r, qs, w1)"
      by (auto simp: bind_eq_Some_conv)
    note st = add_ilset_step [OF q]
    show ?thesis
    proof (cases "r = NVM_SUCCESS")
      case False
      with Cons.prems True q have "rc = r" "ps' = qs" by simp_all
      with False st(1,2) Cons.prems(2) show ?thesis by simp
    next
      case rs: True
      with Cons.prems True q have "add_ilsets_to_pools ad large ty prefix pick ss qs w1 = Some (rc, ps', w')" by simp
      note ih = Cons.IH [OF this st(1) [OF Cons.prems(2)]]
      show ?thesis using ih [of x] ih [of s] st(2-4) rs by auto
    qed
  qed
qed simp

lemma add_dimm_pools:
  assumes "add_dimm_to_pools ad large ty prefix ps h w = Some (rc, ps', w')" "wf_pools ty ps"
  shows "wf_pools ty ps' \<and> (set_placed x ps \<longrightarrow> set_placed x ps') \<and> (sets_closed ps \<longrightarrow> sets_closed ps')"
proof -
  have "ps' = ps \<or> (\<exists>w1. in_socket_pool ad ty prefix (handle_part h 12 4) (\<lambda>p. add_dimm_to_pool ad large p h) ps w1 =
      Some (rc, ps', w'))"
    using assms(1) by (auto simp: add_dimm_to_pools_def bind_eq_Some_conv split: if_splits)
  then show ?thesis
  proof
    assume "\<exists>w1. in_socket_pool ad ty prefix (handle_part h 12 4) (\<lambda>p. add_dimm_to_pool ad large p h) ps w1 =
      Some (rc, ps', w')"
    then obtain w1 where i: "in_socket_pool ad ty prefix (handle_part h 12 4) (\<lambda>p. add_dimm_to_pool ad large p h) ps w1 =
      Some (rc, ps', w')" ..
    have "wf_pools ty ps'" by (rule in_socket_pool_wf [OF i assms(2)]) (use add_dimm_grows in \<open>fastforce\<close>)
    moreover have "set_placed x ps \<Longrightarrow> set_placed x ps'"
      by (rule in_socket_pool_keeps [OF i]) (use add_dimm_grows in \<open>blast+\<close>)
    moreover have "sets_closed ps \<Longrightarrow> sets_closed ps'"
      by (rule in_socket_pool_closed [OF i]) (use add_dimm_grows in \<open>fastforce+\<close>)
    ultimately show ?thesis by blast
  qed (use assms(2) in simp)
qed

lemma add_regions_pools:
  assumes "add_storage_regions ad large cs ps r w = Some (rc, ps', w')" "wf_pools POOL_TYPE_PERSISTENT ps"
  shows "wf_pools POOL_TYPE_PERSISTENT ps' \<and> (set_placed x ps \<longrightarrow> set_placed x ps') \<and> (sets_closed ps \<longrightarrow> sets_closed ps')"
  using assms
proof (induction cs arbitrary: ps r w)
  case (Cons c cs)
  from Cons.prems(1) obtain m w1 where m: "is_device_manageable ad (sc_device_handle c) w = Some (m, w1)"
    by (auto simp: bind_eq_Some_conv)
  show ?case
  proof (cases "m \<noteq> 0 \<and> sc_total_storage_capacity c > 0")
    case False
    with Cons.prems m have "add_storage_regions ad large cs ps r w1 = Some (rc, ps', w')" by auto
    from Cons.IH [OF this Cons.prems(2)] show ?thesis .
  next
    case True
    with Cons.prems(1) m obtain r2 qs w2 where q: "add_dimm_to_pools ad large POOL_TYPE_PERSISTENT ''persistent'' ps
        (sc_device_handle c) w1 = Some (r2, qs, w2)" by (auto simp: bind_eq_Some_conv)
    note st = add_dimm_pools [OF q Cons.prems(2), of x]
    show ?thesis
    proof (cases "r2 = NVM_SUCCESS")
      case False
      with Cons.prems True m q have "ps' = qs" by simp
      with st show ?thesis by blast
    next
      case rs: True
      with Cons.prems True m q have "add_storage_regions ad large cs qs r2 w2 = Some (rc, ps', w')" by simp
      from Cons.IH [OF this] st show ?thesis by blast
    qed
  qed
qed simp

lemma add_all_regions_pools:
  assumes "add_storage_regions_to_pools ad large ps w = Some (rc, ps', w')" "wf_pools POOL_TYPE_PERSISTENT ps"
  shows "wf_pools POOL_TYPE_PERSISTENT ps' \<and> (set_placed x ps \<longrightarrow> set_placed x ps') \<and> (sets_closed ps \<longrightarrow> sets_closed ps')"
proof -
  have "ps' = ps \<or> (\<exists>cs r w1 r'. add_storage_regions ad large cs ps r w1 = Some (r', ps', w'))"
    using assms(1) by (auto simp: add_storage_regions_to_pools_def bind_eq_Some_conv Let_def split: if_splits prod.splits)
  then show ?thesis using assms(2) add_regions_pools by blast
qed

lemma no_pools [simp]: "wf_pools ty []" "sets_closed []"
  by (simp_all add: wf_pools_def sets_closed_def)

text \<open>C37. The persistent pools: at most one for each socket, in which every device and every interleave
  set is listed once, with an entry for each device in every capacity array, all inside their bounds.
  When the query succeeds, every interleave set that is not mirrored is in the pool of its socket, and
  the devices of a pool's sets are devices of the pool.\<close>
theorem persistent_pools_by_socket:
  assumes "build_persistent_pools ad large w = Some (rc, ps, w')"
  shows "wf_pools POOL_TYPE_PERSISTENT ps \<and> (rc = NVM_SUCCESS \<longrightarrow> sets_closed ps \<and>
    (\<forall>n sets. ad_interleave_set_count (ns_driver ad) (w_hw w) = n \<and> 0 < n \<and>
       read_interleave_sets ad (w_hw w) n = Some (n, sets) \<longrightarrow>
       (\<forall>s \<in> set sets. nis_mirrored s = 0 \<longrightarrow> set_placed s ps)))"
proof -
  let ?n = "ad_interleave_set_count (ns_driver ad) (w_hw w)"
  define start where "start = (if ?n \<le> 0 then Some (?n, [], w)
        else do {
          (rc, sets) \<leftarrow> read_interleave_sets ad (w_hw w) ?n;
          if rc \<noteq> ?n then Some (NVM_ERR_UNKNOWN, [], w)
          else add_ilsets_to_pools ad large POOL_TYPE_PERSISTENT ''persistent'' (\<lambda>s. nis_mirrored s = 0) sets [] w
        })"
  from assms obtain r1 ps1 w1 where st: "start = Some (r1, ps1, w1)"
    and fin: "(if r1 \<noteq> NVM_SUCCESS then Some (r1, ps1, w1) else add_storage_regions_to_pools ad large ps1 w1) =
      Some (rc, ps, w')"
    unfolding build_persistent_pools_def Let_def start_def [symmetric] by (auto simp: bind_eq_Some_conv)
  have first: "wf_pools POOL_TYPE_PERSISTENT ps1 \<and> (r1 = NVM_SUCCESS \<longrightarrow> sets_closed ps1 \<and>
      (\<forall>sets. 0 < ?n \<and> read_interleave_sets ad (w_hw w) ?n = Some (?n, sets) \<longrightarrow>
         (\<forall>s \<in> set sets. nis_mirrored s = 0 \<longrightarrow> set_placed s ps1)))"
  proof (cases "0 < ?n \<and> (\<exists>sets. read_interleave_sets ad (w_hw w) ?n = Some (?n, sets))")
    case True
    then obtain sets where sets: "read_interleave_sets ad (w_hw w) ?n = Some (?n, sets)" by blast
    with True st have "add_ilsets_to_pools ad large POOL_TYPE_PERSISTENT ''persistent'' (\<lambda>s. nis_mirrored s = 0) sets [] w =
        Some (r1, ps1, w1)" unfolding start_def by simp
    from add_ilsets_pools [OF this] sets show ?thesis by simp
  next
    case False
    then have "ps1 = []" using st unfolding start_def by (auto simp: bind_eq_Some_conv split: if_splits)
    with False show ?thesis by auto
  qed
  show ?thesis
  proof (cases "r1 = NVM_SUCCESS")
    case True
    with fin have "add_storage_regions_to_pools ad large ps1 w1 = Some (rc, ps, w')" by simp
    from add_all_regions_pools [OF this] first True show ?thesis by blast
  next
    case False
    with fin first show ?thesis by auto
  qed
qed

section \<open>Capacities\<close>

lemma add_capacity_fields:
  "np_dimms (add_capacity i c p) = np_dimms p" "np_type (add_capacity i c p) = np_type p"
  "np_type p = POOL_TYPE_PERSISTENT \<Longrightarrow> np_capacity (add_capacity i c p) =
     np_capacity p + (if sc_device_handle c = np_dimms p ! i then sc_total_storage_capacity c else 0)"
  "np_type p = POOL_TYPE_PERSISTENT \<Longrightarrow> np_free_capacity (add_capacity i c p) =
     np_free_capacity p + (if sc_device_handle c = np_dimms p ! i then sc_free_storage_capacity c else 0)"
  by (simp_all add: add_capacity_def Let_def)

text \<open>The regions of a device among those the driver reports.\<close>

abbreviation (input) regions_of :: "u32 \<Rightarrow> nvm_storage_capacities list \<Rightarrow> nvm_storage_capacities list" where
  "regions_of d caps \<equiv> filter (\<lambda>c. sc_device_handle c = d) caps"

lemma fold_add_capacity:
  assumes "np_type p = POOL_TYPE_PERSISTENT"
  shows "np_dimms (fold (add_capacity i) caps p) = np_dimms p \<and>
    np_type (fold (add_capacity i) caps p) = POOL_TYPE_PERSISTENT \<and>
    np_capacity (fold (add_capacity i) caps p) =
      np_capacity p + sum_list (map sc_total_storage_capacity (regions_of (np_dimms p ! i) caps)) \<and>
    np_free_capacity (fold (add_capacity i) caps p) =
      np_free_capacity p + sum_list (map sc_free_storage_capacity (regions_of (np_dimms p ! i) caps))"
  using assms
proof (induction caps arbitrary: p)
  case (Cons c caps)
  have "np_type (add_capacity i c p) = POOL_TYPE_PERSISTENT" using Cons.prems by (simp add: add_capacity_fields)
  from Cons.IH [OF this] Cons.prems show ?case by (simp add: add_capacity_fields add.assoc)
qed simp

lemma fold_add_capacities:
  assumes "np_type p = POOL_TYPE_PERSISTENT"
  shows "np_dimms (fold (\<lambda>i. fold (add_capacity i) caps) is p) = np_dimms p \<and>
    np_capacity (fold (\<lambda>i. fold (add_capacity i) caps) is p) = np_capacity p +
      (\<Sum>d \<leftarrow> map ((!) (np_dimms p)) is. sum_list (map sc_total_storage_capacity (regions_of d caps))) \<and>
    np_free_capacity (fold (\<lambda>i. fold (add_capacity i) caps) is p) = np_free_capacity p +
      (\<Sum>d \<leftarrow> map ((!) (np_dimms p)) is. sum_list (map sc_free_storage_capacity (regions_of d caps)))"
  using assms
proof (induction "is" arbitrary: p)
  case (Cons i js)
  from Cons.IH [of "fold (add_capacity i) caps p"] fold_add_capacity [OF Cons.prems, of i caps]
  show ?case by (simp add: add.assoc)
qed simp

lemma sum_disjoint:
  fixes f :: "'a \<Rightarrow> 'b :: comm_monoid_add"
  assumes "\<And>x. x \<in> set xs \<Longrightarrow> \<not> (P x \<and> Q x)"
  shows "sum_list (map f (filter (\<lambda>x. P x \<or> Q x) xs)) =
    sum_list (map f (filter P xs)) + sum_list (map f (filter Q xs))"
  using assms by (induction xs) (auto simp: ac_simps)

lemma sum_by_device:
  fixes f :: "nvm_storage_capacities \<Rightarrow> u64"
  assumes "distinct ds"
  shows "(\<Sum>d \<leftarrow> ds. sum_list (map f (regions_of d caps))) =
    sum_list (map f (filter (\<lambda>c. sc_device_handle c \<in> set ds) caps))"
  using assms
proof (induction ds)
  case (Cons d ds)
  have "filter (\<lambda>c. sc_device_handle c \<in> set (d # ds)) caps =
      filter (\<lambda>c. sc_device_handle c = d \<or> sc_device_handle c \<in> set ds) caps" by simp
  then show ?case
    using Cons sum_disjoint [of caps "\<lambda>c. sc_device_handle c = d" "\<lambda>c. sc_device_handle c \<in> set ds" f] by auto
qed simp

text \<open>The capacity of a persistent pool is what it was plus the storage of every region on one of its
  devices, each region counted once, and the free capacity likewise.\<close>
theorem pool_capacity_is_sum:
  assumes "calculate_pm_capacities ad h p = Some (NVM_SUCCESS, p')" "wf_pool p" "np_type p = POOL_TYPE_PERSISTENT"
    and "topology_count ad h = n" "ad_storage_capacities (ns_driver ad) h (of_int n) = (k, caps)" "0 < k" "k \<le> n"
  shows "let mine = filter (\<lambda>c. sc_device_handle c \<in> set (np_dimms p)) (take (nat k) caps) in
    np_capacity p' = np_capacity p + sum_list (map sc_total_storage_capacity mine) \<and>
    np_free_capacity p' = np_free_capacity p + sum_list (map sc_free_storage_capacity mine) \<and>
    np_dimms p' = np_dimms p"
proof -
  have "0 < n" using assms(6,7) by linarith
  then have "p' = add_capacities_of (take (nat k) caps) p"
    using assms(1,4-7) by (auto simp: calculate_pm_capacities_def copy_first_def bind_eq_Some_conv split: if_splits)
  moreover have "map ((!) (np_dimms p)) [0..<length (np_dimms p)] = np_dimms p" by (simp add: map_nth)
  moreover have "distinct (np_dimms p)" using assms(2) by (simp add: wf_pool_def)
  ultimately show ?thesis
    using fold_add_capacities [OF assms(3), of "take (nat k) caps" "[0..<length (np_dimms p)]"]
    by (simp only: add_capacities_of_def sum_by_device Let_def)
qed

text \<open>The GUID of a persistent pool does not identify its socket: sockets 10 to 15 share the GUID of
  socket 1, because only one digit of the number gets into the text that is hashed.\<close>
theorem pool_guids_collide:
  assumes "10 \<le> n" "n \<le> 15"
  shows "np_guid (snd (init_pool ad (pool_source ''persistent'' n) ty s)) =
    np_guid (snd (init_pool ad (pool_source ''persistent'' 1) ty s'))"
proof -
  have "n = 10 \<or> n = 11 \<or> n = 12 \<or> n = 13 \<or> n = 14 \<or> n = 15" using assms by linarith
  then have "pool_source ''persistent'' n = pool_source ''persistent'' 1"
    by (elim disjE) (simp_all add: pool_source_def ascii_def decimal.simps)
  then show ?thesis by (simp add: init_pool_def split: prod.split)
qed

section \<open>A device in an interleave set\<close>

definition one_set :: nvm_interleave_set where
  "one_set = \<lparr>nis_size = 2 ^ 35, nis_available_size = 2 ^ 35, nis_socket_id = 0, nis_settings = zero_format,
     nis_dimms = [1], nis_set_index = 1, nis_driver_id = 1, nis_mirrored = 0\<rparr>"

definition pool_adapter :: "unit adapter" where
  "pool_adapter = (adapter_with cap_firmware)\<lparr>sha1 := (\<lambda>_. Some (replicate 20 7)),
     ns_driver := empty_ns_driver\<lparr>ad_interleave_set_count := (\<lambda>_. 1),
       ad_interleave_sets := (\<lambda>_ _. (1, [one_set]))\<rparr>\<rparr>"

lemma pool_driver_ok: "driver_ok pool_adapter"
  using cap_driver_ok by (simp add: driver_ok_def pool_adapter_def)

lemma pool_adapter_ioctl: "ioctl_passthrough_cmd pool_adapter = ioctl_passthrough_cmd (adapter_with cap_firmware)"
  by (intro ext) (simp add: ioctl_passthrough_cmd_def pool_adapter_def)

lemma pool_partition:
  "\<exists>pi w'. get_partition_info pool_adapter h w = Some (NVM_SUCCESS, pi, w') \<and> p_context (w_ctx w') = p_context (w_ctx w)"
  using cap_partition [of h w] by (auto simp: get_partition_info_def pool_adapter_ioctl)

lemma pool_pcd:
  assumes "in_cap_ctx w"
  shows "\<exists>mem w'. get_dimm_memory_capacity pool_adapter large 1 w = Some (NVM_SUCCESS, mem, w') \<and>
    in_cap_ctx w' \<and> w_hw w' = w_hw w"
proof -
  have f: "find (\<lambda>d. 1 = device_handle d) [cap_device] = Some cap_device"
    by (simp add: cap_device_def sample_device_def)
  have wf: "wf_ctx (p_context (w_ctx w))" using assms cap_ctx_ok by simp
  have "read_pcd (dev_guid cap_device) (w_ctx w) = Some cap_cfg"
    using assms by (simp add: read_pcd_eq [OF wf] device_at_def cap_ctx_def find_device_def device_entry_def
      cap_cfg_length cap_device_def sample_device_def guid_match_iff)
  from warm_pcd [OF _ _ pool_driver_ok wf _ _ f this, of large] assms cap_ctx_ok obtain w' where
    w': "get_dimm_platform_config pool_adapter large 1 w = Some (NVM_SUCCESS, Config cap_cfg, w')" "in_cap_ctx w'"
      "w_hw w' = w_hw w"
    by (auto simp: pool_adapter_def)
  from cap_current w' show ?thesis by (auto simp: get_dimm_memory_capacity_def)
qed

lemma pool_health:
  "\<exists>h w'. get_dimm_health pool_adapter 1 w = Some (NVM_SUCCESS, h, w') \<and> w_hw w' = w_hw w"
proof -
  have "length (fit 128 x) = 128" for x by simp
  then have "\<exists>h. smart_health_of (fit 128 x) = Some h" for x
    using rd_Some_iff(1) [of "fit 128 x" 8] rd_Some_iff(3) [of "fit 128 x" 0] by (auto simp: smart_health_of_def)
  then obtain h where "smart_health_of (fit 128 (fst (snd (cap_firmware (fw_cmd_for 0 0 0) ())))) = Some h" by blast
  then show ?thesis
    by (auto simp: get_dimm_health_def fw_get_smart_health_def ioctl_passthrough_cmd_def pool_adapter_def
        cap_firmware_def fw_cmd_for_def)
qed

lemma pool_build:
  "\<exists>ps w'. build_persistent_pools pool_adapter False cap_world = Some (NVM_SUCCESS, ps, w')"
proof -
  obtain p where ip: "init_pool pool_adapter (pool_source ''persistent'' 0) POOL_TYPE_PERSISTENT 0 = (NVM_SUCCESS, p)"
    by (simp add: init_pool_def guid_hash_def pool_adapter_def)
  obtain w1 pi where w1: "get_partition_info pool_adapter 1 cap_world = Some (NVM_SUCCESS, pi, w1)" "in_cap_ctx w1"
    using pool_partition [of 1 cap_world] by (auto simp: cap_world_def)
  obtain mem w2 where w2: "get_dimm_memory_capacity pool_adapter False 1 w1 = Some (NVM_SUCCESS, mem, w2)"
    using pool_pcd [OF w1(2)] by blast
  obtain hl w3 where w3: "get_dimm_health pool_adapter 1 w2 = Some (NVM_SUCCESS, hl, w3)" using pool_health by blast
  have "np_ilsets p = []" "np_dimms p = []" using init_pool_fields [OF ip] by simp_all
  with w1(1) w2 w3 obtain p' where "add_ilset_to_pool pool_adapter False p one_set cap_world = Some (NVM_SUCCESS, p', w3)"
    by (auto simp: add_ilset_to_pool_def one_set_def add_dimm_to_pool_def Let_def)
  with ip have "add_ilsets_to_pools pool_adapter False POOL_TYPE_PERSISTENT ''persistent'' (\<lambda>s. nis_mirrored s = 0) [one_set] []
      cap_world = Some (NVM_SUCCESS, [p'], w3)"
    by (simp add: add_ilset_to_pools_def in_socket_pool_def one_set_def)
  moreover have "read_interleave_sets pool_adapter h 1 = Some (1, [one_set])" for h
    by (simp add: read_interleave_sets_def pool_adapter_def copy_first_def)
  moreover have "ad_interleave_set_count (ns_driver pool_adapter) h = 1" for h by (simp add: pool_adapter_def)
  moreover have "add_storage_regions_to_pools pool_adapter False ps w = Some (NVM_SUCCESS, ps, w)"
    for ps and w :: "(unit, nat) world"
    by (simp add: add_storage_regions_to_pools_def get_dimm_storage_capacities_def pool_adapter_def adapter_with_def
        empty_ns_driver_def)
  ultimately show ?thesis by (simp add: build_persistent_pools_def)
qed

theorem persistent_pools_by_socket_witness:
  "\<exists>ps w'. build_persistent_pools pool_adapter False cap_world = Some (NVM_SUCCESS, ps, w') \<and>
    set_placed one_set ps \<and> wf_pools POOL_TYPE_PERSISTENT ps"
proof -
  obtain ps w' where b: "build_persistent_pools pool_adapter False cap_world = Some (NVM_SUCCESS, ps, w')"
    using pool_build by blast
  have "read_interleave_sets pool_adapter h 1 = Some (1, [one_set])" for h
    by (simp add: read_interleave_sets_def pool_adapter_def copy_first_def)
  then show ?thesis using persistent_pools_by_socket [OF b] b by (auto simp: pool_adapter_def one_set_def)
qed

theorem pool_guids_collide_witness:
  "np_guid (snd (init_pool pool_adapter (pool_source ''persistent'' 12) POOL_TYPE_PERSISTENT 12)) =
   np_guid (snd (init_pool pool_adapter (pool_source ''persistent'' 1) POOL_TYPE_PERSISTENT 1))"
  by (rule pool_guids_collide) simp_all

definition storage_adapter :: "unit adapter" where
  "storage_adapter = (adapter_with cap_firmware)\<lparr>ns_driver := empty_ns_driver\<lparr>ad_storage_capacities :=
     (\<lambda>_ _. (1, [\<lparr>sc_device_handle = 1, sc_total_storage_capacity = 2 ^ 36,
       sc_free_storage_capacity = 2 ^ 35, sc_storage_only_capacity = 2 ^ 35\<rparr>]))\<rparr>\<rparr>"

theorem pool_capacity_is_sum_witness:
  "\<exists>p'. calculate_pm_capacities storage_adapter () (zero_nvm_pool\<lparr>np_type := POOL_TYPE_PERSISTENT, np_dimms := [1],
      np_memory_capacities := [0], np_raw_capacities := [0], np_storage_capacities := [0]\<rparr>) = Some (NVM_SUCCESS, p') \<and>
    np_capacity p' = 2 ^ 36 \<and> np_free_capacity p' = 2 ^ 35"
proof -
  let ?p = "zero_nvm_pool\<lparr>np_type := POOL_TYPE_PERSISTENT, np_dimms := [1],
      np_memory_capacities := [0], np_raw_capacities := [0], np_storage_capacities := [0]\<rparr>"
  have wf: "wf_pool ?p" "np_type ?p = POOL_TYPE_PERSISTENT" by (simp_all add: wf_pool_def zero_nvm_pool_def)
  have n: "topology_count storage_adapter () = 2" by (simp add: storage_adapter_def adapter_with_def)
  have c: "ad_storage_capacities (ns_driver storage_adapter) () (of_int 2) = (1, [\<lparr>sc_device_handle = 1,
      sc_total_storage_capacity = 2 ^ 36, sc_free_storage_capacity = 2 ^ 35, sc_storage_only_capacity = 2 ^ 35\<rparr>])"
    by (simp add: storage_adapter_def)
  obtain p' where r: "calculate_pm_capacities storage_adapter () ?p = Some (NVM_SUCCESS, p')"
    using n c by (auto simp: calculate_pm_capacities_def copy_first_def)
  from pool_capacity_is_sum [OF r wf n c] r show ?thesis by (auto simp: zero_nvm_pool_def Let_def)
qed

end
