(* ===== verification/PoolApi.thy ===== *)
theory PoolApi
  imports PoolFacts
begin

text \<open>
  The pools as callers see them (\<^verbatim>\<open>src/lib/pool.c\<close>): converted from those of the driver, with health
  and security attributes, and kept in the context. The helpers on interleave sets and namespaces are
  those of \<^verbatim>\<open>src/lib/pool_utilities.c\<close>.
\<close>

section \<open>Security attributes\<close>

text \<open>The flags for encryption enabled, erase capable and encryption capable over the devices so far.\<close>

fun security_of_dimms ::
  "'hw adapter \<Rightarrow> u32 list \<Rightarrow> bool \<times> bool \<times> bool \<Rightarrow> ('hw, 'det) world \<Rightarrow>
   (int \<times> (bool \<times> bool \<times> bool) \<times> ('hw, 'det) world) option" where
  "security_of_dimms ad [] flags w = Some (NVM_SUCCESS, flags, w)"
| "security_of_dimms ad (h # hs) (enabled, erase, capable) w = do {
     (rc, d, w) \<leftarrow> lookup_dev_handle ad h w;
     if rc < 0 then Some (NVM_ERR_DRIVERFAILED, (enabled, erase, capable), w)
     else do {
       dev \<leftarrow> d;
       security_of_dimms ad hs
         (enabled \<and> device_is_encryption_enabled (dev_lock_state dev),
          erase \<and> device_is_erase_capable (dev_security_capabilities dev),
          capable \<and> passphrase_capable (dev_security_capabilities dev)) w
     }
   }"

definition encryption_status_of :: "bool \<Rightarrow> encryption_status" where
  "encryption_status_of b = (if b then NVM_ENCRYPTION_ON else NVM_ENCRYPTION_OFF)"

definition calculate_security_attributes_all_dimms ::
  "'hw adapter \<Rightarrow> nvm_interleave_set \<Rightarrow> ('hw, 'det) world \<Rightarrow>
   (int \<times> (encryption_status \<times> bool \<times> encryption_status) \<times> ('hw, 'det) world) option" where
  "calculate_security_attributes_all_dimms ad s w = do {
     (rc, (enabled, erase, capable), w) \<leftarrow> security_of_dimms ad (nis_dimms s) (True, True, True) w;
     Some (rc, if rc = NVM_SUCCESS then (encryption_status_of enabled, erase, encryption_status_of capable)
               else (NVM_ENCRYPTION_OFF, False, NVM_ENCRYPTION_OFF), w)
   }"

text \<open>Without a set nothing is written.\<close>

definition calculate_app_direct_interleave_security ::
  "'hw adapter \<Rightarrow> u32 \<Rightarrow> ('hw, 'det) world \<Rightarrow>
   (int \<times> (encryption_status \<times> bool \<times> encryption_status) option \<times> ('hw, 'det) world) option" where
  "calculate_app_direct_interleave_security ad interleave_setid w = do {
     (rc, s) \<leftarrow> get_interleaveset_by_driver_id ad (w_hw w) interleave_setid;
     if rc \<noteq> NVM_SUCCESS then Some (NVM_ERR_DRIVERFAILED, None, w)
     else do {
       s \<leftarrow> s;
       (rc, attrs, w) \<leftarrow> calculate_security_attributes_all_dimms ad s w;
       Some (if rc = NVM_SUCCESS then NVM_SUCCESS else NVM_ERR_DRIVERFAILED, Some attrs, w)
     }
   }"

section \<open>Where an interleave set and a namespace belong\<close>

definition get_interleave_set_offset_from_pm_partition_start ::
  "'hw adapter \<Rightarrow> u32 \<Rightarrow> u64 \<Rightarrow> ('hw, 'det) world \<Rightarrow> (int \<times> u64 option \<times> ('hw, 'det) world) option" where
  "get_interleave_set_offset_from_pm_partition_start ad handle off w = do {
     (rc, pi, w) \<leftarrow> get_partition_info ad handle w;
     Some (rc, if rc \<noteq> NVM_SUCCESS then None
               else Some (if start_pmem pi > off then off else off - start_pmem pi), w)
   }"

definition fill_interleave_set_settings_and_id_from_dimm ::
  "'hw adapter \<Rightarrow> bool \<Rightarrow> nvm_interleave_set \<Rightarrow> u32 \<Rightarrow> u64 \<Rightarrow> ('hw, 'det) world \<Rightarrow>
   (int \<times> nvm_interleave_set \<times> ('hw, 'det) world) option" where
  "fill_interleave_set_settings_and_id_from_dimm ad large s handle dpa_offset w = do {
     (rc, off, w) \<leftarrow> get_interleave_set_offset_from_pm_partition_start ad handle dpa_offset w;
     if rc \<noteq> NVM_SUCCESS then Some (NVM_ERR_DRIVERFAILED, s, w)
     else do {
       off \<leftarrow> off;
       (rc, r, w) \<leftarrow> get_interleave_settings_from_platform_config_data ad large handle off (nis_settings s) w;
       let s = (case r of None \<Rightarrow> s
                | Some (idx, fmt, mir) \<Rightarrow> s\<lparr>nis_set_index := idx, nis_settings := fmt, nis_mirrored := mir\<rparr>);
       Some (if rc = NVM_SUCCESS then NVM_SUCCESS else NVM_ERR_DRIVERFAILED, s, w)
     }
   }"

text \<open>The last pool with the device, or with the interleave set, of the namespace.\<close>

definition pool_of_namespace :: "nvm_namespace_details \<Rightarrow> nvm_pool list \<Rightarrow> nvm_pool option" where
  "pool_of_namespace nd pools =
     (if nnd_type nd = NAMESPACE_TYPE_STORAGE
      then find (\<lambda>p. nnd_creation_id nd \<in> set (np_dimms p) \<and> np_type p = POOL_TYPE_PERSISTENT) (rev pools)
      else find (\<lambda>p. nnd_creation_id nd \<in> nis_driver_id ` set (np_ilsets p)) (rev pools))"

definition get_pool_guid_from_namespace_details ::
  "'hw adapter \<Rightarrow> bool \<Rightarrow> nvm_namespace_details \<Rightarrow> ('hw, 'det) world \<Rightarrow>
   (int \<times> guid option \<times> ('hw, 'det) world) option" where
  "get_pool_guid_from_namespace_details ad large nd w = do {
     (n, w) \<leftarrow> get_pool_count ad large w;
     if n \<le> 0 then Some (NVM_ERR_DRIVERFAILED, None, w)
     else if \<not> calloc_ok (ad_os ad) 0 then Some (NVM_ERR_NOMEMORY, None, w)
     else do {
       (n, pools, w) \<leftarrow> get_pools ad large (nat n) w;
       if n \<le> 0 \<or> nnd_type nd \<notin> {NAMESPACE_TYPE_STORAGE, NAMESPACE_TYPE_APP_DIRECT}
       then Some (NVM_ERR_DRIVERFAILED, None, w)
       else do {
         (rc, w) \<leftarrow> (if nnd_type nd = NAMESPACE_TYPE_STORAGE
                     then do { (rc, _, w) \<leftarrow> lookup_dev_handle ad (nnd_creation_id nd) w; Some (rc, w) }
                     else Some (NVM_SUCCESS, w));
         Some (if rc \<noteq> NVM_SUCCESS then (NVM_ERR_DRIVERFAILED, None, w)
               else case pool_of_namespace nd pools of
                 None \<Rightarrow> (NVM_ERR_DRIVERFAILED, None, w)
               | Some p \<Rightarrow> (NVM_SUCCESS, Some (np_guid p), w))
       }
     }
   }"

section \<open>The health of an interleave set\<close>

primrec interleave_health_value :: "interleave_set_health \<Rightarrow> nat" where
  "interleave_health_value INTERLEAVE_HEALTH_UNKNOWN = 0"
| "interleave_health_value INTERLEAVE_HEALTH_NORMAL = 1"
| "interleave_health_value INTERLEAVE_HEALTH_DEGRADED = 2"
| "interleave_health_value INTERLEAVE_HEALTH_FAILED = 3"

definition KEEP_INTERLEAVE_HEALTH ::
  "interleave_set_health \<Rightarrow> interleave_set_health \<Rightarrow> interleave_set_health" where
  "KEEP_INTERLEAVE_HEALTH health new =
     (if interleave_health_value new > interleave_health_value health \<or> health = INTERLEAVE_HEALTH_NORMAL
      then new else health)"

text \<open>What the status of one device does to the health of the set.\<close>

definition roll_up :: "device_status \<Rightarrow> interleave_set_health \<Rightarrow> interleave_set_health" where
  "roll_up st health =
     (let health = (case st_health st of
          DEVICE_HEALTH_NORMAL \<Rightarrow> health
        | DEVICE_HEALTH_NONCRITICAL \<Rightarrow> KEEP_INTERLEAVE_HEALTH health INTERLEAVE_HEALTH_DEGRADED
        | DEVICE_HEALTH_CRITICAL \<Rightarrow> KEEP_INTERLEAVE_HEALTH health INTERLEAVE_HEALTH_DEGRADED
        | DEVICE_HEALTH_FATAL \<Rightarrow> KEEP_INTERLEAVE_HEALTH health INTERLEAVE_HEALTH_FAILED
        | DEVICE_HEALTH_UNKNOWN \<Rightarrow> KEEP_INTERLEAVE_HEALTH health INTERLEAVE_HEALTH_UNKNOWN)
      in if st_config_status st = CONFIG_STATUS_ERR_BROKEN_INTERLEAVE
         then KEEP_INTERLEAVE_HEALTH health INTERLEAVE_HEALTH_FAILED else health)"

fun interleave_health_loop ::
  "'hw adapter \<Rightarrow> bool \<Rightarrow> guid list \<Rightarrow> interleave_set_health \<Rightarrow> ('hw, 'det) world \<Rightarrow>
   (int \<times> interleave_set_health \<times> ('hw, 'det) world) option" where
  "interleave_health_loop ad large [] health w = Some (NVM_SUCCESS, health, w)"
| "interleave_health_loop ad large (g # gs) health w = do {
     (rc, st, w) \<leftarrow> nvm_get_device_status ad large (Some g) True w;
     if rc \<noteq> NVM_SUCCESS
     then Some (rc, if rc = NVM_ERR_BADDEVICE then INTERLEAVE_HEALTH_FAILED else INTERLEAVE_HEALTH_UNKNOWN, w)
     else do { st \<leftarrow> st; interleave_health_loop ad large gs (roll_up st health) w }
   }"

definition calculate_interleave_health ::
  "'hw adapter \<Rightarrow> bool \<Rightarrow> interleave_set \<Rightarrow> ('hw, 'det) world \<Rightarrow>
   (int \<times> interleave_set \<times> ('hw, 'det) world) option" where
  "calculate_interleave_health ad large s w = do {
     (rc, health, w) \<leftarrow> interleave_health_loop ad large (is_dimms s) INTERLEAVE_HEALTH_NORMAL w;
     Some (rc, s\<lparr>is_health := health\<rparr>, w)
   }"

fun calculate_all_interleave_health ::
  "'hw adapter \<Rightarrow> bool \<Rightarrow> interleave_set list \<Rightarrow> int \<Rightarrow> ('hw, 'det) world \<Rightarrow>
   (int \<times> interleave_set list \<times> ('hw, 'det) world) option" where
  "calculate_all_interleave_health ad large [] rc w = Some (rc, [], w)"
| "calculate_all_interleave_health ad large (s # ss) rc w = do {
     (r, s, w) \<leftarrow> calculate_interleave_health ad large s w;
     (rc, ss, w) \<leftarrow> calculate_all_interleave_health ad large ss (if r \<noteq> NVM_SUCCESS then r else rc) w;
     Some (rc, s # ss, w)
   }"


section \<open>Security of a pool\<close>

text \<open>What one device adds to the flags encryption enabled, encryption capable and erase capable.\<close>

fun storage_security ::
  "'hw adapter \<Rightarrow> u64 \<Rightarrow> (guid \<times> u64) list \<Rightarrow> bool \<times> bool \<times> bool \<Rightarrow> ('hw, 'det) world \<Rightarrow>
   ((bool \<times> bool \<times> bool) \<times> ('hw, 'det) world) option" where
  "storage_security ad least [] flags w = Some (flags, w)"
| "storage_security ad least ((g, storage) # ds) (enabled, capable, erase) w = do {
     (rc, d, w) \<leftarrow> nvm_get_device_discovery ad (Some g) True w;
     if rc = NVM_SUCCESS \<and> storage > least then do {
       dev \<leftarrow> d;
       storage_security ad least ds
         (enabled \<or> device_is_encryption_enabled (dev_lock_state dev),
          capable \<or> passphrase_capable (dev_security_capabilities dev),
          erase \<or> device_is_erase_capable (dev_security_capabilities dev)) w
     } else storage_security ad least ds (enabled, capable, erase) w
   }"

text \<open>The same for interleave sets; the code of the last one is that of the loop.\<close>

fun app_direct_security ::
  "'hw adapter \<Rightarrow> u32 list \<Rightarrow> int \<Rightarrow> bool \<times> bool \<times> bool \<Rightarrow> ('hw, 'det) world \<Rightarrow>
   (int \<times> (bool \<times> bool \<times> bool) \<times> ('hw, 'det) world) option" where
  "app_direct_security ad [] rc flags w = Some (rc, flags, w)"
| "app_direct_security ad (i # ids) rc (enabled, capable, erase) w = do {
     (rc, attrs, w) \<leftarrow> calculate_app_direct_interleave_security ad i w;
     if rc = NVM_SUCCESS then do {
       (en, er, ca) \<leftarrow> attrs;
       app_direct_security ad ids rc
         (enabled \<or> ca = NVM_ENCRYPTION_ON \<and> en = NVM_ENCRYPTION_ON, capable \<or> ca = NVM_ENCRYPTION_ON,
          erase \<or> er) w
     } else app_direct_security ad ids rc (enabled, capable, erase) w
   }"

definition calculate_pool_security ::
  "'hw adapter \<Rightarrow> pool \<Rightarrow> ('hw, 'det) world \<Rightarrow> (int \<times> pool \<times> ('hw, 'det) world) option" where
  "calculate_pool_security ad p w = do {
     (rc, (sen, sca, ser), w) \<leftarrow>
       (if pl_type p = POOL_TYPE_PERSISTENT then do {
          (rc, caps, w) \<leftarrow> nvm_get_nvm_capabilities ad True w;
          if rc = NVM_SUCCESS then do {
            c \<leftarrow> caps;
            (flags, w) \<leftarrow> storage_security ad (min_namespace_size (sw_capabilities c))
                           (zip (pl_dimms p) (storage_capacities p)) (False, False, False) w;
            Some (rc, flags, w)
          } else Some (rc, (False, False, False), w)
        } else Some (NVM_SUCCESS, (False, False, False), w));
     (rc, (aen, aca, aer), w) \<leftarrow>
       (if \<not> sen \<and> pl_type p \<in> {POOL_TYPE_PERSISTENT_MIRROR, POOL_TYPE_PERSISTENT}
        then app_direct_security ad (map driver_id (ilsets p)) rc (False, False, False) w
        else Some (rc, (False, False, False), w));
     Some (rc, p\<lparr>encryption_enabled := sen \<or> aen, encryption_capable := sca \<or> aca,
                 pl_erase_capable := ser \<or> aer\<rparr>, w)
   }"

section \<open>From the driver's pool to the caller's\<close>

text \<open>The GUIDs of the devices up to the first that is not found; the rest of the array stays zero.\<close>

fun guids_of_handles ::
  "'hw adapter \<Rightarrow> u32 list \<Rightarrow> ('hw, 'det) world \<Rightarrow> (int \<times> guid list \<times> ('hw, 'det) world) option" where
  "guids_of_handles ad [] w = Some (NVM_SUCCESS, [], w)"
| "guids_of_handles ad (h # hs) w = do {
     (rc, d, w) \<leftarrow> lookup_dev_handle ad h w;
     if rc \<noteq> NVM_SUCCESS then Some (rc, replicate (length (h # hs)) (replicate GUID_LEN 0), w)
     else do {
       dev \<leftarrow> d;
       (rc, gs, w) \<leftarrow> guids_of_handles ad hs w;
       Some (rc, dev_guid dev # gs, w)
     }
   }"

text \<open>The devices of an interleave set are looked up with the handles of the pool, whose array is zero
  behind its devices.\<close>

fun set_guids ::
  "'hw adapter \<Rightarrow> u32 list \<Rightarrow> interleave_set list \<Rightarrow> int \<Rightarrow> ('hw, 'det) world \<Rightarrow>
   (int \<times> interleave_set list \<times> ('hw, 'det) world) option" where
  "set_guids ad handles [] rc w = Some (rc, [], w)"
| "set_guids ad handles (s # ss) rc w = do {
     (r, gs, w) \<leftarrow> guids_of_handles ad (filled (length (is_dimms s)) 0 handles) w;
     (rc, ss, w) \<leftarrow> set_guids ad handles ss (if r \<noteq> NVM_SUCCESS then r else rc) w;
     Some (rc, s\<lparr>is_dimms := gs\<rparr> # ss, w)
   }"

definition fill_in_device_guids ::
  "'hw adapter \<Rightarrow> pool \<Rightarrow> nvm_pool \<Rightarrow> ('hw, 'det) world \<Rightarrow> (int \<times> pool \<times> ('hw, 'det) world) option" where
  "fill_in_device_guids ad p np w = do {
     (rc, gs, w) \<leftarrow> guids_of_handles ad (np_dimms np) w;
     (rc, ss, w) \<leftarrow> set_guids ad (np_dimms np) (ilsets p) rc w;
     Some (rc, p\<lparr>pl_dimms := gs, ilsets := ss\<rparr>, w)
   }"

definition zero_pool :: pool where
  "zero_pool =
     \<lparr>pool_guid = replicate GUID_LEN 0, pl_type = POOL_TYPE_UNKNOWN, pl_capacity = 0, free_capacity = 0,
      pl_socket_id = 0, raw_capacities = [], memory_capacities = [], storage_capacities = [], pl_dimms = [],
      ilsets = [], pl_health = POOL_HEALTH_UNKNOWN, encryption_enabled = False,
      encryption_capable = False, pl_erase_capable = False\<rparr>"

definition set_of_nvm :: "nvm_interleave_set \<Rightarrow> interleave_set" where
  "set_of_nvm s =
     \<lparr>set_index = nis_set_index s, driver_id = nis_driver_id s, is_size = nis_size s,
      available_size = nis_available_size s, is_settings = nis_settings s,
      is_socket_id = nis_socket_id s,
      is_dimms = replicate (length (nis_dimms s)) (replicate GUID_LEN 0), is_mirrored = nis_mirrored s,
      is_health = INTERLEAVE_HEALTH_UNKNOWN, is_encryption = NVM_ENCRYPTION_OFF, is_erase_capable = False\<rparr>"

definition pool_of_nvm :: "nvm_pool \<Rightarrow> pool" where
  "pool_of_nvm np =
     zero_pool\<lparr>pool_guid := np_guid np, pl_type := np_type np, pl_capacity := np_capacity np,
               free_capacity := np_free_capacity np, pl_health := np_health np,
               pl_socket_id := np_socket_id np, memory_capacities := np_memory_capacities np,
               storage_capacities := np_storage_capacities np, raw_capacities := np_raw_capacities np,
               ilsets := map set_of_nvm (np_ilsets np)\<rparr>"

definition convert_nvm_pool_to_pool ::
  "'hw adapter \<Rightarrow> bool \<Rightarrow> nvm_pool \<Rightarrow> ('hw, 'det) world \<Rightarrow> (int \<times> pool \<times> ('hw, 'det) world) option" where
  "convert_nvm_pool_to_pool ad large np w = do {
     (rc, p, w) \<leftarrow> fill_in_device_guids ad (pool_of_nvm np) np w;
     let rc = (if rc \<noteq> NVM_SUCCESS then NVM_ERR_BADDEVICE else rc);
     (r, ss, w) \<leftarrow> calculate_all_interleave_health ad large (ilsets p) NVM_SUCCESS w;
     let rc = keep_error rc r;
     (r, p, w) \<leftarrow> calculate_pool_security ad (p\<lparr>ilsets := ss\<rparr>) w;
     Some (keep_error rc r, p, w)
   }"

section \<open>The interface\<close>

definition get_nvm_pool ::
  "'hw adapter \<Rightarrow> bool \<Rightarrow> guid \<Rightarrow> ('hw, 'det) world \<Rightarrow> (int \<times> nvm_pool option \<times> ('hw, 'det) world) option" where
  "get_nvm_pool ad large guid w = do {
     (n, w) \<leftarrow> get_pool_count ad large w;
     if n < 0 then Some (n, None, w)
     else if n = 0 then Some (NVM_ERR_BADPOOL, None, w)
     else do {
       (n, pools, w) \<leftarrow> get_pools ad large (nat n) w;
       Some (if n < 0 then (n, None, w)
             else case find (\<lambda>p. guid_match (np_guid p) guid) pools of
               None \<Rightarrow> (NVM_ERR_BADPOOL, None, w)
             | Some p \<Rightarrow> (NVM_SUCCESS, Some p, w))
     }
   }"

definition nvm_get_pool_count ::
  "'hw adapter \<Rightarrow> bool \<Rightarrow> ('hw, 'det) world \<Rightarrow> (int \<times> ('hw, 'det) world) option" where
  "nvm_get_pool_count ad large w =
     (if \<not> permitted ad then Some (NVM_ERR_INVALIDPERMISSIONS, w)
      else do {
        (rc, w) \<leftarrow> is_nvm_feature_licensed ad large get_pools_feature w;
        if rc \<noteq> NVM_SUCCESS then Some (rc, w)
        else do {
          (rc, _, w) \<leftarrow> on_ctx (get_nvm_context_pool_count (ad_os ad)) w;
          if rc < 0 then get_pool_count ad large w else Some (rc, w)
        }
      })"

text \<open>The result code starts as what the context answered and is that of the last pool tried. The array
  written is returned up to its last entry, that of a failed conversion apart.\<close>

fun convert_pools ::
  "'hw adapter \<Rightarrow> bool \<Rightarrow> nat \<Rightarrow> nvm_pool list \<Rightarrow> int \<Rightarrow> ('hw, 'det) world \<Rightarrow>
   (int \<times> pool list \<times> pool option \<times> ('hw, 'det) world) option" where
  "convert_pools ad large room [] rc w = Some (rc, [], None, w)"
| "convert_pools ad large 0 (np # nps) rc w = Some (NVM_ERR_ARRAYTOOSMALL, [], None, w)"
| "convert_pools ad large (Suc room) (np # nps) rc w = do {
     (rc, p, w) \<leftarrow> convert_nvm_pool_to_pool ad large np w;
     if rc \<noteq> NVM_SUCCESS then Some (rc, [], Some p, w)
     else do {
       (rc, ps, failed, w) \<leftarrow> convert_pools ad large room nps rc w;
       Some (rc, p # ps, failed, w)
     }
   }"

definition nvm_get_pools ::
  "'hw adapter \<Rightarrow> bool \<Rightarrow> bool \<Rightarrow> u8 \<Rightarrow> ('hw, 'det) world \<Rightarrow>
   (int \<times> pool list \<times> ('hw, 'det) world) option" where
  "nvm_get_pools ad large have_out count w =
     (if \<not> permitted ad then Some (NVM_ERR_INVALIDPERMISSIONS, [], w)
      else do {
        (rc, w) \<leftarrow> is_nvm_feature_licensed ad large get_pools_feature w;
        if rc \<noteq> NVM_SUCCESS then Some (rc, [], w)
        else if \<not> have_out then Some (NVM_ERR_INVALIDPARAMETER, [], w)
        else if count = 0 then Some (NVM_ERR_INVALIDPARAMETER, [], w)
        else do {
          (rc, ps, w) \<leftarrow> on_ctx (get_nvm_context_pools (ad_os ad) (uint count)) w;
          if rc \<ge> 0 \<or> rc = NVM_ERR_ARRAYTOOSMALL then Some (rc, ps, w)
          else do {
            (n, w) \<leftarrow> get_pool_count ad large w;
            if n < 0 then Some (n, [], w)
            else do {
              (n, nps, w) \<leftarrow> get_pools ad large (nat n) w;
              if n < 0 then Some (n, [], w)
              else do {
                (rc, ps, failed, w) \<leftarrow> convert_pools ad large (unat count) nps rc w;
                (_, _, w) \<leftarrow> on_ctx (set_nvm_context_pools (ad_os ad) ps) w;
                Some (if rc = NVM_SUCCESS then int (length ps) else rc,
                      ps @ (case failed of None \<Rightarrow> [] | Some p \<Rightarrow> [p]), w)
              }
            }
          }
        }
      })"

definition nvm_get_pool ::
  "'hw adapter \<Rightarrow> bool \<Rightarrow> guid option \<Rightarrow> bool \<Rightarrow> ('hw, 'det) world \<Rightarrow>
   (int \<times> pool option \<times> ('hw, 'det) world) option" where
  "nvm_get_pool ad large guid have_out w =
     (if \<not> permitted ad then Some (NVM_ERR_INVALIDPERMISSIONS, None, w)
      else do {
        (rc, w) \<leftarrow> is_nvm_feature_licensed ad large get_pools_feature w;
        if rc \<noteq> NVM_SUCCESS then Some (rc, None, w)
        else case guid of
          None \<Rightarrow> Some (NVM_ERR_INVALIDPARAMETER, None, w)
        | Some g \<Rightarrow>
            if \<not> have_out then Some (NVM_ERR_INVALIDPARAMETER, None, w)
            else do {
              (rc, p, w) \<leftarrow> on_ctx (get_nvm_context_pool (ad_os ad) g) w;
              if rc = NVM_SUCCESS then Some (rc, p, w)
              else do {
                (rc, np, w) \<leftarrow> get_nvm_pool ad large g w;
                if rc = NVM_SUCCESS then do {
                  np \<leftarrow> np;
                  (rc, p, w) \<leftarrow> convert_nvm_pool_to_pool ad large np w;
                  Some (rc, Some p, w)
                } else Some (rc, Some zero_pool, w)
              }
            }
      })"


section \<open>What the health and the GUIDs are\<close>

definition worst_health :: "device_status list \<Rightarrow> interleave_set_health" where
  "worst_health sts =
     (if \<exists>st \<in> set sts. st_health st = DEVICE_HEALTH_FATAL \<or>
                         st_config_status st = CONFIG_STATUS_ERR_BROKEN_INTERLEAVE
      then INTERLEAVE_HEALTH_FAILED
      else if \<exists>st \<in> set sts. st_health st \<in> {DEVICE_HEALTH_NONCRITICAL, DEVICE_HEALTH_CRITICAL}
      then INTERLEAVE_HEALTH_DEGRADED
      else if \<exists>st \<in> set sts. st_health st = DEVICE_HEALTH_UNKNOWN then INTERLEAVE_HEALTH_UNKNOWN
      else INTERLEAVE_HEALTH_NORMAL)"

lemma roll_up_worst: "roll_up st (worst_health sts) = worst_health (sts @ [st])"
  by (cases "st_health st") (simp_all add: roll_up_def worst_health_def KEEP_INTERLEAVE_HEALTH_def)

definition status_read :: "'hw adapter \<Rightarrow> bool \<Rightarrow> 'det itself \<Rightarrow> guid \<Rightarrow> device_status \<Rightarrow> bool" where
  "status_read ad large TYPE('det) g st \<longleftrightarrow>
     (\<exists>w w' :: ('hw, 'det) world. nvm_get_device_status ad large (Some g) True w = Some (NVM_SUCCESS, Some st, w'))"

lemma interleave_health_loop_worst:
  fixes w w' :: "('hw, 'det) world"
  assumes "interleave_health_loop ad large gs (worst_health old) w = Some (NVM_SUCCESS, health, w')"
  shows "\<exists>sts. list_all2 (status_read ad large TYPE('det)) gs sts \<and> health = worst_health (old @ sts)"
  using assms
proof (induction gs arbitrary: old w)
  case (Cons g gs)
  then obtain rc st w1 where r: "nvm_get_device_status ad large (Some g) True w = Some (rc, st, w1)"
    by (auto simp: bind_eq_Some_conv)
  with Cons.prems obtain s where s: "rc = NVM_SUCCESS" "st = Some s"
    and l: "interleave_health_loop ad large gs (worst_health (old @ [s])) w1 = Some (NVM_SUCCESS, health, w')"
    by (auto simp: roll_up_worst bind_eq_Some_conv split: if_splits)
  from Cons.IH [OF l] obtain sts where "list_all2 (status_read ad large TYPE('det)) gs sts"
    "health = worst_health (old @ s # sts)" by auto
  moreover have "status_read ad large TYPE('det) g s" using r s by (auto simp: status_read_def)
  ultimately show ?case by (intro exI [of _ "s # sts"]) simp
qed auto

definition found_as :: "'hw adapter \<Rightarrow> 'det itself \<Rightarrow> u32 \<Rightarrow> guid \<Rightarrow> bool" where
  "found_as ad TYPE('det) h g \<longleftrightarrow>
     (\<exists>(w :: ('hw, 'det) world) d w'. lookup_dev_handle ad h w = Some (NVM_SUCCESS, Some d, w') \<and> g = dev_guid d)"

lemma guids_of_handles_found:
  fixes w w' :: "('hw, 'det) world"
  assumes "guids_of_handles ad hs w = Some (NVM_SUCCESS, gs, w')"
  shows "list_all2 (found_as ad TYPE('det)) hs gs"
  using assms
proof (induction hs arbitrary: gs w)
  case (Cons h hs)
  then obtain d w1 gs' where "lookup_dev_handle ad h w = Some (NVM_SUCCESS, Some d, w1)"
    "guids_of_handles ad hs w1 = Some (NVM_SUCCESS, gs', w')" "gs = dev_guid d # gs'"
    by (auto simp: bind_eq_Some_conv split: if_splits)
  with Cons.IH show ?case by (auto simp: found_as_def)
qed auto

lemma guids_of_handles_length:
  "guids_of_handles ad hs w = Some (rc, gs, w') \<Longrightarrow> length gs = length hs"
  by (induction hs arbitrary: w rc gs) (auto simp: bind_eq_Some_conv split: if_splits)

lemma set_guids_found:
  fixes w w' :: "('hw, 'det) world"
  assumes "set_guids ad hs ss rc w = Some (NVM_SUCCESS, ts, w')"
  shows "rc = NVM_SUCCESS \<and> list_all2 (\<lambda>s t. length (is_dimms t) = length (is_dimms s) \<and>
           list_all2 (found_as ad TYPE('det)) (filled (length (is_dimms s)) 0 hs) (is_dimms t)) ss ts"
  using assms
proof (induction ss arbitrary: rc ts w)
  case (Cons s ss)
  then obtain r gs w1 ts' where g: "guids_of_handles ad (filled (length (is_dimms s)) 0 hs) w = Some (r, gs, w1)"
    and t: "set_guids ad hs ss (if r \<noteq> NVM_SUCCESS then r else rc) w1 = Some (NVM_SUCCESS, ts', w')"
      "ts = s\<lparr>is_dimms := gs\<rparr> # ts'"
    by (auto simp: bind_eq_Some_conv)
  from Cons.IH [OF t(1)] have r: "r = NVM_SUCCESS" "rc = NVM_SUCCESS" by (auto split: if_splits)
  moreover have "length gs = length (is_dimms s)"
    using guids_of_handles_length [OF g] by (simp add: filled_def)
  moreover have "list_all2 (found_as ad TYPE('det)) (filled (length (is_dimms s)) 0 hs) gs"
    using guids_of_handles_found g r by blast
  ultimately show ?case using Cons.IH [OF t(1)] t(2) by auto
qed auto

text \<open>When the health of an interleave set is calculated with success, it is the worst of its
  devices' states, in whatever order they come: failed if one is fatal or has a broken interleave,
  otherwise degraded if one is critical or non-critical, otherwise unknown if one is, and normal
  else.\<close>

theorem interleave_health_is_worst:
  fixes w w' :: "('hw, 'det) world"
  assumes "calculate_interleave_health ad large s w = Some (NVM_SUCCESS, s', w')"
  shows "\<exists>sts. list_all2 (status_read ad large TYPE('det)) (is_dimms s) sts \<and>
           s' = s\<lparr>is_health := worst_health sts\<rparr>"
proof -
  have "worst_health [] = INTERLEAVE_HEALTH_NORMAL" by (simp add: worst_health_def)
  with assms obtain health where
    h: "interleave_health_loop ad large (is_dimms s) (worst_health []) w = Some (NVM_SUCCESS, health, w')"
    and s': "s' = s\<lparr>is_health := health\<rparr>"
    by (auto simp: calculate_interleave_health_def bind_eq_Some_conv)
  show ?thesis using interleave_health_loop_worst [OF h] s' by auto
qed

text \<open>The devices a converted interleave set names are those of the pool's first handles, as many as
  the set has, whatever the set's own handles are: two sets of a pool with equally many devices name the
  same ones.\<close>

theorem set_devices_from_pool:
  fixes w w' :: "('hw, 'det) world"
  assumes "fill_in_device_guids ad p np w = Some (NVM_SUCCESS, p', w')"
  shows "list_all2 (found_as ad TYPE('det)) (np_dimms np) (pl_dimms p') \<and>
         list_all2 (\<lambda>s t. length (is_dimms t) = length (is_dimms s) \<and>
           list_all2 (found_as ad TYPE('det)) (filled (length (is_dimms s)) 0 (np_dimms np)) (is_dimms t))
         (ilsets p) (ilsets p')"
proof -
  from assms obtain rc gs w1 ss where g: "guids_of_handles ad (np_dimms np) w = Some (rc, gs, w1)"
    and s: "set_guids ad (np_dimms np) (ilsets p) rc w1 = Some (NVM_SUCCESS, ss, w')"
    and p': "p' = p\<lparr>pl_dimms := gs, ilsets := ss\<rparr>"
    by (auto simp: fill_in_device_guids_def bind_eq_Some_conv)
  from set_guids_found [OF s] guids_of_handles_found [of ad "np_dimms np" w gs w1] g p' show ?thesis by auto
qed

section \<open>A pool of one device\<close>

lemma cap_status:
  assumes "in_cap_ctx w"
  shows "\<exists>st w'. nvm_get_device_status (adapter_with cap_firmware) large (Some (dev_guid cap_device)) True w =
    Some (NVM_SUCCESS, Some st, w')"
proof -
  let ?ad = "adapter_with cap_firmware"
  have a: "ad_os ?ad = os_fine" "permitted ?ad" by (simp_all add: adapter_with_def)
  have c: "p_context (w_ctx w) = Some cap_ctx" using assms .
  have "p_capabilities cap_ctx = Some cap_caps" by (simp add: cap_ctx_def)
  from capabilities_cached [OF a c this] obtain w1 where
    w1: "nvm_get_nvm_capabilities ?ad True w = Some (NVM_SUCCESS, Some cap_caps, w1)" "in_cap_ctx w1" by simp
  have g: "length (dev_guid cap_device) = GUID_LEN" by (simp add: cap_device_def sample_device_def)
  have "cached (p_context (w_ctx w1)) [cap_device]" using w1(2) holds_devices_cached [OF cap_ctx_ok(2)] by simp
  from lookup_warm [OF a cap_driver_ok this _ g] g w1(2) obtain w2 where
    w2: "lookup_dev_guid ?ad (Some (dev_guid cap_device)) w1 = Some (NVM_SUCCESS, Some cap_device, w2)" "in_cap_ctx w2"
    by auto
  have dev: "manageability cap_device = MANAGEMENT_VALIDCONFIG" "device_handle cap_device = 1"
    by (simp_all add: cap_device_def sample_device_def)
  with w2 have e: "exists_and_manageable ?ad (Some (dev_guid cap_device)) True w1 = Some (NVM_SUCCESS, Some cap_device, w2)"
    by (simp add: exists_and_manageable_def)
  have sm: "length y = 128 \<Longrightarrow> \<exists>x. smart_status y z = Some x" for y z
    using rd_Some_iff(1) [of y 8] rd_Some_iff(1) [of y 64] rd_Some_iff(3) [of y 0]
      rd_Some_iff(4) [of y 65] by (auto simp: smart_status_def smart_health_of_def)
  have io: "\<exists>pl w'. ioctl_passthrough_cmd ?ad ((fw_cmd_for 1 op sub)\<lparr>cmd_output_payload_size := 128\<rparr>) v =
      (NVM_SUCCESS, pl, [], w') \<and> length pl = 128 \<and> p_context (w_ctx w') = p_context (w_ctx v)" for op sub v
    by (auto simp: ioctl_passthrough_cmd_def cap_firmware_def adapter_with_def fw_cmd_for_def fit_def)
  obtain p w3 where w3: "get_fw_die_spare_policy ?ad 1 w2 = (NVM_SUCCESS, p, w3)" "length p = 128" "in_cap_ctx w3"
    using io [of PT_GET_FEATURES SUBOP_POLICY_DIE_SPARING w2] w2(2)
    by (auto simp: get_fw_die_spare_policy_def get_feature_def)
  obtain s w4 where w4: "fw_get_smart_health ?ad 1 w3 = (NVM_SUCCESS, s, w4)" "length s = 128" "in_cap_ctx w4"
    using io [of PT_GET_LOG SUBOP_SMART_HEALTH w3] w3(3) by (auto simp: fw_get_smart_health_def)
  obtain spare where sp: "rd8 p 2 = Some spare" using rd_Some_iff(1) [of p 2] w3(2) by auto
  obtain st where st: "smart_status s (zero_status\<lparr>die_spares_used := spares_used spare\<rparr>) = Some st"
    using sm [OF w4(2)] by blast
  obtain w5 where w5: "get_dimm_platform_config ?ad large 1 w4 = Some (NVM_SUCCESS, Config cap_cfg, w5)" "in_cap_ctx w5"
    using cap_pcd [OF w4(3)] by blast
  obtain t where t: "cast_current_config cap_cfg = Some (Some t)" "rd64 t 48 = Some 0x800000000"
    using cap_current by blast
  then obtain cs where "rd16 t 36 = Some cs" using rd_Some_iff(2) [of t 36] rd_Some_iff(4) [of t 48] by auto
  then obtain cs where cs: "get_config_status_from_current_config t = Some cs"
    by (simp add: get_config_status_from_current_config_def)
  have f: "get_device_capacity (nvm_features cap_caps)" "get_device_health (nvm_features cap_caps)"
    by (simp_all add: cap_caps_def cap_features_def)
  from w5 t cs f obtain st' where
    fc: "fill_device_config_status ?ad large 1 cap_caps st w4 = Some (NVM_SUCCESS, st', w5)"
    by (simp add: fill_device_config_status_def)
  obtain w6 where v: "device_in_sku_violation ?ad large 1 cap_caps w5 = Some (NVM_SUCCESS, False, w6)"
    using cap_violation [OF w5(2)] by blast
  have "\<exists>st. get_device_status_by_handle ?ad large 1 cap_caps w2 = Some (NVM_SUCCESS, st, w6)"
    using w3(1) w4(1) sp st fc v by (simp add: get_device_status_by_handle_def keep_error_def)
  with w1(1) e f dev show ?thesis by (auto simp: nvm_get_device_status_def a)
qed

definition one_device_set :: interleave_set where
  "one_device_set = (set_of_nvm one_set)\<lparr>is_dimms := [dev_guid cap_device]\<rparr>"

theorem interleave_health_is_worst_witness:
  "\<exists>s' w' sts. calculate_interleave_health (adapter_with cap_firmware) False one_device_set cap_world =
      Some (NVM_SUCCESS, s', w') \<and> length sts = 1 \<and> s' = one_device_set\<lparr>is_health := worst_health sts\<rparr>"
proof -
  obtain st w1 where "nvm_get_device_status (adapter_with cap_firmware) False (Some (dev_guid cap_device)) True cap_world =
      Some (NVM_SUCCESS, Some st, w1)" using cap_status [of cap_world False] by (auto simp: cap_world_def)
  then obtain s' where
    s': "calculate_interleave_health (adapter_with cap_firmware) False one_device_set cap_world = Some (NVM_SUCCESS, s', w1)"
    by (simp add: calculate_interleave_health_def one_device_set_def)
  from interleave_health_is_worst [OF s'] obtain sts where
    "length sts = length (is_dimms one_device_set)" "s' = one_device_set\<lparr>is_health := worst_health sts\<rparr>"
    by (metis list_all2_lengthD)
  with s' show ?thesis by (intro exI [of _ s'] exI [of _ w1] exI [of _ sts]) (simp add: one_device_set_def)
qed

text \<open>The set's own handle is 2, which no device has; the pool's is 1.\<close>

theorem set_devices_from_pool_witness:
  "\<exists>p' w'. fill_in_device_guids (adapter_with cap_firmware)
      (pool_of_nvm (zero_nvm_pool\<lparr>np_dimms := [1], np_ilsets := [one_set\<lparr>nis_dimms := [2]\<rparr>]\<rparr>))
      (zero_nvm_pool\<lparr>np_dimms := [1], np_ilsets := [one_set\<lparr>nis_dimms := [2]\<rparr>]\<rparr>) cap_world =
      Some (NVM_SUCCESS, p', w') \<and> length (is_dimms (hd (ilsets p'))) = 1 \<and>
      found_as (adapter_with cap_firmware) TYPE(nat) 1 (hd (is_dimms (hd (ilsets p'))))"
proof -
  let ?np = "zero_nvm_pool\<lparr>np_dimms := [1], np_ilsets := [one_set\<lparr>nis_dimms := [2]\<rparr>]\<rparr>"
  obtain w1 where w1: "lookup_dev_handle (adapter_with cap_firmware) 1 cap_world = Some (NVM_SUCCESS, Some cap_device, w1)"
    "in_cap_ctx w1" using cap_lookup [of cap_world] by (auto simp: cap_world_def)
  obtain w2 where w2: "lookup_dev_handle (adapter_with cap_firmware) 1 w1 = Some (NVM_SUCCESS, Some cap_device, w2)"
    using cap_lookup [OF w1(2)] by auto
  have "ilsets (pool_of_nvm ?np) = [set_of_nvm (one_set\<lparr>nis_dimms := [2]\<rparr>)]" "np_dimms ?np = [1]"
    by (simp_all add: pool_of_nvm_def zero_pool_def zero_nvm_pool_def)
  moreover have "length (is_dimms (set_of_nvm (one_set\<lparr>nis_dimms := [2]\<rparr>))) = 1" by (simp add: set_of_nvm_def)
  ultimately obtain p' where p': "fill_in_device_guids (adapter_with cap_firmware) (pool_of_nvm ?np) ?np cap_world =
      Some (NVM_SUCCESS, p', w2)"
    using w1(1) w2 by (simp add: fill_in_device_guids_def filled_def)
  from set_devices_from_pool [OF p'] p' show ?thesis
    by (auto simp: pool_of_nvm_def zero_pool_def zero_nvm_pool_def set_of_nvm_def filled_def list_all2_Cons1)
qed

end
