(* ===== verification/NsSpace.thy ===== *)
theory NsSpace
  imports PoolApi
begin

text \<open>
  Room for namespaces (\<^verbatim>\<open>src/lib/namespace.c\<close>): the sizes a pool offers, alignment and adjusted
  block counts, and the search for an interleave set or a device that fits what a caller asks for.
\<close>

abbreviation (input) PAGE_SIZE_x86 :: u32 where "PAGE_SIZE_x86 \<equiv> 4096"

section \<open>Sizes\<close>

definition get_minimum_ns_size :: "u8 \<Rightarrow> u64 \<Rightarrow> u64" where
  "get_minimum_ns_size nways driver_min_ns_size =
     (let least = BYTES_PER_GB * ucast nways in if least > driver_min_ns_size then least else driver_min_ns_size)"

definition get_alignment_size :: "u32 \<Rightarrow> u32 \<Rightarrow> u32 option" where
  "get_alignment_size block_size nways = get_lowest_common_multiple block_size (PAGE_SIZE_x86 * nways)"

text \<open>A remainder by zero traps.\<close>

definition check_namespace_alignment :: "u64 \<Rightarrow> u32 \<Rightarrow> u8 \<Rightarrow> bool option" where
  "check_namespace_alignment capacity block_size nways = do {
     a \<leftarrow> get_alignment_size block_size (ucast nways);
     if a = 0 then None else Some (capacity mod ucast a = 0)
   }"

definition adjust_namespace_block_count :: "u64 \<Rightarrow> u16 \<Rightarrow> u8 \<Rightarrow> u64 option" where
  "adjust_namespace_block_count block_count block_size nways = do {
     let real_block_size = get_real_block_size (ucast block_size);
     a \<leftarrow> get_alignment_size real_block_size (ucast nways);
     if a = 0 \<or> real_block_size = 0 then None
     else Some (round_up (block_count * ucast real_block_size) (ucast a) div ucast real_block_size)
   }"

definition adjust_namespace_block_count_if_allowed :: "u64 \<Rightarrow> u16 \<Rightarrow> u8 \<Rightarrow> bool \<Rightarrow> u64 option" where
  "adjust_namespace_block_count_if_allowed block_count block_size nways allow_adjustment =
     (if allow_adjustment then adjust_namespace_block_count block_count block_size nways else Some block_count)"

section \<open>What a pool offers\<close>

definition nvm_get_namespace_count ::
  "'hw adapter \<Rightarrow> bool \<Rightarrow> ('hw, 'det) world \<Rightarrow> (int \<times> ('hw, 'det) world) option" where
  "nvm_get_namespace_count ad large w =
     (if \<not> permitted ad then Some (NVM_ERR_INVALIDPERMISSIONS, w)
      else do {
        (rc, w) \<leftarrow> is_nvm_feature_licensed ad large get_namespaces w;
        Some (if rc \<noteq> NVM_SUCCESS then rc else ad_namespace_count (ns_driver ad) (w_hw w), w)
      })"

text \<open>Whether a namespace was made from the interleave set. Namespaces that cannot be read count as none.\<close>

definition interleave_set_has_namespace :: "'hw adapter \<Rightarrow> 'hw \<Rightarrow> u32 \<Rightarrow> bool option" where
  "interleave_set_has_namespace ad h iset =
     (let count = ad_namespace_count (ns_driver ad) h in
      if count \<le> 0 then Some False
      else
        let (rc, nss) = ad_namespaces (ns_driver ad) h (of_int count) in
        if rc \<noteq> count then Some False
        else do {
          nss \<leftarrow> copy_first nss count;
          Some (\<exists>ns \<in> set nss. let (rc, nd) = ad_namespace_details (ns_driver ad) h (namespace_guid ns) in
                 rc = NVM_SUCCESS \<and> nnd_creation_id nd = iset \<and> nnd_type nd = NAMESPACE_TYPE_APP_DIRECT)
        })"

fun get_largest_app_direct_namespace :: "'hw adapter \<Rightarrow> 'hw \<Rightarrow> interleave_set list \<Rightarrow> u64 \<Rightarrow> u64 option" where
  "get_largest_app_direct_namespace ad h [] sz = Some sz"
| "get_largest_app_direct_namespace ad h (s # ss) sz =
     (if available_size s > sz then do {
        taken \<leftarrow> interleave_set_has_namespace ad h (driver_id s);
        get_largest_app_direct_namespace ad h ss (if taken then sz else available_size s)
      } else get_largest_app_direct_namespace ad h ss sz)"

definition get_smallest_app_direct_namespace :: "pool \<Rightarrow> u64 \<Rightarrow> u64" where
  "get_smallest_app_direct_namespace p alignment =
     (let min_way = (if ilsets p = [] then 0
                     else fold (\<lambda>s m. min (length (is_dimms s)) m) (ilsets p) (length (pl_dimms p)))
      in alignment * of_nat min_way)"

text \<open>The free storage of a device; no size where the code leaves it unwritten.\<close>

definition get_largest_storage_namespace_on_a_dimm ::
  "'hw adapter \<Rightarrow> pool \<Rightarrow> guid \<Rightarrow> ('hw, 'det) world \<Rightarrow> (int \<times> u64 option \<times> ('hw, 'det) world) option" where
  "get_largest_storage_namespace_on_a_dimm ad p g w = do {
     (rc, d, w) \<leftarrow> lookup_dev_guid ad (Some g) w;
     if rc \<noteq> NVM_SUCCESS then Some (NVM_ERR_DRIVERFAILED, None, w)
     else if pl_type p \<in> {POOL_TYPE_PERSISTENT_MIRROR, POOL_TYPE_VOLATILE}
     then Some (NVM_ERR_DRIVERFAILED, Some 0, w)
     else
       let n = topology_count ad (w_hw w) in
       if n \<le> 0 then Some (NVM_ERR_DRIVERFAILED, None, w)
       else
         let (num_caps, caps) = get_dimm_storage_capacities ad (w_hw w) (nat n) in
         if num_caps \<le> 0 then Some (NVM_ERR_DRIVERFAILED, Some 0, w)
         else do {
           d \<leftarrow> d;
           r \<leftarrow> search (\<lambda>c. device_handle d = sc_device_handle c) caps (nat num_caps) 0;
           Some (case r of
               None \<Rightarrow> (NVM_ERR_DRIVERFAILED, Some 0, w)
             | Some j \<Rightarrow> (NVM_SUCCESS, Some (sc_free_storage_capacity (caps ! j)), w))
         }
   }"

fun largest_storage_of_dimms ::
  "'hw adapter \<Rightarrow> pool \<Rightarrow> guid list \<Rightarrow> u64 \<Rightarrow> ('hw, 'det) world \<Rightarrow> (int \<times> u64 \<times> ('hw, 'det) world) option" where
  "largest_storage_of_dimms ad p [] sz w = Some (NVM_SUCCESS, sz, w)"
| "largest_storage_of_dimms ad p (g # gs) sz w = do {
     (rc, s, w) \<leftarrow> get_largest_storage_namespace_on_a_dimm ad p g w;
     if rc \<noteq> NVM_SUCCESS then Some (rc, sz, w)
     else do { s \<leftarrow> s; largest_storage_of_dimms ad p gs (if s > sz then s else sz) w }
   }"

definition get_largest_storage_namespace ::
  "'hw adapter \<Rightarrow> pool \<Rightarrow> ('hw, 'det) world \<Rightarrow> (int \<times> u64 \<times> ('hw, 'det) world) option" where
  "get_largest_storage_namespace ad p w =
     (if pl_type p \<in> {POOL_TYPE_PERSISTENT_MIRROR, POOL_TYPE_VOLATILE} then Some (NVM_SUCCESS, 0, w)
      else largest_storage_of_dimms ad p (pl_dimms p) 0 w)"

text \<open>The loop takes the first size again where it means the \<open>i\<close>-th.\<close>

definition get_smallest_block_size :: "nvm_capabilities \<Rightarrow> u64 option" where
  "get_smallest_block_size caps =
     (let n = unat (block_size_count (sw_capabilities caps));
          sizes = block_sizes (sw_capabilities caps) in
      if n = 0 then Some 0
      else if length sizes < n then None
      else Some (fold (\<lambda>i smallest. if ucast (sizes ! i) < smallest then ucast (sizes ! 0) else smallest)
                   [1..<n] (ucast (sizes ! 0))))"

record possible_namespace_ranges =
  largest_possible_app_direct_ns :: u64
  smallest_possible_app_direct_ns :: u64
  app_direct_increment :: u64
  largest_possible_storage_ns :: u64
  smallest_possible_storage_ns :: u64
  storage_increment :: u64

definition zero_ranges :: possible_namespace_ranges where
  "zero_ranges =
     \<lparr>largest_possible_app_direct_ns = 0, smallest_possible_app_direct_ns = 0, app_direct_increment = 0,
      largest_possible_storage_ns = 0, smallest_possible_storage_ns = 0, storage_increment = 0\<rparr>"

text \<open>Two to the alignment exponent, converted from a floating-point number: it must fit.\<close>

definition get_pool_supported_size_ranges ::
  "'hw adapter \<Rightarrow> pool \<Rightarrow> nvm_capabilities \<Rightarrow> ('hw, 'det) world \<Rightarrow>
   (int \<times> possible_namespace_ranges \<times> ('hw, 'det) world) option" where
  "get_pool_supported_size_ranges ad p caps w = do {
     let e = unat (interleave_alignment_size (pc_app_direct_mode (platform_capabilities caps)));
     ad_size \<leftarrow> get_largest_app_direct_namespace ad (w_hw w) (ilsets p) 0;
     r \<leftarrow> (if ad_size > 0 then
              if e \<ge> 64 then None
              else Some (zero_ranges\<lparr>largest_possible_app_direct_ns := ad_size, app_direct_increment := 2 ^ e,
                     smallest_possible_app_direct_ns := get_smallest_app_direct_namespace p (2 ^ e)\<rparr>)
           else Some zero_ranges);
     (rc, sz, w) \<leftarrow> get_largest_storage_namespace ad p w;
     r \<leftarrow> (if sz > 0 then do {
             block \<leftarrow> get_smallest_block_size caps;
             Some (r\<lparr>largest_possible_storage_ns := sz, storage_increment := block,
                     smallest_possible_storage_ns := get_minimum_ns_size 1 (min_namespace_size (sw_capabilities caps))\<rparr>)
           } else Some r);
     Some (rc, r, w)
   }"

definition nvm_get_available_persistent_size_range ::
  "'hw adapter \<Rightarrow> bool \<Rightarrow> guid option \<Rightarrow> bool \<Rightarrow> ('hw, 'det) world \<Rightarrow>
   (int \<times> possible_namespace_ranges option \<times> ('hw, 'det) world) option" where
  "nvm_get_available_persistent_size_range ad large guid have_out w =
     (if guid = None \<or> \<not> have_out then Some (NVM_ERR_INVALIDPARAMETER, None, w)
      else if \<not> permitted ad then Some (NVM_ERR_INVALIDPERMISSIONS, None, w)
      else do {
        (rc, p, w) \<leftarrow> nvm_get_pool ad large guid True w;
        if rc \<noteq> NVM_SUCCESS then Some (rc, Some zero_ranges, w)
        else do {
          p \<leftarrow> p;
          (rc, caps, w) \<leftarrow> nvm_get_nvm_capabilities ad True w;
          if rc \<noteq> NVM_SUCCESS then Some (rc, Some zero_ranges, w)
          else do {
            caps \<leftarrow> caps;
            (rc, r, w) \<leftarrow> get_pool_supported_size_ranges ad p caps w;
            Some (rc, Some r, w)
          }
        }
      })"

section \<open>Security criteria\<close>

definition dimm_meets_security_criteria ::
  "'hw adapter \<Rightarrow> guid \<Rightarrow> namespace_security_features \<Rightarrow> ('hw, 'det) world \<Rightarrow> (bool \<times> ('hw, 'det) world) option" where
  "dimm_meets_security_criteria ad g f w =
     (if \<not> nsf_erase_capable f \<and> nsf_encryption f = NVM_ENCRYPTION_OFF then Some (True, w)
      else do {
        (rc, d, w) \<leftarrow> nvm_get_device_discovery ad (Some g) True w;
        if rc \<noteq> NVM_SUCCESS then Some (False, w)
        else do {
          d \<leftarrow> d;
          Some (device_is_encryption_enabled (dev_lock_state d) = (nsf_encryption f = NVM_ENCRYPTION_ON) \<and>
                device_is_erase_capable (dev_security_capabilities d) = nsf_erase_capable f, w)
        }
      })"

text \<open>The two flags keep what the last device looked at said. The loop ends at a device that differs from
  what is asked for, and at one that cannot be read.\<close>

fun ilset_security ::
  "'hw adapter \<Rightarrow> namespace_security_features \<Rightarrow> guid list \<Rightarrow> bool \<times> bool \<Rightarrow> ('hw, 'det) world \<Rightarrow>
   ((bool \<times> bool) \<times> ('hw, 'det) world) option" where
  "ilset_security ad f [] flags w = Some (flags, w)"
| "ilset_security ad f (g # gs) (locks, erase) w = do {
     (rc, d, w) \<leftarrow> nvm_get_device_discovery ad (Some g) True w;
     if rc \<noteq> NVM_SUCCESS then Some ((locks, erase), w)
     else do {
       d \<leftarrow> d;
       let locks = device_is_encryption_enabled (dev_lock_state d);
       let er = device_is_erase_capable (dev_security_capabilities d);
       if locks \<noteq> (nsf_encryption f = NVM_ENCRYPTION_ON) then Some ((locks, erase), w)
       else if er \<noteq> nsf_erase_capable f then Some ((locks, er), w)
       else ilset_security ad f gs (locks, er) w
     }
   }"

definition interleave_meets_security_criteria ::
  "'hw adapter \<Rightarrow> interleave_set \<Rightarrow> namespace_security_features \<Rightarrow> ('hw, 'det) world \<Rightarrow>
   (bool \<times> ('hw, 'det) world) option" where
  "interleave_meets_security_criteria ad s f w =
     (if \<not> nsf_erase_capable f \<and> nsf_encryption f = NVM_ENCRYPTION_OFF then Some (True, w)
      else do {
        ((locks, erase), w) \<leftarrow> ilset_security ad f (is_dimms s) (False, False) w;
        Some (locks = (nsf_encryption f = NVM_ENCRYPTION_ON) \<and> erase = nsf_erase_capable f, w)
      })"

text \<open>Only a way of one asks for the same ways.\<close>

definition interleave_meets_app_direct_settings :: "interleave_set \<Rightarrow> interleave_format option \<Rightarrow> bool" where
  "interleave_meets_app_direct_settings s fmt =
     (case fmt of
        None \<Rightarrow> True
      | Some f \<Rightarrow> channel f = channel (is_settings s) \<and> imc f = imc (is_settings s) \<and>
                  (ways f \<noteq> INTERLEAVE_WAYS_1 \<or> ways f = ways (is_settings s)))"

section \<open>An interleave set with room\<close>

record ns_search =
  security_met :: bool
  format_met :: bool
  alignment_met :: bool
  size_good :: bool
  found_ilset :: "u32 option"
  new_block_count :: u64

definition ways_of :: "interleave_set \<Rightarrow> u8" where
  "ways_of s = of_nat (length (is_dimms s))"

fun search_ilsets ::
  "'hw adapter \<Rightarrow> nvm_capabilities \<Rightarrow> namespace_create_settings \<Rightarrow> interleave_format option \<Rightarrow> bool \<Rightarrow>
   interleave_set list \<Rightarrow> ns_search \<Rightarrow> ('hw, 'det) world \<Rightarrow> (ns_search \<times> ('hw, 'det) world) option" where
  "search_ilsets ad caps st fmt allow [] r w = Some (r, w)"
| "search_ilsets ad caps st fmt allow (s # ss) r w =
     (if found_ilset r \<noteq> None then Some (r, w)
      else do {
        taken \<leftarrow> interleave_set_has_namespace ad (w_hw w) (driver_id s);
        if taken then search_ilsets ad caps st fmt allow ss r w
        else do {
          let least = get_minimum_ns_size (ways_of s) (min_namespace_size (sw_capabilities caps));
          n \<leftarrow> adjust_namespace_block_count_if_allowed (ncs_block_count st) (ncs_block_size st) (ways_of s) allow;
          let capacity = n * ucast (ncs_block_size st);
          let r = r\<lparr>new_block_count := n\<rparr>;
          if available_size s \<ge> capacity \<and> capacity \<ge> least then do {
            (sec, w) \<leftarrow> interleave_meets_security_criteria ad s (ncs_security_features st) w;
            let fits = interleave_meets_app_direct_settings s fmt;
            aligned \<leftarrow> check_namespace_alignment capacity (ucast (ncs_block_size st)) (ways_of s);
            search_ilsets ad caps st fmt allow ss
              (r\<lparr>size_good := True, security_met := security_met r \<or> sec, format_met := format_met r \<or> fits,
                 alignment_met := alignment_met r \<or> aligned,
                 found_ilset := if sec \<and> fits \<and> aligned then Some (driver_id s) else None\<rparr>) w
          } else search_ilsets ad caps st fmt allow ss r w
        }
      })"

definition search_code :: "ns_search \<Rightarrow> int" where
  "search_code r =
     (if found_ilset r \<noteq> None then NVM_SUCCESS
      else if size_good r \<and> \<not> alignment_met r then NVM_ERR_BADALIGNMENT
      else if format_met r then NVM_ERR_BADSECURITYGOAL
      else if security_met r then NVM_ERR_BADNAMESPACESETTING
      else if size_good r then NVM_ERR_BADSECURITYGOAL
      else NVM_ERR_BADSIZE)"

definition find_interleave_with_capacity ::
  "'hw adapter \<Rightarrow> pool \<Rightarrow> nvm_capabilities \<Rightarrow> namespace_create_settings \<Rightarrow> interleave_format option \<Rightarrow> bool \<Rightarrow>
   ('hw, 'det) world \<Rightarrow> (int \<times> namespace_create_settings \<times> u32 option \<times> ('hw, 'det) world) option" where
  "find_interleave_with_capacity ad p caps st fmt allow w = do {
     (r, w) \<leftarrow> search_ilsets ad caps st fmt allow (ilsets p)
        \<lparr>security_met = False, format_met = False, alignment_met = False, size_good = False,
         found_ilset = None, new_block_count = 0\<rparr> w;
     Some (search_code r, if found_ilset r \<noteq> None then st\<lparr>ncs_block_count := new_block_count r\<rparr> else st,
           found_ilset r, w)
   }"

section \<open>A device with room\<close>

text \<open>The code of the last device looked at.\<close>

fun check_dimms_capacity ::
  "'hw adapter \<Rightarrow> pool \<Rightarrow> u64 \<Rightarrow> u64 \<Rightarrow> namespace_security_features \<Rightarrow> guid list \<Rightarrow> int \<Rightarrow> ('hw, 'det) world \<Rightarrow>
   (int \<times> u32 option \<times> ('hw, 'det) world) option" where
  "check_dimms_capacity ad p capacity least f [] rc w = Some (rc, None, w)"
| "check_dimms_capacity ad p capacity least f (g # gs) rc w = do {
     (r, d, w) \<leftarrow> lookup_dev_guid ad (Some g) w;
     if r \<noteq> NVM_SUCCESS then check_dimms_capacity ad p capacity least f gs rc w
     else do {
       d \<leftarrow> d;
       (rc, sz, w) \<leftarrow> get_largest_storage_namespace_on_a_dimm ad p (dev_guid d) w;
       if rc \<noteq> NVM_SUCCESS then check_dimms_capacity ad p capacity least f gs rc w
       else do {
         sz \<leftarrow> sz;
         if sz \<ge> capacity \<and> capacity \<ge> least then do {
           (met, w) \<leftarrow> dimm_meets_security_criteria ad g f w;
           if met then Some (NVM_SUCCESS, Some (device_handle d), w)
           else check_dimms_capacity ad p capacity least f gs NVM_ERR_BADSECURITYGOAL w
         } else check_dimms_capacity ad p capacity least f gs NVM_ERR_BADSIZE w
       }
     }
   }"

definition check_namespace_capacity_and_security ::
  "'hw adapter \<Rightarrow> pool \<Rightarrow> u64 \<Rightarrow> u64 \<Rightarrow> namespace_security_features \<Rightarrow> ('hw, 'det) world \<Rightarrow>
   (int \<times> u32 option \<times> ('hw, 'det) world) option" where
  "check_namespace_capacity_and_security ad p capacity least f w =
     check_dimms_capacity ad p capacity least f (pl_dimms p) NVM_ERR_DRIVERFAILED w"

text \<open>A size that no device has is tried again one alignment lower, whether the caller allows an
  adjustment or not. The real block size goes into the adjustment through a 16-bit parameter.\<close>

definition find_dimm_with_capacity ::
  "'hw adapter \<Rightarrow> pool \<Rightarrow> nvm_capabilities \<Rightarrow> namespace_create_settings \<Rightarrow> bool \<Rightarrow> ('hw, 'det) world \<Rightarrow>
   (int \<times> namespace_create_settings \<times> u32 option \<times> ('hw, 'det) world) option" where
  "find_dimm_with_capacity ad p caps st allow w = do {
     let least = get_minimum_ns_size 1 (min_namespace_size (sw_capabilities caps));
     let real_block_size = get_real_block_size (ucast (ncs_block_size st));
     n \<leftarrow> adjust_namespace_block_count_if_allowed (ncs_block_count st) (ucast real_block_size) 1 allow;
     let capacity = n * ucast real_block_size;
     let f = ncs_security_features st;
     aligned \<leftarrow> check_namespace_alignment capacity real_block_size 1;
     if \<not> aligned then Some (NVM_ERR_BADALIGNMENT, st, None, w)
     else if real_block_size = 0 then None
     else do {
       (rc, id, w) \<leftarrow> check_namespace_capacity_and_security ad p capacity least f w;
       if rc = NVM_SUCCESS
       then Some (rc, st\<lparr>ncs_block_count := capacity div ucast real_block_size\<rparr>, id, w)
       else if rc \<noteq> NVM_ERR_BADSIZE then Some (rc, st, id, w)
       else do {
         a \<leftarrow> get_alignment_size real_block_size 1;
         let capacity = capacity - ucast a;
         (rc, id, w) \<leftarrow> check_namespace_capacity_and_security ad p capacity least f w;
         Some (rc, if rc = NVM_SUCCESS then st\<lparr>ncs_block_count := capacity div ucast real_block_size\<rparr> else st,
               id, w)
       }
     }
   }"

definition find_id_for_ns_creation ::
  "'hw adapter \<Rightarrow> pool \<Rightarrow> nvm_capabilities \<Rightarrow> namespace_create_settings \<Rightarrow> interleave_format option \<Rightarrow> bool \<Rightarrow>
   ('hw, 'det) world \<Rightarrow> (int \<times> namespace_create_settings \<times> u32 option \<times> ('hw, 'det) world) option" where
  "find_id_for_ns_creation ad p caps st fmt allow w =
     (case ncs_type st of
        NAMESPACE_TYPE_APP_DIRECT \<Rightarrow> find_interleave_with_capacity ad p caps st fmt allow w
      | NAMESPACE_TYPE_STORAGE \<Rightarrow> find_dimm_with_capacity ad p caps st allow w
      | _ \<Rightarrow> Some (NVM_SUCCESS, st, None, w))"

end
