(* ===== verification/NsCreate.thy ===== *)
theory NsCreate
  imports NsSpace
begin

text \<open>
  Creating namespaces (\<^verbatim>\<open>src/lib/namespace.c\<close>): what is validated, the name a namespace gets when
  the caller gives none, and the driver call.
\<close>

abbreviation (input) NVM_NAMESPACE_NAME_LEN :: nat where "NVM_NAMESPACE_NAME_LEN \<equiv> 64"

section \<open>Validation\<close>

definition validate_ns_enabled_state :: "namespace_enable_state \<Rightarrow> int" where
  "validate_ns_enabled_state e =
     (if e \<noteq> NAMESPACE_ENABLE_STATE_ENABLED \<and> e \<noteq> NAMESPACE_ENABLE_STATE_DISABLED
      then NVM_ERR_BADNAMESPACEENABLESTATE else NVM_SUCCESS)"

definition validate_ns_type_for_pool :: "namespace_type \<Rightarrow> pool \<Rightarrow> int" where
  "validate_ns_type_for_pool ty p =
     (if ty \<noteq> NAMESPACE_TYPE_STORAGE \<and> ty \<noteq> NAMESPACE_TYPE_APP_DIRECT then NVM_ERR_BADNAMESPACETYPE
      else if ty = NAMESPACE_TYPE_APP_DIRECT \<and>
              pl_type p \<noteq> POOL_TYPE_PERSISTENT_MIRROR \<and> pl_type p \<noteq> POOL_TYPE_PERSISTENT
      then NVM_ERR_BADNAMESPACETYPE
      else if ty = NAMESPACE_TYPE_STORAGE \<and> pl_type p \<noteq> POOL_TYPE_PERSISTENT then NVM_ERR_BADNAMESPACETYPE
      else NVM_SUCCESS)"

text \<open>The product of count and size wraps.\<close>

definition validate_ns_size_for_creation ::
  "pool \<Rightarrow> namespace_create_settings \<Rightarrow> nvm_capabilities \<Rightarrow> possible_namespace_ranges \<Rightarrow> int option" where
  "validate_ns_size_for_creation p st caps r = do {
     let capacity = ncs_block_count st * ucast (ncs_block_size st);
     supported \<leftarrow> search (\<lambda>b. b = ucast (ncs_block_size st)) (block_sizes (sw_capabilities caps))
                    (unat (block_size_count (sw_capabilities caps))) 0;
     Some (if supported = None \<and> ncs_type st = NAMESPACE_TYPE_STORAGE then NVM_ERR_BADBLOCKSIZE
           else if ncs_type st = NAMESPACE_TYPE_APP_DIRECT \<and> ncs_block_size st \<noteq> 1 then NVM_ERR_BADBLOCKSIZE
           else if capacity > free_capacity p then NVM_ERR_BADSIZE
           else if ncs_type st = NAMESPACE_TYPE_APP_DIRECT \<and> capacity > largest_possible_app_direct_ns r
           then NVM_ERR_BADSIZE
           else if ncs_type st = NAMESPACE_TYPE_STORAGE \<and> capacity > largest_possible_storage_ns r
           then NVM_ERR_BADSIZE
           else NVM_SUCCESS)
   }"

definition validate_namespace_create_settings ::
  "'hw adapter \<Rightarrow> pool \<Rightarrow> namespace_create_settings \<Rightarrow> interleave_format option \<Rightarrow> bool \<Rightarrow> ('hw, 'det) world \<Rightarrow>
   (int \<times> namespace_create_settings \<times> u32 option \<times> ('hw, 'det) world) option" where
  "validate_namespace_create_settings ad p st fmt allow w =
     (if pl_type p = POOL_TYPE_PERSISTENT_MIRROR \<and> ncs_type st = NAMESPACE_TYPE_STORAGE
      then Some (NVM_ERR_BADNAMESPACETYPE, st, None, w)
      else do {
        (rc, caps, w) \<leftarrow> nvm_get_nvm_capabilities ad True w;
        if rc \<noteq> NVM_SUCCESS then Some (rc, st, None, w)
        else do {
          caps \<leftarrow> caps;
          (rc, r, w) \<leftarrow> get_pool_supported_size_ranges ad p caps w;
          if rc \<noteq> NVM_SUCCESS then Some (rc, st, None, w)
          else if ncs_type st = NAMESPACE_TYPE_APP_DIRECT \<and> largest_possible_app_direct_ns r = 0
          then Some (NVM_ERR_TOOMANYNAMESPACES, st, None, w)
          else if ncs_type st = NAMESPACE_TYPE_STORAGE \<and> largest_possible_storage_ns r = 0
          then Some (NVM_ERR_TOOMANYNAMESPACES, st, None, w)
          else if validate_ns_type_for_pool (ncs_type st) p \<noteq> NVM_SUCCESS
          then Some (validate_ns_type_for_pool (ncs_type st) p, st, None, w)
          else if validate_ns_enabled_state (ncs_enabled st) \<noteq> NVM_SUCCESS
          then Some (validate_ns_enabled_state (ncs_enabled st), st, None, w)
          else do {
            rc \<leftarrow> validate_ns_size_for_creation p st caps r;
            if rc \<noteq> NVM_SUCCESS then Some (rc, st, None, w)
            else find_id_for_ns_creation ad p caps st fmt allow w
          }
        }
      })"

text \<open>The guards of the two requests that start from a pool, up to its validation.\<close>

definition with_validated_pool ::
  "'hw adapter \<Rightarrow> bool \<Rightarrow> guid option \<Rightarrow> namespace_create_settings option \<Rightarrow> bool \<Rightarrow> interleave_format option \<Rightarrow>
   bool \<Rightarrow> ('hw, 'det) world \<Rightarrow>
   (int \<times> namespace_create_settings option \<times> u32 option \<times> ('hw, 'det) world) option" where
  "with_validated_pool ad large pguid st have_out fmt allow w =
     (if \<not> permitted ad then Some (NVM_ERR_INVALIDPERMISSIONS, st, None, w)
      else do {
        (rc, w) \<leftarrow> is_nvm_feature_licensed ad large create_namespace w;
        if rc \<noteq> NVM_SUCCESS then Some (rc, st, None, w)
        else if pguid = None then Some (NVM_ERR_INVALIDPARAMETER, st, None, w)
        else case st of
          None \<Rightarrow> Some (NVM_ERR_INVALIDPARAMETER, st, None, w)
        | Some s \<Rightarrow>
            if \<not> have_out then Some (NVM_ERR_INVALIDPARAMETER, st, None, w)
            else do {
              (rc, p, w) \<leftarrow> nvm_get_pool ad large pguid True w;
              if rc \<noteq> NVM_SUCCESS then Some (rc, st, None, w)
              else do {
                p \<leftarrow> p;
                (rc, s, id, w) \<leftarrow> validate_namespace_create_settings ad p s fmt allow w;
                Some (rc, Some s, id, w)
              }
            }
      })"

definition nvm_adjust_create_namespace_block_count ::
  "'hw adapter \<Rightarrow> bool \<Rightarrow> guid option \<Rightarrow> namespace_create_settings option \<Rightarrow> interleave_format option \<Rightarrow>
   ('hw, 'det) world \<Rightarrow> (int \<times> namespace_create_settings option \<times> ('hw, 'det) world) option" where
  "nvm_adjust_create_namespace_block_count ad large pguid st fmt w = do {
     (rc, st, _, w) \<leftarrow> with_validated_pool ad large pguid st True fmt True w;
     Some (rc, st, w)
   }"

section \<open>The default name\<close>

definition NVM_DEFAULT_NAMESPACE_NAME :: string where
  "NVM_DEFAULT_NAMESPACE_NAME = ''NvDimmVol''"

text \<open>The number in a default name, compared and kept in 32 bits.\<close>

definition default_name_id :: "string \<Rightarrow> u32 \<Rightarrow> u32 option" where
  "default_name_id name best =
     (if take (length NVM_DEFAULT_NAMESPACE_NAME) name \<noteq> NVM_DEFAULT_NAMESPACE_NAME then Some best
      else do {
        (_, _, id) \<leftarrow> s_strtoui (Some (ascii name @ [0])) (length name) None 0;
        Some (if id > best then id else best)
      })"

fun max_unique_id :: "namespace_discovery list \<Rightarrow> u32 \<Rightarrow> u32 option" where
  "max_unique_id [] best = Some best"
| "max_unique_id (ns # nss) best = do { best \<leftarrow> default_name_id (nsd_friendly_name ns) best; max_unique_id nss best }"

definition string_of :: "bytes \<Rightarrow> string" where
  "string_of = map (\<lambda>c. char_of (unat c))"

text \<open>The next number is computed as a signed integer, which must not overflow.\<close>

definition default_name :: "u32 \<Rightarrow> string option" where
  "default_name best =
     (if best = 0x7fffffff then None
      else let i = sint (best + 1) in
        Some (NVM_DEFAULT_NAMESPACE_NAME @ string_of (if i < 0 then 45 # decimal (nat (- i)) else decimal (nat i))))"

definition namespace_name ::
  "'hw adapter \<Rightarrow> bool \<Rightarrow> string \<Rightarrow> ('hw, 'det) world \<Rightarrow> (string \<times> ('hw, 'det) world) option" where
  "namespace_name ad large given w =
     (if given \<noteq> [] then Some (take (NVM_NAMESPACE_NAME_LEN - 1) given, w)
      else do {
        (count, w) \<leftarrow> nvm_get_namespace_count ad large w;
        nss \<leftarrow> (if count > 0 then copy_first (snd (ad_namespaces (ns_driver ad) (w_hw w) (of_int count))) count
                else Some []);
        best \<leftarrow> max_unique_id nss 0;
        name \<leftarrow> default_name best;
        Some (name, w)
      })"

section \<open>Creating\<close>

definition nvm_create_namespace ::
  "'hw adapter \<Rightarrow> bool \<Rightarrow> guid option \<Rightarrow> guid option \<Rightarrow> namespace_create_settings option \<Rightarrow> interleave_format option \<Rightarrow>
   bool \<Rightarrow> ('hw, 'det) world \<Rightarrow>
   (int \<times> guid option \<times> namespace_create_settings option \<times> ('hw, 'det) world) option" where
  "nvm_create_namespace ad large ns_guid pguid st fmt allow w = do {
     (rc, st, id, w) \<leftarrow> with_validated_pool ad large pguid st (ns_guid \<noteq> None) fmt allow w;
     if rc \<noteq> NVM_SUCCESS then Some (rc, ns_guid, st, w)
     else do {
       s \<leftarrow> st;
       id \<leftarrow> id;
       old \<leftarrow> ns_guid;
       (name, w) \<leftarrow> namespace_name ad large (ncs_friendly_name s) w;
       let (rc, g, h) = ad_create_namespace (ns_driver ad) old
         \<lparr>nnc_friendly_name = name, nnc_block_size = ncs_block_size s, nnc_block_count = ncs_block_count s,
          nnc_type = ncs_type s, nnc_enabled = ncs_enabled s, nnc_btt = ncs_btt s, nnc_creation_id = id\<rparr> (w_hw w);
       let w = w\<lparr>w_hw := h\<rparr>;
       if rc \<noteq> NVM_SUCCESS then Some (rc, Some g, st, w)
       else do {
         (_, _, w) \<leftarrow> on_ctx (invalidate_namespaces (ad_os ad)) w;
         Some (rc, Some g, st,
           log_mgmt_event EVENT_CODE_MGMT_NAMESPACE_CREATED g [name, guid_to_str (Some g)] w)
       }
     }
   }"

end
