(* ===== verification/NsManage.thy ===== *)
theory NsManage
  imports NsCreate
begin

text \<open>
  The namespaces there are (\<^verbatim>\<open>src/lib/namespace.c\<close>): listing them, their details, and renaming,
  resizing, enabling and deleting them. A change drops the cached namespaces and stores an event.
\<close>

section \<open>Listing\<close>

text \<open>The array is returned up to its last entry written. A negative number of entries to cache is a size
  that cannot be allocated.\<close>

definition cache_namespaces ::
  "os_env \<Rightarrow> namespace_discovery list \<Rightarrow> int \<Rightarrow> ('hw, 'det) world \<Rightarrow> ('hw, 'det) world option" where
  "cache_namespaces os nss rc w = do {
     (_, _, w) \<leftarrow> on_ctx (if rc < 0 then set_nvm_context_namespaces (os\<lparr>calloc_ok := \<lambda>_. False\<rparr>) []
                         else set_nvm_context_namespaces os nss) w;
     Some w
   }"

definition nvm_get_namespaces ::
  "'hw adapter \<Rightarrow> bool \<Rightarrow> bool \<Rightarrow> u8 \<Rightarrow> ('hw, 'det) world \<Rightarrow>
   (int \<times> namespace_discovery list \<times> ('hw, 'det) world) option" where
  "nvm_get_namespaces ad large have_out count w =
     (if \<not> permitted ad then Some (NVM_ERR_INVALIDPERMISSIONS, [], w)
      else do {
        (rc, w) \<leftarrow> is_nvm_feature_licensed ad large get_namespaces w;
        if rc \<noteq> NVM_SUCCESS then Some (rc, [], w)
        else if \<not> have_out \<or> count = 0 then Some (NVM_ERR_INVALIDPARAMETER, [], w)
        else do {
          (rc, nss, w) \<leftarrow> on_ctx (get_nvm_context_namespaces (ad_os ad) (uint count)) w;
          if rc \<ge> 0 \<or> rc = NVM_ERR_ARRAYTOOSMALL then Some (rc, nss, w)
          else do {
            (n, w) \<leftarrow> nvm_get_namespace_count ad large w;
            if n \<le> 0 then Some (n, [], w)
            else
              let (n, nss) = ad_namespaces (ns_driver ad) (w_hw w) (of_int n) in
              if n \<le> 0 then Some (n, [], w)
              else do {
                nss \<leftarrow> copy_first nss n;
                let nss = take (unat count) nss;
                let rc = (if int (unat count) < n then NVM_ERR_ARRAYTOOSMALL else n);
                w \<leftarrow> cache_namespaces (ad_os ad) nss rc w;
                Some (rc, nss, w)
              }
          }
        }
      })"

definition nvm_get_device_namespace_count ::
  "'hw adapter \<Rightarrow> guid option \<Rightarrow> namespace_type \<Rightarrow> ('hw, 'det) world \<Rightarrow> (int \<times> ('hw, 'det) world) option" where
  "nvm_get_device_namespace_count ad guid ty w =
     (if \<not> permitted ad then Some (NVM_ERR_INVALIDPERMISSIONS, w)
      else do {
        (rc, caps, w) \<leftarrow> nvm_get_nvm_capabilities ad True w;
        if rc \<noteq> NVM_SUCCESS then Some (rc, w)
        else do {
          caps \<leftarrow> caps;
          if \<not> get_namespaces (nvm_features caps) then Some (NVM_ERR_NOTSUPPORTED, w)
          else if guid = None then Some (NVM_ERR_INVALIDPARAMETER, w)
          else do {
            (rc, d, w) \<leftarrow> exists_and_manageable ad guid True w;
            if rc \<noteq> NVM_SUCCESS then Some (rc, w)
            else do {
              d \<leftarrow> d;
              n \<leftarrow> dimm_has_namespaces_of_type ad (w_hw w) (device_handle d) ty;
              Some (n, w)
            }
          }
        }
      })"

section \<open>Details\<close>

definition namespace_encryption_to_enum :: "bool \<Rightarrow> encryption_status" where
  "namespace_encryption_to_enum capable = (if capable then NVM_ENCRYPTION_ON else NVM_ENCRYPTION_OFF)"

text \<open>Nothing is written when the device is not found.\<close>

definition get_security_attributes_from_device ::
  "'hw adapter \<Rightarrow> u32 \<Rightarrow> ('hw, 'det) world \<Rightarrow> (int \<times> namespace_security_features option \<times> ('hw, 'det) world) option" where
  "get_security_attributes_from_device ad handle w = do {
     (rc, d, w) \<leftarrow> lookup_dev_handle ad handle w;
     if rc \<noteq> NVM_SUCCESS then Some (NVM_ERR_DRIVERFAILED, None, w)
     else do {
       d \<leftarrow> d;
       Some (NVM_SUCCESS, Some \<lparr>nsf_encryption = encryption_status_of (device_is_encryption_enabled (dev_lock_state d)),
                                nsf_erase_capable = device_is_erase_capable (dev_security_capabilities d)\<rparr>, w)
     }
   }"

definition no_security :: namespace_security_features where
  "no_security = \<lparr>nsf_encryption = NVM_ENCRYPTION_OFF, nsf_erase_capable = False\<rparr>"

definition zero_namespace :: namespace_details where
  "zero_namespace =
     \<lparr>nd_discovery = \<lparr>namespace_guid = replicate GUID_LEN 0, nsd_friendly_name = []\<rparr>,
      nd_pool_guid = replicate GUID_LEN 0, nd_block_size = 0, nd_block_count = 0, nd_type = NAMESPACE_TYPE_UNKNOWN,
      nd_health = NAMESPACE_HEALTH_UNKNOWN, nd_enabled = NAMESPACE_ENABLE_STATE_UNKNOWN, nd_btt = False,
      nd_security_features = no_security, nd_interleave_format = zero_format, nd_mirrored = 0,
      nd_creation_id = Interleave_setid 0\<rparr>"

definition details_of_nvm :: "guid \<Rightarrow> nvm_namespace_details \<Rightarrow> namespace_details" where
  "details_of_nvm pool nd =
     zero_namespace\<lparr>nd_discovery := nnd_discovery nd, nd_pool_guid := pool, nd_block_size := nnd_block_size nd,
       nd_block_count := nnd_block_count nd, nd_type := nnd_type nd, nd_health := nnd_health nd,
       nd_enabled := nnd_enabled nd, nd_btt := nnd_btt nd\<rparr>"

text \<open>Security, interleave format and creation id, with the code so far.\<close>

definition fill_app_direct_details ::
  "'hw adapter \<Rightarrow> u32 \<Rightarrow> namespace_details \<Rightarrow> int \<Rightarrow> ('hw, 'det) world \<Rightarrow>
   (int \<times> namespace_details \<times> ('hw, 'det) world) option" where
  "fill_app_direct_details ad iset det rc w = do {
     (r, attrs, w) \<leftarrow> calculate_app_direct_interleave_security ad iset w;
     let det = (case attrs of None \<Rightarrow> det
                | Some (enabled, er, _) \<Rightarrow> det\<lparr>nd_security_features :=
                    \<lparr>nsf_encryption = enabled, nsf_erase_capable = er\<rparr>\<rparr>);
     let rc = (if r \<noteq> NVM_SUCCESS then keep_error rc r else rc);
     (r, s) \<leftarrow> get_interleaveset_by_driver_id ad (w_hw w) iset;
     det \<leftarrow> (if r = NVM_SUCCESS
             then do { s \<leftarrow> s; Some (det\<lparr>nd_mirrored := nis_mirrored s, nd_interleave_format := nis_settings s\<rparr>) }
             else Some det);
     Some (if r = NVM_SUCCESS then rc else keep_error rc r, det\<lparr>nd_creation_id := Interleave_setid iset\<rparr>, w)
   }"

definition fill_storage_details ::
  "'hw adapter \<Rightarrow> u32 \<Rightarrow> namespace_details \<Rightarrow> int \<Rightarrow> ('hw, 'det) world \<Rightarrow>
   (int \<times> namespace_details \<times> ('hw, 'det) world) option" where
  "fill_storage_details ad handle det rc w = do {
     (r, f, w) \<leftarrow> get_security_attributes_from_device ad handle w;
     let det = (case f of None \<Rightarrow> det | Some f \<Rightarrow> det\<lparr>nd_security_features := f\<rparr>);
     (_, d, w) \<leftarrow> lookup_dev_handle ad handle w;
     d \<leftarrow> d;
     Some (if r \<noteq> NVM_SUCCESS then keep_error rc r else rc, det\<lparr>nd_creation_id := Device_guid (dev_guid d)\<rparr>, w)
   }"

definition nvm_get_namespace_details ::
  "'hw adapter \<Rightarrow> bool \<Rightarrow> guid option \<Rightarrow> bool \<Rightarrow> ('hw, 'det) world \<Rightarrow>
   (int \<times> namespace_details option \<times> ('hw, 'det) world) option" where
  "nvm_get_namespace_details ad large guid have_out w =
     (if \<not> permitted ad then Some (NVM_ERR_INVALIDPERMISSIONS, None, w)
      else do {
        (rc, w) \<leftarrow> is_nvm_feature_licensed ad large get_namespace_details w;
        if rc \<noteq> NVM_SUCCESS then Some (rc, None, w)
        else case guid of
          None \<Rightarrow> Some (NVM_ERR_INVALIDPARAMETER, None, w)
        | Some g \<Rightarrow>
            if \<not> have_out then Some (NVM_ERR_INVALIDPARAMETER, None, w)
            else do {
              (c, det, w) \<leftarrow> on_ctx (get_nvm_context_namespace_details (ad_os ad) g) w;
              if c = NVM_SUCCESS then Some (rc, det, w)
              else
                let (rc, nd) = ad_namespace_details (ns_driver ad) (w_hw w) g in
                if rc \<noteq> NVM_SUCCESS then Some (rc, Some zero_namespace, w)
                else do {
                  (rc, pool, w) \<leftarrow> get_pool_guid_from_namespace_details ad large nd w;
                  if rc \<noteq> NVM_SUCCESS then Some (rc, Some zero_namespace, w)
                  else do {
                    pool \<leftarrow> pool;
                    let det = details_of_nvm pool nd;
                    (rc, det, w) \<leftarrow>
                      (case nnd_type nd of
                         NAMESPACE_TYPE_APP_DIRECT \<Rightarrow> fill_app_direct_details ad (nnd_creation_id nd) det rc w
                       | NAMESPACE_TYPE_STORAGE \<Rightarrow> fill_storage_details ad (nnd_creation_id nd) det rc w
                       | _ \<Rightarrow> Some (rc, det, w));
                    if rc \<noteq> 0 then do {
                      (_, _, w) \<leftarrow> on_ctx (set_nvm_context_namespace_details (ad_os ad) g det) w;
                      Some (rc, Some det, w)
                    } else Some (rc, Some det, w)
                  }
                }
            }
      })"

section \<open>Sizes of existing namespaces\<close>

text \<open>Every interleave set of the pool with the namespace's id is looked at; none is no error.\<close>

fun validate_app_direct_namespace_size_for_modification ::
  "interleave_set list \<Rightarrow> nvm_namespace_details \<Rightarrow> nvm_capabilities \<Rightarrow> bool \<Rightarrow> u64 \<Rightarrow> int \<Rightarrow> (int \<times> u64) option" where
  "validate_app_direct_namespace_size_for_modification [] nd caps allow count rc = Some (rc, count)"
| "validate_app_direct_namespace_size_for_modification (s # ss) nd caps allow count rc =
     (if driver_id s \<noteq> nnd_creation_id nd
      then validate_app_direct_namespace_size_for_modification ss nd caps allow count rc
      else do {
        let least = get_minimum_ns_size (ways_of s) (min_namespace_size (sw_capabilities caps));
        let old_capacity = nnd_block_count nd * ucast (nnd_block_size nd);
        n \<leftarrow> adjust_namespace_block_count_if_allowed count (ucast (nnd_block_size nd)) (ways_of s) allow;
        let capacity = n * ucast (nnd_block_size nd);
        if capacity > old_capacity \<and> available_size s < capacity - old_capacity
        then validate_app_direct_namespace_size_for_modification ss nd caps allow count NVM_ERR_BADSIZE
        else if capacity < least
        then validate_app_direct_namespace_size_for_modification ss nd caps allow count NVM_ERR_BADSIZE
        else do {
          aligned \<leftarrow> check_namespace_alignment capacity (nnd_block_size nd) (ways_of s);
          if aligned then validate_app_direct_namespace_size_for_modification ss nd caps allow n rc
          else validate_app_direct_namespace_size_for_modification ss nd caps allow count NVM_ERR_BADALIGNMENT
        }
      })"

definition validate_storage_namespace_size_for_modification ::
  "'hw adapter \<Rightarrow> pool \<Rightarrow> nvm_namespace_details \<Rightarrow> nvm_capabilities \<Rightarrow> bool \<Rightarrow> u64 \<Rightarrow> ('hw, 'det) world \<Rightarrow>
   (int \<times> u64 \<times> ('hw, 'det) world) option" where
  "validate_storage_namespace_size_for_modification ad p nd caps allow count w = do {
     (rc, d, w) \<leftarrow> lookup_dev_handle ad (nnd_creation_id nd) w;
     if rc < 0 then Some (NVM_ERR_BADDEVICE, count, w)
     else do {
       d \<leftarrow> d;
       let least = get_minimum_ns_size 1 (min_namespace_size (sw_capabilities caps));
       let real_block_size = get_real_block_size (nnd_block_size nd);
       let old_capacity = nnd_block_count nd * ucast real_block_size;
       n \<leftarrow> adjust_namespace_block_count_if_allowed count (ucast real_block_size) 1 allow;
       let capacity = n * ucast real_block_size;
       (rc, sz, w) \<leftarrow> get_largest_storage_namespace_on_a_dimm ad p (dev_guid d) w;
       if rc \<noteq> NVM_SUCCESS then Some (rc, count, w)
       else do {
         sz \<leftarrow> sz;
         if capacity > old_capacity \<and> sz < capacity - old_capacity then Some (NVM_ERR_BADSIZE, count, w)
         else if capacity < least then Some (NVM_ERR_BADSIZE, count, w)
         else do {
           aligned \<leftarrow> check_namespace_alignment capacity real_block_size 1;
           Some (if aligned then (NVM_SUCCESS, n, w) else (NVM_ERR_BADALIGNMENT, count, w))
         }
       }
     }
   }"

definition validate_namespace_size_for_modification ::
  "'hw adapter \<Rightarrow> pool \<Rightarrow> nvm_namespace_details \<Rightarrow> bool \<Rightarrow> u64 \<Rightarrow> ('hw, 'det) world \<Rightarrow>
   (int \<times> u64 \<times> ('hw, 'det) world) option" where
  "validate_namespace_size_for_modification ad p nd allow count w = do {
     let capacity = count * ucast (nnd_block_size nd);
     (rc, caps, w) \<leftarrow> nvm_get_nvm_capabilities ad True w;
     if rc \<noteq> NVM_SUCCESS then Some (rc, count, w)
     else do {
       caps \<leftarrow> caps;
       let old_capacity = ucast (get_real_block_size (nnd_block_size nd)) * nnd_block_count nd;
       if capacity > old_capacity \<and> free_capacity p < capacity - old_capacity
       then Some (NVM_ERR_BADSIZE, count, w)
       else case nnd_type nd of
         NAMESPACE_TYPE_APP_DIRECT \<Rightarrow> do {
           (rc, n) \<leftarrow> validate_app_direct_namespace_size_for_modification (ilsets p) nd caps allow count NVM_SUCCESS;
           Some (rc, n, w)
         }
       | NAMESPACE_TYPE_STORAGE \<Rightarrow> validate_storage_namespace_size_for_modification ad p nd caps allow count w
       | _ \<Rightarrow> Some (NVM_ERR_BADNAMESPACETYPE, count, w)
     }
   }"

definition validate_namespace_block_count ::
  "'hw adapter \<Rightarrow> bool \<Rightarrow> guid \<Rightarrow> u64 \<Rightarrow> bool \<Rightarrow> ('hw, 'det) world \<Rightarrow> (int \<times> u64 \<times> ('hw, 'det) world) option" where
  "validate_namespace_block_count ad large g count allow w =
     (let (rc, nd) = ad_namespace_details (ns_driver ad) (w_hw w) g in
      if rc \<noteq> NVM_SUCCESS then Some (rc, count, w)
      else do {
        (rc, pguid, w) \<leftarrow> get_pool_guid_from_namespace_details ad large nd w;
        if rc \<noteq> NVM_SUCCESS then Some (rc, count, w)
        else do {
          (rc, p, w) \<leftarrow> nvm_get_pool ad large pguid True w;
          if rc \<noteq> NVM_SUCCESS then Some (rc, count, w)
          else do { p \<leftarrow> p; validate_namespace_size_for_modification ad p nd allow count w }
        }
      })"

text \<open>The details, the license to grow or shrink, and the validated count.\<close>

definition resized_block_count ::
  "'hw adapter \<Rightarrow> bool \<Rightarrow> guid \<Rightarrow> u64 \<Rightarrow> bool \<Rightarrow> ('hw, 'det) world \<Rightarrow>
   (int \<times> namespace_details option \<times> u64 \<times> ('hw, 'det) world) option" where
  "resized_block_count ad large g count allow w = do {
     (rc, det, w) \<leftarrow> nvm_get_namespace_details ad large (Some g) True w;
     if rc \<noteq> NVM_SUCCESS then Some (rc, det, count, w)
     else do {
       d \<leftarrow> det;
       (rc, w) \<leftarrow> (if nd_block_count d < count then is_nvm_feature_licensed ad large grow_namespace w
                  else if nd_block_count d > count then is_nvm_feature_licensed ad large shrink_namespace w
                  else Some (NVM_SUCCESS, w));
       if rc \<noteq> NVM_SUCCESS then Some (rc, det, count, w)
       else do {
         (rc, n, w) \<leftarrow> validate_namespace_block_count ad large g count allow w;
         Some (rc, det, n, w)
       }
     }
   }"

definition nvm_adjust_modify_namespace_block_count ::
  "'hw adapter \<Rightarrow> bool \<Rightarrow> guid option \<Rightarrow> u64 option \<Rightarrow> ('hw, 'det) world \<Rightarrow>
   (int \<times> u64 option \<times> ('hw, 'det) world) option" where
  "nvm_adjust_modify_namespace_block_count ad large guid count w =
     (if \<not> permitted ad then Some (NVM_ERR_INVALIDPERMISSIONS, count, w)
      else case (guid, count) of
        (Some g, Some n) \<Rightarrow>
          if n = 0 then Some (NVM_ERR_INVALIDPARAMETER, count, w)
          else do {
            (rc, _, n, w) \<leftarrow> resized_block_count ad large g n True w;
            Some (rc, Some n, w)
          }
      | _ \<Rightarrow> Some (NVM_ERR_INVALIDPARAMETER, count, w))"

section \<open>Changing and deleting\<close>

text \<open>What follows a driver call that changed a namespace: on success the cached namespaces go and an event
  names the namespace.\<close>

definition namespace_changed ::
  "os_env \<Rightarrow> event_code \<Rightarrow> guid \<Rightarrow> string \<Rightarrow> int \<times> 'hw \<Rightarrow> ('hw, 'det) world \<Rightarrow> (int \<times> ('hw, 'det) world) option" where
  "namespace_changed os code g name result w =
     (let (rc, h) = result; w = w\<lparr>w_hw := h\<rparr> in
      if rc \<noteq> NVM_SUCCESS then Some (rc, w)
      else do {
        (_, _, w) \<leftarrow> on_ctx (invalidate_namespaces os) w;
        Some (rc, log_mgmt_event code g [take NVM_NAMESPACE_NAME_LEN name, guid_to_str (Some g)] w)
      })"

definition nvm_modify_namespace_name ::
  "'hw adapter \<Rightarrow> bool \<Rightarrow> guid option \<Rightarrow> string option \<Rightarrow> ('hw, 'det) world \<Rightarrow> (int \<times> ('hw, 'det) world) option" where
  "nvm_modify_namespace_name ad large guid name w =
     (if \<not> permitted ad then Some (NVM_ERR_INVALIDPERMISSIONS, w)
      else do {
        (rc, w) \<leftarrow> is_nvm_feature_licensed ad large rename_namespace w;
        if rc \<noteq> NVM_SUCCESS then Some (rc, w)
        else case (guid, name) of
          (Some g, Some name) \<Rightarrow>
            namespace_changed (ad_os ad) EVENT_CODE_MGMT_NAMESPACE_MODIFIED g name
              (ad_modify_namespace_name (ns_driver ad) g name (w_hw w)) w
        | _ \<Rightarrow> Some (NVM_ERR_INVALIDPARAMETER, w)
      })"

definition nvm_modify_namespace_block_count ::
  "'hw adapter \<Rightarrow> bool \<Rightarrow> guid option \<Rightarrow> u64 \<Rightarrow> bool \<Rightarrow> ('hw, 'det) world \<Rightarrow> (int \<times> ('hw, 'det) world) option" where
  "nvm_modify_namespace_block_count ad large guid count allow w =
     (case guid of
        None \<Rightarrow> Some (NVM_ERR_INVALIDPARAMETER, w)
      | Some g \<Rightarrow>
          if count = 0 then Some (NVM_ERR_BADSIZE, w)
          else do {
            (rc, det, n, w) \<leftarrow> resized_block_count ad large g count allow w;
            if rc \<noteq> NVM_SUCCESS then Some (rc, w)
            else do {
              d \<leftarrow> det;
              namespace_changed (ad_os ad) EVENT_CODE_MGMT_NAMESPACE_MODIFIED g (nsd_friendly_name (nd_discovery d))
                (ad_modify_namespace_block_count (ns_driver ad) g n (w_hw w)) w
            }
          })"

definition nvm_modify_namespace_enabled ::
  "'hw adapter \<Rightarrow> bool \<Rightarrow> guid option \<Rightarrow> namespace_enable_state \<Rightarrow> ('hw, 'det) world \<Rightarrow>
   (int \<times> ('hw, 'det) world) option" where
  "nvm_modify_namespace_enabled ad large guid enabled w =
     (case guid of
        None \<Rightarrow> Some (NVM_ERR_INVALIDPARAMETER, w)
      | Some g \<Rightarrow>
          if enabled = NAMESPACE_ENABLE_STATE_UNKNOWN then Some (NVM_ERR_BADNAMESPACEENABLESTATE, w)
          else do {
            (rc, w) \<leftarrow> is_nvm_feature_licensed ad large
              (if enabled = NAMESPACE_ENABLE_STATE_DISABLED then disable_namespace else enable_namespace) w;
            if rc \<noteq> NVM_SUCCESS then Some (rc, w)
            else do {
              (rc, det, w) \<leftarrow> nvm_get_namespace_details ad large guid True w;
              if rc \<noteq> NVM_SUCCESS then Some (rc, w)
              else do {
                d \<leftarrow> det;
                if nd_enabled d = enabled then Some (rc, w)
                else namespace_changed (ad_os ad) EVENT_CODE_MGMT_NAMESPACE_MODIFIED g
                       (nsd_friendly_name (nd_discovery d))
                       (ad_modify_namespace_enabled (ns_driver ad) g enabled (w_hw w)) w
              }
            }
          })"

text \<open>Deleting also acknowledges the events on the namespace that call for an action; the events stored
  here call for none.\<close>

definition nvm_delete_namespace ::
  "'hw adapter \<Rightarrow> bool \<Rightarrow> guid option \<Rightarrow> ('hw, 'det) world \<Rightarrow> (int \<times> ('hw, 'det) world) option" where
  "nvm_delete_namespace ad large guid w =
     (if \<not> permitted ad then Some (NVM_ERR_INVALIDPERMISSIONS, w)
      else do {
        (rc, w) \<leftarrow> is_nvm_feature_licensed ad large delete_namespace w;
        if rc \<noteq> NVM_SUCCESS then Some (rc, w)
        else case guid of
          None \<Rightarrow> Some (NVM_ERR_INVALIDPARAMETER, w)
        | Some g \<Rightarrow> do {
            (rc, det, w) \<leftarrow> nvm_get_namespace_details ad large guid True w;
            if rc \<noteq> NVM_SUCCESS then Some (rc, w)
            else do {
              d \<leftarrow> det;
              namespace_changed (ad_os ad) EVENT_CODE_MGMT_NAMESPACE_DELETED g (nsd_friendly_name (nd_discovery d))
                (ad_delete_namespace (ns_driver ad) g (w_hw w)) w
            }
          }
      })"

end
