(* ===== verification/FwUpdate.thy ===== *)
theory FwUpdate
  imports DeviceStatus
begin

text \<open>
  Firmware images (\<^verbatim>\<open>src/lib/device.c\<close>, reading files with \<^verbatim>\<open>file_ops.c\<close>): what the device
  runs, whether an image may be loaded, and the transfer of an image in packets. The layout of the
  image header is in a file the repository does not contain, so reading it is a parameter.
\<close>

abbreviation (input) NVM_ERR_BADFILE :: int where "NVM_ERR_BADFILE \<equiv> - 19"
abbreviation (input) NVM_ERR_REQUIRESFORCE :: int where "NVM_ERR_REQUIRESFORCE \<equiv> - 31"
abbreviation (input) COMMON_SUCCESS :: int where "COMMON_SUCCESS \<equiv> 0"
abbreviation (input) COMMON_ERR_NOMEMORY :: int where "COMMON_ERR_NOMEMORY \<equiv> - 2"
abbreviation (input) COMMON_ERR_BADFILE :: int where "COMMON_ERR_BADFILE \<equiv> - 32"
abbreviation (input) COMMON_PATH_LEN :: nat where "COMMON_PATH_LEN \<equiv> 4096"
abbreviation (input) NVM_PATH_LEN :: nat where "NVM_PATH_LEN \<equiv> 4096"
abbreviation (input) NVM_EVENT_ARG_LEN :: nat where "NVM_EVENT_ARG_LEN \<equiv> 1024"

section \<open>Files\<close>

text \<open>The answers of the operating system for a file name: does it exist, does it open for reading and
  writing, its size, whether memory of a size is to be had, and the bytes a read delivers.\<close>

record file_env =
  fs_exists :: "bytes \<Rightarrow> bool"
  fs_opens :: "bytes \<Rightarrow> bool"
  fs_size :: "bytes \<Rightarrow> int option"
  fs_memory :: "int \<Rightarrow> bool"
  fs_read :: "bytes \<Rightarrow> bytes"

text \<open>The copy of the path: at most \<open>path_len\<close> characters, up to its null.\<close>

definition file_name :: "bytes \<Rightarrow> nat \<Rightarrow> bytes option" where
  "file_name path path_len =
     copy_until (if path_len < COMMON_PATH_LEN - 1 then path_len else COMMON_PATH_LEN - 1) path"

definition file_exists :: "file_env \<Rightarrow> bytes \<Rightarrow> nat \<Rightarrow> bool option" where
  "file_exists fs path path_len = map_option (fs_exists fs) (file_name path path_len)"

text \<open>The code, and the buffer with its size when it is \<open>COMMON_SUCCESS\<close>.\<close>

definition copy_file_to_buffer :: "file_env \<Rightarrow> bytes option \<Rightarrow> nat \<Rightarrow> (int \<times> bytes \<times> u32) option" where
  "copy_file_to_buffer fs path path_len =
     (case path of
        None \<Rightarrow> Some (COMMON_ERR_INVALIDPARAMETER, [], 0)
      | Some p \<Rightarrow> do {
          name \<leftarrow> file_name p path_len;
          Some (if \<not> fs_opens fs name then (COMMON_ERR_BADFILE, [], 0)
                else case fs_size fs name of
                  None \<Rightarrow> (COMMON_ERR_BADFILE, [], 0)
                | Some sz \<Rightarrow>
                    if sz \<le> 0 then (COMMON_ERR_BADFILE, [], 0)
                    else if \<not> fs_memory fs sz then (COMMON_ERR_NOMEMORY, [], 0)
                    else
                      let data = take (nat sz) (fs_read fs name) in
                      if int (length data) \<noteq> sz then (COMMON_ERR_BADFILE, [], 0)
                      else (COMMON_SUCCESS, data, of_int sz))
        })"

definition read_file_bytes :: "file_env \<Rightarrow> bytes option \<Rightarrow> nat \<Rightarrow> (int \<times> bytes \<times> u32) option" where
  "read_file_bytes fs path path_len = do {
     (rc, buf, len) \<leftarrow> copy_file_to_buffer fs path path_len;
     Some (if rc = COMMON_SUCCESS then NVM_SUCCESS
           else if rc = COMMON_ERR_NOMEMORY then NVM_ERR_NOMEMORY else NVM_ERR_BADFILE, buf, len)
   }"

section \<open>The running and the staged firmware\<close>

datatype device_fw_type =
  DEVICE_FW_TYPE_UNKNOWN | DEVICE_FW_TYPE_PRODUCTION | DEVICE_FW_TYPE_DFX | DEVICE_FW_TYPE_DEBUG

definition firmware_type_to_enum :: "u8 \<Rightarrow> device_fw_type" where
  "firmware_type_to_enum fw_type =
     (if fw_type = 0x29 then DEVICE_FW_TYPE_PRODUCTION
      else if fw_type = 0x30 then DEVICE_FW_TYPE_DFX
      else if fw_type = 0x32 then DEVICE_FW_TYPE_DEBUG
      else DEVICE_FW_TYPE_UNKNOWN)"

record device_fw_info =
  active_fw_revision :: bytes
  active_fw_type :: device_fw_type
  active_fw_commit_id :: bytes
  staged_fw_pending :: bool
  staged_fw_revision :: bytes
  staged_fw_type :: device_fw_type

text \<open>The revision of an image in the payload, five bytes from \<open>off\<close>. They are BCD coded, which is not
  undone here.\<close>

definition image_revision :: "bytes \<Rightarrow> nat \<Rightarrow> bytes \<Rightarrow> bytes option" where
  "image_revision payload off old = do {
     r0 \<leftarrow> rd8 payload off;
     r1 \<leftarrow> rd8 payload (off + 1);
     r2 \<leftarrow> rd8 payload (off + 2);
     r3 \<leftarrow> rd8 payload (off + 3);
     r4 \<leftarrow> rd8 payload (off + 4);
     rev \<leftarrow> build_revision (Some old) NVM_VERSION_LEN (ucast r4) (ucast r3) (ucast r2)
              (ucast r1 * 100 + ucast r0);
     rev
   }"

definition fw_info_of :: "bytes \<Rightarrow> device_fw_info \<Rightarrow> device_fw_info option" where
  "fw_info_of payload old = do {
     active \<leftarrow> image_revision payload 0 (active_fw_revision old);
     ty \<leftarrow> rd8 payload 5;
     commit \<leftarrow> rd_bytes payload 32 40;
     pending \<leftarrow> rd8 payload 16;
     staged \<leftarrow> image_revision payload 17 (staged_fw_revision old);
     sty \<leftarrow> rd8 payload 22;
     Some \<lparr>active_fw_revision = active, active_fw_type = firmware_type_to_enum ty,
           active_fw_commit_id = commit @ [0], staged_fw_pending = pending \<noteq> 0,
           staged_fw_revision = staged, staged_fw_type = firmware_type_to_enum sty\<rparr>
   }"

definition nvm_get_device_fw_image_info ::
  "'hw adapter \<Rightarrow> guid option \<Rightarrow> device_fw_info option \<Rightarrow> ('hw, 'det) world \<Rightarrow>
   (int \<times> device_fw_info option \<times> ('hw, 'det) world) option" where
  "nvm_get_device_fw_image_info ad guid info w =
     (if \<not> permitted ad then Some (NVM_ERR_INVALIDPERMISSIONS, info, w)
      else if guid = None then Some (NVM_ERR_INVALIDPARAMETER, info, w)
      else case info of
        None \<Rightarrow> Some (NVM_ERR_INVALIDPARAMETER, info, w)
      | Some old \<Rightarrow> do {
          (rc, d, w) \<leftarrow> exists_and_manageable ad guid True w;
          if rc \<noteq> NVM_SUCCESS then Some (rc, info, w)
          else do {
            dev \<leftarrow> d;
            let (rc, payload, w) = fw_get_fw_image_info ad (device_handle dev) w;
            if rc \<noteq> NVM_SUCCESS then Some (rc, info, w)
            else do { new \<leftarrow> fw_info_of payload old; Some (rc, Some new, w) }
          }
        })"

section \<open>Examining an image\<close>

text \<open>The header of an image: its size, whether module type and vendor are the expected ones, and the
  four parts of its version.\<close>

record image_format =
  header_size :: nat
  header_accepted :: "bytes \<Rightarrow> bool"
  image_major :: "bytes \<Rightarrow> int"
  image_minor :: "bytes \<Rightarrow> int"
  image_hotfix :: "bytes \<Rightarrow> int"
  image_build :: "bytes \<Rightarrow> int"

text \<open>The checks on the contents of a file, with the text of the version.\<close>

definition examine_image ::
  "image_format \<Rightarrow> device_discovery \<Rightarrow> bytes \<Rightarrow> u32 \<Rightarrow> nat \<Rightarrow> (int \<times> bytes) option" where
  "examine_image fmt dev buf buf_len version_len =
     (let version = replicate version_len 0 in
      if unat buf_len < header_size fmt then Some (NVM_ERR_BADFIRMWARE, version)
      else if \<not> header_accepted fmt buf then Some (NVM_ERR_BADFIRMWARE, version)
      else do {
        version \<leftarrow> build_revision (Some version) version_len (of_int (image_major fmt buf))
          (of_int (image_minor fmt buf)) (of_int (image_hotfix fmt buf)) (of_int (image_build fmt buf));
        version \<leftarrow> version;
        (current, _) \<leftarrow> parse_main_revision (Some (fw_revision dev)) NVM_VERSION_LEN
          \<lparr>rev_major = 0, rev_minor = 0, rev_hotfix = 0, rev_build = 0\<rparr>;
        Some (if image_major fmt buf < uint (rev_major current) then NVM_ERR_BADFIRMWARE
              else if image_major fmt buf = uint (rev_major current) \<and>
                image_minor fmt buf < uint (rev_minor current) then NVM_ERR_REQUIRESFORCE
              else NVM_SUCCESS, version)
      })"

text \<open>The checks on the path the two operations share; 0 when they pass.\<close>

definition check_path :: "file_env \<Rightarrow> bytes option \<Rightarrow> nat \<Rightarrow> int option" where
  "check_path fs path path_len =
     (case path of
        None \<Rightarrow> Some NVM_ERR_BADFILE
      | Some p \<Rightarrow>
          if NVM_PATH_LEN \<le> path_len then Some NVM_ERR_INVALIDPARAMETER
          else if path_len = 0 then Some NVM_ERR_INVALIDPARAMETER
          else do { e \<leftarrow> file_exists fs p path_len; Some (if e then NVM_SUCCESS else NVM_ERR_BADFILE) })"

text \<open>Between the checks of the path and of the file stand those of the version buffer. \<open>version\<close> is
  \<open>None\<close> where the buffer is not written.\<close>

definition nvm_examine_device_fw ::
  "'hw adapter \<Rightarrow> file_env \<Rightarrow> image_format \<Rightarrow> guid option \<Rightarrow> bytes option \<Rightarrow> nat \<Rightarrow> bool \<Rightarrow> nat \<Rightarrow>
   ('hw, 'det) world \<Rightarrow> (int \<times> bytes option \<times> ('hw, 'det) world) option" where
  "nvm_examine_device_fw ad fs fmt guid path path_len have_version version_len w =
     (if \<not> permitted ad then Some (NVM_ERR_INVALIDPERMISSIONS, None, w)
      else if guid = None then Some (NVM_ERR_INVALIDPARAMETER, None, w)
      else if path \<noteq> None \<and> 0 < path_len \<and> path_len < NVM_PATH_LEN \<and> (\<not> have_version \<or> version_len = 0)
        then Some (NVM_ERR_INVALIDPARAMETER, None, w)
      else do {
        rc \<leftarrow> check_path fs path path_len;
        if rc \<noteq> NVM_SUCCESS then Some (rc, None, w)
        else do {
          (rc, d, w) \<leftarrow> exists_and_manageable ad guid True w;
          if rc \<noteq> NVM_SUCCESS then Some (rc, None, w)
          else do {
            dev \<leftarrow> d;
            (rc, buf, buf_len) \<leftarrow> read_file_bytes fs path path_len;
            if rc \<noteq> NVM_SUCCESS then Some (rc, Some (replicate version_len 0), w)
            else do {
              (rc, version) \<leftarrow> examine_image fmt dev buf buf_len version_len;
              Some (rc, Some version, w)
            }
          }
        }
      })"

section \<open>Transferring an image\<close>

abbreviation (input) TRANSFER_TYPE_INITIATE :: u16 where "TRANSFER_TYPE_INITIATE \<equiv> 0"
abbreviation (input) TRANSFER_TYPE_CONTINUE :: u16 where "TRANSFER_TYPE_CONTINUE \<equiv> 1"
abbreviation (input) TRANSFER_TYPE_END :: u16 where "TRANSFER_TYPE_END \<equiv> 2"
abbreviation (input) TRANSFER_SIZE :: u32 where "TRANSFER_SIZE \<equiv> 64"
abbreviation (input) TRANSFER_VIA_SMALL_PAYLOAD :: u8 where "TRANSFER_VIA_SMALL_PAYLOAD \<equiv> 1"
abbreviation (input) SUBOP_UPDATE_FW :: u8 where "SUBOP_UPDATE_FW \<equiv> 0"
abbreviation (input) SUBOP_EXECUTE_FW :: u8 where "SUBOP_EXECUTE_FW \<equiv> 1"

definition TRANSFER_HEADER :: "u16 \<Rightarrow> u16 \<Rightarrow> u16" where
  "TRANSFER_HEADER ty packet = push_bit 2 packet OR ty"

definition update_payload :: "u16 \<Rightarrow> bytes \<Rightarrow> bytes" where
  "update_payload transfer_header data =
     le16 transfer_header @ [TRANSFER_VIA_SMALL_PAYLOAD, 0] @ data @ replicate 60 0"

definition update_cmd :: "u32 \<Rightarrow> bytes \<Rightarrow> fw_cmd" where
  "update_cmd handle payload = (fw_cmd_for handle PT_UPDATE_FW SUBOP_UPDATE_FW)\<lparr>cmd_input_payload := payload\<rparr>"

text \<open>The type of the packet at an offset and the number of image bytes in it.\<close>

definition packet_kind :: "u32 \<Rightarrow> u32 \<Rightarrow> u16 \<times> u32" where
  "packet_kind offset fw_size =
     (if offset = 0 then (TRANSFER_TYPE_INITIATE, TRANSFER_SIZE)
      else if offset + TRANSFER_SIZE < fw_size then (TRANSFER_TYPE_CONTINUE, TRANSFER_SIZE)
      else if offset + TRANSFER_SIZE = fw_size then (TRANSFER_TYPE_END, TRANSFER_SIZE)
      else (TRANSFER_TYPE_END, fw_size - offset))"

text \<open>The data of a packet stays in the payload when the next one is shorter.\<close>

partial_function (option) send_packets ::
  "'hw adapter \<Rightarrow> u32 \<Rightarrow> bytes \<Rightarrow> u32 \<Rightarrow> u32 \<Rightarrow> u16 \<Rightarrow> bytes \<Rightarrow> ('hw, 'det) world \<Rightarrow>
   (int \<times> ('hw, 'det) world) option" where
  "send_packets ad handle p_fw fw_size offset packet_number data w =
     (if offset < fw_size then do {
        let (ty, sz) = packet_kind offset fw_size;
        chunk \<leftarrow> rd_bytes p_fw (unat offset) (unat sz);
        data \<leftarrow> store data 0 chunk;
        let (rc, _, _, w) = ioctl_passthrough_cmd ad
              (update_cmd handle (update_payload (TRANSFER_HEADER ty packet_number) data)) w;
        if rc \<noteq> NVM_SUCCESS then Some (rc, w)
        else send_packets ad handle p_fw fw_size (offset + sz) (packet_number + 1) data w
      }
      else Some (NVM_SUCCESS, w))"

text \<open>Sending the whole image, in one command where the library is built for large payloads.\<close>

definition transfer_image ::
  "'hw adapter \<Rightarrow> bool \<Rightarrow> u32 \<Rightarrow> bytes \<Rightarrow> u32 \<Rightarrow> ('hw, 'det) world \<Rightarrow> (int \<times> ('hw, 'det) world) option" where
  "transfer_image ad large handle p_fw fw_size w =
     (if large then
        Some (send ad ((fw_cmd_for handle PT_UPDATE_FW SUBOP_UPDATE_FW)
                \<lparr>cmd_large_input_payload := take (unat fw_size) p_fw\<rparr>) w)
      else send_packets ad handle p_fw fw_size 0 0 (replicate 64 0) w)"

text \<open>The event of a transferred image and its activation.\<close>

definition finish_update ::
  "'hw adapter \<Rightarrow> guid \<Rightarrow> u32 \<Rightarrow> bytes \<Rightarrow> bool \<Rightarrow> ('hw, 'det) world \<Rightarrow> (int \<times> ('hw, 'det) world) option" where
  "finish_update ad guid handle version activate w = do {
     arg \<leftarrow> s_strcpy (Some (replicate NVM_EVENT_ARG_LEN 0)) (Some version) NVM_EVENT_ARG_LEN;
     arg \<leftarrow> arg;
     let w = log_mgmt_event EVENT_CODE_MGMT_FIRMWARE_UPDATE guid
               [guid_to_str (Some guid), map (\<lambda>c. char_of (unat c)) (cstr arg)] w;
     Some (if activate then send ad (fw_cmd_for handle PT_UPDATE_FW SUBOP_EXECUTE_FW) w
           else (NVM_SUCCESS, w))
   }"

definition update_examined ::
  "'hw adapter \<Rightarrow> file_env \<Rightarrow> bool \<Rightarrow> guid \<Rightarrow> u32 \<Rightarrow> bytes option \<Rightarrow> nat \<Rightarrow> bytes \<Rightarrow> bool \<Rightarrow>
   ('hw, 'det) world \<Rightarrow> (int \<times> ('hw, 'det) world) option" where
  "update_examined ad fs large guid handle path path_len version activate w = do {
     (rc, p_fw, fw_size) \<leftarrow> read_file_bytes fs path path_len;
     (rc, w) \<leftarrow> (if rc \<noteq> NVM_SUCCESS then Some (rc, w) else do {
       (rc, w) \<leftarrow> transfer_image ad large handle p_fw fw_size w;
       if rc = NVM_SUCCESS then finish_update ad guid handle version activate w else Some (rc, w)
     });
     if rc = NVM_SUCCESS then do { w \<leftarrow> drop_device_cache ad w; Some (rc, w) } else Some (rc, w)
   }"

definition nvm_update_device_fw ::
  "'hw adapter \<Rightarrow> file_env \<Rightarrow> image_format \<Rightarrow> bool \<Rightarrow> guid option \<Rightarrow> bytes option \<Rightarrow> nat \<Rightarrow> bool \<Rightarrow> bool \<Rightarrow>
   ('hw, 'det) world \<Rightarrow> (int \<times> ('hw, 'det) world) option" where
  "nvm_update_device_fw ad fs fmt large guid path path_len activate force w =
     (if \<not> permitted ad then Some (NVM_ERR_INVALIDPERMISSIONS, w)
      else do {
        (rc, w) \<leftarrow> is_nvm_feature_supported ad modify_device_settings w;
        if rc \<noteq> NVM_SUCCESS then Some (rc, w)
        else case guid of
          None \<Rightarrow> Some (NVM_ERR_INVALIDPARAMETER, w)
        | Some g \<Rightarrow> do {
            rc \<leftarrow> check_path fs path path_len;
            if rc \<noteq> NVM_SUCCESS then Some (rc, w)
            else do {
              (rc, d, w) \<leftarrow> exists_and_manageable ad guid True w;
              if rc \<noteq> NVM_SUCCESS then Some (rc, w)
              else do {
                dev \<leftarrow> d;
                (rc, version, w) \<leftarrow> nvm_examine_device_fw ad fs fmt guid path path_len True NVM_VERSION_LEN w;
                if rc = NVM_SUCCESS \<or> rc = NVM_ERR_REQUIRESFORCE \<and> force then do {
                  version \<leftarrow> version;
                  update_examined ad fs large g (device_handle dev) path path_len version activate w
                } else Some (rc, w)
              }
            }
          }
      })"

section \<open>What a transfer delivers\<close>

text \<open>The receiving side: firmware that checks type and number of every packet and puts the data
  together from the first packet to the one that ends the transfer.\<close>

fun collect :: "nat \<Rightarrow> bytes list \<Rightarrow> bytes option" where
  "collect i [] = None"
| "collect i (p # ps) = do {
     h \<leftarrow> rd16 p 0;
     data \<leftarrow> rd_bytes p 4 64;
     if drop_bit 2 h \<noteq> of_nat i then None
     else if i \<noteq> 0 \<and> h AND 3 = TRANSFER_TYPE_END then if ps = [] then Some data else None
     else if h AND 3 = (if i = 0 then TRANSFER_TYPE_INITIATE else TRANSFER_TYPE_CONTINUE)
       then map_option (\<lambda>rest. data @ rest) (collect (Suc i) ps)
     else None
   }"

lemma header_fields:
  assumes "i < 2 ^ 14" "ty < 4"
  shows "drop_bit 2 (TRANSFER_HEADER ty (of_nat i)) = of_nat i" "TRANSFER_HEADER ty (of_nat i) AND 3 = ty"
proof -
  have three: "(3 :: u16) = mask 2" by (simp add: mask_eq_exp_minus_1)
  have ty: "bit ty n \<Longrightarrow> n < 2" for n
    using assms(2) by (metis bit_take_bit_iff less_mask_eq numeral_Bit0 power2_eq_square take_bit_eq_mask
        mult_2 three and_mask_less_size)
  have "take_bit 14 i = i" using assms(1) by (simp add: take_bit_nat_eq_self)
  then have i: "bit i n \<Longrightarrow> n < 14" for n by (metis bit_take_bit_iff)
  show "drop_bit 2 (TRANSFER_HEADER ty (of_nat i)) = of_nat i"
    by (rule bit_word_eqI) (auto simp: TRANSFER_HEADER_def bit_simps dest: ty i)
  show "TRANSFER_HEADER ty (of_nat i) AND 3 = ty"
    unfolding three by (rule bit_word_eqI) (auto simp: TRANSFER_HEADER_def bit_simps dest: ty)
qed

lemma payload_fields:
  assumes "length data = 64"
  shows "rd16 (update_payload h data) 0 = Some h" "rd_bytes (update_payload h data) 4 64 = Some data"
proof -
  show "rd16 (update_payload h data) 0 = Some h"
    using rd16_append [of 0 "[]" h] by (simp add: update_payload_def)
  have "length (le16 h) = 2" by (simp add: le16_def)
  then show "rd_bytes (update_payload h data) 4 64 = Some data"
    using assms by (simp add: rd_bytes_def update_payload_def)
qed

lemma collect_packet:
  assumes "length data = 64" "i < 2 ^ 14" "ty < 4"
  shows "collect i (update_payload (TRANSFER_HEADER ty (of_nat i)) data # ps) =
    (if i \<noteq> 0 \<and> ty = TRANSFER_TYPE_END then if ps = [] then Some data else None
     else if ty = (if i = 0 then TRANSFER_TYPE_INITIATE else TRANSFER_TYPE_CONTINUE)
       then map_option (\<lambda>rest. data @ rest) (collect (Suc i) ps) else None)"
proof -
  define h where "h = TRANSFER_HEADER ty (of_nat i)"
  have "drop_bit 2 h = of_nat i" "h AND 3 = ty" unfolding h_def by (rule header_fields [OF assms(2,3)])+
  then show ?thesis unfolding h_def [symmetric] by (simp add: payload_fields [OF assms(1)])
qed

lemma of_nat_small:
  assumes "a < 2 ^ 32"
  shows "unat (of_nat a :: u32) = a"
  using assms by (simp add: unat_of_nat)

text \<open>The packet at the offset \<open>64 * k\<close> of an image.\<close>

definition kind_at :: "nat \<Rightarrow> nat \<Rightarrow> u16" where
  "kind_at len k = (if k = 0 then TRANSFER_TYPE_INITIATE
     else if 64 * k + 64 < len then TRANSFER_TYPE_CONTINUE else TRANSFER_TYPE_END)"

lemma packet_kind_at:
  assumes "64 \<le> len" "len + 64 \<le> 2 ^ 32" "64 * k < len"
  shows "packet_kind (of_nat (64 * k)) (of_nat len) = (kind_at len k, of_nat (min 64 (len - 64 * k)))"
proof -
  have k: "64 * k < 2 ^ 32" "len < 2 ^ 32" "64 * k + 64 < 2 ^ 32 \<or> 64 * k + 64 = 2 ^ 32" using assms by linarith+
  have plus: "of_nat (64 * k) + 64 = (of_nat (64 * k + 64) :: u32)" by simp
  have lt: "64 * k + 64 < 2 ^ 32" using assms by linarith
  have z: "(of_nat (64 * k) :: u32) = 0 \<longleftrightarrow> k = 0"
    using of_nat_small [OF k(1)] by (metis mult_eq_0_iff of_nat_0 unat_0 zero_neq_numeral)
  have l: "(of_nat (64 * k + 64) :: u32) < of_nat len \<longleftrightarrow> 64 * k + 64 < len"
    unfolding word_less_nat_alt of_nat_small [OF k(2)] of_nat_small [OF lt] ..
  have e: "(of_nat (64 * k + 64) :: u32) = of_nat len \<longleftrightarrow> 64 * k + 64 = len"
    by (metis of_nat_small k(2) lt)
  have d: "(of_nat len :: u32) - of_nat (64 * k) = of_nat (len - 64 * k)" using assms by (simp add: of_nat_diff)
  show ?thesis
    using assms unfolding packet_kind_def plus z l e d kind_at_def by (auto simp: min_def)
qed

lemma send_step:
  assumes "64 \<le> length img" "length img + 64 \<le> 2 ^ 32" "64 * k < length img" "length data = 64"
  shows "send_packets ad handle img (of_nat (length img)) (of_nat (64 * k)) p data w =
    (let data = take 64 (drop (64 * k) img) @ drop (length img - 64 * k) data;
         (rc, _, _, w) = ioctl_passthrough_cmd ad
           (update_cmd handle (update_payload (TRANSFER_HEADER (kind_at (length img) k) p) data)) w
     in if rc \<noteq> NVM_SUCCESS then Some (rc, w)
        else send_packets ad handle img (of_nat (length img)) (of_nat (min (64 * Suc k) (length img))) (p + 1) data w)"
proof -
  let ?L = "length img" and ?s = "min 64 (length img - 64 * k)"
  have k: "64 * k < 2 ^ 32" "?L < 2 ^ 32" "?s < 2 ^ 32" using assms by linarith+
  have "(of_nat (64 * k) :: u32) < of_nat ?L"
    unfolding word_less_nat_alt of_nat_small [OF k(1)] of_nat_small [OF k(2)] by (rule assms)
  moreover have "rd_bytes img (64 * k) ?s = Some (take 64 (drop (64 * k) img))"
    using assms(3) by (auto simp: rd_bytes_def min_def)
  moreover have "store data 0 (take 64 (drop (64 * k) img)) =
      Some (take 64 (drop (64 * k) img) @ drop (?L - 64 * k) data)"
    using assms(3,4) by (auto simp: store_def min_def)
  moreover have "(of_nat (64 * k) :: u32) + of_nat ?s = of_nat (min (64 * Suc k) ?L)"
    using assms(3) unfolding of_nat_add [symmetric] by (intro arg_cong [where f = of_nat]) (use assms(3) in \<open>arith\<close>)
  ultimately show ?thesis
    unfolding send_packets.simps [of ad handle img "of_nat ?L" "of_nat (64 * k)"] packet_kind_at [OF assms(1-3)]
    by (simp only: if_True Let_def case_prod_conv bind.simps of_nat_small [OF k(1)] of_nat_small [OF k(3)])
qed

lemma send_done:
  "send_packets ad handle img n n p data w = Some (NVM_SUCCESS, w)"
  by (subst send_packets.simps) simp

lemma data_length:
  assumes "64 * k < length img" "length data = 64"
  shows "length (take 64 (drop (64 * k) img) @ drop (length img - 64 * k) data) = 64"
  using assms by simp

text \<open>How many packets are left from packet \<open>k\<close> on.\<close>

abbreviation (input) packets_left :: "nat \<Rightarrow> nat \<Rightarrow> nat" where
  "packets_left len k \<equiv> (len + 63) div 64 - k"

lemma transfer_from:
  assumes "64 \<le> length img" "length img + 64 \<le> 2 ^ 32" "64 * k < length img" "length data = 64"
  shows "\<exists>rc w' ps. send_packets ad handle img (of_nat (length img)) (of_nat (64 * k)) p data w = Some (rc, w') \<and>
    w_sent w' = w_sent w @ map (update_cmd handle) ps \<and> length ps \<le> packets_left (length img) k \<and>
    (rc = NVM_SUCCESS \<longrightarrow> length ps = packets_left (length img) k)"
  using assms(3,4)
proof (induction "length img - 64 * k" arbitrary: k p data w rule: less_induct)
  case less
  define data' where "data' = take 64 (drop (64 * k) img) @ drop (length img - 64 * k) data"
  define pl where "pl = update_payload (TRANSFER_HEADER (kind_at (length img) k) p) data'"
  obtain rc s l w1 where io: "ioctl_passthrough_cmd ad (update_cmd handle pl) w = (rc, s, l, w1)"
    by (metis prod_cases4)
  have sent: "w_sent w1 = w_sent w @ map (update_cmd handle) [pl]" using ioctl_effect [OF io] by simp
  have step: "send_packets ad handle img (of_nat (length img)) (of_nat (64 * k)) p data w =
      (if rc \<noteq> NVM_SUCCESS then Some (rc, w1) else
       send_packets ad handle img (of_nat (length img)) (of_nat (min (64 * Suc k) (length img))) (p + 1) data' w1)"
    unfolding send_step [OF assms(1,2) less.prems] Let_def data'_def [symmetric] pl_def [symmetric] io by simp
  have left: "1 \<le> packets_left (length img) k" using less.prems(1) by linarith
  consider "rc \<noteq> NVM_SUCCESS" | "rc = NVM_SUCCESS" "length img \<le> 64 * Suc k"
    | "rc = NVM_SUCCESS" "64 * Suc k < length img" by linarith
  then show ?case
  proof cases
    case 1
    with step sent left show ?thesis by (intro exI [of _ rc] exI [of _ w1] exI [of _ "[pl]"]) simp
  next
    case 2
    then have "packets_left (length img) k = 1" using less.prems(1) by simp
    with 2 step sent show ?thesis
      by (intro exI [of _ rc] exI [of _ w1] exI [of _ "[pl]"]) (simp add: min_absorb2 send_done)
  next
    case 3
    have "length img - 64 * Suc k < length img - 64 * k" using 3 by arith
    from less.hyps [OF this 3(2), of data' "p + 1" w1] obtain rc' w' ps where
      r: "send_packets ad handle img (of_nat (length img)) (of_nat (64 * Suc k)) (p + 1) data' w1 = Some (rc', w')"
        "w_sent w' = w_sent w1 @ map (update_cmd handle) ps" "length ps \<le> packets_left (length img) (Suc k)"
        "rc' = NVM_SUCCESS \<longrightarrow> length ps = packets_left (length img) (Suc k)"
      using data_length [OF less.prems] unfolding data'_def by blast
    moreover have "packets_left (length img) k = Suc (packets_left (length img) (Suc k))" using left by linarith
    ultimately show ?thesis using step 3 sent
      by (intro exI [of _ rc'] exI [of _ w'] exI [of _ "pl # ps"]) (simp add: min_absorb1)
  qed
qed

lemma delivered_from:
  assumes "\<And>cmd h. cmd_opcode cmd = PT_UPDATE_FW \<Longrightarrow> fst (passthrough ad cmd h) = NVM_SUCCESS"
    and "64 < length img" "length img \<le> 2 ^ 20" "64 * k < length img" "length data = 64"
  shows "\<exists>w' ps got. send_packets ad handle img (of_nat (length img)) (of_nat (64 * k)) (of_nat k) data w =
      Some (NVM_SUCCESS, w') \<and>
    w_sent w' = w_sent w @ map (update_cmd handle) ps \<and> collect k ps = Some got \<and>
    take (length img - 64 * k) got = drop (64 * k) img"
  using assms(4,5)
proof (induction "length img - 64 * k" arbitrary: k data w rule: less_induct)
  case less
  let ?L = "length img"
  define data' where "data' = take 64 (drop (64 * k) img) @ drop (?L - 64 * k) data"
  define pl where "pl = update_payload (TRANSFER_HEADER (kind_at ?L k) (of_nat k)) data'"
  obtain rc s l w1 where io: "ioctl_passthrough_cmd ad (update_cmd handle pl) w = (rc, s, l, w1)"
    by (metis prod_cases4)
  have "rc = NVM_SUCCESS"
    using io assms(1) [of "update_cmd handle pl" "w_hw w"]
    by (auto simp: ioctl_passthrough_cmd_def update_cmd_def fw_cmd_for_def split: prod.splits)
  have sent: "w_sent w1 = w_sent w @ map (update_cmd handle) [pl]" using ioctl_effect [OF io] by simp
  have big: "64 \<le> ?L" "?L + 64 \<le> 2 ^ 32" using assms(2,3) by simp_all
  have step: "send_packets ad handle img (of_nat ?L) (of_nat (64 * k)) (of_nat k) data w =
      send_packets ad handle img (of_nat ?L) (of_nat (min (64 * Suc k) ?L)) (of_nat (Suc k)) data' w1"
    using \<open>rc = NVM_SUCCESS\<close> 
    unfolding send_step [OF big less.prems] Let_def data'_def [symmetric] pl_def [symmetric] io
    by (simp add: add.commute)
  have len: "length data' = 64" unfolding data'_def by (rule data_length [OF less.prems])
  have k: "k < 2 ^ 14" using less.prems(1) assms(3) by simp
  have ty: "kind_at ?L k < 4" by (simp add: kind_at_def)
  note col = collect_packet [OF len k ty, folded pl_def]
  show ?case
  proof (cases "?L \<le> 64 * Suc k")
    case True
    then have "0 < k" using assms(2) by (cases k) simp_all
    then have "collect k [pl] = Some data'" using True unfolding col by (simp add: kind_at_def)
    moreover have "take (?L - 64 * k) data' = drop (64 * k) img" using True by (simp add: data'_def)
    ultimately show ?thesis using step sent True
      by (intro exI [of _ w1] exI [of _ "[pl]"] exI [of _ data']) (simp add: min_absorb2 send_done)
  next
    case False
    then have more: "64 * Suc k < ?L" by simp
    have "?L - 64 * Suc k < ?L - 64 * k" using more by arith
    from less.hyps [OF this more len, of w1] obtain w' ps got where
      r: "send_packets ad handle img (of_nat ?L) (of_nat (64 * Suc k)) (of_nat (Suc k)) data' w1 = Some (NVM_SUCCESS, w')"
        "w_sent w' = w_sent w1 @ map (update_cmd handle) ps" "collect (Suc k) ps = Some got"
        "take (?L - 64 * Suc k) got = drop (64 * Suc k) img" by blast
    have d: "data' = take 64 (drop (64 * k) img)" using more less.prems(2) by (simp add: data'_def)
    have "64 * k + 64 < ?L" using more by arith
    then have "kind_at ?L k = (if k = 0 then TRANSFER_TYPE_INITIATE else TRANSFER_TYPE_CONTINUE)"
      by (simp add: kind_at_def)
    moreover have "TRANSFER_TYPE_CONTINUE \<noteq> TRANSFER_TYPE_END" by simp
    ultimately have "collect k (pl # ps) = Some (data' @ got)" using r(3) unfolding col by (cases k) simp_all
    moreover have "take (?L - 64 * k) (data' @ got) = drop (64 * k) img"
    proof -
      have "?L - 64 * k = length data' + (?L - 64 * Suc k)" using more len by simp
      then have "take (?L - 64 * k) (data' @ got) = data' @ drop (64 * Suc k) img" using r(4) by simp
      also have "\<dots> = take 64 (drop (64 * k) img) @ drop 64 (drop (64 * k) img)"
        unfolding d by (simp add: add.commute)
      also have "\<dots> = drop (64 * k) img" by (rule append_take_drop_id)
      finally show ?thesis .
    qed
    ultimately show ?thesis using step sent r(1,2) more
      by (intro exI [of _ w'] exI [of _ "pl # ps"] exI [of _ "data' @ got"]) (simp add: min_absorb1)
  qed
qed

section \<open>Properties\<close>

text \<open>C34. Where the firmware accepts every packet, the packets of an image of more than 64 bytes and at
  most 1 MiB are well numbered from the one that starts the transfer to the one that ends it, and their
  data together start with the image.\<close>
theorem image_delivered:
  assumes "\<And>cmd h. cmd_opcode cmd = PT_UPDATE_FW \<Longrightarrow> fst (passthrough ad cmd h) = NVM_SUCCESS"
    and "64 < length img" "length img \<le> 2 ^ 20"
  shows "\<exists>w' ps got. transfer_image ad False handle img (of_nat (length img)) w = Some (NVM_SUCCESS, w') \<and>
    w_sent w' = w_sent w @ map (update_cmd handle) ps \<and> collect 0 ps = Some got \<and>
    take (length img) got = img"
proof -
  have "64 * 0 < length img" using assms(2) by linarith
  from delivered_from [OF assms this, of "replicate 64 0" handle w] show ?thesis by (simp add: transfer_image_def)
qed

theorem image_delivered_witness:
  "\<exists>(w' :: (unit, nat) world) ps got.
     transfer_image (adapter_with (\<lambda>cmd h. (NVM_SUCCESS, [], [], h))) False 1 (replicate 100 7) 100 sample_world =
       Some (NVM_SUCCESS, w') \<and>
     w_sent w' = w_sent sample_world @ map (update_cmd 1) ps \<and> collect 0 ps = Some got \<and>
     take 100 got = replicate 100 7"
  using image_delivered [of "adapter_with (\<lambda>cmd h. (NVM_SUCCESS, [], [], h))" "replicate 100 7" 1 sample_world]
  by simp

text \<open>C36. Every transfer in packets ends, whatever the firmware answers, for images of at least 64 bytes
  (and 64 below 4 GiB): with one packet for every 64 bytes begun when it succeeds, and no more when it
  does not.\<close>
theorem transfer_ends:
  assumes "64 \<le> length img" "length img + 64 \<le> 2 ^ 32"
  shows "\<exists>rc w' ps. transfer_image ad False handle img (of_nat (length img)) w = Some (rc, w') \<and>
    w_sent w' = w_sent w @ map (update_cmd handle) ps \<and> length ps \<le> (length img + 63) div 64 \<and>
    (rc = NVM_SUCCESS \<longrightarrow> length ps = (length img + 63) div 64)"
  using transfer_from [of img 0 "replicate 64 0" ad handle 0 w] assms
  by (cases "length img = 0") (simp_all add: transfer_image_def)

theorem transfer_ends_witness:
  "\<exists>rc (w' :: (unit, nat) world) ps.
     transfer_image (adapter_with (\<lambda>cmd h. (NVM_ERR_DEVICEERROR, [], [], h))) False 1 (replicate 100 7) 100 sample_world =
       Some (rc, w') \<and> w_sent w' = w_sent sample_world @ map (update_cmd 1) ps \<and> length ps \<le> 2"
  using transfer_ends [of "replicate 100 7" "adapter_with (\<lambda>cmd h. (NVM_ERR_DEVICEERROR, [], [], h))" 1 sample_world]
  by auto

definition update_cmds :: "('hw, 'det) world \<Rightarrow> fw_cmd list" where
  "update_cmds w = filter (\<lambda>c. cmd_opcode c = PT_UPDATE_FW) (w_sent w)"

lemma reads_update_cmds: "read_steps ad w w' \<Longrightarrow> update_cmds w' = update_cmds w"
  by (induction rule: read_steps.induct) (auto simp: update_cmds_def dest!: ioctl_effect)

lemma examine_reads:
  "nvm_examine_device_fw ad fs fmt guid path path_len hv vl w = Some (rc, v, w') \<Longrightarrow> read_steps ad w w'"
  by (auto simp: nvm_examine_device_fw_def bind_eq_Some_conv split: if_splits dest!: lookup_reads)

text \<open>What an examination without objections, or whose objection force overcomes, has found.\<close>

lemma examined:
  assumes "nvm_examine_device_fw ad fs fmt guid path path_len hv vl w = Some (rc, Some v, w')"
    and "rc = NVM_SUCCESS \<or> rc = NVM_ERR_REQUIRESFORCE \<and> force"
  shows "\<exists>dev buf len cur ok w2.
    exists_and_manageable ad guid True w = Some (NVM_SUCCESS, Some dev, w2) \<and>
    read_file_bytes fs path path_len = Some (NVM_SUCCESS, buf, len) \<and>
    header_size fmt \<le> unat len \<and> header_accepted fmt buf \<and>
    parse_main_revision (Some (fw_revision dev)) NVM_VERSION_LEN
      \<lparr>rev_major = 0, rev_minor = 0, rev_hotfix = 0, rev_build = 0\<rparr> = Some (cur, ok) \<and>
    uint (rev_major cur) \<le> image_major fmt buf \<and>
    (force \<or> uint (rev_major cur) < image_major fmt buf \<or> uint (rev_minor cur) \<le> image_minor fmt buf)"
proof -
  have p: "permitted ad" "guid \<noteq> None" using assms by (auto simp: nvm_examine_device_fw_def split: if_splits)
  with assms obtain r where c: "check_path fs path path_len = Some r"
    by (auto simp: nvm_examine_device_fw_def bind_eq_Some_conv split: if_splits)
  have r: "r = NVM_SUCCESS"
    using assms c p by (auto simp: nvm_examine_device_fw_def check_path_def bind_eq_Some_conv
        split: if_splits option.splits)
  with assms p c obtain r2 d w2 where e: "exists_and_manageable ad guid True w = Some (r2, d, w2)"
    by (auto simp: nvm_examine_device_fw_def bind_eq_Some_conv split: if_splits)
  have r2: "r2 = NVM_SUCCESS"
    using assms(1) p c r e by (auto simp: nvm_examine_device_fw_def split: if_splits)
  with assms p c r e obtain dev r3 buf len where f: "d = Some dev" "read_file_bytes fs path path_len = Some (r3, buf, len)"
    by (auto simp: nvm_examine_device_fw_def bind_eq_Some_conv split: if_splits)
  have r3: "r3 = NVM_SUCCESS"
    using assms p c r e r2 f by (auto simp: nvm_examine_device_fw_def read_file_bytes_def bind_eq_Some_conv split: if_splits)
  with assms p c r e r2 f obtain v2 where "examine_image fmt dev buf len vl = Some (rc, v2)"
    by (auto simp: nvm_examine_device_fw_def bind_eq_Some_conv split: if_splits)
  with assms(2) obtain cur ok where
    "parse_main_revision (Some (fw_revision dev)) NVM_VERSION_LEN
       \<lparr>rev_major = 0, rev_minor = 0, rev_hotfix = 0, rev_build = 0\<rparr> = Some (cur, ok)"
    "header_size fmt \<le> unat len" "header_accepted fmt buf" "uint (rev_major cur) \<le> image_major fmt buf"
    "force \<or> uint (rev_major cur) < image_major fmt buf \<or> uint (rev_minor cur) \<le> image_minor fmt buf"
    unfolding examine_image_def Let_def by (fastforce simp: bind_eq_Some_conv split: if_splits)
  with e f r2 r3 show ?thesis by blast
qed


section \<open>An update to try\<close>

definition image_file :: file_env where
  "image_file = \<lparr>fs_exists = (\<lambda>_. True), fs_opens = (\<lambda>_. True), fs_size = (\<lambda>_. Some 128),
     fs_memory = (\<lambda>_. True), fs_read = (\<lambda>_. replicate 128 7)\<rparr>"

definition plain_format :: image_format where
  "plain_format = \<lparr>header_size = 64, header_accepted = (\<lambda>buf. hd buf = 7), image_major = (\<lambda>_. 1),
     image_minor = (\<lambda>_. 2), image_hotfix = (\<lambda>_. 3), image_build = (\<lambda>_. 4)\<rparr>"

lemma image_file_reads:
  "check_path image_file (Some [47, 102, 0]) 2 = Some NVM_SUCCESS"
  "read_file_bytes image_file (Some [47, 102, 0]) 2 = Some (NVM_SUCCESS, replicate 128 7, 128)"
proof -
  have "copy_until (Suc (Suc 0)) [47, 102, 0] = Some [47, 102]" by simp
  then have "copy_until 2 [47, 102, 0] = Some [47, 102]" by (simp only: numeral_2_eq_2)
  then have "file_name [47, 102, 0] 2 = Some [47, 102]" by (simp add: file_name_def)
  then show "check_path image_file (Some [47, 102, 0]) 2 = Some NVM_SUCCESS"
    "read_file_bytes image_file (Some [47, 102, 0]) 2 = Some (NVM_SUCCESS, replicate 128 7, 128)"
    by (simp_all add: check_path_def file_exists_def read_file_bytes_def copy_file_to_buffer_def image_file_def)
qed

definition fw_device :: device_discovery where
  "fw_device = (sec_device LOCK_STATE_DISABLED)\<lparr>fw_revision := replicate NVM_VERSION_LEN 0\<rparr>"

lemma fw_exists:
  assumes "holds_device fw_device w"
  shows "\<exists>w'. exists_and_manageable sample_adapter (Some (replicate GUID_LEN 1)) True w =
    Some (NVM_SUCCESS, Some fw_device, w') \<and> holds_device fw_device w'"
  using sec_lookup [OF assms] by (auto simp: exists_and_manageable_def fw_device_def)

lemma no_revision: "parse_revision_loop (Suc n) (Some (0 # r)) left = Some []"
  using rd8_append [of 0 "[]" 0 r] by (simp add: parse_revision_loop.simps(2))

lemma plain_image_accepted:
  "\<exists>v. examine_image plain_format fw_device (replicate 128 7) 128 NVM_VERSION_LEN = Some (NVM_SUCCESS, v) \<and>
    readable v 1023"
proof -
  let ?rev = "build_revision (Some (replicate NVM_VERSION_LEN 0)) NVM_VERSION_LEN 1 2 3 4"
  have "\<exists>v. s_strcpy (Some (replicate NVM_VERSION_LEN 0)) (Some (revision_text 1 2 3 4 @ [0])) NVM_VERSION_LEN =
      Some (Some v) \<and> cstr v = take (NVM_VERSION_LEN - 1) (cstr (revision_text 1 2 3 4 @ [0])) \<and>
      length v = length (replicate NVM_VERSION_LEN (0 :: u8))"
    by (rule s_strcpy_ok [OF _ _ readable_terminated]) simp_all
  then obtain v where
    sv: "s_strcpy (Some (replicate NVM_VERSION_LEN 0)) (Some (revision_text 1 2 3 4 @ [0])) NVM_VERSION_LEN = Some (Some v)"
      "cstr v = take (NVM_VERSION_LEN - 1) (cstr (revision_text 1 2 3 4 @ [0]))" "length v = NVM_VERSION_LEN" by auto
  then have v: "?rev = Some (Some v)" "length v = NVM_VERSION_LEN" "length (cstr v) \<le> 24"
    by (simp_all add: build_revision_def)
  have "parse_main_revision (Some (fw_revision fw_device)) NVM_VERSION_LEN old =
      Some (\<lparr>rev_major = 0, rev_minor = 0, rev_hotfix = 0, rev_build = 0\<rparr>, False)" for old
    using no_revision [of 3 "replicate 24 0" NVM_VERSION_LEN] truncate_us_id [of 0]
    by (simp add: parse_main_revision_def parse_revision_def fw_device_def numeral_eq_Suc)
  then have "examine_image plain_format fw_device (replicate 128 7) 128 NVM_VERSION_LEN = Some (NVM_SUCCESS, v)"
    using v(1) by (simp add: examine_image_def plain_format_def)
  with v show ?thesis by (auto simp: readable_def)
qed

lemma sample_transfer:
  "\<exists>w'. transfer_image sample_adapter True h img n w = Some (NVM_SUCCESS, w') \<and>
    length (update_cmds w) < length (update_cmds w')"
  by (simp add: transfer_image_def sample_send update_cmds_def fw_cmd_for_def)

lemma sample_finish:
  assumes "readable v 1023"
  shows "\<exists>w'. finish_update sample_adapter g h v activate w = Some (NVM_SUCCESS, w') \<and>
    length (update_cmds w) \<le> length (update_cmds w')"
proof -
  obtain arg where "s_strcpy (Some (replicate NVM_EVENT_ARG_LEN 0)) (Some v) NVM_EVENT_ARG_LEN = Some (Some arg)"
    using s_strcpy_ok [of NVM_EVENT_ARG_LEN "replicate NVM_EVENT_ARG_LEN 0" v] assms by auto
  then show ?thesis by (simp add: finish_update_def sample_send update_cmds_def Let_def)
qed

lemma drop_update_cmds: "drop_device_cache ad w = Some w' \<Longrightarrow> update_cmds w' = update_cmds w"
  by (auto simp: drop_device_cache_def bind_eq_Some_conv dest!: lookup_reads(1) reads_update_cmds)

lemma sample_update:
  "\<exists>w'. nvm_update_device_fw sample_adapter image_file plain_format True (Some (replicate GUID_LEN 1))
      (Some [47, 102, 0]) 2 True False (sec_world fw_device) = Some (NVM_SUCCESS, w') \<and>
    update_cmds w' \<noteq> update_cmds (sec_world fw_device)"
proof -
  let ?g = "Some (replicate GUID_LEN 1)" and ?p = "Some [47, 102, 0]" and ?d = fw_device
  have c: "p_capabilities (sec_ctx ?d) = Some (zero_capabilities\<lparr>nvm_features := sec_features\<rparr>)"
    by (simp add: sec_ctx_def)
  obtain w1 where w1: "is_nvm_feature_supported sample_adapter modify_device_settings (sec_world ?d) = Some (NVM_SUCCESS, w1)"
    "holds_device ?d w1"
    using capabilities_cached [OF sample_sizes(1,2) sec_world_holds c]
    by (auto simp: is_nvm_feature_supported_def sec_features_def)
  obtain w2 where w2: "exists_and_manageable sample_adapter ?g True w1 = Some (NVM_SUCCESS, Some ?d, w2)" "holds_device ?d w2"
    using fw_exists [OF w1(2)] by blast
  obtain w3 where w3: "exists_and_manageable sample_adapter ?g True w2 = Some (NVM_SUCCESS, Some ?d, w3)" "holds_device ?d w3"
    using fw_exists [OF w2(2)] by blast
  obtain v where v: "examine_image plain_format ?d (replicate 128 7) 128 NVM_VERSION_LEN = Some (NVM_SUCCESS, v)"
    "readable v 1023" using plain_image_accepted by blast
  have ex: "nvm_examine_device_fw sample_adapter image_file plain_format ?g ?p 2 True NVM_VERSION_LEN w2 =
      Some (NVM_SUCCESS, Some v, w3)"
    using w3 v sample_sizes(2) by (simp add: nvm_examine_device_fw_def image_file_reads)
  obtain w4 where w4: "transfer_image sample_adapter True (device_handle ?d) (replicate 128 7) 128 w3 = Some (NVM_SUCCESS, w4)"
    "length (update_cmds w3) < length (update_cmds w4)" using sample_transfer by blast
  obtain w5 where w5: "finish_update sample_adapter (replicate GUID_LEN 1) (device_handle ?d) v True w4 = Some (NVM_SUCCESS, w5)"
    "length (update_cmds w4) \<le> length (update_cmds w5)" using sample_finish [OF v(2)] by blast
  obtain w6 where w6: "drop_device_cache sample_adapter w5 = Some w6" using sample_drop by blast
  have "nvm_update_device_fw sample_adapter image_file plain_format True ?g ?p 2 True False (sec_world ?d) =
      Some (NVM_SUCCESS, w6)"
    using w1(1) w2(1) ex w4(1) w5(1) w6 sample_sizes(2)
    by (simp add: nvm_update_device_fw_def update_examined_def image_file_reads)
  moreover have "update_cmds w3 = update_cmds (sec_world ?d)"
    using reads_update_cmds [OF lookup_reads(9) [OF w1(1)]] reads_update_cmds [OF lookup_reads(8) [OF w2(1)]]
      reads_update_cmds [OF lookup_reads(8) [OF w3(1)]] by simp
  ultimately show ?thesis using w4(2) w5(2) drop_update_cmds [OF w6] by fastforce
qed


end
