(* ===== verification/ConfigFile.thy ===== *)
theory ConfigFile
  imports ConfigGoal FwUpdate
begin

text \<open>
  Configurations in files (\<^verbatim>\<open>src/lib/pool.c\<close> from \<^verbatim>\<open>nvm_dump_config\<close> on, with
  \<^verbatim>\<open>write_dimm_config\<close> of \<^verbatim>\<open>platform_config_data.c\<close> and the tokenizer of
  \<^verbatim>\<open>x_str.c\<close>): one line of decimal numbers for each module, written, read back and turned into a
  goal. A file is its bytes under its name.
\<close>

abbreviation (input) NVM_MAX_CONFIG_LINE_LEN :: nat where "NVM_MAX_CONFIG_LINE_LEN \<equiv> 512"
abbreviation (input) CURRENT_CONFIG_LEN :: u32 where "CURRENT_CONFIG_LEN \<equiv> 56"
abbreviation (input) COMMA :: u8 where "COMMA \<equiv> 44"
abbreviation (input) NEWLINE :: u8 where "NEWLINE \<equiv> 10"
abbreviation (input) HASH :: u8 where "HASH \<equiv> 35"

record text_files =
  tf_exists :: "bytes \<Rightarrow> bool"
  tf_opens :: "bytes \<Rightarrow> bool"
  tf_locks :: "bytes \<Rightarrow> bool"
  tf_text :: "bytes \<Rightarrow> bytes"

section \<open>Writing\<close>

definition config_header :: bytes where
  "config_header = ascii (''#SocketID,DimmHandle,Capacity,MemorySize,AppDirect1Size,AppDirect1Format,'' @
     ''AppDirect1Mirrored,AppDirect1Index,AppDirect2Size,AppDirect2Format,AppDirect2Mirrored,AppDirect2Index'') @
     [NEWLINE]"

definition config_line_format :: "nat list \<Rightarrow> bytes" where
  "config_line_format ns = concat (map (\<lambda>n. decimal n @ [COMMA]) (butlast ns)) @ decimal (last ns) @ [NEWLINE]"

definition config_line :: "device_discovery \<Rightarrow> config_goal \<Rightarrow> bytes" where
  "config_line d g = config_line_format
     [unat (dev_socket_id d), unat (device_handle d), unat (dev_capacity d div BYTES_PER_GB),
      unat (memory_size g), unat (app_direct_1_size g),
      unat (interleave_struct_to_format (interleave (app_direct_1_settings g))),
      unat (mirrored (app_direct_1_settings g)), unat (app_direct_1_set_id g),
      unat (app_direct_2_size g),
      unat (interleave_struct_to_format (interleave (app_direct_2_settings g))),
      unat (mirrored (app_direct_2_settings g)), unat (app_direct_2_set_id g)]"

text \<open>Opening for writing empties the file, before the lock is tried.\<close>

definition write_dimm_config ::
  "text_files \<Rightarrow> device_discovery \<Rightarrow> config_goal \<Rightarrow> bytes \<Rightarrow> nat \<Rightarrow> bool \<Rightarrow> (int \<times> text_files) option" where
  "write_dimm_config fs d g path path_len appending = do {
     name \<leftarrow> file_name path path_len;
     if \<not> tf_opens fs name then Some (NVM_ERR_BADFILE, fs)
     else
       let old = (if appending then tf_text fs name else []) in
       if \<not> tf_locks fs name then Some (NVM_ERR_BADFILE, fs\<lparr>tf_text := (tf_text fs)(name := old)\<rparr>)
       else Some (NVM_SUCCESS, fs\<lparr>tf_text := (tf_text fs)
              (name := old @ (if appending then [] else config_header) @ config_line d g)\<rparr>)
   }"

definition nvm_dump_config ::
  "'hw adapter \<Rightarrow> bool \<Rightarrow> text_files \<Rightarrow> guid option \<Rightarrow> bytes option \<Rightarrow> nat \<Rightarrow> bool \<Rightarrow> ('hw, 'det) world \<Rightarrow>
   (int \<times> text_files \<times> ('hw, 'det) world) option" where
  "nvm_dump_config ad large fs guid path path_len appending w =
     (if \<not> permitted ad then Some (NVM_ERR_INVALIDPERMISSIONS, fs, w)
      else do {
        (rc, w) \<leftarrow> is_nvm_feature_supported ad get_device_capacity w;
        if rc \<noteq> NVM_SUCCESS then Some (rc, fs, w)
        else if guid = None \<or> path = None \<or> path_len \<ge> NVM_PATH_LEN \<or> path_len = 0
        then Some (NVM_ERR_INVALIDPARAMETER, fs, w)
        else do {
          (rc, d, w) \<leftarrow> exists_and_manageable ad guid True w;
          if rc \<noteq> NVM_SUCCESS then Some (rc, fs, w)
          else do {
            d \<leftarrow> d;
            (rc, pp, w) \<leftarrow> get_dimm_platform_config ad large (device_handle d) w;
            if rc \<noteq> NVM_SUCCESS then do { _ \<leftarrow> free_config pp; Some (rc, fs, w) }
            else case pp of
              Null_config \<Rightarrow> Some (NVM_ERR_BADDEVICECONFIG, fs, w)
            | Freed_config \<Rightarrow> None
            | Config cfg \<Rightarrow> do {
                current \<leftarrow> cast_current_config cfg;
                case current of
                  None \<Rightarrow> Some (NVM_ERR_NOTFOUND, fs, w)
                | Some t \<Rightarrow> do {
                    st \<leftarrow> rd16 t 36;
                    if st = 5 then Some (NVM_ERR_NOTFOUND, fs, w)
                    else do {
                      mapped \<leftarrow> rd64 t 40;
                      len \<leftarrow> table_length t;
                      (rc, goal, w) \<leftarrow> config_input_table_to_config_goal ad (the guid) t CURRENT_CONFIG_LEN len
                        (zero_goal\<lparr>memory_size := mapped div BYTES_PER_GB\<rparr>) w;
                      if rc \<noteq> NVM_SUCCESS then Some (rc, fs, w)
                      else do {
                        (rc, fs) \<leftarrow> write_dimm_config fs d goal (the path) path_len appending;
                        Some (rc, fs, w)
                      }
                    }
                  }
              }
          }
        }
      })"

section \<open>Reading a line\<close>

text \<open>\<^verbatim>\<open>fgets\<close>: up to the newline, and no more than the buffer less one.\<close>

fun fgets :: "nat \<Rightarrow> bytes \<Rightarrow> bytes \<times> bytes" where
  "fgets 0 s = ([], s)"
| "fgets (Suc n) [] = ([], [])"
| "fgets (Suc n) (c # s) =
     (if c = NEWLINE then ([c], s) else let (l, r) = fgets n s in (c # l, r))"

lemma fgets_rest: "fgets n s = (l, r) \<Longrightarrow> s = l @ r"
  by (induction n s arbitrary: l rule: fgets.induct) (auto simp: Let_def split: if_splits prod.splits)

lemma fgets_shorter: "fgets n s = (l, r) \<Longrightarrow> n \<noteq> 0 \<Longrightarrow> s \<noteq> [] \<Longrightarrow> length r < length s"
  by (cases n; cases s) (auto dest!: fgets_rest [THEN arg_cong [where f = length]] split: if_splits prod.splits)

text \<open>The token in front of the first delimiter, and what is behind that delimiter.\<close>

definition x_strtok :: "bytes option \<Rightarrow> bytes \<Rightarrow> bytes option \<times> bytes option" where
  "x_strtok input delims =
     (case input of
        None \<Rightarrow> (None, None)
      | Some s \<Rightarrow>
          (case dropWhile (\<lambda>c. c \<notin> set delims) s of
             [] \<Rightarrow> (Some s, None)
           | _ # remainder \<Rightarrow> (Some (takeWhile (\<lambda>c. c \<notin> set delims) s), Some remainder)))"

abbreviation (input) delim :: bytes where "delim \<equiv> [COMMA, NEWLINE]"

text \<open>One field: whether its text is badly formed, its value and the rest of the line. An empty field
  leaves the value as it was.\<close>

definition read_field ::
  "(bytes option \<Rightarrow> nat \<Rightarrow> bytes option \<Rightarrow> 'a \<Rightarrow> (nat \<times> bytes option \<times> 'a) option) \<Rightarrow> 'a \<Rightarrow> bytes option \<Rightarrow>
   (bool \<times> 'a \<times> bytes option) option" where
  "read_field parse old pline =
     (case x_strtok pline delim of
        (None, rest) \<Rightarrow> Some (True, old, rest)
      | (Some str, rest) \<Rightarrow> do {
          (n, _, v) \<leftarrow> parse (Some (str @ [0])) (length str) None old;
          Some (n \<noteq> length str, v, rest)
        })"

lemma strtok_shorter:
  "x_strtok pline ds = (Some str, rest) \<Longrightarrow>
    case_option 0 (\<lambda>s. Suc (length s)) rest < case_option 0 (\<lambda>s. Suc (length s)) pline"
proof -
  assume *: "x_strtok pline ds = (Some str, rest)"
  then obtain s where s: "pline = Some s" by (auto simp: x_strtok_def split: option.splits)
  have "length (dropWhile (\<lambda>c. c \<notin> set ds) s) \<le> length s" by (rule length_dropWhile_le)
  with * s show ?thesis by (auto simp: x_strtok_def split: list.splits)
qed

text \<open>What is left of the line behind the fields a later version may have added.\<close>

function skip_extra_fields :: "bytes option \<Rightarrow> bytes option option" where
  "skip_extra_fields pline =
     (case x_strtok pline delim of
        (None, rest) \<Rightarrow> Some rest
      | (Some str, rest) \<Rightarrow>
          (case s_strtous (Some (str @ [0])) (length str) None 0 of
             None \<Rightarrow> None
           | Some (n, _, _) \<Rightarrow> if n \<noteq> length str then Some rest else skip_extra_fields rest))"
  by pat_completeness auto

termination
  by (relation "measure (\<lambda>p. case_option 0 (\<lambda>s. Suc (length s)) p)") (auto dest: strtok_shorter [OF sym])

declare skip_extra_fields.simps [simp del]

record dimm_config =
  dc_goal :: config_goal
  dc_socket :: u16
  dc_handle :: u32
  dc_size_gb :: u64

text \<open>One trimmed line. The formats go into the goal only when the line is well formed, the numbers in
  any case.\<close>

definition parse_dimm_config :: "bytes \<Rightarrow> dimm_config \<Rightarrow> (int \<times> dimm_config) option" where
  "parse_dimm_config line c = do {
     let g = dc_goal c;
     let s1 = app_direct_1_settings g;
     let s2 = app_direct_2_settings g;
     (b1, socket, pl) \<leftarrow> read_field s_strtous (dc_socket c) (Some line);
     (b2, handle, pl) \<leftarrow> read_field s_strtoui (dc_handle c) pl;
     (b3, gb, pl) \<leftarrow> read_field s_strtoull (dc_size_gb c) pl;
     (b4, mem, pl) \<leftarrow> read_field s_strtoull (memory_size g) pl;
     (b5, size1, pl) \<leftarrow> read_field s_strtoull (app_direct_1_size g) pl;
     (b6, p1_format, pl) \<leftarrow> read_field s_strtoui 0 pl;
     (b7, mirrored1, pl) \<leftarrow> read_field s_digitstrtouc (mirrored s1) pl;
     (b8, id1, pl) \<leftarrow> read_field s_strtous (app_direct_1_set_id g) pl;
     (b9, size2, pl) \<leftarrow> read_field s_strtoull (app_direct_2_size g) pl;
     (b10, p2_format, pl) \<leftarrow> read_field s_strtoui 0 pl;
     (b11, mirrored2, pl) \<leftarrow> read_field s_digitstrtouc (mirrored s2) pl;
     (b12, id2, pl) \<leftarrow> read_field s_strtous (app_direct_2_set_id g) pl;
     pl \<leftarrow> skip_extra_fields pl;
     let ok = (\<not> (b1 \<or> b2 \<or> b3 \<or> b4 \<or> b5 \<or> b6 \<or> b7 \<or> b8 \<or> b9 \<or> b10 \<or> b11 \<or> b12) \<and> pl \<in> {None, Some []});
     let f1 = (if ok then interleave_format_to_struct p1_format (interleave s1) else interleave s1);
     let f2 = (if ok then interleave_format_to_struct p2_format (interleave s2) else interleave s2);
     Some (if ok then 1 else NVM_ERR_BADFILE,
       \<lparr>dc_goal = g\<lparr>memory_size := mem, app_direct_1_size := size1, app_direct_1_set_id := id1,
                    app_direct_1_settings := s1\<lparr>interleave := f1, mirrored := mirrored1\<rparr>,
                    app_direct_2_size := size2, app_direct_2_set_id := id2,
                    app_direct_2_settings := s2\<lparr>interleave := f2, mirrored := mirrored2\<rparr>\<rparr>,
        dc_socket = socket, dc_handle = handle, dc_size_gb = gb\<rparr>)
   }"

text \<open>Comment lines are skipped; the result is 0 at the end of the file. The line buffer is behind the line
  what it was before, here zero.\<close>

function read_dimm_config :: "bytes \<Rightarrow> dimm_config \<Rightarrow> (int \<times> dimm_config \<times> bytes) option" where
  "read_dimm_config file c =
     (if file = [] then Some (0, c, [])
      else
        let (l, rest) = fgets (NVM_MAX_CONFIG_LINE_LEN - 1) file in
        case s_strtrim_left (Some (l @ 0 # replicate (NVM_MAX_CONFIG_LINE_LEN - 1 - length l) 0)) NVM_MAX_CONFIG_LINE_LEN of
          Some (Some buf) \<Rightarrow>
            (let line = cstr buf in
             if line \<noteq> [] \<and> hd line = HASH then read_dimm_config rest c
             else do { (rc, c) \<leftarrow> parse_dimm_config line c; Some (rc, c, rest) })
        | _ \<Rightarrow> None)"
  by pat_completeness auto

termination
  by (relation "measure (\<lambda>(file, c). length file)") (auto intro: fgets_shorter [OF sym])

declare read_dimm_config.simps [simp del]

lemma read_dimm_config_shorter:
  "read_dimm_config f c = Some (rc, c', rest) \<Longrightarrow> f \<noteq> [] \<Longrightarrow> length rest < length f"
proof (induction f c rule: read_dimm_config.induct)
  case (1 f c)
  obtain l r where lr: "fgets 511 f = (l, r)" by force
  then have sh: "length r < length f" by (rule fgets_shorter) (use 1 in simp_all)
  from 1 lr obtain buf where buf: "s_strtrim_left (Some (l @ 0 # replicate (512 - 1 - length l) 0)) 512 = Some (Some buf)"
    by (auto simp: read_dimm_config.simps [of f] split: option.splits)
  show ?case
  proof (cases "cstr buf \<noteq> [] \<and> hd (cstr buf) = HASH")
    case True
    with 1(2,3) lr buf have n: "read_dimm_config r c = Some (rc, c', rest)"
      by (simp add: read_dimm_config.simps [of f])
    show ?thesis
    proof (cases "r = []")
      case True
      with n sh show ?thesis by (auto simp: read_dimm_config.simps [of "[]"])
    next
      case ne: False
      from 1(1) [OF 1(3) _ _ buf] lr True n ne have "length rest < length r" by fastforce
      with sh show ?thesis by simp
    qed
  next
    case False
    with 1(2,3) lr buf have "rest = r"
      by (auto simp: read_dimm_config.simps [of f] bind_eq_Some_conv)
    with sh show ?thesis by simp
  qed
qed

lemma read_dimm_config_next:
  assumes "read_dimm_config file c = Some (rc, c', rest)" "0 < rc"
  shows "length rest < length file"
proof -
  have "file \<noteq> []" using assms by (auto simp: read_dimm_config.simps)
  with assms(1) show ?thesis by (rule read_dimm_config_shorter)
qed

section \<open>Loading\<close>

text \<open>The GUID of the device goes into the next entry of the array; an unknown handle is passed over.\<close>

definition place_dimm ::
  "'hw adapter \<Rightarrow> u32 \<Rightarrow> guid list \<Rightarrow> nat \<Rightarrow> ('hw, 'det) world \<Rightarrow> (guid list \<times> nat \<times> ('hw, 'det) world) option" where
  "place_dimm ad handle gs n w = do {
     (rc, d, w) \<leftarrow> lookup_dev_handle ad handle w;
     if rc \<noteq> NVM_SUCCESS then Some (gs, n, w)
     else do {
       d \<leftarrow> d;
       if n < length gs then Some (gs[n := dev_guid d], Suc n, w) else None
     }
   }"

text \<open>The loop over the file, with the array and the count of each of the two sets.\<close>

function fill_goal_dimms ::
  "'hw adapter \<Rightarrow> config_goal \<Rightarrow> bytes \<Rightarrow> dimm_config \<Rightarrow> guid list \<times> nat \<Rightarrow> guid list \<times> nat \<Rightarrow>
   ('hw, 'det) world \<Rightarrow> (int \<times> (guid list \<times> nat) \<times> (guid list \<times> nat) \<times> ('hw, 'det) world) option" where
  "fill_goal_dimms ad goal file tmp (gs1, n1) (gs2, n2) w =
     (case read_dimm_config file tmp of
        None \<Rightarrow> None
      | Some (rc, tmp, rest) \<Rightarrow>
          if rc \<le> 0 then Some (rc, (gs1, n1), (gs2, n2), w)
          else
            (case (if app_direct_count goal > 0 \<and> app_direct_1_set_id goal = app_direct_1_set_id (dc_goal tmp)
                   then place_dimm ad (dc_handle tmp) gs1 n1 w else Some (gs1, n1, w)) of
               None \<Rightarrow> None
             | Some (gs1, n1, w) \<Rightarrow>
                 (case (if app_direct_count goal > 1 \<and> app_direct_2_set_id goal = app_direct_2_set_id (dc_goal tmp)
                        then place_dimm ad (dc_handle tmp) gs2 n2 w else Some (gs2, n2, w)) of
                    None \<Rightarrow> None
                  | Some (gs2, n2, w) \<Rightarrow> fill_goal_dimms ad goal rest tmp (gs1, n1) (gs2, n2) w)))"
  by pat_completeness auto

termination
  by (relation "measure (\<lambda>(ad, goal, file, x). length file)") (auto intro: read_dimm_config_next)

declare fill_goal_dimms.simps [simp del]

definition zero_config :: dimm_config where
  "zero_config = \<lparr>dc_goal = zero_goal, dc_socket = 0, dc_handle = 0, dc_size_gb = 0\<rparr>"

text \<open>A set that is not complete hides the code of a badly formed line.\<close>

definition fill_goal_dimm_guids ::
  "'hw adapter \<Rightarrow> bytes \<Rightarrow> config_goal \<Rightarrow> ('hw, 'det) world \<Rightarrow> (int \<times> config_goal \<times> ('hw, 'det) world) option" where
  "fill_goal_dimm_guids ad file goal w = do {
     let s1 = app_direct_1_settings goal;
     let s2 = app_direct_2_settings goal;
     (rc, (gs1, n1), (gs2, n2), w) \<leftarrow> fill_goal_dimms ad goal file zero_config (dimms s1, 0) (dimms s2, 0) w;
     let rc = (if app_direct_count goal > 0 \<and> n1 \<noteq> ways_value (ways (interleave s1))
               then NVM_ERR_BADDEVICECONFIG else rc);
     let rc = (if app_direct_count goal > 1 \<and> n2 \<noteq> ways_value (ways (interleave s2))
               then NVM_ERR_BADDEVICECONFIG else rc);
     Some (rc, goal\<lparr>app_direct_1_settings := s1\<lparr>dimms := gs1\<rparr>, app_direct_2_settings := s2\<lparr>dimms := gs2\<rparr>\<rparr>, w)
   }"

text \<open>The first line of the device with this handle.\<close>

function find_dimm_config :: "u32 \<Rightarrow> bytes \<Rightarrow> dimm_config \<Rightarrow> (int \<times> dimm_config) option" where
  "find_dimm_config handle file c =
     (case read_dimm_config file c of
        None \<Rightarrow> None
      | Some (rc, c, rest) \<Rightarrow>
          if rc \<le> 0 then Some (rc, c)
          else if dc_handle c = handle \<and> dc_socket c = handle_part handle 12 4 then Some (rc, c)
          else find_dimm_config handle rest c)"
  by pat_completeness auto

termination
  by (relation "measure (\<lambda>(h, file, c). length file)") (auto intro: read_dimm_config_next)

declare find_dimm_config.simps [simp del]

text \<open>A line for a larger device leaves the code of the discovery, success, without a goal.\<close>

definition load_config_line ::
  "'hw adapter \<Rightarrow> bool \<Rightarrow> bytes \<Rightarrow> guid \<Rightarrow> dimm_config \<Rightarrow> ('hw, 'det) world \<Rightarrow> (int \<times> ('hw, 'det) world) option" where
  "load_config_line ad large file g c w = do {
     (rc, d, w) \<leftarrow> nvm_get_device_discovery ad (Some g) True w;
     if rc \<noteq> NVM_SUCCESS then Some (rc, w)
     else do {
       d \<leftarrow> d;
       if \<not> dev_capacity d div BYTES_PER_GB \<ge> dc_size_gb c then Some (rc, w)
       else do {
         let goal = dc_goal c;
         let goal = (if app_direct_1_size goal \<noteq> 0 then goal\<lparr>app_direct_count := 1\<rparr> else goal);
         let goal = (if app_direct_2_size goal \<noteq> 0 then goal\<lparr>app_direct_count := 2\<rparr> else goal);
         (rc, goal, w) \<leftarrow> fill_goal_dimm_guids ad file goal w;
         if rc \<noteq> NVM_SUCCESS then Some (rc, w)
         else nvm_create_config_goal ad large (Some (dev_guid d)) (Some goal) w
       }
     }
   }"

definition nvm_load_config ::
  "'hw adapter \<Rightarrow> bool \<Rightarrow> text_files \<Rightarrow> guid option \<Rightarrow> bytes option \<Rightarrow> nat \<Rightarrow> ('hw, 'det) world \<Rightarrow>
   (int \<times> ('hw, 'det) world) option" where
  "nvm_load_config ad large fs guid path path_len w =
     (if \<not> permitted ad then Some (NVM_ERR_INVALIDPERMISSIONS, w)
      else do {
        (rc, w) \<leftarrow> is_nvm_feature_supported ad modify_device_capacity w;
        if rc \<noteq> NVM_SUCCESS then Some (rc, w)
        else if guid = None \<or> path = None \<or> path_len \<ge> NVM_PATH_LEN \<or> path_len = 0
        then Some (NVM_ERR_INVALIDPARAMETER, w)
        else do {
          name \<leftarrow> file_name (the path) path_len;
          if \<not> tf_exists fs name then Some (NVM_ERR_BADFILE, w)
          else do {
            (rc, d, w) \<leftarrow> exists_and_manageable ad guid True w;
            if rc \<noteq> NVM_SUCCESS then Some (rc, w)
            else if \<not> tf_opens fs name \<or> \<not> tf_locks fs name then Some (NVM_ERR_BADFILE, w)
            else do {
              d \<leftarrow> d;
              (rc, c) \<leftarrow> find_dimm_config (device_handle d) (tf_text fs name) zero_config;
              if rc > 0 then load_config_line ad large (tf_text fs name) (the guid) c w
              else Some (if rc = NVM_SUCCESS then NVM_ERR_BADDEVICECONFIG else rc, w)
            }
          }
        }
      })"

end
