(* ===== verification/ConfigFileFacts.thy ===== *)
theory ConfigFileFacts
  imports ConfigFile
begin

text \<open>
  Configuration files: every line written is read back, loading finds the line of its device, and what
  a file written by someone else can do.
\<close>

section \<open>What is written is read back\<close>

lemma skip_nondigits_append: "skip_nondigits s (length s) = Some i \<Longrightarrow> skip_nondigits (s @ x) (length s) = Some i"
  by (induction s arbitrary: i) auto

lemma take_digits_append:
  "take_digits s (length s) acc = Some r \<Longrightarrow> take_digits (s @ x) (length s) acc = Some r"
  "take_digits_ull s (length s) acc' = Some r' \<Longrightarrow> take_digits_ull (s @ x) (length s) acc' = Some r'"
  by (induction s arbitrary: acc r acc' r') (auto simp: Let_def split: if_splits)

lemma ull_step:
  fixes acc :: u64
  assumes "unat acc * 10 + d < 2 ^ 64"
  shows "acc \<le> acc * 10" "acc * 10 \<le> acc * 10 + of_nat d" "unat (acc * 10 + of_nat d) = unat acc * 10 + d"
proof -
  have "unat acc * unat (10 :: u64) < 2 ^ LENGTH(64)" using assms by simp
  then have m: "unat (acc * 10) = unat acc * 10" by (subst unat_mult_lem [THEN iffD1]) simp_all
  have d: "unat (of_nat d :: u64) = d" using assms by (simp add: unat_of_nat)
  have "unat (acc * 10) + unat (of_nat d :: u64) < 2 ^ LENGTH(64)" using assms m d by simp
  then have a: "unat (acc * 10 + of_nat d) = unat (acc * 10) + unat (of_nat d :: u64)"
    by (subst unat_add_lem [THEN iffD1]) simp_all
  show "acc \<le> acc * 10" "acc * 10 \<le> acc * 10 + of_nat d" "unat (acc * 10 + of_nat d) = unat acc * 10 + d"
    using m a d by (simp_all add: word_le_nat_alt)
qed

lemma take_digits_ull_all:
  assumes "list_all isdigit ds" "digits_value ds (unat acc) < 2 ^ 64"
  shows "take_digits_ull ds (length ds) acc = Some (length ds, of_nat (digits_value ds (unat acc)))"
  using assms
proof (induction ds arbitrary: acc)
  case Nil
  then show ?case by (simp add: digits_value_def)
next
  case (Cons c ds)
  let ?t = "unat acc * 10 + todigit c" and ?a = "acc * 10 + of_nat (todigit c)"
  have v: "digits_value (c # ds) (unat acc) = digits_value ds ?t" by (simp add: digits_value_def)
  with digits_value_mono [of ?t ds] Cons.prems(2) have t: "?t < 2 ^ 64" by linarith
  note s = ull_step [OF t]
  from Cons.IH [of ?a] Cons.prems v s(3)
  have "take_digits_ull ds (length ds) ?a = Some (length ds, of_nat (digits_value ds ?t))" by simp
  then show ?case using Cons.prems(1) v s(1,2) by (simp add: Let_def)
qed

definition prints_to :: "(bytes option \<Rightarrow> nat \<Rightarrow> bytes option \<Rightarrow> 'a \<Rightarrow> (nat \<times> bytes option \<times> 'a) option) \<Rightarrow> nat \<Rightarrow> 'a \<Rightarrow> bool" where
  "prints_to parse n v \<longleftrightarrow>
     (\<forall>x old. parse (Some (decimal n @ x)) (length (decimal n)) None old = Some (length (decimal n), None, v))"

lemma strto_prints:
  assumes "\<And>x. digits (decimal n @ x) (length (decimal n)) 0 = Some (length (decimal n), v)"
  shows "prints_to (strto digits) n v"
proof -
  have d: "list_all isdigit (decimal n)" "decimal n \<noteq> []" using decimal_digits by blast+
  have "skip_nondigits (decimal n @ x) (length (decimal n)) = Some 0" for x
    using d by (cases "decimal n") auto
  with assms d(2) show ?thesis by (simp add: prints_to_def strto_def)
qed

lemma decimal_prints:
  "prints_to s_digitstrtouc (unat a) a" "prints_to s_strtous (unat b) b"
  "prints_to s_strtoui (unat c) c" "prints_to s_strtoull (unat d) d"
proof -
  have w: "take_digits (decimal (unat z) @ x) (length (decimal (unat z))) 0 = Some (length (decimal (unat z)), z)"
    for z :: "'z::len word" and x
    using take_digits_all [of "decimal (unat z)" "[]" "0 :: 'z word"] decimal_digits [of "unat z"]
    by (intro take_digits_append(1)) (simp add: number_ends_def)
  have "take_digits_ull (decimal (unat d) @ x) (length (decimal (unat d))) 0 = Some (length (decimal (unat d)), d)" for x
    using take_digits_ull_all [of "decimal (unat d)" 0] decimal_digits [of "unat d"] unsigned_less [of d]
    by (intro take_digits_append(2)) simp
  with w show "prints_to s_digitstrtouc (unat a) a" "prints_to s_strtous (unat b) b"
    "prints_to s_strtoui (unat c) c" "prints_to s_strtoull (unat d) d"
    unfolding s_digitstrtouc_def s_strtous_def s_strtoui_def s_strtoull_def by (intro strto_prints; blast)+
qed

lemma strtok_decimal:
  assumes "c \<in> {COMMA, NEWLINE}"
  shows "x_strtok (Some (decimal n @ c # r)) delim = (Some (decimal n), Some r)"
proof -
  have "list_all isdigit (decimal n)" using decimal_digits by blast
  then have "\<forall>x \<in> set (decimal n). x \<notin> set delim" by (auto simp: list_all_iff isdigit_def)
  with assms show ?thesis by (auto simp: x_strtok_def dropWhile_append3 takeWhile_append2)
qed

lemma read_field_decimal:
  assumes "prints_to parse n v" "c \<in> {COMMA, NEWLINE}"
  shows "read_field parse old (Some (decimal n @ c # r)) = Some (False, v, Some r)"
  using assms strtok_decimal [OF assms(2)] by (simp add: read_field_def prints_to_def)

lemma skip_extra_end: "skip_extra_fields (Some []) = Some None"
  by (simp add: skip_extra_fields.simps [of "Some []"] skip_extra_fields.simps [of None] x_strtok_def
      s_strtous_def strto_def)


definition written_config :: "device_discovery \<Rightarrow> config_goal \<Rightarrow> dimm_config \<Rightarrow> dimm_config" where
  "written_config d g c =
     (let old = dc_goal c;
          set1 = app_direct_1_settings old;
          set2 = app_direct_2_settings old;
          once = (\<lambda>f. f\<lparr>recommended := if recommended f \<noteq> 0 then 1 else 0\<rparr>) in
      \<lparr>dc_goal = old\<lparr>memory_size := memory_size g,
          app_direct_1_size := app_direct_1_size g, app_direct_1_set_id := app_direct_1_set_id g,
          app_direct_1_settings := set1\<lparr>interleave := once (interleave (app_direct_1_settings g)),
                                        mirrored := mirrored (app_direct_1_settings g)\<rparr>,
          app_direct_2_size := app_direct_2_size g, app_direct_2_set_id := app_direct_2_set_id g,
          app_direct_2_settings := set2\<lparr>interleave := once (interleave (app_direct_2_settings g)),
                                        mirrored := mirrored (app_direct_2_settings g)\<rparr>\<rparr>,
       dc_socket = dev_socket_id d, dc_handle = device_handle d, dc_size_gb = dev_capacity d div BYTES_PER_GB\<rparr>)"

lemma parse_config_line: "parse_dimm_config (config_line d g) c = Some (1, written_config d g c)"
  by (simp add: parse_dimm_config_def config_line_def config_line_format_def Let_def
      read_field_decimal [OF decimal_prints(1)] read_field_decimal [OF decimal_prints(2)]
      read_field_decimal [OF decimal_prints(3)] read_field_decimal [OF decimal_prints(4)]
      skip_extra_end written_config_def interleave_format_roundtrip)

lemma fgets_line: "NEWLINE \<notin> set l \<Longrightarrow> length l < n \<Longrightarrow> fgets n (l @ NEWLINE # r) = (l @ [NEWLINE], r)"
proof (induction l arbitrary: n)
  case Nil
  then show ?case by (cases n) auto
next
  case (Cons c l)
  then show ?case by (cases n) auto
qed

lemma decimal_digits_length: "length (decimal n) \<le> k" if "n < 10 ^ k" "0 < k"
  using that
proof (induction n arbitrary: k rule: decimal.induct)
  case (1 n)
  show ?case
  proof (cases "n < 10")
    case True
    with 1 show ?thesis by (simp add: decimal.simps [of n])
  next
    case False
    obtain m where m: "k = Suc m" "0 < m" using 1 False by (cases k; cases "k - 1") auto
    with 1(2) have "n div 10 < 10 ^ m" by (simp add: less_mult_imp_div_less mult.commute)
    with 1(1) [OF False this m(2)] m show ?thesis using False by (simp add: decimal.simps [of n])
  qed
qed

lemma decimal_chars: "c \<in> set (decimal n) \<Longrightarrow> 48 \<le> c \<and> c \<le> 57"
  using decimal_digits [of n] by (auto simp: list_all_iff isdigit_def)

definition line_body :: "nat list \<Rightarrow> bytes" where
  "line_body ns = concat (map (\<lambda>n. decimal n @ [COMMA]) (butlast ns)) @ decimal (last ns)"

lemma line_body_chars: "c \<in> set (line_body ns) \<Longrightarrow> 44 \<le> c"
proof -
  assume "c \<in> set (line_body ns)"
  then have "c = COMMA \<or> (\<exists>n. c \<in> set (decimal n))" by (auto simp: line_body_def split: if_splits)
  then obtain n where "c = COMMA \<or> c \<in> set (decimal n)" by blast
  then show "44 \<le> c" using decimal_chars [of c n] by (auto intro: order_trans [of _ 48])
qed

lemma line_body_starts: "ns \<noteq> [] \<Longrightarrow> line_body ns \<noteq> [] \<and> isdigit (hd (line_body ns))"
proof -
  assume "ns \<noteq> []"
  then obtain n ms where ns: "ns = n # ms" by (cases ns) auto
  have "line_body ns = decimal n @ tl (COMMA # drop (Suc (length (decimal n))) (line_body ns)) \<or>
      (\<exists>r. line_body ns = decimal n @ r)"
    by (cases ms) (auto simp: ns line_body_def)
  then obtain r where "line_body ns = decimal n @ r" by blast
  then show ?thesis using decimal_digits [of n] by (cases "decimal n") auto
qed

lemma line_body_length:
  assumes "\<forall>n \<in> set ns. n < 2 ^ 64" "ns \<noteq> []"
  shows "length (line_body ns) \<le> 21 * length ns"
proof -
  have d: "length (decimal n) \<le> 20" if "n \<in> set ns" for n
    using decimal_digits_length [of n 20] assms(1) that by fastforce
  have "length (concat (map (\<lambda>n. decimal n @ [COMMA]) ms)) \<le> 21 * length ms" if "set ms \<subseteq> set ns" for ms
    using that d by (induction ms) force+
  from this [of "butlast ns"] have "length (concat (map (\<lambda>n. decimal n @ [COMMA]) (butlast ns))) \<le> 21 * (length ns - 1)"
    using in_set_butlastD by fastforce
  moreover have "length (decimal (last ns)) \<le> 20" using d assms(2) by simp
  moreover have "length ns \<ge> 1" using assms(2) by (cases ns) auto
  ultimately show ?thesis by (simp add: line_body_def)
qed

lemma config_line_body:
  "\<exists>b. config_line d g = b @ [NEWLINE] \<and> (\<forall>c \<in> set b. 44 \<le> c) \<and> b \<noteq> [] \<and> isdigit (hd b) \<and> length b < 511"
proof -
  have u: "unat a < 18446744073709551616" if "LENGTH('a) \<le> 64" for a :: "'a::len word"
  proof -
    have "unat a < 2 ^ LENGTH('a)" by (rule unsigned_less)
    also have "\<dots> \<le> 2 ^ 64" using that by (intro power_increasing) simp_all
    finally show ?thesis by simp
  qed
  obtain ns where ns: "config_line d g = config_line_format ns" "length ns = 12" "\<forall>n \<in> set ns. n < 2 ^ 64"
    by (rule that [OF config_line_def]) (simp_all add: u)
  then have "config_line d g = line_body ns @ [NEWLINE]" by (simp add: config_line_format_def line_body_def)
  with ns line_body_chars [of _ ns] line_body_starts [of ns] line_body_length [of ns] show ?thesis by fastforce
qed

text \<open>A line without a null, in front of its newline, as the parser gets it.\<close>

lemma read_line:
  assumes "\<forall>c \<in> set b. 32 < c" "b \<noteq> []" "length b < 511"
  shows "read_dimm_config (b @ NEWLINE # rest) c =
    (if hd b = HASH then read_dimm_config rest c
     else do { (rc, c) \<leftarrow> parse_dimm_config (b @ [NEWLINE]) c; Some (rc, c, rest) })"
proof -
  have "NEWLINE \<notin> set b" using assms(1) by fastforce
  then have f: "fgets 511 (b @ NEWLINE # rest) = (b @ [NEWLINE], rest)"
    using assms(3) by (rule fgets_line)
  have "0 \<notin> set (b @ [NEWLINE])" using assms(1) by fastforce
  from trim_left_cstr [OF this, of 512 "replicate (511 - length (b @ [NEWLINE])) 0"] assms(3) obtain s' where
    s': "s_strtrim_left (Some ((b @ [NEWLINE]) @ 0 # replicate (511 - length (b @ [NEWLINE])) 0)) 512 = Some (Some s')"
    and c: "cstr s' = dropWhile isspace (b @ [NEWLINE])" by fastforce
  have "\<not> isspace (hd b)" using assms(1,2) by (cases b) (auto simp: isspace_def word_less_nat_alt word_le_nat_alt)
  then have "cstr s' = b @ [NEWLINE]" using c assms(2) by (cases b) auto
  with f s' assms(2) show ?thesis by (simp add: read_dimm_config.simps [of "b @ NEWLINE # rest"])
qed

lemma read_written:
  "read_dimm_config (config_line d g @ rest) c = Some (1, written_config d g c, rest)"
proof -
    obtain b where b: "config_line d g = b @ [NEWLINE]" "\<forall>c \<in> set b. 44 \<le> c" "b \<noteq> []" "isdigit (hd b)" "length b < 511"
      using config_line_body [of d g] by blast
    have "\<forall>c \<in> set b. 32 < c" using b(2) by (auto intro: less_le_trans [of _ 44])
    moreover have "hd b \<noteq> HASH" using b(4) by (auto simp: isdigit_def)
    ultimately show ?thesis using read_line [of b rest c] b parse_config_line [of d g c] by simp
qed

lemma read_header: "read_dimm_config (config_header @ rest) c = read_dimm_config rest c"
proof -
  obtain h where h: "config_header = h @ [NEWLINE]" "\<forall>c \<in> set h. 32 < c" "h \<noteq> []" "hd h = HASH" "length h < 511"
    by (simp add: config_header_def ascii_def)
  from read_line [OF h(2,3,5), of rest c] h(4) show ?thesis
    unfolding h(1) by simp
qed

lemma written_twice: "written_config d g (written_config d' g' c) = written_config d g c"
  by (simp add: written_config_def Let_def)

lemma written_fields:
  "dc_handle (written_config d g c) = device_handle d" "dc_socket (written_config d g c) = dev_socket_id d"
  "app_direct_1_set_id (dc_goal (written_config d g c)) = app_direct_1_set_id g"
  "app_direct_2_set_id (dc_goal (written_config d g c)) = app_direct_2_set_id g"
  by (simp_all add: written_config_def Let_def)

lemma find_written:
  assumes "\<forall>(d, g) \<in> set es. dev_socket_id d = handle_part (device_handle d) 12 4"
  shows "\<exists>c'. find_dimm_config h (concat (map (\<lambda>(d, g). config_line d g) es)) c =
    Some (case find (\<lambda>(d, g). device_handle d = h) es of
            None \<Rightarrow> (0, c') | Some (d, g) \<Rightarrow> (1, written_config d g c))"
  using assms
proof (induction es arbitrary: c)
  case Nil
  then show ?case by (simp add: find_dimm_config.simps [of h "[]"] read_dimm_config.simps [of "[]"])
next
  case (Cons e es)
  obtain d g where e: "e = (d, g)" by force
  let ?rest = "concat (map (\<lambda>(d, g). config_line d g) es)"
  have r: "read_dimm_config (config_line d g @ ?rest) c = Some (1, written_config d g c, ?rest)"
    using read_written by blast
  have f: "find_dimm_config h (concat (map (\<lambda>(d, g). config_line d g) (e # es))) c =
      (if device_handle d = h then Some (1, written_config d g c)
       else find_dimm_config h ?rest (written_config d g c))"
    using r Cons.prems e by (auto simp: find_dimm_config.simps [of h "config_line d g @ ?rest"] written_fields)
  show ?case
  proof (cases "device_handle d = h")
    case True
    with f e show ?thesis by simp
  next
    case False
    from Cons.IH [of "written_config d g c"] Cons.prems obtain c' where
      "find_dimm_config h ?rest (written_config d g c) =
        Some (case find (\<lambda>(d, g). device_handle d = h) es of
            None \<Rightarrow> (0, c') | Some (d', g') \<Rightarrow> (1, written_config d' g' (written_config d g c)))" by auto
    with f e False show ?thesis
      by (intro exI [of _ c']) (simp add: written_twice split: option.split)
  qed
qed

text \<open>C38. What is dumped is what is loaded: in a file of dumped devices, in any order and number, loading
  finds the line of the device with the requested handle, with the socket, handle and size of the device
  and the sizes, set numbers, formats and mirroring of its goal (the recommended flags as truth values),
  and reports the end of the file when no device has the handle.\<close>

theorem dump_then_load:
  assumes "\<forall>(d, g) \<in> set es. dev_socket_id d = handle_part (device_handle d) 12 4"
  shows "\<exists>c'. find_dimm_config h (config_header @ concat (map (\<lambda>(d, g). config_line d g) es)) c =
    Some (case find (\<lambda>(d, g). device_handle d = h) es of
            None \<Rightarrow> (0, c') | Some (d, g) \<Rightarrow> (1, written_config d g c))"
proof -
  let ?lines = "concat (map (\<lambda>(d, g). config_line d g) es)"
  have "read_dimm_config (config_header @ ?lines) c = read_dimm_config ?lines c" by (rule read_header)
  then have "find_dimm_config h (config_header @ ?lines) c = find_dimm_config h ?lines c"
    by (simp add: find_dimm_config.simps [of h "config_header @ ?lines"] find_dimm_config.simps [of h ?lines])
  with find_written [OF assms] show ?thesis by simp
qed

section \<open>What a file can do\<close>

lemma fill_overruns:
  fixes P :: "('hw, 'det) world \<Rightarrow> bool"
  assumes "\<And>w. P w \<Longrightarrow> \<exists>d' w'. lookup_dev_handle ad (device_handle d) w = Some (NVM_SUCCESS, Some d', w') \<and> P w'"
    and "app_direct_count goal = 1" "app_direct_1_set_id goal = app_direct_1_set_id g"
    and "P w" "n1 \<le> length gs" "length gs < n1 + k"
  shows "fill_goal_dimms ad goal (concat (replicate k (config_line d g))) tmp (gs, n1) (gs2, n2) w = None"
  using assms(4-6)
proof (induction k arbitrary: tmp gs n1 w)
  case (Suc k)
  let ?rest = "concat (replicate k (config_line d g))"
  have r: "read_dimm_config (config_line d g @ ?rest) tmp = Some (1, written_config d g tmp, ?rest)"
    by (rule read_written)
  obtain d' w' where l: "lookup_dev_handle ad (device_handle d) w = Some (NVM_SUCCESS, Some d', w')" "P w'"
    using assms(1) [OF Suc.prems(1)] by blast
  show ?case
  proof (cases "n1 < length gs")
    case True
    with Suc.IH [OF l(2), of "Suc n1" "gs[n1 := dev_guid d']"] Suc.prems(3) r l(1) assms(2,3) show ?thesis
      by (simp add: fill_goal_dimms.simps [of ad goal "config_line d g @ ?rest"] written_fields place_dimm_def)
  next
    case False
    with r l(1) assms(2,3) show ?thesis
      by (simp add: fill_goal_dimms.simps [of ad goal "config_line d g @ ?rest"] written_fields place_dimm_def)
  qed
qed simp

text \<open>A file can make the library write behind the goal: with more lines for known devices of one
  interleave set than the array of the set has entries, filling in the devices has no defined result.\<close>

theorem config_file_overruns_goal:
  fixes w :: "('hw, 'det) world"
  assumes "\<And>w :: ('hw, 'det) world. P w \<Longrightarrow>
      \<exists>d' w'. lookup_dev_handle ad (device_handle d) w = Some (NVM_SUCCESS, Some d', w') \<and> P w'"
    and "P w" "app_direct_count goal = 1" "app_direct_1_set_id goal = app_direct_1_set_id g"
    and "length (dimms (app_direct_1_settings goal)) < k"
  shows "fill_goal_dimm_guids ad (config_header @ concat (replicate k (config_line d g))) goal w = None"
proof -
  let ?lines = "concat (replicate k (config_line d g))"
  have "fill_goal_dimms ad goal (config_header @ ?lines) c s1 s2 v = fill_goal_dimms ad goal ?lines c s1 s2 v"
    for c s1 s2 and v :: "('hw, 'det) world"
    using read_header [of ?lines c]
    by (cases s1; cases s2) (simp add: fill_goal_dimms.simps [of ad goal "config_header @ ?lines"] fill_goal_dimms.simps [of ad goal ?lines])
  then show ?thesis
    using fill_overruns [OF assms(1,3,4,2), of 0 "dimms (app_direct_1_settings goal)" k] assms(5)
    by (simp add: fill_goal_dimm_guids_def)
qed

text \<open>A field that holds no number is read as one: text without a digit is zero, and an empty field is
  whatever the line before it said.\<close>

theorem words_are_zero:
  assumes "t \<noteq> []" "\<forall>c \<in> set t. \<not> isdigit c \<and> c \<notin> {0, COMMA, NEWLINE}"
  shows "read_field s_strtous old (Some (t @ COMMA # r)) = Some (False, 0, Some r) \<and>
    read_field s_strtoui old' (Some (t @ COMMA # r)) = Some (False, 0, Some r) \<and>
    read_field s_strtoull old'' (Some (t @ COMMA # r)) = Some (False, 0, Some r) \<and>
    read_field s_strtous old (Some (COMMA # r)) = Some (False, old, Some r)"
proof -
  have "x_strtok (Some (t @ COMMA # r)) delim = (Some t, Some r)"
    using assms(2) by (auto simp: x_strtok_def dropWhile_append3 takeWhile_append2)
  moreover have "x_strtok (Some (COMMA # r)) delim = (Some [], Some r)" by (simp add: x_strtok_def)
  moreover have "skip_nondigits t (length t) = Some (length t)"
    using assms(2) by (induction t) auto
  then have "skip_nondigits (t @ [0]) (length t) = Some (length t)" by (rule skip_nondigits_append)
  ultimately show ?thesis using assms(1)
    by (simp add: read_field_def s_strtous_def s_strtoui_def s_strtoull_def strto_def)
qed

section \<open>Sample files\<close>

theorem words_are_zero_witness:
  "read_field s_strtoull 7 (Some (ascii ''none'' @ [COMMA, 49])) = Some (False, 0, Some [49])"
  using words_are_zero [of "ascii ''none''" 0 "[49]" 0 7] by (auto simp: ascii_def isdigit_def)

theorem config_file_overruns_goal_witness:
  "fill_goal_dimm_guids (adapter_with cap_firmware)
     (config_header @ concat (replicate 129 (config_line cap_device (zero_goal\<lparr>app_direct_1_set_id := 3\<rparr>))))
     (zero_goal\<lparr>app_direct_count := 1, app_direct_1_set_id := 3\<rparr>) cap_world = None"
proof (rule config_file_overruns_goal [where P = in_cap_ctx])
  show "\<exists>d' w'. lookup_dev_handle (adapter_with cap_firmware) (device_handle cap_device) w =
      Some (NVM_SUCCESS, Some d', w') \<and> in_cap_ctx w'" if "in_cap_ctx w" for w
  proof -
    have "device_handle cap_device = 1" by (simp add: cap_device_def sample_device_def)
    with cap_lookup [OF that] show ?thesis by auto
  qed
qed (simp_all add: cap_world_def zero_goal_def no_settings_def)

theorem dump_then_load_witness:
  "find_dimm_config 1 (config_header @ config_line cap_device (zero_goal\<lparr>memory_size := 2\<rparr>)) zero_config =
   Some (1, written_config cap_device (zero_goal\<lparr>memory_size := 2\<rparr>) zero_config)"
  using dump_then_load [of "[(cap_device, zero_goal\<lparr>memory_size := 2\<rparr>)]" 1 zero_config]
  by (simp add: cap_device_def sample_device_def handle_part_def)

end
