(* ===== verification/NsFacts.thy ===== *)
theory NsFacts
  imports NsManage ConfigFileFacts
begin

text \<open>
  Default names are new, adjusted block counts are aligned, a namespace that passes validation has room,
  and the smallest block size offered is the first of those supported.
\<close>

section \<open>Default names\<close>

lemma char_of_u8: "of_char (char_of (unat (a :: u8))) = a"
proof -
  have "(of_char (char_of (unat a)) :: u8) = of_nat (of_char (char_of (unat a)))"
    by (simp only: of_nat_of_char)
  also have "\<dots> = of_nat (unat a mod 256)" by (simp only: of_char_of)
  finally show ?thesis using unsigned_less [of a, where ?'a = nat] by simp
qed
lemma ascii_string_of [simp]: "ascii (string_of bs) = bs"
  by (induction bs) (simp_all add: ascii_def string_of_def char_of_u8)

lemma sint_small: "unat (x :: u32) < 2 ^ 31 \<Longrightarrow> sint x = int (unat x)"
proof -
  assume x: "unat x < 2 ^ 31"
  have u: "uint x = int (unat x)" by simp
  have "uint x < 2 ^ 31" unfolding u using x by (metis of_nat_less_iff of_nat_numeral of_nat_power)
  moreover have "- (2 ^ 31) \<le> uint x" by (rule order_trans [OF _ uint_nonnegative]) simp
  ultimately have "sint x = uint x" unfolding sint_uint by (intro signed_take_bit_int_eq_self) (simp_all)
  then show ?thesis using u by (rule trans)
qed

lemma default_name_id_best:
  assumes "default_name_id name best = Some b"
  shows "best \<le> b" "\<exists>i. default_name_id name 0 = Some i \<and> i \<le> b"
proof (atomize (full), cases "take (length NVM_DEFAULT_NAMESPACE_NAME) name = NVM_DEFAULT_NAMESPACE_NAME")
  case True
  with assms obtain p q id where id: "s_strtoui (Some (ascii name @ [0])) (length name) None 0 = Some (p, q, id)"
    "b = (if id > best then id else best)"
    by (auto simp: default_name_id_def bind_eq_Some_conv)
  then have "default_name_id name 0 = Some (if id > 0 then id else 0)" using True by (simp add: default_name_id_def)
  then show "best \<le> b \<and> (\<exists>i. default_name_id name 0 = Some i \<and> i \<le> b)" using id(2) by auto
qed (use assms in \<open>simp add: default_name_id_def\<close>)

lemma strtoui_prefix:
  assumes "list_all (\<lambda>c. \<not> isdigit c \<and> c \<noteq> 0) pre" "n < 2 ^ 32"
  shows "s_strtoui (Some (pre @ decimal n @ x)) (length pre + length (decimal n)) e v =
    Some (length pre + length (decimal n), None, of_nat n)"
proof -
  have d: "list_all isdigit (decimal n)" "digits_value (decimal n) 0 = n" "decimal n \<noteq> []"
    using decimal_digits by blast+
  have "skip_nondigits ((pre @ decimal n) @ x) (length (pre @ decimal n)) = Some (length pre)"
    using skip_nondigits_all [OF assms(1) d(1,3), of "[]"] by (intro skip_nondigits_append) simp
  moreover have "take_digits (decimal n @ x) (length (decimal n)) 0 = Some (length (decimal n), of_nat n :: u32)"
    using take_digits_all [OF d(1), of "[]" "0 :: u32"] assms(2) d(2)
    by (intro take_digits_append(1)) (simp add: number_ends_def)
  ultimately show ?thesis using d(3) by (simp add: s_strtoui_def strto_def)
qed

lemma default_prefix: "list_all (\<lambda>c. \<not> isdigit c \<and> c \<noteq> 0) (ascii NVM_DEFAULT_NAMESPACE_NAME)"
  "length (ascii NVM_DEFAULT_NAMESPACE_NAME) = length NVM_DEFAULT_NAMESPACE_NAME"
  by (simp_all add: NVM_DEFAULT_NAMESPACE_NAME_def ascii_def isdigit_def)

lemma default_name_id_default:
  assumes "n < 2 ^ 32"
  shows "default_name_id (NVM_DEFAULT_NAMESPACE_NAME @ string_of (decimal n)) best =
    Some (if of_nat n > best then of_nat n else best)"
proof -
  let ?name = "NVM_DEFAULT_NAMESPACE_NAME @ string_of (decimal n)"
  have a: "ascii ?name @ [0] = ascii NVM_DEFAULT_NAMESPACE_NAME @ decimal n @ [0]"
    using ascii_string_of [of "decimal n"] by (simp add: ascii_def)
  have l: "length ?name = length (ascii NVM_DEFAULT_NAMESPACE_NAME) + length (decimal n)"
    by (simp add: default_prefix(2) string_of_def)
  show ?thesis
    unfolding default_name_id_def a l
    using strtoui_prefix [OF default_prefix(1) assms, of "[0]" None 0] by simp
qed

lemma max_unique_id_upper:
  "max_unique_id nss best = Some m \<Longrightarrow> best \<le> m \<and>
    (\<forall>ns \<in> set nss. \<exists>i. default_name_id (nsd_friendly_name ns) 0 = Some i \<and> i \<le> m)"
proof (induction nss arbitrary: best)
  case (Cons ns nss)
  then obtain b where b: "default_name_id (nsd_friendly_name ns) best = Some b" "max_unique_id nss b = Some m"
    by (auto simp: bind_eq_Some_conv)
  show ?case using Cons.IH [OF b(2)] default_name_id_best [OF b(1)] by (auto intro: order_trans)
qed simp



section \<open>Adjusted block counts\<close>

lemma unat_ucast_u32:
  fixes x :: u64
  assumes "unat x < 2 ^ 32"
  shows "unat (ucast x :: u32) = unat x"
proof -
  have "unat (ucast x :: u32) = take_bit 32 (unat x)" by transfer (simp add: take_bit_nat_eq nat_take_bit_eq)
  then show ?thesis using assms by (simp add: take_bit_nat_eq_self)
qed

lemma real_block_size_bounds:
  assumes "0 < bs"
  shows "unat (get_real_block_size (ucast (bs :: u16))) = 1 \<or>
    (64 dvd unat (get_real_block_size (ucast bs)) \<and> 0 < unat (get_real_block_size (ucast bs)) \<and>
     unat (get_real_block_size (ucast bs)) \<le> 65536)"
proof (cases "(ucast bs :: u32) = 1")
  case False
  let ?r = "round_up (ucast (ucast bs :: u32)) CACHE_LINE_SIZE"
  have u: "unat (ucast (ucast bs :: u32) :: u64) = unat bs" by (simp add: unat_ucast_up)
  have b: "0 < unat bs" "unat bs < 65536" using assms unsigned_less [of bs] by (simp_all add: word_less_nat_alt)
  have r: "64 dvd unat ?r" "unat bs \<le> unat ?r" "unat ?r < unat bs + 64"
    using round_up_dvd [of CACHE_LINE_SIZE "ucast (ucast bs :: u32)"] u b by simp_all
  then obtain q where q: "unat ?r = 64 * q" by (auto elim: dvdE)
  with r(3) b(2) have "q < 1025" by linarith
  with q have "unat ?r \<le> 65536" by simp
  moreover from this have "unat (ucast ?r :: u32) = unat ?r" by (intro unat_ucast_u32) simp
  ultimately show ?thesis using False r b by (simp add: get_real_block_size_def)
qed (simp add: get_real_block_size_def)

lemma unat_ucast_u8: "unat (ucast (x :: u8) :: u32) = unat x"
  by transfer (simp add: take_bit_take_bit)

lemma alignment_size_value:
  assumes "r = 1 \<or> (64 dvd r \<and> r \<le> 65536)" "0 < r" "r = unat b" "0 < nways"
  shows "\<exists>a. get_alignment_size b (ucast (nways :: u8)) = Some a \<and> unat a = lcm r (4096 * unat nways) \<and> a \<noteq> 0"
proof -
  have w: "0 < unat nways" "unat nways < 256" using assms(4) unsigned_less [of nways] by (simp_all add: word_less_nat_alt)
  have p: "unat (PAGE_SIZE_x86 * ucast nways) = 4096 * unat nways"
    using w by (simp add: unat_word_ariths unat_ucast_u8)
  have "lcm r (4096 * unat nways) < 2 ^ 32"
  proof (cases "r = 1")
    case True
    then show ?thesis using w by simp
  next
    case False
    then have g: "64 dvd gcd r (4096 * unat nways)" and r: "r \<le> 65536" using assms(1) by auto
    then have "64 \<le> gcd r (4096 * unat nways)" using assms(2) by (intro dvd_imp_le) auto
    then have "64 * lcm r (4096 * unat nways) \<le> gcd r (4096 * unat nways) * lcm r (4096 * unat nways)"
      by (rule mult_le_mono1)
    also have "\<dots> = r * (4096 * unat nways)" by (rule prod_gcd_lcm_nat [symmetric])
    also have "\<dots> \<le> 65536 * (4096 * 255)" using r w by (intro mult_le_mono) auto
    finally show ?thesis by simp
  qed
  moreover have "b \<noteq> 0" using assms(2,3) by (auto simp: unat_eq_0)
  ultimately obtain a where "get_alignment_size b (ucast nways) = Some a" "unat a = lcm r (4096 * unat nways)"
    using lcm_value [of b "PAGE_SIZE_x86 * ucast nways"] p assms(3) by (auto simp: get_alignment_size_def)
  moreover from this(2) have "a \<noteq> 0" using assms(2) w by (auto simp: lcm_eq_0_iff)
  ultimately show ?thesis by blast
qed

text \<open>C22. The adjusted block count is the least, from the requested one on, whose capacity is a multiple
  of the alignment of a namespace on that many ways: it is less than one alignment above what was asked
  for.\<close>

theorem adjusted_count_is_aligned:
  fixes n :: u64 and bs :: u16 and nways :: u8
  defines "r \<equiv> unat (get_real_block_size (ucast bs))"
  assumes "0 < bs" "0 < nways" "unat n * r + lcm r (4096 * unat nways) < 2 ^ 64"
  shows "\<exists>m. adjust_namespace_block_count n bs nways = Some m \<and> lcm r (4096 * unat nways) dvd unat m * r \<and>
    unat n \<le> unat m \<and> (unat m - unat n) * r < lcm r (4096 * unat nways)"
proof -
  let ?b = "get_real_block_size (ucast bs)"
  have r: "r = 1 \<or> (64 dvd r \<and> r \<le> 65536)" "0 < r"
    using real_block_size_bounds [OF assms(2)] unfolding r_def by auto
  have rb: "r = unat ?b" by (simp only: r_def)
  obtain a where a: "get_alignment_size ?b (ucast nways) = Some a" "unat a = lcm r (4096 * unat nways)" "a \<noteq> 0"
    using alignment_size_value [OF r rb assms(3)] by blast
  have ub: "unat (ucast ?b :: u64) = r" "unat (ucast a :: u64) = unat a" by (simp_all only: rb unat_ucast_up)
  have nz: "ucast a \<noteq> (0 :: u64)" "?b \<noteq> 0" using ub a(3) r(2) rb by (auto simp: unat_eq_0)
  have "unat n * unat (ucast ?b :: u64) < 2 ^ LENGTH(64)" unfolding ub(1) using assms(4) by simp
  then have c: "unat (n * ucast ?b) = unat n * r" using ub(1) by (simp only: unat_mult_lem [THEN iffD1])
  let ?c = "round_up (n * ucast ?b) (ucast a)"
  have up: "unat a dvd unat ?c" "unat n * r \<le> unat ?c" "unat ?c < unat n * r + unat a"
    using round_up_dvd [OF nz(1), of "n * ucast ?b"] assms(4) unfolding c ub(2) a(2) by blast+
  have "r dvd unat ?c" by (rule dvd_trans [OF _ up(1)]) (simp only: a(2) dvd_lcm1)
  then have m: "unat (?c div ucast ?b) * r = unat ?c" by (simp add: unat_div ub)
  have "adjust_namespace_block_count n bs nways = Some (?c div ucast ?b)"
    using a(1) nz a(3) by (simp add: adjust_namespace_block_count_def Let_def)
  moreover have "unat n \<le> unat (?c div ucast ?b)" using up(2) r(2) unfolding m [symmetric] by simp
  moreover have "(unat (?c div ucast ?b) - unat n) * r < lcm r (4096 * unat nways)"
    using up(2,3) m a(2) unfolding diff_mult_distrib by linarith
  moreover have "lcm r (4096 * unat nways) dvd unat (?c div ucast ?b) * r" using up(1) unfolding m a(2) .
  ultimately show ?thesis by (intro exI [of _ "?c div ucast ?b"] conjI)
qed

theorem adjusted_count_is_aligned_witness:
  "\<exists>m. adjust_namespace_block_count 1 4096 1 = Some m \<and> 4096 dvd unat m * 4096 \<and> 1 \<le> unat m \<and>
    (unat m - 1) * 4096 < 4096"
proof -
  have "get_real_block_size (ucast (4096 :: u16)) = 4096"
    by (simp add: get_real_block_size_def round_up_def)
  then show ?thesis using adjusted_count_is_aligned [of 4096 1 1] by simp
qed

text \<open>The smallest block size offered is the first of the sizes the software supports, whatever the
  others are.\<close>

theorem smallest_block_size_is_first:
  assumes "get_smallest_block_size caps = Some s" "0 < block_size_count (sw_capabilities caps)"
  shows "s = ucast (block_sizes (sw_capabilities caps) ! 0)"
proof -
  let ?first = "ucast (block_sizes (sw_capabilities caps) ! 0) :: u64"
  have "fold (\<lambda>i smallest. if ucast (block_sizes (sw_capabilities caps) ! i) < smallest then ?first else smallest)
      is ?first = ?first" for "is"
    by (induction "is") auto
  with assms show ?thesis
    by (auto simp: get_smallest_block_size_def Let_def word_gt_0 unat_eq_0 split: if_splits)
qed

theorem smallest_block_size_is_first_witness:
  "get_smallest_block_size (cap_caps\<lparr>sw_capabilities := (sw_capabilities cap_caps)
     \<lparr>block_size_count := 2, block_sizes := [4096, 512]\<rparr>\<rparr>) = Some 4096"
proof -
  let ?caps = "cap_caps\<lparr>sw_capabilities := (sw_capabilities cap_caps)\<lparr>block_size_count := 2, block_sizes := [4096, 512]\<rparr>\<rparr>"
  obtain s where "get_smallest_block_size ?caps = Some s" by (simp add: get_smallest_block_size_def Let_def)
  with smallest_block_size_is_first [of ?caps s] show ?thesis by simp
qed

section \<open>Room for a new namespace\<close>

lemmas discovery_reads [reads] = discovery_steps [THEN lookup_is_read]

lemma security_reads [reads]:
  "ilset_security ad f gs flags w = Some (fl, w') \<Longrightarrow> read_steps ad w w'"
proof (induction gs arbitrary: flags w)
  case (Cons g gs)
  obtain locks erase where "flags = (locks, erase)" by (cases flags)
  with Cons show ?case
    by (auto simp: bind_eq_Some_conv Let_def split: if_splits dest!: discovery_reads intro: read_steps_trans)
qed simp

lemma criteria_reads [reads]:
  "interleave_meets_security_criteria ad s f w = Some (met, w') \<Longrightarrow> read_steps ad w w'"
  by (auto simp: interleave_meets_security_criteria_def bind_eq_Some_conv split: if_splits dest!: security_reads)

lemma storage_on_dimm_reads [reads]:
  "get_largest_storage_namespace_on_a_dimm ad p g w = Some (rc, sz, w') \<Longrightarrow> read_steps ad w w'"
  by (auto simp: get_largest_storage_namespace_on_a_dimm_def bind_eq_Some_conv Let_def
      split: if_splits prod.splits option.splits dest!: lookup_reads)

lemma storage_of_dimms_reads [reads]:
  "largest_storage_of_dimms ad p gs s w = Some (rc, sz, w') \<Longrightarrow> read_steps ad w w'"
proof (induction gs arbitrary: s w)
  case (Cons g gs)
  then show ?case
    by (auto simp: bind_eq_Some_conv split: if_splits dest!: storage_on_dimm_reads intro: read_steps_trans)
qed simp

lemma ranges_reads [reads]:
  "get_pool_supported_size_ranges ad p caps w = Some (rc, r, w') \<Longrightarrow> read_steps ad w w'"
  by (auto simp: get_pool_supported_size_ranges_def get_largest_storage_namespace_def bind_eq_Some_conv Let_def
      split: if_splits dest!: storage_of_dimms_reads)

lemma search_ilsets_reads [reads]:
  "search_ilsets ad caps st fmt allow ss r w = Some (r', w') \<Longrightarrow> read_steps ad w w'"
proof (induction ss arbitrary: r w)
  case (Cons s ss)
  then show ?case
    by (auto simp: bind_eq_Some_conv Let_def split: if_splits dest!: criteria_reads intro: read_steps_trans)
qed simp

definition set_has_room ::
  "'hw adapter \<Rightarrow> 'hw \<Rightarrow> nvm_capabilities \<Rightarrow> u16 \<Rightarrow> interleave_format option \<Rightarrow> u64 \<Rightarrow> interleave_set \<Rightarrow> bool" where
  "set_has_room ad h caps bs fmt capacity s \<longleftrightarrow>
     interleave_set_has_namespace ad h (driver_id s) = Some False \<and>
     get_minimum_ns_size (ways_of s) (min_namespace_size (sw_capabilities caps)) \<le> capacity \<and>
     capacity \<le> available_size s \<and> check_namespace_alignment capacity (ucast bs) (ways_of s) = Some True \<and>
     interleave_meets_app_direct_settings s fmt"

lemma search_ilsets_stops: "found_ilset r \<noteq> None \<Longrightarrow> search_ilsets ad caps st fmt allow ss r w = Some (r, w)"
  by (cases ss) auto

lemma search_ilsets_found:
  assumes "search_ilsets ad caps st fmt allow ss r w = Some (r', w')" "reads_keep ad"
    and "found_ilset r = None" "found_ilset r' = Some i"
  shows "\<exists>s \<in> set ss. i = driver_id s \<and>
    set_has_room ad (w_hw w) caps (ncs_block_size st) fmt (new_block_count r' * ucast (ncs_block_size st)) s"
  using assms
proof (induction ss arbitrary: r w)
  case (Cons s ss)
  show ?case
  proof (cases "\<exists>s' \<in> set ss. i = driver_id s' \<and> set_has_room ad (w_hw w) caps (ncs_block_size st) fmt
      (new_block_count r' * ucast (ncs_block_size st)) s'")
    case False
    from Cons.prems(1,3) obtain taken where
      t: "interleave_set_has_namespace ad (w_hw w) (driver_id s) = Some taken" by (auto simp: bind_eq_Some_conv)
    have rest: "\<not> search_ilsets ad caps st fmt allow ss q v = Some (r', w')"
      if "found_ilset q = None" "w_hw v = w_hw w" for q and v :: "('a, 'b) world"
      using Cons.IH [of q v] Cons.prems(2,4) False that by auto
    have nt: "\<not> taken" using Cons.prems(1,3) t rest by auto
    let ?sz = "ncs_block_size st" and ?w = "ways_of s"
    from Cons.prems(1,3) t nt obtain n where
      n: "adjust_namespace_block_count_if_allowed (ncs_block_count st) ?sz ?w allow = Some n"
      by (auto simp: bind_eq_Some_conv)
    let ?cap = "n * ucast ?sz"
    have fit: "?cap \<le> available_size s \<and>
        get_minimum_ns_size ?w (min_namespace_size (sw_capabilities caps)) \<le> ?cap"
      using Cons.prems(1,3) t nt n rest [of "r\<lparr>new_block_count := n\<rparr>" w] by (auto simp: Let_def split: if_splits)
    with Cons.prems(1,3) t nt n obtain sec w1 al where
      m: "interleave_meets_security_criteria ad s (ncs_security_features st) w = Some (sec, w1)"
      and al: "check_namespace_alignment ?cap (ucast ?sz) ?w = Some al"
      and go: "search_ilsets ad caps st fmt allow ss
        (r\<lparr>new_block_count := n, size_good := True, security_met := security_met r \<or> sec,
           format_met := format_met r \<or> interleave_meets_app_direct_settings s fmt,
           alignment_met := alignment_met r \<or> al,
           found_ilset := if sec \<and> interleave_meets_app_direct_settings s fmt \<and> al then Some (driver_id s) else None\<rparr>) w1 =
        Some (r', w')"
      by (auto simp: bind_eq_Some_conv Let_def)
    have "w_hw w1 = w_hw w" using read_steps_hw [OF criteria_reads [OF m] Cons.prems(2)] .
    with rest [of _ w1] go have yes: "sec" "interleave_meets_app_direct_settings s fmt" "al" by (auto split: if_splits)
    with go search_ilsets_stops have "new_block_count r' = n" "found_ilset r' = Some (driver_id s)"
      by (auto simp: search_ilsets_stops)
    with yes fit al t nt Cons.prems(4) show ?thesis by (auto simp: set_has_room_def)
  qed auto
qed auto

text \<open>C20. An App Direct namespace that passes validation is placed on an interleave set of the pool that
  has no namespace, has the capacity free, meets the interleave format, and aligns the capacity to a page
  on each of its devices; the capacity is at least a gigabyte for each device. Validating changes no
  device.\<close>

theorem app_direct_namespace_fits:
  fixes w w' :: "('hw, 'det) world"
  assumes "reads_keep ad" "ncs_type st = NAMESPACE_TYPE_APP_DIRECT"
    and "validate_namespace_create_settings ad p st fmt allow w = Some (NVM_SUCCESS, st', target, w')"
  shows "(\<exists>s \<in> set (ilsets p). target = Some (driver_id s) \<and>
           interleave_set_has_namespace ad (w_hw w) (driver_id s) = Some False \<and>
           ncs_block_count st' \<le> available_size s \<and> BYTES_PER_GB * ucast (ways_of s) \<le> ncs_block_count st' \<and>
           4096 * unat (ways_of s) dvd unat (ncs_block_count st') \<and> interleave_meets_app_direct_settings s fmt) \<and>
         st' = st\<lparr>ncs_block_count := ncs_block_count st'\<rparr> \<and> w_hw w' = w_hw w"
proof -
  from assms(2,3) obtain caps w1 r w2 where c: "nvm_get_nvm_capabilities ad True w = Some (NVM_SUCCESS, Some caps, w1)"
    and r: "get_pool_supported_size_ranges ad p caps w1 = Some (NVM_SUCCESS, r, w2)"
    and v: "validate_ns_size_for_creation p st caps r = Some NVM_SUCCESS"
    and f: "find_interleave_with_capacity ad p caps st fmt allow w2 = Some (NVM_SUCCESS, st', target, w')"
    by (auto simp: validate_namespace_create_settings_def find_id_for_ns_creation_def bind_eq_Some_conv split: if_splits)
  have bs: "ncs_block_size st = 1"
    using v assms(2) by (auto simp: validate_ns_size_for_creation_def bind_eq_Some_conv Let_def split: if_splits)
  let ?r0 = "\<lparr>security_met = False, format_met = False, alignment_met = False, size_good = False,
         found_ilset = None, new_block_count = 0\<rparr> :: ns_search"
  from f obtain q where q: "search_ilsets ad caps st fmt allow (ilsets p) ?r0 w2 = Some (q, w')"
      "search_code q = NVM_SUCCESS" "target = found_ilset q"
      "st' = (if found_ilset q \<noteq> None then st\<lparr>ncs_block_count := new_block_count q\<rparr> else st)"
    by (auto simp: find_interleave_with_capacity_def bind_eq_Some_conv)
  then obtain i where i: "found_ilset q = Some i" by (auto simp: search_code_def split: if_splits)
  have h: "w_hw w2 = w_hw w" "w_hw w' = w_hw w"
    using read_steps_hw [OF _ assms(1)] capabilities_steps [OF c, THEN lookup_is_read] ranges_reads [OF r]
      search_ilsets_reads [OF q(1)] by metis+
  from search_ilsets_found [OF q(1) assms(1) _ i] h(1) bs obtain s where s: "s \<in> set (ilsets p)" "i = driver_id s"
    "set_has_room ad (w_hw w) caps 1 fmt (new_block_count q) s" by auto
  let ?n = "new_block_count q"
  have al: "check_namespace_alignment ?n 1 (ways_of s) = Some True" using s(3) by (simp add: set_has_room_def)
  have "0 < ways_of s"
  proof (rule ccontr)
    assume "\<not> 0 < ways_of s"
    then have "ways_of s = 0" by (simp add: word_gt_0)
    with al show False
      by (auto simp: check_namespace_alignment_def get_alignment_size_def get_lowest_common_multiple_def Let_def
          bind_eq_Some_conv split: if_splits)
  qed
  from alignment_size_value [of 1 1, OF _ _ _ this] obtain a where
    a: "get_alignment_size 1 (ucast (ways_of s)) = Some a" "unat a = 4096 * unat (ways_of s)" by auto
  with al have "?n mod ucast a = 0" by (auto simp: check_namespace_alignment_def split: if_splits)
  then have "unat ?n mod unat (ucast a :: u64) = 0" by (metis unat_mod_distrib unsigned_0)
  then have dvd: "4096 * unat (ways_of s) dvd unat ?n" using a(2) by (simp add: unat_ucast_up mod_0_imp_dvd)
  have min: "BYTES_PER_GB * ucast (ways_of s) \<le> ?n"
    using s(3) by (auto simp: set_has_room_def get_minimum_ns_size_def Let_def split: if_splits)
  show ?thesis
    using s q(3,4) i dvd min h(2) by (auto simp: set_has_room_def)
qed

theorem app_direct_namespace_fits_witness:
  "\<exists>st' target w'. validate_namespace_create_settings (adapter_with cap_firmware)
      (zero_pool\<lparr>pl_type := POOL_TYPE_PERSISTENT_MIRROR, free_capacity := 2 ^ 35, ilsets := [one_device_set]\<rparr>)
      \<lparr>ncs_friendly_name = [], ncs_block_size = 1, ncs_block_count = 2 ^ 30 + 1, ncs_type = NAMESPACE_TYPE_APP_DIRECT,
       ncs_enabled = NAMESPACE_ENABLE_STATE_ENABLED, ncs_btt = False, ncs_security_features = no_security\<rparr>
      None True cap_world = Some (NVM_SUCCESS, st', target, w') \<and>
    target = Some 1 \<and> 4096 dvd unat (ncs_block_count st') \<and> ncs_block_count st' \<le> 2 ^ 35 \<and> w_hw w' = w_hw cap_world"
proof -
  let ?ad = "adapter_with cap_firmware"
  let ?p = "zero_pool\<lparr>pl_type := POOL_TYPE_PERSISTENT_MIRROR, free_capacity := 2 ^ 35, ilsets := [one_device_set]\<rparr>"
  let ?st = "\<lparr>ncs_friendly_name = [], ncs_block_size = 1, ncs_block_count = 2 ^ 30 + 1, ncs_type = NAMESPACE_TYPE_APP_DIRECT,
       ncs_enabled = NAMESPACE_ENABLE_STATE_ENABLED, ncs_btt = False, ncs_security_features = no_security\<rparr>"
  obtain w1 where c: "nvm_get_nvm_capabilities ?ad True cap_world = Some (NVM_SUCCESS, Some cap_caps, w1)"
    by (rule cap_query)
  have set: "is_dimms one_device_set = [dev_guid cap_device]" "available_size one_device_set = 2 ^ 35"
    "driver_id one_device_set = 1" "ways_of one_device_set = 1"
    by (simp_all add: one_device_set_def set_of_nvm_def one_set_def ways_of_def)
  have free: "interleave_set_has_namespace ?ad h i = Some False" for h i
    by (simp add: interleave_set_has_namespace_def adapter_with_def empty_ns_driver_def)
  have caps: "interleave_alignment_size (pc_app_direct_mode (platform_capabilities cap_caps)) = 0"
    "block_size_count (sw_capabilities cap_caps) = 0" "min_namespace_size (sw_capabilities cap_caps) = 0"
    by (simp_all add: cap_caps_def zero_capabilities_def zero_memory_capabilities_def)
  have r: "\<exists>r. get_pool_supported_size_ranges ?ad ?p cap_caps w1 = Some (NVM_SUCCESS, r, w1) \<and>
      largest_possible_app_direct_ns r = 2 ^ 35"
    by (simp add: get_pool_supported_size_ranges_def get_largest_storage_namespace_def set free caps)
  then obtain r where r: "get_pool_supported_size_ranges ?ad ?p cap_caps w1 = Some (NVM_SUCCESS, r, w1)"
    "largest_possible_app_direct_ns r = 2 ^ 35" by blast
  have v: "validate_ns_size_for_creation ?p ?st cap_caps r = Some NVM_SUCCESS"
    by (simp add: validate_ns_size_for_creation_def caps r(2))
  have al: "get_alignment_size 1 1 = Some 4096"
    by (simp add: get_alignment_size_def get_lowest_common_multiple_def get_greatest_common_divisor.simps [of 1])
  have n: "adjust_namespace_block_count_if_allowed (2 ^ 30 + 1) 1 1 True = Some (2 ^ 30 + 4096)"
    by (simp add: adjust_namespace_block_count_if_allowed_def adjust_namespace_block_count_def get_real_block_size_def
        al round_up_def)
  have "check_namespace_alignment (2 ^ 30 + 4096) 1 1 = Some True"
    by (simp add: check_namespace_alignment_def al)
  with n have f: "\<exists>st'. find_interleave_with_capacity ?ad ?p cap_caps ?st None True w1 = Some (NVM_SUCCESS, st', Some 1, w1)"
    by (simp add: find_interleave_with_capacity_def set free caps get_minimum_ns_size_def BYTES_PER_GB_def
        interleave_meets_security_criteria_def interleave_meets_app_direct_settings_def no_security_def search_code_def)
  then obtain st' where go: "validate_namespace_create_settings ?ad ?p ?st None True cap_world =
      Some (NVM_SUCCESS, st', Some 1, w1)"
    using c r v by (auto simp: validate_namespace_create_settings_def find_id_for_ns_creation_def
        validate_ns_type_for_pool_def validate_ns_enabled_state_def)
  have "reads_keep ?ad" by (simp add: reads_keep_def cap_firmware_def)
  from app_direct_namespace_fits [OF this _ go] go show ?thesis by (auto simp: set)
qed

end
