(* ===== verification/Smbios.thy ===== *)
theory Smbios
  imports Device
begin

text \<open>
  The SMBIOS tables (\<^verbatim>\<open>src/common/smbios/smbios.c\<close>, \<^verbatim>\<open>src/lib/smbios_utilities.c\<close>) and the
  memory topology read from them (\<^verbatim>\<open>src/lib/device.c\<close>). A table is the list of its bytes, a pointer to a
  structure is an offset into it, and the remaining length is what the code believes to follow that offset.
  A structure has a formatted section, whose second byte is its length, and then its strings, each ended by
  a zero byte, and one more zero.
\<close>

section \<open>Walking the table\<close>

abbreviation (input) HEADER_SIZE :: nat where "HEADER_SIZE \<equiv> 4"

fun smbios_get_byte_after_end_of_string_list ::
  "bytes \<Rightarrow> nat \<Rightarrow> nat \<Rightarrow> nat \<Rightarrow> (nat option \<times> nat) option" where
  "smbios_get_byte_after_end_of_string_list tbl nulls p 0 = Some (None, 0)"
| "smbios_get_byte_after_end_of_string_list tbl nulls p (Suc r) =
     (if nulls = 2 then Some (Some p, Suc r)
      else do {
        b \<leftarrow> rd8 tbl p;
        smbios_get_byte_after_end_of_string_list tbl (if b = 0 then nulls + 1 else 0) (p + 1) r
      })"

definition smbios_get_next_structure :: "bytes \<Rightarrow> nat option \<Rightarrow> nat \<Rightarrow> (nat option \<times> nat) option" where
  "smbios_get_next_structure tbl current r =
     (case current of
        None \<Rightarrow> Some (None, r)
      | Some p \<Rightarrow>
          if r = 0 then Some (None, r)
          else do {
            len \<leftarrow> rd8 tbl (p + 1);
            if r \<ge> unat len
            then smbios_get_byte_after_end_of_string_list tbl 0 (p + unat len) (r - unat len)
            else Some (None, 0)
          })"

lemma string_list_end:
  "smbios_get_byte_after_end_of_string_list tbl n p r = Some (q, r') \<Longrightarrow>
    r' \<le> r \<and> (q = None \<longrightarrow> r' = 0) \<and> (n < 2 \<and> q \<noteq> None \<longrightarrow> r' < r)"
proof (induction tbl n p r rule: smbios_get_byte_after_end_of_string_list.induct)
  case (2 tbl n p r)
  then show ?case by (cases "rd8 tbl p") (force split: if_splits)+
qed simp

lemma next_structure_shorter:
  "smbios_get_next_structure tbl (Some p) r = Some (Some q, r') \<Longrightarrow> r' < r"
  by (auto simp: smbios_get_next_structure_def bind_eq_Some_conv dest!: string_list_end split: if_splits)

text \<open>The loop of \<^verbatim>\<open>smbios_get_next_structure_of_type\<close>. A null pointer with bytes remaining would
  repeat for ever.\<close>

function next_of_type :: "u8 \<Rightarrow> bytes \<Rightarrow> nat \<Rightarrow> nat \<Rightarrow> (nat option \<times> nat) option" where
  "next_of_type ty tbl p r =
     (if r = 0 then Some (Some p, r)
      else case smbios_get_next_structure tbl (Some p) r of
        None \<Rightarrow> None
      | Some (None, r') \<Rightarrow> if r' = 0 then Some (None, r') else None
      | Some (Some q, r') \<Rightarrow>
          (case rd8 tbl q of
             None \<Rightarrow> None
           | Some t \<Rightarrow> if t = ty then Some (Some q, r') else next_of_type ty tbl q r'))"
  by pat_completeness auto

termination
  by (relation "measure (\<lambda>(ty, tbl, p, r). r)") (auto dest: next_structure_shorter)

declare next_of_type.simps [simp del]

definition smbios_get_next_structure_of_type ::
  "u8 \<Rightarrow> bytes \<Rightarrow> nat option \<Rightarrow> nat \<Rightarrow> (nat option \<times> nat) option" where
  "smbios_get_next_structure_of_type ty tbl current r =
     (case current of
        None \<Rightarrow> Some (None, r)
      | Some p \<Rightarrow> if r = 0 then Some (None, r) else next_of_type ty tbl p r)"

definition smbios_get_first_structure_of_type ::
  "u8 \<Rightarrow> bytes \<Rightarrow> nat option \<Rightarrow> nat \<Rightarrow> (nat option \<times> nat) option" where
  "smbios_get_first_structure_of_type ty tbl current r =
     (case current of
        None \<Rightarrow> Some (None, r)
      | Some p \<Rightarrow>
          if r \<le> HEADER_SIZE then Some (None, r)
          else do {
            t \<leftarrow> rd8 tbl p;
            if t = ty then Some (Some p, r) else smbios_get_next_structure_of_type ty tbl (Some p) r
          })"

text \<open>The search for a handle goes on while a header fits; what it ends at is returned.\<close>

function with_handle :: "u16 \<Rightarrow> bytes \<Rightarrow> nat \<Rightarrow> nat \<Rightarrow> (nat option \<times> nat) option" where
  "with_handle handle tbl p r =
     (case rd16 tbl (p + 2) of
        None \<Rightarrow> None
      | Some h \<Rightarrow>
          if h = handle then Some (Some p, r)
          else (case smbios_get_next_structure tbl (Some p) r of
             None \<Rightarrow> None
           | Some (None, r') \<Rightarrow> Some (None, r')
           | Some (Some q, r') \<Rightarrow> if r' \<ge> HEADER_SIZE then with_handle handle tbl q r' else Some (Some q, r')))"
  by pat_completeness auto

termination
  by (relation "measure (\<lambda>(handle, tbl, p, r). r)") (auto dest: next_structure_shorter)

declare with_handle.simps [simp del]

definition smbios_get_structure_with_handle :: "u16 \<Rightarrow> bytes \<Rightarrow> nat option \<Rightarrow> nat \<Rightarrow> (nat option \<times> nat) option" where
  "smbios_get_structure_with_handle handle tbl start r =
     (case start of
        None \<Rightarrow> Some (None, r)
      | Some p \<Rightarrow> if r \<ge> HEADER_SIZE then with_handle handle tbl p r else Some (None, r))"

lemma next_of_type_shorter:
  "next_of_type ty tbl p r = Some (Some q, r') \<Longrightarrow> 0 < r \<Longrightarrow> r' < r"
proof (induction ty tbl p r rule: next_of_type.induct)
  case (1 ty tbl p r)
  obtain q1 r1 where n: "smbios_get_next_structure tbl (Some p) r = Some (q1, r1)"
    using "1.prems" by (subst (asm) next_of_type.simps) (auto split: option.splits)
  show ?case
  proof (cases q1)
    case None
    with "1.prems" n show ?thesis by (subst (asm) next_of_type.simps) (auto split: if_splits)
  next
    case (Some q')
    then obtain t where t: "rd8 tbl q' = Some t"
      using "1.prems" n by (subst (asm) next_of_type.simps) (auto split: option.splits)
    have l: "r1 < r" using next_structure_shorter n Some by blast
    show ?thesis
    proof (cases "t = ty \<or> r1 = 0")
      case True
      with "1.prems" n Some t l show ?thesis
        by (subst (asm) next_of_type.simps) (auto simp: next_of_type.simps [of _ _ _ 0] split: if_splits)
    next
      case False
      with "1.prems" n Some t have "next_of_type ty tbl q' r1 = Some (Some q, r')"
        by (subst (asm) next_of_type.simps) auto
      with "1.IH" [OF _ n refl Some t] False "1.prems"(2) l show ?thesis by auto
    qed
  qed
qed

function count_structures :: "u8 \<Rightarrow> bytes \<Rightarrow> nat option \<Rightarrow> nat \<Rightarrow> int \<Rightarrow> int option" where
  "count_structures ty tbl current r n =
     (case current of
        None \<Rightarrow> Some n
      | Some p \<Rightarrow>
          (case smbios_get_next_structure_of_type ty tbl (Some p) r of
             None \<Rightarrow> None
           | Some (q, r') \<Rightarrow> count_structures ty tbl q r' (n + 1)))"
  by pat_completeness auto

termination
proof (relation "measure (\<lambda>(ty, tbl, c, r, n). if c = None then 0 else Suc r)")
  fix ty tbl current r and n :: int and p q r' and x :: "nat option \<times> nat"
  assume "current = Some p" "smbios_get_next_structure_of_type ty tbl (Some p) r = Some x" "(q, r') = x"
  then show "((ty, tbl, q, r', n + 1), ty, tbl, current, r, n) \<in> measure (\<lambda>(ty, tbl, c, r, n). if c = None then 0 else Suc r)"
    by (cases q) (auto simp: smbios_get_next_structure_of_type_def dest: next_of_type_shorter split: if_splits)
qed simp

declare count_structures.simps [simp del]

definition smbios_get_structure_count_of_type :: "u8 \<Rightarrow> bytes \<Rightarrow> nat option \<Rightarrow> nat \<Rightarrow> int option" where
  "smbios_get_structure_count_of_type ty tbl start len =
     (if start \<noteq> None \<and> len \<ge> HEADER_SIZE then do {
        (current, r) \<leftarrow> smbios_get_first_structure_of_type ty tbl start len;
        count_structures ty tbl current r 0
      } else Some COMMON_ERR_INVALIDPARAMETER)"

section \<open>Strings\<close>

text \<open>The next string is looked for in as many bytes as remained behind the first one.\<close>

fun next_string :: "bytes \<Rightarrow> bool \<Rightarrow> nat \<Rightarrow> nat \<Rightarrow> nat option option" where
  "next_string tbl terminated cursor 0 = Some None"
| "next_string tbl terminated cursor (Suc n) = do {
     c \<leftarrow> rd8 tbl cursor;
     if terminated then Some (if c \<noteq> 0 then Some cursor else None)
     else next_string tbl (c = 0) (cursor + 1) n
   }"

definition smbios_get_next_string :: "bytes \<Rightarrow> nat \<Rightarrow> nat \<Rightarrow> nat option option" where
  "smbios_get_next_string tbl current r = next_string tbl False current r"

fun nth_string :: "bytes \<Rightarrow> nat \<Rightarrow> nat \<Rightarrow> nat option \<Rightarrow> nat option option" where
  "nth_string tbl r 0 p = Some p"
| "nth_string tbl r (Suc n) None = Some None"
| "nth_string tbl r (Suc n) (Some p) = do { q \<leftarrow> smbios_get_next_string tbl p r; nth_string tbl r n q }"

definition smbios_get_structure_string :: "bytes \<Rightarrow> nat option \<Rightarrow> nat \<Rightarrow> nat \<Rightarrow> nat option option" where
  "smbios_get_structure_string tbl structure data_length string_number =
     (case structure of
        None \<Rightarrow> Some None
      | Some p \<Rightarrow> do {
          len \<leftarrow> rd8 tbl (p + 1);
          if data_length > unat len \<and> string_number > 0 then do {
            let str = p + unat len;
            let r = data_length - unat len;
            c \<leftarrow> rd8 tbl str;
            first \<leftarrow> (if c \<noteq> 0 then Some (Some str)
                     else if r < 2 then Some None
                     else do { c \<leftarrow> rd8 tbl (str + 1); Some (if c = 0 then None else Some str) });
            nth_string tbl r (string_number - 1) first
          } else Some None
        })"

definition smbios_copy_structure_string_to_buffer :: "bytes \<Rightarrow> nat option \<Rightarrow> nat \<Rightarrow> u8 \<Rightarrow> nat \<Rightarrow> bytes option" where
  "smbios_copy_structure_string_to_buffer tbl structure data_length string_number buf_length =
     (if buf_length = 0 then Some []
      else do {
        str \<leftarrow> smbios_get_structure_string tbl structure data_length (unat string_number);
        case str of
          None \<Rightarrow> Some (replicate buf_length 0)
        | Some q \<Rightarrow> do {
            buf \<leftarrow> s_strcpy (Some (replicate buf_length 0)) (Some (drop q tbl)) buf_length;
            buf
          }
      })"

section \<open>Memory devices\<close>

abbreviation (input) SMBIOS_STRUCT_TYPE_MEMORY_DEVICE :: u8 where "SMBIOS_STRUCT_TYPE_MEMORY_DEVICE \<equiv> 17"
abbreviation (input) SMBIOS_SIZE_EMPTY :: u16 where "SMBIOS_SIZE_EMPTY \<equiv> 0"
abbreviation (input) SMBIOS_SIZE_UNKNOWN :: u16 where "SMBIOS_SIZE_UNKNOWN \<equiv> 0xFFFF"
abbreviation (input) SMBIOS_SIZE_EXTENDED :: u16 where "SMBIOS_SIZE_EXTENDED \<equiv> 0x7FFF"
abbreviation (input) SMBIOS_SIZE_KB_GRANULARITY_MASK :: u16 where "SMBIOS_SIZE_KB_GRANULARITY_MASK \<equiv> 0x8000"
abbreviation (input) SMBIOS_SIZE_MASK :: u16 where "SMBIOS_SIZE_MASK \<equiv> 0x7FFF"
abbreviation (input) SMBIOS_EXTENDED_SIZE_MASK :: u32 where "SMBIOS_EXTENDED_SIZE_MASK \<equiv> 0x7FFFFFFF"
abbreviation (input) NVM_DETAILS_SIZE_UNKNOWN :: u64 where "NVM_DETAILS_SIZE_UNKNOWN \<equiv> - 1"
abbreviation (input) BYTES_PER_KB :: u64 where "BYTES_PER_KB \<equiv> 1024"
abbreviation (input) BYTES_PER_MB :: u64 where "BYTES_PER_MB \<equiv> 1048576"
abbreviation (input) MEMORY_DEVICE_SIZE :: nat where "MEMORY_DEVICE_SIZE \<equiv> 40"
abbreviation (input) NVM_PART_NUM_LEN :: nat where "NVM_PART_NUM_LEN \<equiv> 32"
abbreviation (input) NVM_DEVICE_LOCATOR_LEN :: nat where "NVM_DEVICE_LOCATOR_LEN \<equiv> 128"
abbreviation (input) NVM_BANK_LABEL_LEN :: nat where "NVM_BANK_LABEL_LEN \<equiv> 128"
abbreviation (input) NVM_MANUFACTURERSTR_LEN :: nat where "NVM_MANUFACTURERSTR_LEN \<equiv> 256"

definition smbios_get_memory_device_size_in_bytes :: "bytes \<Rightarrow> nat \<Rightarrow> u64 option" where
  "smbios_get_memory_device_size_in_bytes tbl p = do {
     size \<leftarrow> rd16 tbl (p + 12);
     if size = SMBIOS_SIZE_UNKNOWN then Some NVM_DETAILS_SIZE_UNKNOWN
     else if size = SMBIOS_SIZE_EXTENDED then do {
       extended \<leftarrow> rd32 tbl (p + 28);
       Some (ucast (extended AND SMBIOS_EXTENDED_SIZE_MASK) * BYTES_PER_MB)
     }
     else
       let factor = (if size AND SMBIOS_SIZE_KB_GRANULARITY_MASK \<noteq> 0 then BYTES_PER_KB else BYTES_PER_MB) in
       Some (ucast (size AND SMBIOS_SIZE_MASK) * factor)
   }"

record nvm_details =
  nv_id :: u16
  nv_type :: u8
  nv_type_detail_bits :: u32
  nv_form_factor :: u16
  nv_data_width :: u64
  nv_total_width :: u64
  nv_size :: u64
  nv_speed :: u64
  nv_part_number :: bytes
  nv_device_locator :: bytes
  nv_bank_label :: bytes
  nv_manufacturer :: bytes

definition smbios_memory_device_to_nvm_details :: "bytes \<Rightarrow> nat \<Rightarrow> nat \<Rightarrow> nvm_details option" where
  "smbios_memory_device_to_nvm_details tbl p len = do {
     i \<leftarrow> rd16 tbl (p + 2);
     ty \<leftarrow> rd8 tbl (p + 18);
     detail \<leftarrow> rd16 tbl (p + 19);
     form \<leftarrow> rd8 tbl (p + 14);
     data_width \<leftarrow> rd16 tbl (p + 10);
     total_width \<leftarrow> rd16 tbl (p + 8);
     speed \<leftarrow> rd16 tbl (p + 21);
     size \<leftarrow> smbios_get_memory_device_size_in_bytes tbl p;
     part_num \<leftarrow> rd8 tbl (p + 26);
     part \<leftarrow> smbios_copy_structure_string_to_buffer tbl (Some p) len part_num NVM_PART_NUM_LEN;
     locator_num \<leftarrow> rd8 tbl (p + 16);
     locator \<leftarrow> smbios_copy_structure_string_to_buffer tbl (Some p) len locator_num NVM_DEVICE_LOCATOR_LEN;
     bank_num \<leftarrow> rd8 tbl (p + 17);
     bank \<leftarrow> smbios_copy_structure_string_to_buffer tbl (Some p) len bank_num NVM_BANK_LABEL_LEN;
     maker_num \<leftarrow> rd8 tbl (p + 23);
     maker \<leftarrow> smbios_copy_structure_string_to_buffer tbl (Some p) len maker_num NVM_MANUFACTURERSTR_LEN;
     Some \<lparr>nv_id = i, nv_type = ty, nv_type_detail_bits = ucast detail, nv_form_factor = ucast form,
           nv_data_width = ucast data_width, nv_total_width = ucast total_width, nv_size = size,
           nv_speed = ucast speed, nv_part_number = part, nv_device_locator = locator, nv_bank_label = bank,
           nv_manufacturer = maker\<rparr>
   }"

definition get_dimm_details_from_smbios_table :: "bytes \<Rightarrow> u16 \<Rightarrow> (int \<times> nvm_details option) option" where
  "get_dimm_details_from_smbios_table tbl pid = do {
     (p, r) \<leftarrow> smbios_get_structure_with_handle pid tbl (Some 0) (length tbl);
     case p of
       None \<Rightarrow> Some (NVM_ERR_BADDEVICE, None)
     | Some p \<Rightarrow> do {
         ty \<leftarrow> rd8 tbl p;
         if ty = SMBIOS_STRUCT_TYPE_MEMORY_DEVICE then do {
           d \<leftarrow> smbios_memory_device_to_nvm_details tbl p r;
           Some (NVM_SUCCESS, Some d)
         } else Some (NVM_ERR_BADDEVICE, None)
       }
   }"

definition get_device_memory_type_from_smbios_table :: "bytes \<Rightarrow> u16 \<Rightarrow> int option" where
  "get_device_memory_type_from_smbios_table tbl pid = do {
     (rc, d) \<leftarrow> get_dimm_details_from_smbios_table tbl pid;
     if rc = NVM_SUCCESS then do { d \<leftarrow> d; Some (uint (nv_type d)) } else Some rc
   }"

lemma next_of_type_measure:
  "smbios_get_next_structure_of_type ty tbl (Some p) r = Some (q, r') \<Longrightarrow>
    (if q = None then 0 else Suc r') < Suc r"
  by (cases q) (auto simp: smbios_get_next_structure_of_type_def dest: next_of_type_shorter split: if_splits)

text \<open>The two loops over the memory devices end at one that is cut off.\<close>

function populated_devices :: "bytes \<Rightarrow> nat option \<Rightarrow> nat \<Rightarrow> int \<Rightarrow> int option" where
  "populated_devices tbl current r count =
     (case current of
        None \<Rightarrow> Some count
      | Some p \<Rightarrow>
          if r < MEMORY_DEVICE_SIZE then Some count
          else (case rd16 tbl (p + 12) of
             None \<Rightarrow> None
           | Some sz \<Rightarrow>
               (case smbios_get_next_structure_of_type SMBIOS_STRUCT_TYPE_MEMORY_DEVICE tbl (Some p) r of
                  None \<Rightarrow> None
                | Some (q, r') \<Rightarrow>
                    populated_devices tbl q r' (if sz \<noteq> SMBIOS_SIZE_EMPTY then count + 1 else count))))"
  by pat_completeness auto

termination
  by (relation "measure (\<lambda>(tbl, c, r, n). if c = None then 0 else Suc r)") (auto dest!: next_of_type_measure)

declare populated_devices.simps [simp del]

definition smbios_get_populated_memory_device_count :: "bytes \<Rightarrow> int option" where
  "smbios_get_populated_memory_device_count tbl = do {
     (p, r) \<leftarrow> smbios_get_first_structure_of_type SMBIOS_STRUCT_TYPE_MEMORY_DEVICE tbl (Some 0) (length tbl);
     populated_devices tbl p r 0
   }"

text \<open>The entries written, and the code: their number, or that there were more.\<close>

function table_to_details ::
  "bytes \<Rightarrow> nat option \<Rightarrow> nat \<Rightarrow> nat \<Rightarrow> nvm_details list \<Rightarrow> (int \<times> nvm_details list) option" where
  "table_to_details tbl current r num ds =
     (case current of
        None \<Rightarrow> Some (int (length ds), ds)
      | Some p \<Rightarrow>
          if r < MEMORY_DEVICE_SIZE then Some (int (length ds), ds)
          else (case rd16 tbl (p + 12) of
             None \<Rightarrow> None
           | Some sz \<Rightarrow>
               if sz \<noteq> SMBIOS_SIZE_EMPTY \<and> length ds \<ge> num then Some (NVM_ERR_ARRAYTOOSMALL, ds)
               else (case (if sz \<noteq> SMBIOS_SIZE_EMPTY then
                             map_option (\<lambda>d. ds @ [d]) (smbios_memory_device_to_nvm_details tbl p r)
                           else Some ds) of
                  None \<Rightarrow> None
                | Some ds \<Rightarrow>
                    (case smbios_get_next_structure_of_type SMBIOS_STRUCT_TYPE_MEMORY_DEVICE tbl (Some p) r of
                       None \<Rightarrow> None
                     | Some (q, r') \<Rightarrow> table_to_details tbl q r' num ds))))"
  by pat_completeness auto

termination
  by (relation "measure (\<lambda>(tbl, c, r, n). if c = None then 0 else Suc r)") (auto dest!: next_of_type_measure)

declare table_to_details.simps [simp del]

definition smbios_table_to_nvm_details_array :: "bytes \<Rightarrow> nat \<Rightarrow> (int \<times> nvm_details list) option" where
  "smbios_table_to_nvm_details_array tbl num = do {
     (p, r) \<leftarrow> smbios_get_first_structure_of_type SMBIOS_STRUCT_TYPE_MEMORY_DEVICE tbl (Some 0) (length tbl);
     table_to_details tbl p r num []
   }"

section \<open>The memory topology\<close>

text \<open>The table the operating system provides is a parameter: the code and the bytes.\<close>

definition get_smbios_inventory_count :: "int \<times> bytes \<Rightarrow> int option" where
  "get_smbios_inventory_count table =
     (let (rc, tbl) = table in
      if rc = NVM_SUCCESS then smbios_get_populated_memory_device_count tbl else Some rc)"

definition get_smbios_inventory :: "int \<times> bytes \<Rightarrow> u8 \<Rightarrow> (int \<times> nvm_details list) option" where
  "get_smbios_inventory table count =
     (let (rc, tbl) = table in
      if rc = NVM_SUCCESS then smbios_table_to_nvm_details_array tbl (unat count) else Some (rc, []))"

definition get_dimm_details_for_physical_id :: "int \<times> bytes \<Rightarrow> u16 \<Rightarrow> (int \<times> nvm_details option) option" where
  "get_dimm_details_for_physical_id table pid =
     (let (rc, tbl) = table in
      if rc = NVM_SUCCESS then get_dimm_details_from_smbios_table tbl pid else Some (rc, None))"

definition get_dimm_physical_id_from_handle :: "'hw adapter \<Rightarrow> 'hw \<Rightarrow> u32 \<Rightarrow> int option" where
  "get_dimm_physical_id_from_handle ad h handle =
     (let n = topology_count ad h in
      if n = 0 then Some NVM_ERR_BADDEVICE
      else if n < 0 then Some n
      else
        let (rc, topo) = topology ad h (of_int n) in
        if rc = 0 then Some NVM_ERR_UNKNOWN
        else if rc < 0 then Some rc
        else do {
          i \<leftarrow> search (\<lambda>t. topo_device_handle t = handle) topo (nat n) 0;
          Some (case i of None \<Rightarrow> NVM_ERR_BADDEVICE | Some i \<Rightarrow> uint (topo_id (topo ! i)))
        })"

datatype device_form_factor = DEVICE_FORM_FACTOR_UNKNOWN | DEVICE_FORM_FACTOR_DIMM | DEVICE_FORM_FACTOR_SODIMM

text \<open>The type detail is a 16-bit parameter.\<close>

definition get_memory_type_from_smbios_memory_type :: "u8 \<Rightarrow> u16 \<Rightarrow> memory_type" where
  "get_memory_type_from_smbios_memory_type ty detail =
     (if ty = 0x1A then if detail AND 0x1000 \<noteq> 0 then MEMORY_TYPE_NVMDIMM else MEMORY_TYPE_DDR4
      else if ty = 0x15 then MEMORY_TYPE_NVMDIMM
      else MEMORY_TYPE_UNKNOWN)"

definition get_device_form_factor_from_smbios_form_factor :: "u16 \<Rightarrow> device_form_factor" where
  "get_device_form_factor_from_smbios_form_factor form =
     (if form = 0x9 then DEVICE_FORM_FACTOR_DIMM
      else if form = 0xD then DEVICE_FORM_FACTOR_SODIMM
      else DEVICE_FORM_FACTOR_UNKNOWN)"

record memory_topology =
  mt_physical_id :: u16
  mt_memory_type :: memory_type
  mt_form_factor :: device_form_factor
  mt_raw_capacity :: u64
  mt_data_width :: u64
  mt_total_width :: u64
  mt_speed :: u64
  mt_part_number :: bytes
  mt_device_locator :: bytes
  mt_bank_label :: bytes

definition nvm_details_to_memory_topology :: "nvm_details \<Rightarrow> memory_topology" where
  "nvm_details_to_memory_topology d =
     \<lparr>mt_physical_id = nv_id d,
      mt_memory_type = get_memory_type_from_smbios_memory_type (nv_type d) (ucast (nv_type_detail_bits d)),
      mt_form_factor = get_device_form_factor_from_smbios_form_factor (nv_form_factor d),
      mt_raw_capacity = nv_size d, mt_data_width = nv_data_width d, mt_total_width = nv_total_width d,
      mt_speed = nv_speed d, mt_part_number = nv_part_number d, mt_device_locator = nv_device_locator d,
      mt_bank_label = nv_bank_label d\<rparr>"

definition nvm_get_memory_topology_count :: "bool \<Rightarrow> int \<times> bytes \<Rightarrow> int option" where
  "nvm_get_memory_topology_count perm table =
     (if \<not> perm then Some NVM_ERR_INVALIDPERMISSIONS else get_smbios_inventory_count table)"

text \<open>The table is fetched twice: once to count its devices, and once to read them.\<close>

definition nvm_get_memory_topology ::
  "bool \<Rightarrow> int \<times> bytes \<Rightarrow> int \<times> bytes \<Rightarrow> bool \<Rightarrow> u8 \<Rightarrow> (int \<times> memory_topology list) option" where
  "nvm_get_memory_topology perm table1 table2 have_out count =
     (if \<not> perm then Some (NVM_ERR_INVALIDPERMISSIONS, [])
      else if \<not> have_out then Some (NVM_ERR_INVALIDPARAMETER, [])
      else do {
        rc \<leftarrow> nvm_get_memory_topology_count perm table1;
        if rc \<le> 0 then Some (rc, [])
        else do {
          (rc, ds) \<leftarrow> get_smbios_inventory table2 count;
          Some (rc, if rc > 0 \<or> rc = NVM_ERR_ARRAYTOOSMALL then map nvm_details_to_memory_topology ds else [])
        }
      })"

end
