(* ===== verification/SmbiosFacts.thy ===== *)
theory SmbiosFacts
  imports Smbios Pcd
begin

text \<open>
  Tables that are a sequence of well-formed structures: walking them visits every structure, a memory device
  is read back with its fields and strings; and what happens at a table with stray bytes behind its last
  structure.
\<close>

section \<open>Well-formed tables\<close>

record smbios_entry =
  se_type :: u8
  se_handle :: u16
  se_body :: bytes
  se_strings :: "bytes list"

definition string_section :: "bytes list \<Rightarrow> bytes" where
  "string_section ss = (if ss = [] then [0, 0] else concat (map (\<lambda>s. s @ [0]) ss) @ [0])"

definition encode_entry :: "smbios_entry \<Rightarrow> bytes" where
  "encode_entry e =
     [se_type e, of_nat (4 + length (se_body e))] @ le16 (se_handle e) @ se_body e @ string_section (se_strings e)"

definition wf_entry :: "smbios_entry \<Rightarrow> bool" where
  "wf_entry e \<longleftrightarrow> length (se_body e) < 252 \<and> (\<forall>s \<in> set (se_strings e). s \<noteq> [] \<and> 0 \<notin> set s)"

definition encode_table :: "smbios_entry list \<Rightarrow> bytes" where
  "encode_table es = concat (map encode_entry es)"

lemma encode_table_simps [simp]: "encode_table [] = []" "encode_table (e # es) = encode_entry e @ encode_table es"
  by (simp_all add: encode_table_def)

lemma entry_size: "6 \<le> length (encode_entry e)"
  by (cases "se_strings e") (simp_all add: encode_entry_def string_section_def)

lemma entry_not_empty [simp]: "encode_entry e \<noteq> []"
  using entry_size [of e] by auto

lemma encode_table_empty [simp]: "encode_table es = [] \<longleftrightarrow> es = []"
  by (cases es) simp_all

section \<open>Reading at an offset\<close>

lemma drop_offset: "drop p tbl = xs @ ys \<Longrightarrow> drop (p + length xs) tbl = ys"
  by (metis add.commute append_eq_conv_conj drop_drop)

lemma rd_at_drop:
  assumes "drop p tbl = xs" "xs \<noteq> []"
  shows "rd8 tbl (p + k) = rd8 xs k" "rd16 tbl (p + k) = rd16 xs k" "rd32 tbl (p + k) = rd32 xs k"
proof -
  have "p \<le> length tbl" using assms by (cases "p \<le> length tbl") auto
  then have "load n tbl (p + k) = load n xs k" for n
    using assms(1) by (auto simp: load_def add.commute add.left_commute)
  then show "rd8 tbl (p + k) = rd8 xs k" "rd16 tbl (p + k) = rd16 xs k" "rd32 tbl (p + k) = rd32 xs k"
    by (simp_all add: rd8_def rd16_def rd32_def)
qed

lemma rd8_hd: "drop p tbl = b # xs \<Longrightarrow> rd8 tbl p = Some b"
  using rd_at_drop(1) [of p tbl "b # xs" 0] rd8_append [of 0 "[]" b xs] by simp

section \<open>From structure to structure\<close>

lemma skip_string:
  "0 \<notin> set s \<Longrightarrow> s \<noteq> [] \<Longrightarrow> n < 2 \<Longrightarrow> drop p tbl = s @ 0 # rest \<Longrightarrow>
   smbios_get_byte_after_end_of_string_list tbl n p (length (s @ 0 # rest)) =
   smbios_get_byte_after_end_of_string_list tbl 1 (p + length s + 1) (length rest)"
proof (induction s arbitrary: n p)
  case (Cons c s)
  have c: "rd8 tbl p = Some c" "c \<noteq> 0" using Cons.prems by (auto intro: rd8_hd)
  have d: "drop (p + 1) tbl = s @ 0 # rest" using Cons.prems(4) drop_offset [of p tbl "[c]"] by simp
  show ?case
  proof (cases "s = []")
    case True
    then have "rd8 tbl (p + 1) = Some 0" using d by (auto intro: rd8_hd)
    with True c Cons.prems(3) show ?thesis by simp
  next
    case False
    with Cons.IH [of 0 "p + 1"] Cons.prems(1,3) c d show ?thesis by simp
  qed
qed simp

lemma skip_strings:
  "(\<And>s. s \<in> set ss \<Longrightarrow> s \<noteq> [] \<and> 0 \<notin> set s) \<Longrightarrow> n < 2 \<Longrightarrow> ss \<noteq> [] \<or> n = 1 \<Longrightarrow>
   drop p tbl = concat (map (\<lambda>s. s @ [0]) ss) @ 0 # rest \<Longrightarrow>
   smbios_get_byte_after_end_of_string_list tbl n p (length (concat (map (\<lambda>s. s @ [0]) ss) @ 0 # rest)) =
   smbios_get_byte_after_end_of_string_list tbl 2 (p + length (concat (map (\<lambda>s. s @ [0]) ss)) + 1) (length rest)"
proof (induction ss arbitrary: n p)
  case Nil
  then have "rd8 tbl p = Some 0" by (auto intro: rd8_hd)
  with Nil show ?case by (simp add: numeral_2_eq_2)
next
  case (Cons s ss)
  let ?rest = "concat (map (\<lambda>s. s @ [0]) ss) @ 0 # rest"
  have d: "drop p tbl = s @ 0 # ?rest" using Cons.prems(4) by simp
  have "drop (p + length s + 1) tbl = ?rest" using drop_offset [of p tbl "s @ [0]"] d by simp
  with Cons.IH [of 1 "p + length s + 1"] Cons.prems(1) skip_string [OF _ _ Cons.prems(2) d] show ?case
    by (simp add: add.assoc)
qed

lemma end_of_strings:
  assumes "\<And>s. s \<in> set ss \<Longrightarrow> s \<noteq> [] \<and> 0 \<notin> set s" "drop p tbl = string_section ss @ rest"
  shows "smbios_get_byte_after_end_of_string_list tbl 0 p (length (string_section ss @ rest)) =
    Some (if rest = [] then (None, 0) else (Some (p + length (string_section ss)), length rest))"
proof -
  have fin: "smbios_get_byte_after_end_of_string_list tbl 2 q (length rest) =
      Some (if rest = [] then (None, 0) else (Some q, length rest))" for q
    by (cases rest) auto
  show ?thesis
  proof (cases "ss = []")
    case True
    then have s: "string_section ss = [0, 0]" by (simp add: string_section_def)
    with assms(2) have "rd8 tbl p = Some 0" by (auto intro: rd8_hd)
    moreover have "rd8 tbl (Suc p) = Some 0" using assms(2) drop_offset [of p tbl "[0]" "0 # rest"] s
      by (auto intro: rd8_hd)
    ultimately show ?thesis using fin [of "p + 2"] s by (simp add: numeral_2_eq_2)
  next
    case False
    then have s: "string_section ss = concat (map (\<lambda>s. s @ [0]) ss) @ [0]" by (simp add: string_section_def)
    show ?thesis
      using skip_strings [of ss 0 p tbl rest] assms False fin by (simp add: s add.assoc)
  qed
qed

lemma next_structure:
  assumes "wf_entry e" "drop p tbl = encode_entry e @ rest"
  shows "smbios_get_next_structure tbl (Some p) (length (encode_entry e @ rest)) =
    Some (if rest = [] then (None, 0) else (Some (p + length (encode_entry e)), length rest))"
proof -
  let ?head = "[se_type e, of_nat (4 + length (se_body e))] @ le16 (se_handle e) @ se_body e"
  have n: "unat (of_nat (4 + length (se_body e)) :: u8) = 4 + length (se_body e)"
    using assms(1) by (simp only: unat_of_nat wf_entry_def) simp
  have e: "encode_entry e @ rest = ?head @ string_section (se_strings e) @ rest" by (simp add: encode_entry_def)
  have len: "rd8 tbl (p + 1) = Some (of_nat (4 + length (se_body e)))"
    using rd_at_drop(1) [OF assms(2), of 1] rd8_append [of 1 "[se_type e]"] by (simp add: encode_entry_def)
  have d: "drop (p + length ?head) tbl = string_section (se_strings e) @ rest"
    using drop_offset assms(2) unfolding e by blast
  have l: "length ?head = 4 + length (se_body e)" by simp
  have "length (encode_entry e @ rest) = length ?head + length (string_section (se_strings e) @ rest)"
    unfolding e by simp
  moreover have "encode_entry e @ rest \<noteq> []" using entry_size [of e] by auto
  ultimately have "smbios_get_next_structure tbl (Some p) (length (encode_entry e @ rest)) =
      smbios_get_byte_after_end_of_string_list tbl 0 (p + length ?head) (length (string_section (se_strings e) @ rest))"
    using len n unfolding l by (simp add: smbios_get_next_structure_def numeral_eq_Suc)
  also have "\<dots> = Some (if rest = [] then (None, 0)
      else (Some (p + length ?head + length (string_section (se_strings e))), length rest))"
    using assms(1) by (intro end_of_strings d) (auto simp: wf_entry_def)
  finally show ?thesis by (simp add: encode_entry_def add.assoc)
qed

section \<open>Finding structures\<close>

definition wf_table :: "smbios_entry list \<Rightarrow> bool" where
  "wf_table es \<longleftrightarrow> (\<forall>e \<in> set es. wf_entry e)"

text \<open>The pointer and the remaining length at which a table goes on with the given structures.\<close>

definition located :: "bytes \<Rightarrow> smbios_entry list \<Rightarrow> (nat option \<times> nat) option \<Rightarrow> bool" where
  "located tbl es r \<longleftrightarrow>
     (if es = [] then r = Some (None, 0)
      else \<exists>p. r = Some (Some p, length (encode_table es)) \<and> drop p tbl = encode_table es)"

lemma next_located:
  assumes "wf_entry e" "drop p tbl = encode_table (e # es)"
  shows "located tbl es (smbios_get_next_structure tbl (Some p) (length (encode_table (e # es))))"
  using next_structure [OF assms(1), of p tbl "encode_table es"] assms(2) drop_offset [of p tbl "encode_entry e"]
  by (auto simp: located_def)

lemma entry_type: "drop p tbl = encode_table (e # es) \<Longrightarrow> rd8 tbl p = Some (se_type e)"
  by (auto simp: encode_entry_def intro: rd8_hd)

lemma next_of_type_located:
  assumes "wf_table (e # es)" "drop p tbl = encode_table (e # es)"
  shows "located tbl (dropWhile (\<lambda>e. se_type e \<noteq> ty) es) (next_of_type ty tbl p (length (encode_table (e # es))))"
  using assms
proof (induction es arbitrary: e p)
  case Nil
  then show ?case using next_located [of e p tbl "[]"] entry_size [of e]
    by (subst next_of_type.simps) (auto simp: located_def wf_table_def)
next
  case (Cons f es)
  then obtain q where q: "smbios_get_next_structure tbl (Some p) (length (encode_table (e # f # es))) =
      Some (Some q, length (encode_table (f # es)))" "drop q tbl = encode_table (f # es)"
    using next_located [of e p tbl "f # es"] by (auto simp: located_def wf_table_def)
  have t: "rd8 tbl q = Some (se_type f)" using q(2) by (rule entry_type)
  have go: "next_of_type ty tbl p (length (encode_table (e # f # es))) =
      (if se_type f = ty then Some (Some q, length (encode_table (f # es)))
       else next_of_type ty tbl q (length (encode_table (f # es))))"
    using q(1) t entry_size [of e] by (subst next_of_type.simps) simp
  show ?case
  proof (cases "se_type f = ty")
    case True
    then show ?thesis unfolding go using q(2) by (auto simp: located_def)
  next
    case False
    then show ?thesis unfolding go using Cons.IH [OF _ q(2)] Cons.prems(1) by (simp add: wf_table_def)
  qed
qed

lemma first_of_type_located:
  assumes "wf_table es" "es \<noteq> []" "tbl = encode_table es"
  shows "located tbl (dropWhile (\<lambda>e. se_type e \<noteq> ty) es)
    (smbios_get_first_structure_of_type ty tbl (Some 0) (length tbl))"
proof -
  obtain e es' where es: "es = e # es'" using assms(2) by (cases es) auto
  have d: "drop 0 tbl = encode_table (e # es')" using assms(3) es by simp
  have big: "\<not> length tbl \<le> 4" "length tbl \<noteq> 0" using assms(3) es entry_size [of e] by simp_all
  show ?thesis
  proof (cases "se_type e = ty")
    case True
    then show ?thesis using entry_type [OF d] big d assms(3) es
      by (simp add: smbios_get_first_structure_of_type_def located_def)
  next
    case False
    then have "smbios_get_first_structure_of_type ty tbl (Some 0) (length tbl) = next_of_type ty tbl 0 (length tbl)"
      using entry_type [OF d] big
      by (simp add: smbios_get_first_structure_of_type_def smbios_get_next_structure_of_type_def)
    with False next_of_type_located [OF _ d, of ty] assms(1,3) es show ?thesis by simp
  qed
qed

lemma count_located:
  assumes "wf_table es" "located tbl (dropWhile (\<lambda>e. se_type e \<noteq> ty) es) r"
  shows "\<exists>p l. r = Some (p, l) \<and> count_structures ty tbl p l n = Some (n + int (length (filter (\<lambda>e. se_type e = ty) es)))"
  using assms
proof (induction "length es" arbitrary: es n r rule: less_induct)
  case less
  show ?case
  proof (cases "dropWhile (\<lambda>e. se_type e \<noteq> ty) es")
    case Nil
    then have "filter (\<lambda>e. se_type e = ty) es = []" by (auto simp: filter_empty_conv)
    with Nil less.prems(2) show ?thesis by (auto simp: located_def count_structures.simps)
  next
    case (Cons f fs)
    then obtain us where es: "es = us @ f # fs" and us: "us = takeWhile (\<lambda>e. se_type e \<noteq> ty) es"
      by (metis takeWhile_dropWhile_id)
    have f: "se_type f = ty" using Cons hd_dropWhile [of "\<lambda>e. se_type e \<noteq> ty" es] by auto
    have "filter (\<lambda>e. se_type e = ty) us = []" unfolding us by (auto simp: filter_empty_conv dest: set_takeWhileD)
    then have n: "filter (\<lambda>e. se_type e = ty) es = f # filter (\<lambda>e. se_type e = ty) fs" using f by (simp add: es)
    from Cons less.prems(2) obtain p where p: "r = Some (Some p, length (encode_table (f # fs)))"
      "drop p tbl = encode_table (f # fs)" by (auto simp: located_def)
    have w: "wf_table (f # fs)" using less.prems(1) by (simp add: es wf_table_def)
    have "smbios_get_next_structure_of_type ty tbl (Some p) (length (encode_table (f # fs))) =
        next_of_type ty tbl p (length (encode_table (f # fs)))"
      using entry_size [of f] by (simp add: smbios_get_next_structure_of_type_def)
    moreover from less.hyps [OF _ _ next_of_type_located [OF w p(2), of ty], of "n + 1"] w obtain q l where
      "next_of_type ty tbl p (length (encode_table (f # fs))) = Some (q, l)"
      "count_structures ty tbl q l (n + 1) = Some (n + 1 + int (length (filter (\<lambda>e. se_type e = ty) fs)))"
      by (auto simp: es wf_table_def)
    ultimately show ?thesis unfolding p(1) n by (simp add: count_structures.simps [of ty tbl "Some p"])
  qed
qed

text \<open>Counting the structures of a type in a table made of well-formed structures gives their number.\<close>

theorem structures_counted:
  assumes "wf_table es" "es \<noteq> []"
  shows "smbios_get_structure_count_of_type ty (encode_table es) (Some 0) (length (encode_table es)) =
    Some (int (length (filter (\<lambda>e. se_type e = ty) es)))"
proof -
  have "4 \<le> length (encode_table es)" using assms(2) entry_size [of "hd es"] by (cases es) auto
  then show ?thesis
    using count_located [OF assms(1) first_of_type_located [OF assms refl], of ty 0]
    by (auto simp: smbios_get_structure_count_of_type_def)
qed

lemma entry_handle:
  assumes "drop p tbl = encode_table (e # es)"
  shows "rd16 tbl (p + 2) = Some (se_handle e)"
  using rd_at_drop(2) [OF assms, of 2] rd16_append [of 2 "[se_type e, of_nat (4 + length (se_body e))]" "se_handle e"]
  by (simp add: encode_entry_def)

lemma handle_located:
  assumes "wf_table (e # es)" "drop p tbl = encode_table (e # es)"
  shows "located tbl (dropWhile (\<lambda>e. se_handle e \<noteq> h) (e # es)) (with_handle h tbl p (length (encode_table (e # es))))"
  using assms
proof (induction es arbitrary: e p)
  case Nil
  then show ?case using next_located [of e p tbl "[]"] entry_handle [OF Nil.prems(2)]
    by (subst with_handle.simps) (auto simp: located_def wf_table_def)
next
  case (Cons f es)
  then obtain q where q: "smbios_get_next_structure tbl (Some p) (length (encode_table (e # f # es))) =
      Some (Some q, length (encode_table (f # es)))" "drop q tbl = encode_table (f # es)"
    using next_located [of e p tbl "f # es"] by (auto simp: located_def wf_table_def)
  have big: "4 \<le> length (encode_table (f # es))" using entry_size [of f] by simp
  show ?case
  proof (cases "se_handle e = h")
    case True
    then show ?thesis using entry_handle [OF Cons.prems(2)] Cons.prems(2)
      by (subst with_handle.simps) (auto simp: located_def)
  next
    case False
    then have "with_handle h tbl p (length (encode_table (e # f # es))) = with_handle h tbl q (length (encode_table (f # es)))"
      using entry_handle [OF Cons.prems(2)] q(1) big by (subst with_handle.simps) auto
    with False Cons.IH [OF _ q(2)] Cons.prems(1) show ?thesis by (simp add: wf_table_def)
  qed
qed

section \<open>Strings\<close>

lemma next_string_end:
  assumes "0 \<notin> set s" "drop p tbl = s @ 0 # rest" "length s + 1 < r" "length s + 2 \<le> length (drop p tbl)"
  shows "next_string tbl False p r =
    Some (if hd rest \<noteq> 0 then Some (p + length s + 1) else None)"
  using assms
proof (induction s arbitrary: p r)
  case Nil
  then obtain c rest' where c: "rest = c # rest'" by (cases rest) auto
  obtain r' where r: "r = Suc (Suc r')" using Nil(3) by (cases r; cases "r - 1") auto
  have "rd8 tbl p = Some 0" using Nil by (auto intro: rd8_hd)
  moreover have "rd8 tbl (Suc p) = Some c" using drop_offset [of p tbl "[0]" "c # rest'"] Nil(2) c by (auto intro: rd8_hd)
  ultimately show ?case using c r by simp
next
  case (Cons b s)
  then obtain r' where r: "r = Suc r'" by (cases r) auto
  have b: "rd8 tbl p = Some b" "b \<noteq> 0" using Cons.prems by (auto intro: rd8_hd)
  have d: "drop (p + 1) tbl = s @ 0 # rest" using drop_offset [of p tbl "[b]"] Cons.prems(2) by simp
  have "length s + 2 \<le> length (drop (p + 1) tbl)" using Cons.prems(2,4) d by simp
  with Cons.IH [OF _ d, of r'] Cons.prems(1,3) b r show ?case by simp
qed

text \<open>From the strings that follow, the \<open>n\<close>-th on is found, if there is one.\<close>

lemma nth_string_found:
  assumes "\<And>s. s \<in> set ss \<Longrightarrow> s \<noteq> [] \<and> 0 \<notin> set s" "ss \<noteq> []"
    and "drop p tbl = concat (map (\<lambda>s. s @ [0]) ss) @ 0 # rest" "length (concat (map (\<lambda>s. s @ [0]) ss)) < r"
  shows "if n < length ss then \<exists>q ys. nth_string tbl r n (Some p) = Some (Some q) \<and> drop q tbl = ss ! n @ 0 # ys
    else nth_string tbl r n (Some p) = Some None"
  using assms
proof (induction n arbitrary: ss p)
  case 0
  then show ?case by (cases ss) auto
next
  case (Suc n)
  obtain s ts where ss: "ss = s # ts" using Suc.prems(2) by (cases ss) auto
  let ?rest = "concat (map (\<lambda>s. s @ [0]) ts) @ 0 # rest"
  have d: "drop p tbl = s @ 0 # ?rest" and s: "0 \<notin> set s" using Suc.prems(1,3) by (auto simp: ss)
  have "next_string tbl False p r = Some (if hd ?rest \<noteq> 0 then Some (p + length s + 1) else None)"
    using Suc.prems(4) by (intro next_string_end [OF s d]) (simp_all add: ss d)
  moreover have "hd ?rest \<noteq> 0 \<longleftrightarrow> ts \<noteq> []"
  proof (cases ts)
    case (Cons a list)
    with Suc.prems(1) [of a] have "a \<noteq> []" "0 \<notin> set a" by (auto simp: ss)
    then have "hd a \<noteq> 0" using hd_in_set [of a] by metis
    with Cons \<open>a \<noteq> []\<close> show ?thesis by simp
  qed simp
  ultimately have st: "nth_string tbl r (Suc n) (Some p) =
      (if ts \<noteq> [] then nth_string tbl r n (Some (p + length s + 1)) else nth_string tbl r n None)"
    by (simp add: smbios_get_next_string_def)
  have none: "nth_string tbl r n None = Some None" by (cases n) auto
  show ?case
  proof (cases "ts = []")
    case False
    have "drop (p + length s + 1) tbl = ?rest" using drop_offset [of p tbl "s @ [0]"] d by simp
    with Suc.IH [of ts "p + length s + 1"] Suc.prems(1,4) False show ?thesis
      unfolding st by (auto simp: ss split: if_splits)
  qed (use st none ss in simp)
qed

definition string_at :: "bytes list \<Rightarrow> u8 \<Rightarrow> bytes" where
  "string_at ss n = (if 0 < n \<and> unat n \<le> length ss then ss ! (unat n - 1) else [])"

text \<open>A string cut to its buffer and filled with zeros.\<close>

definition padded :: "nat \<Rightarrow> bytes \<Rightarrow> bytes" where
  "padded n s = take (n - 1) s @ replicate (n - length (take (n - 1) s)) 0"

lemma store_padded:
  "length t < n \<Longrightarrow> store (replicate n 0) 0 (t @ [0]) = Some (t @ replicate (n - length t) (0 :: u8))"
  by (simp add: store_def Suc_diff_Suc flip: replicate_Suc)

lemma structure_string_copied:
  assumes "wf_entry e" "drop p tbl = encode_entry e @ rest" "0 < n"
  shows "smbios_copy_structure_string_to_buffer tbl (Some p) (length (encode_entry e @ rest)) i n =
    Some (padded n (string_at (se_strings e) i))"
proof -
  let ?head = "[se_type e, of_nat (4 + length (se_body e))] @ le16 (se_handle e) @ se_body e"
  let ?ss = "se_strings e" and ?p = "p + (4 + length (se_body e))"
  let ?r = "length (string_section ?ss @ rest)"
  have u: "unat (of_nat (4 + length (se_body e)) :: u8) = 4 + length (se_body e)"
    using assms(1) by (simp only: unat_of_nat wf_entry_def) simp
  have e: "encode_entry e @ rest = ?head @ string_section ?ss @ rest" by (simp add: encode_entry_def)
  have len: "rd8 tbl (p + 1) = Some (of_nat (4 + length (se_body e)))"
    using rd_at_drop(1) [OF assms(2), of 1] rd8_append [of 1 "[se_type e]"] by (simp add: encode_entry_def)
  have "drop (p + length ?head) tbl = string_section ?ss @ rest"
    using drop_offset assms(2) unfolding e by blast
  then have d: "drop ?p tbl = string_section ?ss @ rest" by (simp add: numeral_eq_Suc)
  have l: "length (encode_entry e @ rest) = 4 + length (se_body e) + ?r" unfolding e by (simp add: numeral_eq_Suc)
  have none: "nth_string tbl r k None = Some None" for r k by (cases k) auto
  have str: "if 0 < i \<and> unat i \<le> length ?ss
    then \<exists>q ys. smbios_get_structure_string tbl (Some p) (length (encode_entry e @ rest)) (unat i) = Some (Some q) \<and>
      drop q tbl = ?ss ! (unat i - 1) @ 0 # ys
    else smbios_get_structure_string tbl (Some p) (length (encode_entry e @ rest)) (unat i) = Some None"
  proof (cases "i = 0")
    case False
    then have i: "0 < i" "0 < unat i" by (simp_all add: word_gt_0 unat_gt_0)
    show ?thesis
    proof (cases "?ss = []")
      case True
      then have d2: "drop ?p tbl = 0 # 0 # rest" using d by (simp add: string_section_def)
      then have "rd8 tbl ?p = Some 0" "rd8 tbl (?p + 1) = Some 0"
        using drop_offset [of ?p tbl "[0]"] by (auto intro: rd8_hd)
      moreover have "2 \<le> ?r" "0 < ?r" using True by (simp_all add: string_section_def)
      ultimately show ?thesis using len u i True none
        unfolding smbios_get_structure_string_def l by (simp add: Let_def)
    next
      case False
      then have sec: "string_section ?ss = concat (map (\<lambda>s. s @ [0]) ?ss) @ [0]" by (simp add: string_section_def)
      have w: "\<And>s. s \<in> set ?ss \<Longrightarrow> s \<noteq> [] \<and> 0 \<notin> set s" using assms(1) by (auto simp: wf_entry_def)
      from False obtain s ts where ss: "?ss = s # ts" by (cases ?ss) auto
      obtain c cs where c: "s = c # cs" "c \<noteq> 0" using w [of s] ss by (cases s) auto
      have d2: "drop ?p tbl = concat (map (\<lambda>s. s @ [0]) ?ss) @ 0 # rest" using d by (simp add: sec)
      then have c1: "rd8 tbl ?p = Some c" by (intro rd8_hd) (simp add: ss c(1))
      have rr: "length (concat (map (\<lambda>s. s @ [0]) ?ss)) < ?r" by (simp add: sec)
      have "0 < ?r" by (simp add: sec)
      have "smbios_get_structure_string tbl (Some p) (length (encode_entry e @ rest)) (unat i) =
          nth_string tbl ?r (unat i - 1) (Some ?p)"
        using len u i c1 c(2) \<open>0 < ?r\<close> unfolding smbios_get_structure_string_def l by (simp add: Let_def)
      with nth_string_found [OF w False d2 rr, of "unat i - 1"] i show ?thesis
        by (auto simp: Suc_le_eq split: if_splits)
    qed
  qed (use len in \<open>simp add: smbios_get_structure_string_def\<close>)
  show ?thesis
  proof (cases "0 < i \<and> unat i \<le> length ?ss")
    case False
    then show ?thesis using str assms(3)
      by (auto simp: smbios_copy_structure_string_to_buffer_def string_at_def padded_def)
  next
    case True
    with str obtain q ys where q: "smbios_get_structure_string tbl (Some p) (length (encode_entry e @ rest)) (unat i) = Some (Some q)"
      "drop q tbl = ?ss ! (unat i - 1) @ 0 # ys" by auto
    let ?s = "?ss ! (unat i - 1)"
    have "0 < unat i" using True by (simp add: word_less_nat_alt)
    then have "?s \<in> set ?ss" using True by (intro nth_mem) linarith
    then have z: "0 \<notin> set ?s" using assms(1) by (auto simp: wf_entry_def)
    then have cs: "cstr (?s @ 0 # ys) = ?s" unfolding cstr_def by (subst takeWhile_append2) auto
    have "copy_until (n - 1) (drop q tbl) = Some (take (n - 1) ?s)"
      unfolding q(2) using copy_until_cstr [of "?s @ 0 # ys" "n - 1"] unfolding cs by simp
    moreover have "length (take (n - 1) ?s) < n" using assms(3) by simp
    ultimately have "s_strcpy (Some (replicate n 0)) (Some (drop q tbl)) n = Some (Some (padded n ?s))"
      using assms(3) store_padded [of "take (n - 1) ?s" n] by (simp add: s_strcpy_def padded_def)
    with q(1) True assms(3) show ?thesis
      by (simp add: smbios_copy_structure_string_to_buffer_def string_at_def)
  qed
qed

section \<open>Memory devices\<close>

record memory_device =
  md_handle :: u16
  md_arrays :: bytes
  md_total_width :: u16
  md_data_width :: u16
  md_size :: u16
  md_form_factor :: u8
  md_set :: u8
  md_locator :: u8
  md_bank :: u8
  md_type :: u8
  md_detail :: u16
  md_speed :: u16
  md_maker :: u8
  md_tags :: bytes
  md_part :: u8
  md_attributes :: u8
  md_extended_size :: u32
  md_rest :: bytes
  md_strings :: "bytes list"

definition device_body :: "memory_device \<Rightarrow> bytes" where
  "device_body m = md_arrays m @ le16 (md_total_width m) @ le16 (md_data_width m) @ le16 (md_size m) @
     [md_form_factor m, md_set m, md_locator m, md_bank m, md_type m] @ le16 (md_detail m) @ le16 (md_speed m) @
     [md_maker m] @ md_tags m @ [md_part m, md_attributes m] @ le32 (md_extended_size m) @ md_rest m"

definition device_entry_of :: "memory_device \<Rightarrow> smbios_entry" where
  "device_entry_of m = \<lparr>se_type = SMBIOS_STRUCT_TYPE_MEMORY_DEVICE, se_handle = md_handle m,
     se_body = device_body m, se_strings = md_strings m\<rparr>"

text \<open>Two handles in front of the widths, and the serial number and the asset tag in front of the part number;
  the structure may go on behind the extended size.\<close>

definition wf_device :: "memory_device \<Rightarrow> bool" where
  "wf_device m \<longleftrightarrow> length (md_arrays m) = 4 \<and> length (md_tags m) = 2 \<and> wf_entry (device_entry_of m)"

definition size_in_bytes :: "memory_device \<Rightarrow> u64" where
  "size_in_bytes m =
     (if md_size m = SMBIOS_SIZE_UNKNOWN then NVM_DETAILS_SIZE_UNKNOWN
      else if md_size m = SMBIOS_SIZE_EXTENDED
      then ucast (md_extended_size m AND SMBIOS_EXTENDED_SIZE_MASK) * BYTES_PER_MB
      else ucast (md_size m AND SMBIOS_SIZE_MASK) *
        (if md_size m AND SMBIOS_SIZE_KB_GRANULARITY_MASK \<noteq> 0 then BYTES_PER_KB else BYTES_PER_MB))"

definition details_of :: "memory_device \<Rightarrow> nvm_details" where
  "details_of m =
     \<lparr>nv_id = md_handle m, nv_type = md_type m, nv_type_detail_bits = ucast (md_detail m),
      nv_form_factor = ucast (md_form_factor m), nv_data_width = ucast (md_data_width m),
      nv_total_width = ucast (md_total_width m), nv_size = size_in_bytes m, nv_speed = ucast (md_speed m),
      nv_part_number = padded NVM_PART_NUM_LEN (string_at (md_strings m) (md_part m)),
      nv_device_locator = padded NVM_DEVICE_LOCATOR_LEN (string_at (md_strings m) (md_locator m)),
      nv_bank_label = padded NVM_BANK_LABEL_LEN (string_at (md_strings m) (md_bank m)),
      nv_manufacturer = padded NVM_MANUFACTURERSTR_LEN (string_at (md_strings m) (md_maker m))\<rparr>"

lemma device_fields:
  assumes "wf_device m" "drop p tbl = encode_entry (device_entry_of m) @ rest"
  shows "rd16 tbl (p + 2) = Some (md_handle m)" "rd16 tbl (p + 8) = Some (md_total_width m)"
    "rd16 tbl (p + 10) = Some (md_data_width m)" "rd16 tbl (p + 12) = Some (md_size m)"
    "rd8 tbl (p + 14) = Some (md_form_factor m)" "rd8 tbl (p + 16) = Some (md_locator m)"
    "rd8 tbl (p + 17) = Some (md_bank m)" "rd8 tbl (p + 18) = Some (md_type m)" "rd16 tbl (p + 19) = Some (md_detail m)"
    "rd16 tbl (p + 21) = Some (md_speed m)" "rd8 tbl (p + 23) = Some (md_maker m)"
    "rd8 tbl (p + 26) = Some (md_part m)" "rd32 tbl (p + 28) = Some (md_extended_size m)"
proof -
  let ?e = "device_entry_of m"
  let ?h = "[se_type ?e, of_nat (4 + length (se_body ?e))]"
  have l: "length (md_arrays m) = 4" "length (md_tags m) = 2" using assms(1) by (simp_all add: wf_device_def)
  have x: "encode_entry ?e @ rest \<noteq> []" by simp
  note eq = encode_entry_def device_entry_of_def device_body_def
  note rd = rd_at_drop [OF assms(2) x]
  let ?b1 = "?h @ le16 (md_handle m) @ md_arrays m"
  let ?b2 = "?b1 @ le16 (md_total_width m) @ le16 (md_data_width m)"
  let ?b3 = "?b2 @ le16 (md_size m)"
  let ?b4 = "?b3 @ [md_form_factor m, md_set m, md_locator m, md_bank m, md_type m]"
  let ?b5 = "?b4 @ le16 (md_detail m) @ le16 (md_speed m)"
  let ?b6 = "?b5 @ [md_maker m] @ md_tags m"
  show "rd16 tbl (p + 2) = Some (md_handle m)"
    unfolding rd using rd16_append [of 2 ?h "md_handle m"] by (simp add: eq)
  show "rd16 tbl (p + 8) = Some (md_total_width m)"
    unfolding rd using rd16_append [of 8 ?b1 "md_total_width m"] l by (simp add: eq)
  show "rd16 tbl (p + 10) = Some (md_data_width m)"
    unfolding rd using rd16_append [of 10 "?b1 @ le16 (md_total_width m)" "md_data_width m"] l by (simp add: eq)
  show "rd16 tbl (p + 12) = Some (md_size m)"
    unfolding rd using rd16_append [of 12 ?b2 "md_size m"] l by (simp add: eq)
  show "rd8 tbl (p + 14) = Some (md_form_factor m)"
    unfolding rd using rd8_append [of 14 ?b3 "md_form_factor m"] l by (simp add: eq)
  show "rd8 tbl (p + 16) = Some (md_locator m)"
    unfolding rd using rd8_append [of 16 "?b3 @ [md_form_factor m, md_set m]" "md_locator m"] l by (simp add: eq)
  show "rd8 tbl (p + 17) = Some (md_bank m)"
    unfolding rd using rd8_append [of 17 "?b3 @ [md_form_factor m, md_set m, md_locator m]" "md_bank m"] l by (simp add: eq)
  show "rd8 tbl (p + 18) = Some (md_type m)"
    unfolding rd using rd8_append [of 18 "?b3 @ [md_form_factor m, md_set m, md_locator m, md_bank m]" "md_type m"] l by (simp add: eq)
  show "rd16 tbl (p + 19) = Some (md_detail m)"
    unfolding rd using rd16_append [of 19 ?b4 "md_detail m"] l by (simp add: eq)
  show "rd16 tbl (p + 21) = Some (md_speed m)"
    unfolding rd using rd16_append [of 21 "?b4 @ le16 (md_detail m)" "md_speed m"] l by (simp add: eq)
  show "rd8 tbl (p + 23) = Some (md_maker m)"
    unfolding rd using rd8_append [of 23 ?b5 "md_maker m"] l by (simp add: eq)
  show "rd8 tbl (p + 26) = Some (md_part m)"
    unfolding rd using rd8_append [of 26 ?b6 "md_part m"] l by (simp add: eq)
  show "rd32 tbl (p + 28) = Some (md_extended_size m)"
    unfolding rd using rd32_append [of 28 "?b6 @ [md_part m, md_attributes m]" "md_extended_size m"] l by (simp add: eq)
qed

lemma device_details:
  assumes "wf_device m" "drop p tbl = encode_entry (device_entry_of m) @ rest"
  shows "smbios_memory_device_to_nvm_details tbl p (length (encode_entry (device_entry_of m) @ rest)) = Some (details_of m)"
proof -
  have w: "wf_entry (device_entry_of m)" using assms(1) by (simp add: wf_device_def)
  have s: "smbios_copy_structure_string_to_buffer tbl (Some p) (length (encode_entry (device_entry_of m) @ rest)) i n =
      Some (padded n (string_at (md_strings m) i))" if "0 < n" for i n
    using structure_string_copied [OF w assms(2) that] by (simp add: device_entry_of_def)
  note f = device_fields [OF assms]
  have "smbios_get_memory_device_size_in_bytes tbl p = Some (size_in_bytes m)"
    by (simp add: smbios_get_memory_device_size_in_bytes_def f size_in_bytes_def)
  then show ?thesis
    unfolding smbios_memory_device_to_nvm_details_def
    by (simp only: f s bind.bind_lunit details_of_def zero_less_numeral)
qed

text \<open>C23. A memory device in a table of well-formed structures with distinct handles is found by its handle and
  read back: its fields, its size in bytes, and the strings its numbers name, cut to their buffers.\<close>

theorem memory_device_round_trip:
  assumes "wf_table es" "distinct (map se_handle es)" "device_entry_of m \<in> set es" "wf_device m"
  shows "get_dimm_details_from_smbios_table (encode_table es) (md_handle m) = Some (NVM_SUCCESS, Some (details_of m))"
proof -
  let ?tbl = "encode_table es" and ?h = "md_handle m"
  obtain us vs where es: "es = us @ device_entry_of m # vs" using assms(3) by (metis split_list)
  have h: "se_handle (device_entry_of m) = ?h" by (simp add: device_entry_of_def)
  with assms(2) have "\<forall>e \<in> set us. se_handle e \<noteq> ?h" by (force simp: es)
  then have f: "dropWhile (\<lambda>e. se_handle e \<noteq> ?h) es = device_entry_of m # vs" using h by (simp add: es)
  obtain e es' where e: "es = e # es'" by (cases es) (auto simp: es)
  have "4 \<le> length ?tbl" using entry_size [of e] by (simp add: e)
  then have "smbios_get_structure_with_handle ?h ?tbl (Some 0) (length ?tbl) = with_handle ?h ?tbl 0 (length ?tbl)"
    by (simp add: smbios_get_structure_with_handle_def)
  with handle_located [of e es' 0 ?tbl ?h] assms(1) f obtain p where
    p: "smbios_get_structure_with_handle ?h ?tbl (Some 0) (length ?tbl) =
      Some (Some p, length (encode_entry (device_entry_of m) @ encode_table vs))"
      "drop p ?tbl = encode_entry (device_entry_of m) @ encode_table vs"
    by (auto simp: e located_def)
  have "rd8 ?tbl p = Some 17" using entry_type [of p ?tbl "device_entry_of m" vs] p(2) by (simp add: device_entry_of_def)
  with p(1) device_details [OF assms(4) p(2)] show ?thesis by (simp add: get_dimm_details_from_smbios_table_def)
qed

text \<open>When stray bytes follow the last structure, fewer than a header, a search for a handle that no structure
  has ends at them, and they are read as a memory device if the first of them is that type: behind the table.\<close>

theorem stray_bytes_are_read_behind:
  assumes "wf_entry e" "se_handle e \<noteq> h" "length xs < 3"
  shows "get_dimm_details_from_smbios_table (encode_entry e @ SMBIOS_STRUCT_TYPE_MEMORY_DEVICE # xs) h = None"
proof -
  let ?tbl = "encode_entry e @ SMBIOS_STRUCT_TYPE_MEMORY_DEVICE # xs" and ?p = "length (encode_entry e)"
  have n: "smbios_get_next_structure ?tbl (Some 0) (length ?tbl) = Some (Some ?p, Suc (length xs))"
    using next_structure [OF assms(1), of 0 ?tbl] by simp
  have "rd16 ?tbl 2 = Some (se_handle e)"
    using rd16_append [of 2 "[se_type e, of_nat (4 + length (se_body e))]" "se_handle e"] by (simp add: encode_entry_def)
  with n assms(2,3) have "with_handle h ?tbl 0 (length ?tbl) = Some (Some ?p, Suc (length xs))"
    by (subst with_handle.simps) (simp add: numeral_2_eq_2)
  moreover have "4 \<le> length ?tbl" using entry_size [of e] by simp
  moreover have "rd8 ?tbl ?p = Some 17" by (rule rd8_append) simp
  moreover have "rd8 ?tbl (?p + 18) = None" using assms(3) by (simp add: rd8_def load_def)
  then have "smbios_memory_device_to_nvm_details ?tbl ?p l = None" for l
    by (cases "rd16 ?tbl (?p + 2)") (simp_all add: smbios_memory_device_to_nvm_details_def)
  ultimately show ?thesis
    by (simp add: get_dimm_details_from_smbios_table_def smbios_get_structure_with_handle_def)
qed

section \<open>A sample table\<close>

definition bios_entry :: smbios_entry where
  "bios_entry = \<lparr>se_type = 0, se_handle = 1, se_body = replicate 14 0, se_strings = [ascii ''Vendor'']\<rparr>"

definition sample_memory :: memory_device where
  "sample_memory = \<lparr>md_handle = 0x11, md_arrays = replicate 4 0, md_total_width = 72, md_data_width = 64,
     md_size = 0x7FFF, md_form_factor = 9, md_set = 0, md_locator = 1, md_bank = 0, md_type = 0x1A, md_detail = 0x1000,
     md_speed = 2133, md_maker = 3, md_tags = [0, 0], md_part = 2, md_attributes = 0, md_extended_size = 0x20000,
     md_rest = replicate 8 0, md_strings = [ascii ''DIMM1'', ascii ''Part'']\<rparr>"

lemma sample_table: "wf_entry bios_entry" "wf_device sample_memory" "wf_table [bios_entry, device_entry_of sample_memory]"
  by (simp_all add: wf_table_def wf_device_def wf_entry_def bios_entry_def sample_memory_def device_entry_of_def
      device_body_def ascii_def)

theorem structures_counted_witness:
  "smbios_get_structure_count_of_type 17 (encode_table [bios_entry, device_entry_of sample_memory]) (Some 0)
     (length (encode_table [bios_entry, device_entry_of sample_memory])) = Some 1"
  using structures_counted [OF sample_table(3), of 17] by (simp add: bios_entry_def device_entry_of_def)

theorem memory_device_round_trip_witness:
  "\<exists>d. get_dimm_details_from_smbios_table (encode_table [bios_entry, device_entry_of sample_memory]) 0x11 =
      Some (NVM_SUCCESS, Some d) \<and> nv_size d = 0x2000000000 \<and> nv_data_width d = 64 \<and>
    take 5 (nv_part_number d) = ascii ''Part'' @ [0] \<and> nv_manufacturer d = replicate 256 0"
proof -
  have "md_handle sample_memory = 0x11" by (simp add: sample_memory_def)
  then have r: "get_dimm_details_from_smbios_table (encode_table [bios_entry, device_entry_of sample_memory]) 0x11 =
      Some (NVM_SUCCESS, Some (details_of sample_memory))"
    using memory_device_round_trip [OF sample_table(3) _ _ sample_table(2)]
    by (simp add: bios_entry_def device_entry_of_def)
  have "nv_size (details_of sample_memory) = 0x2000000000" "nv_data_width (details_of sample_memory) = 64"
    "take 5 (nv_part_number (details_of sample_memory)) = ascii ''Part'' @ [0]"
    "nv_manufacturer (details_of sample_memory) = replicate 256 0"
    by (simp_all add: details_of_def size_in_bytes_def sample_memory_def string_at_def padded_def ascii_def)
  with r show ?thesis by blast
qed

theorem stray_bytes_are_read_behind_witness:
  "get_dimm_details_from_smbios_table (encode_entry bios_entry @ [SMBIOS_STRUCT_TYPE_MEMORY_DEVICE]) 5 = None"
  using stray_bytes_are_read_behind [OF sample_table(1), of 5 "[]"] by (simp add: bios_entry_def)

end
