(* ===== verification/Database.thy ===== *)
theory Database
  imports Guid
begin

text \<open>
  The configuration database (\<^verbatim>\<open>src/common/persistence/lib_persistence.c\<close> and the templates of
  the generated table operations, \<^verbatim>\<open>schema.c.template\<close> and \<^verbatim>\<open>schema_non_template.c\<close> of
  \<^verbatim>\<open>tools/db_schema_gen\<close>). SQLite is a parameter: what preparing a statement and its first
  step return, and the rows of a query. The table operations and the settings on top of them are modelled.
\<close>

section \<open>Statements and SQLite\<close>

record db_event =
  db_id :: int
  db_type :: u32
  db_severity :: u32
  db_code :: u32
  db_action_required :: u32
  db_guid :: string
  db_time :: u64
  db_arg1 :: string
  db_arg2 :: string
  db_arg3 :: string
  db_diag_result :: u32

text \<open>The SQL texts the code makes, with the values bound to them.\<close>

datatype statement =
    InsertEvent db_event | SelectEvents | SelectEvent int | UpdateEvent int db_event | DeleteEvent int
  | CountEvents | MaxEventId | TrimEvents int
  | SelectConfig string | InsertConfig string string | DeleteConfig string

text \<open>
  SQLite: whether \<^verbatim>\<open>sqlite3_prepare_v2\<close> accepts a statement, the first \<^verbatim>\<open>sqlite3_step\<close> of
  one without a result, the rows the steps of a query give, the first column of its first row as an
  \<^verbatim>\<open>int\<close>, and the text of the second.
\<close>

record 'db sqlite =
  sq_prepare :: "statement \<Rightarrow> 'db \<Rightarrow> bool"
  sq_step :: "statement \<Rightarrow> 'db \<Rightarrow> int \<times> 'db"
  sq_rows :: "statement \<Rightarrow> 'db \<Rightarrow> db_event list"
  sq_int :: "statement \<Rightarrow> 'db \<Rightarrow> int option"
  sq_text :: "statement \<Rightarrow> 'db \<Rightarrow> string option"

abbreviation (input) SQLITE_OK :: int where "SQLITE_OK \<equiv> 0"
abbreviation (input) SQLITE_DONE :: int where "SQLITE_DONE \<equiv> 101"
abbreviation (input) DB_SUCCESS :: int where "DB_SUCCESS \<equiv> 0"
abbreviation (input) DB_ERR_FAILURE :: int where "DB_ERR_FAILURE \<equiv> - 1"
abbreviation (input) COMMON_SUCCESS :: int where "COMMON_SUCCESS \<equiv> 0"
abbreviation (input) COMMON_ERR_UNKNOWN :: int where "COMMON_ERR_UNKNOWN \<equiv> - 1"
abbreviation (input) COMMON_ERR_INVALIDPARAMETER :: int where "COMMON_ERR_INVALIDPARAMETER \<equiv> - 39"

text \<open>A text as it arrives in a field of \<open>n\<close> characters.\<close>

definition field_text :: "nat \<Rightarrow> string \<Rightarrow> string" where
  "field_text n s = take (n - 1) s"

section \<open>Table operations\<close>

definition run_sql_no_results :: "'db sqlite \<Rightarrow> statement \<Rightarrow> 'db \<Rightarrow> int \<times> 'db" where
  "run_sql_no_results sq st db =
     (if sq_prepare sq st db then
        let (r, db) = sq_step sq st db in (if r = SQLITE_DONE then DB_SUCCESS else DB_ERR_FAILURE, db)
      else (DB_ERR_FAILURE, db))"

definition run_scalar_sql :: "'db sqlite \<Rightarrow> statement \<Rightarrow> 'db \<Rightarrow> int \<Rightarrow> int \<times> int" where
  "run_scalar_sql sq st db old =
     (if sq_prepare sq st db then
        case sq_int sq st db of Some n \<Rightarrow> (DB_SUCCESS, n) | None \<Rightarrow> (DB_ERR_FAILURE, old)
      else (DB_ERR_FAILURE, old))"

definition table_row_count :: "'db sqlite \<Rightarrow> statement \<Rightarrow> 'db \<Rightarrow> int \<times> int" where
  "table_row_count sq st db = run_scalar_sql sq st db 0"

definition db_add_event :: "'db sqlite \<Rightarrow> db_event \<Rightarrow> 'db \<Rightarrow> int \<times> 'db" where
  "db_add_event sq e db =
     (if sq_prepare sq (InsertEvent e) db then
        let (r, db) = sq_step sq (InsertEvent e) db in
        (if r = SQLITE_DONE then DB_SUCCESS else DB_ERR_FAILURE, db)
      else (DB_ERR_FAILURE, db))"

definition db_get_event_count :: "'db sqlite \<Rightarrow> 'db \<Rightarrow> int \<times> int" where
  "db_get_event_count sq db = table_row_count sq CountEvents db"

text \<open>At most \<open>n\<close> rows; the result is their number.\<close>

definition db_get_events :: "'db sqlite \<Rightarrow> nat \<Rightarrow> 'db \<Rightarrow> int \<times> db_event list" where
  "db_get_events sq n db =
     (if sq_prepare sq SelectEvents db then
        let es = take n (sq_rows sq SelectEvents db) in (int (length es), es)
      else (DB_ERR_FAILURE, []))"

definition db_get_event_by_id :: "'db sqlite \<Rightarrow> int \<Rightarrow> 'db \<Rightarrow> int \<times> db_event option" where
  "db_get_event_by_id sq i db =
     (if sq_prepare sq (SelectEvent i) db then
        case sq_rows sq (SelectEvent i) db of e # _ \<Rightarrow> (DB_SUCCESS, Some e) | [] \<Rightarrow> (DB_ERR_FAILURE, None)
      else (DB_ERR_FAILURE, None))"

text \<open>The result of the step is compared with \<^verbatim>\<open>SQLITE_OK\<close> first, and the comparison is kept.\<close>

definition db_update_event_by_id :: "'db sqlite \<Rightarrow> int \<Rightarrow> db_event \<Rightarrow> 'db \<Rightarrow> int \<times> 'db" where
  "db_update_event_by_id sq i e db =
     (if sq_prepare sq (UpdateEvent i e) db then
        let (r, db) = sq_step sq (UpdateEvent i e) db;
            sqlrc = (if r = SQLITE_OK then 1 else 0) :: int
        in (if sqlrc \<noteq> SQLITE_OK then DB_ERR_FAILURE else DB_SUCCESS, db)
      else (DB_ERR_FAILURE, db))"

definition db_delete_event_by_id :: "'db sqlite \<Rightarrow> int \<Rightarrow> 'db \<Rightarrow> int \<times> 'db" where
  "db_delete_event_by_id sq i db =
     (if sq_prepare sq (DeleteEvent i) db then
        let (r, db) = sq_step sq (DeleteEvent i) db in
        (if r = SQLITE_DONE then DB_SUCCESS else DB_ERR_FAILURE, db)
      else (DB_ERR_FAILURE, db))"

abbreviation (input) CONFIG_KEY_LEN :: nat where "CONFIG_KEY_LEN \<equiv> 256"
abbreviation (input) CONFIG_VALUE_LEN :: nat where "CONFIG_VALUE_LEN \<equiv> 1024"

text \<open>The structure is cleared first: the value of a setting that is not found is empty.\<close>

definition db_get_config_by_key :: "'db sqlite \<Rightarrow> string \<Rightarrow> 'db \<Rightarrow> int \<times> string" where
  "db_get_config_by_key sq key db =
     (if sq_prepare sq (SelectConfig key) db then
        case sq_text sq (SelectConfig key) db of
          Some v \<Rightarrow> (DB_SUCCESS, take CONFIG_VALUE_LEN v)
        | None \<Rightarrow> (DB_ERR_FAILURE, [])
      else (DB_ERR_FAILURE, []))"

definition db_add_config :: "'db sqlite \<Rightarrow> string \<Rightarrow> string \<Rightarrow> 'db \<Rightarrow> int \<times> 'db" where
  "db_add_config sq key v db =
     (if sq_prepare sq (InsertConfig key v) db then
        let (r, db) = sq_step sq (InsertConfig key v) db in
        (if r = SQLITE_DONE then DB_SUCCESS else DB_ERR_FAILURE, db)
      else (DB_ERR_FAILURE, db))"

definition db_delete_config_by_key :: "'db sqlite \<Rightarrow> string \<Rightarrow> 'db \<Rightarrow> int \<times> 'db" where
  "db_delete_config_by_key sq key db =
     (if sq_prepare sq (DeleteConfig key) db then
        let (r, db) = sq_step sq (DeleteConfig key) db in
        (if r = SQLITE_DONE then DB_SUCCESS else DB_ERR_FAILURE, db)
      else (DB_ERR_FAILURE, db))"

section \<open>Settings\<close>

text \<open>The functions compare the result of a call with \<^verbatim>\<open>rc\<close> where an assignment was meant, so a
  result other than \<^verbatim>\<open>COMMON_ERR_UNKNOWN\<close> counts as a success.\<close>

definition get_config_value :: "'db sqlite \<Rightarrow> 'db option \<Rightarrow> string option \<Rightarrow> int \<times> string option" where
  "get_config_value sq p_store key =
     (case key of
        None \<Rightarrow> (COMMON_ERR_INVALIDPARAMETER, None)
      | Some k \<Rightarrow>
          (case p_store of
             None \<Rightarrow> (COMMON_ERR_UNKNOWN, None)
           | Some db \<Rightarrow>
               let (r, v) = db_get_config_by_key sq k db;
                   test = (if COMMON_ERR_UNKNOWN = r then 1 else 0) :: int
               in if test = DB_SUCCESS then (COMMON_SUCCESS, Some (field_text CONFIG_VALUE_LEN v))
                  else (COMMON_ERR_UNKNOWN, None)))"

text \<open>\<^verbatim>\<open>strtol\<close> with base 0: white space, a sign, a prefix that gives the base, digits.\<close>

definition digit_of :: "char \<Rightarrow> nat option" where
  "digit_of c =
     (let n = of_char c :: nat in
      if 48 \<le> n \<and> n \<le> 57 then Some (n - 48)
      else if 97 \<le> n \<and> n \<le> 122 then Some (n - 87)
      else if 65 \<le> n \<and> n \<le> 90 then Some (n - 55)
      else None)"

definition is_digit :: "nat \<Rightarrow> char \<Rightarrow> bool" where
  "is_digit base c = (case digit_of c of Some d \<Rightarrow> d < base | None \<Rightarrow> False)"

fun digits_int :: "nat \<Rightarrow> string \<Rightarrow> int \<Rightarrow> int" where
  "digits_int base [] acc = acc"
| "digits_int base (c # cs) acc =
     (case digit_of c of
        Some d \<Rightarrow> if d < base then digits_int base cs (acc * int base + int d) else acc
      | None \<Rightarrow> acc)"

definition strtol_magnitude :: "string \<Rightarrow> int" where
  "strtol_magnitude s =
     (case s of
        CHR ''0'' # x # c # cs \<Rightarrow>
          if (x = CHR ''x'' \<or> x = CHR ''X'') \<and> is_digit 16 c then digits_int 16 (c # cs) 0
          else digits_int 8 s 0
      | CHR ''0'' # _ \<Rightarrow> digits_int 8 s 0
      | _ \<Rightarrow> digits_int 10 s 0)"

definition strtol :: "string \<Rightarrow> int" where
  "strtol s =
     (let t = dropWhile (\<lambda>c. c = CHR '' '' \<or> (9 \<le> (of_char c :: nat) \<and> (of_char c :: nat) \<le> 13)) s;
          v = (case t of
                 CHR ''-'' # u \<Rightarrow> - strtol_magnitude u
               | CHR ''+'' # u \<Rightarrow> strtol_magnitude u
               | u \<Rightarrow> strtol_magnitude u)
      in max (- (2 ^ 63)) (min (2 ^ 63 - 1) v))"

text \<open>The long value in an \<^verbatim>\<open>int\<close>.\<close>

definition to_int :: "int \<Rightarrow> int" where
  "to_int v = sint (word_of_int v :: u32)"

definition get_config_value_int ::
  "'db sqlite \<Rightarrow> 'db option \<Rightarrow> string option \<Rightarrow> int \<times> int option" where
  "get_config_value_int sq p_store key =
     (case key of
        None \<Rightarrow> (COMMON_ERR_INVALIDPARAMETER, None)
      | Some k \<Rightarrow>
          let (r, v) = get_config_value sq p_store (Some k);
              test = (if COMMON_ERR_UNKNOWN = r then 1 else 0) :: int
          in if test = COMMON_SUCCESS then (COMMON_SUCCESS, map_option (\<lambda>s. to_int (strtol s)) v)
             else (COMMON_ERR_UNKNOWN, None))"

definition rm_config_value :: "'db sqlite \<Rightarrow> 'db option \<Rightarrow> string option \<Rightarrow> int \<times> 'db option" where
  "rm_config_value sq p_store key =
     (case (key, p_store) of
        (None, _) \<Rightarrow> (COMMON_ERR_INVALIDPARAMETER, p_store)
      | (Some _, None) \<Rightarrow> (COMMON_ERR_UNKNOWN, None)
      | (Some k, Some db) \<Rightarrow>
          let (r, db) = db_delete_config_by_key sq k db in
          (if r = DB_SUCCESS then COMMON_SUCCESS else COMMON_ERR_UNKNOWN, Some db))"

definition add_config_value ::
  "'db sqlite \<Rightarrow> 'db option \<Rightarrow> string option \<Rightarrow> string option \<Rightarrow> int \<times> 'db option" where
  "add_config_value sq p_store key v =
     (case (key, v, p_store) of
        (Some k, Some x, Some db) \<Rightarrow>
          let (_, p_store) = rm_config_value sq (Some db) (Some k);
              (r, db) = db_add_config sq (field_text CONFIG_KEY_LEN k) (field_text CONFIG_VALUE_LEN x) (the p_store)
          in (if r = DB_SUCCESS then COMMON_SUCCESS else COMMON_ERR_UNKNOWN, Some db)
      | (Some _, Some _, None) \<Rightarrow> (COMMON_ERR_UNKNOWN, None)
      | _ \<Rightarrow> (COMMON_ERR_INVALIDPARAMETER, p_store))"

definition add_config_value_to_pstore :: "'db sqlite \<Rightarrow> string \<times> string \<Rightarrow> 'db \<Rightarrow> 'db" where
  "add_config_value_to_pstore sq kv db =
     snd (db_add_config sq (field_text CONFIG_KEY_LEN (fst kv)) (field_text CONFIG_VALUE_LEN (snd kv)) db)"

text \<open>The settings of a new database, on a system other than ESX.\<close>

definition default_settings :: "(string \<times> string) list" where
  "default_settings =
     [(''LOG_LEVEL'', ''0''),
      (''EVENT_POLLING_INTERVAL_SECONDS'', ''60''),
      (''ENCRYPT_GATHER_SUPPORT'', ''1''),
      (''GATHER_SUPPORT_FILTER'', ''15''),
      (''SUPPORT_SNAPSHOT_MAX'', ''100''),
      (''FW_MAJOR_MIN'', ''1''),
      (''FW_MAJOR_MAX'', ''0''),
      (''WIN_DRIVER_MAJOR_MIN'', ''1''),
      (''WIN_DRIVER_MAJOR_MAX'', ''1''),
      (''LNX_DRIVER_MAJOR_MIN'', ''0''),
      (''LNX_DRIVER_MAJOR_MAX'', ''0''),
      (''ESX_DRIVER_MAJOR_MIN'', ''0''),
      (''ESX_DRIVER_MAJOR_MAX'', ''6''),
      (''VALID_MANUFACTURER'', ''0x8086''),
      (''VALID_MODEL_NUM'', ''Simulated DIMM''),
      (''VALID_VENDOR_ID'', ''0x8086''),
      (''UNCORRECTABLE_ERRORS_THRESHOLD'', ''10''),
      (''CORRECTED_ERRORS_THRESHOLD'', ''10''),
      (''ERASURE_CODED_CORRECTED_ERRORS_THRESHOLD'', ''10''),
      (''PERCENT_USED_THRESHOLD'', ''90''),
      (''MAX_HEALTH_STATUS'', ''0''),
      (''LOG_DESTINATION'', ''0''),
      (''LOG_MAX'', ''10000''),
      (''DEFAULT_TEMPERATURE_THRESHOLD'', ''81.5''),
      (''DEFAULT_SPARE_BLOCK_THRESHOLD'', ''50''),
      (''FW_LOG_LEVEL'', ''1''),
      (''FW_TIME_DRIFT'', ''120''),
      (''FW_TDP_POW_MIN'', ''10''),
      (''FW_TDP_POW_MAX'', ''18''),
      (''FW_PEAK_POW_BUDGET_MIN'', ''100''),
      (''FW_PEAK_POW_BUDGET_MAX'', ''20000''),
      (''FW_AVG_POW_BUDGET_MIN'', ''100''),
      (''FW_AVG_POW_BUDGET_MAX'', ''18000''),
      (''FW_DIE_SPARING_AGGRESSIVENESS'', ''128''),
      (''PERFORMANCE_MONITOR_ENABLED'', ''1''),
      (''PERFORMANCE_MONITOR_INTERVAL_SECONDS'', ''10800''),
      (''PERFORMANCE_LOG_MAX'', ''10000''),
      (''PERFORMANCE_LOG_TRIM_PERCENT'', ''30''),
      (''EVENT_MONITOR_ENABLED'', ''1''),
      (''EVENT_MONITOR_INTERVAL_SECONDS'', ''60''),
      (''EVENT_LOG_MAX'', ''10000''),
      (''EVENT_LOG_TRIM_PERCENT'', ''10''),
      (''TOPOLOGY_STATE_VALID'', ''0''),
      (''CLI_DEFAULT_DIMM_ID'', ''HANDLE''),
      (''CLI_DEFAULT_SIZE'', ''AUTO'')]"

definition set_default_config_settings :: "'db sqlite \<Rightarrow> 'db option \<Rightarrow> int \<times> 'db option" where
  "set_default_config_settings sq p_store =
     (case p_store of
        None \<Rightarrow> (COMMON_ERR_UNKNOWN, None)
      | Some db \<Rightarrow>
          (COMMON_SUCCESS, Some (foldl (\<lambda>db kv. add_config_value_to_pstore sq kv db) db default_settings)))"

text \<open>\<open>created\<close> is the empty database \<^verbatim>\<open>create_PersistentStore\<close> opens at the path, if it can.\<close>

definition create_default_config :: "'db sqlite \<Rightarrow> string option \<Rightarrow> 'db option \<Rightarrow> int \<times> 'db option" where
  "create_default_config sq path created =
     (case path of
        None \<Rightarrow> (COMMON_ERR_INVALIDPARAMETER, None)
      | Some _ \<Rightarrow>
          (case created of None \<Rightarrow> (COMMON_ERR_UNKNOWN, None) | Some db \<Rightarrow> set_default_config_settings sq (Some db)))"

section \<open>What SQLite promises\<close>

text \<open>The event table as the code lists it: newest first.\<close>

definition event_rows :: "'db sqlite \<Rightarrow> 'db \<Rightarrow> db_event list" where
  "event_rows sq db = sq_rows sq SelectEvents db"

definition setting :: "'db sqlite \<Rightarrow> 'db \<Rightarrow> string \<Rightarrow> string option" where
  "setting sq db k = sq_text sq (SelectConfig k) db"

text \<open>The rows \<^verbatim>\<open>DELETE FROM event where id IN (SELECT id FROM event where action_required = 0
  ORDER BY id LIMIT n)\<close> removes: a negative limit is none.\<close>

definition trimmed_ids :: "int \<Rightarrow> db_event list \<Rightarrow> int list" where
  "trimmed_ids n es =
     (let ids = map db_id (filter (\<lambda>e. db_action_required e = 0) (rev es))
      in if n < 0 then ids else take (nat n) ids)"

definition newest_first :: "db_event list \<Rightarrow> bool" where
  "newest_first es = sorted_wrt (\<lambda>a b. db_id b < db_id a) es"

text \<open>
  SQLite on a database that accepts every statement: \<open>ok\<close> is the state of a database whose tables are
  as the schema describes. Identifiers of events only grow, a key has one setting.
\<close>

locale sqlite_store =
  fixes sq :: "'db sqlite" and ok :: "'db \<Rightarrow> bool"
  assumes prepared: "ok db \<Longrightarrow> sq_prepare sq st db"
    and ok_step: "ok db \<Longrightarrow> ok (snd (sq_step sq st db))"
    and newest: "ok db \<Longrightarrow> newest_first (event_rows sq db)"
    and insert_event: "ok db \<Longrightarrow> fst (sq_step sq (InsertEvent e) db) = SQLITE_DONE \<and>
      (\<exists>i. (\<forall>r \<in> set (event_rows sq db). db_id r < i) \<and>
           event_rows sq (snd (sq_step sq (InsertEvent e) db)) = e\<lparr>db_id := i\<rparr> # event_rows sq db)"
    and delete_event: "ok db \<Longrightarrow> fst (sq_step sq (DeleteEvent i) db) = SQLITE_DONE \<and>
      event_rows sq (snd (sq_step sq (DeleteEvent i) db)) = filter (\<lambda>r. db_id r \<noteq> i) (event_rows sq db)"
    and update_event: "ok db \<Longrightarrow> i = db_id e \<Longrightarrow> fst (sq_step sq (UpdateEvent i e) db) = SQLITE_DONE \<and>
      event_rows sq (snd (sq_step sq (UpdateEvent i e) db)) =
        map (\<lambda>r. if db_id r = i then e else r) (event_rows sq db)"
    and trim_events: "ok db \<Longrightarrow> fst (sq_step sq (TrimEvents n) db) = SQLITE_DONE \<and>
      event_rows sq (snd (sq_step sq (TrimEvents n) db)) =
        filter (\<lambda>r. db_id r \<notin> set (trimmed_ids n (event_rows sq db))) (event_rows sq db)"
    and count_events: "ok db \<Longrightarrow> sq_int sq CountEvents db = Some (int (length (event_rows sq db)))"
    and max_event_id: "ok db \<Longrightarrow> sq_int sq MaxEventId db =
      Some (case event_rows sq db of e # _ \<Rightarrow> db_id e | [] \<Rightarrow> 0)"
    and select_event: "ok db \<Longrightarrow> sq_rows sq (SelectEvent i) db = filter (\<lambda>r. db_id r = i) (event_rows sq db)"
    and insert_config: "ok db \<Longrightarrow>
      fst (sq_step sq (InsertConfig k v) db) = (if setting sq db k = None then SQLITE_DONE else 19) \<and>
      setting sq (snd (sq_step sq (InsertConfig k v) db)) =
        (if setting sq db k = None then (setting sq db)(k \<mapsto> v) else setting sq db)"
    and delete_config: "ok db \<Longrightarrow> fst (sq_step sq (DeleteConfig k) db) = SQLITE_DONE \<and>
      setting sq (snd (sq_step sq (DeleteConfig k) db)) = (setting sq db)(k := None)"
    and settings_kept: "ok db \<Longrightarrow> st \<in> {InsertEvent e, UpdateEvent i e, DeleteEvent i, TrimEvents n} \<Longrightarrow>
      setting sq (snd (sq_step sq st db)) = setting sq db"
begin

lemma add_setting:
  assumes "ok db" "setting sq db k = None" "length k < CONFIG_KEY_LEN" "length v < CONFIG_VALUE_LEN"
  shows "ok (add_config_value_to_pstore sq (k, v) db)"
    and "setting sq (add_config_value_to_pstore sq (k, v) db) = (setting sq db)(k \<mapsto> v)"
  using assms ok_step [OF assms(1), of "InsertConfig k v"] insert_config [OF assms(1), of k v] prepared
  by (simp_all add: add_config_value_to_pstore_def db_add_config_def field_text_def case_prod_unfold)

lemma add_settings:
  assumes "ok db" "distinct (map fst kvs)"
    "list_all (\<lambda>(k, v). length k < CONFIG_KEY_LEN \<and> length v < CONFIG_VALUE_LEN \<and> setting sq db k = None) kvs"
  shows "ok (foldl (\<lambda>db kv. add_config_value_to_pstore sq kv db) db kvs) \<and>
    setting sq (foldl (\<lambda>db kv. add_config_value_to_pstore sq kv db) db kvs) = setting sq db ++ map_of (rev kvs)"
  using assms
proof (induction kvs arbitrary: db)
  case (Cons kv kvs)
  obtain k v where kv: "kv = (k, v)" by force
  let ?db = "add_config_value_to_pstore sq kv db"
  from Cons.prems have "setting sq db k = None" "length k < CONFIG_KEY_LEN" "length v < CONFIG_VALUE_LEN"
    by (simp_all add: kv)
  then have a: "ok ?db" "setting sq ?db = (setting sq db)(k \<mapsto> v)"
    using add_setting [OF Cons.prems(1)] by (simp_all add: kv)
  have e: "length j < CONFIG_KEY_LEN \<and> length w < CONFIG_VALUE_LEN \<and> setting sq db j = None \<and> j \<noteq> k"
    if "(j, w) \<in> set kvs" for j w
  proof -
    have "(j, w) \<in> set (kv # kvs)" using that by simp
    with Cons.prems(3) have "case (j, w) of (k, v) \<Rightarrow>
        length k < CONFIG_KEY_LEN \<and> length v < CONFIG_VALUE_LEN \<and> setting sq db k = None"
      unfolding list_all_iff by (rule bspec)
    moreover have "j \<in> fst ` set kvs" using that by force
    ultimately show ?thesis using Cons.prems(2) by (auto simp: kv)
  qed
  have l: "list_all (\<lambda>(j, w). length j < CONFIG_KEY_LEN \<and> length w < CONFIG_VALUE_LEN \<and> setting sq ?db j = None) kvs"
    unfolding list_all_iff a(2) using e by auto
  have "k \<notin> fst ` set kvs" using Cons.prems(2) by (simp add: kv)
  then have "map_of (rev kvs) k = None" by (simp add: map_of_eq_None_iff)
  then have "(setting sq db)(k \<mapsto> v) ++ map_of (rev kvs) = setting sq db ++ map_of (rev (kv # kvs))"
    by (auto simp: kv map_add_def fun_eq_iff split: option.splits)
  with Cons.IH [OF a(1) _ l] Cons.prems(2) a(2) show ?case by (simp add: kv fun_upd_def)
qed simp

lemma value_of_setting:
  assumes "ok db"
  shows "get_config_value sq (Some db) (Some k) =
    (case setting sq db k of Some v \<Rightarrow> (COMMON_SUCCESS, Some (field_text CONFIG_VALUE_LEN (take CONFIG_VALUE_LEN v)))
     | None \<Rightarrow> (COMMON_ERR_UNKNOWN, None))"
  using prepared [OF assms]
  by (simp add: get_config_value_def db_get_config_by_key_def setting_def split: option.splits)

lemma int_of_setting:
  assumes "ok db"
  shows "get_config_value_int sq (Some db) (Some k) =
    (case setting sq db k of
       Some v \<Rightarrow> (COMMON_SUCCESS, Some (to_int (strtol (field_text CONFIG_VALUE_LEN (take CONFIG_VALUE_LEN v)))))
     | None \<Rightarrow> (COMMON_ERR_UNKNOWN, None))"
  unfolding get_config_value_int_def by (simp add: value_of_setting [OF assms] split: option.splits)

lemma add_then_get:
  assumes "ok db" "length k < CONFIG_KEY_LEN" "length v < CONFIG_VALUE_LEN"
  shows "\<exists>db'. add_config_value sq (Some db) (Some k) (Some v) = (COMMON_SUCCESS, Some db') \<and> ok db' \<and>
    get_config_value sq (Some db') (Some j) =
      (if j = k then (COMMON_SUCCESS, Some v) else get_config_value sq (Some db) (Some j))"
proof -
  define d where "d = snd (sq_step sq (DeleteConfig k) db)"
  define d' where "d' = snd (sq_step sq (InsertConfig k v) d)"
  have d: "ok d" "setting sq d = (setting sq db)(k := None)" "fst (sq_step sq (DeleteConfig k) db) = SQLITE_DONE"
    using ok_step [OF assms(1)] delete_config [OF assms(1)] by (simp_all add: d_def)
  have d': "ok d'" "setting sq d' = (setting sq db)(k \<mapsto> v)" "fst (sq_step sq (InsertConfig k v) d) = SQLITE_DONE"
    using ok_step [OF d(1)] insert_config [OF d(1), of k v] d(2) by (simp_all add: d'_def)
  have "add_config_value sq (Some db) (Some k) (Some v) = (COMMON_SUCCESS, Some d')"
    using assms prepared d(1,3) d'(3)
    by (simp add: add_config_value_def rm_config_value_def db_delete_config_by_key_def db_add_config_def
        field_text_def case_prod_unfold d_def [symmetric] d'_def [symmetric])
  moreover have "get_config_value sq (Some d') (Some j) =
      (if j = k then (COMMON_SUCCESS, Some v) else get_config_value sq (Some db) (Some j))"
    using assms(3) by (simp add: value_of_setting d'(1) assms(1) d'(2) field_text_def)
  ultimately show ?thesis using d'(1) by blast
qed

end

text \<open>The tables as lists, with the last identifier given to an event.\<close>

type_synonym tables = "db_event list \<times> int \<times> (string \<times> string) list"

definition list_step :: "statement \<Rightarrow> tables \<Rightarrow> int \<times> tables" where
  "list_step st t =
     (let (es, newest_id, cs) = t in
      case st of
        InsertEvent e \<Rightarrow> (SQLITE_DONE, e\<lparr>db_id := newest_id + 1\<rparr> # es, newest_id + 1, cs)
      | UpdateEvent i e \<Rightarrow> (SQLITE_DONE, map (\<lambda>r. if db_id r = db_id e then e else r) es, newest_id, cs)
      | DeleteEvent i \<Rightarrow> (SQLITE_DONE, filter (\<lambda>r. db_id r \<noteq> i) es, newest_id, cs)
      | TrimEvents n \<Rightarrow> (SQLITE_DONE, filter (\<lambda>r. db_id r \<notin> set (trimmed_ids n es)) es, newest_id, cs)
      | InsertConfig k v \<Rightarrow> if map_of cs k = None then (SQLITE_DONE, es, newest_id, (k, v) # cs) else (19, t)
      | DeleteConfig k \<Rightarrow> (SQLITE_DONE, es, newest_id, filter (\<lambda>kv. fst kv \<noteq> k) cs)
      | _ \<Rightarrow> (SQLITE_DONE, t))"

definition list_sqlite :: "tables sqlite" where
  "list_sqlite =
     \<lparr>sq_prepare = \<lambda>_ _. True,
      sq_step = list_step,
      sq_rows = \<lambda>st (es, _, _). case st of SelectEvents \<Rightarrow> es | SelectEvent i \<Rightarrow> filter (\<lambda>r. db_id r = i) es | _ \<Rightarrow> [],
      sq_int = \<lambda>st (es, _, _). case st of
          CountEvents \<Rightarrow> Some (int (length es))
        | MaxEventId \<Rightarrow> Some (case es of e # _ \<Rightarrow> db_id e | [] \<Rightarrow> 0)
        | _ \<Rightarrow> None,
      sq_text = \<lambda>st (_, _, cs). case st of SelectConfig k \<Rightarrow> map_of cs k | _ \<Rightarrow> None\<rparr>"

definition tables_ok :: "tables \<Rightarrow> bool" where
  "tables_ok t = (case t of (es, newest_id, cs) \<Rightarrow> newest_first es \<and> list_all (\<lambda>r. db_id r \<le> newest_id) es)"

lemma newest_first_filter: "newest_first es \<Longrightarrow> newest_first (filter P es)"
  unfolding newest_first_def by (rule sorted_wrt_filter)

lemma newest_first_update:
  "newest_first es \<Longrightarrow> newest_first (map (\<lambda>r. if db_id r = db_id e then e else r) es)"
  by (induction es) (auto simp: newest_first_def)

lemma tables_ok_step:
  assumes "tables_ok t"
  shows "tables_ok (snd (list_step st t))"
proof -
  obtain es newest_id cs where t: "t = (es, newest_id, cs)" by (cases t) auto
  with assms have n: "newest_first es" and b: "\<forall>r \<in> set es. db_id r \<le> newest_id"
    by (simp_all add: tables_ok_def list_all_iff)
  have "newest_first (e\<lparr>db_id := newest_id + 1\<rparr> # es)" for e
    using n b by (force simp: newest_first_def)
  moreover have "\<forall>r \<in> set es. db_id (if db_id r = db_id e then e else r) \<le> newest_id" for e
    using b by force
  ultimately show ?thesis using n b
    by (cases st) (auto simp: t list_step_def tables_ok_def list_all_iff newest_first_filter newest_first_update)
qed

lemma list_rows: "event_rows list_sqlite (es, newest_id, cs) = es"
  by (simp add: event_rows_def list_sqlite_def)

lemma list_setting: "setting list_sqlite (es, newest_id, cs) k = map_of cs k"
  by (simp add: setting_def list_sqlite_def)

lemma map_of_removed: "map_of (filter (\<lambda>kv. fst kv \<noteq> k) cs) = (map_of cs)(k := None)"
  by (induction cs) (auto simp: fun_eq_iff)

interpretation lists: sqlite_store list_sqlite tables_ok
proof
  fix db :: tables and st e i n k v
  assume ok: "tables_ok db"
  obtain es newest_id cs where t: "db = (es, newest_id, cs)" by (cases db) auto
  have s: "sq_step list_sqlite = list_step" by (simp add: list_sqlite_def)
  have b: "\<forall>r \<in> set es. db_id r \<le> newest_id" using ok by (simp add: tables_ok_def list_all_iff t)
  show "sq_prepare list_sqlite st db" by (simp add: list_sqlite_def)
  show "tables_ok (snd (sq_step list_sqlite st db))" unfolding s using ok by (rule tables_ok_step)
  show "newest_first (event_rows list_sqlite db)" using ok by (simp add: t list_rows tables_ok_def)
  show "fst (sq_step list_sqlite (InsertEvent e) db) = SQLITE_DONE \<and>
      (\<exists>i. (\<forall>r \<in> set (event_rows list_sqlite db). db_id r < i) \<and>
           event_rows list_sqlite (snd (sq_step list_sqlite (InsertEvent e) db)) =
             e\<lparr>db_id := i\<rparr> # event_rows list_sqlite db)"
    using b by (auto simp: s t list_step_def list_rows intro!: exI [of _ "newest_id + 1"])
  show "fst (sq_step list_sqlite (DeleteEvent i) db) = SQLITE_DONE \<and>
      event_rows list_sqlite (snd (sq_step list_sqlite (DeleteEvent i) db)) =
        filter (\<lambda>r. db_id r \<noteq> i) (event_rows list_sqlite db)"
    by (simp add: s t list_step_def list_rows)
  show "fst (sq_step list_sqlite (UpdateEvent i e) db) = SQLITE_DONE \<and>
      event_rows list_sqlite (snd (sq_step list_sqlite (UpdateEvent i e) db)) =
        map (\<lambda>r. if db_id r = i then e else r) (event_rows list_sqlite db)" if "i = db_id e"
    using that by (simp add: s t list_step_def list_rows)
  show "fst (sq_step list_sqlite (TrimEvents n) db) = SQLITE_DONE \<and>
      event_rows list_sqlite (snd (sq_step list_sqlite (TrimEvents n) db)) =
        filter (\<lambda>r. db_id r \<notin> set (trimmed_ids n (event_rows list_sqlite db))) (event_rows list_sqlite db)"
    by (simp add: s t list_step_def list_rows)
  show "sq_int list_sqlite CountEvents db = Some (int (length (event_rows list_sqlite db)))"
    by (simp add: t list_sqlite_def event_rows_def)
  show "sq_int list_sqlite MaxEventId db = Some (case event_rows list_sqlite db of e # _ \<Rightarrow> db_id e | [] \<Rightarrow> 0)"
    by (simp add: t list_sqlite_def event_rows_def)
  show "sq_rows list_sqlite (SelectEvent i) db = filter (\<lambda>r. db_id r = i) (event_rows list_sqlite db)"
    by (simp add: t list_sqlite_def event_rows_def)
  show "fst (sq_step list_sqlite (InsertConfig k v) db) =
        (if setting list_sqlite db k = None then SQLITE_DONE else 19) \<and>
      setting list_sqlite (snd (sq_step list_sqlite (InsertConfig k v) db)) =
        (if setting list_sqlite db k = None then (setting list_sqlite db)(k \<mapsto> v) else setting list_sqlite db)"
    by (auto simp: s t list_step_def list_setting fun_eq_iff)
  show "fst (sq_step list_sqlite (DeleteConfig k) db) = SQLITE_DONE \<and>
      setting list_sqlite (snd (sq_step list_sqlite (DeleteConfig k) db)) = (setting list_sqlite db)(k := None)"
    by (auto simp: s t list_step_def list_setting fun_eq_iff map_of_removed)
  show "setting list_sqlite (snd (sq_step list_sqlite st db)) = setting list_sqlite db"
    if "st \<in> {InsertEvent e, UpdateEvent i e, DeleteEvent i, TrimEvents n}"
    using that by (auto simp: s t list_step_def list_setting fun_eq_iff)
qed

section \<open>Properties\<close>

text \<open>A setting that was added is read back, and every other setting is as before, on a database that
  accepts the statements.\<close>

theorem setting_read_back:
  assumes "sqlite_store sq ok" "ok db" "length k < CONFIG_KEY_LEN" "length v < CONFIG_VALUE_LEN"
  shows "\<exists>db'. add_config_value sq (Some db) (Some k) (Some v) = (COMMON_SUCCESS, Some db') \<and> ok db' \<and>
    get_config_value sq (Some db') (Some j) =
      (if j = k then (COMMON_SUCCESS, Some v) else get_config_value sq (Some db) (Some j))"
  using sqlite_store.add_then_get [OF assms] by blast

theorem setting_read_back_witness:
  "\<exists>db'. add_config_value list_sqlite (Some ([], 0, [(''LOG_LEVEL'', ''0'')])) (Some ''LOG_LEVEL'') (Some ''3'') =
      (COMMON_SUCCESS, Some db') \<and> tables_ok db' \<and>
    get_config_value list_sqlite (Some db') (Some ''LOG_LEVEL'') =
      (if ''LOG_LEVEL'' = ''LOG_LEVEL'' then (COMMON_SUCCESS, Some ''3'')
       else get_config_value list_sqlite (Some ([], 0, [(''LOG_LEVEL'', ''0'')])) (Some ''LOG_LEVEL''))"
  by (rule setting_read_back [OF lists.sqlite_store_axioms]) (simp_all add: tables_ok_def newest_first_def)

lemma default_settings_fit:
  "distinct (map fst default_settings)"
  "list_all (\<lambda>(k, v). length k < CONFIG_KEY_LEN \<and> length v < CONFIG_VALUE_LEN) default_settings"
  by (simp_all add: default_settings_def)

text \<open>Every setting of a new configuration database is read back with its default value.\<close>

theorem defaults_read_back:
  assumes "sqlite_store sq ok" "ok db" "\<And>k. setting sq db k = None" "(k, v) \<in> set default_settings"
  shows "\<exists>db'. create_default_config sq (Some path) (Some db) = (COMMON_SUCCESS, Some db') \<and>
    get_config_value sq (Some db') (Some k) = (COMMON_SUCCESS, Some v)"
proof -
  let ?db = "foldl (\<lambda>db kv. add_config_value_to_pstore sq kv db) db default_settings"
  have l: "list_all (\<lambda>(k, v). length k < CONFIG_KEY_LEN \<and> length v < CONFIG_VALUE_LEN \<and> setting sq db k = None)
      default_settings"
    using default_settings_fit(2) assms(3) by (simp add: list_all_iff case_prod_unfold)
  have a: "ok ?db" "setting sq ?db = setting sq db ++ map_of (rev default_settings)"
    using sqlite_store.add_settings [OF assms(1,2) default_settings_fit(1) l] by simp_all
  have "map_of (rev default_settings) k = Some v"
    using assms(4) default_settings_fit(1) by (simp add: map_of_eq_Some_iff rev_map [symmetric])
  then have "setting sq ?db k = Some v" by (simp add: a(2) map_add_def)
  moreover have "length v < CONFIG_VALUE_LEN" using assms(4) default_settings_fit(2) by (auto simp: list_all_iff)
  ultimately have "get_config_value sq (Some ?db) (Some k) = (COMMON_SUCCESS, Some v)"
    by (simp add: sqlite_store.value_of_setting [OF assms(1) a(1)] field_text_def)
  then show ?thesis by (simp add: create_default_config_def set_default_config_settings_def)
qed

theorem defaults_read_back_witness:
  "\<exists>db'. create_default_config list_sqlite (Some ''x'') (Some ([], 0, [])) = (COMMON_SUCCESS, Some db') \<and>
    get_config_value list_sqlite (Some db') (Some ''EVENT_LOG_MAX'') = (COMMON_SUCCESS, Some ''10000'')"
  by (rule defaults_read_back [OF lists.sqlite_store_axioms])
    (simp_all add: tables_ok_def newest_first_def list_setting default_settings_def)

text \<open>An event that could not be written is reported as updated: whatever error the step of the
  statement returns, the result is success.\<close>

theorem failed_update_reported_as_success:
  assumes "sq_prepare sq (UpdateEvent i e) db" "fst (sq_step sq (UpdateEvent i e) db) \<noteq> SQLITE_OK"
  shows "fst (db_update_event_by_id sq i e db) = DB_SUCCESS"
  using assms by (simp add: db_update_event_by_id_def case_prod_unfold)

text \<open>SQLite as it answers while another process holds the lock of the database file.\<close>

definition busy_sqlite :: "tables sqlite" where
  "busy_sqlite = list_sqlite\<lparr>sq_step := \<lambda>_ t. (5, t)\<rparr>"

theorem failed_update_reported_as_success_witness:
  "fst (db_update_event_by_id busy_sqlite 7
     \<lparr>db_id = 7, db_type = 3, db_severity = 2, db_code = 300, db_action_required = 0, db_guid = [], db_time = 0,
      db_arg1 = [], db_arg2 = [], db_arg3 = [], db_diag_result = 0\<rparr> ([], 7, [])) = DB_SUCCESS"
  by (rule failed_update_reported_as_success) (simp_all add: busy_sqlite_def list_sqlite_def)

end
