(* ===== verification/Events.thy ===== *)
theory Events
  imports Database
begin

text \<open>
  The event log (\<^verbatim>\<open>src/common/persistence/event.c\<close> and the event interface of
  \<^verbatim>\<open>src/lib/monitor.c\<close>): messages, filters, storing and rolling, counting, reading, purging and
  acknowledging. The database is that of \<open>Database\<close>, the time a parameter, the system log a list of
  the entries written.
\<close>

section \<open>Events and filters\<close>

record event =
  event_id :: u32
  ev_type :: u32
  ev_severity :: u32
  ev_code :: u16
  ev_action_required :: u8
  ev_guid :: guid
  ev_time :: u64
  ev_message :: string
  ev_arg1 :: string
  ev_arg2 :: string
  ev_arg3 :: string
  ev_diag_result :: u32

definition zero_event :: event where
  "zero_event =
     \<lparr>event_id = 0, ev_type = 0, ev_severity = 0, ev_code = 0, ev_action_required = 0,
      ev_guid = replicate 16 0, ev_time = 0, ev_message = [], ev_arg1 = [], ev_arg2 = [], ev_arg3 = [],
      ev_diag_result = 0\<rparr>"

record event_filter =
  filter_mask :: u8
  f_type :: u32
  f_severity :: u32
  f_code :: u16
  f_guid :: guid
  f_after :: u64
  f_before :: u64
  f_event_id :: int
  f_action_required :: u8

abbreviation (input) EVENT_TYPE_ALL :: u32 where "EVENT_TYPE_ALL \<equiv> 0"
abbreviation (input) EVENT_TYPE_CONFIG :: u32 where "EVENT_TYPE_CONFIG \<equiv> 1"
abbreviation (input) EVENT_TYPE_HEALTH :: u32 where "EVENT_TYPE_HEALTH \<equiv> 2"
abbreviation (input) EVENT_TYPE_MGMT :: u32 where "EVENT_TYPE_MGMT \<equiv> 3"
abbreviation (input) EVENT_TYPE_DIAG :: u32 where "EVENT_TYPE_DIAG \<equiv> 4"
abbreviation (input) EVENT_TYPE_DIAG_QUICK :: u32 where "EVENT_TYPE_DIAG_QUICK \<equiv> 5"
abbreviation (input) EVENT_TYPE_DIAG_PLATFORM_CONFIG :: u32 where "EVENT_TYPE_DIAG_PLATFORM_CONFIG \<equiv> 6"
abbreviation (input) EVENT_TYPE_DIAG_SECURITY :: u32 where "EVENT_TYPE_DIAG_SECURITY \<equiv> 8"
abbreviation (input) EVENT_TYPE_DIAG_FW_CONSISTENCY :: u32 where "EVENT_TYPE_DIAG_FW_CONSISTENCY \<equiv> 9"
abbreviation (input) EVENT_SEVERITY_INFO :: u32 where "EVENT_SEVERITY_INFO \<equiv> 2"
abbreviation (input) EVENT_SEVERITY_CRITICAL :: u32 where "EVENT_SEVERITY_CRITICAL \<equiv> 6"
abbreviation (input) NVM_EVENT_ARG_LEN :: nat where "NVM_EVENT_ARG_LEN \<equiv> 1024"
abbreviation (input) NVM_EVENT_MSG_LEN :: nat where "NVM_EVENT_MSG_LEN \<equiv> 1024"
abbreviation (input) NVM_SYSLOG_SOURCE :: string where "NVM_SYSLOG_SOURCE \<equiv> ''NVM_MGMT''"

section \<open>Messages\<close>

definition EVENT_MESSAGES_CONFIG :: "string list" where
  "EVENT_MESSAGES_CONFIG =
     [''The platform configuration data on AEP DIMM %s is invalid.'',
      ''The BIOS has successfully applied the configuration goal on AEP DIMM %s.'',
      ''The BIOS could not apply the configuration goal on AEP DIMM %s because of errors in the goal data.'',
      ''The BIOS could not apply the configuration goal on AEP DIMM %s because the system has insufficient resources.'',
      ''The BIOS could not apply the configuration goal on AEP DIMM %s because of a firmware error.'',
      ''The BIOS could not apply the configuration goal on AEP DIMM %s for an unknown reason.'',
      ''The BIOS has detected and successfully configured AEP DIMM %s.'',
      ''The BIOS has detected a new AEP DIMM %s. The new AEP DIMM must be configured in order to be used.'',
      ''AEP DIMM %s is missing.'',
      ''AEP DIMM %s has been replaced with AEP DIMM %s.'',
      ''AEP DIMM %s has been replaced with a new AEP DIMM %s. The new AEP DIMM must be configured in order to be used.'',
      ''AEP DIMM %s has been moved to a different position.'',
      ''A configuration was requested for AEP DIMM %s that is unsupported due to a licensing issue.'',
      ''The configuration of AEP DIMM %s is unsupported due to a licensing issue.'',
      ''A platform configuration change has logged an unknown event code %d.'']"

definition EVENT_MESSAGES_MGMT :: "string list" where
  "EVENT_MESSAGES_MGMT =
     [''A new configuration goal has been saved on AEP DIMM %s.'',
      ''A configuration goal has been deleted from AEP DIMM %s.'',
      ''A new namespace has been created. (Name: %s, GUID: %s)'',
      ''A namespace has been deleted. (Name: %s, GUID: %s)'',
      ''A namespace's settings have been modified. (Name: %s, GUID: %s)'',
      ''The %s sensor settings have been changed on AEP DIMM %s.'',
      ''The firmware has been updated on AEP DIMM %s. (New version: %s)'',
      ''The security password has been set on AEP DIMM %s.'',
      ''The security password has been removed from AEP DIMM %s.'',
      ''A sanitize freeze lock has been applied to AEP DIMM %s.'',
      ''A sanitize anti-freeze lock has been applied to AEP DIMM %s.'',
      ''A new version of AEP DIMM management software has been installed. (Version: %s)'',
      ''The AEP DIMM management software has been uninstalled.'',
      ''A new version of AEP DIMM driver has been installed. (Version: %s)'',
      ''The AEP DIMM driver has been uninstalled.'',
      ''A permit has been applied.'',
      ''The persistent data on AEP DIMM %s has been erased by overwriting it %s times.'',
      ''The persistent data on AEP DIMM %s has been erased by crypto-scrambling it.'',
      ''The persistent data on AEP DIMM %s has been securely erased.'',
      ''The management software logged an unknown event code %d.'']"

definition EVENT_MESSAGES_HEALTH :: "string list" where
  "EVENT_MESSAGES_HEALTH =
     [''The health monitor has detected that AEP DIMM %s is reporting percentage used at %s% which is above the alarm threshold %s%%.'',
      ''The health monitor has detected that AEP DIMM %s is reporting a media temperature of %s C which is above the alarm threshold of %s C.'',
      ''The health monitor has detected that AEP DIMM %s is reporting a media temperature of %s C which is below the alarm threshold of %s C.'',
      ''The health monitor has detected that AEP DIMM %s is reporting a wear level of %s% which is above the alarm threshold %s%%.'',
      ''The health monitor has detected that AEP DIMM %s is reporting new %s media errors, total count is %s.'',
      ''The health monitor has detected that AEP DIMM %s is reporting a change in health state from %s to %s.'',
      ''The health monitor has detected that AEP DIMM %s is reporting that it has consumed %s spare die.'',
      ''The health monitor has detected that namespace %s is reporting a change in health state from %s to %s.'',
      ''The firmware on AEP DIMM %s experienced an unsafe shutdown before its latest restart.'',
      ''The health monitor has detected that AEP DIMM %s is reporting a controller temperature of %s C which is above the alarm threshold of %s C.'',
      ''The health monitor has detected that AEP DIMM %s is reporting a controller temperature of %s C which is below the alarm threshold of %s C.'',
      ''The health monitor has detected that one or more AEP DIMMs in the system have different SKUs.'',
      ''The health monitor has logged an unknown error code %d.'']"

definition EVENT_MESSAGES_QUICK_DIAG :: "string list" where
  "EVENT_MESSAGES_QUICK_DIAG =
     [''The quick health check succeeded.'',
      ''The quick health check detected an unrecognized AEP DIMM %s due to an invalid vendor identifier %s, expected %s. No further testing performed on this AEP DIMM.'',
      ''The quick health check detected an unrecognized AEP DIMM %s due to an invalid manufacturer %s, expected %s. No further testing performed on this AEP DIMM.'',
      ''The quick health check detected an unrecognized AEP DIMM %s due to an invalid model number %s, expected %s. No further testing performed on this AEP DIMM.'',
      ''The quick health check detected that AEP DIMM %s is reporting a bad health state %s, expected %s.'',
      ''The quick health check detected that AEP DIMM %s is reporting a media temperature of %s C which is above the alarm threshold %s C.'',
      ''The quick health check detected that AEP DIMM %s is reporting remaining spare capacity at %s% which is less than the alarm threshold %s%.'',
      ''The quick health check detected that AEP DIMM %s is reporting percentage used at %s% which is above the alarm threshold %s%.'',
      ''The quick health check detected that AEP DIMM %s is reporting %s uncorrectable media errors.'',
      ''The quick health check detected that AEP DIMM %s is reporting %s corrected media errors.'',
      ''The quick health check detected that AEP DIMM %s is reporting %s Erasure Coded Corrected media errors.'',
      ''The quick health check detected that AEP DIMM %s is reporting a controller temperature of %s C which is above the alarm threshold %s C.'',
      ''The quick health check detected that power is limited on socket %s.'',
      ''The quick health check detected that the boot status register of AEP DIMM %s is not readable.'',
      ''The quick health check detected that the firmware on AEP DIMM %s is reporting that the media is not ready.'',
      ''The quick health check detected that the firmware on AEP DIMM %s is reporting an error in the media.'',
      ''The quick health check detected that the firmware on AEP DIMM %s is reporting that the DDRT I/O Initialization has not completed.'',
      ''The quick health check detected that the firmware on AEP DIMM %s is reporting an error initializing DDRT I/O.'',
      ''The quick health check detected that the firmware on AEP DIMM %s is reporting that the mailbox interface is not ready.'',
      ''The quick health check detected that AEP DIMM %s failed to initialize BIOS POST testing.'',
      ''The quick health check detected that the firmware on AEP DIMM %s has not initialized successfully, the last known Major:Minor Checkpoint is %s.'',
      ''The quick health check detected that the firmware on AEP DIMM %s reported an assert.'',
      ''The quick health check logged an unknown error code %d.'']"

definition EVENT_MESSAGES_SECURITY_DIAG :: "string list" where
  "EVENT_MESSAGES_SECURITY_DIAG =
     [''The security check succeeded.'',
      ''The security check detected that there are no AEP DIMMs.'',
      ''The security check detected that security settings are inconsistent. %s.'',
      ''The security check detected that security is disabled on all AEP DIMMs.'',
      ''The security check detected that security is not supported on all AEP DIMMs.'',
      ''The security check logged an unknown error code %d.'']"

definition EVENT_MESSAGES_FW_DIAG :: "string list" where
  "EVENT_MESSAGES_FW_DIAG =
     [''The firmware consistency and settings check succeeded.'',
      ''The firmware consistency and settings check detected that there are no AEP DIMMs.'',
      ''The firmware consistency and settings check detected that firmware version on AEP DIMMs %s with model number %s is non-optimal, preferred version is %s'',
      ''The firmware consistency and settings check detected that AEP DIMM %s is reporting a media temperature threshold of %s C which is above the recommended threshold %s C.'',
      ''The firmware consistency and settings check detected that AEP DIMM %s is reporting a controller temperature threshold of %s C which is above the recommended threshold %s C.'',
      ''The firmware consistency and settings check detected that AEP DIMM %s is reporting a spare capacity threshold of %s%% which is below the recommended threshold %s%%.'',
      ''The firmware consistency and settings check detected that AEP DIMM %s is reporting a firmware log level of %s, default log level is %s.'',
      ''The firmware consistency and settings check detected that AEP DIMM %s is %s the system time by %s seconds.'',
      ''The firmware consistency and settings check detected that AEP DIMM %s is reporting that power management policy is not set in accordance with best practice, due to field '%s'. Valid range is %s.'',
      ''The firmware consistency and settings check detected that AEP DIMM %s is reporting that die sparing policy is not set in accordance with best practice, due to field '%s'. Valid range is %s.'',
      ''The firmware consistency and settings check logged an unknown error code %d.'']"

definition EVENT_MESSAGES_PCONFIG_DIAG :: "string list" where
  "EVENT_MESSAGES_PCONFIG_DIAG =
     [''The platform configuration check succeeded.'',
      ''The platform configuration check detected that there are no AEP DIMMs.'',
      ''The platform configuration check detected that the NFIT table is invalid.'',
      ''The platform configuration check detected that the platform capability table is invalid.'',
      ''The platform configuration check detected that the platform configuration data is invalid for AEP DIMM %s.'',
      ''The platform configuration check detected that the current configuration table is invalid for AEP DIMM %s.'',
      ''The platform configuration check detected that AEP DIMM %s is unconfigured. Note that the capacity is unmapped by the BIOS because it's unconfigured.'',
      ''The platform configuration check detected that interleave set %s is broken, due to a missing AEP DIMM with serial number %s.'',
      ''The platform configuration check detected that the BIOS reported mapped %s capacity %s doesn't match the driver reported capacity %s.'',
      ''The platform configuration check detected interleave set %s has an inter-memory controller interleave size of %s. Interleave sizes of 4KB and greater may improve performance.'',
      ''The platform configuration check detected interleave set %s has an inter-channel interleave size of %s. Interleave sizes of 4KB and greater may improve performance.'',
      ''The platform configuration check detected that interleave set %s is interleaved across %s AEP DIMMs, less than the recommended %s. Interleaving across as many AEP DIMMs as possible may improve performance.'',
      ''The platform configuration check detected that AEP DIMM %s has a goal configuration that has not yet been applied. A system reboot is required for the new configuration to take effect.'',
      ''The platform configuration check detected that the capacity of App Direct namespace %s is smaller than the capacity of its containing extent. The remaining %s of the extent cannot be accessed as App Direct. This capacity may be included in Storage namespaces on each AEP DIMM.'',
      ''The platform configuration check detected that pool %s contains empty App Direct capacity. Create App Direct namespaces in the pool to access this capacity.'',
      ''The platform configuration check detected that pool %s contains empty Storage capacity. Create Storage namespaces in the pool to access this capacity.'',
      ''The platform configuration check detected that all AEP DIMMs on socket %s are arranged on a single memory controller. Configuration of AEP DIMMs on this socket is limited to App Direct and Storage Mode.'',
      ''The platform configuration check detected that AEP DIMMs on socket %s are arranged in an unbalanced configuration. These AEP DIMMs may experience reduced performance.'',
      ''The platform configuration check detected that manageable AEP DIMMs on socket %s have different capacities. Memory allocations on this socket may be non-optimal.'',
      ''The platform configuration check detected that the AEP DIMM security capability SKUs are inconsistent within the system. Functionality will be limited until the situation is corrected.'',
      ''The platform configuration check detected that the AEP DIMM mode capability SKUs are inconsistent within the system. Functionality will be limited until the situation is corrected.'',
      ''The platform configuration check detected that the AEP DIMMs die sparing capability SKUs are inconsistent within the system. Functionality will be limited until the situation is corrected.'',
      ''The platform configuration check detected that an AEP DIMM with physical ID %s is present in the system but failed to initialize.'',
      ''The platform configuration check detected that AEP DIMM %s is currently configured with %s capacity which is in violation of the system supported capabilities.'',
      ''The platform configuration check detected that AEP DIMM %s has a configuration goal request for %s capacity which will be in violation of the system supported capabilities.'',
      ''The platform configuration check was unable to retrieve the pool information.'',
      ''The platform configuration check was unable to retrieve the namespace information.'',
      ''The platform configuration check logged an unknown error code %d.'']"

text \<open>The entry of a table; entries the initialiser does not give are null.\<close>

definition entry_at :: "string list \<Rightarrow> nat \<Rightarrow> string option" where
  "entry_at tab i = (if i < length tab then Some (tab ! i) else None)"

fun show_nat :: "nat \<Rightarrow> string" where
  "show_nat n = (if n < 10 then [char_of (48 + n)] else show_nat (n div 10) @ [char_of (48 + n mod 10)])"

declare show_nat.simps [simp del]

text \<open>\<^verbatim>\<open>s_snprintf\<close> of one number.\<close>

fun format_code :: "string \<Rightarrow> nat \<Rightarrow> string" where
  "format_code [] n = []"
| "format_code (c # cs) n =
     (case cs of
        d # ds \<Rightarrow> if c = CHR ''%'' \<and> d = CHR ''d'' then show_nat n @ ds else c # format_code cs n
      | [] \<Rightarrow> [c])"

text \<open>The message of a code in the table of its type: the codes from \<open>offset\<close> up to \<open>unknown\<close>,
  and the entry behind them for every other. A null message is not a value.\<close>

definition message_in :: "string list \<Rightarrow> nat \<Rightarrow> nat \<Rightarrow> u16 \<Rightarrow> string option" where
  "message_in tab offset unknown code =
     (if offset \<le> unat code \<and> unat code < unknown then
        map_option (field_text NVM_EVENT_MSG_LEN) (entry_at tab (unat code - offset))
      else
        map_option (\<lambda>fmt. field_text NVM_EVENT_MSG_LEN (format_code fmt (unat code)))
          (entry_at tab (unknown - offset)))"

definition populate_event_message :: "event \<Rightarrow> event option" where
  "populate_event_message e =
     (let message = (\<lambda>tab offset unknown.
            map_option (\<lambda>m. e\<lparr>ev_message := m\<rparr>) (message_in tab offset unknown (ev_code e)))
      in if ev_type e = EVENT_TYPE_DIAG_QUICK then message EVENT_MESSAGES_QUICK_DIAG 500 522
      else if ev_type e = EVENT_TYPE_DIAG_SECURITY then message EVENT_MESSAGES_SECURITY_DIAG 800 805
      else if ev_type e = EVENT_TYPE_DIAG_FW_CONSISTENCY then message EVENT_MESSAGES_FW_DIAG 900 910
      else if ev_type e = EVENT_TYPE_MGMT then message EVENT_MESSAGES_MGMT 300 320
      else if ev_type e = EVENT_TYPE_HEALTH then message EVENT_MESSAGES_HEALTH 200 212
      else if ev_type e = EVENT_TYPE_CONFIG then message EVENT_MESSAGES_CONFIG 100 114
      else if ev_type e = EVENT_TYPE_DIAG_PLATFORM_CONFIG then message EVENT_MESSAGES_PCONFIG_DIAG 600 627
      else Some e)"

section \<open>Storing\<close>

definition params_to_event ::
  "u32 \<Rightarrow> u32 \<Rightarrow> u16 \<Rightarrow> guid option \<Rightarrow> u8 \<Rightarrow> string \<Rightarrow> string \<Rightarrow> string \<Rightarrow> u32 \<Rightarrow> event \<Rightarrow> event" where
  "params_to_event type severity code guid ar a1 a2 a3 result e =
     e\<lparr>ev_type := type, ev_severity := severity, ev_code := code, ev_action_required := ar,
       ev_guid := (case guid of Some g \<Rightarrow> g | None \<Rightarrow> ev_guid e),
       ev_arg1 := field_text NVM_EVENT_ARG_LEN a1, ev_arg2 := field_text NVM_EVENT_ARG_LEN a2,
       ev_arg3 := field_text NVM_EVENT_ARG_LEN a3, ev_diag_result := result\<rparr>"

text \<open>Whether it logged, and the system log.\<close>

definition log_event_in_syslog ::
  "event \<Rightarrow> string \<Rightarrow> (string \<times> string) list \<Rightarrow> bool \<times> (string \<times> string) list" where
  "log_event_in_syslog e source log =
     (if sint (ev_severity e) \<ge> uint EVENT_SEVERITY_CRITICAL then (True, log @ [(source, ev_message e)])
      else (False, log))"

definition event_to_row :: "u64 \<Rightarrow> event \<Rightarrow> db_event" where
  "event_to_row now e =
     \<lparr>db_id = 0, db_type = ev_type e, db_severity = ev_severity e, db_code = ucast (ev_code e),
      db_action_required = ucast (ev_action_required e), db_guid = guid_to_str (Some (ev_guid e)), db_time = now,
      db_arg1 = field_text NVM_EVENT_ARG_LEN (ev_arg1 e), db_arg2 = field_text NVM_EVENT_ARG_LEN (ev_arg2 e),
      db_arg3 = field_text NVM_EVENT_ARG_LEN (ev_arg3 e), db_diag_result = ev_diag_result e\<rparr>"

text \<open>Division as in C, and a product that must fit an \<^verbatim>\<open>int\<close>.\<close>

definition c_div :: "int \<Rightarrow> int \<Rightarrow> int" where
  "c_div a b = (if (a < 0) = (b < 0) then \<bar>a\<bar> div \<bar>b\<bar> else - (\<bar>a\<bar> div \<bar>b\<bar>))"

definition int_product :: "int \<Rightarrow> int \<Rightarrow> int option" where
  "int_product a b = (if - (2 ^ 31) \<le> a * b \<and> a * b < 2 ^ 31 then Some (a * b) else None)"

text \<open>The roll of the table after an event was added.\<close>

definition roll_events :: "'db sqlite \<Rightarrow> 'db \<Rightarrow> 'db option" where
  "roll_events sq db =
     (let max_events = (case get_config_value_int sq (Some db) (Some ''EVENT_LOG_MAX'') of
                          (_, Some v) \<Rightarrow> v | _ \<Rightarrow> 10000);
          percent = (case get_config_value_int sq (Some db) (Some ''EVENT_LOG_TRIM_PERCENT'') of
                       (_, Some v) \<Rightarrow> v | _ \<Rightarrow> 10);
          percent = (if percent < 0 then 10 else percent);
          (_, event_count) = table_row_count sq CountEvents db
      in if event_count \<ge> max_events then do {
           p \<leftarrow> int_product percent max_events;
           Some (snd (run_sql_no_results sq (TrimEvents (c_div p 100)) db))
         }
         else Some db)"

definition store_event ::
  "'db sqlite \<Rightarrow> u64 \<Rightarrow> event \<Rightarrow> bool \<Rightarrow> 'db option \<Rightarrow> (string \<times> string) list \<Rightarrow>
   (int \<times> 'db option \<times> (string \<times> string) list) option" where
  "store_event sq now e syslog p_store log = do {
     (rc, p_store) \<leftarrow>
       (case p_store of
          None \<Rightarrow> Some (NVM_ERR_UNKNOWN, None)
        | Some db \<Rightarrow>
            let (r, db) = db_add_event sq (event_to_row now e) db in
            if r = DB_SUCCESS then map_option (\<lambda>db. (NVM_SUCCESS, Some db)) (roll_events sq db)
            else Some (NVM_ERR_UNKNOWN, Some db));
     if syslog then do {
       e \<leftarrow> populate_event_message e;
       Some (rc, p_store, snd (log_event_in_syslog e NVM_SYSLOG_SOURCE log))
     }
     else Some (rc, p_store, log)
   }"

definition store_event_by_parts ::
  "'db sqlite \<Rightarrow> u64 \<Rightarrow> u32 \<Rightarrow> u32 \<Rightarrow> u16 \<Rightarrow> guid option \<Rightarrow> u8 \<Rightarrow> string \<Rightarrow> string \<Rightarrow> string \<Rightarrow> u32 \<Rightarrow>
   'db option \<Rightarrow> (string \<times> string) list \<Rightarrow> (int \<times> 'db option \<times> (string \<times> string) list) option" where
  "store_event_by_parts sq now type severity code guid ar a1 a2 a3 result p_store log =
     store_event sq now (params_to_event type severity code guid ar a1 a2 a3 result zero_event) True p_store log"

definition log_mgmt_event_in_db ::
  "'db sqlite \<Rightarrow> u64 \<Rightarrow> u32 \<Rightarrow> u16 \<Rightarrow> guid option \<Rightarrow> u8 \<Rightarrow> string \<Rightarrow> string \<Rightarrow> string \<Rightarrow>
   'db option \<Rightarrow> (string \<times> string) list \<Rightarrow> (int \<times> 'db option \<times> (string \<times> string) list) option" where
  "log_mgmt_event_in_db sq now severity code guid ar a1 a2 a3 p_store log =
     store_event_by_parts sq now EVENT_TYPE_MGMT severity code guid ar a1 a2 a3 0 p_store log"

section \<open>Reading\<close>

text \<open>The GUID of a row, in its field of 37 characters.\<close>

definition row_guid :: "db_event \<Rightarrow> guid" where
  "row_guid r = str_to_guid (Some (take 37 (db_guid r @ replicate 37 (CHR 0x00))))"

definition type_mismatch :: "u32 \<Rightarrow> u32 \<Rightarrow> bool" where
  "type_mismatch wanted type =
     (if wanted \<noteq> EVENT_TYPE_ALL then
        if wanted \<noteq> type then
          if wanted = EVENT_TYPE_DIAG then type < EVENT_TYPE_DIAG else True
        else False
      else False)"

definition event_matches_filter :: "event_filter option \<Rightarrow> db_event \<Rightarrow> bool" where
  "event_matches_filter filter_opt r =
     (case filter_opt of
        None \<Rightarrow> True
      | Some f \<Rightarrow>
          let rc = True;
              rc = (if bit (filter_mask f) 0 then (if type_mismatch (f_type f) (db_type r) then False else rc) else rc);
              rc = (if rc \<and> bit (filter_mask f) 1 then (if db_severity r < f_severity f then False else rc) else rc);
              rc = (if rc \<and> bit (filter_mask f) 2 then (if db_code r \<noteq> ucast (f_code f) then False else rc) else rc);
              rc = (if rc \<and> bit (filter_mask f) 3
                    then (if guid_cmp (Some (row_guid r)) (Some (f_guid f)) \<noteq> Some 1 then False else rc) else rc);
              rc = (if rc \<and> bit (filter_mask f) 4 then (if db_time r \<le> f_after f then False else rc) else rc);
              rc = (if rc \<and> bit (filter_mask f) 5 then (if db_time r \<ge> f_before f then False else rc) else rc);
              rc = (if rc \<and> bit (filter_mask f) 6 then (if db_id r \<noteq> f_event_id f then False else rc) else rc);
              rc = (if rc \<and> bit (filter_mask f) 7
                    then (if db_action_required r \<noteq> ucast (f_action_required f) then False else rc) else rc)
          in rc)"

text \<open>A row copied over an element of the caller's array.\<close>

definition row_to_event :: "db_event \<Rightarrow> event \<Rightarrow> event option" where
  "row_to_event r old = do {
     e \<leftarrow> populate_event_message (old\<lparr>event_id := word_of_int (db_id r), ev_type := db_type r,
            ev_severity := db_severity r, ev_code := ucast (db_code r), ev_time := db_time r,
            ev_action_required := ucast (db_action_required r), ev_guid := row_guid r,
            ev_arg1 := field_text NVM_EVENT_ARG_LEN (db_arg1 r), ev_arg2 := field_text NVM_EVENT_ARG_LEN (db_arg2 r),
            ev_arg3 := field_text NVM_EVENT_ARG_LEN (db_arg3 r)\<rparr>);
     Some (e\<lparr>ev_diag_result := db_diag_result r\<rparr>)
   }"

fun process_rows ::
  "'db sqlite \<Rightarrow> event_filter option \<Rightarrow> u16 \<Rightarrow> bool \<Rightarrow> db_event list \<Rightarrow> nat \<Rightarrow> event list option \<Rightarrow> 'db \<Rightarrow>
   (int \<times> event list option \<times> 'db) option" where
  "process_rows sq f count purge [] n out db = Some (int n, out, db)"
| "process_rows sq f count purge (r # rs) n out db =
     (if event_matches_filter f r then
        if purge then process_rows sq f count purge rs (Suc n) out (snd (db_delete_event_by_id sq (db_id r) db))
        else case out of
          None \<Rightarrow> process_rows sq f count purge rs (Suc n) out db
        | Some es \<Rightarrow>
            if count > 0 then
              if unat count < Suc n then Some (NVM_ERR_ARRAYTOOSMALL, out, db)
              else if n < length es then do {
                e \<leftarrow> row_to_event r (es ! n);
                process_rows sq f count purge rs (Suc n) (Some (es[n := e])) db
              }
              else None
            else process_rows sq f count purge rs (Suc n) out db
      else process_rows sq f count purge rs n out db)"

definition process_events_matching_filter ::
  "'db sqlite \<Rightarrow> event_filter option \<Rightarrow> event list option \<Rightarrow> u16 \<Rightarrow> bool \<Rightarrow> 'db option \<Rightarrow>
   (int \<times> event list option \<times> 'db option) option" where
  "process_events_matching_filter sq f out count purge p_store =
     (case p_store of
        None \<Rightarrow> Some (NVM_ERR_UNKNOWN, out, None)
      | Some db \<Rightarrow>
          let (r, n) = db_get_event_count sq db in
          if r \<noteq> DB_SUCCESS then Some (NVM_ERR_UNKNOWN, out, p_store)
          else if n > 0 then
            let (m, rows) = db_get_events sq (nat n) db in
            if m < 0 then Some (NVM_ERR_UNKNOWN, out, p_store)
            else map_option (\<lambda>(rc, out, db). (rc, out, Some db)) (process_rows sq f count purge rows 0 out db)
          else Some (0, out, p_store))"

section \<open>Acknowledging\<close>

text \<open>One event of \<^verbatim>\<open>acknowledge_events\<close>; the result of the event before is overwritten.\<close>

definition acknowledge_one :: "'db sqlite \<Rightarrow> event \<Rightarrow> 'db \<Rightarrow> int \<times> 'db" where
  "acknowledge_one sq e db =
     (case db_get_event_by_id sq (sint (event_id e)) db of
        (rc, Some r) \<Rightarrow>
          if rc \<noteq> DB_SUCCESS then (NVM_ERR_UNKNOWN, db)
          else if db_action_required r \<noteq> 0 then
            let (u, db) = db_update_event_by_id sq (db_id r) (r\<lparr>db_action_required := 0\<rparr>) db in
            (if u \<noteq> DB_SUCCESS then NVM_ERR_UNKNOWN else rc, db)
          else (rc, db)
      | (_, None) \<Rightarrow> (NVM_ERR_UNKNOWN, db))"

definition acknowledge_events ::
  "'db sqlite \<Rightarrow> event_filter option \<Rightarrow> 'db option \<Rightarrow> (int \<times> 'db option) option" where
  "acknowledge_events sq f p_store =
     (case p_store of
        None \<Rightarrow> Some (NVM_ERR_UNKNOWN, None)
      | Some _ \<Rightarrow> do {
          (count, _, p_store) \<leftarrow> process_events_matching_filter sq f None 0 False p_store;
          if count > 0 then do {
            (count, out, p_store) \<leftarrow> process_events_matching_filter sq f
               (Some (replicate (nat count) zero_event)) (word_of_int count) False p_store;
            es \<leftarrow> out;
            db \<leftarrow> p_store;
            if count > int (length es) then None
            else
              let (rc, db) = foldl (\<lambda>(_, db) e. acknowledge_one sq e db) (NVM_SUCCESS, db) (take (nat count) es)
              in Some (rc, Some db)
          }
          else Some (NVM_SUCCESS, p_store)
        })"

section \<open>The interface\<close>

definition nvm_get_event_count ::
  "'db sqlite \<Rightarrow> bool \<Rightarrow> event_filter option \<Rightarrow> 'db option \<Rightarrow> (int \<times> 'db option) option" where
  "nvm_get_event_count sq permit f p_store =
     (if \<not> permit then Some (NVM_ERR_INVALIDPERMISSIONS, p_store)
      else map_option (\<lambda>(rc, _, s). (rc, s)) (process_events_matching_filter sq f None 0 False p_store))"

definition nvm_get_events ::
  "'db sqlite \<Rightarrow> bool \<Rightarrow> event_filter option \<Rightarrow> event list option \<Rightarrow> u16 \<Rightarrow> 'db option \<Rightarrow>
   (int \<times> event list option \<times> 'db option) option" where
  "nvm_get_events sq permit f out count p_store =
     (if \<not> permit then Some (NVM_ERR_INVALIDPERMISSIONS, out, p_store)
      else case out of
        None \<Rightarrow> Some (NVM_ERR_INVALIDPARAMETER, out, p_store)
      | Some es \<Rightarrow>
          if count = 0 then Some (NVM_ERR_INVALIDPARAMETER, out, p_store)
          else if unat count \<le> length es then
            process_events_matching_filter sq f
              (Some (replicate (unat count) zero_event @ drop (unat count) es)) count False p_store
          else None)"

definition nvm_purge_events ::
  "'db sqlite \<Rightarrow> bool \<Rightarrow> event_filter option \<Rightarrow> 'db option \<Rightarrow> (int \<times> 'db option) option" where
  "nvm_purge_events sq permit f p_store =
     (if \<not> permit then Some (NVM_ERR_INVALIDPERMISSIONS, p_store)
      else map_option (\<lambda>(rc, _, s). (rc, s)) (process_events_matching_filter sq f None 0 True p_store))"

definition nvm_acknowledge_event :: "'db sqlite \<Rightarrow> bool \<Rightarrow> u32 \<Rightarrow> 'db option \<Rightarrow> int \<times> 'db option" where
  "nvm_acknowledge_event sq permit i p_store =
     (if \<not> permit then (NVM_ERR_INVALIDPERMISSIONS, p_store)
      else case p_store of
        None \<Rightarrow> (NVM_ERR_UNKNOWN, None)
      | Some db \<Rightarrow>
          (case db_get_event_by_id sq (sint i) db of
             (rc, Some r) \<Rightarrow>
               if rc \<noteq> DB_SUCCESS then (NVM_ERR_INVALIDPARAMETER, p_store)
               else if db_action_required r = 0 then (NVM_ERR_NOTSUPPORTED, p_store)
               else let (rc, db) = db_update_event_by_id sq (sint i) (r\<lparr>db_action_required := 0\<rparr>) db
                    in (rc, Some db)
           | (_, None) \<Rightarrow> (NVM_ERR_INVALIDPARAMETER, p_store)))"

end
