(* ===== verification/Subscriptions.thy ===== *)
theory Subscriptions
  imports Events
begin

text \<open>
  Subscriptions to events (\<^verbatim>\<open>src/lib/monitor.c\<close>): the list of callbacks, the threads that poll the
  event table, and the calls that change them, each as the sections it executes under the mutex. A callback is a
  number; what it was called with is recorded.
\<close>

section \<open>State\<close>

abbreviation (input) MAX_EVENT_SUBSCRIBERS :: nat where "MAX_EVENT_SUBSCRIBERS \<equiv> 5"
abbreviation (input) NVM_ERR_BADCALLBACK :: int where "NVM_ERR_BADCALLBACK \<equiv> - 18"
abbreviation (input) NVM_ERR_EXCEEDSMAXSUBSCRIBERS :: int where "NVM_ERR_EXCEEDSMAXSUBSCRIBERS \<equiv> - 38"

text \<open>A slot keeps its type when its callback is removed.\<close>

type_synonym slot = "u32 \<times> nat option"

record monitor =
  is_polling :: bool
  callback_list :: "slot list"
  current_event_id :: int
  poll_interval_sec :: u32
  called :: "(nat \<times> event) list"

definition initial_monitor :: monitor where
  "initial_monitor =
     \<lparr>is_polling = False, callback_list = replicate MAX_EVENT_SUBSCRIBERS (0, None), current_event_id = 0,
      poll_interval_sec = 60, called = []\<rparr>"

definition subscribed :: "monitor \<Rightarrow> bool" where
  "subscribed m \<longleftrightarrow> list_ex (\<lambda>s. snd s \<noteq> None) (callback_list m)"

section \<open>Sections under the mutex\<close>

definition get_nvm_event_id :: "'db sqlite \<Rightarrow> 'db option \<Rightarrow> int" where
  "get_nvm_event_id sq p_store =
     (case p_store of None \<Rightarrow> 0 | Some db \<Rightarrow> snd (run_scalar_sql sq MaxEventId db 0))"

text \<open>What \<^verbatim>\<open>init_event_notify\<close> does under the lock; the second result says that a thread is to be
  created.\<close>

definition init_section :: "'db sqlite \<Rightarrow> 'db option \<Rightarrow> monitor \<Rightarrow> monitor \<times> bool" where
  "init_section sq p_store m =
     (if \<not> is_polling m then
        (m\<lparr>callback_list := map (\<lambda>s. (fst s, None)) (callback_list m),
           current_event_id := get_nvm_event_id sq p_store,
           poll_interval_sec :=
             (case get_config_value_int sq p_store (Some ''EVENT_POLLING_INTERVAL_SECONDS'') of
                (r, Some v) \<Rightarrow> if r = NVM_SUCCESS then word_of_int v else poll_interval_sec m
              | _ \<Rightarrow> poll_interval_sec m),
           is_polling := True\<rparr>, True)
      else (m, False))"

fun first_free :: "slot list \<Rightarrow> nat option" where
  "first_free [] = None"
| "first_free (s # ss) = (if snd s = None then Some 0 else map_option Suc (first_free ss))"

definition fill_section :: "u32 \<Rightarrow> nat \<Rightarrow> monitor \<Rightarrow> int \<times> monitor" where
  "fill_section type cb m =
     (case first_free (callback_list m) of
        Some i \<Rightarrow> (int i, m\<lparr>callback_list := (callback_list m)[i := (type, Some cb)]\<rparr>)
      | None \<Rightarrow> (NVM_ERR_EXCEEDSMAXSUBSCRIBERS, m))"

text \<open>The slot cleared, and whether another is still listening.\<close>

definition clear_section :: "nat \<Rightarrow> monitor \<Rightarrow> monitor \<times> bool" where
  "clear_section i m =
     (let m = m\<lparr>callback_list := (callback_list m)[i := (fst (callback_list m ! i), None)]\<rparr>
      in (m, subscribed m))"

definition stop_section :: "monitor \<Rightarrow> monitor" where
  "stop_section m = (if is_polling m then m\<lparr>is_polling := False\<rparr> else m)"

text \<open>The callbacks of one event, in the order of the slots.\<close>

definition callees :: "slot list \<Rightarrow> event \<Rightarrow> nat list" where
  "callees slots e =
     concat (map (\<lambda>s. case snd s of
         Some cb \<Rightarrow> if fst s = ev_type e \<or> fst s = EVENT_TYPE_ALL then [cb] else []
       | None \<Rightarrow> []) slots)"

definition zero_filter :: event_filter where
  "zero_filter =
     \<lparr>filter_mask = 0, f_type = 0, f_severity = 0, f_code = 0, f_guid = replicate 16 0, f_after = 0, f_before = 0,
      f_event_id = 0, f_action_required = 0\<rparr>"

text \<open>One look at the event table. \<open>junk\<close> is what the stack holds where the array of events is made;
  the number of events is passed on as 16 bits.\<close>

definition poll_section :: "'db sqlite \<Rightarrow> event \<Rightarrow> 'db option \<Rightarrow> monitor \<Rightarrow> monitor option" where
  "poll_section sq junk p_store m =
     (let next_event_id = get_nvm_event_id sq p_store in
      if current_event_id m < next_event_id then do {
        (event_count, _, _) \<leftarrow> process_events_matching_filter sq (Some zero_filter) None 0 False p_store;
        if event_count < 0 then Some m
        else do {
          (event_count, out, _) \<leftarrow> process_events_matching_filter sq (Some zero_filter)
             (Some (replicate (nat event_count) junk)) (word_of_int event_count) False p_store;
          es \<leftarrow> out;
          if event_count < 0 then Some m
          else if event_count > int (length es) then None
          else Some (m\<lparr>called := called m @ concat (map (\<lambda>e.
                   if event_id e > (word_of_int (current_event_id m) :: u32)
                   then map (\<lambda>cb. (cb, e)) (callees (callback_list m) e) else [])
                   (take (nat event_count) es)),
                 current_event_id := next_event_id\<rparr>)
        }
      }
      else if next_event_id < current_event_id m then Some (m\<lparr>current_event_id := next_event_id\<rparr>)
      else Some m)"

section \<open>The calls\<close>

text \<open>\<open>lock\<close> says whether the mutex is obtained. The second result is the number of threads created.\<close>

definition init_event_notify ::
  "'db sqlite \<Rightarrow> bool \<Rightarrow> 'db option \<Rightarrow> monitor \<Rightarrow> monitor \<times> nat" where
  "init_event_notify sq lock p_store m =
     (if lock then let (m, create) = init_section sq p_store m in (m, if create then 1 else 0) else (m, 0))"

definition remove_event_notify :: "bool \<Rightarrow> monitor \<Rightarrow> monitor" where
  "remove_event_notify lock m = (if lock then stop_section m else m)"

definition nvm_add_event_notify ::
  "'db sqlite \<Rightarrow> bool \<Rightarrow> bool \<Rightarrow> bool \<Rightarrow> u32 \<Rightarrow> nat option \<Rightarrow> 'db option \<Rightarrow> monitor \<Rightarrow> int \<times> monitor \<times> nat" where
  "nvm_add_event_notify sq permit lock1 lock2 type cb p_store m =
     (if \<not> permit then (NVM_ERR_INVALIDPERMISSIONS, m, 0)
      else case cb of
        None \<Rightarrow> (NVM_ERR_INVALIDPARAMETER, m, 0)
      | Some f \<Rightarrow>
          let (m, threads) = init_event_notify sq lock1 p_store m;
              (rc, m) = (if lock2 then fill_section type f m else (NVM_ERR_EXCEEDSMAXSUBSCRIBERS, m))
          in (rc, m, threads))"

text \<open>The test of the identifier does not depend on the one of the permissions.\<close>

definition nvm_remove_event_notify :: "bool \<Rightarrow> bool \<Rightarrow> bool \<Rightarrow> int \<Rightarrow> monitor \<Rightarrow> int \<times> monitor" where
  "nvm_remove_event_notify permit lock1 lock2 callback_id m =
     (let rc = (if \<not> permit then NVM_ERR_INVALIDPERMISSIONS else NVM_SUCCESS) in
      if callback_id < 0 then (NVM_ERR_BADCALLBACK, m)
      else if callback_id \<ge> int MAX_EVENT_SUBSCRIBERS then (NVM_ERR_BADCALLBACK, m)
      else
        let (m, still_listening) = (if lock1 then clear_section (nat callback_id) m else (m, False))
        in (rc, if \<not> still_listening then remove_event_notify lock2 m else m))"

text \<open>A sequence of complete calls, all of which obtain the mutex.\<close>

datatype request = AddRequest bool u32 "nat option" | RemoveRequest bool int

definition run_request :: "'db sqlite \<Rightarrow> 'db option \<Rightarrow> monitor \<Rightarrow> request \<Rightarrow> monitor" where
  "run_request sq p_store m r =
     (case r of
        AddRequest permit type cb \<Rightarrow> fst (snd (nvm_add_event_notify sq permit True True type cb p_store m))
      | RemoveRequest permit i \<Rightarrow> snd (nvm_remove_event_notify permit True True i m))"

section \<open>Calls and polling threads side by side\<close>

text \<open>Where a call is: before \<^verbatim>\<open>init_event_notify\<close>, before the thread is created, before a slot is
  filled, before a slot is cleared, before polling is stopped, or returned.\<close>

datatype call = Init u32 nat | Spawn u32 nat | Fill u32 nat | Clear nat | Stop | Returned int

text \<open>Where a polling thread is: in \<^verbatim>\<open>timeToQuit\<close>, or about to look at the table.\<close>

datatype poller = Checking | Polling

record 'db system =
  mon :: monitor
  calls :: "call list"
  pollers :: "poller list"
  event_db :: "'db option"

text \<open>A call enters, a call or a thread takes its next section, or the database changes.\<close>

inductive sys_step :: "'db sqlite \<Rightarrow> 'db system \<Rightarrow> 'db system \<Rightarrow> bool" for sq where
  add: "sys_step sq s (s\<lparr>calls := calls s @ [Init type cb]\<rparr>)"
| remove: "i < MAX_EVENT_SUBSCRIBERS \<Longrightarrow> sys_step sq s (s\<lparr>calls := calls s @ [Clear i]\<rparr>)"
| init: "k < length (calls s) \<Longrightarrow> calls s ! k = Init type cb \<Longrightarrow> init_section sq (event_db s) (mon s) = (m, create) \<Longrightarrow>
    sys_step sq s (s\<lparr>mon := m, calls := (calls s)[k := if create then Spawn type cb else Fill type cb]\<rparr>)"
| spawn: "k < length (calls s) \<Longrightarrow> calls s ! k = Spawn type cb \<Longrightarrow>
    sys_step sq s (s\<lparr>calls := (calls s)[k := Fill type cb], pollers := pollers s @ [Checking]\<rparr>)"
| fill: "k < length (calls s) \<Longrightarrow> calls s ! k = Fill type cb \<Longrightarrow> fill_section type cb (mon s) = (rc, m) \<Longrightarrow>
    sys_step sq s (s\<lparr>mon := m, calls := (calls s)[k := Returned rc]\<rparr>)"
| clear: "k < length (calls s) \<Longrightarrow> calls s ! k = Clear i \<Longrightarrow> clear_section i (mon s) = (m, still) \<Longrightarrow>
    sys_step sq s (s\<lparr>mon := m, calls := (calls s)[k := if still then Returned NVM_SUCCESS else Stop]\<rparr>)"
| stop: "k < length (calls s) \<Longrightarrow> calls s ! k = Stop \<Longrightarrow>
    sys_step sq s (s\<lparr>mon := stop_section (mon s), calls := (calls s)[k := Returned NVM_SUCCESS]\<rparr>)"
| go_on: "j < length (pollers s) \<Longrightarrow> pollers s ! j = Checking \<Longrightarrow> is_polling (mon s) \<Longrightarrow>
    sys_step sq s (s\<lparr>pollers := (pollers s)[j := Polling]\<rparr>)"
| quit: "j < length (pollers s) \<Longrightarrow> pollers s ! j = Checking \<Longrightarrow> \<not> is_polling (mon s) \<Longrightarrow>
    sys_step sq s (s\<lparr>pollers := take j (pollers s) @ drop (Suc j) (pollers s)\<rparr>)"
| poll: "j < length (pollers s) \<Longrightarrow> pollers s ! j = Polling \<Longrightarrow>
    poll_section sq junk (event_db s) (mon s) = Some m \<Longrightarrow>
    sys_step sq s (s\<lparr>mon := m, pollers := (pollers s)[j := Checking]\<rparr>)"
| database: "sys_step sq s (s\<lparr>event_db := p_store\<rparr>)"

inductive reaches :: "'db sqlite \<Rightarrow> 'db system \<Rightarrow> 'db system \<Rightarrow> bool" for sq where
  here: "reaches sq s s"
| further: "reaches sq s t \<Longrightarrow> sys_step sq t u \<Longrightarrow> reaches sq s u"

definition initial_system :: "'db option \<Rightarrow> 'db system" where
  "initial_system p_store = \<lparr>mon = initial_monitor, calls = [], pollers = [], event_db = p_store\<rparr>"

inductive_cases sys_stepE: "sys_step sq s t"

lemmas monitor_sections = init_section_def fill_section_def clear_section_def stop_section_def

end
