(* ===== verification/EventFacts.thy ===== *)
theory EventFacts
  imports Events
begin

text \<open>
  What holds of the event log: which codes have a message, what counting, reading and purging do on a table that
  SQLite keeps, a stored event read back, and the bound on the number of events.
\<close>

section \<open>Messages\<close>

lemma entry_some: "i < length tab \<Longrightarrow> entry_at tab i = Some (tab ! i)"
  by (simp add: entry_at_def)

lemma message_in_defined:
  assumes "unknown - offset < length tab"
  shows "\<exists>m. message_in tab offset unknown code = Some m"
proof -
  have "unat code - offset < length tab" if "offset \<le> unat code" "unat code < unknown"
    using that assms by linarith
  with assms show ?thesis by (simp add: message_in_def entry_some)
qed

lemma table_lengths:
  "length EVENT_MESSAGES_QUICK_DIAG = 23" "length EVENT_MESSAGES_SECURITY_DIAG = 6" "length EVENT_MESSAGES_FW_DIAG = 11"
  "length EVENT_MESSAGES_MGMT = 20" "length EVENT_MESSAGES_HEALTH = 13" "length EVENT_MESSAGES_CONFIG = 15"
  "length EVENT_MESSAGES_PCONFIG_DIAG = 28"
  by (simp_all add: EVENT_MESSAGES_QUICK_DIAG_def EVENT_MESSAGES_SECURITY_DIAG_def EVENT_MESSAGES_FW_DIAG_def
      EVENT_MESSAGES_MGMT_def EVENT_MESSAGES_HEALTH_def EVENT_MESSAGES_CONFIG_def EVENT_MESSAGES_PCONFIG_DIAG_def)

text \<open>C33. The only events whose message is formatted from a null pointer are those of the management software
  with a code outside its range; every other event has a message or is left as it is.\<close>

theorem null_message_only_for_unknown_mgmt:
  "populate_event_message e = None \<longleftrightarrow>
     ev_type e = EVENT_TYPE_MGMT \<and> unat (ev_code e) \<notin> {300..<320}"
proof -
  have m: "message_in EVENT_MESSAGES_MGMT 300 320 (ev_code e) = None \<longleftrightarrow> unat (ev_code e) \<notin> {300..<320}"
    by (auto simp: message_in_def entry_at_def table_lengths)
  show ?thesis
    unfolding populate_event_message_def Let_def
    by (simp add: m message_in_defined table_lengths del: atLeastLessThan_iff)
qed

text \<open>The table of the management messages has no entry for the unlocking of a device: from there on every
  message is the one of the next code, and a secure erase is logged as an unknown event.\<close>

theorem mgmt_messages_shifted:
  "map_option ev_message (populate_event_message (zero_event\<lparr>ev_type := EVENT_TYPE_MGMT, ev_code := 309\<rparr>)) =
     Some ''A sanitize freeze lock has been applied to AEP DIMM %s.'' \<and>
   map_option ev_message (populate_event_message (zero_event\<lparr>ev_type := EVENT_TYPE_MGMT, ev_code := 319\<rparr>)) =
     Some ''The management software logged an unknown event code %d.''"
  by (simp_all add: populate_event_message_def message_in_def entry_at_def EVENT_MESSAGES_MGMT_def field_text_def)

lemma mgmt_message_defined:
  "ev_type e = EVENT_TYPE_MGMT \<Longrightarrow> unat (ev_code e) \<in> {300..<320} \<Longrightarrow> \<exists>m. populate_event_message e = Some m"
  by (auto simp: populate_event_message_def Let_def message_in_def entry_at_def table_lengths)

section \<open>Counting, reading, purging\<close>

lemma count_rows:
  "process_rows sq f c False rs n None db = Some (int (n + length (filter (event_matches_filter f) rs)), None, db)"
  by (induction rs arbitrary: n) simp_all

lemma copied_rows:
  assumes "unat c = length ready + k" "length (filter (event_matches_filter f) rs) \<le> k" "0 < c"
    "list_all (\<lambda>r. row_to_event r z \<noteq> None) (filter (event_matches_filter f) rs)"
  shows "process_rows sq f c False rs (length ready) (Some (ready @ replicate k z @ rest)) db =
    Some (int (length ready + length (filter (event_matches_filter f) rs)),
          Some (ready @ map (\<lambda>r. the (row_to_event r z)) (filter (event_matches_filter f) rs) @
                replicate (k - length (filter (event_matches_filter f) rs)) z @ rest), db)"
  using assms
proof (induction rs arbitrary: ready k)
  case (Cons r rs)
  show ?case
  proof (cases "event_matches_filter f r")
    case False
    then show ?thesis using Cons by simp
  next
    case True
    then obtain k' where k: "k = Suc k'" using Cons.prems(2) by (cases k) auto
    obtain e where e: "row_to_event r z = Some e" using Cons.prems(4) True by auto
    have "process_rows sq f c False rs (length (ready @ [e])) (Some ((ready @ [e]) @ replicate k' z @ rest)) db =
      Some (int (length (ready @ [e]) + length (filter (event_matches_filter f) rs)),
          Some ((ready @ [e]) @ map (\<lambda>r. the (row_to_event r z)) (filter (event_matches_filter f) rs) @
                replicate (k' - length (filter (event_matches_filter f) rs)) z @ rest), db)"
      by (rule Cons.IH) (use Cons.prems True k in simp_all)
    moreover have "\<not> unat c < Suc (length ready)" using Cons.prems(1) k by simp
    ultimately show ?thesis using True Cons.prems(3) by (simp add: k e list_update_append)
  qed
qed simp

lemma too_many_rows:
  assumes "unat c = length ready + k" "k < length (filter (event_matches_filter f) rs)" "0 < c"
    "list_all (\<lambda>r. row_to_event r z \<noteq> None) (filter (event_matches_filter f) rs)"
  shows "\<exists>out. process_rows sq f c False rs (length ready) (Some (ready @ replicate k z @ rest)) db =
    Some (NVM_ERR_ARRAYTOOSMALL, Some out, db)"
  using assms
proof (induction rs arbitrary: ready k)
  case (Cons r rs)
  show ?case
  proof (cases "event_matches_filter f r")
    case False
    then show ?thesis using Cons by simp
  next
    case True
    obtain e where e: "row_to_event r z = Some e" using Cons.prems(4) True by auto
    show ?thesis
    proof (cases k)
      case 0
      then show ?thesis using True Cons.prems(1,3) by simp
    next
      case (Suc k')
      have "\<exists>out. process_rows sq f c False rs (length (ready @ [e]))
          (Some ((ready @ [e]) @ replicate k' z @ rest)) db = Some (NVM_ERR_ARRAYTOOSMALL, Some out, db)"
        by (rule Cons.IH) (use Cons.prems True Suc in simp_all)
      moreover have "\<not> unat c < Suc (length ready)" using Cons.prems(1) Suc by simp
      ultimately show ?thesis using True Cons.prems(3) by (simp add: Suc e list_update_append)
    qed
  qed
qed simp

context sqlite_store
begin

lemma all_rows:
  assumes "ok db"
  shows "db_get_event_count sq db = (DB_SUCCESS, int (length (event_rows sq db)))"
    and "db_get_events sq (length (event_rows sq db)) db = (int (length (event_rows sq db)), event_rows sq db)"
  using assms prepared [OF assms] count_events [OF assms]
  by (simp_all add: db_get_event_count_def table_row_count_def run_scalar_sql_def db_get_events_def event_rows_def Let_def)

lemma process_is_loop:
  assumes "ok db"
  shows "process_events_matching_filter sq f out c purge (Some db) =
    map_option (\<lambda>(rc, out, db). (rc, out, Some db)) (process_rows sq f c purge (event_rows sq db) 0 out db)"
  using all_rows [OF assms] by (simp add: process_events_matching_filter_def)

lemma purged_rows:
  assumes "ok db"
  shows "\<exists>db'. process_rows sq f c True rs n out db =
      Some (int (n + length (filter (event_matches_filter f) rs)), out, db') \<and> ok db' \<and>
    event_rows sq db' =
      filter (\<lambda>r. db_id r \<notin> db_id ` set (filter (event_matches_filter f) rs)) (event_rows sq db) \<and>
    setting sq db' = setting sq db"
  using assms
proof (induction rs arbitrary: n db)
  case (Cons r rs)
  show ?case
  proof (cases "event_matches_filter f r")
    case False
    then show ?thesis using Cons by simp
  next
    case True
    let ?d = "snd (db_delete_event_by_id sq (db_id r) db)"
    have d: "?d = snd (sq_step sq (DeleteEvent (db_id r)) db)"
      using prepared [OF Cons.prems] by (simp add: db_delete_event_by_id_def case_prod_unfold Let_def)
    then have "ok ?d" "event_rows sq ?d = filter (\<lambda>x. db_id x \<noteq> db_id r) (event_rows sq db)"
      "setting sq ?d = setting sq db"
      using ok_step [OF Cons.prems] delete_event [OF Cons.prems] settings_kept [OF Cons.prems] by simp_all
    moreover obtain db' where "process_rows sq f c True rs (Suc n) out ?d =
        Some (int (Suc n + length (filter (event_matches_filter f) rs)), out, db')" "ok db'"
      "event_rows sq db' = filter (\<lambda>x. db_id x \<notin> db_id ` set (filter (event_matches_filter f) rs)) (event_rows sq ?d)"
      "setting sq db' = setting sq ?d"
      using Cons.IH [OF \<open>ok ?d\<close>, of "Suc n"] by blast
    ultimately show ?thesis using True by (auto intro!: filter_cong)
  qed
qed simp

lemma ids_distinct:
  assumes "ok db" "a \<in> set (event_rows sq db)" "b \<in> set (event_rows sq db)" "db_id a = db_id b"
  shows "a = b"
proof -
  have "newest_first es \<Longrightarrow> a \<in> set es \<Longrightarrow> b \<in> set es \<Longrightarrow> db_id a = db_id b \<Longrightarrow> a = b" for es
    by (induction es) (auto simp: newest_first_def)
  with newest [OF assms(1)] assms(2-4) show ?thesis by blast
qed

lemma purge_effect:
  assumes "ok db"
  shows "\<exists>db'. nvm_purge_events sq True f (Some db) =
      Some (int (length (filter (event_matches_filter f) (event_rows sq db))), Some db') \<and> ok db' \<and>
    event_rows sq db' = filter (\<lambda>r. \<not> event_matches_filter f r) (event_rows sq db)"
proof -
  obtain db' where p: "process_rows sq f 0 True (event_rows sq db) 0 None db =
      Some (int (length (filter (event_matches_filter f) (event_rows sq db))), None, db')" "ok db'"
    "event_rows sq db' = filter (\<lambda>r. db_id r \<notin> db_id ` set (filter (event_matches_filter f) (event_rows sq db)))
       (event_rows sq db)"
    using purged_rows [OF assms, of f 0 "event_rows sq db" 0 None] by auto
  have "db_id r \<in> db_id ` set (filter (event_matches_filter f) (event_rows sq db)) \<longleftrightarrow> event_matches_filter f r"
    if "r \<in> set (event_rows sq db)" for r
    using that ids_distinct [OF assms that] by auto
  then have "event_rows sq db' = filter (\<lambda>r. \<not> event_matches_filter f r) (event_rows sq db)"
    unfolding p(3) by (auto intro: filter_cong)
  with p(1,2) show ?thesis by (simp add: nvm_purge_events_def process_is_loop [OF assms])
qed

end

text \<open>C30. Purging removes exactly the events that match the filter and returns their number.\<close>

theorem purge_removes_matches:
  assumes "sqlite_store sq ok" "ok db"
  shows "\<exists>db'. nvm_purge_events sq True f (Some db) =
      Some (int (length (filter (event_matches_filter f) (event_rows sq db))), Some db') \<and> ok db' \<and>
    event_rows sq db' = filter (\<lambda>r. \<not> event_matches_filter f r) (event_rows sq db)"
  by (rule sqlite_store.purge_effect [OF assms])

text \<open>A row and two tables for the examples.\<close>

definition sample_row :: "int \<Rightarrow> u32 \<Rightarrow> db_event" where
  "sample_row i ar =
     \<lparr>db_id = i, db_type = EVENT_TYPE_MGMT, db_severity = 2, db_code = 300, db_action_required = ar,
      db_guid = guid_to_str (Some (replicate 16 0xA7)), db_time = 9, db_arg1 = ''x'', db_arg2 = [], db_arg3 = [],
      db_diag_result = 0\<rparr>"

lemma sample_row_fields [simp]: "db_id (sample_row i ar) = i" "db_action_required (sample_row i ar) = ar"
  by (simp_all add: sample_row_def)

lemma sample_tables_ok [simp]:
  "tables_ok ([sample_row 2 1, sample_row 1 0], 2, cs)" "tables_ok ([], 0, cs)"
  by (simp_all add: tables_ok_def newest_first_def sample_row_def)

theorem purge_removes_matches_witness:
  "\<exists>db'. nvm_purge_events list_sqlite True None (Some ([sample_row 2 1, sample_row 1 0], 2, [])) =
      Some (int (length (filter (event_matches_filter None)
        (event_rows list_sqlite ([sample_row 2 1, sample_row 1 0], 2, [])))), Some db') \<and> tables_ok db' \<and>
    event_rows list_sqlite db' = filter (\<lambda>r. \<not> event_matches_filter None r)
      (event_rows list_sqlite ([sample_row 2 1, sample_row 1 0], 2, []))"
  by (rule purge_removes_matches [OF lists.sqlite_store_axioms]) simp

text \<open>C31. Reading the events into an array: the matching ones, newest first, when they fit, and an error that
  says the array is too small exactly when they do not.\<close>

theorem matching_events_read:
  fixes db :: 'db and sq :: "'db sqlite"
  defines "found \<equiv> \<lambda>f. filter (event_matches_filter f) (event_rows sq db)"
  assumes "sqlite_store sq ok" "ok db" "0 < count" "length es = unat count"
    "list_all (\<lambda>r. row_to_event r zero_event \<noteq> None) (found f)"
  shows "\<exists>out. nvm_get_events sq True f (Some es) count (Some db) =
      Some (if length (found f) \<le> unat count then int (length (found f)) else NVM_ERR_ARRAYTOOSMALL,
            Some out, Some db) \<and>
    (length (found f) \<le> unat count \<longrightarrow>
       map Some (take (length (found f)) out) = map (\<lambda>r. row_to_event r zero_event) (found f))"
proof -
  have n: "nvm_get_events sq True f (Some es) count (Some db) =
      map_option (\<lambda>(rc, out, db). (rc, out, Some db))
        (process_rows sq f count False (event_rows sq db) 0 (Some (replicate (unat count) zero_event)) db)"
    using assms(4,5)
    by (simp add: nvm_get_events_def sqlite_store.process_is_loop [OF assms(2,3)] word_neq_0_conv [symmetric])
  show ?thesis
  proof (cases "length (found f) \<le> unat count")
    case True
    have "map Some (map (\<lambda>r. the (row_to_event r zero_event)) (found f)) =
        map (\<lambda>r. row_to_event r zero_event) (found f)"
      using assms(6) by (auto simp: list_all_iff)
    with True show ?thesis
      using copied_rows [of count "[]" "unat count" f "event_rows sq db" zero_event sq "[]" db] assms(4,6)
      by (simp add: n found_def)
  next
    case False
    then show ?thesis
      using too_many_rows [of count "[]" "unat count" f "event_rows sq db" zero_event sq "[]" db] assms(4,6)
      by (auto simp: n found_def)
  qed
qed

lemma sample_row_read: "\<exists>e. row_to_event (sample_row i ar) zero_event = Some e"
proof -
  let ?r = "sample_row i ar"
  let ?e = "zero_event\<lparr>event_id := word_of_int (db_id ?r), ev_type := db_type ?r, ev_severity := db_severity ?r,
    ev_code := ucast (db_code ?r), ev_time := db_time ?r, ev_action_required := ucast (db_action_required ?r),
    ev_guid := row_guid ?r, ev_arg1 := field_text NVM_EVENT_ARG_LEN (db_arg1 ?r),
    ev_arg2 := field_text NVM_EVENT_ARG_LEN (db_arg2 ?r), ev_arg3 := field_text NVM_EVENT_ARG_LEN (db_arg3 ?r)\<rparr>"
  have "\<exists>m. populate_event_message ?e = Some m"
    by (rule mgmt_message_defined) (simp_all add: sample_row_def)
  then obtain m where "populate_event_message ?e = Some m" ..
  then show ?thesis unfolding row_to_event_def by simp
qed

theorem matching_events_read_witness:
  "\<exists>out. nvm_get_events list_sqlite True None (Some [zero_event]) 1
      (Some ([sample_row 2 1, sample_row 1 0], 2, [])) =
      Some (if length (filter (event_matches_filter None) (event_rows list_sqlite ([sample_row 2 1, sample_row 1 0], 2, [])))
              \<le> unat (1 :: u16)
            then int (length (filter (event_matches_filter None)
              (event_rows list_sqlite ([sample_row 2 1, sample_row 1 0], 2, []))))
            else NVM_ERR_ARRAYTOOSMALL, Some out, Some ([sample_row 2 1, sample_row 1 0], 2, [])) \<and>
    (length (filter (event_matches_filter None) (event_rows list_sqlite ([sample_row 2 1, sample_row 1 0], 2, [])))
       \<le> unat (1 :: u16) \<longrightarrow>
     map Some (take (length (filter (event_matches_filter None)
         (event_rows list_sqlite ([sample_row 2 1, sample_row 1 0], 2, [])))) out) =
       map (\<lambda>r. row_to_event r zero_event) (filter (event_matches_filter None)
         (event_rows list_sqlite ([sample_row 2 1, sample_row 1 0], 2, []))))"
  by (rule matching_events_read [OF lists.sqlite_store_axioms])
    (simp_all add: list_rows event_matches_filter_def sample_row_read)

section \<open>Storing\<close>

lemma trim_shortens:
  assumes "es \<noteq> []" "1 \<le> n" "\<forall>r \<in> set es. db_action_required r = 0"
  shows "length (filter (\<lambda>r. db_id r \<notin> set (trimmed_ids n es)) es) < length es"
proof (rule length_filter_less)
  show "hd (rev es) \<in> set es" using assms(1) by (simp add: hd_rev)
  have "filter (\<lambda>r. db_action_required r = 0) (rev es) = rev es" using assms(3) by (simp add: filter_id_conv)
  then have "trimmed_ids n es = take (nat n) (map db_id (rev es))"
    using assms(2) by (simp add: trimmed_ids_def)
  moreover have "rev es = hd (rev es) # tl (rev es)" using assms(1) by simp
  moreover obtain k where "nat n = Suc k" using assms(2) by (cases "nat n") auto
  ultimately have "db_id (hd (rev es)) \<in> set (trimmed_ids n es)"
    by (metis list.set_intros(1) list.simps(9) take_Suc_Cons)
  then show "\<not> db_id (hd (rev es)) \<notin> set (trimmed_ids n es)" by simp
qed

lemma trimmed_need_no_action:
  "i \<in> set (trimmed_ids n es) \<Longrightarrow> \<exists>r \<in> set es. db_id r = i \<and> db_action_required r = 0"
  by (auto simp: trimmed_ids_def Let_def split: if_splits dest!: in_set_takeD)

context sqlite_store
begin

lemma added_row:
  assumes "ok db"
  obtains i d where "db_add_event sq r db = (DB_SUCCESS, d)" "ok d" "event_rows sq d = r\<lparr>db_id := i\<rparr> # event_rows sq db"
    "\<forall>x \<in> set (event_rows sq db). db_id x < i" "setting sq d = setting sq db"
proof -
  let ?d = "snd (sq_step sq (InsertEvent r) db)"
  obtain i where "\<forall>x \<in> set (event_rows sq db). db_id x < i" "event_rows sq ?d = r\<lparr>db_id := i\<rparr> # event_rows sq db"
    using insert_event [OF assms] by blast
  moreover have "db_add_event sq r db = (DB_SUCCESS, ?d)"
    using insert_event [OF assms, of r] prepared [OF assms] by (simp add: db_add_event_def case_prod_unfold Let_def)
  moreover have "ok ?d" by (rule ok_step [OF assms])
  moreover have "setting sq ?d = setting sq db" using settings_kept [OF assms] by simp
  ultimately show thesis using that by blast
qed

text \<open>The roll: nothing, or the removal of the oldest events that need no action.\<close>

lemma rolled:
  assumes "ok db" "roll_events sq db = Some db'"
  shows "ok db' \<and> setting sq db' = setting sq db \<and>
    (event_rows sq db' = event_rows sq db \<or>
     (\<exists>n. event_rows sq db' = filter (\<lambda>r. db_id r \<notin> set (trimmed_ids n (event_rows sq db))) (event_rows sq db)))"
proof (cases "db' = db")
  case False
  with assms(2) obtain n where "db' = snd (run_sql_no_results sq (TrimEvents n) db)"
    by (auto simp: roll_events_def Let_def case_prod_unfold split: if_splits bind_splits)
  then have "db' = snd (sq_step sq (TrimEvents n) db)"
    using prepared [OF assms(1)] by (simp add: run_sql_no_results_def case_prod_unfold Let_def)
  then show ?thesis using ok_step [OF assms(1)] trim_events [OF assms(1)] settings_kept [OF assms(1)] by auto
qed (use assms in simp)

lemma store_is_add_and_roll:
  assumes "ok db" "db_add_event sq (event_to_row now e) db = (DB_SUCCESS, d)"
  shows "store_event sq now e syslog (Some db) log = do {
      d' \<leftarrow> roll_events sq d;
      log' \<leftarrow> (if syslog then map_option (\<lambda>e. snd (log_event_in_syslog e NVM_SYSLOG_SOURCE log)) (populate_event_message e)
               else Some log);
      Some (NVM_SUCCESS, Some d', log')
    }"
  using assms by (simp add: store_event_def split: bind_splits)

lemma kept_rows:
  assumes "ok db" "r \<in> set (event_rows sq db)" "db_action_required r \<noteq> 0"
    "store_event sq now e syslog (Some db) log = Some (rc, Some db', log')"
  shows "r \<in> set (event_rows sq db')"
proof -
  obtain i d where d: "db_add_event sq (event_to_row now e) db = (DB_SUCCESS, d)" "ok d"
    "event_rows sq d = (event_to_row now e)\<lparr>db_id := i\<rparr> # event_rows sq db"
    by (rule added_row [OF assms(1)])
  from assms(4) have "roll_events sq d = Some db'"
    by (auto simp: store_is_add_and_roll [OF assms(1) d(1)] split: bind_splits if_splits)
  with rolled [OF d(2)] consider "event_rows sq db' = event_rows sq d"
    | n where "event_rows sq db' = filter (\<lambda>r. db_id r \<notin> set (trimmed_ids n (event_rows sq d))) (event_rows sq d)"
    by blast
  moreover have r: "r \<in> set (event_rows sq d)" using assms(2) by (simp add: d(3))
  moreover have "db_id r \<notin> set (trimmed_ids n (event_rows sq d))" for n
    using trimmed_need_no_action ids_distinct [OF d(2) _ r] assms(3) by blast
  ultimately show ?thesis by cases auto
qed

lemma roll_with_settings:
  assumes "ok d" "get_config_value_int sq (Some d) (Some ''EVENT_LOG_MAX'') = (COMMON_SUCCESS, Some m)"
    "get_config_value_int sq (Some d) (Some ''EVENT_LOG_TRIM_PERCENT'') = (COMMON_SUCCESS, Some p)"
    "0 \<le> p" "0 \<le> m" "p * m < 2 ^ 31"
  shows "roll_events sq d =
    Some (if int (length (event_rows sq d)) \<ge> m then snd (sq_step sq (TrimEvents (c_div (p * m) 100)) d) else d)"
proof -
  have "table_row_count sq CountEvents d = (DB_SUCCESS, int (length (event_rows sq d)))"
    using all_rows(1) [OF assms(1)] by (simp add: db_get_event_count_def)
  moreover have "0 \<le> p * m" using assms(4,5) by simp
  then have "int_product p m = Some (p * m)" using assms(6) by (simp add: int_product_def)
  ultimately show ?thesis using assms prepared [OF assms(1)]
    by (simp add: roll_events_def run_sql_no_results_def case_prod_unfold Let_def)
qed

end

text \<open>An event that needs an action is never removed by the rolling of the table, whatever is stored and
  whatever the settings are.\<close>

theorem required_actions_stay:
  assumes "sqlite_store sq ok" "ok db" "r \<in> set (event_rows sq db)" "db_action_required r \<noteq> 0"
    "store_event sq now e syslog (Some db) log = Some (rc, Some db', log')"
  shows "r \<in> set (event_rows sq db')"
  by (rule sqlite_store.kept_rows [OF assms])

definition sample_settings :: "(string \<times> string) list" where
  "sample_settings = [(''EVENT_LOG_MAX'', ''3''), (''EVENT_LOG_TRIM_PERCENT'', ''100'')]"

definition sample_event :: event where
  "sample_event = zero_event\<lparr>ev_type := EVENT_TYPE_MGMT, ev_severity := 2, ev_code := 300\<rparr>"

lemma sample_values:
  "get_config_value_int list_sqlite (Some (es, n, sample_settings)) (Some ''EVENT_LOG_MAX'') = (COMMON_SUCCESS, Some 3)"
  "get_config_value_int list_sqlite (Some (es, n, sample_settings)) (Some ''EVENT_LOG_TRIM_PERCENT'') =
     (COMMON_SUCCESS, Some 100)"
  by (simp_all add: get_config_value_int_def get_config_value_def db_get_config_by_key_def list_sqlite_def
      sample_settings_def field_text_def to_int_def strtol_def strtol_magnitude_def digit_of_def Let_def)

lemma sample_store:
  "store_event list_sqlite 5 sample_event False (Some ([sample_row 2 1, sample_row 1 0], 2, sample_settings)) log =
     Some (NVM_SUCCESS, Some ([sample_row 2 1], 3, sample_settings), log)"
proof -
  let ?r = "(event_to_row 5 sample_event)\<lparr>db_id := 3\<rparr>"
  let ?d = "([?r, sample_row 2 1, sample_row 1 0], 3, sample_settings) :: tables"
  have a: "db_action_required ?r = 0" by (simp add: event_to_row_def sample_event_def zero_event_def)
  have d: "tables_ok ?d" by (simp add: tables_ok_def newest_first_def sample_row_def)
  have add: "db_add_event list_sqlite (event_to_row 5 sample_event) ([sample_row 2 1, sample_row 1 0], 2, sample_settings) =
      (DB_SUCCESS, ?d)"
    by (simp add: db_add_event_def list_sqlite_def list_step_def)
  have "roll_events list_sqlite ?d =
      Some (if int (length (event_rows list_sqlite ?d)) \<ge> 3
            then snd (sq_step list_sqlite (TrimEvents (c_div (100 * 3) 100)) ?d) else ?d)"
    by (rule lists.roll_with_settings [OF d sample_values]) simp_all
  moreover have "snd (sq_step list_sqlite (TrimEvents (c_div (100 * 3) 100)) ?d) = ([sample_row 2 1], 3, sample_settings)"
    using a by (simp add: c_div_def list_sqlite_def list_step_def trimmed_ids_def)
  ultimately have "roll_events list_sqlite ?d = Some ([sample_row 2 1], 3, sample_settings)" by (simp add: list_rows)
  then show ?thesis by (simp add: lists.store_is_add_and_roll [OF _ add])
qed

theorem required_actions_stay_witness:
  "sample_row 2 1 \<in> set (event_rows list_sqlite ([sample_row 2 1], 3, sample_settings))"
  by (rule required_actions_stay [OF lists.sqlite_store_axioms _ _ _ sample_store])
    (simp_all add: list_rows tables_ok_def newest_first_def)

text \<open>C29. A log whose events need no action stays below the limit of the settings, when the share that is
  trimmed is at least one event.\<close>

theorem log_stays_below_limit:
  assumes "sqlite_store sq ok" "ok db"
    "get_config_value_int sq (Some db) (Some ''EVENT_LOG_MAX'') = (COMMON_SUCCESS, Some m)"
    "get_config_value_int sq (Some db) (Some ''EVENT_LOG_TRIM_PERCENT'') = (COMMON_SUCCESS, Some p)"
    "0 \<le> p" "100 \<le> p * m" "p * m < 2 ^ 31"
    "\<forall>r \<in> set (event_rows sq db). db_action_required r = 0" "ev_action_required e = 0"
    "int (length (event_rows sq db)) < m"
  shows "\<exists>db'. store_event sq now e False (Some db) log = Some (NVM_SUCCESS, Some db', log) \<and> ok db' \<and>
    int (length (event_rows sq db')) < m \<and>
    list_all (\<lambda>r. db_action_required r = 0) (event_rows sq db')"
proof -
  obtain i d where d: "db_add_event sq (event_to_row now e) db = (DB_SUCCESS, d)" "ok d"
    "event_rows sq d = (event_to_row now e)\<lparr>db_id := i\<rparr> # event_rows sq db" "setting sq d = setting sq db"
    by (rule sqlite_store.added_row [OF assms(1,2)])
  let ?es = "event_rows sq d"
  have g: "get_config_value_int sq (Some d) k = get_config_value_int sq (Some db) k" for k
    using sqlite_store.int_of_setting [OF assms(1,2)] sqlite_store.int_of_setting [OF assms(1) d(2)] d(4)
    by (cases k) (simp_all add: get_config_value_int_def)
  have z: "\<forall>r \<in> set ?es. db_action_required r = 0"
    using assms(8,9) by (simp add: d(3) event_to_row_def)
  define t where "t = snd (sq_step sq (TrimEvents (c_div (p * m) 100)) d)"
  have t: "ok t" "event_rows sq t = filter (\<lambda>r. db_id r \<notin> set (trimmed_ids (c_div (p * m) 100) ?es)) ?es"
    using sqlite_store.ok_step [OF assms(1) d(2)] sqlite_store.trim_events [OF assms(1) d(2)] by (simp_all add: t_def)
  have "c_div (p * m) 100 = p * m div 100" using assms(6) by (simp add: c_div_def)
  then have "1 \<le> c_div (p * m) 100" using assms(6) by linarith
  then have s: "length (event_rows sq t) < length ?es"
    unfolding t(2) by (intro trim_shortens) (use z in \<open>simp_all add: d(3)\<close>)
  have "0 \<le> m" using assms(10) by linarith
  then have "roll_events sq d = Some (if int (length ?es) \<ge> m then t else d)"
    unfolding t_def using sqlite_store.roll_with_settings [OF assms(1) d(2)] assms(3-5,7) by (simp add: g)
  moreover have "store_event sq now e False (Some db) log = do { d' \<leftarrow> roll_events sq d; Some (NVM_SUCCESS, Some d', log) }"
    by (simp add: sqlite_store.store_is_add_and_roll [OF assms(1,2) d(1)])
  moreover have "length ?es = Suc (length (event_rows sq db))" by (simp add: d(3))
  then have "int (length (event_rows sq t)) < m" using s assms(10) by linarith
  moreover have "list_all (\<lambda>r. db_action_required r = 0) (event_rows sq t)"
    using z by (auto simp: t(2) list_all_iff)
  ultimately show ?thesis using t(1) d(2) z by (auto simp: list_all_iff)
qed

theorem log_stays_below_limit_witness:
  "\<exists>db'. store_event list_sqlite 5 sample_event False (Some ([sample_row 2 0, sample_row 1 0], 2, sample_settings)) [] =
      Some (NVM_SUCCESS, Some db', []) \<and> tables_ok db' \<and> int (length (event_rows list_sqlite db')) < 3 \<and>
    list_all (\<lambda>r. db_action_required r = 0) (event_rows list_sqlite db')"
  by (rule log_stays_below_limit [OF lists.sqlite_store_axioms _ sample_values])
    (simp_all add: tables_ok_def newest_first_def sample_row_def sample_event_def zero_event_def list_rows)

section \<open>A stored event is read back\<close>

lemma populate_other_fields:
  "populate_event_message (e\<lparr>event_id := a, ev_time := b, ev_diag_result := c\<rparr>) =
     map_option (\<lambda>p. p\<lparr>event_id := a, ev_time := b, ev_diag_result := c\<rparr>) (populate_event_message e)"
  by (cases e) (simp add: populate_event_message_def Let_def option.map_comp comp_def)

lemma populate_keeps_result: "populate_event_message e = Some p \<Longrightarrow> ev_diag_result p = ev_diag_result e"
  by (auto simp: populate_event_message_def Let_def split: if_splits)

lemma only_new_row_matches:
  assumes "\<forall>x \<in> set rows. db_id x < i" "db_id r = i" "filter_mask f = 0x40" "f_event_id f = i"
  shows "filter (event_matches_filter (Some f)) (r # rows) = [r]"
proof -
  have m: "event_matches_filter (Some f) x \<longleftrightarrow> db_id x = i" for x
    using assms(3,4) by (simp add: event_matches_filter_def Let_def)
  then show ?thesis using assms(1,2) by (auto simp: filter_empty_conv)
qed

lemma field_text_short [simp]: "length s < n \<Longrightarrow> field_text n s = s"
  by (simp add: field_text_def)

lemma row_of_event_read:
  assumes "length (ev_guid e) = 16" "length (ev_arg1 e) < NVM_EVENT_ARG_LEN" "length (ev_arg2 e) < NVM_EVENT_ARG_LEN"
    "length (ev_arg3 e) < NVM_EVENT_ARG_LEN" "populate_event_message (e\<lparr>ev_message := []\<rparr>) = Some p"
  shows "row_to_event ((event_to_row now e)\<lparr>db_id := i\<rparr>) zero_event = Some (p\<lparr>event_id := word_of_int i, ev_time := now\<rparr>)"
proof -
  let ?r = "(event_to_row now e)\<lparr>db_id := i\<rparr>"
  have "take 37 (guid_to_str (Some (ev_guid e)) @ replicate 37 (CHR 0x00)) =
      guid_to_str (Some (ev_guid e)) @ [CHR 0x00]"
    by (simp add: length_guid_to_str)
  then have g: "row_guid ?r = ev_guid e"
    using assms(1) str_to_guid_guid_to_str [of "ev_guid e" "[CHR 0x00]"] by (simp add: row_guid_def event_to_row_def)
  have c: "ucast (ucast (ev_code e) :: u32) = ev_code e" "ucast (ucast (ev_action_required e) :: u32) = ev_action_required e"
    by (rule bit_word_eqI; simp add: bit_simps)+
  have "row_to_event ?r zero_event = do {
      q \<leftarrow> populate_event_message ((e\<lparr>ev_message := []\<rparr>)\<lparr>event_id := word_of_int i, ev_time := now, ev_diag_result := 0\<rparr>);
      Some (q\<lparr>ev_diag_result := ev_diag_result e\<rparr>)
    }"
    unfolding row_to_event_def g using assms(2-4) c by (cases e) (simp add: event_to_row_def zero_event_def)
  then show ?thesis
    unfolding populate_other_fields using assms(5) populate_keeps_result [OF assms(5)] by simp
qed

text \<open>C28. An event that was stored is read back by its identifier, with its texts, its time and its message,
  and nothing else is read with it.\<close>

theorem stored_event_read_back:
  assumes "sqlite_store sq ok" "ok db"
    "length (ev_guid e) = 16" "length (ev_arg1 e) < NVM_EVENT_ARG_LEN" "length (ev_arg2 e) < NVM_EVENT_ARG_LEN"
    "length (ev_arg3 e) < NVM_EVENT_ARG_LEN" "populate_event_message (e\<lparr>ev_message := []\<rparr>) = Some p"
    "get_config_value_int sq (Some db) (Some ''EVENT_LOG_MAX'') = (COMMON_SUCCESS, Some m)"
    "int (length (event_rows sq db)) + 1 < m"
  shows "\<exists>db' i. store_event sq now e False (Some db) log = Some (NVM_SUCCESS, Some db', log) \<and>
    nvm_get_events sq True (Some (f\<lparr>filter_mask := 0x40, f_event_id := i\<rparr>)) (Some [x]) 1 (Some db') =
      Some (1, Some [p\<lparr>event_id := word_of_int i, ev_time := now\<rparr>], Some db')"
proof -
  obtain i d where d: "db_add_event sq (event_to_row now e) db = (DB_SUCCESS, d)" "ok d"
    "event_rows sq d = (event_to_row now e)\<lparr>db_id := i\<rparr> # event_rows sq db"
    "\<forall>x \<in> set (event_rows sq db). db_id x < i" "setting sq d = setting sq db"
    by (rule sqlite_store.added_row [OF assms(1,2)])
  have "get_config_value_int sq (Some d) (Some ''EVENT_LOG_MAX'') = (COMMON_SUCCESS, Some m)"
    using assms(8) by (simp add: sqlite_store.int_of_setting [OF assms(1,2)] sqlite_store.int_of_setting [OF assms(1) d(2)] d(5))
  moreover have "table_row_count sq CountEvents d = (DB_SUCCESS, int (length (event_rows sq d)))"
    using sqlite_store.all_rows(1) [OF assms(1) d(2)] by (simp add: db_get_event_count_def)
  ultimately have "roll_events sq d = Some d"
    using assms(9) by (simp add: roll_events_def Let_def d(3) case_prod_unfold)
  then have st: "store_event sq now e False (Some db) log = Some (NVM_SUCCESS, Some d, log)"
    by (simp add: sqlite_store.store_is_add_and_roll [OF assms(1,2) d(1)])
  let ?f = "f\<lparr>filter_mask := 0x40, f_event_id := i\<rparr>"
  let ?r = "(event_to_row now e)\<lparr>db_id := i\<rparr>"
  have "filter (event_matches_filter (Some ?f)) (event_rows sq d) = [?r]"
    unfolding d(3) by (rule only_new_row_matches [OF d(4)]) simp_all
  moreover have "row_to_event ?r zero_event = Some (p\<lparr>event_id := word_of_int i, ev_time := now\<rparr>)"
    by (rule row_of_event_read [OF assms(3-7)])
  ultimately have "process_rows sq (Some ?f) 1 False (event_rows sq d) 0 (Some [zero_event]) d =
      Some (1, Some [p\<lparr>event_id := word_of_int i, ev_time := now\<rparr>], d)"
    using copied_rows [of 1 "[]" 1 "Some ?f" "event_rows sq d" zero_event sq "[]" d] by simp
  then have "nvm_get_events sq True (Some ?f) (Some [x]) 1 (Some d) =
      Some (1, Some [p\<lparr>event_id := word_of_int i, ev_time := now\<rparr>], Some d)"
    by (simp add: nvm_get_events_def sqlite_store.process_is_loop [OF assms(1) d(2)])
  with st show ?thesis by blast
qed

definition sample_filter :: event_filter where
  "sample_filter =
     \<lparr>filter_mask = 0, f_type = 0, f_severity = 0, f_code = 0, f_guid = replicate 16 0, f_after = 0, f_before = 0,
      f_event_id = 0, f_action_required = 0\<rparr>"

theorem stored_event_read_back_witness:
  "\<exists>db' i. store_event list_sqlite 5 sample_event False (Some ([], 0, sample_settings)) [] =
      Some (NVM_SUCCESS, Some db', []) \<and>
    nvm_get_events list_sqlite True (Some (sample_filter\<lparr>filter_mask := 0x40, f_event_id := i\<rparr>)) (Some [zero_event]) 1
        (Some db') =
      Some (1, Some [(sample_event\<lparr>ev_message := ''A new configuration goal has been saved on AEP DIMM %s.''\<rparr>)
        \<lparr>event_id := word_of_int i, ev_time := 5\<rparr>], Some db')"
  by (rule stored_event_read_back [OF lists.sqlite_store_axioms _ _ _ _ _ _ sample_values(1)])
    (simp_all add: sample_event_def zero_event_def list_rows populate_event_message_def message_in_def entry_at_def
      EVENT_MESSAGES_MGMT_def)

end
