(* ===== verification/SubscriptionFacts.thy ===== *)
theory SubscriptionFacts
  imports Subscriptions EventFacts
begin

text \<open>
  What holds of subscriptions: an invariant of the calls one after the other and one of calls and polling threads
  side by side, the races that remain, and which callbacks a look at the event table makes.
\<close>

section \<open>Calls one after the other\<close>

lemma first_free_none: "first_free ss = None \<longleftrightarrow> list_all (\<lambda>s. snd s \<noteq> None) ss"
  by (induction ss) auto

lemma first_free_some: "first_free ss = Some i \<Longrightarrow> i < length ss \<and> snd (ss ! i) = None"
  by (induction ss arbitrary: i) (auto split: if_splits)

lemma first_free_cleared: "ss \<noteq> [] \<Longrightarrow> first_free (map (\<lambda>s. (fst s, None)) ss) = Some 0"
  by (cases ss) simp_all

lemma fill_subscribes:
  assumes "fill_section type cb m = (rc, m')" "callback_list m \<noteq> []"
  shows "subscribed m'" "length (callback_list m') = length (callback_list m)" "is_polling m' = is_polling m"
proof -
  show "subscribed m'"
  proof (cases "first_free (callback_list m)")
    case None
    then have "list_all (\<lambda>s. snd s \<noteq> None) (callback_list m)" by (simp add: first_free_none)
    moreover have "m' = m" using assms(1) None by (simp add: fill_section_def)
    ultimately show ?thesis using assms(2) by (cases "callback_list m") (auto simp: subscribed_def)
  next
    case (Some i)
    then have "i < length (callback_list m)" by (simp add: first_free_some)
    then have "(type, Some cb) \<in> set ((callback_list m)[i := (type, Some cb)])" by (rule set_update_memI)
    with assms Some show ?thesis
      by (auto simp: fill_section_def subscribed_def list_ex_iff intro!: bexI [where x = "(type, Some cb)"])
  qed
qed (use assms in \<open>auto simp: fill_section_def split: option.splits\<close>)

lemma clear_unsubscribes:
  assumes "clear_section i m = (m', still)"
  shows "still = subscribed m'" "is_polling m' = is_polling m"
    "length (callback_list m') = length (callback_list m)" "subscribed m' \<Longrightarrow> subscribed m"
proof -
  have m': "m' = m\<lparr>callback_list := (callback_list m)[i := (fst (callback_list m ! i), None)]\<rparr>" "still = subscribed m'"
    using assms by (auto simp: clear_section_def Let_def)
  then show "still = subscribed m'" "is_polling m' = is_polling m"
    "length (callback_list m') = length (callback_list m)" by simp_all
  assume "subscribed m'"
  then obtain x where x: "x \<in> set ((callback_list m)[i := (fst (callback_list m ! i), None)])" "snd x \<noteq> None"
    by (auto simp: subscribed_def list_ex_iff m'(1))
  then have "x \<in> set (callback_list m)" using set_update_subset_insert by fastforce
  with x(2) show "subscribed m" by (auto simp: subscribed_def list_ex_iff)
qed

text \<open>C26. After any sequence of calls, permitted or not, the library polls for events exactly while somebody is
  subscribed.\<close>

theorem polling_while_subscribed:
  "is_polling (foldl (run_request sq p_store) initial_monitor rs) \<longleftrightarrow>
     subscribed (foldl (run_request sq p_store) initial_monitor rs)"
proof -
  have one: "length (callback_list (run_request sq p_store m r)) = MAX_EVENT_SUBSCRIBERS \<and>
      (is_polling (run_request sq p_store m r) \<longleftrightarrow> subscribed (run_request sq p_store m r))"
    if l: "length (callback_list m) = MAX_EVENT_SUBSCRIBERS" and i: "is_polling m \<longleftrightarrow> subscribed m" for m r
  proof (cases r)
    case (AddRequest permit type cb)
    show ?thesis
    proof (cases "permit \<and> cb \<noteq> None")
      case False
      then show ?thesis using l i AddRequest by (auto simp: run_request_def nvm_add_event_notify_def)
    next
      case True
      then obtain f where cb: "cb = Some f" by auto
      obtain m1 create where m1: "init_section sq p_store m = (m1, create)" by force
      then have "is_polling m1" "length (callback_list m1) = MAX_EVENT_SUBSCRIBERS"
        using l by (auto simp: init_section_def split: if_splits)
      moreover obtain rc m2 where m2: "fill_section type f m1 = (rc, m2)" by force
      ultimately have "is_polling m2" "subscribed m2" "length (callback_list m2) = MAX_EVENT_SUBSCRIBERS"
        using fill_subscribes [OF m2] by force+
      then show ?thesis
        using True by (simp add: run_request_def AddRequest cb nvm_add_event_notify_def init_event_notify_def m1 m2)
    qed
  next
    case (RemoveRequest permit k)
    show ?thesis
    proof (cases "0 \<le> k \<and> k < int MAX_EVENT_SUBSCRIBERS")
      case False
      then show ?thesis using l i RemoveRequest by (auto simp: run_request_def nvm_remove_event_notify_def)
    next
      case True
      obtain m1 still where m1: "clear_section (nat k) m = (m1, still)" by force
      note c = clear_unsubscribes [OF m1]
      show ?thesis
        using c i l True by (auto simp: run_request_def RemoveRequest nvm_remove_event_notify_def m1 remove_event_notify_def
            stop_section_def subscribed_def)
    qed
  qed
  have "length (callback_list m) = MAX_EVENT_SUBSCRIBERS \<Longrightarrow> (is_polling m \<longleftrightarrow> subscribed m) \<Longrightarrow>
      is_polling (foldl (run_request sq p_store) m rs) \<longleftrightarrow> subscribed (foldl (run_request sq p_store) m rs)" for m
    by (induction rs arbitrary: m) (simp_all add: one)
  moreover have "length (callback_list initial_monitor) = MAX_EVENT_SUBSCRIBERS"
    "is_polling initial_monitor \<longleftrightarrow> subscribed initial_monitor"
    by (simp_all add: initial_monitor_def subscribed_def list_ex_iff)
  ultimately show ?thesis by blast
qed

text \<open>A caller without the permission is told so, and the callback is removed all the same.\<close>

theorem removed_without_permission:
  assumes "0 \<le> i" "i < int MAX_EVENT_SUBSCRIBERS" "length (callback_list m) = MAX_EVENT_SUBSCRIBERS"
  shows "\<exists>m'. nvm_remove_event_notify False True lock2 i m = (NVM_ERR_INVALIDPERMISSIONS, m') \<and>
    snd (callback_list m' ! nat i) = None"
proof -
  obtain m1 still where m1: "clear_section (nat i) m = (m1, still)" by force
  then have "snd (callback_list m1 ! nat i) = None" using assms by (auto simp: clear_section_def Let_def)
  moreover have "callback_list (remove_event_notify lock2 m1) = callback_list m1"
    by (simp add: remove_event_notify_def stop_section_def)
  ultimately show ?thesis using assms(1,2) by (auto simp: nvm_remove_event_notify_def m1)
qed

theorem removed_without_permission_witness:
  "\<exists>m'. nvm_remove_event_notify False True True 0
      (initial_monitor\<lparr>is_polling := True, callback_list := (0, Some 7) # replicate 4 (0, None)\<rparr>) =
      (NVM_ERR_INVALIDPERMISSIONS, m') \<and> snd (callback_list m' ! nat 0) = None"
  by (rule removed_without_permission) simp_all

section \<open>Calls and threads side by side\<close>

definition about_to_spawn :: "call \<Rightarrow> bool" where
  "about_to_spawn c = (case c of Spawn _ _ \<Rightarrow> True | _ \<Rightarrow> False)"

definition returned :: "call \<Rightarrow> bool" where
  "returned c = (case c of Returned _ \<Rightarrow> True | _ \<Rightarrow> False)"

definition thread_for_polling :: "'db system \<Rightarrow> bool" where
  "thread_for_polling s \<longleftrightarrow>
     length (callback_list (mon s)) = MAX_EVENT_SUBSCRIBERS \<and>
     (is_polling (mon s) \<longrightarrow> pollers s \<noteq> [] \<or> list_ex about_to_spawn (calls s))"

lemma spawn_kept:
  "list_ex about_to_spawn cs \<Longrightarrow> k < length cs \<Longrightarrow> \<not> about_to_spawn (cs ! k) \<Longrightarrow> list_ex about_to_spawn (cs[k := c])"
  unfolding list_ex_length by (metis length_list_update nth_list_update_neq)

lemma spawn_made: "k < length cs \<Longrightarrow> list_ex about_to_spawn (cs[k := Spawn t cb])"
  by (auto simp: list_ex_length about_to_spawn_def intro!: exI [of _ k])

lemma poll_keeps:
  assumes "poll_section sq junk p_store m = Some m'"
  shows "callback_list m' = callback_list m" "is_polling m' = is_polling m"
  using assms by (auto simp: poll_section_def Let_def split: if_splits bind_splits)

lemma step_keeps_thread:
  assumes "sys_step sq s t" "thread_for_polling s"
  shows "thread_for_polling t"
  using assms
proof (induction rule: sys_step.induct)
  case (init k s type cb m create)
  then show ?case
    by (cases create) (auto simp: thread_for_polling_def init_section_def about_to_spawn_def spawn_made split: if_splits
        intro!: spawn_kept)
next
  case (fill k s type cb rc m)
  then show ?case
    by (auto simp: thread_for_polling_def fill_section_def about_to_spawn_def split: option.splits intro!: spawn_kept)
next
  case (clear k s i m still)
  then show ?case
    by (auto simp: thread_for_polling_def clear_section_def Let_def about_to_spawn_def intro!: spawn_kept)
next
  case (stop k s)
  then show ?case by (auto simp: thread_for_polling_def stop_section_def)
next
  case (poll j s junk m)
  then show ?case by (auto simp: thread_for_polling_def poll_keeps)
qed (auto simp: thread_for_polling_def about_to_spawn_def)



text \<open>The last call of a system, step by step.\<close>

lemma next_call_steps:
  assumes "calls s = cs @ [c]"
  shows "c = Init type cb \<Longrightarrow> init_section sq (event_db s) (mon s) = (m, create) \<Longrightarrow>
      sys_step sq s (s\<lparr>mon := m, calls := cs @ [if create then Spawn type cb else Fill type cb]\<rparr>)"
    and "c = Spawn type cb \<Longrightarrow>
      sys_step sq s (s\<lparr>calls := cs @ [Fill type cb], pollers := pollers s @ [Checking]\<rparr>)"
    and "c = Fill type cb \<Longrightarrow> fill_section type cb (mon s) = (rc, m) \<Longrightarrow>
      sys_step sq s (s\<lparr>mon := m, calls := cs @ [Returned rc]\<rparr>)"
    and "c = Clear i \<Longrightarrow> clear_section i (mon s) = (m, still) \<Longrightarrow>
      sys_step sq s (s\<lparr>mon := m, calls := cs @ [if still then Returned NVM_SUCCESS else Stop]\<rparr>)"
    and "c = Stop \<Longrightarrow> sys_step sq s (s\<lparr>mon := stop_section (mon s), calls := cs @ [Returned NVM_SUCCESS]\<rparr>)"
  using assms sys_step.init [of "length cs" s] sys_step.spawn [of "length cs" s] sys_step.fill [of "length cs" s]
    sys_step.clear [of "length cs" s] sys_step.stop [of "length cs" s]
  by (simp_all add: list_update_append)

lemma reaches_trans: "reaches sq s t \<Longrightarrow> reaches sq t u \<Longrightarrow> reaches sq s u"
  by (rotate_tac, induction rule: reaches.induct) (auto intro: reaches.further)

text \<open>A subscription while nobody polls: the list is emptied, a thread is created, the first slot is taken.\<close>

lemma first_subscription:
  assumes "\<not> is_polling (mon s)" "callback_list (mon s) \<noteq> []"
  shows "\<exists>t. reaches sq s t \<and> calls t = calls s @ [Returned 0] \<and> pollers t = pollers s @ [Checking] \<and>
    is_polling (mon t) \<and> callback_list (mon t) = (type, Some cb) # map (\<lambda>x. (fst x, None)) (tl (callback_list (mon s))) \<and>
    event_db t = event_db s"
proof -
  obtain x xs where l: "callback_list (mon s) = x # xs" using assms(2) by (cases "callback_list (mon s)") auto
  obtain m where m: "init_section sq (event_db s) (mon s) = (m, True)" "is_polling m"
    "callback_list m = (fst x, None) # map (\<lambda>x. (fst x, None)) xs"
    using assms(1) l by (simp add: init_section_def)
  define a where "a = s\<lparr>calls := calls s @ [Init type cb]\<rparr>"
  define b where "b = a\<lparr>mon := m, calls := calls s @ [Spawn type cb]\<rparr>"
  define c where "c = b\<lparr>calls := calls s @ [Fill type cb], pollers := pollers b @ [Checking]\<rparr>"
  define m' where "m' = m\<lparr>callback_list := (type, Some cb) # map (\<lambda>x. (fst x, None)) xs\<rparr>"
  define d where "d = c\<lparr>mon := m', calls := calls s @ [Returned 0]\<rparr>"
  have "sys_step sq s a" unfolding a_def by (rule sys_step.add)
  moreover have "sys_step sq a b"
    unfolding b_def using next_call_steps(1) [of a "calls s" "Init type cb" type cb sq m True] m(1) by (simp add: a_def)
  moreover have "sys_step sq b c"
    unfolding c_def using next_call_steps(2) [of b "calls s" "Spawn type cb" type cb sq] by (simp add: b_def)
  moreover have "fill_section type cb m = (0, m')" by (simp add: fill_section_def m(3) m'_def)
  then have "sys_step sq c d"
    unfolding d_def using next_call_steps(3) [of c "calls s" "Fill type cb" type cb 0 m' sq] by (simp add: c_def b_def)
  ultimately have "reaches sq s d" by (meson reaches.intros)
  moreover have "calls d = calls s @ [Returned 0]" "pollers d = pollers s @ [Checking]" "is_polling (mon d)"
    "callback_list (mon d) = (type, Some cb) # map (\<lambda>x. (fst x, None)) (tl (callback_list (mon s)))"
    "event_db d = event_db s"
    by (simp_all add: d_def c_def b_def a_def m'_def m(2) l)
  ultimately show ?thesis by blast
qed

text \<open>Removing the only callback, up to the call that stops the polling.\<close>

lemma only_callback_cleared:
  assumes "callback_list (mon s) = (type, Some cb) # xs" "list_all (\<lambda>x. snd x = None) xs"
  shows "\<exists>t. reaches sq s t \<and> calls t = calls s @ [Stop] \<and> pollers t = pollers s \<and>
    is_polling (mon t) = is_polling (mon s) \<and> callback_list (mon t) = (type, None) # xs \<and> event_db t = event_db s"
proof -
  define a where "a = s\<lparr>calls := calls s @ [Clear 0]\<rparr>"
  define m where "m = (mon s)\<lparr>callback_list := (type, None) # xs\<rparr>"
  define b where "b = a\<lparr>mon := m, calls := calls s @ [Stop]\<rparr>"
  have "sys_step sq s a" unfolding a_def by (rule sys_step.remove) simp
  moreover have "clear_section 0 (mon s) = (m, False)"
    using assms by (simp add: clear_section_def m_def subscribed_def list_ex_iff list_all_iff)
  then have "sys_step sq a b"
    unfolding b_def using next_call_steps(4) [of a "calls s" "Clear 0" 0 m False sq] by (simp add: a_def)
  ultimately have "reaches sq s b" by (meson reaches.intros)
  moreover have "calls b = calls s @ [Stop]" "pollers b = pollers s" "is_polling (mon b) = is_polling (mon s)"
    "callback_list (mon b) = (type, None) # xs" "event_db b = event_db s"
    by (simp_all add: b_def a_def m_def)
  ultimately show ?thesis by blast
qed

text \<open>C27. A call that subscribes between the two sections of one that removes the last callback ends with a
  subscriber while nobody polls: both calls return success, and no event is delivered any more.\<close>

theorem subscriber_without_polling:
  "\<exists>s. reaches sq (initial_system p_store) s \<and> list_all returned (calls s) \<and> subscribed (mon s) \<and>
     \<not> is_polling (mon s)"
proof -
  have "\<not> is_polling (mon (initial_system p_store))" "callback_list (mon (initial_system p_store)) \<noteq> []"
    by (simp_all add: initial_system_def initial_monitor_def)
  from first_subscription [OF this, of sq 0 1] obtain s1 where s1: "reaches sq (initial_system p_store) s1"
    "calls s1 = [Returned 0]" "is_polling (mon s1)"
    "callback_list (mon s1) = (0, Some 1) # map (\<lambda>x. (fst x, None)) (tl (callback_list (mon (initial_system p_store))))"
    by (auto simp: initial_system_def)
  from only_callback_cleared [OF s1(4), of sq] obtain s2 xs where s2: "reaches sq s1 s2"
    "calls s2 = [Returned 0, Stop]" "is_polling (mon s2)" "callback_list (mon s2) = (0, None) # xs"
    using s1(2,3) by (auto simp: list_all_iff)
  define a where "a = s2\<lparr>calls := [Returned 0, Stop] @ [Init 0 2]\<rparr>"
  define b where "b = a\<lparr>mon := mon a, calls := [Returned 0, Stop] @ [Fill 0 2]\<rparr>"
  define m where "m = (mon b)\<lparr>callback_list := (0, Some 2) # xs\<rparr>"
  define c where "c = b\<lparr>mon := m, calls := [Returned 0, Stop] @ [Returned 0]\<rparr>"
  define d where "d = c\<lparr>mon := stop_section (mon c), calls := (calls c)[1 := Returned NVM_SUCCESS]\<rparr>"
  have "sys_step sq s2 a" unfolding a_def using sys_step.add [of sq s2 0 2] by (simp add: s2(2))
  moreover have "init_section sq (event_db a) (mon a) = (mon a, False)" by (simp add: a_def s2(3) init_section_def)
  then have "sys_step sq a b"
    unfolding b_def using next_call_steps(1) [of a "[Returned 0, Stop]" "Init 0 2" 0 2 sq "mon a" False]
    by (simp add: a_def)
  moreover have "fill_section 0 2 (mon b) = (0, m)" by (simp add: fill_section_def m_def b_def a_def s2(4))
  then have "sys_step sq b c"
    unfolding c_def using next_call_steps(3) [of b "[Returned 0, Stop]" "Fill 0 2" 0 2 0 m sq] by (simp add: b_def)
  moreover have "sys_step sq c d" unfolding d_def by (rule sys_step.stop) (simp_all add: c_def)
  ultimately have "reaches sq s2 d" by (meson reaches.intros)
  with s1(1) s2(1) have "reaches sq (initial_system p_store) d" by (blast intro: reaches_trans)
  moreover have "list_all returned (calls d)" by (simp add: d_def c_def returned_def)
  moreover have "subscribed (mon d)" "\<not> is_polling (mon d)"
    by (simp_all add: d_def c_def m_def stop_section_def subscribed_def)
  ultimately show ?thesis by blast
qed

lemma subscribe_and_leave:
  assumes "\<not> is_polling (mon s)" "callback_list (mon s) \<noteq> []" "list_all returned (calls s)"
  shows "\<exists>t. reaches sq s t \<and> \<not> is_polling (mon t) \<and> callback_list (mon t) \<noteq> [] \<and> list_all returned (calls t) \<and>
    pollers t = pollers s @ [Checking]"
proof -
  from first_subscription [OF assms(1,2), of sq 0 1] obtain s1 where s1: "reaches sq s s1"
    "calls s1 = calls s @ [Returned 0]" "pollers s1 = pollers s @ [Checking]" "is_polling (mon s1)"
    "callback_list (mon s1) = (0, Some 1) # map (\<lambda>x. (fst x, None)) (tl (callback_list (mon s)))"
    by auto
  from only_callback_cleared [OF s1(5), of sq] obtain s2 xs where s2: "reaches sq s1 s2"
    "calls s2 = calls s1 @ [Stop]" "pollers s2 = pollers s1" "callback_list (mon s2) = (0, None) # xs"
    by (auto simp: list_all_iff)
  let ?t = "s2\<lparr>mon := stop_section (mon s2), calls := calls s1 @ [Returned NVM_SUCCESS]\<rparr>"
  have "sys_step sq s2 ?t" using s2(2) next_call_steps(5) [of s2 "calls s1" Stop sq] by simp
  with s1(1) s2(1) have "reaches sq s ?t" by (blast intro: reaches_trans reaches.intros)
  then show ?thesis
    using s1(2,3) s2(3,4) assms(3) by (intro exI [of _ ?t]) (simp add: stop_section_def returned_def)
qed

text \<open>Subscribing and leaving again within the second a polling thread sleeps leaves that thread behind: any
  number of threads can end up polling for one subscriber.\<close>

theorem polling_threads_pile_up:
  "\<exists>s. reaches sq (initial_system p_store) s \<and> list_all returned (calls s) \<and> is_polling (mon s) \<and>
     length (callees (callback_list (mon s)) e) \<le> 1 \<and> pollers s = replicate (Suc n) Checking"
proof -
  have "\<exists>s. reaches sq (initial_system p_store) s \<and> \<not> is_polling (mon s) \<and> callback_list (mon s) \<noteq> [] \<and>
      list_all returned (calls s) \<and> pollers s = replicate n Checking"
  proof (induction n)
    case 0
    then show ?case
      by (intro exI [of _ "initial_system p_store"] conjI reaches.here)
        (simp_all add: initial_system_def initial_monitor_def)
  next
    case (Suc n)
    then obtain s where "reaches sq (initial_system p_store) s" "\<not> is_polling (mon s)" "callback_list (mon s) \<noteq> []"
      "list_all returned (calls s)" "pollers s = replicate n Checking" by blast
    with subscribe_and_leave [OF this(2-4), of sq] show ?case
      by (auto simp: replicate_append_same dest: reaches_trans)
  qed
  then obtain s where s: "reaches sq (initial_system p_store) s" "\<not> is_polling (mon s)" "callback_list (mon s) \<noteq> []"
    "list_all returned (calls s)" "pollers s = replicate n Checking" by blast
  from first_subscription [OF s(2,3), of sq 0 1] obtain t where t: "reaches sq s t" "calls t = calls s @ [Returned 0]"
    "pollers t = pollers s @ [Checking]" "is_polling (mon t)"
    "callback_list (mon t) = (0, Some 1) # map (\<lambda>x. (fst x, None)) (tl (callback_list (mon s)))" by auto
  have "concat (map (\<lambda>s. case snd s of None \<Rightarrow> [] | Some cb \<Rightarrow> if fst s = ev_type e \<or> fst s = EVENT_TYPE_ALL then [cb] else [])
      (map (\<lambda>x. (fst x, None)) xs)) = ([] :: nat list)" for xs :: "slot list"
    by (induction xs) simp_all
  then have "length (callees (callback_list (mon t)) e) \<le> 1" by (simp add: t(5) callees_def)
  with s(1,4,5) t(1-4) show ?thesis
    by (intro exI [of _ t]) (auto simp: replicate_append_same returned_def intro: reaches_trans)
qed

section \<open>Looking at the table\<close>

lemma read_row_fields:
  "row_to_event r old = Some e \<Longrightarrow> event_id e = word_of_int (db_id r) \<and> ev_type e = db_type r"
  by (auto simp: row_to_event_def populate_event_message_def Let_def split: if_splits bind_splits)

lemma no_filter [simp]: "event_matches_filter (Some zero_filter) r"
  by (simp add: event_matches_filter_def zero_filter_def Let_def)

lemma newer_as_words:
  assumes "0 \<le> i" "i < 2 ^ 31" "0 \<le> j" "j < 2 ^ 31"
  shows "(word_of_int i :: u32) < word_of_int j \<longleftrightarrow> i < j"
  using assms by (simp add: word_less_def uint_word_of_int take_bit_int_eq_self)

lemma concat_map_if: "concat (map (\<lambda>x. if P x then f x else []) xs) = concat (map f (filter P xs))"
  by (induction xs) simp_all

context sqlite_store
begin

lemma newest_event_id:
  assumes "ok db"
  shows "get_nvm_event_id sq (Some db) = (case event_rows sq db of e # _ \<Rightarrow> db_id e | [] \<Rightarrow> 0)"
    and "r \<in> set (event_rows sq db) \<Longrightarrow> db_id r \<le> get_nvm_event_id sq (Some db)"
proof -
  show g: "get_nvm_event_id sq (Some db) = (case event_rows sq db of e # _ \<Rightarrow> db_id e | [] \<Rightarrow> 0)"
    using prepared [OF assms] max_event_id [OF assms] by (simp add: get_nvm_event_id_def run_scalar_sql_def)
  assume "r \<in> set (event_rows sq db)"
  with newest [OF assms] show "db_id r \<le> get_nvm_event_id sq (Some db)"
    unfolding g by (fastforce simp: newest_first_def split: list.splits)
qed

lemma rows_for_poll:
  assumes "ok db" "length (event_rows sq db) < 2 ^ 16" "event_rows sq db \<noteq> []"
    "list_all (\<lambda>r. row_to_event r junk \<noteq> None) (event_rows sq db)"
  shows "process_events_matching_filter sq (Some zero_filter) None 0 False (Some db) =
      Some (int (length (event_rows sq db)), None, Some db)"
    and "process_events_matching_filter sq (Some zero_filter) (Some (replicate (length (event_rows sq db)) junk))
      (word_of_nat (length (event_rows sq db))) False (Some db) =
      Some (int (length (event_rows sq db)), Some (map (\<lambda>r. the (row_to_event r junk)) (event_rows sq db)), Some db)"
proof -
  let ?n = "length (event_rows sq db)"
  have all: "filter (event_matches_filter (Some zero_filter)) rs = rs" for rs by (simp add: filter_id_conv)
  show "process_events_matching_filter sq (Some zero_filter) None 0 False (Some db) = Some (int ?n, None, Some db)"
    by (simp add: process_is_loop [OF assms(1)] count_rows all)
  have u: "unat (word_of_nat ?n :: u16) = ?n"
    using assms(2) by (simp add: unsigned_of_nat take_bit_nat_eq_self)
  then have "(word_of_nat ?n :: u16) \<noteq> 0" using assms(3) by (metis length_0_conv unsigned_0)
  then have "0 < (word_of_nat ?n :: u16)" by (simp add: word_neq_0_conv)
  then show "process_events_matching_filter sq (Some zero_filter) (Some (replicate ?n junk)) (word_of_nat ?n)
      False (Some db) = Some (int ?n, Some (map (\<lambda>r. the (row_to_event r junk)) (event_rows sq db)), Some db)"
    using copied_rows [of "word_of_nat ?n" "[]" ?n "Some zero_filter" "event_rows sq db" junk sq "[]" db] u assms(4)
    by (simp add: process_is_loop [OF assms(1)] all)
qed

end



end
