(* ===== verification/Temperature.thy ===== *)
theory Temperature
  imports DeviceFw
begin

text \<open>
  Temperatures in callers' structures are the 32 bits of a float in a 64-bit number
  (\<^verbatim>\<open>nvm_encode_temperature\<close> and \<^verbatim>\<open>nvm_decode_temperature\<close> of \<^verbatim>\<open>src/lib/nvm_management.h\<close>).
\<close>

text \<open>The value of the bits of a float: sign, 8 bits of exponent, 23 of fraction. Infinities and what is no
  number have none.\<close>

definition nvm_decode_temperature :: "u32 \<Rightarrow> rat option" where
  "nvm_decode_temperature value =
     (let e = unat (drop_bit 23 value AND 0xFF);
          f = unat (value AND 0x7FFFFF);
          v = (if e = 0 then of_nat f / 2 ^ 149 else of_nat (2 ^ 23 + f) * 2 ^ e / 2 ^ 150)
      in if e = 255 then None else Some (if bit value 31 then - v else v))"

text \<open>The position of the highest bit.\<close>

fun top_bit :: "nat \<Rightarrow> nat" where
  "top_bit n = (if n < 2 then 0 else Suc (top_bit (n div 2)))"

declare top_bit.simps [simp del]

text \<open>The bits of the float of so many sixteenths.\<close>

definition float_of_sixteenths :: "nat \<Rightarrow> nat" where
  "float_of_sixteenths m =
     (if m = 0 then 0 else 2 ^ 23 * (top_bit m + 123) + (m - 2 ^ top_bit m) * 2 ^ (23 - top_bit m))"

text \<open>The float that \<^verbatim>\<open>fw_convert_fw_celsius_to_float\<close> returns: a zero keeps its sign.\<close>

definition encode_fw_celsius :: "u16 \<Rightarrow> u32" where
  "encode_fw_celsius fw =
     (if bit fw 15 then 0x80000000 else 0) OR of_nat (float_of_sixteenths (unat (fw AND 0x7FFF)))"

lemma top_bit_bounds: "0 < n \<Longrightarrow> 2 ^ top_bit n \<le> n \<and> n < 2 ^ Suc (top_bit n)"
proof (induction n rule: top_bit.induct)
  case (1 n)
  show ?case
  proof (cases "n < 2")
    case True
    with 1(2) show ?thesis by (simp add: top_bit.simps)
  next
    case False
    with 1 have "2 ^ top_bit (n div 2) \<le> n div 2 \<and> n div 2 < 2 ^ Suc (top_bit (n div 2))" by simp
    with False show ?thesis by (subst (1 2) top_bit.simps) auto
  qed
qed

lemma fw_magnitude: "unat (fw AND 0x7FFF) = 16 * fw_degrees fw + fw_sixteenths fw"
proof -
  have m: "(0x7FFF :: u16) = mask 15" by (simp add: mask_eq_exp_minus_1)
  have "unat (fw AND 0x7FFF) = take_bit 15 (unat fw)"
    unfolding m by (simp add: take_bit_eq_mask [symmetric] unsigned_take_bit_eq)
  moreover have "fw_sixteenths fw = take_bit 4 (unat fw)"
    unfolding fw_sixteenths_def fw_masks(2) by (simp add: take_bit_eq_mask [symmetric] unsigned_take_bit_eq)
  moreover have "unat fw < 2 ^ LENGTH(16)" by (rule unsigned_less)
  then have "take_bit 16 (unat fw) = unat fw" by (simp add: take_bit_nat_eq_self)
  then have "fw_degrees fw = take_bit 11 (drop_bit 4 (unat fw))"
    unfolding fw_degrees_def fw_masks(1)
    by (simp add: take_bit_eq_mask [symmetric] unsigned_take_bit_eq unsigned_drop_bit_eq)
  moreover have "take_bit 15 n = 16 * take_bit 11 (drop_bit 4 n) + take_bit 4 n" for n :: nat
    using mod_mult2_eq [of n 16 2048] by (simp add: take_bit_eq_mod drop_bit_eq_div)
  ultimately show ?thesis by simp
qed

lemma quotient_and_rest:
  fixes r n q :: nat
  shows "r < n \<Longrightarrow> (n * q + r) div n = q" and "r < n \<Longrightarrow> (n * q + r) mod n = r"
  by simp_all

lemma word_fields:
  fixes x :: u32
  shows "unat (drop_bit 23 x AND 0xFF) = unat x div 2 ^ 23 mod 2 ^ 8"
    and "unat (x AND 0x7FFFFF) = unat x mod 2 ^ 23"
proof -
  have m: "(0xFF :: u32) = mask 8" "(0x7FFFFF :: u32) = mask 23" by (simp_all add: mask_eq_exp_minus_1)
  have "unat x < 2 ^ LENGTH(32)" by (rule unsigned_less)
  then have t: "take_bit 32 (unat x) = unat x" by (simp add: take_bit_nat_eq_self)
  show "unat (x AND 0x7FFFFF) = unat x mod 2 ^ 23"
    unfolding m(2) take_bit_eq_mask [symmetric] unsigned_take_bit_eq by (simp only: take_bit_eq_mod)
  have "unat (take_bit 8 (drop_bit 23 x)) = take_bit 8 (drop_bit 23 (unat x))"
    unfolding unsigned_take_bit_eq unsigned_drop_bit_eq by (simp add: t)
  then show "unat (drop_bit 23 x AND 0xFF) = unat x div 2 ^ 23 mod 2 ^ 8"
    unfolding m(1) take_bit_eq_mask [symmetric] by (simp only: take_bit_eq_mod drop_bit_eq_div)
qed

lemma float_parts:
  assumes "0 < m" "m < 2 ^ 15"
  shows "float_of_sixteenths m div 2 ^ 23 = top_bit m + 123"
    and "2 ^ 23 + float_of_sixteenths m mod 2 ^ 23 = m * 2 ^ (23 - top_bit m)"
    and "top_bit m < 15"
proof -
  define k where "k = top_bit m"
  have b: "2 ^ k \<le> m" "m < 2 ^ k + 2 ^ k" using top_bit_bounds [OF assms(1)] by (simp_all add: k_def)
  then have "(2 :: nat) ^ k < 2 ^ 15" using assms(2) by linarith
  then have k: "k < 15" by (rule power_less_imp_less_exp [rotated]) simp
  define F where "F = (m - 2 ^ k) * 2 ^ (23 - k)"
  have p: "(2 :: nat) ^ k * 2 ^ (23 - k) = 2 ^ 23" using k by (simp flip: power_add)
  have "m - 2 ^ k < 2 ^ k" using b by linarith
  then have "F < 2 ^ k * 2 ^ (23 - k)" unfolding F_def by simp
  then have F: "F < 2 ^ 23" unfolding p .
  have e: "float_of_sixteenths m = 2 ^ 23 * (k + 123) + F"
    using assms(1) by (simp add: float_of_sixteenths_def k_def F_def)
  show "float_of_sixteenths m div 2 ^ 23 = top_bit m + 123"
    unfolding e using quotient_and_rest(1) [OF F] by (simp only: k_def)
  have "2 ^ k * 2 ^ (23 - k) + F = m * 2 ^ (23 - k)"
    unfolding F_def using b(1) by (simp flip: add_mult_distrib)
  then show "2 ^ 23 + float_of_sixteenths m mod 2 ^ 23 = m * 2 ^ (23 - top_bit m)"
    unfolding e p quotient_and_rest(2) [OF F] by (simp only: k_def)
  show "top_bit m < 15" using k by (simp only: k_def)
qed

lemma float_less: "m < 2 ^ 15 \<Longrightarrow> float_of_sixteenths m < 2 ^ 31"
proof (cases "m = 0")
  case False
  assume "m < 2 ^ 15"
  with False have "float_of_sixteenths m div 2 ^ 23 < 2 ^ 8" using float_parts(1,3) [of m] by simp
  then show ?thesis by (simp add: div_less_iff_less_mult)
qed (simp add: float_of_sixteenths_def)

lemma sign_and_magnitude:
  fixes neg :: bool
  assumes "b < 2 ^ 31"
  defines "x \<equiv> (if neg then 0x80000000 else 0) OR of_nat b :: u32"
  shows "bit x 31 = neg"
    and "unat (drop_bit 23 x AND 0xFF) = b div 2 ^ 23"
    and "unat (x AND 0x7FFFFF) = b mod 2 ^ 23"
proof -
  define s where "s = (if neg then 2 ^ 31 else 0 :: nat)"
  have "of_nat s = (if neg then push_bit 31 1 else 0 :: u32)" by (simp add: s_def)
  moreover have "bit (push_bit 31 1 :: u32) n \<Longrightarrow> n = 31" for n by (simp only: bit_push_bit_iff bit_1_iff) auto
  ultimately have "bit (of_nat s :: u32) n \<Longrightarrow> n = 31" for n by (simp only: bit_0_eq split: if_splits) auto
  moreover have "\<not> bit b 31" using div_less [OF assms(1)] by (simp only: bit_iff_odd) simp
  then have "\<not> bit (of_nat b :: u32) 31" by (simp only: bit_of_nat_iff) simp
  ultimately have "of_nat s AND of_nat b = (0 :: u32)" by (intro bit_word_eqI) (auto simp: bit_and_iff)
  then have "of_nat s OR of_nat b = (of_nat (s + b) :: u32)" by (simp add: disjunctive_add_eq_or [symmetric])
  then have "x = of_nat (s + b)" by (simp add: x_def s_def split: if_splits)
  moreover have "s + b < 2 ^ LENGTH(32)" using assms(1) by (simp add: s_def)
  ultimately have u: "unat x = s + b" by (simp only: unsigned_of_nat take_bit_nat_eq_self of_nat_id)
  have s: "s = 2 ^ 23 * (if neg then 2 ^ 8 else 0)" by (simp add: s_def)
  have "bit x 31 = bit (unat x) 31" by (simp only: bit_unsigned_iff) simp
  then show "bit x 31 = neg" using assms(1) unfolding u by (simp only: bit_iff_odd) (simp add: s_def)
  have "(s + b) div 2 ^ 23 = (if neg then 2 ^ 8 else 0) + b div 2 ^ 23" unfolding s by simp
  moreover have "b div 2 ^ 23 < 2 ^ 8" using assms(1) by (simp add: div_less_iff_less_mult)
  ultimately show "unat (drop_bit 23 x AND 0xFF) = b div 2 ^ 23" unfolding word_fields u by simp
  show "unat (x AND 0x7FFFFF) = b mod 2 ^ 23" unfolding word_fields u s by simp
qed


end
