(* ===== verification/Spec2Isabelle.thy ===== *)
theory Spec2Isabelle
  imports GoalSamples NsFacts SmbiosFacts SubscriptionFacts Temperature
begin

text \<open>
  A model of the management library for Intel DIMMs (\<^verbatim>\<open>src/src/lib\<close> and the helpers of
  \<^verbatim>\<open>src/src/common\<close> it stands on).

  The library answers requests of the command line, the CIM provider and the monitor about
  non-volatile memory modules. It asks the operating system's driver, keeps what it learnt in one
  context protected by a mutex, and exchanges configuration tables with the BIOS through each
  module's firmware.

  Conventions. A C function is a function on explicit state. Its result is \<open>None\<close> where the C
  code has no defined result (an access behind an array, a null dereference, a division by zero),
  and for a loop that does not end. Return codes are integers, machine integers are words of their
  width, a buffer is the list of its bytes, and a pointer that may be null is an option.

  \<^item> \<open>CPrelude\<close>: words, buffers, little-endian reads and stores, return codes, searches
    (\<^verbatim>\<open>common_types.h\<close>, \<^verbatim>\<open>return_code.h\<close>).
  \<^item> \<open>NvmTypes\<close>: the structures of \<^verbatim>\<open>nvm_management.h\<close> and \<^verbatim>\<open>nvm_types.h\<close>.
  \<^item> \<open>Guid\<close>: printing, parsing, comparing and hashing GUIDs (\<^verbatim>\<open>guid.c\<close>).
  \<^item> \<open>Utility\<close>: interleave formats, divisors, rounding, block sizes (\<^verbatim>\<open>utility.h\<close>).
  \<^item> \<open>SStr\<close>, \<open>Revision\<close>: bounded strings, number parsing (\<^verbatim>\<open>s_str.c\<close>) and
    version texts (\<^verbatim>\<open>revision.c\<close>).
  \<^item> \<open>NvmContext\<close>: the cache (\<^verbatim>\<open>nvm_context.c\<close>), its invariant over every
    sequence of calls, and the interface \<open>keyed_cache\<close> with its two interpretations.
  \<^item> \<open>Buffers\<close>, \<open>Pcd\<close>, \<open>PcdTables\<close>: the BIOS configuration data, its checksums,
    validation and table walks (\<^verbatim>\<open>platform_config_data.c\<close>), and what they mean on
    well-formed tables.
  \<^item> \<open>Adapter\<close>, \<open>Device\<close>: the driver as a parameter, and device discovery on top of it
    and of the cache (\<^verbatim>\<open>device.c\<close>, \<^verbatim>\<open>device_utilities.c\<close>).
  \<^item> \<open>Capabilities\<close>: what driver, BIOS and modules support together, kept in the cache
    (\<^verbatim>\<open>capabilities.c\<close>).
  \<^item> \<open>Lookups\<close>: what a lookup may change: the steps of the world it is made of.
  \<^item> \<open>PcdIo\<close>: reading and writing the configuration data through the firmware, in small
    payloads or a large one, and the copy kept in the context.
  \<^item> \<open>Security\<close>: passphrases, unlocking and erasing, as the commands they send
    (\<^verbatim>\<open>security.c\<close>).
  \<^item> \<open>Reads\<close>: the steps that only read, as a relation, and that they change no device.
  \<^item> \<open>Capacity\<close>: partition sizes, capacities, the namespaces of a module and the license
    checks over them (\<^verbatim>\<open>device_utilities.c\<close>, \<^verbatim>\<open>capabilities.c\<close>).
  \<^item> \<open>ConfigGoal\<close>, \<open>GoalTables\<close>, \<open>GoalSamples\<close>: configuration goals
    (\<^verbatim>\<open>config_goal.c\<close>): what validation guarantees, when a goal is written, the table it
    becomes and what is read back from it; the inputs the statements are instantiated on.
  \<^item> \<open>DeviceFw\<close>, \<open>DeviceStatus\<close>: the firmware commands, temperatures and error codes
    (\<^verbatim>\<open>device_fw.c\<close>), and the status, settings, performance and total capacities built on them.
  \<^item> \<open>FwUpdate\<close>: firmware images, their examination and their transfer in packets
    (\<^verbatim>\<open>device.c\<close>), with what the receiving side puts together from them.
  \<^item> \<open>Pools\<close>, \<open>PoolFacts\<close>, \<open>PoolApi\<close>: the pools of the sockets
    (\<^verbatim>\<open>pool_utilities.c\<close>), that their arrays stay parallel and hold every interleave set,
    and what callers get of them (\<^verbatim>\<open>pool.c\<close>).
  \<^item> \<open>ConfigFile\<close>, \<open>ConfigFileFacts\<close>: configurations dumped to text files and loaded
    from them (\<^verbatim>\<open>pool.c\<close>, \<^verbatim>\<open>x_str.c\<close>).
  \<^item> \<open>NsSpace\<close>, \<open>NsCreate\<close>, \<open>NsManage\<close>, \<open>NsFacts\<close>: namespaces
    (\<^verbatim>\<open>namespace.c\<close>): the room for them, creating them, and those there are; that an App Direct
    namespace is only placed where it fits, that default names are new and adjusted sizes aligned.
  \<^item> \<open>Smbios\<close>, \<open>SmbiosFacts\<close>: the SMBIOS tables and the memory topology
    (\<^verbatim>\<open>smbios.c\<close>, \<^verbatim>\<open>smbios_utilities.c\<close>), with what is read back from a table of
    well-formed structures.
  \<^item> \<open>Temperature\<close>: temperatures as the bits of a float (\<^verbatim>\<open>nvm_management.h\<close>).
  \<^item> \<open>Database\<close>: the generated table operations and the settings
    (\<^verbatim>\<open>schema.c.template\<close>, \<^verbatim>\<open>lib_persistence.c\<close>); the interface \<open>sqlite_store\<close>
    says what SQLite keeps, with the tables as lists as its interpretation.
  \<^item> \<open>Events\<close>, \<open>EventFacts\<close>: the event log (\<^verbatim>\<open>event.c\<close>, \<^verbatim>\<open>monitor.c\<close>): messages,
    storing and rolling, reading, purging and acknowledging; a stored event is read back, and the log is bounded.
  \<^item> \<open>Subscriptions\<close>, \<open>SubscriptionFacts\<close>: callbacks for events and the threads that poll
    for them (\<^verbatim>\<open>monitor.c\<close>), as a step relation over the sections under the mutex, with its
    invariant, its races, and what one look at the table calls.

  Loops over data of unknown length that may not end (a table of length zero) are partial
  functions, so that not ending is \<open>None\<close>; all others terminate by a measure.

  Not modelled: the operating system adapters, SQLite, trace logging, diagnostics and the C++
  front ends, which call this library or pass data through.
\<close>

end
